(* ===== verification/Prelude.thy ===== *)
theory Prelude
  imports Main "HOL-Library.Word" "HOL-Library.Code_Target_Nat"
begin

text \<open>
  Shared vocabulary of the development.

  \<^item> Text. A Rust \<open>char\<close> is a Unicode scalar value, here a natural number (its code point);
    a \<open>String\<close> or \<open>Vec<char>\<close> is a list of them. \<open>ch\<close> and \<open>lit\<close> embed the ASCII
    literals of the source.
  \<^item> Failure. A computation of the source either returns, returns \<open>Err\<close>, or panics;
    a recursion that is cut by a bound of the model ends in \<open>OutOfFuel\<close>, which the
    theorems show to be unreachable.
  \<^item> State. Methods on \<open>&mut self\<close> are state-passing functions with failure
    (\<open>sm\<close>); loops are \<open>sloop\<close>, which unrolls a body at most as often as a measure of
    the entry state says.
  \<^item> Reasoning. \<open>wp\<close> is the weakest precondition of total correctness: no panic, no
    exhausted bound, every error satisfies the error predicate, every result satisfies the
    postcondition. The locale \<open>cursor\<close> states what a position in an input has to satisfy
    for the loop rule; the parser and the lookahead scanner are instances.
\<close>

named_theorems wp_simps \<open>equations of the weakest precondition calculus\<close>
named_theorems eval_simps \<open>equations that evaluate closed instances of the model\<close>

section \<open>Text\<close>

type_synonym uchar = nat
type_synonym ustring = "uchar list"

definition ch :: "char \<Rightarrow> uchar" where
  "ch c = of_char c"

definition lit :: "string \<Rightarrow> ustring" where
  "lit s = map ch s"

lemma inj_ch: "inj ch"
  by (simp add: ch_def inj_def)

lemma ch_eq_iff [simp]: "ch a = ch b \<longleftrightarrow> a = b"
  by (simp add: ch_def)

lemma lit_eq_iff [simp]: "lit a = lit b \<longleftrightarrow> a = b"
  using inj_ch by (simp add: lit_def inj_map_eq_map)

lemma lit_Nil [simp]: "lit [] = []" and lit_Cons: "lit (c # s) = ch c # lit s"
  and lit_append: "lit (s @ t) = lit s @ lit t"
  by (simp_all add: lit_def)

text \<open>\<open>char::len_utf8\<close>: the bytes a scalar value takes in UTF-8.\<close>

definition len_utf8 :: "uchar \<Rightarrow> nat" where
  "len_utf8 c = (if c < 0x80 then 1 else if c < 0x800 then 2 else if c < 0x10000 then 3 else 4)"

lemma len_utf8_pos [simp]: "0 < len_utf8 c"
  by (simp add: len_utf8_def)

lemma len_utf8_le: "len_utf8 c \<le> 4"
  by (simp add: len_utf8_def)

text \<open>\<open>str::len\<close>: the length of a string in bytes.\<close>

definition str_len :: "ustring \<Rightarrow> nat" where
  "str_len s = sum_list (map len_utf8 s)"

lemma str_len_append [simp]: "str_len (s @ t) = str_len s + str_len t"
  by (simp add: str_len_def)

lemma str_len_Nil [simp]: "str_len [] = 0"
  by (simp add: str_len_def)

text \<open>The widths of \<open>usize\<close> and \<open>isize\<close> on the 64-bit targets.\<close>

definition usize_MAX :: nat where
  "usize_MAX = 2 ^ 64 - 1"

definition isize_MAX :: nat where
  "isize_MAX = 2 ^ 63 - 1"

text \<open>The ASCII classes of \<open>char\<close>.\<close>

definition is_ascii_digit :: "uchar \<Rightarrow> bool" where
  "is_ascii_digit c \<longleftrightarrow> ch CHR ''0'' \<le> c \<and> c \<le> ch CHR ''9''"

definition is_ascii_alphabetic :: "uchar \<Rightarrow> bool" where
  "is_ascii_alphabetic c \<longleftrightarrow>
     (ch CHR ''a'' \<le> c \<and> c \<le> ch CHR ''z'') \<or> (ch CHR ''A'' \<le> c \<and> c \<le> ch CHR ''Z'')"

definition is_ascii_alphanumeric :: "uchar \<Rightarrow> bool" where
  "is_ascii_alphanumeric c \<longleftrightarrow> is_ascii_alphabetic c \<or> is_ascii_digit c"

section \<open>Failure and state\<close>

datatype 'e fault = Raise 'e | RustPanic | OutOfFuel

type_synonym ('e, 'a) result = "'e fault + 'a"
type_synonym ('s, 'e, 'a) sm = "'s \<Rightarrow> ('e, 'a \<times> 's) result"

definition sreturn :: "'a \<Rightarrow> ('s, 'e, 'a) sm" where
  "sreturn x s = Inr (x, s)"

definition sraise :: "'e \<Rightarrow> ('s, 'e, 'a) sm" where
  "sraise e s = Inl (Raise e)"

definition spanic :: "('s, 'e, 'a) sm" where
  "spanic s = Inl RustPanic"

definition sfuel :: "('s, 'e, 'a) sm" where
  "sfuel s = Inl OutOfFuel"

definition sget :: "('s \<Rightarrow> 'a) \<Rightarrow> ('s, 'e, 'a) sm" where
  "sget f s = Inr (f s, s)"

definition smodify :: "('s \<Rightarrow> 's) \<Rightarrow> ('s, 'e, unit) sm" where
  "smodify f s = Inr ((), f s)"

definition sbind :: "('s, 'e, 'a) sm \<Rightarrow> ('a \<Rightarrow> ('s, 'e, 'b) sm) \<Rightarrow> ('s, 'e, 'b) sm" where
  "sbind m f s = (case m s of Inl e \<Rightarrow> Inl e | Inr (x, s') \<Rightarrow> f x s')"

text \<open>\<open>if c { return Err(e) }\<close> in the middle of a method.\<close>

definition sguard :: "bool \<Rightarrow> 'e \<Rightarrow> ('s, 'e, unit) sm" where
  "sguard b e = (if b then sreturn () else sraise e)"

text \<open>
  A loop: the body gets the loop variables and either continues with new ones (\<open>Inl\<close>) or
  leaves the loop with a value (\<open>Inr\<close>). \<open>m\<close> bounds the number of iterations from the
  state in which the loop is entered.
\<close>

fun sloop_fuel :: "nat \<Rightarrow> ('b \<Rightarrow> ('s, 'e, 'b + 'a) sm) \<Rightarrow> 'b \<Rightarrow> ('s, 'e, 'a) sm" where
  "sloop_fuel 0 body b = sfuel"
| "sloop_fuel (Suc n) body b =
     sbind (body b) (\<lambda>r. case r of Inl b' \<Rightarrow> sloop_fuel n body b' | Inr a \<Rightarrow> sreturn a)"

definition sloop :: "('s \<Rightarrow> nat) \<Rightarrow> ('b \<Rightarrow> ('s, 'e, 'b + 'a) sm) \<Rightarrow> 'b \<Rightarrow> ('s, 'e, 'a) sm" where
  "sloop m body b s = sloop_fuel (Suc (m s)) body b s"

section \<open>Weakest preconditions\<close>

definition wp :: "('e \<Rightarrow> bool) \<Rightarrow> ('s, 'e, 'a) sm \<Rightarrow> ('a \<Rightarrow> 's \<Rightarrow> bool) \<Rightarrow> 's \<Rightarrow> bool" where
  "wp E m Q s \<longleftrightarrow> (case m s of
       Inr (x, s') \<Rightarrow> Q x s'
     | Inl (Raise e) \<Rightarrow> E e
     | Inl RustPanic \<Rightarrow> False
     | Inl OutOfFuel \<Rightarrow> False)"

lemma wp_return [wp_simps]: "wp E (sreturn x) Q = Q x"
  by (simp add: wp_def sreturn_def fun_eq_iff)

lemma wp_raise [wp_simps]: "wp E (sraise e) Q = (\<lambda>s. E e)"
  by (simp add: wp_def sraise_def fun_eq_iff)

lemma wp_panic [wp_simps]: "wp E spanic Q = (\<lambda>s. False)"
  by (simp add: wp_def spanic_def fun_eq_iff)

lemma wp_fuel [wp_simps]: "wp E sfuel Q = (\<lambda>s. False)"
  by (simp add: wp_def sfuel_def fun_eq_iff)

lemma wp_get [wp_simps]: "wp E (sget f) Q = (\<lambda>s. Q (f s) s)"
  by (simp add: wp_def sget_def fun_eq_iff)

lemma wp_modify [wp_simps]: "wp E (smodify f) Q = (\<lambda>s. Q () (f s))"
  by (simp add: wp_def smodify_def fun_eq_iff)

lemma wp_bind [wp_simps]: "wp E (sbind m f) Q = wp E m (\<lambda>x. wp E (f x) Q)"
  by (auto simp: wp_def sbind_def fun_eq_iff split: sum.splits prod.splits fault.splits)

lemma wp_guard [wp_simps]: "wp E (sguard b e) Q s \<longleftrightarrow> (if b then Q () s else E e)"
  by (simp add: sguard_def wp_return wp_raise)

lemma wp_if [wp_simps]:
  "wp E (if b then m else m') Q = (if b then wp E m Q else wp E m' Q)"
  by simp

lemma wp_let [wp_simps]: "wp E (let x = t in f x) Q = wp E (f t) Q"
  by simp

lemma wp_mono:
  assumes "wp E m Q s" and "\<And>x s'. Q x s' \<Longrightarrow> Q' x s'"
  shows "wp E m Q' s"
  using assms by (auto simp: wp_def split: sum.splits prod.splits fault.splits)

lemma wp_result:
  assumes "wp E m Q s" and "m s = Inr (x, s')"
  shows "Q x s'"
  using assms by (simp add: wp_def)

lemma wp_error:
  assumes "wp E m Q s" and "m s = Inl f"
  shows "\<exists>e. f = Raise e \<and> E e"
  using assms by (simp add: wp_def split: fault.splits)

text \<open>A consequence rule that keeps what the computation leaves in the state.\<close>

lemma wp_conj:
  assumes "wp E m Q s" and "wp E' m Q' s"
  shows "wp (\<lambda>e. E e \<and> E' e) m (\<lambda>x s'. Q x s' \<and> Q' x s') s"
  using assms by (auto simp: wp_def split: sum.splits prod.splits fault.splits)

section \<open>Positions in an input\<close>

text \<open>
  What a position in an input promises: a well-formedness predicate, an order of extension
  that preserves it and a number of remaining symbols that never grows. A loop whose body
  consumes at least one symbol per iteration then needs no other bound than that number.
\<close>

locale cursor =
  fixes wf :: "'s \<Rightarrow> bool"
    and rem :: "'s \<Rightarrow> nat"
    and ext :: "'s \<Rightarrow> 's \<Rightarrow> bool"
  assumes ext_refl: "ext s s"
    and ext_trans: "ext a b \<Longrightarrow> ext b c \<Longrightarrow> ext a c"
    and ext_wf: "ext a b \<Longrightarrow> wf a \<Longrightarrow> wf b"
    and ext_rem: "ext a b \<Longrightarrow> rem b \<le> rem a"
begin

lemma sloop_fuel_wp:
  assumes "wf s" and "I b s" and "rem s < n"
    and body: "\<And>b s. wf s \<Longrightarrow> I b s \<Longrightarrow>
      wp E (body b) (\<lambda>r s'. case r of
          Inl b' \<Rightarrow> ext s s' \<and> rem s' < rem s \<and> I b' s'
        | Inr a \<Rightarrow> Q a s') s"
  shows "wp E (sloop_fuel n body b) Q s"
  using assms(1-3)
proof (induction n arbitrary: b s)
  case 0
  then show ?case by simp
next
  case (Suc n)
  have "wp E (body b) (\<lambda>r. wp E (case r of Inl b' \<Rightarrow> sloop_fuel n body b' | Inr a \<Rightarrow> sreturn a) Q) s"
  proof (rule wp_mono [OF body [OF Suc.prems(1,2)]])
    fix r s'
    assume r: "case r of Inl b' \<Rightarrow> ext s s' \<and> rem s' < rem s \<and> I b' s' | Inr a \<Rightarrow> Q a s'"
    show "wp E (case r of Inl b' \<Rightarrow> sloop_fuel n body b' | Inr a \<Rightarrow> sreturn a) Q s'"
    proof (cases r)
      case (Inl b')
      with r Suc.prems have "wf s'" "I b' s'" "rem s' < n"
        by (auto dest: ext_wf)
      then show ?thesis using Inl by (simp add: Suc.IH)
    next
      case (Inr a)
      with r show ?thesis by (simp add: wp_return)
    qed
  qed
  then show ?case by (simp add: wp_bind)
qed

lemma sloop_wp:
  assumes "wf s" and "I b s"
    and "\<And>b s. wf s \<Longrightarrow> I b s \<Longrightarrow>
      wp E (body b) (\<lambda>r s'. case r of
          Inl b' \<Rightarrow> ext s s' \<and> rem s' < rem s \<and> I b' s'
        | Inr a \<Rightarrow> Q a s') s"
  shows "wp E (sloop rem body b) Q s"
proof -
  have "wp E (sloop_fuel (Suc (rem s)) body b) Q s"
    by (rule sloop_fuel_wp [where I = I, OF assms(1,2) lessI assms(3)])
  then show ?thesis by (simp add: sloop_def wp_def)
qed

end

section \<open>Lists\<close>

lemma nth_append_head: "(xs @ y # ys) ! length xs = y"
  by simp

lemma drop_eq_Cons_nth: "i < length xs \<Longrightarrow> drop i xs = xs ! i # drop (Suc i) xs"
  by (simp add: Cons_nth_drop_Suc)

lemma take_Suc_sum_list:
  "i < length xs \<Longrightarrow> sum_list (map f (take (Suc i) xs)) = sum_list (map f (take i xs)) + (f (xs ! i) :: nat)"
  by (simp add: take_Suc_conv_app_nth)

end
