(* ===== verification/Span_Error.thy ===== *)
theory Span_Error
  imports Prelude
begin

text \<open>
  Source positions (\<open>src/src/span.rs\<close>) and compiler errors (\<open>src/src/error.rs\<close>): the error
  record and its constructors, the diagnostic registry, the classification of messages into
  registry entries, and the bounded, sanitized rendering of a diagnostic.
\<close>

section \<open>Positions and spans\<close>

record position =
  line :: nat
  column :: nat
  offset :: nat

definition Position_new :: "nat \<Rightarrow> nat \<Rightarrow> nat \<Rightarrow> position" where
  "Position_new l c off = \<lparr>line = l, column = c, offset = off\<rparr>"

definition Position_default :: position where
  "Position_default = \<lparr>line = 0, column = 0, offset = 0\<rparr>"

record span =
  sp_start :: position
  sp_end :: position

definition Span_new :: "position \<Rightarrow> position \<Rightarrow> span" where
  "Span_new a b = \<lparr>sp_start = a, sp_end = b\<rparr>"

definition Span_default :: span where
  "Span_default = \<lparr>sp_start = Position_default, sp_end = Position_default\<rparr>"

definition Span_point :: "position \<Rightarrow> span" where
  "Span_point p = \<lparr>sp_start = p, sp_end = p\<rparr>"

definition Span_merge :: "span \<Rightarrow> span \<Rightarrow> span" where
  "Span_merge a b = \<lparr>sp_start = sp_start a, sp_end = sp_end b\<rparr>"

lemmas span_defs = Span_new_def Span_point_def Span_merge_def

section \<open>Errors\<close>

datatype termination_reason = Cancelled | TimedOut

text \<open>An \<open>Instant\<close> is a point of the monotonic clock, here a number of ticks.\<close>

record runtime_termination =
  rt_reason :: termination_reason
  rt_cleanup_deadline :: nat

datatype ku_error_kind = KE_Lex | KE_Parse | KE_Runtime

datatype diagnostic_id =
    DI_RuntimeError
  | DI_SyntaxError
  | DI_UnsupportedSwitch
  | DI_UnsupportedLet
  | DI_TypeMismatch
  | DI_NonBooleanCondition
  | DI_InvalidResultPropagation
  | DI_NonExhaustiveMatch
  | DI_UnreachableMatchArm
  | DI_ImportError
  | DI_UnknownStdModule
  | DI_ConstructorRequiresCall
  | DI_UnusedImport
  | DI_MemberNotExported
  | DI_StdImportRequired
  | DI_PackageError
  | DI_HttpError
  | DI_HttpHandlerSignature
  | DI_HttpHandlerReturn
  | DI_HttpCapturedMutation
  | DI_HttpSharedCallableReassignment
  | DI_InvalidTaskOperation
  | DI_TaskCannotClone
  | DI_TaskAlreadyAwaited
  | DI_TaskGuardMove
  | DI_InvalidOwnedMove
  | DI_CapturedOwnedMove
  | DI_UnusedLocal
  | DI_BorrowedMutation
  | DI_BorrowedMove
  | DI_BorrowedEscape
  | DI_AsyncBorrowedParameter
  | DI_CallableModeMismatch
  | DI_BorrowedOwningArgument
  | DI_SameCallBorrowConflict
  | DI_UnsupportedBorrowedOperation
  | DI_CallSiteAmpersand
  | DI_InvalidAmpersandPosition

record diagnostic_context =
  dc_file :: ustring
  dc_source :: ustring

record error_context =
  ec_diagnostic :: "diagnostic_context option"
  ec_cleanup :: "runtime_termination option"
  ec_terminating :: bool

definition ErrorContext_default :: error_context where
  "ErrorContext_default = \<lparr>ec_diagnostic = None, ec_cleanup = None, ec_terminating = False\<rparr>"

record ku_error =
  ke_kind :: ku_error_kind
  ke_message :: ustring
  ke_span :: span
  ke_domain :: "ustring option"
  ke_code :: "ustring option"
  ke_diagnostic_id :: "diagnostic_id option"
  ke_context :: "error_context option"

definition KuError_new :: "ku_error_kind \<Rightarrow> ustring \<Rightarrow> span \<Rightarrow> ku_error" where
  "KuError_new k m sp = \<lparr>ke_kind = k, ke_message = m, ke_span = sp, ke_domain = None,
     ke_code = None, ke_diagnostic_id = None, ke_context = None\<rparr>"

definition structured ::
    "ku_error_kind \<Rightarrow> ustring \<Rightarrow> ustring \<Rightarrow> ustring \<Rightarrow> span \<Rightarrow> ku_error" where
  "structured k d c m sp = \<lparr>ke_kind = k, ke_message = m, ke_span = sp, ke_domain = Some d,
     ke_code = Some c, ke_diagnostic_id = None, ke_context = None\<rparr>"

definition with_diagnostic_id :: "ku_error \<Rightarrow> diagnostic_id \<Rightarrow> ku_error" where
  "with_diagnostic_id e i = e\<lparr>ke_diagnostic_id := Some i\<rparr>"

definition package_error :: "ustring \<Rightarrow> ustring \<Rightarrow> span \<Rightarrow> ku_error" where
  "package_error c m sp =
     with_diagnostic_id (structured KE_Runtime (lit ''package'') c m sp) DI_PackageError"

definition termination_error :: "runtime_termination \<Rightarrow> span \<Rightarrow> ku_error" where
  "termination_error ctx sp =
     (let (c, m) = (case rt_reason ctx of
          Cancelled \<Rightarrow> (lit ''cancelled'', lit ''async task was cancelled'')
        | TimedOut \<Rightarrow> (lit ''timeout'', lit ''async task timed out''));
          e = structured KE_Runtime (lit ''task'') c m sp
      in e\<lparr>ke_context := Some (ErrorContext_default\<lparr>ec_cleanup := Some ctx, ec_terminating := True\<rparr>)\<rparr>)"

definition error_runtime_termination :: "ku_error \<Rightarrow> runtime_termination option" where
  "error_runtime_termination e = (case ke_context e of
       None \<Rightarrow> None
     | Some c \<Rightarrow> if ec_terminating c then ec_cleanup c else None)"

definition scope_cleanup :: "ku_error \<Rightarrow> runtime_termination option" where
  "scope_cleanup e = (case ke_context e of None \<Rightarrow> None | Some c \<Rightarrow> ec_cleanup c)"

definition remember_scope_cleanup :: "ku_error \<Rightarrow> runtime_termination \<Rightarrow> ku_error" where
  "remember_scope_cleanup e ctx =
     (let metadata = (case ke_context e of None \<Rightarrow> ErrorContext_default | Some c \<Rightarrow> c);
          cleanup = (case ec_cleanup metadata of
              Some existing \<Rightarrow> existing\<lparr>rt_cleanup_deadline :=
                min (rt_cleanup_deadline existing) (rt_cleanup_deadline ctx)\<rparr>
            | None \<Rightarrow> ctx)
      in e\<lparr>ke_context := Some (metadata\<lparr>ec_cleanup := Some cleanup\<rparr>)\<rparr>)"

definition lex_error :: "ustring \<Rightarrow> span \<Rightarrow> ku_error" where
  "lex_error m sp = KuError_new KE_Lex m sp"

definition parse_error :: "ustring \<Rightarrow> span \<Rightarrow> ku_error" where
  "parse_error m sp = KuError_new KE_Parse m sp"

definition runtime_error :: "ustring \<Rightarrow> span \<Rightarrow> ku_error" where
  "runtime_error m sp = KuError_new KE_Runtime m sp"

lemma error_kinds [simp]:
  "ke_kind (lex_error m sp) = KE_Lex"
  "ke_kind (parse_error m sp) = KE_Parse"
  "ke_kind (runtime_error m sp) = KE_Runtime"
  by (simp_all add: lex_error_def parse_error_def runtime_error_def KuError_new_def)

lemma error_spans [simp]:
  "ke_span (lex_error m sp) = sp"
  "ke_span (parse_error m sp) = sp"
  "ke_span (runtime_error m sp) = sp"
  by (simp_all add: lex_error_def parse_error_def runtime_error_def KuError_new_def)

definition error_line :: "ku_error \<Rightarrow> nat" where
  "error_line e = line (sp_start (ke_span e))"

definition error_column :: "ku_error \<Rightarrow> nat" where
  "error_column e = column (sp_start (ke_span e))"

definition with_diagnostic_context :: "ku_error \<Rightarrow> ustring \<Rightarrow> ustring \<Rightarrow> ku_error" where
  "with_diagnostic_context e f src =
     (let c = (case ke_context e of None \<Rightarrow> ErrorContext_default | Some c \<Rightarrow> c);
          c' = (if ec_diagnostic c = None
                then c\<lparr>ec_diagnostic := Some \<lparr>dc_file = f, dc_source = src\<rparr>\<rparr> else c)
      in e\<lparr>ke_context := Some c'\<rparr>)"

section \<open>The diagnostic registry\<close>

record diagnostic_definition =
  dd_id :: diagnostic_id
  dd_code :: ustring
  dd_summary :: ustring
  dd_notes :: "ustring list"
  dd_helps :: "ustring list"

definition DIAGNOSTIC_REGISTRY :: "diagnostic_definition list" where
  "DIAGNOSTIC_REGISTRY = [
     \<lparr>dd_id = DI_RuntimeError, dd_code = lit ''E0001'', dd_summary = lit ''Unclassified runtime error'',
       dd_notes = [],
       dd_helps = []\<rparr>,
     \<lparr>dd_id = DI_SyntaxError, dd_code = lit ''E0101'', dd_summary = lit ''Unclassified lexical or syntax error'',
       dd_notes = [],
       dd_helps = []\<rparr>,
     \<lparr>dd_id = DI_UnsupportedSwitch, dd_code = lit ''E0104'', dd_summary = lit ''Unsupported switch syntax'',
       dd_notes = [],
       dd_helps = [lit ''replace `switch` with `match`'']\<rparr>,
     \<lparr>dd_id = DI_UnsupportedLet, dd_code = lit ''E0105'', dd_summary = lit ''Unsupported let declaration'',
       dd_notes = [],
       dd_helps = [lit ''Ku declares variables by assignment, so remove `let`'']\<rparr>,
     \<lparr>dd_id = DI_TypeMismatch, dd_code = lit ''E0301'', dd_summary = lit ''Type mismatch'',
       dd_notes = [],
       dd_helps = [lit ''make the expression type match the declared or expected type'']\<rparr>,
     \<lparr>dd_id = DI_NonBooleanCondition, dd_code = lit ''E0302'', dd_summary = lit ''Condition must be bool'',
       dd_notes = [lit ''Ku does not use truthy/falsy conditions''],
       dd_helps = [lit ''compare explicitly, for example `value != 0` or `text != \"\"`'']\<rparr>,
     \<lparr>dd_id = DI_InvalidResultPropagation, dd_code = lit ''E0401'', dd_summary = lit ''Invalid Result propagation'',
       dd_notes = [lit ''`?` can only unwrap recoverable Result values''],
       dd_helps = [lit ''change the enclosing function to return `T!`, or handle the error with `try/catch`'']\<rparr>,
     \<lparr>dd_id = DI_NonExhaustiveMatch, dd_code = lit ''E0501'', dd_summary = lit ''Non-exhaustive match'',
       dd_notes = [],
       dd_helps = [lit ''add arms for the missing variants, or add an unguarded catch-all arm'']\<rparr>,
     \<lparr>dd_id = DI_UnreachableMatchArm, dd_code = lit ''E0502'', dd_summary = lit ''Unreachable match arm'',
       dd_notes = [],
       dd_helps = [lit ''remove the unreachable arm, or move the catch-all arm after specific patterns'']\<rparr>,
     \<lparr>dd_id = DI_ImportError, dd_code = lit ''E0600'', dd_summary = lit ''Unclassified import resolution error'',
       dd_notes = [],
       dd_helps = [lit ''check the import path, module name and referenced file'']\<rparr>,
     \<lparr>dd_id = DI_UnknownStdModule, dd_code = lit ''E0601'', dd_summary = lit ''Unknown standard library module'',
       dd_notes = [lit ''standard library module names are lowercase''],
       dd_helps = [lit ''use lowercase std names, for example `import { task, time } from \"std\"`'']\<rparr>,
     \<lparr>dd_id = DI_ConstructorRequiresCall, dd_code = lit ''E0602'', dd_summary = lit ''Constructor requires a function call'',
       dd_notes = [lit ''stdlib constructors are functions, not property-style default objects''],
       dd_helps = [lit ''write `app = http.service()` or `app = http.server(config)`'']\<rparr>,
     \<lparr>dd_id = DI_UnusedImport, dd_code = lit ''E0603'', dd_summary = lit ''Unused import'',
       dd_notes = [lit ''Ku treats unused imports as errors by default''],
       dd_helps = [lit ''remove the import, use the imported name, or alias it with a leading `_` when it is intentionally unused'']\<rparr>,
     \<lparr>dd_id = DI_MemberNotExported, dd_code = lit ''E0604'', dd_summary = lit ''Module member is not exported'',
       dd_notes = [lit ''lowercase top-level names in user files are private to that file''],
       dd_helps = [lit ''rename the exported fn/struct/enum so it starts with an uppercase ASCII letter'']\<rparr>,
     \<lparr>dd_id = DI_StdImportRequired, dd_code = lit ''E0605'', dd_summary = lit ''Standard library module requires explicit import'',
       dd_notes = [lit ''std modules with side effects or runtime state must be imported explicitly''],
       dd_helps = [lit ''add `import { module } from \"std\"`, or use the module path form such as `import \"std.task\"`'']\<rparr>,
     \<lparr>dd_id = DI_PackageError, dd_code = lit ''E0606'', dd_summary = lit ''Unclassified package operation error'',
       dd_notes = [],
       dd_helps = [lit ''check the package error detail, package configuration and dependency source'']\<rparr>,
     \<lparr>dd_id = DI_HttpError, dd_code = lit ''E0700'', dd_summary = lit ''Unclassified HTTP error'',
       dd_notes = [],
       dd_helps = [lit ''check the HTTP error detail, service configuration and route declaration'']\<rparr>,
     \<lparr>dd_id = DI_HttpHandlerSignature, dd_code = lit ''E0701'', dd_summary = lit ''Invalid ordinary HTTP handler signature or response style'',
       dd_notes = [lit ''ordinary HTTP handlers use the Return model''],
       dd_helps = [lit ''write `fn() { return http.text(...) }` when request data is not needed, or `fn(req) { ... }` when it is'']\<rparr>,
     \<lparr>dd_id = DI_HttpHandlerReturn, dd_code = lit ''E0702'', dd_summary = lit ''HTTP handler must return HttpResponse'',
       dd_notes = [lit ''HTTP handlers must return an HttpResponse or HttpResponse!''],
       dd_helps = [lit ''return `http.text/json/html/empty/redirect(...)` from the handler'']\<rparr>,
     \<lparr>dd_id = DI_HttpCapturedMutation, dd_code = lit ''E0703'', dd_summary = lit ''HTTP handler modifies a captured variable'',
       dd_notes = [lit ''HTTP handlers may run concurrently''],
       dd_helps = [lit ''avoid shared mutable captures in handlers until a sync/state API exists'']\<rparr>,
     \<lparr>dd_id = DI_HttpSharedCallableReassignment, dd_code = lit ''E0704'', dd_summary = lit ''Cannot replace an HTTP-shared function binding'',
       dd_notes = [lit ''HTTP route registration makes directly and indirectly shared function bindings non-reassignable''],
       dd_helps = [lit ''keep the registered binding unchanged; use an independent local binding for a different function value'']\<rparr>,
     \<lparr>dd_id = DI_InvalidTaskOperation, dd_code = lit ''E0802'', dd_summary = lit ''Invalid task handle operation'',
       dd_notes = [lit ''Ku does not expose task.spawn, Task.new, or user-level task scheduling''],
       dd_helps = [lit ''start work by calling an async fn, then use `result = await task?`'']\<rparr>,
     \<lparr>dd_id = DI_TaskCannotClone, dd_code = lit ''E0803'', dd_summary = lit ''Task cannot be cloned'',
       dd_notes = [lit ''Task<T> is owned and move-only''],
       dd_helps = [lit ''keep the original task handle and await it once'']\<rparr>,
     \<lparr>dd_id = DI_TaskAlreadyAwaited, dd_code = lit ''E0804'', dd_summary = lit ''Task has already been awaited'',
       dd_notes = [lit ''awaiting a task consumes its result''],
       dd_helps = [lit ''store the awaited value if you need to use it again'']\<rparr>,
     \<lparr>dd_id = DI_TaskGuardMove, dd_code = lit ''E0805'', dd_summary = lit ''Cannot consume a tentative Task binding in a match guard'',
       dd_notes = [lit ''a failed guard must leave its tentative Task payload available to later arms''],
       dd_helps = [lit ''await or move the Task only in the selected match arm'']\<rparr>,
     \<lparr>dd_id = DI_InvalidOwnedMove, dd_code = lit ''E0901'', dd_summary = lit ''Invalid move or use of moved owned value'',
       dd_notes = [lit ''Ku is move-by-default; str/array/object/struct/enum/function values are owned''],
       dd_helps = [lit ''call `.clone()` to keep the original, or restructure so the value is used once'']\<rparr>,
     \<lparr>dd_id = DI_CapturedOwnedMove, dd_code = lit ''E0904'', dd_summary = lit ''Cannot move captured owned value'',
       dd_notes = [lit ''a closure shares captured variables by reference; it may borrow them but cannot move an owned capture out''],
       dd_helps = [lit ''call `.clone()` inside the closure to return or store an owned copy'']\<rparr>,
     \<lparr>dd_id = DI_UnusedLocal, dd_code = lit ''E0905'', dd_summary = lit ''Unused local binding'',
       dd_notes = [lit ''strict unused checks are enabled by `ku check --deny-unused`''],
       dd_helps = [lit ''remove the binding, use it, or rename it with a leading `_` when it is intentionally unused'']\<rparr>,
     \<lparr>dd_id = DI_BorrowedMutation, dd_code = lit ''E0910'', dd_summary = lit ''Cannot modify through borrowed parameter'',
       dd_notes = [lit ''borrowed parameters are read-only''],
       dd_helps = [lit ''remove '&' if this function should take ownership and modify its parameter'']\<rparr>,
     \<lparr>dd_id = DI_BorrowedMove, dd_code = lit ''E0911'', dd_summary = lit ''Cannot move out of borrowed value'',
       dd_notes = [lit ''a borrowed parameter does not own the value''],
       dd_helps = [lit ''use '.clone()' to create an owned value before storing or returning it'']\<rparr>,
     \<lparr>dd_id = DI_BorrowedEscape, dd_code = lit ''E0912'', dd_summary = lit ''Borrowed value escapes current call'',
       dd_notes = [],
       dd_helps = [lit ''clone into an owned local before creating the closure'']\<rparr>,
     \<lparr>dd_id = DI_AsyncBorrowedParameter, dd_code = lit ''E0913'', dd_summary = lit ''Async function declares borrowed parameter'',
       dd_notes = [],
       dd_helps = [lit ''let the async function take ownership, or clone the value before calling it'']\<rparr>,
     \<lparr>dd_id = DI_CallableModeMismatch, dd_code = lit ''E0914'', dd_summary = lit ''Callable parameter mode mismatch'',
       dd_notes = [lit ''owned and borrowed function parameter modes must match exactly''],
       dd_helps = [lit ''use a function whose parameter declarations match the expected '&' modes'']\<rparr>,
     \<lparr>dd_id = DI_BorrowedOwningArgument, dd_code = lit ''E0915'', dd_summary = lit ''Borrowed value passed to owning parameter'',
       dd_notes = [],
       dd_helps = [lit ''use '.clone()' to create an owned argument, or declare the receiving parameter with '&'' @ [39]]\<rparr>,
     \<lparr>dd_id = DI_SameCallBorrowConflict, dd_code = lit ''E0916'', dd_summary = lit ''Borrow conflicts with move or mutation in the same call'',
       dd_notes = [],
       dd_helps = [lit ''finish the borrowing call before moving or modifying the same value'']\<rparr>,
     \<lparr>dd_id = DI_UnsupportedBorrowedOperation, dd_code = lit ''E0917'', dd_summary = lit ''Borrowed operation is not supported'',
       dd_notes = [],
       dd_helps = [lit ''call '.clone()' explicitly before this consuming operation'']\<rparr>,
     \<lparr>dd_id = DI_CallSiteAmpersand, dd_code = lit ''E0918'', dd_summary = lit ''Ampersand is not written at the call site'',
       dd_notes = [],
       dd_helps = [lit ''write 'inspect(value)'; the function signature decides whether it borrows or moves'']\<rparr>,
     \<lparr>dd_id = DI_InvalidAmpersandPosition, dd_code = lit ''E0919'', dd_summary = lit ''Ampersand is outside a parameter slot'',
       dd_notes = [],
       dd_helps = [lit ''write '&name: Type' in a function declaration or '&Type' in a function type parameter slot'']\<rparr>]"

text \<open>\<open>self as usize\<close>: the discriminants number the variants from 0 in declaration order.\<close>

definition diagnostic_index :: "diagnostic_id \<Rightarrow> nat" where
  "diagnostic_index d = (case d of
       DI_RuntimeError \<Rightarrow> 0
     | DI_SyntaxError \<Rightarrow> 1
     | DI_UnsupportedSwitch \<Rightarrow> 2
     | DI_UnsupportedLet \<Rightarrow> 3
     | DI_TypeMismatch \<Rightarrow> 4
     | DI_NonBooleanCondition \<Rightarrow> 5
     | DI_InvalidResultPropagation \<Rightarrow> 6
     | DI_NonExhaustiveMatch \<Rightarrow> 7
     | DI_UnreachableMatchArm \<Rightarrow> 8
     | DI_ImportError \<Rightarrow> 9
     | DI_UnknownStdModule \<Rightarrow> 10
     | DI_ConstructorRequiresCall \<Rightarrow> 11
     | DI_UnusedImport \<Rightarrow> 12
     | DI_MemberNotExported \<Rightarrow> 13
     | DI_StdImportRequired \<Rightarrow> 14
     | DI_PackageError \<Rightarrow> 15
     | DI_HttpError \<Rightarrow> 16
     | DI_HttpHandlerSignature \<Rightarrow> 17
     | DI_HttpHandlerReturn \<Rightarrow> 18
     | DI_HttpCapturedMutation \<Rightarrow> 19
     | DI_HttpSharedCallableReassignment \<Rightarrow> 20
     | DI_InvalidTaskOperation \<Rightarrow> 21
     | DI_TaskCannotClone \<Rightarrow> 22
     | DI_TaskAlreadyAwaited \<Rightarrow> 23
     | DI_TaskGuardMove \<Rightarrow> 24
     | DI_InvalidOwnedMove \<Rightarrow> 25
     | DI_CapturedOwnedMove \<Rightarrow> 26
     | DI_UnusedLocal \<Rightarrow> 27
     | DI_BorrowedMutation \<Rightarrow> 28
     | DI_BorrowedMove \<Rightarrow> 29
     | DI_BorrowedEscape \<Rightarrow> 30
     | DI_AsyncBorrowedParameter \<Rightarrow> 31
     | DI_CallableModeMismatch \<Rightarrow> 32
     | DI_BorrowedOwningArgument \<Rightarrow> 33
     | DI_SameCallBorrowConflict \<Rightarrow> 34
     | DI_UnsupportedBorrowedOperation \<Rightarrow> 35
     | DI_CallSiteAmpersand \<Rightarrow> 36
     | DI_InvalidAmpersandPosition \<Rightarrow> 37)"

definition diagnostic_definition_of :: "diagnostic_id \<Rightarrow> (ku_error, diagnostic_definition) result" where
  "diagnostic_definition_of d =
     (if diagnostic_index d < length DIAGNOSTIC_REGISTRY
      then Inr (DIAGNOSTIC_REGISTRY ! diagnostic_index d) else Inl RustPanic)"

section \<open>Classifying messages\<close>

fun str_starts_with :: "ustring \<Rightarrow> ustring \<Rightarrow> bool" where
  "str_starts_with s [] = True"
| "str_starts_with [] (p # ps) = False"
| "str_starts_with (c # s) (p # ps) = (c = p \<and> str_starts_with s ps)"

fun str_contains :: "ustring \<Rightarrow> ustring \<Rightarrow> bool" where
  "str_contains [] p = str_starts_with [] p"
| "str_contains (c # s) p = (str_starts_with (c # s) p \<or> str_contains s p)"

definition legacy_diagnostic_id :: "ku_error \<Rightarrow> diagnostic_id" where
  "legacy_diagnostic_id e =
     (let m = ke_message e in
      if ke_domain e = Some (lit ''package'') then DI_PackageError
      else if str_contains m (lit ''cannot modify through borrowed parameter'') then DI_BorrowedMutation
      else if str_contains m (lit ''cannot move out of borrowed value'') then DI_BorrowedMove
      else if str_contains m (lit ''borrowed value escapes current call'') then DI_BorrowedEscape
      else if str_contains m (lit ''async functions cannot declare borrowed parameters'') then DI_AsyncBorrowedParameter
      else if str_contains m (lit ''callable parameter mode mismatch'') then DI_CallableModeMismatch
      else if str_contains m (lit ''cannot pass borrowed value'') then DI_BorrowedOwningArgument
      else if str_contains m (lit ''borrow conflicts with move or mutation in the same call'') then DI_SameCallBorrowConflict
      else if str_contains m (lit ''borrowed operation is not supported'') then DI_UnsupportedBorrowedOperation
      else if str_contains m (lit '''&' is not written at the call site'') then DI_CallSiteAmpersand
      else if str_contains m (lit ''single '&' is only allowed'') \<or> str_contains m (lit '''&' is only valid'') then DI_InvalidAmpersandPosition
      else if str_contains m (lit '''let' is not supported'') then DI_UnsupportedLet
      else if str_contains m (lit ''switch is not supported'') then DI_UnsupportedSwitch
      else if str_contains m (lit ''condition must be bool'') then DI_NonBooleanCondition
      else if str_contains m (lit '''?' requires a Result return type'') \<or> str_contains m (lit '''?' expects Result'')  then DI_InvalidResultPropagation
      else if str_contains m (lit ''http handler cannot modify captured variable'') then DI_HttpCapturedMutation
      else if str_contains m (lit ''unknown std module'') then DI_UnknownStdModule
      else if str_contains m (lit ''not exported by'') \<or> str_contains m (lit ''has no exported function'') \<or> str_contains m (lit ''has no exported type'')  then DI_MemberNotExported
      else if str_contains m (lit ''std module'') \<and> str_contains m (lit ''must be imported'') then DI_StdImportRequired
      else if str_contains m (lit ''has already been awaited'') then DI_TaskAlreadyAwaited
      else if str_contains m (lit ''task values cannot be cloned'') then DI_TaskCannotClone
      else if str_contains m (lit ''task handles can only be awaited'') then DI_InvalidTaskOperation
      else if str_contains m (lit ''cannot move captured owned value'') then DI_CapturedOwnedMove
      else if str_contains m (lit ''use of moved value'') \<or> str_contains m (lit ''cannot move an owned field or indexed element'') \<or> str_contains m (lit ''cannot move outer owned value'')  then DI_InvalidOwnedMove
      else if str_contains m (lit ''unused local binding'') then DI_UnusedLocal
      else if str_contains m (lit ''unused import'') then DI_UnusedImport
      else if str_contains m ((lit ''std module member 'http.service'' @ [39])) \<or> str_contains m ((lit ''std module member 'http.server'' @ [39]))  then DI_ConstructorRequiresCall
      else if str_contains m (lit ''http handler parameter'') \<or> str_contains m (lit ''res/writer parameters are not allowed'') \<or> str_contains m (lit ''side-effect response API'') \<or> str_contains m (lit ''ordinary HTTP route handler'') \<or> str_contains m (lit ''fn(req, res) is not allowed'')  then DI_HttpHandlerSignature
      else if str_contains m (lit ''handler did not return HttpResponse'') \<or> str_contains m (lit ''HTTP handler must return HttpResponse'')  then DI_HttpHandlerReturn
      else if str_starts_with m (lit ''type error:'') \<or> str_contains m (lit ''type mismatch'') then DI_TypeMismatch
      else if str_contains m (lit ''not exhaustive'') then DI_NonExhaustiveMatch
      else if str_contains m (lit ''unreachable match arm'') \<or> str_contains m (lit ''match arm after catch-all pattern is unreachable'') \<or> str_contains m (lit ''match arm pattern is unreachable'') \<or> (str_contains m ((lit ''match arm for '' @ [39])) \<and> str_contains m (lit ''' is unreachable''))  then DI_UnreachableMatchArm
      else if str_contains m (lit ''std module'') \<or> str_contains m (lit ''import'') then DI_ImportError
      else if str_contains m (lit ''http '') then DI_HttpError
      else (case ke_kind e of
          KE_Lex \<Rightarrow> DI_SyntaxError
        | KE_Parse \<Rightarrow> DI_SyntaxError
        | KE_Runtime \<Rightarrow> DI_RuntimeError))"

definition error_diagnostic_id :: "ku_error \<Rightarrow> diagnostic_id" where
  "error_diagnostic_id e = (case ke_diagnostic_id e of
       Some d \<Rightarrow> d | None \<Rightarrow> legacy_diagnostic_id e)"

definition diagnostic_info :: "ku_error \<Rightarrow> (ku_error, diagnostic_definition) result" where
  "diagnostic_info e = diagnostic_definition_of (error_diagnostic_id e)"

end
