(* ===== verification/Rust_Num.thy ===== *)
theory Rust_Num
  imports Prelude
begin

text \<open>
  The numeric parsing of the Rust standard library that the lexer uses on a run of ASCII
  digits: \<open>str::parse::<i64>\<close>, which fails above \<open>i64::MAX\<close>, and \<open>str::parse::<f64>\<close>, which
  rounds the decimal to the nearest IEEE 754 double, ties to even. A double is its bit
  pattern.
\<close>

type_synonym i64 = "64 word"

datatype f64 = F64 (f64_bits: "64 word")

definition digit_value :: "uchar \<Rightarrow> nat" where
  "digit_value c = c - ch CHR ''0''"

definition digits_value :: "ustring \<Rightarrow> nat" where
  "digits_value s = foldl (\<lambda>v c. 10 * v + digit_value c) 0 s"

definition i64_MAX :: nat where
  "i64_MAX = 2 ^ 63 - 1"

definition parse_i64 :: "ustring \<Rightarrow> i64 option" where
  "parse_i64 s = (let v = digits_value s in if v \<le> i64_MAX then Some (of_nat v) else None)"

fun bit_len :: "nat \<Rightarrow> nat" where
  "bit_len n = (if n = 0 then 0 else Suc (bit_len (n div 2)))"

declare bit_len.simps [simp del]

text \<open>
  The double nearest to \<open>p / q\<close>: \<open>e\<close> is the binary exponent, not below the one of the
  subnormals; \<open>n\<close> is the significand scaled to 53 bits and rounded half to even. The carry
  of the rounding moves into the exponent field by itself, and everything from \<open>2 ^ 1024\<close> on
  is infinity.
\<close>

definition f64_round :: "nat \<Rightarrow> nat \<Rightarrow> f64" where
  "f64_round p q =
     (if p = 0 then F64 0 else
      let e0 = int (bit_len p) - int (bit_len q);
          e1 = (if p * 2 ^ nat (- e0) < q * 2 ^ nat e0 then e0 - 1 else e0);
          e = max e1 (- 1022);
          num = p * 2 ^ nat (52 - e);
          den = q * 2 ^ nat (e - 52);
          n = num div den;
          r = num mod den;
          n' = (if den < 2 * r \<or> (2 * r = den \<and> odd n) then n + 1 else n);
          b = nat (e + 1022) * 2 ^ 52 + n'
      in F64 (of_nat (min b (0x7FF * 2 ^ 52))))"

definition parse_f64 :: "ustring \<Rightarrow> ustring \<Rightarrow> f64" where
  "parse_f64 whole frac = f64_round (digits_value (whole @ frac)) (10 ^ length frac)"

lemma digits_value_append:
  "digits_value (s @ [c]) = 10 * digits_value s + digit_value c"
  by (simp add: digits_value_def)

lemma parse_i64_None: "parse_i64 s = None \<longleftrightarrow> i64_MAX < digits_value s"
  by (auto simp: parse_i64_def Let_def)

lemma parse_i64_value:
  assumes "parse_i64 s = Some w"
  shows "sint w = int (digits_value s)"
proof -
  from assms have le: "digits_value s \<le> i64_MAX" and w: "w = of_nat (digits_value s)"
    by (auto simp: parse_i64_def Let_def split: if_splits)
  from le have "sint (of_nat (digits_value s) :: i64) = int (digits_value s)"
    by (simp add: i64_MAX_def signed_of_nat signed_take_bit_int_eq_self)
  with w show ?thesis by simp
qed

end
