(* ===== verification/Lexer.thy ===== *)
theory Lexer
  imports Span_Error Rust_Num
begin

text \<open>
  Tokens (\<open>src/src/token.rs\<close>) and the lexer (\<open>src/src/lexer/mod.rs\<close>). The lexer state is the
  record \<open>lexer\<close>; the two fields the source only stores (\<open>_file\<close>, \<open>_source\<close>) are left out.
  Every loop of the source is a recursive function whose termination is proved from the
  number of characters left.
\<close>

section \<open>Tokens\<close>

datatype (plugins only: code size) token_kind =
    TK_Async | TK_Await | TK_Fn | TK_Struct | TK_Enum | TK_Module | TK_Import | TK_From
  | TK_Let | TK_Mut | TK_If | TK_Else | TK_While | TK_For | TK_In | TK_Break
  | TK_Continue | TK_Match | TK_Switch | TK_Try | TK_Catch | TK_Finally | TK_Fail | TK_Panic
  | TK_Return | TK_Print | TK_True | TK_False | TK_Null
  | TK_Ident ustring | TK_Int i64 | TK_Float f64 | TK_String ustring | TK_TemplateString ustring
  | TK_Plus | TK_PlusPlus | TK_PlusEqual | TK_Minus | TK_MinusMinus | TK_MinusEqual | TK_Star | TK_StarEqual
  | TK_Slash | TK_SlashEqual | TK_Percent | TK_PercentEqual | TK_Bang | TK_Question | TK_QuestionDot | TK_BangEqual
  | TK_Equal | TK_Arrow | TK_EqualEqual | TK_Less | TK_LessEqual | TK_Greater | TK_GreaterEqual | TK_Ampersand
  | TK_AndAnd | TK_OrOr | TK_Pipe | TK_Dot | TK_Ellipsis | TK_LParen | TK_RParen | TK_LBrace
  | TK_RBrace | TK_LBracket | TK_RBracket | TK_Comma | TK_Colon | TK_Semicolon | TK_Eof

record token =
  tk_kind :: token_kind
  tk_span :: span

definition Token_new :: "token_kind \<Rightarrow> span \<Rightarrow> token" where
  "Token_new k sp = \<lparr>tk_kind = k, tk_span = sp\<rparr>"

section \<open>The state of the lexer\<close>

record lexer =
  lx_chars :: ustring
  lx_current :: nat
  lx_line :: nat
  lx_column :: nat
  lx_offset :: nat

definition Lexer_new :: "ustring \<Rightarrow> lexer" where
  "Lexer_new source = \<lparr>lx_chars = source, lx_current = 0, lx_line = 1, lx_column = 1, lx_offset = 0\<rparr>"

definition lx_peek :: "lexer \<Rightarrow> uchar option" where
  "lx_peek L = (if lx_current L < length (lx_chars L) then Some (lx_chars L ! lx_current L) else None)"

definition lx_peek_next :: "lexer \<Rightarrow> uchar option" where
  "lx_peek_next L =
     (if lx_current L + 1 < length (lx_chars L) then Some (lx_chars L ! (lx_current L + 1)) else None)"

definition lx_is_at_end :: "lexer \<Rightarrow> bool" where
  "lx_is_at_end L \<longleftrightarrow> length (lx_chars L) \<le> lx_current L"

definition lx_position :: "lexer \<Rightarrow> position" where
  "lx_position L = Position_new (lx_line L) (lx_column L) (lx_offset L)"

definition lx_advance :: "lexer \<Rightarrow> uchar option \<times> lexer" where
  "lx_advance L = (case lx_peek L of
       None \<Rightarrow> (None, L)
     | Some c \<Rightarrow>
         (let L1 = L\<lparr>lx_current := lx_current L + 1, lx_offset := lx_offset L + len_utf8 c\<rparr>
          in (Some c,
              if c = ch CHR 0x0A then L1\<lparr>lx_line := lx_line L + 1, lx_column := 1\<rparr>
              else L1\<lparr>lx_column := lx_column L + 1\<rparr>)))"

abbreviation adv :: "lexer \<Rightarrow> lexer" where
  "adv L \<equiv> snd (lx_advance L)"

definition match_char :: "uchar \<Rightarrow> lexer \<Rightarrow> bool \<times> lexer" where
  "match_char expected L = (if lx_peek L = Some expected then (True, adv L) else (False, L))"

definition is_ident_start :: "uchar \<Rightarrow> bool" where
  "is_ident_start c \<longleftrightarrow> c = ch CHR ''_'' \<or> is_ascii_alphabetic c"

definition is_ident_continue :: "uchar \<Rightarrow> bool" where
  "is_ident_continue c \<longleftrightarrow> c = ch CHR ''_'' \<or> is_ascii_alphanumeric c"

definition lx_rem :: "lexer \<Rightarrow> nat" where
  "lx_rem L = length (lx_chars L) - lx_current L"

lemma lx_advance_chars [simp]: "lx_chars (adv L) = lx_chars L"
  by (simp add: lx_advance_def Let_def split: option.splits)

lemma lx_advance_current: "lx_current (adv L) = (if lx_peek L = None then lx_current L else lx_current L + 1)"
  by (simp add: lx_advance_def Let_def split: option.splits)

lemma lx_advance_fst [simp]: "fst (lx_advance L) = lx_peek L"
  by (simp add: lx_advance_def Let_def split: option.splits)

lemma lx_advance_eq: "lx_advance L = (lx_peek L, adv L)"
  by (simp add: prod_eq_iff)

lemma lx_peek_SomeD: "lx_peek L = Some c \<Longrightarrow> lx_current L < length (lx_chars L) \<and> c = lx_chars L ! lx_current L"
  by (simp add: lx_peek_def split: if_splits)

lemma lx_peek_None: "lx_peek L = None \<longleftrightarrow> lx_is_at_end L"
  by (auto simp: lx_peek_def lx_is_at_end_def)

lemma lx_rem_adv: "lx_peek L \<noteq> None \<Longrightarrow> lx_rem (adv L) < lx_rem L"
  by (auto simp: lx_rem_def lx_advance_current lx_peek_None lx_is_at_end_def)

lemma lx_rem_adv_le: "lx_rem (adv L) \<le> lx_rem L"
  by (auto simp: lx_rem_def lx_advance_current)

lemma lx_rem_adv2: "lx_peek L \<noteq> None \<Longrightarrow> lx_rem (adv (adv L)) < lx_rem L"
  using lx_rem_adv lx_rem_adv_le order_le_less_trans by blast

section \<open>Whitespace and comments\<close>

function skip_line_comment :: "lexer \<Rightarrow> lexer" where
  "skip_line_comment L =
     (if lx_peek L \<noteq> None \<and> lx_peek L \<noteq> Some (ch CHR 0x0A) then skip_line_comment (adv L) else L)"
  by pat_completeness auto
termination
  by (relation "measure lx_rem") (auto simp: lx_rem_adv)

function skip_block_comment :: "position \<Rightarrow> lexer \<Rightarrow> (ku_error, lexer) result" where
  "skip_block_comment start L =
     (if lx_peek L = Some (ch CHR ''*'') \<and> lx_peek_next L = Some (ch CHR ''/'')
      then Inr (adv (adv L))
      else if lx_is_at_end L
      then Inl (Raise (lex_error (lit ''unterminated block comment'') (Span_point start)))
      else skip_block_comment start (adv L))"
  by pat_completeness auto
termination
  by (relation "measure (\<lambda>(p, L). lx_rem L)") (auto simp: lx_rem_adv simp flip: lx_peek_None)

declare skip_line_comment.simps [simp del] skip_block_comment.simps [simp del]

lemma skip_line_comment_rem: "lx_rem (skip_line_comment L) \<le> lx_rem L"
proof (induction L rule: skip_line_comment.induct)
  case (1 L)
  then show ?case
    using lx_rem_adv_le [of L] by (subst skip_line_comment.simps) (auto intro: order_trans)
qed

lemma skip_line_comment_rem_less:
  assumes "lx_peek L = Some c" and "c \<noteq> ch CHR 0x0A"
  shows "lx_rem (skip_line_comment L) < lx_rem L"
  using assms skip_line_comment_rem [of "adv L"] lx_rem_adv [of L]
  by (subst skip_line_comment.simps) auto

lemma skip_block_comment_rem:
  "skip_block_comment p L = Inr L' \<Longrightarrow> lx_rem L' \<le> lx_rem L"
proof (induction p L rule: skip_block_comment.induct)
  case (1 p L)
  then show ?case
    using lx_rem_adv_le [of L] lx_rem_adv_le [of "adv L"]
    by (subst (asm) skip_block_comment.simps) (auto split: if_splits)
qed

function skip_whitespace_and_comments :: "lexer \<Rightarrow> (ku_error, lexer) result" where
  "skip_whitespace_and_comments L = (case lx_peek L of
       None \<Rightarrow> Inr L
     | Some c \<Rightarrow>
         if c \<in> {ch CHR '' '', ch CHR 0x0D, ch CHR 0x09, ch CHR 0x0A, 0xFEFF}
         then skip_whitespace_and_comments (adv L)
         else if c = ch CHR ''/'' \<and> lx_peek_next L = Some (ch CHR ''/'')
         then skip_whitespace_and_comments (skip_line_comment L)
         else if c = ch CHR ''/'' \<and> lx_peek_next L = Some (ch CHR ''*'')
         then (case skip_block_comment (lx_position L) (adv (adv L)) of
                 Inl e \<Rightarrow> Inl e
               | Inr L' \<Rightarrow> skip_whitespace_and_comments L')
         else Inr L)"
  by pat_completeness auto
termination
proof (relation "measure lx_rem", goal_cases)
  case (4 L c L')
  then have "lx_rem L' \<le> lx_rem (adv (adv L))" by (auto dest: skip_block_comment_rem)
  with 4 lx_rem_adv2 [of L] show ?case by auto
qed (auto simp: lx_rem_adv intro!: skip_line_comment_rem_less)

declare skip_whitespace_and_comments.simps [simp del]

section \<open>Literals and identifiers\<close>

function lx_string :: "position \<Rightarrow> ustring \<Rightarrow> lexer \<Rightarrow> (ku_error, ustring \<times> lexer) result" where
  "lx_string start v L = (case lx_peek L of
       None \<Rightarrow> Inl (Raise (lex_error (lit ''unterminated string'') (Span_point start)))
     | Some c \<Rightarrow>
         if c = ch CHR 0x22 then Inr (v, adv L)
         else if c = ch CHR 0x5C then
           (case lx_peek (adv L) of
              None \<Rightarrow> Inl (Raise (lex_error (lit ''unterminated string escape'') (Span_point start)))
            | Some x \<Rightarrow>
                if x = ch CHR ''n'' then lx_string start (v @ [ch CHR 0x0A]) (adv (adv L))
                else if x = ch CHR ''r'' then lx_string start (v @ [ch CHR 0x0D]) (adv (adv L))
                else if x = ch CHR ''t'' then lx_string start (v @ [ch CHR 0x09]) (adv (adv L))
                else if x = ch CHR 0x22 then lx_string start (v @ [ch CHR 0x22]) (adv (adv L))
                else if x = ch CHR 0x5C then lx_string start (v @ [ch CHR 0x5C]) (adv (adv L))
                else Inl (Raise (lex_error
                  (lit ''unknown string escape '' @ [ch CHR 0x27, ch CHR 0x5C, x, ch CHR 0x27])
                  (Span_point (lx_position (adv (adv L)))))))
         else lx_string start (v @ [c]) (adv L))"
  by pat_completeness auto
termination
  by (relation "measure (\<lambda>(p, v, L). lx_rem L)") (auto simp: lx_rem_adv lx_rem_adv2)

function single_string :: "position \<Rightarrow> ustring \<Rightarrow> lexer \<Rightarrow> (ku_error, ustring \<times> lexer) result" where
  "single_string start v L = (case lx_peek L of
       None \<Rightarrow> Inl (Raise (lex_error (lit ''unterminated string'') (Span_point start)))
     | Some c \<Rightarrow>
         if c = ch CHR 0x27 then Inr (v, adv L)
         else if c = ch CHR 0x5C then
           (case lx_peek (adv L) of
              None \<Rightarrow> Inl (Raise (lex_error (lit ''unterminated string escape'') (Span_point start)))
            | Some x \<Rightarrow>
                if x = ch CHR ''n'' then single_string start (v @ [ch CHR 0x0A]) (adv (adv L))
                else if x = ch CHR ''r'' then single_string start (v @ [ch CHR 0x0D]) (adv (adv L))
                else if x = ch CHR ''t'' then single_string start (v @ [ch CHR 0x09]) (adv (adv L))
                else if x = ch CHR 0x27 then single_string start (v @ [ch CHR 0x27]) (adv (adv L))
                else if x = ch CHR 0x5C then single_string start (v @ [ch CHR 0x5C]) (adv (adv L))
                else Inl (Raise (lex_error
                  (lit ''unknown string escape '' @ [ch CHR 0x27, ch CHR 0x5C, x, ch CHR 0x27])
                  (Span_point (lx_position (adv (adv L)))))))
         else single_string start (v @ [c]) (adv L))"
  by pat_completeness auto
termination
  by (relation "measure (\<lambda>(p, v, L). lx_rem L)") (auto simp: lx_rem_adv lx_rem_adv2)

function template_string :: "position \<Rightarrow> ustring \<Rightarrow> lexer \<Rightarrow> (ku_error, ustring \<times> lexer) result" where
  "template_string start v L = (case lx_peek L of
       None \<Rightarrow> Inl (Raise (lex_error (lit ''unterminated template string'') (Span_point start)))
     | Some c \<Rightarrow>
         if c = ch CHR 0x60 then Inr (v, adv L)
         else if c = ch CHR 0x5C then
           (case lx_peek (adv L) of
              None \<Rightarrow> Inl (Raise (lex_error (lit ''unterminated template string escape'') (Span_point start)))
            | Some x \<Rightarrow>
                if x = ch CHR 0x60 then template_string start (v @ [ch CHR 0x60]) (adv (adv L))
                else if x = ch CHR ''{'' then
                  template_string start (v @ [ch CHR 0x5C, ch CHR ''{'']) (adv (adv L))
                else if x = ch CHR ''}'' then
                  template_string start (v @ [ch CHR 0x5C, ch CHR ''}'']) (adv (adv L))
                else if x = ch CHR ''n'' then template_string start (v @ [ch CHR 0x0A]) (adv (adv L))
                else if x = ch CHR ''r'' then template_string start (v @ [ch CHR 0x0D]) (adv (adv L))
                else if x = ch CHR ''t'' then template_string start (v @ [ch CHR 0x09]) (adv (adv L))
                else if x = ch CHR 0x5C then template_string start (v @ [ch CHR 0x5C]) (adv (adv L))
                else template_string start (v @ [ch CHR 0x5C, x]) (adv (adv L)))
         else template_string start (v @ [c]) (adv L))"
  by pat_completeness auto
termination
  by (relation "measure (\<lambda>(p, v, L). lx_rem L)") (auto simp: lx_rem_adv lx_rem_adv2)

declare lx_string.simps [simp del] single_string.simps [simp del] template_string.simps [simp del]

text \<open>The loops of \<open>number\<close> and \<open>identifier\<close>: push characters while they belong to a class.\<close>

function take_class :: "(uchar \<Rightarrow> bool) \<Rightarrow> ustring \<Rightarrow> lexer \<Rightarrow> ustring \<times> lexer" where
  "take_class P v L = (case lx_peek L of
       None \<Rightarrow> (v, L)
     | Some c \<Rightarrow> if P c then take_class P (v @ [c]) (adv L) else (v, L))"
  by pat_completeness auto
termination
  by (relation "measure (\<lambda>(P, v, L). lx_rem L)") (auto simp: lx_rem_adv)

declare take_class.simps [simp del]

definition lx_number :: "uchar \<Rightarrow> position \<Rightarrow> lexer \<Rightarrow> (ku_error, token_kind \<times> lexer) result" where
  "lx_number first start L =
     (let (text, L1) = take_class is_ascii_digit [first] L in
      if lx_peek L1 = Some (ch CHR ''.'')
         \<and> (case lx_peek_next L1 of None \<Rightarrow> False | Some c \<Rightarrow> is_ascii_digit c)
      then (let (frac, L2) = take_class is_ascii_digit [] (adv L1)
            in Inr (TK_Float (parse_f64 text frac), L2))
      else (case parse_i64 text of
              Some w \<Rightarrow> Inr (TK_Int w, L1)
            | None \<Rightarrow> Inl (Raise (lex_error (lit ''invalid int literal'') (Span_point start)))))"

definition keyword_or_ident :: "ustring \<Rightarrow> token_kind" where
  "keyword_or_ident text =
     (if text = lit ''async'' then TK_Async
      else if text = lit ''await'' then TK_Await
      else if text = lit ''fn'' then TK_Fn
      else if text = lit ''struct'' then TK_Struct
      else if text = lit ''enum'' then TK_Enum
      else if text = lit ''module'' then TK_Module
      else if text = lit ''import'' then TK_Import
      else if text = lit ''from'' then TK_From
      else if text = lit ''let'' then TK_Let
      else if text = lit ''mut'' then TK_Mut
      else if text = lit ''if'' then TK_If
      else if text = lit ''else'' then TK_Else
      else if text = lit ''while'' then TK_While
      else if text = lit ''for'' then TK_For
      else if text = lit ''in'' then TK_In
      else if text = lit ''break'' then TK_Break
      else if text = lit ''continue'' then TK_Continue
      else if text = lit ''match'' then TK_Match
      else if text = lit ''switch'' then TK_Switch
      else if text = lit ''try'' then TK_Try
      else if text = lit ''catch'' then TK_Catch
      else if text = lit ''finally'' then TK_Finally
      else if text = lit ''fail'' then TK_Fail
      else if text = lit ''panic'' then TK_Panic
      else if text = lit ''return'' then TK_Return
      else if text = lit ''print'' then TK_Print
      else if text = lit ''true'' then TK_True
      else if text = lit ''false'' then TK_False
      else if text = lit ''null'' then TK_Null
      else TK_Ident text)"

definition lx_identifier :: "uchar \<Rightarrow> lexer \<Rightarrow> token_kind \<times> lexer" where
  "lx_identifier first L =
     (let (text, L1) = take_class is_ident_continue [first] L in (keyword_or_ident text, L1))"

section \<open>One token\<close>

text \<open>An operator of one character, or of two when \<open>match_char\<close> accepts the second.\<close>

definition one_or_two :: "uchar \<Rightarrow> token_kind \<Rightarrow> token_kind \<Rightarrow> lexer \<Rightarrow> token_kind \<times> lexer" where
  "one_or_two c k2 k1 L = (let (b, L') = match_char c L in (if b then k2 else k1, L'))"

definition three_way ::
    "uchar \<Rightarrow> token_kind \<Rightarrow> uchar \<Rightarrow> token_kind \<Rightarrow> token_kind \<Rightarrow> lexer \<Rightarrow> token_kind \<times> lexer" where
  "three_way c1 k1 c2 k2 k L =
     (let (b, L1) = match_char c1 L in if b then (k1, L1) else one_or_two c2 k2 k L1)"

definition lex_dot :: "position \<Rightarrow> lexer \<Rightarrow> (ku_error, token_kind \<times> lexer) result" where
  "lex_dot start L =
     (let (b, L1) = match_char (ch CHR ''.'') L in
      if b then
        (let (b', L2) = match_char (ch CHR ''.'') L1 in
         if b' then Inr (TK_Ellipsis, L2)
         else Inl (Raise (lex_error (lit ''expected third '.' for '...'' @ [ch CHR 0x27]) (Span_point start))))
      else Inr (TK_Dot, L1))"

definition lex_token :: "position \<Rightarrow> uchar \<Rightarrow> lexer \<Rightarrow> (ku_error, token_kind \<times> lexer) result" where
  "lex_token start c L =
     (if c = ch CHR ''('' then Inr (TK_LParen, L)
      else if c = ch CHR '')'' then Inr (TK_RParen, L)
      else if c = ch CHR ''{'' then Inr (TK_LBrace, L)
      else if c = ch CHR ''}'' then Inr (TK_RBrace, L)
      else if c = ch CHR ''['' then Inr (TK_LBracket, L)
      else if c = ch CHR '']'' then Inr (TK_RBracket, L)
      else if c = ch CHR '','' then Inr (TK_Comma, L)
      else if c = ch CHR '':'' then Inr (TK_Colon, L)
      else if c = ch CHR '';'' then Inr (TK_Semicolon, L)
      else if c = ch CHR ''.'' then lex_dot start L
      else if c = ch CHR ''+'' then
        Inr (three_way (ch CHR ''+'') TK_PlusPlus (ch CHR ''='') TK_PlusEqual TK_Plus L)
      else if c = ch CHR ''-'' then
        Inr (three_way (ch CHR ''-'') TK_MinusMinus (ch CHR ''='') TK_MinusEqual TK_Minus L)
      else if c = ch CHR ''*'' then Inr (one_or_two (ch CHR ''='') TK_StarEqual TK_Star L)
      else if c = ch CHR ''%'' then Inr (one_or_two (ch CHR ''='') TK_PercentEqual TK_Percent L)
      else if c = ch CHR ''?'' then Inr (one_or_two (ch CHR ''.'') TK_QuestionDot TK_Question L)
      else if c = ch CHR ''!'' then Inr (one_or_two (ch CHR ''='') TK_BangEqual TK_Bang L)
      else if c = ch CHR ''='' then
        Inr (three_way (ch CHR ''='') TK_EqualEqual (ch CHR ''>'') TK_Arrow TK_Equal L)
      else if c = ch CHR ''<'' then Inr (one_or_two (ch CHR ''='') TK_LessEqual TK_Less L)
      else if c = ch CHR ''>'' then Inr (one_or_two (ch CHR ''='') TK_GreaterEqual TK_Greater L)
      else if c = ch CHR ''/'' then Inr (one_or_two (ch CHR ''='') TK_SlashEqual TK_Slash L)
      else if c = ch CHR ''&'' then Inr (one_or_two (ch CHR ''&'') TK_AndAnd TK_Ampersand L)
      else if c = ch CHR ''|'' then Inr (one_or_two (ch CHR ''|'') TK_OrOr TK_Pipe L)
      else if c = ch CHR 0x22 then map_sum id (map_prod TK_String id) (lx_string start [] L)
      else if c = ch CHR 0x27 then map_sum id (map_prod TK_String id) (single_string start [] L)
      else if c = ch CHR 0x60 then
        map_sum id (map_prod TK_TemplateString id) (template_string start [] L)
      else if is_ascii_digit c then lx_number c start L
      else if is_ident_start c then Inr (lx_identifier c L)
      else Inl (Raise (lex_error (lit ''unexpected character '' @ [ch CHR 0x27, c, ch CHR 0x27])
                                 (Span_point start))))"

section \<open>The token stream\<close>

text \<open>
  Every operation moves the lexer by a number of calls of \<open>advance\<close>: \<open>lx_ext\<close>. It is the
  extension order of the lexer as a \<open>cursor\<close>.
\<close>

definition lx_ext :: "lexer \<Rightarrow> lexer \<Rightarrow> bool" where
  "lx_ext L L' \<longleftrightarrow> (\<exists>n. L' = (adv ^^ n) L)"

lemma lx_ext_refl [simp, intro]: "lx_ext L L"
  unfolding lx_ext_def by (rule exI [of _ 0]) simp

lemma lx_ext_trans [trans]: "lx_ext A B \<Longrightarrow> lx_ext B C \<Longrightarrow> lx_ext A C"
  unfolding lx_ext_def by (metis comp_apply funpow_add)

lemma lx_ext_adv [simp, intro]: "lx_ext L (adv L)"
  unfolding lx_ext_def by (rule exI [of _ 1]) simp

lemma lx_ext_adv2 [simp, intro]: "lx_ext L (adv (adv L))"
  by (rule lx_ext_trans [of _ "adv L"]) auto

lemma lx_ext_induct [consumes 1, case_names refl adv]:
  assumes "lx_ext L L'" and "P L" and "\<And>M. lx_ext L M \<Longrightarrow> P M \<Longrightarrow> P (adv M)"
  shows "P L'"
proof -
  from assms(1) obtain n where "L' = (adv ^^ n) L" by (auto simp: lx_ext_def)
  moreover have "P ((adv ^^ n) L)"
  proof (induction n)
    case 0
    then show ?case using assms(2) by simp
  next
    case (Suc n)
    then show ?case using assms(3) [of "(adv ^^ n) L"] by (auto simp: lx_ext_def)
  qed
  ultimately show ?thesis by simp
qed

lemma lx_ext_chars: "lx_ext L L' \<Longrightarrow> lx_chars L' = lx_chars L"
  by (induction rule: lx_ext_induct) auto

lemma lx_ext_rem: "lx_ext L L' \<Longrightarrow> lx_rem L' \<le> lx_rem L"
  by (induction rule: lx_ext_induct) (auto intro: order_trans [OF lx_rem_adv_le])

lemma lx_ext_current: "lx_ext L L' \<Longrightarrow> lx_current L \<le> lx_current L'"
  by (induction rule: lx_ext_induct) (auto simp: lx_advance_current)

text \<open>What an operation promises: it extends the lexer, or reports a lexical error at a point.\<close>

definition lx_sound :: "position \<Rightarrow> lexer \<Rightarrow> (ku_error, 'a \<times> lexer) result \<Rightarrow> bool" where
  "lx_sound p L r \<longleftrightarrow> (case r of
       Inl f \<Rightarrow> \<exists>e. f = Raise e \<and> ke_kind e = KE_Lex
                 \<and> (ke_span e = Span_point p \<or> (\<exists>L'. lx_ext L L' \<and> ke_span e = Span_point (lx_position L')))
     | Inr (x, L') \<Rightarrow> lx_ext L L')"

lemma lx_sound_Inr [simp]: "lx_sound p L (Inr (x, L')) = lx_ext L L'"
  by (simp add: lx_sound_def)

lemma lx_sound_start [simp]: "lx_sound p L (Inl (Raise (lex_error m (Span_point p))))"
  by (simp add: lx_sound_def)

lemma lx_sound_at [simp]: "lx_ext L L' \<Longrightarrow> lx_sound p L (Inl (Raise (lex_error m (Span_point (lx_position L')))))"
  by (auto simp: lx_sound_def)

lemma lx_sound_ext: "lx_sound p L' r \<Longrightarrow> lx_ext L L' \<Longrightarrow> lx_sound p L r"
  by (auto simp: lx_sound_def split: sum.splits intro: lx_ext_trans)

lemma lx_sound_map [simp]: "lx_sound p L (map_sum id (map_prod f id) r) = lx_sound p L r"
  by (cases r) (auto simp: lx_sound_def)

lemmas lx_sound_adv = lx_sound_ext [OF _ lx_ext_adv] lx_sound_ext [OF _ lx_ext_adv2]

lemma lx_string_sound: "lx_sound start L (lx_string start v L)"
proof (induction start v L rule: lx_string.induct)
  case (1 start v L)
  show ?case
    by (subst lx_string.simps)
      (auto split: option.splits intro!: lx_sound_adv(1) [OF "1.IH"(6)] lx_sound_adv(2) [OF "1.IH"(1)]
        lx_sound_adv(2) [OF "1.IH"(2)] lx_sound_adv(2) [OF "1.IH"(3)]
        lx_sound_adv(2) [OF "1.IH"(4)] lx_sound_adv(2) [OF "1.IH"(5)])
qed

lemma single_string_sound: "lx_sound start L (single_string start v L)"
proof (induction start v L rule: single_string.induct)
  case (1 start v L)
  show ?case
    by (subst single_string.simps)
      (auto split: option.splits intro!: lx_sound_adv(1) [OF "1.IH"(6)] lx_sound_adv(2) [OF "1.IH"(1)]
        lx_sound_adv(2) [OF "1.IH"(2)] lx_sound_adv(2) [OF "1.IH"(3)]
        lx_sound_adv(2) [OF "1.IH"(4)] lx_sound_adv(2) [OF "1.IH"(5)])
qed

lemma template_string_sound: "lx_sound start L (template_string start v L)"
proof (induction start v L rule: template_string.induct)
  case (1 start v L)
  show ?case
    by (subst template_string.simps)
      (auto split: option.splits intro!: lx_sound_adv(1) [OF "1.IH"(9)] lx_sound_adv(2) [OF "1.IH"(1)]
        lx_sound_adv(2) [OF "1.IH"(2)] lx_sound_adv(2) [OF "1.IH"(3)] lx_sound_adv(2) [OF "1.IH"(4)]
        lx_sound_adv(2) [OF "1.IH"(5)] lx_sound_adv(2) [OF "1.IH"(6)] lx_sound_adv(2) [OF "1.IH"(7)]
        lx_sound_adv(2) [OF "1.IH"(8)])
qed

lemma take_class_ext: "lx_ext L (snd (take_class P v L))"
proof (induction P v L rule: take_class.induct)
  case (1 P v L)
  then show ?case
    by (subst take_class.simps) (auto split: option.splits intro: lx_ext_trans [OF lx_ext_adv])
qed

lemma take_class_extD: "take_class P v L = (t, L') \<Longrightarrow> lx_ext L L'"
  using take_class_ext [of L P v] by simp

lemma match_char_ext: "lx_ext L (snd (match_char c L))"
  by (simp add: match_char_def)

lemma match_char_extD: "match_char c L = (b, L') \<Longrightarrow> lx_ext L L'"
  using match_char_ext [of L c] by simp

lemma one_or_two_ext: "lx_ext L (snd (one_or_two c k2 k1 L))"
  by (auto simp: one_or_two_def dest: match_char_extD split: prod.splits)

lemma three_way_ext: "lx_ext L (snd (three_way c1 k1 c2 k2 k L))"
  by (auto simp: three_way_def dest!: match_char_extD split: prod.splits
      intro: lx_ext_trans [OF _ one_or_two_ext])

lemma lx_sound_pair: "lx_ext L (snd r) \<Longrightarrow> lx_sound p L (Inr r)"
  by (cases r) simp

lemma lx_number_sound: "lx_sound start L (lx_number c start L)"
  by (auto simp: lx_number_def split: prod.splits option.splits dest!: take_class_extD
      intro: lx_ext_trans [OF lx_ext_trans [OF _ lx_ext_adv]])

lemma lex_dot_sound: "lx_sound start L (lex_dot start L)"
  by (auto simp: lex_dot_def split: prod.splits dest!: match_char_extD intro: lx_ext_trans)

lemma lx_identifier_ext: "lx_ext L (snd (lx_identifier c L))"
  by (auto simp: lx_identifier_def split: prod.splits dest!: take_class_extD)

lemma lex_token_sound: "lx_sound start L (lex_token start c L)"
  by (simp add: lex_token_def lex_dot_sound lx_string_sound single_string_sound
      template_string_sound lx_number_sound lx_sound_pair one_or_two_ext three_way_ext
      lx_identifier_ext)

lemma skip_line_comment_ext: "lx_ext L (skip_line_comment L)"
proof (induction L rule: skip_line_comment.induct)
  case (1 L)
  then show ?case
    by (subst skip_line_comment.simps) (auto intro: lx_ext_trans [OF lx_ext_adv])
qed

lemma skip_block_comment_Inl:
  "skip_block_comment p L = Inl f \<Longrightarrow> f = Raise (lex_error (lit ''unterminated block comment'') (Span_point p))"
proof (induction p L rule: skip_block_comment.induct)
  case (1 p L)
  then show ?case by (subst (asm) (2) skip_block_comment.simps) (auto split: if_splits)
qed

lemma skip_block_comment_ext: "skip_block_comment p L = Inr L' \<Longrightarrow> lx_ext L L'"
proof (induction p L rule: skip_block_comment.induct)
  case (1 p L)
  then show ?case
    by (subst (asm) (2) skip_block_comment.simps)
      (auto split: if_splits intro: lx_ext_trans [OF lx_ext_adv])
qed

text \<open>A lexical error at a position the lexer reaches.\<close>

definition lx_err :: "lexer \<Rightarrow> ku_error fault \<Rightarrow> bool" where
  "lx_err L f \<longleftrightarrow> (\<exists>e L'. f = Raise e \<and> ke_kind e = KE_Lex \<and> lx_ext L L'
     \<and> ke_span e = Span_point (lx_position L'))"

lemma lx_err_ext: "lx_err L' f \<Longrightarrow> lx_ext L L' \<Longrightarrow> lx_err L f"
  by (auto simp: lx_err_def intro: lx_ext_trans)

lemma lx_err_lex_error [simp]: "lx_ext L L' \<Longrightarrow> lx_err L (Raise (lex_error m (Span_point (lx_position L'))))"
  by (auto simp: lx_err_def)

lemma lx_sound_InlD: "lx_sound (lx_position M) L (Inl f) \<Longrightarrow> lx_ext M L \<Longrightarrow> lx_err M f"
  by (auto simp: lx_sound_def lx_err_def intro: lx_ext_trans)

lemma skip_whitespace_sound:
  "case skip_whitespace_and_comments L of Inl f \<Rightarrow> lx_err L f | Inr L' \<Rightarrow> lx_ext L L'"
proof (induction L rule: skip_whitespace_and_comments.induct)
  case (1 L)
  have block: "case skip_block_comment (lx_position L) (adv (adv L)) of Inl f \<Rightarrow> lx_err L f | Inr L' \<Rightarrow> lx_ext L L'"
    by (auto split: sum.splits dest!: skip_block_comment_Inl skip_block_comment_ext
        intro: lx_ext_trans [OF lx_ext_adv2])
  have step: "case r of Inl f \<Rightarrow> lx_err L f | Inr L' \<Rightarrow> lx_ext L L'"
    if "lx_ext L M" "case r of Inl f \<Rightarrow> lx_err M f | Inr L' \<Rightarrow> lx_ext M L'" for M and r :: "(ku_error, lexer) result"
    using that by (auto split: sum.splits intro: lx_err_ext lx_ext_trans)
  let ?ws = "{ch CHR '' '', ch CHR 0x0D, ch CHR 0x09, ch CHR 0x0A, 0xFEFF}"
  note unfold = skip_whitespace_and_comments.simps [of L]
  show ?case
  proof (cases "lx_peek L")
    case None
    then show ?thesis by (simp add: unfold)
  next
    case (Some c)
    consider (ws) "c \<in> ?ws"
      | (line) "c \<notin> ?ws" "c = ch CHR ''/'' \<and> lx_peek_next L = Some (ch CHR ''/'')"
      | (block) "c \<notin> ?ws" "\<not> (c = ch CHR ''/'' \<and> lx_peek_next L = Some (ch CHR ''/''))"
          "c = ch CHR ''/'' \<and> lx_peek_next L = Some (ch CHR ''*'')"
      | (stop) "c \<notin> ?ws" "\<not> (c = ch CHR ''/'' \<and> lx_peek_next L = Some (ch CHR ''/''))"
          "\<not> (c = ch CHR ''/'' \<and> lx_peek_next L = Some (ch CHR ''*''))"
      by blast
    then show ?thesis
    proof cases
      case ws
      then have "skip_whitespace_and_comments L = skip_whitespace_and_comments (adv L)"
        unfolding unfold Some by (simp only: option.case if_True)
      with step [OF lx_ext_adv "1.IH"(1) [OF Some ws]] show ?thesis by simp
    next
      case line
      then have "skip_whitespace_and_comments L = skip_whitespace_and_comments (skip_line_comment L)"
        unfolding unfold Some by (simp only: option.case if_True if_False simp_thms)
      with step [OF skip_line_comment_ext "1.IH"(2) [OF Some line]] show ?thesis by simp
    next
      case b: block
      then have eq: "skip_whitespace_and_comments L =
          (case skip_block_comment (lx_position L) (adv (adv L)) of
             Inl e \<Rightarrow> Inl e | Inr L' \<Rightarrow> skip_whitespace_and_comments L')"
        unfolding unfold Some by (simp only: option.case if_True if_False simp_thms)
      show ?thesis
      proof (cases "skip_block_comment (lx_position L) (adv (adv L))")
        case (Inl f)
        with block show ?thesis by (simp add: eq)
      next
        case (Inr L')
        with block have "lx_ext L L'" by simp
        from step [OF this "1.IH"(3) [OF Some b Inr]] Inr show ?thesis by (simp add: eq)
      qed
    next
      case stop
      then have "skip_whitespace_and_comments L = Inr L"
        unfolding unfold Some by (simp only: option.case if_False simp_thms)
      then show ?thesis by simp
    qed
  qed
qed

function lex_loop :: "token list \<Rightarrow> lexer \<Rightarrow> (ku_error, token list) result" where
  "lex_loop tokens L =
     (if lx_is_at_end L then Inr (tokens @ [Token_new TK_Eof (Span_point (lx_position L))])
      else (case skip_whitespace_and_comments L of
          Inl e \<Rightarrow> Inl e
        | Inr L1 \<Rightarrow>
            if lx_is_at_end L1 then Inr (tokens @ [Token_new TK_Eof (Span_point (lx_position L1))])
            else (case lx_peek L1 of
                None \<Rightarrow> Inl RustPanic
              | Some c \<Rightarrow> (case lex_token (lx_position L1) c (adv L1) of
                    Inl e \<Rightarrow> Inl e
                  | Inr (kind, L3) \<Rightarrow>
                      lex_loop (tokens @ [Token_new kind (Span_new (lx_position L1) (lx_position L3))]) L3))))"
  by pat_completeness auto
termination
proof (relation "measure (\<lambda>(ts, L). lx_rem L)", goal_cases)
  case (2 ts L L1 c r kind L3)
  from 2 have "lx_ext L L1" using skip_whitespace_sound [of L] by simp
  moreover from 2 have "lx_ext (adv L1) L3"
    using lex_token_sound [of "lx_position L1" "adv L1" c] by auto
  moreover from 2 have "lx_rem (adv L1) < lx_rem L1" by (simp add: lx_rem_adv)
  ultimately show ?case by (auto dest!: lx_ext_rem)
qed simp

declare lex_loop.simps [simp del]

definition lex :: "ustring \<Rightarrow> (ku_error, token list) result" where
  "lex source = lex_loop [] (Lexer_new source)"

section \<open>Exact positions\<close>

text \<open>
  The position of index \<open>i\<close> in a source, by its definition: the line is one more than the
  newlines before it, the column counts the characters since the last of them, the offset is
  the UTF-8 length of the prefix.
\<close>

definition pos_at :: "ustring \<Rightarrow> nat \<Rightarrow> position" where
  "pos_at src i = Position_new
     (1 + count_list (take i src) (ch CHR 0x0A))
     (1 + length (takeWhile (\<lambda>c. c \<noteq> ch CHR 0x0A) (rev (take i src))))
     (sum_list (map len_utf8 (take i src)))"

definition lx_ok :: "lexer \<Rightarrow> bool" where
  "lx_ok L \<longleftrightarrow> lx_current L \<le> length (lx_chars L) \<and> lx_position L = pos_at (lx_chars L) (lx_current L)"

lemma lx_ok_new [simp]: "lx_ok (Lexer_new src)"
  by (simp add: lx_ok_def Lexer_new_def lx_position_def pos_at_def Position_new_def)

lemma lx_ok_adv:
  assumes "lx_ok L"
  shows "lx_ok (adv L)"
proof (cases "lx_peek L")
  case None
  with assms show ?thesis by (simp add: lx_advance_def)
next
  case (Some c)
  then have "lx_current L < length (lx_chars L)" and c: "c = lx_chars L ! lx_current L"
    by (auto dest: lx_peek_SomeD)
  then have "take (Suc (lx_current L)) (lx_chars L) = take (lx_current L) (lx_chars L) @ [c]"
    by (simp add: take_Suc_conv_app_nth)
  with Some assms show ?thesis
    by (auto simp: lx_ok_def lx_advance_def Let_def lx_position_def pos_at_def Position_new_def
        dest: lx_peek_SomeD)
qed

lemma lx_ext_ok: "lx_ext L L' \<Longrightarrow> lx_ok L \<Longrightarrow> lx_ok L'"
  by (induction rule: lx_ext_induct) (auto intro: lx_ok_adv)

interpretation lexer_cursor: cursor lx_ok lx_rem lx_ext
  by unfold_locales (auto intro: lx_ext_trans lx_ext_ok lx_ext_rem)

text \<open>
  A list of tokens covers a source from index \<open>lo\<close> on: every token spans a nonempty range of
  characters, exactly positioned, and the ranges follow each other without overlap.
\<close>

fun spans_cover :: "ustring \<Rightarrow> nat \<Rightarrow> token list \<Rightarrow> bool" where
  "spans_cover src lo [] = True"
| "spans_cover src lo (t # ts) =
     (\<exists>i j. lo \<le> i \<and> i < j \<and> j \<le> length src
        \<and> tk_span t = Span_new (pos_at src i) (pos_at src j) \<and> spans_cover src j ts)"

lemma keyword_not_eof [simp]: "keyword_or_ident t \<noteq> TK_Eof"
  by (simp add: keyword_or_ident_def)

lemma lex_token_not_eof: "lex_token start c L = Inr (k, L') \<Longrightarrow> k \<noteq> TK_Eof"
  unfolding lex_token_def
  by (auto simp: lex_dot_def lx_number_def lx_identifier_def one_or_two_def three_way_def Let_def
      map_sum_def split: if_splits prod.splits option.splits sum.splits)

text \<open>One round of the loop, as the proofs below use it.\<close>

lemma lex_loop_cases:
  obtains (eof) M where "lx_ext L M" "lx_is_at_end M"
      "lex_loop ts L = Inr (ts @ [Token_new TK_Eof (Span_point (lx_position M))])"
  | (err) f where "lex_loop ts L = Inl f" "lx_err L f"
  | (tok) M c k M' where "lx_ext L M" "lx_peek M = Some c" "lex_token (lx_position M) c (adv M) = Inr (k, M')"
      "lx_ext (adv M) M'"
      "lex_loop ts L = lex_loop (ts @ [Token_new k (Span_new (lx_position M) (lx_position M'))]) M'"
proof (cases "lx_is_at_end L")
  case True
  then show ?thesis using eof [of L] by (simp add: lex_loop.simps [of ts L])
next
  case nend: False
  note sk = skip_whitespace_sound [of L] and unfold = lex_loop.simps [of ts L]
  show ?thesis
  proof (cases "skip_whitespace_and_comments L")
    case (Inl f)
    with nend sk show ?thesis using err [of f] by (simp add: unfold)
  next
    case (Inr M)
    with sk have ext: "lx_ext L M" by simp
    show ?thesis
    proof (cases "lx_peek M")
      case None
      with nend Inr ext show ?thesis using eof [of M] by (simp add: unfold lx_peek_None)
    next
      case (Some c)
      then have nendM: "\<not> lx_is_at_end M" by (simp flip: lx_peek_None)
      note snd = lex_token_sound [of "lx_position M" "adv M" c]
      show ?thesis
      proof (cases "lex_token (lx_position M) c (adv M)")
        case (Inl f)
        with snd have "lx_err M f" by (auto intro: lx_sound_InlD)
        with ext have "lx_err L f" by (auto intro: lx_err_ext)
        with nend Inr Some nendM Inl show ?thesis using err [of f] by (simp add: unfold)
      next
        case (Inr r)
        then obtain k M' where r: "lex_token (lx_position M) c (adv M) = Inr (k, M')" by (cases r) auto
        with snd have "lx_ext (adv M) M'" by simp
        with tok [OF ext Some r] nend \<open>skip_whitespace_and_comments L = Inr M\<close> Some nendM r
        show ?thesis by (simp add: unfold)
      qed
    qed
  qed
qed

lemma lx_ok_end: "lx_ok M \<Longrightarrow> lx_is_at_end M \<Longrightarrow> lx_position M = pos_at (lx_chars M) (length (lx_chars M))"
  by (auto simp: lx_ok_def lx_is_at_end_def dest: order_antisym)

lemma lex_loop_stream:
  assumes "lex_loop ts L = Inr out" and "lx_ok L"
  shows "\<exists>us. out = ts @ us @ [Token_new TK_Eof (Span_point (pos_at (lx_chars L) (length (lx_chars L))))]
     \<and> spans_cover (lx_chars L) (lx_current L) us \<and> (\<forall>t \<in> set us. tk_kind t \<noteq> TK_Eof)"
  using assms
proof (induction "lx_rem L" arbitrary: ts L rule: less_induct)
  case less
  show ?case
  proof (cases rule: lex_loop_cases [of L ts])
    case (eof M)
    then have "lx_position M = pos_at (lx_chars L) (length (lx_chars L))"
      using lx_ok_end [OF lx_ext_ok [OF eof(1) less.prems(2)]] lx_ext_chars [OF eof(1)] by simp
    with eof less.prems(1) show ?thesis by (intro exI [of _ "[]"]) simp
  next
    case (err f)
    with less.prems(1) show ?thesis by simp
  next
    case (tok M c k M')
    have okM: "lx_ok M" using tok(1) less.prems(2) by (rule lx_ext_ok)
    then have okM': "lx_ok M'" using tok(4) by (auto intro: lx_ext_ok lx_ok_adv)
    have chars: "lx_chars M = lx_chars L" "lx_chars M' = lx_chars L"
      using lx_ext_chars [OF tok(1)] lx_ext_chars [OF tok(4)] by simp_all
    have cur: "lx_current L \<le> lx_current M" "lx_current M < lx_current M'"
      using lx_ext_current [OF tok(1)] lx_ext_current [OF tok(4)] tok(2)
      by (simp_all add: lx_advance_current)
    have "lx_rem M' < lx_rem L"
      using lx_ext_rem [OF tok(1)] lx_ext_rem [OF tok(4)] lx_rem_adv [of M] tok(2) by simp
    from less.hyps [OF this _ okM'] tok(5) less.prems(1) obtain us where
      us: "out = ts @ [Token_new k (Span_new (lx_position M) (lx_position M'))] @ us
             @ [Token_new TK_Eof (Span_point (pos_at (lx_chars L) (length (lx_chars L))))]"
          "spans_cover (lx_chars L) (lx_current M') us" "\<forall>t \<in> set us. tk_kind t \<noteq> TK_Eof"
      by (force simp: chars)
    have span: "Span_new (lx_position M) (lx_position M') =
        Span_new (pos_at (lx_chars L) (lx_current M)) (pos_at (lx_chars L) (lx_current M'))"
      and le: "lx_current M' \<le> length (lx_chars L)"
      using okM okM' by (auto simp: lx_ok_def chars)
    have "spans_cover (lx_chars L) (lx_current L)
        (Token_new k (Span_new (lx_position M) (lx_position M')) # us)"
      unfolding span using cur le us(2) by (auto simp: Token_new_def)
    moreover have "k \<noteq> TK_Eof" using tok(3) by (rule lex_token_not_eof)
    ultimately show ?thesis
      using us(1,3)
      by (intro exI [of _ "Token_new k (Span_new (lx_position M) (lx_position M')) # us"])
        (simp add: Token_new_def)
  qed
qed

lemma lex_loop_error: "lex_loop ts L = Inl f \<Longrightarrow> lx_err L f"
proof (induction "lx_rem L" arbitrary: ts L rule: less_induct)
  case less
  show ?case
  proof (cases rule: lex_loop_cases [of L ts])
    case (eof M)
    with less.prems show ?thesis by simp
  next
    case (err f)
    with less.prems show ?thesis by simp
  next
    case (tok M c k M')
    have "lx_rem M' < lx_rem L"
      using lx_ext_rem [OF tok(1)] lx_ext_rem [OF tok(4)] lx_rem_adv [of M] tok(2) by simp
    from less.hyps [OF this] tok(5) less.prems have "lx_err M' f" by simp
    moreover have "lx_ext L M'"
      using tok(1,4) by (blast intro: lx_ext_trans lx_ext_adv)
    ultimately show ?thesis by (rule lx_err_ext)
  qed
qed

section \<open>Properties of the lexer\<close>

text \<open>C3: the lexer always returns. Its result is a token stream or one lexical error whose
  span is the exact position of an index of the source; it never panics.\<close>

theorem lex_total:
  "(\<exists>toks. lex src = Inr toks)
   \<or> (\<exists>e i. lex src = Inl (Raise e) \<and> ke_kind e = KE_Lex \<and> i \<le> length src
        \<and> ke_span e = Span_point (pos_at src i))"
proof (cases "lex src")
  case (Inl f)
  then have "lx_err (Lexer_new src) f" unfolding lex_def by (rule lex_loop_error)
  then obtain e M where e: "f = Raise e" "ke_kind e = KE_Lex" "ke_span e = Span_point (lx_position M)"
    and ext: "lx_ext (Lexer_new src) M" by (auto simp: lx_err_def)
  have "lx_ok M" using ext lx_ok_new by (rule lx_ext_ok)
  moreover have "lx_chars M = src" using lx_ext_chars [OF ext] by (simp add: Lexer_new_def)
  ultimately have "lx_position M = pos_at src (lx_current M)" "lx_current M \<le> length src"
    by (auto simp: lx_ok_def)
  with Inl e show ?thesis by auto
qed auto

text \<open>C4: a token stream ends in its only \<open>Eof\<close>, which sits at the end of the source; the
  tokens before it cover disjoint, increasing, nonempty ranges of characters, and each span
  holds the exact line, column and byte offset of its range.\<close>

theorem lex_stream:
  assumes "lex src = Inr toks"
  shows "\<exists>ts. toks = ts @ [Token_new TK_Eof (Span_point (pos_at src (length src)))]
     \<and> spans_cover src 0 ts \<and> (\<forall>t \<in> set ts. tk_kind t \<noteq> TK_Eof)"
  using lex_loop_stream [OF assms [unfolded lex_def] lx_ok_new] by (simp add: Lexer_new_def)

theorem lex_stream_witness:
  "\<exists>ts. lex (lit ''fn f'') = Inr (ts @ [Token_new TK_Eof (Span_point (pos_at (lit ''fn f'') 4))])
     \<and> spans_cover (lit ''fn f'') 0 ts \<and> map tk_kind ts = [TK_Fn, TK_Ident (lit ''f'')]"
proof -
  have l: "lex (lit ''fn f'') = Inr
      [Token_new TK_Fn (Span_new (Position_new 1 1 0) (Position_new 1 3 2)),
       Token_new (TK_Ident (lit ''f'')) (Span_new (Position_new 1 4 3) (Position_new 1 5 4)),
       Token_new TK_Eof (Span_point (Position_new 1 5 4))]"
    by code_simp
  from lex_stream [OF l] obtain ts where
    ts: "[Token_new TK_Fn (Span_new (Position_new 1 1 0) (Position_new 1 3 2)),
       Token_new (TK_Ident (lit ''f'')) (Span_new (Position_new 1 4 3) (Position_new 1 5 4)),
       Token_new TK_Eof (Span_point (Position_new 1 5 4))]
       = ts @ [Token_new TK_Eof (Span_point (pos_at (lit ''fn f'') (length (lit ''fn f''))))]"
    and cover: "spans_cover (lit ''fn f'') 0 ts" by blast
  from arg_cong [OF ts, of butlast] have "map tk_kind ts = [TK_Fn, TK_Ident (lit ''f'')]"
    by (auto simp: Token_new_def)
  moreover have "length (lit ''fn f'') = 4" by (simp add: lit_def)
  ultimately show ?thesis using l ts cover by (intro exI [of _ ts]) simp
qed

end
