(* ===== verification/Ast.thy ===== *)
theory Ast
  imports Lexer
begin

text \<open>
  The abstract syntax (\<open>src/src/ast.rs\<close>). Structs that occur inside the recursion of
  expressions and statements (\<open>Expr\<close>, \<open>FnDecl\<close>, \<open>MatchArm\<close>, \<open>ObjectDestructureBinding\<close>)
  are datatypes with one constructor and named selectors; the others are records.
\<close>

datatype param_mode = PM_Owned | PM_View

datatype type_name =
    TN_Int | TN_Float | TN_Bool | TN_String | TN_Null
  | TN_Array type_name
  | TN_Result type_name
  | TN_Function (tn_params: "type_name list") (tn_param_modes: "param_mode list")
      (tn_return_type: type_name) (tn_is_async: bool)
  | TN_Union "type_name list"
  | TN_Custom ustring

record param =
  pa_mode :: param_mode
  pa_name :: ustring
  pa_ty :: "type_name option"
  pa_span :: span

record function_param =
  fp_mode :: param_mode
  fp_name :: ustring
  fp_ty :: "type_name option"
  fp_span :: span

datatype literal =
    Lit_Int i64 | Lit_Float f64 | Lit_Bool bool | Lit_String ustring
  | Lit_TemplateString ustring | Lit_Null

datatype unary_op = UO_Negate | UO_Not

datatype binary_op =
    BO_Add | BO_Subtract | BO_Multiply | BO_Divide | BO_Remainder | BO_Equal | BO_NotEqual
  | BO_Less | BO_LessEqual | BO_Greater | BO_GreaterEqual | BO_And | BO_Or

datatype match_pattern =
    MP_Wildcard
  | MP_Binding ustring
  | MP_Literal literal
  | MP_EnumVariant ustring ustring "match_pattern list"

record object_destructure_rest =
  or_local :: "ustring option"
  or_span :: span

datatype (plugins only: code size) expr = Expr_new (ex_kind: expr_kind) (ex_span: span)
and expr_kind =
    EK_Literal literal
  | EK_Variable ustring
  | EK_Unary unary_op expr
  | EK_Binary expr binary_op expr
  | EK_Call expr "expr list"
  | EK_Array "expr list"
  | EK_Index expr expr
  | EK_Field expr ustring
  | EK_OptionalField expr ustring
  | EK_StructLiteral ustring "(ustring \<times> expr) list"
  | EK_ObjectLiteral "(ustring \<times> expr) list"
  | EK_Match expr "match_arm list"
  | EK_Await expr
  | EK_TryUnwrap expr
  | EK_Function "function_param list" "type_name option" "stmt list"
and match_arm =
    MatchArm (ma_pattern: match_pattern) (ma_guard: "expr option") (ma_value: expr) (ma_span: span)
and assign_target =
    AT_Variable ustring
  | AT_Index expr expr
  | AT_Field expr ustring
and object_binding =
    ObjectBinding (ob_field: ustring) (ob_local: "ustring option") (ob_default: "expr option")
      (ob_span: span)
and fn_decl =
    FnDecl (fn_name: ustring) (fn_is_async: bool) (fn_type_params: "ustring list")
      (fn_params: "param list") (fn_return_type: "type_name option") (fn_body: "stmt list")
      (fn_span: span)
and stmt =
    St_VarDecl ustring bool "type_name option" expr span
  | St_Assign ustring expr span
  | St_AssignTarget assign_target expr span
  | St_CompoundAssign assign_target binary_op expr span
  | St_DestructureAssign "ustring option list" "expr list" span
  | St_ObjectDestructureAssign "object_binding list" "object_destructure_rest option" expr span
  | St_If expr "stmt list" "stmt list" span
  | St_While expr "stmt list" span
  | St_For ustring expr "stmt list" span
  | St_Break span
  | St_Continue span
  | St_Function fn_decl
  | St_Try "stmt list" "ustring option" "stmt list" "stmt list" span
  | St_Fail expr span
  | St_Panic expr span
  | St_Return "expr option" span
  | St_Print expr span
  | St_Expr expr span

record import_name =
  in_source :: ustring
  in_alias :: "ustring option"
  in_span :: span

datatype import_kind = IK_Namespace ustring | IK_Named "import_name list" | IK_Glob

record import_decl =
  im_kind :: import_kind
  im_path :: ustring
  im_span :: span

record struct_decl =
  sd_name :: ustring
  sd_fields :: "param list"
  sd_span :: span

record enum_variant =
  ev_name :: ustring
  ev_fields :: "param list"
  ev_span :: span

record enum_decl =
  ed_name :: ustring
  ed_variants :: "enum_variant list"
  ed_span :: span

record module_decl =
  md_name :: ustring
  md_span :: span

datatype item =
    It_Import import_decl
  | It_Function fn_decl
  | It_Struct struct_decl
  | It_Enum enum_decl
  | It_Module module_decl

record program =
  pr_items :: "item list"

definition local_name :: "import_name \<Rightarrow> ustring" where
  "local_name n = (case in_alias n of Some a \<Rightarrow> a | None \<Rightarrow> in_source n)"

end
