(* ===== verification/Expression_Tree.thy ===== *)
theory Expression_Tree
  imports Ast
begin

text \<open>
  Recursive inspections of the syntax tree: the structural bound on expressions
  (\<open>src/src/parser/expression_tree.rs\<close>), the effect-free append arguments
  (\<open>src/src/ast.rs\<close>), the nesting depth of types (\<open>src/src/parser/mod.rs\<close>), and the
  well-formedness of syntax trees that the parser guarantees.
\<close>

section \<open>The structural bound on expressions\<close>

definition MAX_EXPRESSION_TREE_DEPTH :: nat where
  "MAX_EXPRESSION_TREE_DEPTH = 128"

fun expression_fits :: "expr \<Rightarrow> nat \<Rightarrow> bool"
  and expr_kind_fits :: "expr_kind \<Rightarrow> nat \<Rightarrow> bool"
  and statements_fit :: "stmt list \<Rightarrow> nat \<Rightarrow> bool"
  and statement_fits :: "stmt \<Rightarrow> nat \<Rightarrow> bool"
  and target_fits :: "assign_target \<Rightarrow> nat \<Rightarrow> bool" where
  "expression_fits (Expr_new k sp) depth =
     (if MAX_EXPRESSION_TREE_DEPTH \<le> depth then False else expr_kind_fits k (depth + 1))"
| "expr_kind_fits (EK_Literal l) d = True"
| "expr_kind_fits (EK_Variable x) d = True"
| "expr_kind_fits (EK_Unary op e) d = expression_fits e d"
| "expr_kind_fits (EK_Await e) d = expression_fits e d"
| "expr_kind_fits (EK_TryUnwrap e) d = expression_fits e d"
| "expr_kind_fits (EK_Field e x) d = expression_fits e d"
| "expr_kind_fits (EK_OptionalField e x) d = expression_fits e d"
| "expr_kind_fits (EK_Binary l op r) d = (expression_fits l d \<and> expression_fits r d)"
| "expr_kind_fits (EK_Index t i) d = (expression_fits t d \<and> expression_fits i d)"
| "expr_kind_fits (EK_Call f args) d = (expression_fits f d \<and> (\<forall>a \<in> set args. expression_fits a d))"
| "expr_kind_fits (EK_Array vs) d = (\<forall>v \<in> set vs. expression_fits v d)"
| "expr_kind_fits (EK_StructLiteral n fs) d = (\<forall>(x, v) \<in> set fs. expression_fits v d)"
| "expr_kind_fits (EK_ObjectLiteral fs) d = (\<forall>(x, v) \<in> set fs. expression_fits v d)"
| "expr_kind_fits (EK_Match v arms) d =
     (expression_fits v d \<and>
      (\<forall>a \<in> set arms. case a of MatchArm p g e s \<Rightarrow>
          (case g of None \<Rightarrow> True | Some ge \<Rightarrow> expression_fits ge d) \<and> expression_fits e d))"
| "expr_kind_fits (EK_Function ps rt body) d = statements_fit body d"
| "statements_fit body depth =
     (if MAX_EXPRESSION_TREE_DEPTH \<le> depth then False
      else (\<forall>s \<in> set body. statement_fits s (depth + 1)))"
| "statement_fits (St_VarDecl n m ty v s) d = expression_fits v d"
| "statement_fits (St_Assign n v s) d = expression_fits v d"
| "statement_fits (St_Fail v s) d = expression_fits v d"
| "statement_fits (St_Panic v s) d = expression_fits v d"
| "statement_fits (St_Print v s) d = expression_fits v d"
| "statement_fits (St_Expr v s) d = expression_fits v d"
| "statement_fits (St_AssignTarget t v s) d = (target_fits t d \<and> expression_fits v d)"
| "statement_fits (St_CompoundAssign t op v s) d = (target_fits t d \<and> expression_fits v d)"
| "statement_fits (St_DestructureAssign ns vs s) d = (\<forall>v \<in> set vs. expression_fits v d)"
| "statement_fits (St_ObjectDestructureAssign bs r v s) d =
     (expression_fits v d \<and>
      (\<forall>b \<in> set bs. case b of ObjectBinding f l df sp \<Rightarrow>
          (case df of None \<Rightarrow> True | Some e \<Rightarrow> expression_fits e d)))"
| "statement_fits (St_If c t e s) d =
     (expression_fits c d \<and> statements_fit t d \<and> statements_fit e d)"
| "statement_fits (St_While c b s) d = (expression_fits c d \<and> statements_fit b d)"
| "statement_fits (St_For n i b s) d = (expression_fits i d \<and> statements_fit b d)"
| "statement_fits (St_Function (FnDecl n a tp ps rt b sp)) d = statements_fit b d"
| "statement_fits (St_Try b cn cb fb s) d =
     (statements_fit b d \<and> statements_fit cb d \<and> statements_fit fb d)"
| "statement_fits (St_Return v s) d = (case v of None \<Rightarrow> True | Some e \<Rightarrow> expression_fits e d)"
| "statement_fits (St_Break s) d = True"
| "statement_fits (St_Continue s) d = True"
| "target_fits (AT_Variable x) d = True"
| "target_fits (AT_Field t x) d = expression_fits t d"
| "target_fits (AT_Index t i) d = (expression_fits t d \<and> expression_fits i d)"

definition expression_tree_fits :: "expr \<Rightarrow> bool" where
  "expression_tree_fits e = expression_fits e 0"

section \<open>Effect-free append arguments\<close>

fun is_pure_append_argument :: "expr \<Rightarrow> ustring \<Rightarrow> bool" where
  "is_pure_append_argument (Expr_new (EK_Literal l) sp) r = (case l of Lit_TemplateString _ \<Rightarrow> False | _ \<Rightarrow> True)"
| "is_pure_append_argument (Expr_new (EK_Variable x) sp) r = (x \<noteq> r)"
| "is_pure_append_argument (Expr_new (EK_Unary op e) sp) r = is_pure_append_argument e r"
| "is_pure_append_argument (Expr_new (EK_Field e x) sp) r = is_pure_append_argument e r"
| "is_pure_append_argument (Expr_new (EK_Binary a op b) sp) r =
     (is_pure_append_argument a r \<and> is_pure_append_argument b r)"
| "is_pure_append_argument (Expr_new (EK_Index a b) sp) r =
     (is_pure_append_argument a r \<and> is_pure_append_argument b r)"
| "is_pure_append_argument e r = False"

section \<open>Nesting of types\<close>

definition MAX_TYPE_DEPTH :: nat where
  "MAX_TYPE_DEPTH = 32"

fun type_nesting_depth :: "type_name \<Rightarrow> nat" where
  "type_nesting_depth (TN_Array t) = type_nesting_depth t + 1"
| "type_nesting_depth (TN_Result t) = type_nesting_depth t + 1"
| "type_nesting_depth (TN_Function ps ms r a) =
     foldr max (map type_nesting_depth ps) (type_nesting_depth r) + 1"
| "type_nesting_depth (TN_Union ts) = foldr max (map type_nesting_depth ts) 0"
| "type_nesting_depth TN_Int = 0"
| "type_nesting_depth TN_Float = 0"
| "type_nesting_depth TN_Bool = 0"
| "type_nesting_depth TN_String = 0"
| "type_nesting_depth TN_Null = 0"
| "type_nesting_depth (TN_Custom n) = 0"

text \<open>Function types carry one mode per parameter, everywhere inside a type; unions have at
  least two members.\<close>

fun type_shape :: "type_name \<Rightarrow> bool" where
  "type_shape (TN_Array t) = type_shape t"
| "type_shape (TN_Result t) = type_shape t"
| "type_shape (TN_Function ps ms r a) =
     (length ms = length ps \<and> (\<forall>t \<in> set ps. type_shape t) \<and> type_shape r)"
| "type_shape (TN_Union ts) = (2 \<le> length ts \<and> (\<forall>t \<in> set ts. type_shape t))"
| "type_shape t = True"

definition type_ok :: "type_name \<Rightarrow> bool" where
  "type_ok t \<longleftrightarrow> type_nesting_depth t \<le> MAX_TYPE_DEPTH \<and> type_shape t"

lemma foldr_max_le_iff: "foldr max xs (m::nat) \<le> n \<longleftrightarrow> m \<le> n \<and> (\<forall>x \<in> set xs. x \<le> n)"
  by (induction xs) auto

lemma type_ok_atoms [simp]:
  "type_ok TN_Int" "type_ok TN_Float" "type_ok TN_Bool" "type_ok TN_String" "type_ok TN_Null"
  "type_ok (TN_Custom n)"
  by (simp_all add: type_ok_def)

lemma type_ok_Union [simp]: "type_ok (TN_Union ts) \<longleftrightarrow> 2 \<le> length ts \<and> (\<forall>t \<in> set ts. type_ok t)"
  by (auto simp: type_ok_def foldr_max_le_iff)

section \<open>Well-formed syntax trees\<close>

text \<open>
  A tree is well-formed at statement depth \<open>d\<close> when every type in it satisfies \<open>P\<close>, every
  statement that owns a body and every function value sits below the depth limit, and its
  parts are well-formed one level deeper.
\<close>

definition MAX_STATEMENT_DEPTH :: nat where
  "MAX_STATEMENT_DEPTH = 32"

abbreviation opt_all :: "('a \<Rightarrow> bool) \<Rightarrow> 'a option \<Rightarrow> bool" where
  "opt_all P x \<equiv> (case x of None \<Rightarrow> True | Some y \<Rightarrow> P y)"

fun expr_ok :: "(type_name \<Rightarrow> bool) \<Rightarrow> nat \<Rightarrow> expr \<Rightarrow> bool"
  and expr_kind_ok :: "(type_name \<Rightarrow> bool) \<Rightarrow> nat \<Rightarrow> expr_kind \<Rightarrow> bool"
  and stmt_ok :: "(type_name \<Rightarrow> bool) \<Rightarrow> nat \<Rightarrow> stmt \<Rightarrow> bool"
  and target_ok :: "(type_name \<Rightarrow> bool) \<Rightarrow> nat \<Rightarrow> assign_target \<Rightarrow> bool" where
  "expr_ok P d (Expr_new k sp) = expr_kind_ok P d k"
| "expr_kind_ok P d (EK_Literal l) = True"
| "expr_kind_ok P d (EK_Variable x) = True"
| "expr_kind_ok P d (EK_Unary op e) = expr_ok P d e"
| "expr_kind_ok P d (EK_Await e) = expr_ok P d e"
| "expr_kind_ok P d (EK_TryUnwrap e) = expr_ok P d e"
| "expr_kind_ok P d (EK_Field e x) = expr_ok P d e"
| "expr_kind_ok P d (EK_OptionalField e x) = expr_ok P d e"
| "expr_kind_ok P d (EK_Binary l op r) = (expr_ok P d l \<and> expr_ok P d r)"
| "expr_kind_ok P d (EK_Index t i) = (expr_ok P d t \<and> expr_ok P d i)"
| "expr_kind_ok P d (EK_Call f args) = (expr_ok P d f \<and> (\<forall>a \<in> set args. expr_ok P d a))"
| "expr_kind_ok P d (EK_Array vs) = (\<forall>v \<in> set vs. expr_ok P d v)"
| "expr_kind_ok P d (EK_StructLiteral n fs) = (\<forall>(x, v) \<in> set fs. expr_ok P d v)"
| "expr_kind_ok P d (EK_ObjectLiteral fs) = (\<forall>(x, v) \<in> set fs. expr_ok P d v)"
| "expr_kind_ok P d (EK_Match v arms) =
     (expr_ok P d v \<and>
      (\<forall>a \<in> set arms. case a of MatchArm p g e s \<Rightarrow> opt_all (expr_ok P d) g \<and> expr_ok P d e))"
| "expr_kind_ok P d (EK_Function ps rt body) =
     ((\<forall>p \<in> set ps. opt_all P (fp_ty p)) \<and> opt_all P rt
      \<and> d < MAX_STATEMENT_DEPTH \<and> (\<forall>s \<in> set body. stmt_ok P (d + 1) s))"
| "stmt_ok P d (St_VarDecl n m ty v s) = (opt_all P ty \<and> expr_ok P d v)"
| "stmt_ok P d (St_Assign n v s) = expr_ok P d v"
| "stmt_ok P d (St_Fail v s) = expr_ok P d v"
| "stmt_ok P d (St_Panic v s) = expr_ok P d v"
| "stmt_ok P d (St_Print v s) = expr_ok P d v"
| "stmt_ok P d (St_Expr v s) = expr_ok P d v"
| "stmt_ok P d (St_AssignTarget t v s) = (target_ok P d t \<and> expr_ok P d v)"
| "stmt_ok P d (St_CompoundAssign t op v s) = (target_ok P d t \<and> expr_ok P d v)"
| "stmt_ok P d (St_DestructureAssign ns vs s) = (\<forall>v \<in> set vs. expr_ok P d v)"
| "stmt_ok P d (St_ObjectDestructureAssign bs r v s) =
     (expr_ok P d v \<and>
      (\<forall>b \<in> set bs. case b of ObjectBinding f l df sp \<Rightarrow> opt_all (expr_ok P d) df))"
| "stmt_ok P d (St_If c t e s) =
     (d < MAX_STATEMENT_DEPTH \<and> expr_ok P (d + 1) c
      \<and> (\<forall>s \<in> set t. stmt_ok P (d + 1) s) \<and> (\<forall>s \<in> set e. stmt_ok P (d + 1) s))"
| "stmt_ok P d (St_While c b s) =
     (d < MAX_STATEMENT_DEPTH \<and> expr_ok P (d + 1) c \<and> (\<forall>s \<in> set b. stmt_ok P (d + 1) s))"
| "stmt_ok P d (St_For n i b s) =
     (d < MAX_STATEMENT_DEPTH \<and> expr_ok P (d + 1) i \<and> (\<forall>s \<in> set b. stmt_ok P (d + 1) s))"
| "stmt_ok P d (St_Function (FnDecl n a tp ps rt b sp)) =
     ((\<forall>p \<in> set ps. opt_all P (pa_ty p)) \<and> opt_all P rt
      \<and> d < MAX_STATEMENT_DEPTH \<and> (\<forall>s \<in> set b. stmt_ok P (d + 1) s))"
| "stmt_ok P d (St_Try b cn cb fb s) =
     (d < MAX_STATEMENT_DEPTH
      \<and> (\<forall>s \<in> set b. stmt_ok P (d + 1) s) \<and> (\<forall>s \<in> set cb. stmt_ok P (d + 1) s)
      \<and> (\<forall>s \<in> set fb. stmt_ok P (d + 1) s))"
| "stmt_ok P d (St_Return v s) = opt_all (expr_ok P d) v"
| "stmt_ok P d (St_Break s) = True"
| "stmt_ok P d (St_Continue s) = True"
| "target_ok P d (AT_Variable x) = True"
| "target_ok P d (AT_Field t x) = expr_ok P d t"
| "target_ok P d (AT_Index t i) = (expr_ok P d t \<and> expr_ok P d i)"

definition fn_ok :: "(type_name \<Rightarrow> bool) \<Rightarrow> nat \<Rightarrow> fn_decl \<Rightarrow> bool" where
  "fn_ok P d f \<longleftrightarrow> (\<forall>p \<in> set (fn_params f). opt_all P (pa_ty p)) \<and> opt_all P (fn_return_type f)
     \<and> distinct (fn_type_params f) \<and> (\<forall>s \<in> set (fn_body f). stmt_ok P d s)"

end
