(* ===== verification/Parser_Core.thy ===== *)
theory Parser_Core
  imports Expression_Tree
begin

text \<open>
  The parser state and its token cursor (\<open>src/src/parser/mod.rs\<close>): the methods that read,
  compare and consume tokens and the three depth counters, followed by the calculus in which
  the grammar of the later theories is verified. A parser never looks at its state again after
  an error, so an error carries no state.
\<close>

section \<open>State\<close>

definition MAX_PARSE_DEPTH :: nat where
  "MAX_PARSE_DEPTH = 32"

definition MAX_TOKENS :: nat where
  "MAX_TOKENS = 100000"

record parser_state =
  ps_tokens :: "token list"
  ps_current :: nat
  ps_parse_depth :: nat
  ps_type_parse_depth :: nat
  ps_statement_depth :: nat

type_synonym 'a parser = "(parser_state, ku_error, 'a) sm"

definition Parser_new :: "token list \<Rightarrow> parser_state" where
  "Parser_new toks = \<lparr>ps_tokens = toks, ps_current = 0, ps_parse_depth = 0,
     ps_type_parse_depth = 0, ps_statement_depth = 0\<rparr>"

section \<open>The token cursor\<close>

text \<open>\<open>mem::discriminant\<close>: a kind without its payload.\<close>

definition discriminant :: "token_kind \<Rightarrow> token_kind" where
  "discriminant k = (case k of
       TK_Ident _ \<Rightarrow> TK_Ident [] | TK_Int _ \<Rightarrow> TK_Int 0 | TK_Float _ \<Rightarrow> TK_Float (F64 0)
     | TK_String _ \<Rightarrow> TK_String [] | TK_TemplateString _ \<Rightarrow> TK_TemplateString [] | _ \<Rightarrow> k)"

definition token_kind_eq :: "token_kind \<Rightarrow> token_kind \<Rightarrow> bool" where
  "token_kind_eq l r \<longleftrightarrow> discriminant l = discriminant r"

text \<open>The payload patterns of the source's matches on a token kind.\<close>

definition ident_of :: "token_kind \<Rightarrow> ustring option" where
  "ident_of k = (case k of TK_Ident x \<Rightarrow> Some x | _ \<Rightarrow> None)"

definition string_of :: "token_kind \<Rightarrow> ustring option" where
  "string_of k = (case k of TK_String x \<Rightarrow> Some x | _ \<Rightarrow> None)"

lemma ident_of_Some [simp]: "ident_of k = Some x \<longleftrightarrow> k = TK_Ident x"
  by (auto simp: ident_of_def split: token_kind.splits)

lemma string_of_Some [simp]: "string_of k = Some x \<longleftrightarrow> k = TK_String x"
  by (auto simp: string_of_def split: token_kind.splits)

text \<open>Indexing \<open>self.tokens\<close> panics out of range.\<close>

definition peek :: "token parser" where
  "peek s = (if ps_current s < length (ps_tokens s) then Inr (ps_tokens s ! ps_current s, s)
             else Inl RustPanic)"

definition previous :: "token parser" where
  "previous s = (if 0 < ps_current s \<and> ps_current s - 1 < length (ps_tokens s)
                 then Inr (ps_tokens s ! (ps_current s - 1), s) else Inl RustPanic)"

definition check :: "token_kind \<Rightarrow> bool parser" where
  "check kind = sbind peek (\<lambda>t. sreturn (token_kind_eq (tk_kind t) kind))"

definition advance :: "token parser" where
  "advance = sbind peek (\<lambda>t. sbind (check TK_Eof) (\<lambda>eof.
     sbind (if eof then sreturn () else smodify (\<lambda>s. s\<lparr>ps_current := ps_current s + 1\<rparr>)) (\<lambda>_.
     sreturn t)))"

definition peek_kind_at :: "nat \<Rightarrow> token_kind option parser" where
  "peek_kind_at i = sget (\<lambda>s. if ps_current s + i < length (ps_tokens s)
     then Some (tk_kind (ps_tokens s ! (ps_current s + i))) else None)"

definition peek_next_kind :: "token_kind option parser" where
  "peek_next_kind = peek_kind_at 1"

definition match_kind :: "token_kind \<Rightarrow> bool parser" where
  "match_kind kind = sbind (check kind) (\<lambda>b.
     if b then sbind advance (\<lambda>_. sreturn True) else sreturn False)"

fun match_any :: "token_kind list \<Rightarrow> bool parser" where
  "match_any [] = sreturn False"
| "match_any (k # ks) = sbind (check k) (\<lambda>b.
     if b then sbind advance (\<lambda>_. sreturn True) else match_any ks)"

definition optional_semicolon :: "unit parser" where
  "optional_semicolon = sbind (match_kind TK_Semicolon) (\<lambda>_. sreturn ())"

definition consume :: "token_kind \<Rightarrow> string \<Rightarrow> token parser" where
  "consume kind message = sbind (check kind) (\<lambda>b.
     if b then advance else sbind peek (\<lambda>t. sraise (parse_error (lit message) (tk_span t))))"

definition consume_ident_msg :: "ustring \<Rightarrow> (ustring \<times> span) parser" where
  "consume_ident_msg message = sbind advance (\<lambda>t. case ident_of (tk_kind t) of
       Some name \<Rightarrow> sreturn (name, tk_span t)
     | None \<Rightarrow> sraise (parse_error message (tk_span t)))"

definition consume_ident :: "string \<Rightarrow> (ustring \<times> span) parser" where
  "consume_ident message = consume_ident_msg (lit message)"

definition consume_string :: "string \<Rightarrow> (ustring \<times> span) parser" where
  "consume_string message = sbind advance (\<lambda>t. case string_of (tk_kind t) of
       Some v \<Rightarrow> sreturn (v, tk_span t)
     | None \<Rightarrow> sraise (parse_error (lit message) (tk_span t)))"

definition match_ident_text :: "string \<Rightarrow> bool parser" where
  "match_ident_text text = sbind peek (\<lambda>t. case ident_of (tk_kind t) of
       Some v \<Rightarrow> (if v = lit text then sbind advance (\<lambda>_. sreturn True) else sreturn False)
     | None \<Rightarrow> sreturn False)"

section \<open>Depth counters\<close>

definition enter_parse_depth :: "unit parser" where
  "enter_parse_depth = sbind (smodify (\<lambda>s. s\<lparr>ps_parse_depth := ps_parse_depth s + 1\<rparr>)) (\<lambda>_.
     sbind (sget ps_parse_depth) (\<lambda>d.
     if MAX_PARSE_DEPTH < d
     then sbind peek (\<lambda>t. sraise (parse_error
            (lit ''maximum parse depth exceeded; expression is too deeply nested'') (tk_span t)))
     else sreturn ()))"

definition leave_parse_depth :: "unit parser" where
  "leave_parse_depth = smodify (\<lambda>s. s\<lparr>ps_parse_depth := ps_parse_depth s - 1\<rparr>)"

definition with_statement_depth :: "span \<Rightarrow> 'a parser \<Rightarrow> 'a parser" where
  "with_statement_depth sp parse = sbind (sget ps_statement_depth) (\<lambda>d.
     if MAX_STATEMENT_DEPTH \<le> d
     then sraise (parse_error (lit ''maximum parse depth exceeded; statement body is too deeply nested'') sp)
     else sbind (smodify (\<lambda>s. s\<lparr>ps_statement_depth := ps_statement_depth s + 1\<rparr>)) (\<lambda>_.
          sbind parse (\<lambda>r.
          sbind (smodify (\<lambda>s. s\<lparr>ps_statement_depth := ps_statement_depth s - 1\<rparr>)) (\<lambda>_.
          sreturn r))))"

definition type_depth_error :: "span \<Rightarrow> ku_error" where
  "type_depth_error sp = parse_error (lit ''maximum type depth exceeded; type is too deeply nested'') sp"

definition with_type_parse_depth :: "span \<Rightarrow> 'a parser \<Rightarrow> 'a parser" where
  "with_type_parse_depth sp parse = sbind (sget ps_type_parse_depth) (\<lambda>d.
     if MAX_TYPE_DEPTH \<le> d then sraise (type_depth_error sp)
     else sbind (smodify (\<lambda>s. s\<lparr>ps_type_parse_depth := ps_type_parse_depth s + 1\<rparr>)) (\<lambda>_.
          sbind parse (\<lambda>r.
          sbind (smodify (\<lambda>s. s\<lparr>ps_type_parse_depth := ps_type_parse_depth s - 1\<rparr>)) (\<lambda>_.
          sreturn r))))"

definition ensure_type_depth :: "type_name \<Rightarrow> span \<Rightarrow> unit parser" where
  "ensure_type_depth ty sp =
     (if MAX_TYPE_DEPTH < type_nesting_depth ty then sraise (type_depth_error sp) else sreturn ())"

definition same_line :: "span \<Rightarrow> span \<Rightarrow> bool" where
  "same_line l r \<longleftrightarrow> line (sp_end l) = line (sp_start r)"

section \<open>The token stream check\<close>

definition check_token_stream :: "unit parser" where
  "check_token_stream = sbind (sget ps_tokens) (\<lambda>toks.
     if MAX_TOKENS < length toks
     then sraise (parse_error (lit ''too many tokens; input is too large for Ku'')
            (case toks of [] \<Rightarrow> Span_default | t # _ \<Rightarrow> tk_span t))
     else if toks = [] then sraise (parse_error (lit ''token stream is empty'') Span_default)
     else case find (\<lambda>t. tk_kind t = TK_Eof) (butlast toks) of
        Some early_eof \<Rightarrow> sraise (parse_error (lit ''EOF must be the final token'') (tk_span early_eof))
      | None \<Rightarrow> if tk_kind (last toks) \<noteq> TK_Eof
                then sraise (parse_error (lit ''token stream is missing EOF'') (tk_span (last toks)))
                else sreturn ())"

section \<open>Well-formed states\<close>

text \<open>The stream the check admits, with the cursor on one of its tokens.\<close>

definition stream_ok :: "token list \<Rightarrow> bool" where
  "stream_ok toks \<longleftrightarrow> toks \<noteq> [] \<and> tk_kind (last toks) = TK_Eof
     \<and> (\<forall>t \<in> set (butlast toks). tk_kind t \<noteq> TK_Eof)"

definition ps_wf :: "parser_state \<Rightarrow> bool" where
  "ps_wf s \<longleftrightarrow> stream_ok (ps_tokens s) \<and> ps_current s < length (ps_tokens s)"

definition ps_rem :: "parser_state \<Rightarrow> nat" where
  "ps_rem s = length (ps_tokens s) - ps_current s"

definition ps_ext :: "parser_state \<Rightarrow> parser_state \<Rightarrow> bool" where
  "ps_ext s s' \<longleftrightarrow> ps_tokens s' = ps_tokens s \<and> ps_current s \<le> ps_current s'
     \<and> (ps_wf s \<longrightarrow> ps_wf s') \<and> ps_parse_depth s' = ps_parse_depth s
     \<and> ps_type_parse_depth s' = ps_type_parse_depth s \<and> ps_statement_depth s' = ps_statement_depth s"

interpretation parser_cursor: cursor ps_wf ps_rem ps_ext
  by unfold_locales (auto simp: ps_ext_def ps_rem_def)

abbreviation cur_tok :: "parser_state \<Rightarrow> token" where
  "cur_tok s \<equiv> ps_tokens s ! ps_current s"

abbreviation nxt :: "parser_state \<Rightarrow> parser_state" where
  "nxt s \<equiv> s\<lparr>ps_current := Suc (ps_current s)\<rparr>"

lemma token_kind_eq_refl [simp]: "token_kind_eq k k"
  by (simp add: token_kind_eq_def)

lemma token_kind_eq_Eof [simp]: "token_kind_eq k TK_Eof \<longleftrightarrow> k = TK_Eof"
  by (auto simp: token_kind_eq_def discriminant_def split: token_kind.splits)

lemma token_kind_eq_Eof2 [simp]: "token_kind_eq TK_Eof k \<longleftrightarrow> k = TK_Eof"
  by (auto simp: token_kind_eq_def discriminant_def split: token_kind.splits)

lemma token_kind_eq_sym: "token_kind_eq k l = token_kind_eq l k"
  by (auto simp: token_kind_eq_def)

lemma stream_ok_Eof_iff:
  assumes "stream_ok toks" and "i < length toks"
  shows "tk_kind (toks ! i) = TK_Eof \<longleftrightarrow> i = length toks - 1"
proof
  assume eof: "tk_kind (toks ! i) = TK_Eof"
  show "i = length toks - 1"
  proof (rule ccontr)
    assume "i \<noteq> length toks - 1"
    with assms(2) have "i < length (butlast toks)" by simp
    then have "toks ! i \<in> set (butlast toks)" by (metis nth_butlast nth_mem)
    with assms(1) eof show False by (auto simp: stream_ok_def)
  qed
next
  assume "i = length toks - 1"
  with assms show "tk_kind (toks ! i) = TK_Eof" by (auto simp: stream_ok_def last_conv_nth)
qed

lemma ps_wf_nxt: "ps_wf s \<Longrightarrow> tk_kind (cur_tok s) \<noteq> TK_Eof \<Longrightarrow> ps_wf (nxt s)"
  using stream_ok_Eof_iff [of "ps_tokens s" "ps_current s"] by (auto simp: ps_wf_def)

text \<open>Kinds without a payload are compared for equality.\<close>

definition plain :: "token_kind \<Rightarrow> bool" where
  "plain k \<longleftrightarrow> (case k of TK_Ident _ \<Rightarrow> False | TK_Int _ \<Rightarrow> False | TK_Float _ \<Rightarrow> False
     | TK_String _ \<Rightarrow> False | TK_TemplateString _ \<Rightarrow> False | _ \<Rightarrow> True)"

lemma token_kind_eq_plain:
  assumes "plain k"
  shows "token_kind_eq k' k \<longleftrightarrow> k' = k"
proof -
  have "discriminant k = k" using assms by (cases k) (auto simp: plain_def discriminant_def)
  moreover have "discriminant k' = k \<Longrightarrow> k' = k"
    using assms by (cases k') (auto simp: plain_def discriminant_def)
  ultimately show ?thesis by (auto simp: token_kind_eq_def)
qed

section \<open>The parser calculus\<close>

text \<open>
  \<open>psound h pd td sd m R\<close>: started in a well-formed state with the given depth counters
  (\<open>h\<close> says that a token has been consumed before), \<open>m\<close> neither panics nor exhausts a
  bound; an error is a parse error; on success the counters are what they were, the cursor
  has not moved back, and \<open>R\<close> holds of the result and the number of tokens consumed.
\<close>

definition psound :: "bool \<Rightarrow> nat \<Rightarrow> nat \<Rightarrow> nat \<Rightarrow> 'a parser \<Rightarrow> ('a \<Rightarrow> nat \<Rightarrow> bool) \<Rightarrow> bool" where
  "psound h pd td sd m R \<longleftrightarrow> (\<forall>s. ps_wf s \<and> (h \<longrightarrow> 0 < ps_current s) \<and> ps_parse_depth s = pd
       \<and> ps_type_parse_depth s = td \<and> ps_statement_depth s = sd
     \<longrightarrow> wp (\<lambda>e. ke_kind e = KE_Parse) m
           (\<lambda>x s'. ps_ext s s' \<and> R x (ps_current s' - ps_current s)) s)"

named_theorems ps_intro \<open>introduction rules of the parser calculus\<close>

lemma psoundI:
  assumes "\<And>s. ps_wf s \<Longrightarrow> (h \<Longrightarrow> 0 < ps_current s) \<Longrightarrow> ps_parse_depth s = pd \<Longrightarrow>
     ps_type_parse_depth s = td \<Longrightarrow> ps_statement_depth s = sd \<Longrightarrow>
     wp (\<lambda>e. ke_kind e = KE_Parse) m (\<lambda>x s'. ps_ext s s' \<and> R x (ps_current s' - ps_current s)) s"
  shows "psound h pd td sd m R"
  using assms by (simp add: psound_def)

lemma psoundD:
  assumes "psound h pd td sd m R" and "ps_wf s" and "h \<Longrightarrow> 0 < ps_current s" and "ps_parse_depth s = pd"
    and "ps_type_parse_depth s = td" and "ps_statement_depth s = sd"
  shows "wp (\<lambda>e. ke_kind e = KE_Parse) m (\<lambda>x s'. ps_ext s s' \<and> R x (ps_current s' - ps_current s)) s"
  using assms by (simp add: psound_def)

lemma ps_mono:
  assumes "psound h pd td sd m R" and "\<And>x n. R x n \<Longrightarrow> R' x n"
  shows "psound h pd td sd m R'"
  by (rule psoundI) (rule wp_mono [OF psoundD [OF assms(1)]], auto intro: assms(2))

lemma ps_return [ps_intro]: "R x 0 \<Longrightarrow> psound h pd td sd (sreturn x) R"
  by (auto simp: psound_def wp_return ps_ext_def)

lemma ps_raise [ps_intro]: "psound h pd td sd (sraise (parse_error m sp)) R"
  by (auto simp: psound_def wp_raise)

lemma ps_bind:
  assumes m: "psound h pd td sd m R1"
    and f: "\<And>x n. R1 x n \<Longrightarrow> psound (h \<or> 0 < n) pd td sd (f x) (\<lambda>y k. R y (n + k))"
  shows "psound h pd td sd (sbind m f) R"
proof (rule psoundI)
  fix s
  assume s: "ps_wf s" "h \<Longrightarrow> 0 < ps_current s" "ps_parse_depth s = pd" "ps_type_parse_depth s = td"
    "ps_statement_depth s = sd"
  show "wp (\<lambda>e. ke_kind e = KE_Parse) (sbind m f)
      (\<lambda>x s'. ps_ext s s' \<and> R x (ps_current s' - ps_current s)) s"
    unfolding wp_bind
  proof (rule wp_mono [OF psoundD [OF m s]], assumption, elim conjE)
    fix x s1
    assume e1: "ps_ext s s1" and r1: "R1 x (ps_current s1 - ps_current s)"
    have "wp (\<lambda>e. ke_kind e = KE_Parse) (f x)
        (\<lambda>y s'. ps_ext s1 s' \<and> R y ((ps_current s1 - ps_current s) + (ps_current s' - ps_current s1))) s1"
      by (rule psoundD [OF f [OF r1]]) (use s e1 in \<open>auto simp: ps_ext_def\<close>)
    then show "wp (\<lambda>e. ke_kind e = KE_Parse) (f x)
        (\<lambda>x s'. ps_ext s s' \<and> R x (ps_current s' - ps_current s)) s1"
      by (rule wp_mono) (use e1 in \<open>auto simp: ps_ext_def\<close>)
  qed
qed

lemma ps_if [ps_intro]:
  assumes "b \<Longrightarrow> psound h pd td sd m R" and "\<not> b \<Longrightarrow> psound h pd td sd m' R"
  shows "psound h pd td sd (if b then m else m') R"
  using assms by simp

lemma ps_let [ps_intro]:
  "(\<And>x. x = t \<Longrightarrow> psound h pd td sd (f x) R) \<Longrightarrow> psound h pd td sd (let x = t in f x) R"
  by simp

lemma ps_case_option [ps_intro]:
  assumes "x = None \<Longrightarrow> psound h pd td sd a R" and "\<And>y. x = Some y \<Longrightarrow> psound h pd td sd (b y) R"
  shows "psound h pd td sd (case x of None \<Rightarrow> a | Some y \<Rightarrow> b y) R"
  using assms by (cases x) auto

lemma ps_case_prod [ps_intro]:
  assumes "\<And>y z. x = (y, z) \<Longrightarrow> psound h pd td sd (f y z) R"
  shows "psound h pd td sd (case x of (y, z) \<Rightarrow> f y z) R"
  using assms by (cases x) auto

lemma ps_assoc: "sbind (sbind m f) g = sbind m (\<lambda>x. sbind (f x) g)"
  by (auto simp: sbind_def fun_eq_iff split: sum.splits prod.splits)

lemma ps_bind_if: "sbind (if b then m else m') g = (if b then sbind m g else sbind m' g)"
  by simp

lemma ps_bind_return: "sbind (sreturn x) g = g x"
  by (simp add: sbind_def sreturn_def fun_eq_iff)

lemma ps_bind_raise: "sbind (sraise e) g = sraise e"
  by (simp add: sbind_def sraise_def fun_eq_iff)

text \<open>
  The loop rule: a loop variable and the number of tokens consumed so far satisfy the
  invariant, and every further round consumes a token.
\<close>

lemma ps_loop:
  assumes init: "I b 0"
    and body: "\<And>b n. I b n \<Longrightarrow> psound (h \<or> 0 < n) pd td sd (body b)
      (\<lambda>r k. case r of Inl b' \<Rightarrow> 0 < k \<and> I b' (n + k) | Inr a \<Rightarrow> R a (n + k))"
  shows "psound h pd td sd (sloop ps_rem body b) R"
proof (rule psoundI)
  fix s0
  assume s0: "ps_wf s0" "h \<Longrightarrow> 0 < ps_current s0" "ps_parse_depth s0 = pd" "ps_type_parse_depth s0 = td"
    "ps_statement_depth s0 = sd"
  let ?I = "\<lambda>b s. ps_ext s0 s \<and> I b (ps_current s - ps_current s0)"
  show "wp (\<lambda>e. ke_kind e = KE_Parse) (sloop ps_rem body b)
      (\<lambda>x s'. ps_ext s0 s' \<and> R x (ps_current s' - ps_current s0)) s0"
  proof (rule parser_cursor.sloop_wp [where I = ?I])
    show "ps_wf s0" by (rule s0)
    show "?I b s0" using init by (simp add: ps_ext_def)
  next
    fix b s
    assume wf: "ps_wf s" and I: "?I b s"
    let ?n = "ps_current s - ps_current s0"
    have le: "ps_current s0 \<le> ps_current s" using I by (simp add: ps_ext_def)
    have "wp (\<lambda>e. ke_kind e = KE_Parse) (body b) (\<lambda>r s'. ps_ext s s' \<and>
        (case r of Inl b' \<Rightarrow> 0 < ps_current s' - ps_current s \<and> I b' (?n + (ps_current s' - ps_current s))
         | Inr a \<Rightarrow> R a (?n + (ps_current s' - ps_current s)))) s"
      by (rule psoundD [OF body]) (use wf I s0 in \<open>auto simp: ps_ext_def\<close>)
    then show "wp (\<lambda>e. ke_kind e = KE_Parse) (body b) (\<lambda>r s'. case r of
        Inl b' \<Rightarrow> ps_ext s s' \<and> ps_rem s' < ps_rem s \<and> ?I b' s'
      | Inr a \<Rightarrow> ps_ext s0 s' \<and> R a (ps_current s' - ps_current s0)) s"
    proof (rule wp_mono, elim conjE)
      fix r s'
      assume e: "ps_ext s s'" and r: "case r of
          Inl b' \<Rightarrow> 0 < ps_current s' - ps_current s \<and> I b' (?n + (ps_current s' - ps_current s))
        | Inr a \<Rightarrow> R a (?n + (ps_current s' - ps_current s))"
      have "ps_wf s'" using e wf by (simp add: ps_ext_def)
      moreover have "?n + (ps_current s' - ps_current s) = ps_current s' - ps_current s0"
        using e le by (simp add: ps_ext_def)
      moreover have "ps_ext s0 s'" using I e parser_cursor.ext_trans by blast
      ultimately show "case r of
          Inl b' \<Rightarrow> ps_ext s s' \<and> ps_rem s' < ps_rem s \<and> ?I b' s'
        | Inr a \<Rightarrow> ps_ext s0 s' \<and> R a (ps_current s' - ps_current s0)"
        using e r by (auto simp: ps_rem_def ps_wf_def ps_ext_def split: sum.splits)
    qed
  qed
qed

subsection \<open>Rules of the cursor\<close>

lemma wp_peek: "ps_wf s \<Longrightarrow> wp E peek Q s = Q (cur_tok s) s"
  by (simp add: wp_def peek_def ps_wf_def)

lemma wp_check: "ps_wf s \<Longrightarrow> wp E (check k) Q s = Q (token_kind_eq (tk_kind (cur_tok s)) k) s"
  by (simp add: check_def wp_bind wp_peek wp_return)

lemma wp_advance:
  "ps_wf s \<Longrightarrow> wp E advance Q s = Q (cur_tok s) (if tk_kind (cur_tok s) = TK_Eof then s else nxt s)"
  by (simp add: advance_def wp_bind wp_peek wp_check wp_return wp_modify)

lemma peek_sound: "psound h pd td sd peek (\<lambda>t n. n = 0)"
  by (auto simp: psound_def wp_peek ps_ext_def)

lemma check_sound: "psound h pd td sd (check k) (\<lambda>b n. n = 0)"
  by (auto simp: psound_def wp_check ps_ext_def)

lemma previous_sound: "h \<Longrightarrow> psound h pd td sd previous (\<lambda>t n. n = 0)"
  by (auto simp: psound_def wp_def previous_def ps_wf_def ps_ext_def)

lemma advance_sound: "psound h pd td sd advance (\<lambda>t n. tk_kind t \<noteq> TK_Eof \<longrightarrow> n = 1)"
  by (auto simp: psound_def wp_advance ps_ext_def ps_wf_nxt)

lemma match_kind_sound:
  assumes "k \<noteq> TK_Eof"
  shows "psound h pd td sd (match_kind k) (\<lambda>b n. if b then n = 1 else n = 0)"
  using assms
  by (auto simp: psound_def match_kind_def wp_bind wp_check wp_advance wp_return ps_ext_def ps_wf_nxt)

lemma match_any_sound:
  assumes "TK_Eof \<notin> set ks"
  shows "psound h pd td sd (match_any ks) (\<lambda>b n. if b then n = 1 else n = 0)"
  using assms
proof (induction ks)
  case Nil
  show ?case by (auto intro!: ps_intro)
next
  case (Cons k ks)
  have "k \<noteq> TK_Eof" using Cons.prems by auto
  moreover from Cons have "psound h pd td sd (match_any ks) (\<lambda>b n. if b then n = 1 else n = 0)" by simp
  ultimately show ?case
    by (auto simp: psound_def wp_bind wp_check wp_advance wp_return ps_ext_def ps_wf_nxt)
qed

lemma consume_sound:
  assumes "k \<noteq> TK_Eof"
  shows "psound h pd td sd (consume k m) (\<lambda>t n. n = 1)"
  using assms
  by (auto simp: psound_def consume_def wp_bind wp_check wp_peek wp_advance wp_return wp_raise
      ps_ext_def ps_wf_nxt)

lemma consume_eof_sound: "psound h pd td sd (consume TK_Eof m) (\<lambda>t n. n = 0)"
  by (auto simp: psound_def consume_def wp_bind wp_check wp_peek wp_advance wp_return wp_raise
      ps_ext_def)

lemma consume_ident_msg_sound: "psound h pd td sd (consume_ident_msg m) (\<lambda>x n. n = 1)"
  by (auto simp: psound_def consume_ident_msg_def wp_bind wp_advance wp_return wp_raise ps_ext_def
      ps_wf_nxt split: option.splits)

lemma consume_ident_sound: "psound h pd td sd (consume_ident m) (\<lambda>x n. n = 1)"
  unfolding consume_ident_def by (rule consume_ident_msg_sound)

lemma consume_string_sound: "psound h pd td sd (consume_string m) (\<lambda>x n. n = 1)"
  by (auto simp: psound_def consume_string_def wp_bind wp_advance wp_return wp_raise ps_ext_def
      ps_wf_nxt split: option.splits)

lemma match_ident_text_sound: "psound h pd td sd (match_ident_text m) (\<lambda>b n. if b then n = 1 else n = 0)"
  by (auto simp: psound_def match_ident_text_def wp_bind wp_peek wp_advance wp_return ps_ext_def
      ps_wf_nxt split: option.splits)

lemma optional_semicolon_sound: "psound h pd td sd optional_semicolon (\<lambda>x n. True)"
  unfolding optional_semicolon_def
  by (rule ps_bind [OF match_kind_sound]) (auto intro: ps_return)

lemma get_sound: "psound h pd td sd (sget f) (\<lambda>x n. n = 0)"
  by (auto simp: psound_def wp_get ps_ext_def)

lemma peek_kind_at_sound: "psound h pd td sd (peek_kind_at i) (\<lambda>x n. n = 0)"
  unfolding peek_kind_at_def by (rule get_sound)

lemma peek_next_kind_sound: "psound h pd td sd peek_next_kind (\<lambda>x n. n = 0)"
  unfolding peek_next_kind_def by (rule peek_kind_at_sound)

lemmas cursor_sound = peek_sound check_sound previous_sound advance_sound match_kind_sound
  match_any_sound consume_sound consume_ident_sound consume_ident_msg_sound consume_string_sound
  match_ident_text_sound optional_semicolon_sound peek_kind_at_sound peek_next_kind_sound

text \<open>Each rule in the two places a call can have: before a continuation, and last.\<close>

lemmas cursor_bind [ps_intro] = cursor_sound [THEN ps_bind]
lemmas cursor_last [ps_intro] = cursor_sound [THEN ps_mono]

subsection \<open>Rules of the depth counters\<close>

lemma ps_with_statement_depth:
  assumes "sd < MAX_STATEMENT_DEPTH \<Longrightarrow> psound h pd td (sd + 1) m R"
  shows "psound h pd td sd (with_statement_depth sp m) R"
proof (rule psoundI)
  fix s
  assume s: "ps_wf s" "h \<Longrightarrow> 0 < ps_current s" "ps_parse_depth s = pd" "ps_type_parse_depth s = td"
    "ps_statement_depth s = sd"
  let ?s1 = "s\<lparr>ps_statement_depth := sd + 1\<rparr>"
  show "wp (\<lambda>e. ke_kind e = KE_Parse) (with_statement_depth sp m)
      (\<lambda>x s'. ps_ext s s' \<and> R x (ps_current s' - ps_current s)) s"
  proof (cases "MAX_STATEMENT_DEPTH \<le> sd")
    case True
    then show ?thesis by (simp add: with_statement_depth_def wp_bind wp_get wp_raise s)
  next
    case False
    then have "psound h pd td (sd + 1) m R" using assms by simp
    then have "wp (\<lambda>e. ke_kind e = KE_Parse) m
        (\<lambda>x s'. ps_ext ?s1 s' \<and> R x (ps_current s' - ps_current ?s1)) ?s1"
      by (rule psoundD) (use s in \<open>auto simp: ps_wf_def\<close>)
    then have "wp (\<lambda>e. ke_kind e = KE_Parse) m (\<lambda>x s'.
        ps_ext s (s'\<lparr>ps_statement_depth := ps_statement_depth s' - 1\<rparr>)
        \<and> R x (ps_current s' - ps_current s)) ?s1"
      by (rule wp_mono) (use s in \<open>auto simp: ps_ext_def ps_wf_def\<close>)
    with False show ?thesis
      by (simp add: with_statement_depth_def wp_bind wp_get wp_modify wp_return s)
  qed
qed

lemma ps_with_type_parse_depth:
  assumes "td < MAX_TYPE_DEPTH \<Longrightarrow> psound h pd (td + 1) sd m R"
  shows "psound h pd td sd (with_type_parse_depth sp m) R"
proof (rule psoundI)
  fix s
  assume s: "ps_wf s" "h \<Longrightarrow> 0 < ps_current s" "ps_parse_depth s = pd" "ps_type_parse_depth s = td"
    "ps_statement_depth s = sd"
  let ?s1 = "s\<lparr>ps_type_parse_depth := td + 1\<rparr>"
  show "wp (\<lambda>e. ke_kind e = KE_Parse) (with_type_parse_depth sp m)
      (\<lambda>x s'. ps_ext s s' \<and> R x (ps_current s' - ps_current s)) s"
  proof (cases "MAX_TYPE_DEPTH \<le> td")
    case True
    then show ?thesis
      by (simp add: with_type_parse_depth_def type_depth_error_def wp_bind wp_get wp_raise s)
  next
    case False
    then have "psound h pd (td + 1) sd m R" using assms by simp
    then have "wp (\<lambda>e. ke_kind e = KE_Parse) m
        (\<lambda>x s'. ps_ext ?s1 s' \<and> R x (ps_current s' - ps_current ?s1)) ?s1"
      by (rule psoundD) (use s in \<open>auto simp: ps_wf_def\<close>)
    then have "wp (\<lambda>e. ke_kind e = KE_Parse) m (\<lambda>x s'.
        ps_ext s (s'\<lparr>ps_type_parse_depth := ps_type_parse_depth s' - 1\<rparr>)
        \<and> R x (ps_current s' - ps_current s)) ?s1"
      by (rule wp_mono) (use s in \<open>auto simp: ps_ext_def ps_wf_def\<close>)
    with False show ?thesis
      by (simp add: with_type_parse_depth_def wp_bind wp_get wp_modify wp_return s)
  qed
qed

text \<open>The bracket \<open>enter_parse_depth\<close> \<dots> \<open>leave_parse_depth\<close> around a call.\<close>

lemma ps_parse_depth:
  assumes "pd < MAX_PARSE_DEPTH \<Longrightarrow> psound h (pd + 1) td sd m R"
  shows "psound h pd td sd (sbind enter_parse_depth (\<lambda>_. sbind m (\<lambda>x. sbind leave_parse_depth (\<lambda>_. sreturn x)))) R"
proof (rule psoundI)
  fix s
  assume s: "ps_wf s" "h \<Longrightarrow> 0 < ps_current s" "ps_parse_depth s = pd" "ps_type_parse_depth s = td"
    "ps_statement_depth s = sd"
  let ?s1 = "s\<lparr>ps_parse_depth := pd + 1\<rparr>"
  have wf1: "ps_wf ?s1" using s(1) by (simp add: ps_wf_def)
  show "wp (\<lambda>e. ke_kind e = KE_Parse) (sbind enter_parse_depth (\<lambda>_. sbind m (\<lambda>x. sbind leave_parse_depth (\<lambda>_. sreturn x))))
      (\<lambda>x s'. ps_ext s s' \<and> R x (ps_current s' - ps_current s)) s"
  proof (cases "pd < MAX_PARSE_DEPTH")
    case False
    then show ?thesis using wf1 by (simp add: enter_parse_depth_def wp_bind wp_get wp_modify wp_raise wp_peek s)
  next
    case True
    then have "psound h (pd + 1) td sd m R" by (rule assms)
    then have "wp (\<lambda>e. ke_kind e = KE_Parse) m
        (\<lambda>x s'. ps_ext ?s1 s' \<and> R x (ps_current s' - ps_current ?s1)) ?s1"
      by (rule psoundD) (use s wf1 in auto)
    then have "wp (\<lambda>e. ke_kind e = KE_Parse) m (\<lambda>x s'.
        ps_ext s (s'\<lparr>ps_parse_depth := ps_parse_depth s' - 1\<rparr>)
        \<and> R x (ps_current s' - ps_current s)) ?s1"
      by (rule wp_mono) (use s in \<open>auto simp: ps_ext_def ps_wf_def\<close>)
    with True show ?thesis
      by (simp add: enter_parse_depth_def leave_parse_depth_def wp_bind wp_get wp_modify wp_return s)
  qed
qed

lemma ensure_type_depth_sound:
  "psound h pd td sd (ensure_type_depth ty sp) (\<lambda>x n. n = 0 \<and> type_nesting_depth ty \<le> MAX_TYPE_DEPTH)"
  by (auto simp: ensure_type_depth_def type_depth_error_def intro!: ps_intro)

lemmas depth_intro [ps_intro] = ps_with_statement_depth ps_with_type_parse_depth
  ps_with_statement_depth [THEN ps_bind] ps_with_type_parse_depth [THEN ps_bind]
  ensure_type_depth_sound [THEN ps_bind] ensure_type_depth_sound [THEN ps_mono]

lemma check_token_stream_Inr:
  assumes "check_token_stream s = Inr (u, s')"
  shows "s' = s \<and> stream_ok (ps_tokens s) \<and> length (ps_tokens s) \<le> MAX_TOKENS"
proof -
  have "\<forall>t \<in> set (butlast (ps_tokens s)). tk_kind t \<noteq> TK_Eof"
    if "find (\<lambda>t. tk_kind t = TK_Eof) (butlast (ps_tokens s)) = None"
    using that by (auto simp: find_None_iff)
  with assms show ?thesis
    by (auto simp: check_token_stream_def sbind_def sget_def sraise_def sreturn_def stream_ok_def
        split: if_splits option.splits)
qed

end
