(* ===== verification/Parser_Types.thy ===== *)
theory Parser_Types
  imports Parser_Core
begin

text \<open>
  Types (\<open>src/src/parser/mod.rs\<close>): \<open>type_name\<close>, \<open>type_atom\<close>, \<open>function_type\<close> and
  \<open>finish_type_name\<close>, and the lookahead \<open>scan_type\<close> that recognises the parameter list of an
  arrow function without consuming it. The recursion of a type through its atoms is bounded
  by the code's own counter; \<open>TYPE_FUEL\<close> calls are enough for every input.
\<close>

section \<open>Parsing types\<close>

definition parameter_mode :: "param_mode parser" where
  "parameter_mode = sbind (match_kind TK_Ampersand) (\<lambda>b. sreturn (if b then PM_View else PM_Owned))"

definition finish_type_name :: "type_name \<Rightarrow> type_name parser" where
  "finish_type_name ty = sbind (match_kind TK_Bang) (\<lambda>b.
     if b then sbind previous (\<lambda>bang.
            let ty' = TN_Result ty in
            sbind (ensure_type_depth ty' (tk_span bang)) (\<lambda>_. sreturn ty'))
     else sreturn ty)"

definition function_type_params :: "type_name parser \<Rightarrow> (type_name list \<times> param_mode list) parser" where
  "function_type_params TN =
     sbind (check TK_RParen) (\<lambda>empty.
     if empty then sreturn ([], [])
     else sloop ps_rem (\<lambda>(params, param_modes).
       sbind parameter_mode (\<lambda>mode.
       sbind TN (\<lambda>ty.
       sbind (match_kind TK_Comma) (\<lambda>comma.
       let params' = params @ [ty]; param_modes' = param_modes @ [mode] in
       sreturn (if comma then Inl (params', param_modes') else Inr (params', param_modes')))))) ([], []))"

definition function_type :: "type_name parser \<Rightarrow> bool \<Rightarrow> type_name parser" where
  "function_type TN is_async =
     sbind (consume TK_LParen ''expected '(' after 'fn' in function type'') (\<lambda>_.
     sbind (function_type_params TN) (\<lambda>(params, param_modes).
     sbind (consume TK_RParen ''expected ')' after function type parameters'') (\<lambda>_.
     sbind (consume TK_Colon ''expected ':' before function type return'') (\<lambda>_.
     sbind TN (\<lambda>return_type.
     sreturn (TN_Function params param_modes return_type is_async))))))"

text \<open>The dotted name of a custom type.\<close>

definition custom_type_name :: "ustring \<Rightarrow> type_name parser" where
  "custom_type_name = sloop ps_rem (\<lambda>name.
     sbind (match_kind TK_Dot) (\<lambda>dot.
     if dot then sbind (consume_ident (''expected type name after '.'' @ [CHR 0x27])) (\<lambda>(part, _).
            sreturn (Inl (name @ [ch CHR ''.''] @ part)))
     else sreturn (Inr (TN_Custom name))))"

definition type_atom :: "type_name parser \<Rightarrow> type_name parser" where
  "type_atom TN =
     sbind (check TK_Ampersand) (\<lambda>amp.
     if amp then sbind peek (\<lambda>t. sraise (parse_error
       (lit ''single '&' is only allowed before a function parameter; Ku does not provide reference types'')
       (tk_span t)))
     else sbind (check TK_Eof) (\<lambda>eof.
     if eof then sbind peek (\<lambda>t. sraise (parse_error (lit ''expected type name'') (tk_span t)))
     else sbind (match_kind TK_LBracket) (\<lambda>bracket.
     if bracket then sbind previous (\<lambda>opener.
       with_type_parse_depth (tk_span opener)
         (sbind TN (\<lambda>inner.
          sbind (consume TK_RBracket ''expected ']' after array type'') (\<lambda>_.
          let ty = TN_Array inner in
          sbind (ensure_type_depth ty (tk_span opener)) (\<lambda>_. sreturn ty)))))
     else sbind (match_kind TK_Async) (\<lambda>async.
     if async then sbind previous (\<lambda>opener.
       sbind (consume TK_Fn ''expected 'fn' after 'async' in function type'') (\<lambda>_.
       with_type_parse_depth (tk_span opener)
         (sbind (function_type TN True) (\<lambda>ty.
          sbind (ensure_type_depth ty (tk_span opener)) (\<lambda>_. sreturn ty)))))
     else sbind (match_kind TK_Fn) (\<lambda>fn.
     if fn then sbind previous (\<lambda>opener.
       with_type_parse_depth (tk_span opener)
         (sbind (function_type TN False) (\<lambda>ty.
          sbind (ensure_type_depth ty (tk_span opener)) (\<lambda>_. sreturn ty))))
     else sbind advance (\<lambda>t. case ident_of (tk_kind t) of
       Some name \<Rightarrow>
         (if name = lit ''int'' then sreturn TN_Int
          else if name = lit ''float'' then sreturn TN_Float
          else if name = lit ''bool'' then sreturn TN_Bool
          else if name = lit ''str'' then sreturn TN_String
          else if name = lit ''string'' \<or> name = lit ''nil''
          then sraise (parse_error (lit ''expected type name'') (tk_span t))
          else custom_type_name name)
     | None \<Rightarrow> if tk_kind t = TK_Null then sreturn TN_Null
         else sraise (parse_error (lit ''expected type name'') (tk_span t))))))))"

definition type_name_body :: "type_name parser \<Rightarrow> type_name parser" where
  "type_name_body TN =
     sbind (type_atom TN) (\<lambda>first.
     sbind (finish_type_name first) (\<lambda>t0.
     sloop ps_rem (\<lambda>types.
       sbind (match_kind TK_Pipe) (\<lambda>pipe.
       if pipe then sbind (type_atom TN) (\<lambda>a.
              sbind (finish_type_name a) (\<lambda>t. sreturn (Inl (types @ [t]))))
       else sreturn (Inr (case types of [t] \<Rightarrow> t | _ \<Rightarrow> TN_Union types)))) [t0]))"

fun type_name_fuel :: "nat \<Rightarrow> type_name parser" where
  "type_name_fuel 0 = sfuel"
| "type_name_fuel (Suc n) = type_name_body (type_name_fuel n)"

definition TYPE_FUEL :: nat where
  "TYPE_FUEL = MAX_TYPE_DEPTH + 1"

definition type_name :: "type_name parser" where
  "type_name = type_name_fuel TYPE_FUEL"

subsection \<open>Soundness of the type parser\<close>

lemma parameter_mode_sound: "psound h pd td sd parameter_mode (\<lambda>m n. True)"
  unfolding parameter_mode_def by (intro ps_intro) simp_all

lemma finish_type_name_sound:
  "type_ok ty \<Longrightarrow> psound h pd td sd (finish_type_name ty) (\<lambda>t n. type_ok t)"
  unfolding finish_type_name_def
  by (intro ps_intro) (auto simp: type_ok_def)

lemma custom_type_name_sound: "psound h pd td sd (custom_type_name name) (\<lambda>t n. type_ok t)"
  unfolding custom_type_name_def
  by (intro ps_intro ps_loop [where I = "\<lambda>_ _. True"]) auto

lemmas type_intro = parameter_mode_sound [THEN ps_bind] parameter_mode_sound [THEN ps_mono]
  finish_type_name_sound [THEN ps_bind] finish_type_name_sound [THEN ps_mono]
  custom_type_name_sound [THEN ps_mono]

lemma function_type_params_sound:
  assumes TN: "\<And>h. psound h pd td sd TN (\<lambda>t n. 0 < n \<and> type_ok t)"
  shows "psound h pd td sd (function_type_params TN)
    (\<lambda>(ps, ms) n. length ms = length ps \<and> (\<forall>t \<in> set ps. type_ok t))"
  unfolding function_type_params_def
  apply (intro ps_intro ps_loop [where I = "\<lambda>(ps, ms) n. length ms = length ps \<and> (\<forall>t \<in> set ps. type_ok t)"]
      type_intro TN [THEN ps_bind])
  apply (auto split: sum.splits)
  done

lemma function_type_sound:
  assumes TN: "\<And>h. psound h pd td sd TN (\<lambda>t n. 0 < n \<and> type_ok t)"
  shows "psound h pd td sd (function_type TN a) (\<lambda>t n. 0 < n \<and> type_shape t)"
  unfolding function_type_def
  apply (intro ps_intro function_type_params_sound [OF TN, THEN ps_bind] TN [THEN ps_bind])
  apply (auto simp: type_ok_def)
  done

lemma type_atom_sound:
  assumes TN: "\<And>h. td < MAX_TYPE_DEPTH \<Longrightarrow> psound h pd (td + 1) sd TN (\<lambda>t n. 0 < n \<and> type_ok t)"
  shows "psound h pd td sd (type_atom TN) (\<lambda>t n. 0 < n \<and> type_ok t)"
  unfolding type_atom_def
  by (intro ps_intro type_intro function_type_sound [OF TN, THEN ps_bind] TN [THEN ps_bind])
    (auto simp: type_ok_def)

lemma type_name_body_sound:
  assumes TN: "\<And>h. td < MAX_TYPE_DEPTH \<Longrightarrow> psound h pd (td + 1) sd TN (\<lambda>t n. 0 < n \<and> type_ok t)"
  shows "psound h pd td sd (type_name_body TN) (\<lambda>t n. 0 < n \<and> type_ok t)"
  unfolding type_name_body_def
  apply (intro ps_intro type_intro type_atom_sound [OF TN, THEN ps_bind]
      ps_loop [where I = "\<lambda>ts n. ts \<noteq> [] \<and> (\<forall>t \<in> set ts. type_ok t)"])
  by (auto split: list.splits)

lemma type_name_fuel_sound:
  assumes "MAX_TYPE_DEPTH - td < n" and "td \<le> MAX_TYPE_DEPTH"
  shows "psound h pd td sd (type_name_fuel n) (\<lambda>t n. 0 < n \<and> type_ok t)"
  using assms
proof (induction n arbitrary: td h)
  case 0
  then show ?case by simp
next
  case (Suc n)
  show ?case unfolding type_name_fuel.simps
    by (rule type_name_body_sound) (rule Suc.IH, use Suc.prems in auto)
qed

lemma type_name_sound: "td \<le> MAX_TYPE_DEPTH \<Longrightarrow> psound h pd td sd type_name (\<lambda>t n. 0 < n \<and> type_ok t)"
  unfolding type_name_def by (rule type_name_fuel_sound) (auto simp: TYPE_FUEL_def)

section \<open>Lookahead over types\<close>

text \<open>
  \<open>scan_type\<close> and its helpers walk over the token slice with an index of their own and note
  the span of a type that is nested too deeply.
\<close>

record scan_state =
  sc_tokens :: "token list"
  sc_index :: nat
  sc_depth_error :: "span option"

type_synonym 'a scanner = "(scan_state, ku_error, 'a) sm"

datatype type_scan_stop = TS_ArrowParameter | TS_ArrowReturn | TS_FunctionParameter | TS_Array

definition is_type_stop :: "token_kind \<Rightarrow> type_scan_stop \<Rightarrow> bool" where
  "is_type_stop kind stop = (case stop of
       TS_ArrowParameter \<Rightarrow> kind = TK_Comma \<or> kind = TK_RParen
     | TS_FunctionParameter \<Rightarrow> kind = TK_Comma \<or> kind = TK_RParen
     | TS_ArrowReturn \<Rightarrow> kind = TK_Arrow
     | TS_Array \<Rightarrow> kind = TK_RBracket)"

definition sc_get :: "token option scanner" where
  "sc_get = sget (\<lambda>s. if sc_index s < length (sc_tokens s) then Some (sc_tokens s ! sc_index s) else None)"

definition sc_is :: "token_kind \<Rightarrow> bool scanner" where
  "sc_is k = sbind sc_get (\<lambda>t. sreturn (case t of None \<Rightarrow> False | Some t \<Rightarrow> tk_kind t = k))"

definition sc_is_ident :: "bool scanner" where
  "sc_is_ident = sbind sc_get (\<lambda>t. sreturn (case t of None \<Rightarrow> False | Some t \<Rightarrow> ident_of (tk_kind t) \<noteq> None))"

definition sc_step :: "unit scanner" where
  "sc_step = smodify (\<lambda>s. s\<lparr>sc_index := sc_index s + 1\<rparr>)"

definition sc_rem :: "scan_state \<Rightarrow> nat" where
  "sc_rem s = length (sc_tokens s) - sc_index s"

definition scan_function_params :: "(type_scan_stop \<Rightarrow> nat \<Rightarrow> bool scanner) \<Rightarrow> nat \<Rightarrow> bool scanner" where
  "scan_function_params ST depth = sloop sc_rem (\<lambda>_.
     sbind (sc_is TK_Ampersand) (\<lambda>amp.
     sbind (if amp then sc_step else sreturn ()) (\<lambda>_.
     sbind (ST TS_FunctionParameter depth) (\<lambda>ok.
     if \<not> ok then sreturn (Inr False)
     else sbind (sc_is TK_Comma) (\<lambda>comma.
          if comma then sbind sc_step (\<lambda>_. sreturn (Inl ()))
          else sbind (sc_is TK_RParen) (\<lambda>rparen.
               if rparen then sbind sc_step (\<lambda>_. sreturn (Inr True)) else sreturn (Inr False))))))) ()"

definition scan_function_type ::
    "(type_scan_stop \<Rightarrow> nat \<Rightarrow> bool scanner) \<Rightarrow> type_scan_stop \<Rightarrow> nat \<Rightarrow> bool scanner" where
  "scan_function_type ST stop depth =
     sbind (sc_is TK_Fn) (\<lambda>fn. if \<not> fn then sreturn False else
     sbind sc_step (\<lambda>_.
     sbind (sc_is TK_LParen) (\<lambda>lparen. if \<not> lparen then sreturn False else
     sbind sc_step (\<lambda>_.
     sbind (sc_is TK_RParen) (\<lambda>rparen.
     sbind (if rparen then sbind sc_step (\<lambda>_. sreturn True) else scan_function_params ST depth) (\<lambda>ok.
     if \<not> ok then sreturn False else
     sbind (sc_is TK_Colon) (\<lambda>colon. if \<not> colon then sreturn False else
     sbind sc_step (\<lambda>_.
     ST stop depth))))))))"

definition scan_dotted :: "bool scanner" where
  "scan_dotted = sloop sc_rem (\<lambda>_.
     sbind (sc_is TK_Dot) (\<lambda>dot. if \<not> dot then sreturn (Inr True) else
     sbind sc_step (\<lambda>_.
     sbind sc_is_ident (\<lambda>ident. if \<not> ident then sreturn (Inr False) else
     sbind sc_step (\<lambda>_. sreturn (Inl ())))))) ()"

definition scan_type_atom ::
    "(type_scan_stop \<Rightarrow> nat \<Rightarrow> bool scanner) \<Rightarrow> type_scan_stop \<Rightarrow> nat \<Rightarrow> bool scanner" where
  "scan_type_atom ST stop depth = sbind sc_get (\<lambda>t. case t of
       None \<Rightarrow> sreturn False
     | Some t \<Rightarrow>
        (let k = tk_kind t in
         if (k = TK_LBracket \<or> k = TK_Async \<or> k = TK_Fn) \<and> MAX_TYPE_DEPTH \<le> depth
         then sbind (smodify (\<lambda>s. s\<lparr>sc_depth_error := Some (tk_span t)\<rparr>)) (\<lambda>_. sreturn False)
         else if ident_of k \<noteq> None then sbind sc_step (\<lambda>_. scan_dotted)
         else if k = TK_Null then sbind sc_step (\<lambda>_. sreturn True)
         else if k = TK_LBracket then
           sbind sc_step (\<lambda>_.
           sbind (ST TS_Array (depth + 1)) (\<lambda>ok. if \<not> ok then sreturn False else
           sbind (sc_is TK_RBracket) (\<lambda>rb. if \<not> rb then sreturn False else
           sbind sc_step (\<lambda>_. sreturn True))))
         else if k = TK_Async then sbind sc_step (\<lambda>_. scan_function_type ST stop (depth + 1))
         else if k = TK_Fn then scan_function_type ST stop (depth + 1)
         else sreturn False))"

definition scan_type_rest ::
    "(type_scan_stop \<Rightarrow> nat \<Rightarrow> bool scanner) \<Rightarrow> type_scan_stop \<Rightarrow> nat \<Rightarrow> bool scanner" where
  "scan_type_rest ST stop depth = sloop sc_rem (\<lambda>_. sbind sc_get (\<lambda>t. case t of
       None \<Rightarrow> sreturn (Inr False)
     | Some t \<Rightarrow>
         if tk_kind t = TK_Bang then sbind sc_step (\<lambda>_. sreturn (Inl ()))
         else if tk_kind t = TK_Pipe then
           sbind sc_step (\<lambda>_.
           sbind (scan_type_atom ST stop depth) (\<lambda>ok.
           sreturn (if ok then Inl () else Inr False)))
         else sreturn (Inr (is_type_stop (tk_kind t) stop)))) ()"

definition scan_type_body ::
    "(type_scan_stop \<Rightarrow> nat \<Rightarrow> bool scanner) \<Rightarrow> type_scan_stop \<Rightarrow> nat \<Rightarrow> bool scanner" where
  "scan_type_body ST stop depth =
     sbind (scan_type_atom ST stop depth) (\<lambda>ok.
     if \<not> ok then sreturn False else scan_type_rest ST stop depth)"

fun scan_type_fuel :: "nat \<Rightarrow> type_scan_stop \<Rightarrow> nat \<Rightarrow> bool scanner" where
  "scan_type_fuel 0 stop depth = sfuel"
| "scan_type_fuel (Suc n) stop depth = scan_type_body (scan_type_fuel n) stop depth"

definition scan_type :: "type_scan_stop \<Rightarrow> nat \<Rightarrow> bool scanner" where
  "scan_type = scan_type_fuel TYPE_FUEL"

definition scan_arrow_type :: "bool \<Rightarrow> bool scanner" where
  "scan_arrow_type parameter = scan_type (if parameter then TS_ArrowParameter else TS_ArrowReturn) 0"

text \<open>\<open>if !scan_arrow_type(..) { report a depth error or give up }\<close>, then go on.\<close>

definition scan_arrow_type_or :: "bool \<Rightarrow> bool scanner" where
  "scan_arrow_type_or parameter =
     sbind (scan_arrow_type parameter) (\<lambda>ok.
     if ok then sreturn True
     else sbind (sget sc_depth_error) (\<lambda>e. case e of
            Some sp \<Rightarrow> sraise (type_depth_error sp)
          | None \<Rightarrow> sreturn False))"

definition scan_colon_type :: "bool \<Rightarrow> bool scanner" where
  "scan_colon_type parameter = sbind (sc_is TK_Colon) (\<lambda>colon.
     if colon then sbind sc_step (\<lambda>_. scan_arrow_type_or parameter) else sreturn True)"

definition scan_arrow_params :: "bool scanner" where
  "scan_arrow_params = sloop sc_rem (\<lambda>_.
     sbind (sc_is TK_Ampersand) (\<lambda>amp.
     sbind (if amp then sc_step else sreturn ()) (\<lambda>_.
     sbind sc_is_ident (\<lambda>ident. if \<not> ident then sreturn (Inr False) else
     sbind sc_step (\<lambda>_.
     sbind (scan_colon_type True) (\<lambda>ok.
     if \<not> ok then sreturn (Inr False)
     else sbind (sc_is TK_Comma) (\<lambda>comma.
          if comma then sbind sc_step (\<lambda>_. sreturn (Inl ()))
          else sbind (sc_is TK_RParen) (\<lambda>rparen.
               if rparen then sbind sc_step (\<lambda>_. sreturn (Inr True)) else sreturn (Inr False))))))))) ()"

definition scan_arrow_function :: "bool scanner" where
  "scan_arrow_function =
     sbind (sc_is TK_RParen) (\<lambda>rparen.
     sbind (if rparen then sbind sc_step (\<lambda>_. sreturn True) else scan_arrow_params) (\<lambda>ok.
     if \<not> ok then sreturn False else
     sbind (scan_colon_type False) (\<lambda>ok.
     if \<not> ok then sreturn False else sc_is TK_Arrow)))"

definition is_arrow_function_start :: "bool parser" where
  "is_arrow_function_start = sbind (check TK_LParen) (\<lambda>b.
     if \<not> b then sreturn False
     else sbind (sget (\<lambda>s. scan_arrow_function
            \<lparr>sc_tokens = ps_tokens s, sc_index = ps_current s + 1, sc_depth_error = None\<rparr>)) (\<lambda>r.
          (\<lambda>s. case r of Inl f \<Rightarrow> Inl f | Inr (x, _) \<Rightarrow> Inr (x, s))))"

subsection \<open>The lookahead always answers\<close>

definition sc_ext :: "scan_state \<Rightarrow> scan_state \<Rightarrow> bool" where
  "sc_ext s s' \<longleftrightarrow> sc_tokens s' = sc_tokens s \<and> sc_index s \<le> sc_index s'"

interpretation scan_cursor: cursor "\<lambda>s. True" sc_rem sc_ext
  by unfold_locales (auto simp: sc_ext_def sc_rem_def)

abbreviation perr :: "ku_error \<Rightarrow> bool" where
  "perr e \<equiv> ke_kind e = KE_Parse"

definition ssound :: "'a scanner \<Rightarrow> bool" where
  "ssound m \<longleftrightarrow> (\<forall>s. wp perr m (\<lambda>x. sc_ext s) s)"

lemma ssoundE: "ssound m \<Longrightarrow> (\<And>x s'. sc_ext s s' \<Longrightarrow> Q x s') \<Longrightarrow> wp perr m Q s"
  unfolding ssound_def by (rule wp_mono [of _ _ "\<lambda>x. sc_ext s"]) auto

lemma wp_sc_get: "wp E sc_get Q s =
    Q (if sc_index s < length (sc_tokens s) then Some (sc_tokens s ! sc_index s) else None) s"
  by (simp add: sc_get_def wp_get)

lemma wp_sc_is: "wp E (sc_is k) Q s = Q (sc_index s < length (sc_tokens s) \<and> tk_kind (sc_tokens s ! sc_index s) = k) s"
  by (simp add: sc_is_def wp_bind wp_sc_get wp_return)

lemma wp_sc_is_ident: "wp E sc_is_ident Q s =
    Q (sc_index s < length (sc_tokens s) \<and> ident_of (tk_kind (sc_tokens s ! sc_index s)) \<noteq> None) s"
  by (simp add: sc_is_ident_def wp_bind wp_sc_get wp_return)

lemma wp_sc_step: "wp E sc_step Q s = Q () (s\<lparr>sc_index := sc_index s + 1\<rparr>)"
  by (simp add: sc_step_def wp_modify)

lemmas scan_wp = wp_bind wp_return wp_sc_get wp_sc_is wp_sc_is_ident wp_sc_step wp_modify wp_if

lemma scan_dotted_sound: "ssound scan_dotted"
  unfolding ssound_def scan_dotted_def
proof (intro allI scan_cursor.sloop_wp [where I = "\<lambda>_. sc_ext s" for s])
qed (auto simp: scan_wp sc_ext_def sc_rem_def)

lemma scan_function_params_sound:
  assumes "ssound (ST TS_FunctionParameter depth)"
  shows "ssound (scan_function_params ST depth)"
  unfolding ssound_def scan_function_params_def
proof (intro allI scan_cursor.sloop_wp [where I = "\<lambda>_. sc_ext s" for s])
qed (auto simp: scan_wp sc_ext_def sc_rem_def intro!: ssoundE [OF assms])

lemma scan_function_type_sound:
  assumes "\<And>stop. ssound (ST stop depth)"
  shows "ssound (scan_function_type ST stop depth)"
  unfolding ssound_def scan_function_type_def
  by (auto simp: scan_wp sc_ext_def intro!: ssoundE [OF assms]
      ssoundE [OF scan_function_params_sound [of ST depth, OF assms]])

lemma scan_type_atom_sound:
  assumes "\<And>stop. depth < MAX_TYPE_DEPTH \<Longrightarrow> ssound (ST stop (depth + 1))"
  shows "ssound (scan_type_atom ST stop depth)"
proof -
  have st: "ssound (ST stop (Suc depth))" "ssound (scan_function_type ST stop (Suc depth))"
    if "depth < MAX_TYPE_DEPTH" for stop
    using assms [OF that] scan_function_type_sound [of ST "Suc depth"] by simp_all
  show ?thesis
    unfolding ssound_def scan_type_atom_def
    by (auto simp: scan_wp sc_ext_def Let_def intro!: ssoundE [OF scan_dotted_sound]
        ssoundE [OF st(1)] ssoundE [OF st(2)])
qed

lemma scan_type_rest_sound:
  assumes "ssound (scan_type_atom ST stop depth)"
  shows "ssound (scan_type_rest ST stop depth)"
  unfolding ssound_def scan_type_rest_def
proof (intro allI scan_cursor.sloop_wp [where I = "\<lambda>_. sc_ext s" for s])
qed (auto simp: scan_wp sc_ext_def sc_rem_def split: option.splits intro!: ssoundE [OF assms])

lemma scan_type_body_sound:
  assumes "\<And>stop. depth < MAX_TYPE_DEPTH \<Longrightarrow> ssound (ST stop (depth + 1))"
  shows "ssound (scan_type_body ST stop depth)"
proof -
  have atom: "ssound (scan_type_atom ST stop depth)"
    using assms by (rule scan_type_atom_sound)
  show ?thesis
    unfolding ssound_def scan_type_body_def wp_bind
    by (auto simp: scan_wp sc_ext_def intro!: ssoundE [OF atom] ssoundE [OF scan_type_rest_sound [OF atom]])
qed

lemma scan_type_fuel_sound:
  "MAX_TYPE_DEPTH - depth < n \<Longrightarrow> ssound (scan_type_fuel n stop depth)"
proof (induction n arbitrary: stop depth)
  case 0
  then show ?case by simp
next
  case (Suc n)
  show ?case unfolding scan_type_fuel.simps
    by (rule scan_type_body_sound) (rule Suc.IH, use Suc.prems in simp)
qed

lemma scan_type_sound: "ssound (scan_type stop 0)"
  unfolding scan_type_def by (rule scan_type_fuel_sound) (simp add: TYPE_FUEL_def)

lemma scan_arrow_type_or_sound: "ssound (scan_arrow_type_or b)"
  unfolding ssound_def scan_arrow_type_or_def scan_arrow_type_def wp_bind
  by (intro allI ssoundE [OF scan_type_sound])
    (auto simp: scan_wp wp_get wp_raise type_depth_error_def split: option.splits)

lemma scan_colon_type_sound: "ssound (scan_colon_type b)"
  unfolding ssound_def scan_colon_type_def
  by (auto simp: scan_wp sc_ext_def intro!: ssoundE [OF scan_arrow_type_or_sound])

lemma scan_arrow_params_sound: "ssound scan_arrow_params"
  unfolding ssound_def scan_arrow_params_def
proof (intro allI scan_cursor.sloop_wp [where I = "\<lambda>_. sc_ext s" for s])
qed (auto simp: scan_wp sc_ext_def sc_rem_def intro!: ssoundE [OF scan_colon_type_sound])

lemma scan_arrow_function_sound: "ssound scan_arrow_function"
  unfolding ssound_def scan_arrow_function_def
  by (auto simp: scan_wp sc_ext_def intro!: ssoundE [OF scan_colon_type_sound]
      ssoundE [OF scan_arrow_params_sound])

lemma is_arrow_function_start_sound: "psound h pd td sd is_arrow_function_start (\<lambda>b n. n = 0)"
proof (rule psoundI)
  fix s
  assume "ps_wf s"
  let ?t = "\<lparr>sc_tokens = ps_tokens s, sc_index = ps_current s + 1, sc_depth_error = None\<rparr>"
  have "wp perr scan_arrow_function (\<lambda>x. sc_ext ?t) ?t"
    using scan_arrow_function_sound by (simp add: ssound_def)
  then show "wp perr is_arrow_function_start (\<lambda>x s'. ps_ext s s' \<and> ps_current s' - ps_current s = 0) s"
    using \<open>ps_wf s\<close>
    by (auto simp: is_arrow_function_start_def wp_bind wp_check wp_return wp_get wp_if)
      (auto simp: wp_def ps_ext_def split: sum.splits prod.splits fault.splits)
qed

lemmas types_bind [ps_intro] = parameter_mode_sound [THEN ps_bind] type_name_sound [THEN ps_bind]
  is_arrow_function_start_sound [THEN ps_bind]
lemmas types_last [ps_intro] = parameter_mode_sound [THEN ps_mono] type_name_sound [THEN ps_mono]
  is_arrow_function_start_sound [THEN ps_mono]

end
