(* ===== verification/Parser_Pattern.thy ===== *)
theory Parser_Pattern
  imports Parser_Types
begin

text \<open>
  Match patterns (\<open>src/src/parser/match_pattern.rs\<close>): an explicit stack of open enum
  payloads instead of recursion, with a byte budget on the stack's backing store. The stack is
  a list whose head is the innermost frame; its capacity is tracked beside it, as the budget
  check reads it. \<open>Vec::try_reserve_exact\<close> on an empty vector gives exactly the requested
  capacity, or fails when the size in bytes is above \<open>isize::MAX\<close>.
\<close>

section \<open>Frames and their budget\<close>

definition SCRATCH_BYTES :: nat where
  "SCRATCH_BYTES = 2 * 1024 * 1024"

record pattern_frame =
  pf_enum_name :: ustring
  pf_variant :: ustring
  pf_fields :: "match_pattern list"

text \<open>Two \<open>String\<close>s and a \<open>Vec\<close>, three machine words each.\<close>

definition size_of_PatternFrame :: nat where
  "size_of_PatternFrame = 72"

definition frame_finish :: "pattern_frame \<Rightarrow> match_pattern" where
  "frame_finish f = MP_EnumVariant (pf_enum_name f) (pf_variant f) (pf_fields f)"

definition try_reserve_exact :: "nat \<Rightarrow> nat option" where
  "try_reserve_exact n = (if n * size_of_PatternFrame \<le> isize_MAX then Some n else None)"

definition scratch_exhausted :: "span \<Rightarrow> ku_error" where
  "scratch_exhausted sp = parse_error (lit ''match pattern construction scratch budget exhausted'') sp"

text \<open>The capacity after a successful call, from the number of frames and the capacity before.\<close>

definition reserve_frame :: "nat \<Rightarrow> nat \<Rightarrow> nat \<Rightarrow> span \<Rightarrow> ku_error + nat" where
  "reserve_frame len cap bytes sp =
     (let limit = bytes div size_of_PatternFrame in
      if usize_MAX < len + 1 then Inl (scratch_exhausted sp)
      else let required = len + 1 in
      if limit < required \<or> limit < cap then Inl (scratch_exhausted sp)
      else if required \<le> cap then Inr cap
      else let available = limit - cap in
      if available < required then Inl (scratch_exhausted sp)
      else let target = min (max (min usize_MAX (cap * 2)) required) available in
      case try_reserve_exact target of
        None \<Rightarrow> Inl (parse_error (lit ''match pattern construction scratch out of memory'') sp)
      | Some replacement \<Rightarrow>
          if available < replacement then Inl (scratch_exhausted sp) else Inr replacement)"

definition sresult :: "'e + 'a \<Rightarrow> ('s, 'e, 'a) sm" where
  "sresult r = (case r of Inl e \<Rightarrow> sraise e | Inr x \<Rightarrow> sreturn x)"

section \<open>The parser\<close>

text \<open>The atomic patterns; a name is a pattern of its own only after the lookahead.\<close>

definition pattern_literal :: "token_kind \<Rightarrow> match_pattern option" where
  "pattern_literal k = (case k of
       TK_Int v \<Rightarrow> Some (MP_Literal (Lit_Int v))
     | TK_Float v \<Rightarrow> Some (MP_Literal (Lit_Float v))
     | TK_String v \<Rightarrow> Some (MP_Literal (Lit_String v))
     | TK_True \<Rightarrow> Some (MP_Literal (Lit_Bool True))
     | TK_False \<Rightarrow> Some (MP_Literal (Lit_Bool False))
     | TK_Null \<Rightarrow> Some (MP_Literal Lit_Null)
     | _ \<Rightarrow> None)"

type_synonym frames = "pattern_frame list \<times> nat"

text \<open>The name of the enum and of the variant, after the first dot.\<close>

definition pattern_path :: "ustring \<Rightarrow> (ustring \<times> ustring) parser" where
  "pattern_path enum_name =
     sbind (consume_ident ''expected enum variant in match pattern'') (\<lambda>(variant, _).
     sbind (match_kind TK_Dot) (\<lambda>dot.
     if dot then sbind (consume_ident ''expected enum variant in match pattern'') (\<lambda>(actual, _).
            sreturn (enum_name @ [ch CHR ''.''] @ variant, actual))
     else sreturn (enum_name, variant)))"

definition push_frame :: "frames \<Rightarrow> pattern_frame \<Rightarrow> span \<Rightarrow> frames parser" where
  "push_frame = (\<lambda>(frames, cap) frame sp.
     sbind (sresult (reserve_frame (length frames) cap SCRATCH_BYTES sp)) (\<lambda>cap'.
     sreturn (frame # frames, cap')))"

text \<open>A payload list opens a frame (\<open>Inl\<close>: go on with the next pattern) unless it is empty.\<close>

definition pattern_payload :: "frames \<Rightarrow> pattern_frame \<Rightarrow> span \<Rightarrow> (frames + match_pattern) parser" where
  "pattern_payload st frame sp =
     sbind (match_kind TK_LParen) (\<lambda>lparen.
     if lparen then
       sbind (check TK_RParen) (\<lambda>empty.
       if \<not> empty then sbind (push_frame st frame sp) (\<lambda>st'. sreturn (Inl st'))
       else sbind (consume TK_RParen ''expected ')' after payload patterns'') (\<lambda>_.
            sreturn (Inr (frame_finish frame))))
     else sreturn (Inr (frame_finish frame)))"

definition pattern_name :: "frames \<Rightarrow> ustring \<Rightarrow> span \<Rightarrow> (frames + match_pattern) parser" where
  "pattern_name st enum_name sp =
     sbind (match_kind TK_Dot) (\<lambda>dot.
     if \<not> dot then sreturn (Inr (MP_Binding enum_name))
     else sbind (pattern_path enum_name) (\<lambda>(enum_name', variant).
          pattern_payload st \<lparr>pf_enum_name = enum_name', pf_variant = variant, pf_fields = []\<rparr> sp))"

definition pattern_start :: "frames \<Rightarrow> (frames + match_pattern) parser" where
  "pattern_start st =
     sbind advance (\<lambda>token. case ident_of (tk_kind token) of
       Some name \<Rightarrow> if name = lit ''_'' then sreturn (Inr MP_Wildcard)
                    else pattern_name st name (tk_span token)
     | None \<Rightarrow> case pattern_literal (tk_kind token) of
         Some p \<Rightarrow> sreturn (Inr p)
       | None \<Rightarrow> sraise (parse_error (lit ''expected match pattern'') (tk_span token)))"

text \<open>The inner loop: hand a completed pattern to its parent, closing finished parents.\<close>

fun pattern_complete :: "pattern_frame list \<Rightarrow> nat \<Rightarrow> match_pattern \<Rightarrow> (frames + match_pattern) parser" where
  "pattern_complete [] cap completed = sreturn (Inr completed)"
| "pattern_complete (parent # frames) cap completed =
     (let parent' = parent\<lparr>pf_fields := pf_fields parent @ [completed]\<rparr> in
      sbind (match_kind TK_Comma) (\<lambda>comma.
      if comma then sreturn (Inl (parent' # frames, cap))
      else sbind (consume TK_RParen ''expected ')' after payload patterns'') (\<lambda>_.
           pattern_complete frames cap (frame_finish parent'))))"

definition pattern_step :: "frames \<Rightarrow> (frames + match_pattern) parser" where
  "pattern_step st = sbind (pattern_start st) (\<lambda>r. case r of
       Inl st' \<Rightarrow> sreturn (Inl st')
     | Inr completed \<Rightarrow> pattern_complete (fst st) (snd st) completed)"

definition match_pattern :: "match_pattern parser" where
  "match_pattern = sloop ps_rem pattern_step ([], 0)"

subsection \<open>Soundness\<close>

lemma reserve_frame_kind: "reserve_frame len cap bytes sp = Inl e \<Longrightarrow> ke_kind e = KE_Parse"
  by (auto simp: reserve_frame_def scratch_exhausted_def Let_def split: if_splits option.splits)

lemma ps_case_sum [ps_intro]:
  assumes "\<And>y. x = Inl y \<Longrightarrow> psound h pd td sd (a y) R" and "\<And>y. x = Inr y \<Longrightarrow> psound h pd td sd (b y) R"
  shows "psound h pd td sd (case x of Inl y \<Rightarrow> a y | Inr y \<Rightarrow> b y) R"
  using assms by (cases x) auto

lemma push_frame_sound: "psound h pd td sd (push_frame st f sp) (\<lambda>st' n. n = 0)"
proof (cases st)
  case (Pair frames cap)
  then show ?thesis
    by (auto simp: psound_def push_frame_def sresult_def wp_bind wp_raise wp_return ps_ext_def
        split: sum.splits dest: reserve_frame_kind)
qed

lemma pattern_path_sound: "psound h pd td sd (pattern_path nm) (\<lambda>x n. True)"
  unfolding pattern_path_def by (intro ps_intro) auto

lemma pattern_payload_sound: "psound h pd td sd (pattern_payload st f sp) (\<lambda>x n. True)"
  unfolding pattern_payload_def
  by (intro ps_intro push_frame_sound [THEN ps_bind]) auto

lemma pattern_name_sound: "psound h pd td sd (pattern_name st nm sp) (\<lambda>x n. True)"
  unfolding pattern_name_def
  by (intro ps_intro pattern_path_sound [THEN ps_bind] pattern_payload_sound) auto

lemma pattern_literal_Eof [simp]: "pattern_literal TK_Eof = None"
  by (simp add: pattern_literal_def)

lemma pattern_start_sound: "psound h pd td sd (pattern_start st) (\<lambda>x n. 0 < n)"
  unfolding pattern_start_def
  by (intro ps_intro pattern_name_sound [THEN ps_mono]) auto

lemma pattern_complete_sound: "psound h pd td sd (pattern_complete fs cap p) (\<lambda>x n. True)"
proof (induction fs arbitrary: h p)
  case Nil
  show ?case by (auto intro!: ps_intro)
next
  case (Cons f fs)
  show ?case unfolding pattern_complete.simps
    by (intro ps_intro Cons.IH [THEN ps_mono]) auto
qed

lemma match_pattern_sound: "psound h pd td sd match_pattern (\<lambda>p n. 0 < n)"
  unfolding match_pattern_def pattern_step_def
  by (intro ps_loop [where I = "\<lambda>_ _. True"] ps_intro pattern_start_sound [THEN ps_bind]
      pattern_complete_sound [THEN ps_mono]) (auto split: sum.splits)

lemmas pattern_intro [ps_intro] = match_pattern_sound [THEN ps_bind] match_pattern_sound [THEN ps_mono]

end
