(* ===== verification/Parser_Expr.thy ===== *)
theory Parser_Expr
  imports Parser_Pattern
begin

text \<open>
  Expressions (\<open>src/src/parser/mod.rs\<close>), from the six left-associative binary levels down to
  primaries and function values. Every function takes the parsers it calls recursively as
  arguments (\<open>E\<close> for \<open>expression\<close>, \<open>S\<close> for \<open>statement\<close>, \<open>U\<close> for \<open>unary\<close>); the knot is
  tied in \<open>Parser_Program\<close>. The locales state what these callees promise, and each
  function is verified once under those promises.
\<close>

section \<open>Chains\<close>

definition expression_tree_error :: "span \<Rightarrow> ku_error" where
  "expression_tree_error sp =
     parse_error (lit ''maximum expression tree depth exceeded; expression is too deeply nested'') sp"

definition check_expression_chain :: "nat \<Rightarrow> nat \<Rightarrow> span \<Rightarrow> nat parser" where
  "check_expression_chain count limit sp =
     (if limit \<le> count then sraise (expression_tree_error sp) else sreturn (count + 1))"

text \<open>One level of the binary grammar: operands of the next level, joined to the left.\<close>

definition binary_level ::
    "token_kind list \<Rightarrow> (token_kind \<Rightarrow> binary_op) \<Rightarrow> expr parser \<Rightarrow> expr parser" where
  "binary_level kinds op_of operand =
     sbind operand (\<lambda>first.
     sloop ps_rem (\<lambda>(e, chain).
       sbind (match_any kinds) (\<lambda>more.
       if more then
         sbind previous (\<lambda>t.
         sbind (check_expression_chain chain MAX_PARSE_DEPTH (tk_span t)) (\<lambda>chain'.
         sbind operand (\<lambda>right.
         sreturn (Inl (Expr_new (EK_Binary e (op_of (tk_kind t)) right)
                         (Span_merge (ex_span e) (ex_span right)), chain')))))
       else sreturn (Inr e))) (first, 0))"

definition factor :: "expr parser \<Rightarrow> expr parser" where
  "factor U = binary_level [TK_Slash, TK_Star, TK_Percent]
     (\<lambda>k. if k = TK_Slash then BO_Divide else if k = TK_Percent then BO_Remainder else BO_Multiply) U"

definition term_expr :: "expr parser \<Rightarrow> expr parser" where
  "term_expr U = binary_level [TK_Minus, TK_Plus]
     (\<lambda>k. if k = TK_Minus then BO_Subtract else BO_Add) (factor U)"

definition comparison :: "expr parser \<Rightarrow> expr parser" where
  "comparison U = binary_level [TK_Less, TK_LessEqual, TK_Greater, TK_GreaterEqual]
     (\<lambda>k. if k = TK_Less then BO_Less else if k = TK_LessEqual then BO_LessEqual
          else if k = TK_Greater then BO_Greater else BO_GreaterEqual) (term_expr U)"

definition equality :: "expr parser \<Rightarrow> expr parser" where
  "equality U = binary_level [TK_BangEqual, TK_EqualEqual]
     (\<lambda>k. if k = TK_BangEqual then BO_NotEqual else BO_Equal) (comparison U)"

definition and_expr :: "expr parser \<Rightarrow> expr parser" where
  "and_expr U = binary_level [TK_AndAnd] (\<lambda>_. BO_And) (equality U)"

definition or_expr :: "expr parser \<Rightarrow> expr parser" where
  "or_expr U = binary_level [TK_OrOr] (\<lambda>_. BO_Or) (and_expr U)"

definition expression_body :: "expr parser \<Rightarrow> expr parser" where
  "expression_body U =
     sbind enter_parse_depth (\<lambda>_.
     sbind (sbind (or_expr U) (\<lambda>e.
              if expression_tree_fits e then sreturn e else sraise (expression_tree_error (ex_span e))))
       (\<lambda>e. sbind leave_parse_depth (\<lambda>_. sreturn e)))"

section \<open>Helpers on expressions\<close>

fun attach_await :: "expr \<Rightarrow> position \<Rightarrow> expr" where
  "attach_await (Expr_new (EK_TryUnwrap e) try_span) await_start =
     Expr_new (EK_TryUnwrap (attach_await e await_start)) try_span"
| "attach_await value await_start =
     Expr_new (EK_Await value) (Span_new await_start (sp_end (ex_span value)))"

fun dotted_expr_name :: "expr \<Rightarrow> ustring option" where
  "dotted_expr_name (Expr_new (EK_Variable name) sp) = Some name"
| "dotted_expr_name (Expr_new (EK_Field target name) sp) =
     (case dotted_expr_name target of None \<Rightarrow> None | Some t \<Rightarrow> Some (t @ [ch CHR ''.''] @ name))"
| "dotted_expr_name _ = None"

definition default_expr :: "type_name \<Rightarrow> span \<Rightarrow> expr" where
  "default_expr ty sp = Expr_new (case ty of
       TN_Int \<Rightarrow> EK_Literal (Lit_Int 0)
     | TN_Float \<Rightarrow> EK_Literal (Lit_Float (F64 0))
     | TN_Bool \<Rightarrow> EK_Literal (Lit_Bool False)
     | TN_String \<Rightarrow> EK_Literal (Lit_String [])
     | TN_Array _ \<Rightarrow> EK_Array []
     | _ \<Rightarrow> EK_Literal Lit_Null) sp"

definition assign_target_from_expr :: "expr \<Rightarrow> ku_error + assign_target" where
  "assign_target_from_expr e = (case ex_kind e of
       EK_Variable name \<Rightarrow> Inr (AT_Variable name)
     | EK_Index target index \<Rightarrow> Inr (AT_Index target index)
     | EK_Field target name \<Rightarrow> Inr (AT_Field target name)
     | _ \<Rightarrow> Inl (parse_error (lit ''invalid assignment target'') (ex_span e)))"

definition is_field :: "expr \<Rightarrow> bool" where
  "is_field e = (case ex_kind e of EK_Field _ _ \<Rightarrow> True | _ \<Rightarrow> False)"

definition is_index :: "expr \<Rightarrow> bool" where
  "is_index e = (case ex_kind e of EK_Index _ _ \<Rightarrow> True | _ \<Rightarrow> False)"

section \<open>Calls, fields and other suffixes\<close>

definition is_struct_literal_after_lbrace :: "bool parser" where
  "is_struct_literal_after_lbrace =
     sbind (peek_kind_at 1) (\<lambda>k1.
     sbind (peek_kind_at 2) (\<lambda>k2.
     sreturn (case k1 of
         Some k \<Rightarrow> ident_of k \<noteq> None \<and> k2 = Some TK_Colon
       | None \<Rightarrow> False)))"

definition reject_call_site_ampersand :: "unit parser" where
  "reject_call_site_ampersand = sbind (check TK_Ampersand) (\<lambda>b.
     if b then sbind peek (\<lambda>t. sraise (parse_error (lit '''&' is not written at the call site'') (tk_span t)))
     else sreturn ())"

definition call_args :: "expr parser \<Rightarrow> expr list parser" where
  "call_args E = sbind (check TK_RParen) (\<lambda>empty.
     if empty then sreturn []
     else sloop ps_rem (\<lambda>args.
       sbind reject_call_site_ampersand (\<lambda>_.
       sbind E (\<lambda>a.
       sbind (match_kind TK_Comma) (\<lambda>comma.
       sreturn (if comma then Inl (args @ [a]) else Inr (args @ [a])))))) [])"

definition struct_fields :: "expr parser \<Rightarrow> (ustring \<times> expr) list parser" where
  "struct_fields E = sbind (check TK_RBrace) (\<lambda>empty.
     if empty then sreturn []
     else sloop ps_rem (\<lambda>fields.
       sbind (consume_ident ''expected struct literal field name'') (\<lambda>(field_name, _).
       sbind (consume TK_Colon ''expected ':' after struct literal field'') (\<lambda>_.
       sbind E (\<lambda>v.
       sbind (match_kind TK_Comma) (\<lambda>comma.
       let fields' = fields @ [(field_name, v)] in
       sreturn (if comma then Inl fields' else Inr fields')))))) [])"

definition finish_struct_literal :: "expr parser \<Rightarrow> ustring \<Rightarrow> span \<Rightarrow> expr parser" where
  "finish_struct_literal E name start_span =
     sbind (struct_fields E) (\<lambda>fields.
     sbind (consume TK_RBrace ''expected '}' after struct literal'') (\<lambda>t.
     sreturn (Expr_new (EK_StructLiteral name fields)
       (Span_new (sp_start start_span) (sp_end (tk_span t))))))"

definition optional_field :: "expr \<Rightarrow> ustring \<Rightarrow> span \<Rightarrow> expr" where
  "optional_field e name sp =
     (if is_index e then Expr_new (EK_Field (Expr_new (EK_TryUnwrap e) sp) name) sp
      else Expr_new (EK_OptionalField e name) sp)"

definition postfix_struct :: "expr parser \<Rightarrow> expr \<Rightarrow> expr option parser" where
  "postfix_struct E e =
     sbind (check TK_LBrace) (\<lambda>lbrace.
     sbind peek (\<lambda>t.
     sbind is_struct_literal_after_lbrace (\<lambda>struct.
     if lbrace \<and> same_line (ex_span e) (tk_span t) \<and> struct \<and> is_field e then
       case dotted_expr_name e of
         None \<Rightarrow> sraise (parse_error (lit ''expected struct name before struct literal'') (ex_span e))
       | Some name \<Rightarrow> sbind advance (\<lambda>_.
           sbind (finish_struct_literal E name (ex_span e)) (\<lambda>e'. sreturn (Some e')))
     else sreturn None)))"

text \<open>One round of the suffix loop: the longer expression, or \<open>None\<close> when no suffix follows.\<close>

definition postfix_step :: "expr parser \<Rightarrow> expr \<Rightarrow> expr option parser" where
  "postfix_step E e =
     sbind (match_kind TK_LParen) (\<lambda>lparen. if lparen then
       sbind (call_args E) (\<lambda>args.
       sbind (consume TK_RParen ''expected ')' after arguments'') (\<lambda>paren.
       sreturn (Some (Expr_new (EK_Call e args) (Span_merge (ex_span e) (tk_span paren))))))
     else sbind (match_kind TK_LBracket) (\<lambda>lbracket. if lbracket then
       sbind E (\<lambda>index.
       sbind (consume TK_RBracket ''expected ']' after index'') (\<lambda>bracket.
       sreturn (Some (Expr_new (EK_Index e index) (Span_merge (ex_span e) (tk_span bracket))))))
     else sbind (match_kind TK_Dot) (\<lambda>dot. if dot then
       sbind (consume_ident (''expected field name after '.'' @ [CHR 0x27])) (\<lambda>(name, name_span).
       sreturn (Some (Expr_new (EK_Field e name) (Span_merge (ex_span e) name_span))))
     else sbind (match_kind TK_QuestionDot) (\<lambda>qdot. if qdot then
       sbind (consume_ident (''expected field name after '?.'' @ [CHR 0x27])) (\<lambda>(name, name_span).
       sreturn (Some (optional_field e name (Span_merge (ex_span e) name_span))))
     else sbind (match_kind TK_Question) (\<lambda>question. if question then
       sbind previous (\<lambda>t.
       sreturn (Some (Expr_new (EK_TryUnwrap e) (Span_merge (ex_span e) (tk_span t)))))
     else postfix_struct E e)))))"

definition finish_call :: "expr parser \<Rightarrow> expr \<Rightarrow> expr parser" where
  "finish_call E e0 = sloop ps_rem (\<lambda>(e, chain).
     sbind (postfix_step E e) (\<lambda>r. case r of
       None \<Rightarrow> sreturn (Inr e)
     | Some e' \<Rightarrow> sbind (check_expression_chain chain (MAX_PARSE_DEPTH * 2) (ex_span e')) (\<lambda>chain'.
         sreturn (Inl (e', chain'))))) (e0, 0)"

section \<open>Function values\<close>

definition stmt_span :: "stmt \<Rightarrow> span" where
  "stmt_span st = (case st of
       St_VarDecl _ _ _ _ sp \<Rightarrow> sp | St_Assign _ _ sp \<Rightarrow> sp | St_AssignTarget _ _ sp \<Rightarrow> sp
     | St_CompoundAssign _ _ _ sp \<Rightarrow> sp | St_DestructureAssign _ _ sp \<Rightarrow> sp
     | St_ObjectDestructureAssign _ _ _ sp \<Rightarrow> sp | St_If _ _ _ sp \<Rightarrow> sp | St_While _ _ sp \<Rightarrow> sp
     | St_For _ _ _ sp \<Rightarrow> sp | St_Break sp \<Rightarrow> sp | St_Continue sp \<Rightarrow> sp
     | St_Function f \<Rightarrow> fn_span f | St_Try _ _ _ _ sp \<Rightarrow> sp | St_Fail _ sp \<Rightarrow> sp
     | St_Panic _ sp \<Rightarrow> sp | St_Return _ sp \<Rightarrow> sp | St_Print _ sp \<Rightarrow> sp | St_Expr _ sp \<Rightarrow> sp)"

definition block_statements :: "stmt parser \<Rightarrow> stmt list parser" where
  "block_statements S = sloop ps_rem (\<lambda>statements.
     sbind (check TK_RBrace) (\<lambda>rbrace.
     sbind (check TK_Eof) (\<lambda>eof.
     if rbrace \<or> eof then sreturn (Inr statements)
     else sbind S (\<lambda>st. sreturn (Inl (statements @ [st])))))) []"

definition block :: "stmt parser \<Rightarrow> (stmt list \<times> span) parser" where
  "block S =
     sbind (consume TK_LBrace (''expected '{'' @ [CHR 0x27])) (\<lambda>open_tok.
     sbind (block_statements S) (\<lambda>statements.
     sbind (consume TK_RBrace ''expected '}' after block'') (\<lambda>close_tok.
     sreturn (statements, Span_new (sp_start (tk_span open_tok)) (sp_end (tk_span close_tok))))))"

definition arrow_body :: "expr parser \<Rightarrow> stmt parser \<Rightarrow> (stmt list \<times> span) parser" where
  "arrow_body E S = sbind (check TK_LBrace) (\<lambda>b.
     if b then block S
     else sbind E (\<lambda>v. sreturn ([St_Return (Some v) (ex_span v)], ex_span v)))"

definition optional_type :: "type_name option parser" where
  "optional_type = sbind (match_kind TK_Colon) (\<lambda>colon.
     if colon then sbind type_name (\<lambda>ty. sreturn (Some ty)) else sreturn None)"

definition function_value_params :: "string \<Rightarrow> function_param list parser" where
  "function_value_params context = sbind (check TK_RParen) (\<lambda>empty.
     if empty then sreturn []
     else sloop ps_rem (\<lambda>params.
       sbind peek (\<lambda>t.
       sbind parameter_mode (\<lambda>mode.
       sbind (consume_ident (''expected '' @ context @ '' parameter'')) (\<lambda>(name, sp).
       sbind optional_type (\<lambda>ty.
       sbind (match_kind TK_Comma) (\<lambda>comma.
       let params' = params @ [\<lparr>fp_mode = mode, fp_name = name, fp_ty = ty,
             fp_span = Span_new (sp_start (tk_span t)) (sp_end sp)\<rparr>] in
       sreturn (if comma then Inl params' else Inr params'))))))) [])"

definition arrow_function :: "expr parser \<Rightarrow> stmt parser \<Rightarrow> expr parser" where
  "arrow_function E S =
     sbind (consume TK_LParen (''expected '('' @ [CHR 0x27])) (\<lambda>owner.
     sbind (function_value_params ''arrow function'') (\<lambda>params.
     sbind (consume TK_RParen ''expected ')' after arrow function parameters'') (\<lambda>_.
     sbind optional_type (\<lambda>return_type.
     sbind (consume TK_Arrow ''expected '=>' after arrow function parameters'') (\<lambda>_.
     sbind (with_statement_depth (tk_span owner) (arrow_body E S)) (\<lambda>(body, body_span).
     sreturn (Expr_new (EK_Function params return_type body)
       (Span_new (sp_start (tk_span owner)) (sp_end body_span)))))))))"

definition anonymous_function :: "stmt parser \<Rightarrow> expr parser" where
  "anonymous_function S =
     sbind (consume TK_Fn (''expected 'fn'' @ [CHR 0x27])) (\<lambda>owner.
     sbind (consume TK_LParen (''expected '(' after 'fn'' @ [CHR 0x27])) (\<lambda>_.
     sbind (function_value_params ''anonymous function'') (\<lambda>params.
     sbind (consume TK_RParen ''expected ')' after anonymous function parameters'') (\<lambda>_.
     sbind optional_type (\<lambda>return_type.
     sbind (with_statement_depth (tk_span owner) (block S)) (\<lambda>(body, body_span).
     sreturn (Expr_new (EK_Function params return_type body)
       (Span_new (sp_start (tk_span owner)) (sp_end body_span)))))))))"

section \<open>Primary expressions\<close>

definition array_values :: "expr parser \<Rightarrow> expr list parser" where
  "array_values E = sbind (check TK_RBracket) (\<lambda>empty.
     if empty then sreturn []
     else sloop ps_rem (\<lambda>vs.
       sbind E (\<lambda>v.
       sbind (match_kind TK_Comma) (\<lambda>comma.
       sreturn (if comma then Inl (vs @ [v]) else Inr (vs @ [v]))))) [])"

definition array_literal :: "expr parser \<Rightarrow> span \<Rightarrow> expr parser" where
  "array_literal E start_span =
     sbind (array_values E) (\<lambda>vs.
     sbind (consume TK_RBracket ''expected ']' after array literal'') (\<lambda>t.
     sreturn (Expr_new (EK_Array vs) (Span_new (sp_start start_span) (sp_end (tk_span t))))))"

text \<open>A field name written as an identifier or as a string.\<close>

definition name_of :: "token_kind \<Rightarrow> ustring option" where
  "name_of k = (case ident_of k of Some x \<Rightarrow> Some x | None \<Rightarrow> string_of k)"

definition object_fields :: "expr parser \<Rightarrow> (ustring \<times> expr) list parser" where
  "object_fields E = sbind (check TK_RBrace) (\<lambda>empty.
     if empty then sreturn []
     else sloop ps_rem (\<lambda>fields.
       sbind advance (\<lambda>t. case name_of (tk_kind t) of
         None \<Rightarrow> sraise (parse_error (lit ''expected object field name'') (tk_span t))
       | Some field_name \<Rightarrow>
           sbind (consume TK_Colon ''expected ':' after object field'') (\<lambda>_.
           sbind E (\<lambda>v.
           sbind (match_kind TK_Comma) (\<lambda>comma.
           let fields' = fields @ [(field_name, v)] in
           sreturn (if comma then Inl fields' else Inr fields')))))) [])"

definition object_literal :: "expr parser \<Rightarrow> span \<Rightarrow> expr parser" where
  "object_literal E start_span =
     sbind (object_fields E) (\<lambda>fields.
     sbind (consume TK_RBrace ''expected '}' after object literal'') (\<lambda>t.
     sreturn (Expr_new (EK_ObjectLiteral fields) (Span_new (sp_start start_span) (sp_end (tk_span t))))))"

definition match_guard :: "expr parser \<Rightarrow> expr option parser" where
  "match_guard E = sbind (match_kind TK_If) (\<lambda>b.
     if b then sbind E (\<lambda>g. sreturn (Some g)) else sreturn None)"

definition match_arms :: "expr parser \<Rightarrow> match_arm list parser" where
  "match_arms E = sloop ps_rem (\<lambda>arms.
     sbind (check TK_RBrace) (\<lambda>rbrace.
     sbind (check TK_Eof) (\<lambda>eof.
     if rbrace \<or> eof then sreturn (Inr arms)
     else
       sbind peek (\<lambda>arm_start.
       sbind match_pattern (\<lambda>pattern.
       sbind (match_guard E) (\<lambda>guard.
       sbind (consume TK_Arrow ''expected '=>' after match pattern'') (\<lambda>_.
       sbind E (\<lambda>v.
       sbind (match_kind TK_Comma) (\<lambda>_.
       sbind optional_semicolon (\<lambda>_.
       sreturn (Inl (arms @ [MatchArm pattern guard v
         (Span_new (sp_start (tk_span arm_start)) (sp_end (ex_span v)))])))))))))))) []"

definition match_expression :: "expr parser \<Rightarrow> span \<Rightarrow> expr parser" where
  "match_expression E start_span =
     sbind E (\<lambda>v.
     sbind (consume TK_LBrace ''expected '{' after match value'') (\<lambda>_.
     sbind (match_arms E) (\<lambda>arms.
     sbind (consume TK_RBrace ''expected '}' after match arms'') (\<lambda>t.
     sreturn (Expr_new (EK_Match v arms) (Span_new (sp_start start_span) (sp_end (tk_span t))))))))"

definition literal_of :: "token_kind \<Rightarrow> literal option" where
  "literal_of k = (case k of
       TK_Int v \<Rightarrow> Some (Lit_Int v)
     | TK_Float v \<Rightarrow> Some (Lit_Float v)
     | TK_String v \<Rightarrow> Some (Lit_String v)
     | TK_TemplateString v \<Rightarrow> Some (Lit_TemplateString v)
     | TK_True \<Rightarrow> Some (Lit_Bool True)
     | TK_False \<Rightarrow> Some (Lit_Bool False)
     | TK_Null \<Rightarrow> Some Lit_Null
     | _ \<Rightarrow> None)"

text \<open>A one-parameter arrow function whose name and optional type have been read.\<close>

definition name_arrow ::
    "expr parser \<Rightarrow> stmt parser \<Rightarrow> ustring \<Rightarrow> type_name option \<Rightarrow> span \<Rightarrow> expr parser" where
  "name_arrow E S name ty sp =
     sbind (with_statement_depth sp (arrow_body E S)) (\<lambda>(body, body_span).
     sreturn (Expr_new (EK_Function
         [\<lparr>fp_mode = PM_Owned, fp_name = name, fp_ty = ty, fp_span = sp\<rparr>] None body)
       (Span_new (sp_start sp) (sp_end body_span))))"

definition primary_name :: "expr parser \<Rightarrow> stmt parser \<Rightarrow> ustring \<Rightarrow> span \<Rightarrow> expr parser" where
  "primary_name E S name sp =
     sbind (match_kind TK_Colon) (\<lambda>colon. if colon then
       sbind type_name (\<lambda>ty.
       sbind (consume TK_Arrow ''expected '=>' after typed arrow function parameter'') (\<lambda>_.
       name_arrow E S name (Some ty) sp))
     else sbind (match_kind TK_Arrow) (\<lambda>arrow. if arrow then name_arrow E S name None sp
     else sbind (check TK_LBrace) (\<lambda>lbrace.
       sbind peek (\<lambda>t.
       sbind is_struct_literal_after_lbrace (\<lambda>struct.
       if lbrace \<and> same_line sp (tk_span t) \<and> struct
       then sbind advance (\<lambda>_. finish_struct_literal E name sp)
       else sreturn (Expr_new (EK_Variable name) sp))))))"

definition primary_atom :: "expr parser \<Rightarrow> stmt parser \<Rightarrow> expr parser" where
  "primary_atom E S =
     sbind advance (\<lambda>t.
     let sp = tk_span t; k = tk_kind t in
     case literal_of k of
       Some l \<Rightarrow> sreturn (Expr_new (EK_Literal l) sp)
     | None \<Rightarrow> (case ident_of k of
         Some name \<Rightarrow> primary_name E S name sp
       | None \<Rightarrow>
           if k = TK_LBracket then array_literal E sp
           else if k = TK_LBrace then object_literal E sp
           else if k = TK_LParen then
             sbind E (\<lambda>e.
             sbind (consume TK_RParen ''expected ')' after expression'') (\<lambda>_. sreturn e))
           else sraise (parse_error (lit ''expected expression'') sp)))"

definition ampersand_error :: "expr parser" where
  "ampersand_error =
     sbind (peek_kind_at 1) (\<lambda>k1.
     sbind (peek_kind_at 2) (\<lambda>k2.
     sbind peek (\<lambda>t.
     let is_typed_arrow = (case k1 of Some k \<Rightarrow> ident_of k \<noteq> None | None \<Rightarrow> False)
           \<and> (k2 = Some TK_Colon \<or> k2 = Some TK_Arrow) in
     sraise (parse_error (lit (if is_typed_arrow
         then ''single '&' is only allowed before a function parameter; use parentheses for a borrowed arrow function''
         else ''single '&' is only allowed before a function parameter; Ku does not provide an address-of expression''))
       (tk_span t)))))"

definition primary :: "expr parser \<Rightarrow> stmt parser \<Rightarrow> expr parser" where
  "primary E S =
     sbind (check TK_Eof) (\<lambda>eof. if eof then
       sbind peek (\<lambda>t. sraise (parse_error (lit ''expected expression'') (tk_span t)))
     else sbind is_arrow_function_start (\<lambda>arrow. if arrow then arrow_function E S
     else sbind (check TK_Ampersand) (\<lambda>amp. if amp then ampersand_error
     else sbind (check TK_Fn) (\<lambda>fn. if fn then anonymous_function S
     else sbind (match_kind TK_Match) (\<lambda>m. if m then
       sbind previous (\<lambda>t. match_expression E (tk_span t))
     else sbind (match_kind TK_Switch) (\<lambda>sw. if sw then
       sbind previous (\<lambda>t. sraise (parse_error (lit ''switch is not supported; use match'') (tk_span t)))
     else primary_atom E S))))))"

definition call_expr :: "expr parser \<Rightarrow> stmt parser \<Rightarrow> expr parser" where
  "call_expr E S = sbind (primary E S) (finish_call E)"

text \<open>An operand below a prefix operator, one level of parse depth further down.\<close>

definition deeper :: "'a parser \<Rightarrow> 'a parser" where
  "deeper m = sbind enter_parse_depth (\<lambda>_. sbind m (\<lambda>x. sbind leave_parse_depth (\<lambda>_. sreturn x)))"

definition unary_body :: "expr parser \<Rightarrow> expr parser \<Rightarrow> stmt parser \<Rightarrow> expr parser" where
  "unary_body U E S =
     sbind (match_kind TK_Await) (\<lambda>await. if await then
       sbind previous (\<lambda>t.
       sbind (deeper U) (\<lambda>v. sreturn (attach_await v (sp_start (tk_span t)))))
     else sbind (match_any [TK_Bang, TK_Minus]) (\<lambda>prefix. if prefix then
       sbind previous (\<lambda>t.
       sbind (deeper U) (\<lambda>e.
       sreturn (Expr_new (EK_Unary (if tk_kind t = TK_Bang then UO_Not else UO_Negate) e)
         (Span_merge (tk_span t) (ex_span e)))))
     else call_expr E S))"

section \<open>Soundness of the helpers\<close>

abbreviation expr_wf :: "nat \<Rightarrow> expr \<Rightarrow> bool" where
  "expr_wf d e \<equiv> expr_ok type_ok d e"

abbreviation stmt_wf :: "nat \<Rightarrow> stmt \<Rightarrow> bool" where
  "stmt_wf d s \<equiv> stmt_ok type_ok d s"

lemma expr_ok_kind: "expr_ok P d e = expr_kind_ok P d (ex_kind e)"
  by (cases e) simp

lemma attach_await_ok [simp]: "expr_ok P d (attach_await e p) = expr_ok P d e"
  by (induction e p rule: attach_await.induct) auto

lemma default_expr_ok [simp]: "expr_ok P d (default_expr ty sp)"
  by (cases ty) (auto simp: default_expr_def)

lemma optional_field_ok [simp]: "expr_ok P d (optional_field e name sp) = expr_ok P d e"
  by (auto simp: optional_field_def)

lemma assign_target_ok:
  "assign_target_from_expr e = Inr t \<Longrightarrow> expr_ok P d e \<Longrightarrow> target_ok P d t"
  by (auto simp: assign_target_from_expr_def expr_ok_kind split: expr_kind.splits)

lemma assign_target_kind:
  "assign_target_from_expr e = Inl x \<Longrightarrow> ke_kind x = KE_Parse"
  by (auto simp: assign_target_from_expr_def split: expr_kind.splits)

lemma literal_of_Eof [simp]: "literal_of TK_Eof = None"
  by (simp add: literal_of_def)

lemma ident_of_Eof [simp]: "ident_of TK_Eof = None"
  by (simp add: ident_of_def)

lemma name_of_Eof [simp]: "name_of TK_Eof = None"
  by (simp add: name_of_def ident_of_def string_of_def)

lemma check_expression_chain_sound:
  "psound h pd td sd (check_expression_chain c l sp) (\<lambda>c' n. n = 0)"
  unfolding check_expression_chain_def expression_tree_error_def by (intro ps_intro) auto

lemma is_struct_literal_sound: "psound h pd td sd is_struct_literal_after_lbrace (\<lambda>b n. n = 0)"
  unfolding is_struct_literal_after_lbrace_def by (intro ps_intro) auto

lemma reject_ampersand_sound: "psound h pd td sd reject_call_site_ampersand (\<lambda>b n. n = 0)"
  unfolding reject_call_site_ampersand_def by (intro ps_intro) auto

lemma optional_type_sound: "td \<le> MAX_TYPE_DEPTH \<Longrightarrow> psound h pd td sd optional_type (\<lambda>t n. opt_all type_ok t)"
  unfolding optional_type_def by (intro ps_intro) auto

lemma ampersand_error_sound: "psound h pd td sd ampersand_error R"
  unfolding ampersand_error_def by (intro ps_intro)

lemma function_value_params_sound:
  "td \<le> MAX_TYPE_DEPTH \<Longrightarrow>
   psound h pd td sd (function_value_params c) (\<lambda>ps n. \<forall>p \<in> set ps. opt_all type_ok (fp_ty p))"
  unfolding function_value_params_def
  by (intro ps_intro optional_type_sound [THEN ps_bind]
      ps_loop [where I = "\<lambda>ps n. \<forall>p \<in> set ps. opt_all type_ok (fp_ty p)"]) (auto split: sum.splits)

lemmas helper_intro = check_expression_chain_sound [THEN ps_bind] is_struct_literal_sound [THEN ps_bind]
  reject_ampersand_sound [THEN ps_bind] optional_type_sound [THEN ps_bind]
  function_value_params_sound [THEN ps_bind] ampersand_error_sound

lemma binary_level_sound:
  assumes operand: "\<And>h. psound h pd td sd m (\<lambda>e n. 0 < n \<and> expr_wf d e)" and eof: "TK_Eof \<notin> set ks"
  shows "psound h pd td sd (binary_level ks f m) (\<lambda>e n. 0 < n \<and> expr_wf d e)"
  unfolding binary_level_def
  by (intro ps_intro helper_intro operand [THEN ps_bind]
      ps_loop [where I = "\<lambda>(e, c) n. expr_wf d e"]) (auto simp: eof)

lemma or_expr_sound:
  assumes "\<And>h. psound h pd td sd U (\<lambda>e n. 0 < n \<and> expr_wf d e)"
  shows "psound h pd td sd (or_expr U) (\<lambda>e n. 0 < n \<and> expr_wf d e)"
  unfolding or_expr_def and_expr_def equality_def comparison_def term_expr_def factor_def
  by (intro binary_level_sound assms) auto

lemma deeper_sound:
  assumes "pd < MAX_PARSE_DEPTH \<Longrightarrow> psound h (pd + 1) td sd m R"
  shows "psound h pd td sd (deeper m) R"
  unfolding deeper_def using assms by (rule ps_parse_depth)

lemma expression_body_sound:
  assumes "\<And>h. pd < MAX_PARSE_DEPTH \<Longrightarrow> psound h (pd + 1) td sd U (\<lambda>e n. 0 < n \<and> expr_wf d e)"
  shows "psound h pd td sd (expression_body U)
    (\<lambda>e n. 0 < n \<and> expr_wf d e \<and> expression_tree_fits e)"
  unfolding expression_body_def
  unfolding expression_tree_error_def
  by (intro ps_parse_depth or_expr_sound [OF assms, THEN ps_bind] ps_intro) auto

section \<open>What the callees promise\<close>

text \<open>
  \<open>expr_parser\<close>: the expression parser at given depths. \<open>body_parsers\<close>: expression and
  statement parser at the depths of a body. \<open>value_parsers\<close>: the parsers a primary expression
  needs, the statement parser only one statement level further down.
\<close>

locale expr_parser =
  fixes E :: "expr parser" and pd :: nat and sd :: nat
  assumes E_sound: "\<And>h. psound h pd 0 sd E (\<lambda>e n. 0 < n \<and> expr_wf sd e \<and> expression_tree_fits e)"
begin

lemmas E_intro = E_sound [THEN ps_bind] E_sound [THEN ps_mono]

lemma call_args_sound: "psound h pd 0 sd (call_args E) (\<lambda>as n. \<forall>a \<in> set as. expr_wf sd a)"
  unfolding call_args_def
  by (intro ps_intro E_intro helper_intro ps_loop [where I = "\<lambda>as n. \<forall>a \<in> set as. expr_wf sd a"])
    (auto split: sum.splits)

lemma array_values_sound: "psound h pd 0 sd (array_values E) (\<lambda>vs n. \<forall>v \<in> set vs. expr_wf sd v)"
  unfolding array_values_def
  by (intro ps_intro E_intro ps_loop [where I = "\<lambda>vs n. \<forall>v \<in> set vs. expr_wf sd v"])
    (auto split: sum.splits)

lemma struct_fields_sound:
  "psound h pd 0 sd (struct_fields E) (\<lambda>fs n. \<forall>(x, v) \<in> set fs. expr_wf sd v)"
  unfolding struct_fields_def
  by (intro ps_intro E_intro ps_loop [where I = "\<lambda>fs n. \<forall>(x, v) \<in> set fs. expr_wf sd v"])
    (auto split: sum.splits)

lemma object_fields_sound:
  "psound h pd 0 sd (object_fields E) (\<lambda>fs n. \<forall>(x, v) \<in> set fs. expr_wf sd v)"
  unfolding object_fields_def
  by (intro ps_intro E_intro ps_loop [where I = "\<lambda>fs n. \<forall>(x, v) \<in> set fs. expr_wf sd v"])
    (auto split: sum.splits)

lemma finish_struct_literal_sound:
  "psound h pd 0 sd (finish_struct_literal E name sp) (\<lambda>e n. 0 < n \<and> expr_wf sd e)"
  unfolding finish_struct_literal_def
  by (intro ps_intro struct_fields_sound [THEN ps_bind]) auto

lemma array_literal_sound: "psound h pd 0 sd (array_literal E sp) (\<lambda>e n. expr_wf sd e)"
  unfolding array_literal_def by (intro ps_intro array_values_sound [THEN ps_bind]) auto

lemma object_literal_sound: "psound h pd 0 sd (object_literal E sp) (\<lambda>e n. expr_wf sd e)"
  unfolding object_literal_def by (intro ps_intro object_fields_sound [THEN ps_bind]) auto

lemma postfix_struct_sound:
  "psound h pd 0 sd (postfix_struct E e) (\<lambda>r n. \<forall>e'. r = Some e' \<longrightarrow> 0 < n \<and> expr_wf sd e')"
  unfolding postfix_struct_def
  by (intro ps_intro helper_intro finish_struct_literal_sound [THEN ps_bind]) auto

lemma postfix_step_sound:
  assumes "expr_wf sd e"
  shows "psound h pd 0 sd (postfix_step E e) (\<lambda>r n. \<forall>e'. r = Some e' \<longrightarrow> 0 < n \<and> expr_wf sd e')"
  unfolding postfix_step_def
  by (intro ps_intro E_intro call_args_sound [THEN ps_bind] postfix_struct_sound [THEN ps_mono])
    (auto simp: assms)

lemma finish_call_sound:
  assumes "expr_wf sd e"
  shows "psound h pd 0 sd (finish_call E e) (\<lambda>e n. expr_wf sd e)"
  unfolding finish_call_def
  by (intro ps_intro helper_intro postfix_step_sound [THEN ps_bind]
      ps_loop [where I = "\<lambda>(e, c) n. expr_wf sd e"]) (auto simp: assms)

lemma match_guard_sound: "psound h pd 0 sd (match_guard E) (\<lambda>g n. opt_all (expr_wf sd) g)"
  unfolding match_guard_def by (intro ps_intro E_intro) auto

lemma match_arms_sound:
  "psound h pd 0 sd (match_arms E) (\<lambda>arms n. \<forall>a \<in> set arms.
     case a of MatchArm p g e s \<Rightarrow> opt_all (expr_wf sd) g \<and> expr_wf sd e)"
  unfolding match_arms_def
  by (intro ps_intro E_intro match_guard_sound [THEN ps_bind]
      ps_loop [where I = "\<lambda>arms n. \<forall>a \<in> set arms.
        case a of MatchArm p g e s \<Rightarrow> opt_all (expr_wf sd) g \<and> expr_wf sd e"])
    auto

lemma match_expression_sound: "psound h pd 0 sd (match_expression E sp) (\<lambda>e n. expr_wf sd e)"
  unfolding match_expression_def
  by (intro ps_intro E_intro match_arms_sound [THEN ps_bind]) auto

end

locale body_parsers = expr_parser +
  fixes S :: "stmt parser"
  assumes S_sound: "\<And>h. psound h pd 0 sd S (\<lambda>s n. 0 < n \<and> stmt_wf sd s)"
begin

lemmas S_intro = S_sound [THEN ps_bind] S_sound [THEN ps_mono]

lemma block_statements_sound:
  "psound h pd 0 sd (block_statements S) (\<lambda>ss n. \<forall>s \<in> set ss. stmt_wf sd s)"
  unfolding block_statements_def
  by (intro ps_intro S_intro ps_loop [where I = "\<lambda>ss n. \<forall>s \<in> set ss. stmt_wf sd s"]) auto

lemma block_sound: "psound h pd 0 sd (block S) (\<lambda>(ss, sp) n. 0 < n \<and> (\<forall>s \<in> set ss. stmt_wf sd s))"
  unfolding block_def by (intro ps_intro block_statements_sound [THEN ps_bind]) auto

lemma arrow_body_sound:
  "psound h pd 0 sd (arrow_body E S) (\<lambda>(ss, sp) n. 0 < n \<and> (\<forall>s \<in> set ss. stmt_wf sd s))"
  unfolding arrow_body_def
  by (intro ps_intro E_intro block_sound [THEN ps_mono]) auto

end

locale value_parsers = expr_parser +
  fixes S :: "stmt parser"
  assumes body: "sd < MAX_STATEMENT_DEPTH \<Longrightarrow> body_parsers E pd (sd + 1) S"
begin

lemma bodies_sound:
  "psound h pd 0 sd (with_statement_depth sp (arrow_body E S))
     (\<lambda>(ss, sp) n. 0 < n \<and> sd < MAX_STATEMENT_DEPTH \<and> (\<forall>s \<in> set ss. stmt_wf (sd + 1) s))"
  "psound h pd 0 sd (with_statement_depth sp (block S))
     (\<lambda>(ss, sp) n. 0 < n \<and> sd < MAX_STATEMENT_DEPTH \<and> (\<forall>s \<in> set ss. stmt_wf (sd + 1) s))"
  by (intro ps_with_statement_depth
      body_parsers.arrow_body_sound [OF body, THEN ps_mono] body_parsers.block_sound [OF body, THEN ps_mono];
      auto)+

lemma arrow_function_sound: "psound h pd 0 sd (arrow_function E S) (\<lambda>e n. 0 < n \<and> expr_wf sd e)"
  unfolding arrow_function_def
  by (intro cursor_bind bodies_sound(1) [THEN ps_bind] helper_intro ps_return ps_case_prod) auto

lemma anonymous_function_sound: "psound h pd 0 sd (anonymous_function S) (\<lambda>e n. 0 < n \<and> expr_wf sd e)"
  unfolding anonymous_function_def
  by (intro cursor_bind bodies_sound(2) [THEN ps_bind] helper_intro ps_return ps_case_prod) auto

lemma name_arrow_sound:
  "opt_all type_ok ty \<Longrightarrow> psound h pd 0 sd (name_arrow E S name ty sp) (\<lambda>e n. expr_wf sd e)"
  unfolding name_arrow_def
  by (intro bodies_sound(1) [THEN ps_bind] ps_return ps_case_prod) auto

lemma primary_name_sound: "psound h pd 0 sd (primary_name E S name sp) (\<lambda>e n. expr_wf sd e)"
  unfolding primary_name_def
  by (intro ps_intro helper_intro name_arrow_sound [THEN ps_mono]
      finish_struct_literal_sound [THEN ps_mono]) auto

lemma primary_atom_sound: "psound h pd 0 sd (primary_atom E S) (\<lambda>e n. 0 < n \<and> expr_wf sd e)"
  unfolding primary_atom_def
  by (intro ps_intro E_intro primary_name_sound [THEN ps_mono] array_literal_sound [THEN ps_mono]
      object_literal_sound [THEN ps_mono]) auto

lemma primary_sound: "psound h pd 0 sd (primary E S) (\<lambda>e n. 0 < n \<and> expr_wf sd e)"
  unfolding primary_def
  by (intro ps_intro helper_intro match_expression_sound [THEN ps_mono] primary_atom_sound
      [THEN ps_mono] arrow_function_sound [THEN ps_mono] anonymous_function_sound [THEN ps_mono]) auto

lemma call_expr_sound: "psound h pd 0 sd (call_expr E S) (\<lambda>e n. 0 < n \<and> expr_wf sd e)"
  unfolding call_expr_def
  by (intro primary_sound [THEN ps_bind] finish_call_sound [THEN ps_mono]) auto

lemma unary_body_sound:
  assumes U: "\<And>h. pd < MAX_PARSE_DEPTH \<Longrightarrow> psound h (pd + 1) 0 sd U (\<lambda>e n. 0 < n \<and> expr_wf sd e)"
  shows "psound h pd 0 sd (unary_body U E S) (\<lambda>e n. 0 < n \<and> expr_wf sd e)"
  unfolding unary_body_def
  by (intro ps_intro deeper_sound [OF U, THEN ps_bind] call_expr_sound [THEN ps_mono]) auto

end

end
