(* ===== verification/Parser_Stmt.thy ===== *)
theory Parser_Stmt
  imports Parser_Expr
begin

text \<open>
  Statements and function declarations (\<open>src/src/parser/mod.rs\<close>). As in \<open>Parser_Expr\<close>, the
  recursive callees are arguments: \<open>E\<close> for \<open>expression\<close>, \<open>S\<close> for \<open>statement\<close>, \<open>IFS\<close> for
  the \<open>if_statement\<close> of an \<open>else if\<close>.
\<close>

section \<open>Function declarations\<close>

definition fn_param_list :: "param list parser" where
  "fn_param_list = sbind (check TK_RParen) (\<lambda>empty.
     if empty then sreturn []
     else sloop ps_rem (\<lambda>params.
       sbind peek (\<lambda>t.
       sbind parameter_mode (\<lambda>mode.
       sbind (consume_ident ''expected parameter name'') (\<lambda>(name, sp).
       sbind optional_type (\<lambda>ty.
       sbind (match_kind TK_Comma) (\<lambda>comma.
       let params' = params @ [\<lparr>pa_mode = mode, pa_name = name, pa_ty = ty,
             pa_span = Span_new (sp_start (tk_span t)) (sp_end sp)\<rparr>] in
       sreturn (if comma then Inl params' else Inr params'))))))) [])"

definition type_param_names :: "ustring list parser" where
  "type_param_names = sloop ps_rem (\<lambda>params.
     sbind (consume_ident ''expected generic type parameter'') (\<lambda>(name, sp).
     if name \<in> set params
     then sraise (parse_error (lit (''duplicate generic type parameter '' @ [CHR 0x27]) @ name @ lit [CHR 0x27]) sp)
     else sbind (match_kind TK_Comma) (\<lambda>comma.
          sreturn (if comma then Inl (params @ [name]) else Inr (params @ [name]))))) []"

definition type_params :: "ustring list parser" where
  "type_params = sbind (match_kind TK_Less) (\<lambda>less.
     if \<not> less then sreturn []
     else sbind type_param_names (\<lambda>params.
          sbind (consume TK_Greater ''expected '>' after generic type parameters'') (\<lambda>_.
          sreturn params)))"

definition function_start :: "bool \<Rightarrow> position parser" where
  "function_start is_async =
     (if is_async then
        sbind previous (\<lambda>t.
        sbind (consume TK_Fn (''expected 'fn' after 'async'' @ [CHR 0x27])) (\<lambda>_.
        sreturn (sp_start (tk_span t))))
      else sbind (consume TK_Fn (''expected 'fn'' @ [CHR 0x27])) (\<lambda>t. sreturn (sp_start (tk_span t))))"

definition function_decl :: "stmt parser \<Rightarrow> bool \<Rightarrow> fn_decl parser" where
  "function_decl S is_async =
     sbind (function_start is_async) (\<lambda>start.
     sbind (consume_ident ''expected function name'') (\<lambda>(name, _).
     sbind type_params (\<lambda>tps.
     sbind (consume TK_LParen ''expected '(' after function name'') (\<lambda>_.
     sbind fn_param_list (\<lambda>params.
     sbind (consume TK_RParen ''expected ')' after parameters'') (\<lambda>_.
     sbind optional_type (\<lambda>return_type.
     sbind (block S) (\<lambda>(body, body_span).
     sreturn (FnDecl name is_async tps params return_type body
       (Span_new start (sp_end body_span)))))))))))"

section \<open>Statements that own a body\<close>

definition block_or_single_statement :: "stmt parser \<Rightarrow> string \<Rightarrow> (stmt list \<times> span) parser" where
  "block_or_single_statement S context =
     sbind (check TK_LBrace) (\<lambda>lbrace. if lbrace then block S
     else sbind (check TK_Eof) (\<lambda>eof. sbind (check TK_Else) (\<lambda>els.
     if eof \<or> els then
       sbind peek (\<lambda>t. sraise (parse_error
         (lit (''expected '{' or statement after '' @ [CHR 0x27] @ context @ [CHR 0x27])) (tk_span t)))
     else sbind S (\<lambda>st. sreturn ([st], stmt_span st)))))"

text \<open>The \<open>else\<close> part: its statements and where the whole statement ends.\<close>

definition else_branch ::
    "stmt parser \<Rightarrow> stmt parser \<Rightarrow> position \<Rightarrow> (stmt list \<times> position) parser" where
  "else_branch S IFS then_end =
     sbind (match_kind TK_Else) (\<lambda>els. if els then
       sbind (match_kind TK_If) (\<lambda>else_if. if else_if then
         sbind previous (\<lambda>t.
         sbind (with_statement_depth (tk_span t) IFS) (\<lambda>nested.
         sreturn ([nested], sp_end (stmt_span nested))))
       else
         sbind (block_or_single_statement S ''else'') (\<lambda>(body, sp).
         sreturn (body, sp_end sp)))
     else sreturn ([], then_end))"

definition if_statement_body :: "expr parser \<Rightarrow> stmt parser \<Rightarrow> stmt parser \<Rightarrow> stmt parser" where
  "if_statement_body E S IFS =
     sbind previous (\<lambda>t.
     sbind (consume TK_LParen (''expected '(' after 'if'' @ [CHR 0x27])) (\<lambda>_.
     sbind E (\<lambda>condition.
     sbind (consume TK_RParen ''expected ')' after if condition'') (\<lambda>_.
     sbind (block_or_single_statement S ''if'') (\<lambda>(then_branch, then_span).
     sbind (else_branch S IFS (sp_end then_span)) (\<lambda>(else_body, end_pos).
     sreturn (St_If condition then_branch else_body (Span_new (sp_start (tk_span t)) end_pos))))))))"

definition while_statement :: "expr parser \<Rightarrow> stmt parser \<Rightarrow> stmt parser" where
  "while_statement E S =
     sbind previous (\<lambda>t.
     sbind (consume TK_LParen (''expected '(' after 'while'' @ [CHR 0x27])) (\<lambda>_.
     sbind E (\<lambda>condition.
     sbind (consume TK_RParen ''expected ')' after while condition'') (\<lambda>_.
     sbind (block_or_single_statement S ''while'') (\<lambda>(body, body_span).
     sreturn (St_While condition body (Span_new (sp_start (tk_span t)) (sp_end body_span))))))))"

definition for_statement :: "expr parser \<Rightarrow> stmt parser \<Rightarrow> stmt parser" where
  "for_statement E S =
     sbind previous (\<lambda>t.
     sbind (consume_ident (''expected loop variable after 'for'' @ [CHR 0x27])) (\<lambda>(name, _).
     sbind (consume TK_In ''expected 'in' after loop variable'') (\<lambda>_.
     sbind E (\<lambda>iterable.
     sbind (block_or_single_statement S ''for'') (\<lambda>(body, body_span).
     sreturn (St_For name iterable body (Span_new (sp_start (tk_span t)) (sp_end body_span))))))))"

definition try_catch :: "stmt parser \<Rightarrow> position \<Rightarrow> (ustring option \<times> stmt list \<times> position) parser" where
  "try_catch S end_pos = sbind (match_kind TK_Catch) (\<lambda>catch.
     if catch then
       sbind (consume TK_LParen (''expected '(' after 'catch'' @ [CHR 0x27])) (\<lambda>_.
       sbind (consume_ident ''expected catch error name'') (\<lambda>(name, _).
       sbind (consume TK_RParen ''expected ')' after catch error name'') (\<lambda>_.
       sbind (block S) (\<lambda>(body, sp). sreturn (Some name, body, sp_end sp)))))
     else sreturn (None, [], end_pos))"

definition try_finally :: "stmt parser \<Rightarrow> position \<Rightarrow> (stmt list \<times> position) parser" where
  "try_finally S end_pos = sbind (match_kind TK_Finally) (\<lambda>finl.
     if finl then sbind (block S) (\<lambda>(body, sp). sreturn (body, sp_end sp))
     else sreturn ([], end_pos))"

definition try_statement :: "stmt parser \<Rightarrow> stmt parser" where
  "try_statement S =
     sbind previous (\<lambda>t.
     sbind (block S) (\<lambda>(body, body_span).
     sbind (try_catch S (sp_end body_span)) (\<lambda>(catch_name, catch_body, end1).
     sbind (try_finally S end1) (\<lambda>(finally_body, end2).
     let sp = Span_new (sp_start (tk_span t)) end2 in
     if catch_name = None \<and> finally_body = []
     then sraise (parse_error (lit ''try requires catch or finally'') sp)
     else sreturn (St_Try body catch_name catch_body finally_body sp)))))"

definition local_function_statement :: "stmt parser \<Rightarrow> bool \<Rightarrow> stmt parser" where
  "local_function_statement S is_async =
     sbind (function_decl S is_async) (\<lambda>f.
     sbind optional_semicolon (\<lambda>_. sreturn (St_Function f)))"

definition terminated_statement :: "stmt parser \<Rightarrow> stmt parser" where
  "terminated_statement parse = sbind parse (\<lambda>st. sbind optional_semicolon (\<lambda>_. sreturn st))"

section \<open>Simple statements\<close>

definition return_value :: "expr parser \<Rightarrow> expr option parser" where
  "return_value E =
     sbind (check TK_RBrace) (\<lambda>rbrace. sbind (check TK_Semicolon) (\<lambda>semi.
     if rbrace \<or> semi then sreturn None else sbind E (\<lambda>e. sreturn (Some e))))"

definition return_statement :: "expr parser \<Rightarrow> stmt parser" where
  "return_statement E =
     sbind previous (\<lambda>t.
     sbind (return_value E) (\<lambda>v.
     sbind optional_semicolon (\<lambda>_.
     sbind previous (\<lambda>p.
     let end_pos = (case v of None \<Rightarrow> sp_end (tk_span p) | Some e \<Rightarrow> sp_end (ex_span e)) in
     sreturn (St_Return v (Span_new (sp_start (tk_span t)) end_pos))))))"

definition fail_statement :: "expr parser \<Rightarrow> stmt parser" where
  "fail_statement E =
     sbind previous (\<lambda>t. sbind E (\<lambda>v. sbind optional_semicolon (\<lambda>_.
     sreturn (St_Fail v (Span_new (sp_start (tk_span t)) (sp_end (ex_span v)))))))"

definition panic_statement :: "expr parser \<Rightarrow> stmt parser" where
  "panic_statement E =
     sbind previous (\<lambda>t. sbind E (\<lambda>v. sbind optional_semicolon (\<lambda>_.
     sreturn (St_Panic v (Span_new (sp_start (tk_span t)) (sp_end (ex_span v)))))))"

definition print_value :: "expr parser \<Rightarrow> expr parser" where
  "print_value E = sbind (match_kind TK_LParen) (\<lambda>lparen.
     if lparen then
       sbind reject_call_site_ampersand (\<lambda>_.
       sbind E (\<lambda>e.
       sbind (consume TK_RParen ''expected ')' after print argument'') (\<lambda>_. sreturn e)))
     else E)"

definition print_stmt :: "expr parser \<Rightarrow> stmt parser" where
  "print_stmt E =
     sbind previous (\<lambda>t. sbind (print_value E) (\<lambda>v. sbind optional_semicolon (\<lambda>_.
     sreturn (St_Print v (Span_new (sp_start (tk_span t)) (sp_end (ex_span v)))))))"

definition increment_statement :: "expr \<Rightarrow> binary_op \<Rightarrow> position \<Rightarrow> stmt parser" where
  "increment_statement e op start =
     sbind previous (\<lambda>p.
     sbind (sresult (assign_target_from_expr e)) (\<lambda>target.
     sbind optional_semicolon (\<lambda>_.
     let sp = Span_new start (sp_end (tk_span p)) in
     sreturn (St_CompoundAssign target op (Expr_new (EK_Literal (Lit_Int 1)) sp) sp))))"

definition compound_op :: "token_kind \<Rightarrow> binary_op option" where
  "compound_op k =
     (if k = TK_PlusEqual then Some BO_Add else if k = TK_MinusEqual then Some BO_Subtract
      else if k = TK_StarEqual then Some BO_Multiply else if k = TK_SlashEqual then Some BO_Divide
      else if k = TK_PercentEqual then Some BO_Remainder else None)"

definition match_compound_assignment_op :: "binary_op option parser" where
  "match_compound_assignment_op = sbind peek (\<lambda>t. case compound_op (tk_kind t) of
       None \<Rightarrow> sreturn None
     | Some op \<Rightarrow> sbind advance (\<lambda>_. sreturn (Some op)))"

definition is_destructure_assignment_start :: "bool parser" where
  "is_destructure_assignment_start =
     sbind peek (\<lambda>t. sbind (peek_kind_at 1) (\<lambda>k.
     sreturn (ident_of (tk_kind t) \<noteq> None \<and> k = Some TK_Comma)))"

definition destructure_names :: "ustring option list parser" where
  "destructure_names = sloop ps_rem (\<lambda>names.
     sbind (consume_ident ''expected destructuring target'') (\<lambda>(name, _).
     sbind (match_kind TK_Comma) (\<lambda>comma.
     let names' = names @ [if name = lit ''_'' then None else Some name] in
     sreturn (if comma then Inl names' else Inr names')))) []"

definition destructure_values :: "expr parser \<Rightarrow> expr list parser" where
  "destructure_values E = sloop ps_rem (\<lambda>vs.
     sbind E (\<lambda>v.
     sbind (match_kind TK_Comma) (\<lambda>comma.
     sreturn (if comma then Inl (vs @ [v]) else Inr (vs @ [v]))))) []"

definition destructure_assignment_statement :: "expr parser \<Rightarrow> stmt parser" where
  "destructure_assignment_statement E =
     sbind peek (\<lambda>t.
     sbind destructure_names (\<lambda>names.
     sbind (consume TK_Equal ''expected '=' after destructuring targets'') (\<lambda>_.
     sbind (destructure_values E) (\<lambda>vs.
     sbind optional_semicolon (\<lambda>_.
     let start = sp_start (tk_span t);
         end_pos = (if vs = [] then sp_end (Span_point start) else sp_end (ex_span (last vs))) in
     sreturn (St_DestructureAssign names vs (Span_new start end_pos)))))))"

section \<open>Object destructuring\<close>

fun object_pattern_closes :: "token list \<Rightarrow> nat \<Rightarrow> bool" where
  "object_pattern_closes [] depth = False"
| "object_pattern_closes (t # ts) depth =
     (let k = tk_kind t in
      if k = TK_LBrace \<or> k = TK_LParen \<or> k = TK_LBracket then object_pattern_closes ts (depth + 1)
      else if k = TK_RBrace \<or> k = TK_RParen \<or> k = TK_RBracket then
        (if depth = 0 then False
         else if depth - 1 = 0 then (case ts of [] \<Rightarrow> False | t' # _ \<Rightarrow> tk_kind t' = TK_Equal)
         else object_pattern_closes ts (depth - 1))
      else if k = TK_Eof then False
      else object_pattern_closes ts depth)"

definition is_object_destructure_assignment_start :: "bool parser" where
  "is_object_destructure_assignment_start = sbind (check TK_LBrace) (\<lambda>b.
     if \<not> b then sreturn False
     else sget (\<lambda>s. object_pattern_closes (drop (ps_current s) (ps_tokens s)) 0))"

definition object_rest :: "object_destructure_rest parser" where
  "object_rest =
     sbind (consume_ident (''expected rest binding name after '...'' @ [CHR 0x27])) (\<lambda>(name, sp).
     sbind (match_kind TK_Comma) (\<lambda>comma.
     sbind (check TK_RBrace) (\<lambda>rbrace.
     if comma \<and> \<not> rbrace then
       sbind peek (\<lambda>t. sraise (parse_error (lit ''object destructuring rest binding must be last'') (tk_span t)))
     else sreturn \<lparr>or_local = (if name \<noteq> lit ''_'' then Some name else None), or_span = sp\<rparr>)))"

definition binding_local :: "ustring \<Rightarrow> ustring parser" where
  "binding_local field = sbind (match_kind TK_Colon) (\<lambda>colon.
     if colon then sbind (consume_ident (''expected local binding name after ':'' @ [CHR 0x27]))
            (\<lambda>(renamed, _). sreturn renamed)
     else sreturn field)"

definition binding_default :: "expr parser \<Rightarrow> expr option parser" where
  "binding_default E = sbind (match_kind TK_Equal) (\<lambda>eq.
     if eq then sbind E (\<lambda>e. sreturn (Some e)) else sreturn None)"

definition object_binding :: "expr parser \<Rightarrow> ustring list \<Rightarrow> object_binding parser" where
  "object_binding E seen =
     sbind advance (\<lambda>t. case name_of (tk_kind t) of
       None \<Rightarrow> sraise (parse_error (lit ''expected object destructuring field name'') (tk_span t))
     | Some field \<Rightarrow>
         if field \<in> set seen then
           sraise (parse_error (lit (''duplicate object destructuring field '' @ [CHR 0x27]) @ field
             @ lit [CHR 0x27]) (tk_span t))
         else
           sbind (binding_local field) (\<lambda>local.
           sbind (binding_default E) (\<lambda>default.
           sreturn (ObjectBinding field (if local \<noteq> lit ''_'' then Some local else None) default (tk_span t)))))"

definition object_bindings :: "expr parser \<Rightarrow> (object_binding list \<times> object_destructure_rest option) parser" where
  "object_bindings E = sbind (check TK_RBrace) (\<lambda>empty.
     if empty then sreturn ([], None)
     else sloop ps_rem (\<lambda>(bindings, seen).
       sbind (match_kind TK_Ellipsis) (\<lambda>ellipsis. if ellipsis then
         sbind object_rest (\<lambda>rest. sreturn (Inr (bindings, Some rest)))
       else
         sbind (object_binding E seen) (\<lambda>b.
         sbind (match_kind TK_Comma) (\<lambda>comma.
         sbind (check TK_RBrace) (\<lambda>rbrace.
         let bindings' = bindings @ [b] in
         sreturn (if \<not> comma \<or> rbrace then Inr (bindings', None)
                  else Inl (bindings', ob_field b # seen))))))) ([], []))"

definition object_destructure_assignment_statement :: "expr parser \<Rightarrow> stmt parser" where
  "object_destructure_assignment_statement E =
     sbind (consume TK_LBrace ''expected '{' for object destructuring'') (\<lambda>t.
     sbind (object_bindings E) (\<lambda>(bindings, rest).
     sbind (consume TK_RBrace ''expected '}' after object destructuring pattern'') (\<lambda>_.
     sbind (consume TK_Equal ''expected '=' after object destructuring pattern'') (\<lambda>_.
     sbind E (\<lambda>v.
     sbind optional_semicolon (\<lambda>_.
     sreturn (St_ObjectDestructureAssign bindings rest v
       (Span_new (sp_start (tk_span t)) (sp_end (ex_span v))))))))))"

section \<open>Expressions and assignments\<close>

definition declared_value :: "expr parser \<Rightarrow> type_name \<Rightarrow> position \<Rightarrow> expr parser" where
  "declared_value E ty start = sbind (match_kind TK_Equal) (\<lambda>eq.
     if eq then E else sreturn (default_expr ty (Span_point start)))"

definition typed_declaration :: "expr parser \<Rightarrow> ustring \<Rightarrow> stmt parser" where
  "typed_declaration E name =
     sbind advance (\<lambda>t.
     sbind advance (\<lambda>_.
     sbind type_name (\<lambda>ty.
     let start = sp_start (tk_span t) in
     sbind (declared_value E ty start) (\<lambda>v.
     sbind optional_semicolon (\<lambda>_.
     sreturn (St_VarDecl name True (Some ty) v (Span_new start (sp_end (ex_span v)))))))))"

definition assignment :: "expr parser \<Rightarrow> expr \<Rightarrow> stmt parser" where
  "assignment E e =
     sbind (sresult (assign_target_from_expr e)) (\<lambda>target.
     sbind E (\<lambda>v.
     sbind optional_semicolon (\<lambda>_.
     let sp = Span_new (sp_start (ex_span e)) (sp_end (ex_span v)) in
     sreturn (case target of
         AT_Variable name \<Rightarrow> St_Assign name v sp
       | _ \<Rightarrow> St_AssignTarget target v sp))))"

definition compound_assignment :: "expr parser \<Rightarrow> expr \<Rightarrow> binary_op \<Rightarrow> stmt parser" where
  "compound_assignment E e op =
     sbind (sresult (assign_target_from_expr e)) (\<lambda>target.
     sbind E (\<lambda>v.
     sbind optional_semicolon (\<lambda>_.
     sreturn (St_CompoundAssign target op v (Span_new (sp_start (ex_span e)) (sp_end (ex_span v)))))))"

definition expression_tail :: "expr parser \<Rightarrow> expr \<Rightarrow> stmt parser" where
  "expression_tail E e =
     sbind (match_kind TK_Equal) (\<lambda>eq. if eq then assignment E e
     else sbind match_compound_assignment_op (\<lambda>cop. case cop of
       Some op \<Rightarrow> compound_assignment E e op
     | None \<Rightarrow>
         sbind (match_kind TK_PlusPlus) (\<lambda>pp. if pp then increment_statement e BO_Add (sp_start (ex_span e))
         else sbind (match_kind TK_MinusMinus) (\<lambda>mm. if mm then increment_statement e BO_Subtract (sp_start (ex_span e))
         else sbind optional_semicolon (\<lambda>_. sreturn (St_Expr e (ex_span e)))))))"

definition assignment_or_expression :: "expr parser \<Rightarrow> stmt parser" where
  "assignment_or_expression E =
     sbind peek (\<lambda>t.
     sbind peek_next_kind (\<lambda>nk. case ident_of (tk_kind t) of
       Some name \<Rightarrow> if nk = Some TK_Colon then typed_declaration E name
                    else sbind E (expression_tail E)
     | None \<Rightarrow> sbind E (expression_tail E)))"

definition expression_or_assignment_statement :: "expr parser \<Rightarrow> stmt parser" where
  "expression_or_assignment_statement E =
     sbind (match_kind TK_PlusPlus) (\<lambda>pp. if pp then
       sbind previous (\<lambda>t. sbind E (\<lambda>e. increment_statement e BO_Add (sp_start (tk_span t))))
     else sbind (match_kind TK_MinusMinus) (\<lambda>mm. if mm then
       sbind previous (\<lambda>t. sbind E (\<lambda>e. increment_statement e BO_Subtract (sp_start (tk_span t))))
     else sbind is_destructure_assignment_start (\<lambda>d. if d then destructure_assignment_statement E
     else assignment_or_expression E)))"

section \<open>The statement dispatcher\<close>

definition simple_statement :: "expr parser \<Rightarrow> stmt parser" where
  "simple_statement E =
     sbind (match_kind TK_Fail) (\<lambda>b. if b then fail_statement E
     else sbind (match_kind TK_Panic) (\<lambda>b. if b then panic_statement E
     else sbind (match_kind TK_Return) (\<lambda>b. if b then return_statement E
     else sbind (match_kind TK_Print) (\<lambda>b. if b then print_stmt E
     else sbind is_object_destructure_assignment_start (\<lambda>b. if b then object_destructure_assignment_statement E
     else expression_or_assignment_statement E)))))"

definition jump_statement :: "(span \<Rightarrow> stmt) \<Rightarrow> stmt parser" where
  "jump_statement mk = sbind previous (\<lambda>t. sbind optional_semicolon (\<lambda>_. sreturn (mk (tk_span t))))"

definition statement_inner :: "expr parser \<Rightarrow> stmt parser \<Rightarrow> stmt parser \<Rightarrow> stmt parser" where
  "statement_inner E S IFS =
     sbind (match_kind TK_Let) (\<lambda>b. if b then sbind previous (\<lambda>t. sraise (parse_error
       (lit ('''let' is not supported in Ku; use 'name = value' or 'name:type = value'' @ [CHR 0x27])) (tk_span t)))
     else sbind (match_kind TK_If) (\<lambda>b. if b then terminated_statement (if_statement_body E S IFS)
     else sbind (match_kind TK_While) (\<lambda>b. if b then terminated_statement (while_statement E S)
     else sbind (match_kind TK_For) (\<lambda>b. if b then terminated_statement (for_statement E S)
     else sbind (match_kind TK_Break) (\<lambda>b. if b then jump_statement St_Break
     else sbind (match_kind TK_Continue) (\<lambda>b. if b then jump_statement St_Continue
     else sbind (match_kind TK_Try) (\<lambda>b. if b then try_statement S
     else sbind (match_kind TK_Async) (\<lambda>b. if b then local_function_statement S True
     else sbind (check TK_Fn) (\<lambda>b. if b then local_function_statement S False
     else simple_statement E)))))))))"

definition BODY_OWNERS :: "token_kind list" where
  "BODY_OWNERS = [TK_If, TK_While, TK_For, TK_Try, TK_Fn, TK_Async]"

definition statement_body :: "expr parser \<Rightarrow> stmt parser \<Rightarrow> stmt parser \<Rightarrow> stmt parser" where
  "statement_body E S IFS =
     sbind peek (\<lambda>t.
     if tk_kind t \<in> set BODY_OWNERS
     then with_statement_depth (tk_span t) (statement_inner E S IFS)
     else statement_inner E S IFS)"

section \<open>Dispatch on the current token\<close>

text \<open>
  \<open>psound_when C\<close> is \<open>psound\<close> restricted to states whose current token has a kind in \<open>C\<close>:
  the branches of the dispatcher for other kinds are not reached.
\<close>

definition psound_when ::
    "(token_kind \<Rightarrow> bool) \<Rightarrow> bool \<Rightarrow> nat \<Rightarrow> nat \<Rightarrow> nat \<Rightarrow> 'a parser \<Rightarrow> ('a \<Rightarrow> nat \<Rightarrow> bool) \<Rightarrow> bool" where
  "psound_when C h pd td sd m R \<longleftrightarrow> (\<forall>s. ps_wf s \<and> (h \<longrightarrow> 0 < ps_current s) \<and> ps_parse_depth s = pd
       \<and> ps_type_parse_depth s = td \<and> ps_statement_depth s = sd \<and> C (tk_kind (cur_tok s))
     \<longrightarrow> wp (\<lambda>e. ke_kind e = KE_Parse) m
           (\<lambda>x s'. ps_ext s s' \<and> R x (ps_current s' - ps_current s)) s)"

lemma psw_weaken: "(\<And>k. C k \<Longrightarrow> psound h pd td sd m R) \<Longrightarrow> psound_when C h pd td sd m R"
  by (auto simp: psound_def psound_when_def)

lemma psw_peek_if:
  assumes "\<And>t. psound_when C h pd td sd (f t) R"
    and "psound_when (\<lambda>k. \<not> C k) h pd td sd m R"
  shows "psound h pd td sd (sbind peek (\<lambda>t. if C (tk_kind t) then f t else m)) R"
  using assms by (auto simp: psound_when_def psound_def wp_bind wp_peek)

lemma psw_match_if:
  assumes k: "plain k" "k \<noteq> TK_Eof"
    and t: "C k \<Longrightarrow> psound True pd td sd m (\<lambda>y n. R y (1 + n))"
    and f: "psound_when (\<lambda>k'. C k' \<and> k' \<noteq> k) h pd td sd m' R"
  shows "psound_when C h pd td sd (sbind (match_kind k) (\<lambda>b. if b then m else m')) R"
  unfolding psound_when_def
proof (intro allI impI, elim conjE)
  fix s
  assume s: "ps_wf s" "h \<longrightarrow> 0 < ps_current s" "ps_parse_depth s = pd"
    "ps_type_parse_depth s = td" "ps_statement_depth s = sd" "C (tk_kind (cur_tok s))"
  show "wp (\<lambda>e. ke_kind e = KE_Parse) (sbind (match_kind k) (\<lambda>b. if b then m else m'))
      (\<lambda>x s'. ps_ext s s' \<and> R x (ps_current s' - ps_current s)) s"
  proof (cases "tk_kind (cur_tok s) = k")
    case False
    then have "wp (\<lambda>e. ke_kind e = KE_Parse) m' (\<lambda>x s'. ps_ext s s' \<and> R x (ps_current s' - ps_current s)) s"
      using f s by (simp add: psound_when_def)
    with False show ?thesis using s k
      by (simp add: match_kind_def wp_bind wp_check wp_return token_kind_eq_plain)
  next
    case True
    with s k have wf: "ps_wf (nxt s)" by (simp add: ps_wf_nxt)
    have "wp (\<lambda>e. ke_kind e = KE_Parse) m
        (\<lambda>x s'. ps_ext (nxt s) s' \<and> R x (1 + (ps_current s' - ps_current (nxt s)))) (nxt s)"
      by (rule psoundD [OF t]) (use s wf True in auto)
    then have "wp (\<lambda>e. ke_kind e = KE_Parse) m (\<lambda>x s'. ps_ext s s' \<and> R x (ps_current s' - ps_current s)) (nxt s)"
      by (rule wp_mono) (use wf in \<open>auto simp: ps_ext_def Suc_diff_Suc\<close>)
    with True show ?thesis using s k
      by (simp add: match_kind_def wp_bind wp_check wp_advance wp_return token_kind_eq_plain)
  qed
qed

lemma psw_check_if:
  assumes k: "plain k"
    and t: "C k \<Longrightarrow> psound h pd td sd m R"
    and f: "psound_when (\<lambda>k'. C k' \<and> k' \<noteq> k) h pd td sd m' R"
  shows "psound_when C h pd td sd (sbind (check k) (\<lambda>b. if b then m else m')) R"
  using assms by (auto simp: psound_when_def psound_def wp_bind wp_check token_kind_eq_plain)

lemma psw_with_statement_depth:
  assumes "sd < MAX_STATEMENT_DEPTH \<Longrightarrow> psound_when C h pd td (sd + 1) m R"
  shows "psound_when C h pd td sd (with_statement_depth sp m) R"
proof -
  let ?m = "sbind peek (\<lambda>t. if C (tk_kind t) then m else sraise (parse_error [] sp))"
  have "psound h pd td sd (with_statement_depth sp ?m) R"
    using assms by (intro ps_with_statement_depth psw_peek_if psw_weaken [OF ps_raise])
  moreover have "with_statement_depth sp ?m s = with_statement_depth sp m s"
    if "ps_wf s" "C (tk_kind (cur_tok s))" for s
    using that by (simp add: with_statement_depth_def sbind_def sget_def smodify_def peek_def ps_wf_def)
  ultimately show ?thesis by (auto simp: psound_def psound_when_def wp_def)
qed

section \<open>Soundness\<close>

lemma sresult_target_bind:
  assumes "expr_wf d e" and "\<And>t. target_ok type_ok d t \<Longrightarrow> psound h pd td sd (f t) R"
  shows "psound h pd td sd (sbind (sresult (assign_target_from_expr e)) f) R"
proof (cases "assign_target_from_expr e")
  case (Inl x)
  then have "ke_kind x = KE_Parse" by (rule assign_target_kind)
  then show ?thesis using Inl by (auto simp: sresult_def ps_bind_raise psound_def wp_raise)
next
  case (Inr t)
  then show ?thesis using assms assign_target_ok [OF Inr assms(1)] by (simp add: sresult_def ps_bind_return)
qed

lemma fn_param_list_sound:
  "td \<le> MAX_TYPE_DEPTH \<Longrightarrow> psound h pd td sd fn_param_list (\<lambda>ps n. \<forall>p \<in> set ps. opt_all type_ok (pa_ty p))"
  unfolding fn_param_list_def
  by (intro ps_intro helper_intro
      ps_loop [where I = "\<lambda>ps n. \<forall>p \<in> set ps. opt_all type_ok (pa_ty p)"]) (auto split: sum.splits)

lemma type_param_names_sound: "psound h pd td sd type_param_names (\<lambda>xs n. distinct xs)"
  unfolding type_param_names_def
  by (intro ps_intro ps_loop [where I = "\<lambda>xs n. distinct xs"]) (auto split: sum.splits)

lemma type_params_sound: "psound h pd td sd type_params (\<lambda>xs n. distinct xs)"
  unfolding type_params_def by (intro ps_intro type_param_names_sound [THEN ps_bind]) auto

lemma function_start_sound: "(a \<Longrightarrow> h) \<Longrightarrow> psound h pd td sd (function_start a) (\<lambda>p n. 0 < n)"
  unfolding function_start_def by (intro ps_intro) auto

lemma jump_statement_sound: "psound True pd td sd (jump_statement mk) (\<lambda>st n. \<exists>sp. st = mk sp)"
  unfolding jump_statement_def by (intro ps_intro) auto

lemma is_destructure_sound: "psound h pd td sd is_destructure_assignment_start (\<lambda>b n. n = 0)"
  unfolding is_destructure_assignment_start_def by (intro ps_intro) auto

lemma is_object_destructure_sound: "psound h pd td sd is_object_destructure_assignment_start (\<lambda>b n. n = 0)"
  unfolding is_object_destructure_assignment_start_def by (intro ps_intro get_sound [THEN ps_mono]) auto

lemma compound_op_Eof [simp]: "compound_op TK_Eof = None"
  by (simp add: compound_op_def)

lemma match_compound_sound: "psound h pd td sd match_compound_assignment_op (\<lambda>r n. r \<noteq> None \<longrightarrow> 0 < n)"
  by (auto simp: psound_def match_compound_assignment_op_def wp_bind wp_peek wp_advance wp_return
      ps_ext_def ps_wf_nxt split: option.splits)

lemma destructure_names_sound: "psound h pd td sd destructure_names (\<lambda>xs n. 0 < n)"
  unfolding destructure_names_def
  by (intro ps_intro ps_loop [where I = "\<lambda>_ _. True"]) (auto split: sum.splits)

lemma object_rest_sound: "psound h pd td sd object_rest (\<lambda>r n. True)"
  unfolding object_rest_def by (intro ps_intro) auto

lemma binding_local_sound: "psound h pd td sd (binding_local x) (\<lambda>r n. True)"
  unfolding binding_local_def by (intro ps_intro) auto

lemma increment_statement_sound:
  "expr_wf sd e \<Longrightarrow> h \<Longrightarrow> psound h pd td sd (increment_statement e op p) (\<lambda>st n. stmt_wf sd st)"
  unfolding increment_statement_def
  by (intro ps_intro sresult_target_bind [where d = sd]) auto

text \<open>A statement that owns a body, parsed one level down, is well-formed one level up.\<close>

definition owner_wf :: "nat \<Rightarrow> stmt \<Rightarrow> bool" where
  "owner_wf sd st \<longleftrightarrow> (\<forall>d. sd = Suc d \<longrightarrow> d < MAX_STATEMENT_DEPTH \<longrightarrow> stmt_wf d st)"

context expr_parser begin

lemma return_value_sound: "psound h pd 0 sd (return_value E) (\<lambda>v n. opt_all (expr_wf sd) v)"
  unfolding return_value_def by (intro ps_intro E_intro) auto

lemma return_statement_sound: "psound True pd 0 sd (return_statement E) (\<lambda>st n. stmt_wf sd st)"
  unfolding return_statement_def by (intro ps_intro return_value_sound [THEN ps_bind]) auto

lemma fail_statement_sound: "psound True pd 0 sd (fail_statement E) (\<lambda>st n. stmt_wf sd st)"
  unfolding fail_statement_def by (intro ps_intro E_intro) auto

lemma panic_statement_sound: "psound True pd 0 sd (panic_statement E) (\<lambda>st n. stmt_wf sd st)"
  unfolding panic_statement_def by (intro ps_intro E_intro) auto

lemma print_value_sound: "psound h pd 0 sd (print_value E) (\<lambda>e n. expr_wf sd e)"
  unfolding print_value_def by (intro ps_intro E_intro helper_intro) auto

lemma print_stmt_sound: "psound True pd 0 sd (print_stmt E) (\<lambda>st n. stmt_wf sd st)"
  unfolding print_stmt_def by (intro ps_intro print_value_sound [THEN ps_bind]) auto

lemma destructure_values_sound:
  "psound h pd 0 sd (destructure_values E) (\<lambda>vs n. \<forall>v \<in> set vs. expr_wf sd v)"
  unfolding destructure_values_def
  by (intro ps_intro E_intro ps_loop [where I = "\<lambda>vs n. \<forall>v \<in> set vs. expr_wf sd v"])
    (auto split: sum.splits)

lemma destructure_assignment_sound:
  "psound h pd 0 sd (destructure_assignment_statement E) (\<lambda>st n. 0 < n \<and> stmt_wf sd st)"
  unfolding destructure_assignment_statement_def
  by (intro ps_intro destructure_names_sound [THEN ps_bind] destructure_values_sound [THEN ps_bind]) auto

lemma binding_default_sound: "psound h pd 0 sd (binding_default E) (\<lambda>v n. opt_all (expr_wf sd) v)"
  unfolding binding_default_def by (intro ps_intro E_intro) auto

lemma object_binding_sound:
  "psound h pd 0 sd (object_binding E seen)
     (\<lambda>b n. 0 < n \<and> (case b of ObjectBinding f l df sp \<Rightarrow> opt_all (expr_wf sd) df))"
  unfolding object_binding_def
  by (intro ps_intro binding_local_sound [THEN ps_bind] binding_default_sound [THEN ps_bind]) auto

lemma object_bindings_sound:
  "psound h pd 0 sd (object_bindings E)
     (\<lambda>(bs, r) n. \<forall>b \<in> set bs. case b of ObjectBinding f l df sp \<Rightarrow> opt_all (expr_wf sd) df)"
  unfolding object_bindings_def
  by (intro ps_intro object_rest_sound [THEN ps_bind] object_binding_sound [THEN ps_bind]
      ps_loop [where I = "\<lambda>(bs, seen) n. \<forall>b \<in> set bs.
        case b of ObjectBinding f l df sp \<Rightarrow> opt_all (expr_wf sd) df"]) (auto split: sum.splits)

lemma object_destructure_sound:
  "psound h pd 0 sd (object_destructure_assignment_statement E) (\<lambda>st n. 0 < n \<and> stmt_wf sd st)"
  unfolding object_destructure_assignment_statement_def
  by (intro ps_intro E_intro object_bindings_sound [THEN ps_bind]) auto

lemma declared_value_sound: "psound h pd 0 sd (declared_value E ty p) (\<lambda>e n. expr_wf sd e)"
  unfolding declared_value_def by (intro ps_intro E_intro) auto

lemma typed_declaration_sound:
  "psound h pd 0 sd (typed_declaration E name) (\<lambda>st n. 0 < n \<and> stmt_wf sd st)"
  unfolding typed_declaration_def by (intro ps_intro declared_value_sound [THEN ps_bind]) auto

lemma assignment_sound: "expr_wf sd e \<Longrightarrow> psound h pd 0 sd (assignment E e) (\<lambda>st n. stmt_wf sd st)"
  unfolding assignment_def
  by (intro ps_intro E_intro sresult_target_bind [where d = sd]) (auto split: assign_target.splits)

lemma compound_assignment_sound:
  "expr_wf sd e \<Longrightarrow> psound h pd 0 sd (compound_assignment E e op) (\<lambda>st n. stmt_wf sd st)"
  unfolding compound_assignment_def
  by (intro ps_intro E_intro sresult_target_bind [where d = sd]) auto

lemma expression_tail_sound:
  "expr_wf sd e \<Longrightarrow> psound h pd 0 sd (expression_tail E e) (\<lambda>st n. stmt_wf sd st)"
  unfolding expression_tail_def
  by (intro ps_intro match_compound_sound [THEN ps_bind] assignment_sound [THEN ps_mono]
      compound_assignment_sound [THEN ps_mono] increment_statement_sound [THEN ps_mono]) auto

lemma assignment_or_expression_sound:
  "psound h pd 0 sd (assignment_or_expression E) (\<lambda>st n. 0 < n \<and> stmt_wf sd st)"
  unfolding assignment_or_expression_def
  by (intro ps_intro E_intro typed_declaration_sound [THEN ps_mono] expression_tail_sound [THEN ps_mono]) auto

lemma expression_or_assignment_sound:
  "psound h pd 0 sd (expression_or_assignment_statement E) (\<lambda>st n. 0 < n \<and> stmt_wf sd st)"
  unfolding expression_or_assignment_statement_def
  by (intro ps_intro E_intro is_destructure_sound [THEN ps_bind] increment_statement_sound [THEN ps_mono]
      destructure_assignment_sound [THEN ps_mono] assignment_or_expression_sound [THEN ps_mono]) auto

lemma simple_statement_sound:
  "psound h pd 0 sd (simple_statement E) (\<lambda>st n. 0 < n \<and> stmt_wf sd st)"
proof -
  have t: "psound h' pd 0 sd m (\<lambda>st n. stmt_wf sd st)"
    if "h'" and "m \<in> {fail_statement E, panic_statement E, return_statement E, print_stmt E}" for h' m
    using that fail_statement_sound panic_statement_sound return_statement_sound print_stmt_sound by auto
  show ?thesis unfolding simple_statement_def
    by (intro ps_intro is_object_destructure_sound [THEN ps_bind] object_destructure_sound [THEN ps_mono]
        expression_or_assignment_sound [THEN ps_mono] t [THEN ps_mono]) auto
qed

end

lemma stmt_ok_Function: "stmt_ok P d (St_Function f) \<longleftrightarrow>
    (\<forall>p \<in> set (fn_params f). opt_all P (pa_ty p)) \<and> opt_all P (fn_return_type f)
    \<and> d < MAX_STATEMENT_DEPTH \<and> (\<forall>s \<in> set (fn_body f). stmt_ok P (d + 1) s)"
  by (cases f) simp

context body_parsers begin

lemma block_or_single_sound:
  "psound h pd 0 sd (block_or_single_statement S c) (\<lambda>(ss, sp) n. \<forall>s \<in> set ss. stmt_wf sd s)"
  unfolding block_or_single_statement_def
  by (intro ps_intro S_intro block_sound [THEN ps_mono]) auto

lemma else_branch_sound:
  assumes "\<And>h. sd < MAX_STATEMENT_DEPTH \<Longrightarrow> psound True pd 0 (sd + 1) IFS (\<lambda>st n. owner_wf (sd + 1) st)"
  shows "psound h pd 0 sd (else_branch S IFS p) (\<lambda>(ss, p) n. \<forall>s \<in> set ss. stmt_wf sd s)"
proof -
  have nested: "psound h' pd 0 sd (with_statement_depth sp IFS) (\<lambda>st n. stmt_wf sd st)" if h' for h' sp
    using that assms by (intro ps_with_statement_depth) (auto simp: owner_wf_def intro: ps_mono)
  show ?thesis unfolding else_branch_def
    by (intro cursor_bind ps_if ps_return ps_case_prod nested [THEN ps_bind]
        block_or_single_sound [THEN ps_bind]) auto
qed

lemma if_statement_sound:
  assumes "\<And>h. sd < MAX_STATEMENT_DEPTH \<Longrightarrow> psound True pd 0 (sd + 1) IFS (\<lambda>st n. owner_wf (sd + 1) st)"
  shows "psound True pd 0 sd (if_statement_body E S IFS) (\<lambda>st n. owner_wf sd st)"
  unfolding if_statement_body_def
  by (intro ps_intro E_intro block_or_single_sound [THEN ps_bind] else_branch_sound [OF assms, THEN ps_bind])
    (auto simp: owner_wf_def)

lemma while_statement_sound: "psound True pd 0 sd (while_statement E S) (\<lambda>st n. owner_wf sd st)"
  unfolding while_statement_def
  by (intro ps_intro E_intro block_or_single_sound [THEN ps_bind]) (auto simp: owner_wf_def)

lemma for_statement_sound: "psound True pd 0 sd (for_statement E S) (\<lambda>st n. owner_wf sd st)"
  unfolding for_statement_def
  by (intro ps_intro E_intro block_or_single_sound [THEN ps_bind]) (auto simp: owner_wf_def)

lemma try_catch_sound:
  "psound h pd 0 sd (try_catch S p) (\<lambda>(nm, ss, p) n. \<forall>s \<in> set ss. stmt_wf sd s)"
  unfolding try_catch_def by (intro ps_intro block_sound [THEN ps_bind]) auto

lemma try_finally_sound: "psound h pd 0 sd (try_finally S p) (\<lambda>(ss, p) n. \<forall>s \<in> set ss. stmt_wf sd s)"
  unfolding try_finally_def by (intro ps_intro block_sound [THEN ps_bind]) auto

lemma try_statement_sound: "psound True pd 0 sd (try_statement S) (\<lambda>st n. owner_wf sd st)"
  unfolding try_statement_def
  by (intro ps_intro block_sound [THEN ps_bind] try_catch_sound [THEN ps_bind] try_finally_sound [THEN ps_bind])
    (auto simp: owner_wf_def)

lemma function_decl_sound:
  "(a \<Longrightarrow> h) \<Longrightarrow> psound h pd 0 sd (function_decl S a) (\<lambda>f n. 0 < n \<and> fn_ok type_ok sd f)"
  unfolding function_decl_def
  by (intro ps_intro helper_intro function_start_sound [THEN ps_bind] type_params_sound [THEN ps_bind]
      fn_param_list_sound [THEN ps_bind] block_sound [THEN ps_bind]) (auto simp: fn_ok_def)

lemma local_function_sound:
  "(a \<Longrightarrow> h) \<Longrightarrow> psound h pd 0 sd (local_function_statement S a) (\<lambda>st n. 0 < n \<and> owner_wf sd st)"
  unfolding local_function_statement_def
  by (intro ps_intro function_decl_sound [THEN ps_bind])
    (auto simp: owner_wf_def fn_ok_def stmt_ok_Function)

lemma terminated_sound:
  assumes "psound h pd 0 sd m (\<lambda>st n. Q st)"
  shows "psound h pd 0 sd (terminated_statement m) (\<lambda>st n. Q st)"
  unfolding terminated_statement_def by (intro ps_intro assms [THEN ps_bind]) auto

lemma owner_branches:
  assumes IFS: "\<And>h. sd < MAX_STATEMENT_DEPTH \<Longrightarrow> psound True pd 0 (sd + 1) IFS (\<lambda>st n. owner_wf (sd + 1) st)"
  shows "psound_when (\<lambda>k. k \<in> set BODY_OWNERS) h pd 0 sd (statement_inner E S IFS) (\<lambda>st n. 0 < n \<and> owner_wf sd st)"
  unfolding statement_inner_def
  by (intro psw_match_if psw_check_if psw_weaken [of _ _ _ _ _ "simple_statement E"]
      terminated_sound [OF if_statement_sound [OF IFS], THEN ps_mono]
      terminated_sound [OF while_statement_sound, THEN ps_mono]
      terminated_sound [OF for_statement_sound, THEN ps_mono]
      try_statement_sound [THEN ps_mono] local_function_sound [THEN ps_mono])
    (auto simp: BODY_OWNERS_def plain_def)

end

context expr_parser begin

lemma simple_branches:
  "psound_when (\<lambda>k. k \<notin> set BODY_OWNERS) h pd 0 sd (statement_inner E S IFS) (\<lambda>st n. 0 < n \<and> stmt_wf sd st)"
  unfolding statement_inner_def
  by (intro psw_match_if psw_check_if psw_weaken [of _ _ _ _ _ "simple_statement E"]
      simple_statement_sound jump_statement_sound [THEN ps_mono] ps_intro)
    (auto simp: BODY_OWNERS_def plain_def)

end

context value_parsers begin

lemma statement_body_sound:
  assumes IFS: "sd + 1 < MAX_STATEMENT_DEPTH \<Longrightarrow> psound True pd 0 (sd + 2) IFS (\<lambda>st n. owner_wf (sd + 2) st)"
  shows "psound h pd 0 sd (statement_body E S IFS) (\<lambda>st n. 0 < n \<and> stmt_wf sd st)"
  unfolding statement_body_def
proof (intro psw_peek_if simple_branches psw_with_statement_depth)
  assume d: "sd < MAX_STATEMENT_DEPTH"
  have "psound_when (\<lambda>k. k \<in> set BODY_OWNERS) h pd 0 (sd + 1) (statement_inner E S IFS)
      (\<lambda>st n. 0 < n \<and> owner_wf (sd + 1) st)"
    by (rule body_parsers.owner_branches [OF body [OF d]]) (use IFS in simp)
  then show "psound_when (\<lambda>k. k \<in> set BODY_OWNERS) h pd 0 (sd + 1) (statement_inner E S IFS)
      (\<lambda>st n. 0 < n \<and> stmt_wf sd st)"
    using d by (auto simp: psound_when_def owner_wf_def elim!: wp_mono)
qed

end

end
