(* ===== verification/Parser_Program.thy ===== *)
theory Parser_Program
  imports Parser_Stmt
begin

text \<open>
  The recursive knot of the grammar and the top level of the parser
  (\<open>src/src/parser/mod.rs\<close>). \<open>unary\<close>, \<open>expression\<close>, \<open>statement\<close> and \<open>if_statement\<close> call
  each other; every cycle of calls raises the parse depth or the statement depth, each limited
  to 32 by the code, so \<open>PARSE_FUEL\<close> nested calls are enough for every input. The interface
  locales are interpreted on the parsers so defined.
\<close>

section \<open>The knot\<close>

fun unary_fuel :: "nat \<Rightarrow> expr parser"
  and expression_fuel :: "nat \<Rightarrow> expr parser"
  and statement_fuel :: "nat \<Rightarrow> stmt parser"
  and if_statement_fuel :: "nat \<Rightarrow> stmt parser" where
  "unary_fuel 0 = sfuel"
| "unary_fuel (Suc n) = unary_body (unary_fuel n) (expression_fuel n) (statement_fuel n)"
| "expression_fuel 0 = sfuel"
| "expression_fuel (Suc n) = expression_body (unary_fuel n)"
| "statement_fuel 0 = sfuel"
| "statement_fuel (Suc n) = statement_body (expression_fuel n) (statement_fuel n) (if_statement_fuel n)"
| "if_statement_fuel 0 = sfuel"
| "if_statement_fuel (Suc n) =
     if_statement_body (expression_fuel n) (statement_fuel n) (if_statement_fuel n)"

definition PARSE_FUEL :: nat where
  "PARSE_FUEL = 3 * (MAX_PARSE_DEPTH + MAX_STATEMENT_DEPTH) + 3"

definition unary :: "expr parser" where
  "unary = unary_fuel PARSE_FUEL"

definition expression :: "expr parser" where
  "expression = expression_fuel PARSE_FUEL"

definition statement :: "stmt parser" where
  "statement = statement_fuel PARSE_FUEL"

definition if_statement :: "stmt parser" where
  "if_statement = if_statement_fuel PARSE_FUEL"

text \<open>What is left of the two depth budgets.\<close>

definition budget :: "nat \<Rightarrow> nat \<Rightarrow> nat" where
  "budget pd sd = (MAX_PARSE_DEPTH - pd) + (MAX_STATEMENT_DEPTH - sd)"

lemma budget_Suc:
  "pd < MAX_PARSE_DEPTH \<Longrightarrow> budget pd sd = Suc (budget (Suc pd) sd)"
  "sd < MAX_STATEMENT_DEPTH \<Longrightarrow> budget pd sd = Suc (budget pd (Suc sd))"
  by (auto simp: budget_def)

lemma knot_sound:
  shows "3 * budget pd sd + 2 \<le> n \<Longrightarrow>
      psound h pd 0 sd (unary_fuel n) (\<lambda>e m. 0 < m \<and> expr_wf sd e)"
    and "3 * budget pd sd + 1 \<le> n \<Longrightarrow>
      psound h pd 0 sd (expression_fuel n) (\<lambda>e m. 0 < m \<and> expr_wf sd e \<and> expression_tree_fits e)"
    and "3 * budget pd sd + 2 \<le> n \<Longrightarrow>
      psound h pd 0 sd (statement_fuel n) (\<lambda>st m. 0 < m \<and> stmt_wf sd st)"
    and "3 * budget pd sd + 3 \<le> n \<Longrightarrow>
      psound True pd 0 sd (if_statement_fuel n) (\<lambda>st m. owner_wf sd st)"
proof (induction n arbitrary: pd sd h)
  case 0
  { case 1 then show ?case by simp next
    case 2 then show ?case by simp next
    case 3 then show ?case by simp next
    case 4 then show ?case by simp }
next
  case (Suc n)
  have expr: "expr_parser (expression_fuel n) pd sd" if "3 * budget pd sd + 1 \<le> n" for pd sd
    using Suc.IH(2) that by unfold_locales
  have body: "body_parsers (expression_fuel n) pd sd (statement_fuel n)"
    if "3 * budget pd sd + 2 \<le> n" for pd sd
    using Suc.IH(2,3) that by unfold_locales simp_all
  have val: "value_parsers (expression_fuel n) pd sd (statement_fuel n)"
    if "3 * budget pd sd + 1 \<le> n" for pd sd
    using that by (intro value_parsers.intro value_parsers_axioms.intro expr body) (auto simp: budget_Suc)
  { case 1
    show ?case unfolding unary_fuel.simps
      by (rule value_parsers.unary_body_sound [OF val])
        (use 1 in \<open>auto simp: budget_Suc intro!: Suc.IH(1)\<close>)
  next
    case 2
    show ?case unfolding expression_fuel.simps
      by (rule expression_body_sound) (rule Suc.IH(1), use 2 in \<open>auto simp: budget_Suc\<close>)
  next
    case 3
    show ?case unfolding statement_fuel.simps
      by (rule value_parsers.statement_body_sound [OF val])
        (use 3 in \<open>auto simp: budget_Suc intro!: Suc.IH(4)\<close>)
  next
    case 4
    show ?case unfolding if_statement_fuel.simps
      by (rule body_parsers.if_statement_sound [OF body])
        (use 4 in \<open>auto simp: budget_Suc intro!: Suc.IH(4)\<close>) }
qed

lemma budget_le: "3 * budget pd sd + 3 \<le> PARSE_FUEL"
  by (simp add: budget_def PARSE_FUEL_def)

interpretation expressions: expr_parser expression pd sd for pd sd
  unfolding expression_def
  by unfold_locales (rule knot_sound(2), use budget_le [of pd sd] in simp)

interpretation bodies: body_parsers expression pd sd statement for pd sd
  unfolding statement_def
  by unfold_locales (rule knot_sound(3), use budget_le [of pd sd] in simp)

interpretation func_values: value_parsers expression pd sd statement for pd sd
  by unfold_locales

section \<open>Items\<close>

definition is_valid_namespace :: "ustring \<Rightarrow> bool" where
  "is_valid_namespace name = (case name of [] \<Rightarrow> False | c # _ \<Rightarrow> c = ch CHR ''_'' \<or> is_ascii_alphabetic c)"

definition import_alias :: "ustring option parser" where
  "import_alias = sbind (match_ident_text ''as'') (\<lambda>b.
     if b then
       sbind (consume_ident ''expected import alias'') (\<lambda>(alias, alias_span).
       if \<not> is_valid_namespace alias then sraise (parse_error (lit ''expected import alias'') alias_span)
       else sreturn (Some alias))
     else sreturn None)"

definition import_names :: "import_name list parser" where
  "import_names = sloop ps_rem (\<lambda>names.
     sbind (consume_ident ''expected imported name'') (\<lambda>(name, sp).
     sbind import_alias (\<lambda>alias.
     sbind (match_kind TK_Comma) (\<lambda>comma.
     let names' = names @ [\<lparr>in_source = name, in_alias = alias, in_span = sp\<rparr>] in
     sreturn (if comma then Inl names' else Inr names'))))) []"

definition named_imports :: "import_kind parser" where
  "named_imports =
     sbind (check TK_RBrace) (\<lambda>empty. if empty then
       sbind peek (\<lambda>t. sraise (parse_error (lit (''expected imported name inside '{ }'' @ [CHR 0x27])) (tk_span t)))
     else
       sbind import_names (\<lambda>names.
       sbind (consume TK_RBrace ''expected '}' after imported names'') (\<lambda>_.
       sbind (consume TK_From ''expected 'from' after imported names'') (\<lambda>_.
       sreturn (IK_Named names)))))"

definition namespace_import :: "import_kind parser" where
  "namespace_import =
     sbind (consume_ident ''expected import namespace or path'') (\<lambda>(namespace, sp).
     if \<not> is_valid_namespace namespace then sraise (parse_error (lit ''expected import namespace'') sp)
     else sbind (consume TK_From ''expected 'from' after import namespace'') (\<lambda>_.
          sreturn (IK_Namespace namespace)))"

definition import_kind :: "import_kind parser" where
  "import_kind =
     sbind (match_kind TK_LBrace) (\<lambda>b. if b then named_imports
     else sbind (check (TK_String [])) (\<lambda>b. if b then sreturn IK_Glob
     else sbind (check TK_From) (\<lambda>b. if b then
       sbind peek (\<lambda>t. sraise (parse_error
         (lit (''use 'import '' @ [CHR 0x22] @ ''./xxx.ku'' @ [CHR 0x22, CHR 0x27] @ '' instead of 'import from ''
           @ [CHR 0x22] @ ''./xxx.ku'' @ [CHR 0x22, CHR 0x27])) (tk_span t)))
     else namespace_import)))"

definition import_decl :: "import_decl parser" where
  "import_decl =
     sbind (consume TK_Import (''expected 'import'' @ [CHR 0x27])) (\<lambda>t.
     sbind import_kind (\<lambda>kind.
     sbind (consume_string ''expected import path string'') (\<lambda>(path, path_span).
     sbind optional_semicolon (\<lambda>_.
     sreturn \<lparr>im_kind = kind, im_path = path,
       im_span = Span_new (sp_start (tk_span t)) (sp_end path_span)\<rparr>))))"

definition struct_decl_fields :: "param list parser" where
  "struct_decl_fields = sloop ps_rem (\<lambda>fields.
     sbind (check TK_RBrace) (\<lambda>rbrace. sbind (check TK_Eof) (\<lambda>eof.
     if rbrace \<or> eof then sreturn (Inr fields)
     else
       sbind (consume_ident ''expected struct field name'') (\<lambda>(field_name, field_span).
       sbind (consume TK_Colon ''expected ':' after struct field name'') (\<lambda>_.
       sbind type_name (\<lambda>ty.
       sbind (match_kind TK_Comma) (\<lambda>_.
       sreturn (Inl (fields @ [\<lparr>pa_mode = PM_Owned, pa_name = field_name, pa_ty = Some ty,
         pa_span = field_span\<rparr>]))))))))) []"

definition struct_decl :: "struct_decl parser" where
  "struct_decl =
     sbind (consume TK_Struct (''expected 'struct'' @ [CHR 0x27])) (\<lambda>t.
     sbind (consume_ident ''expected struct name'') (\<lambda>(name, _).
     sbind (consume TK_LBrace ''expected '{' after struct name'') (\<lambda>_.
     sbind struct_decl_fields (\<lambda>fields.
     sbind (consume TK_RBrace ''expected '}' after struct fields'') (\<lambda>e.
     sreturn \<lparr>sd_name = name, sd_fields = fields,
       sd_span = Span_new (sp_start (tk_span t)) (sp_end (tk_span e))\<rparr>)))))"

definition variant_field_list :: "param list parser" where
  "variant_field_list = sbind (check TK_RParen) (\<lambda>empty.
     if empty then sreturn []
     else sloop ps_rem (\<lambda>fields.
       sbind (consume_ident ''expected enum variant field name'') (\<lambda>(field_name, field_span).
       sbind (consume TK_Colon ''expected ':' after variant field name'') (\<lambda>_.
       sbind type_name (\<lambda>ty.
       sbind (match_kind TK_Comma) (\<lambda>comma.
       let fields' = fields @ [\<lparr>pa_mode = PM_Owned, pa_name = field_name, pa_ty = Some ty,
             pa_span = field_span\<rparr>] in
       sreturn (if comma then Inl fields' else Inr fields')))))) [])"

definition variant_fields :: "position \<Rightarrow> (param list \<times> position) parser" where
  "variant_fields end_pos = sbind (match_kind TK_LParen) (\<lambda>lparen.
     if lparen then
       sbind variant_field_list (\<lambda>fields.
       sbind (consume TK_RParen ''expected ')' after enum variant fields'') (\<lambda>t.
       sreturn (fields, sp_end (tk_span t))))
     else sreturn ([], end_pos))"

definition enum_variants :: "enum_variant list parser" where
  "enum_variants = sloop ps_rem (\<lambda>variants.
     sbind (check TK_RBrace) (\<lambda>rbrace. sbind (check TK_Eof) (\<lambda>eof.
     if rbrace \<or> eof then sreturn (Inr variants)
     else
       sbind (consume_ident ''expected enum variant name'') (\<lambda>(variant_name, variant_span).
       sbind (variant_fields (sp_end variant_span)) (\<lambda>(fields, end_pos).
       sbind (match_kind TK_Comma) (\<lambda>_.
       sreturn (Inl (variants @ [\<lparr>ev_name = variant_name, ev_fields = fields,
         ev_span = Span_new (sp_start variant_span) end_pos\<rparr>])))))))) []"

definition enum_decl :: "enum_decl parser" where
  "enum_decl =
     sbind (consume TK_Enum (''expected 'enum'' @ [CHR 0x27])) (\<lambda>t.
     sbind (consume_ident ''expected enum name'') (\<lambda>(name, _).
     sbind (consume TK_LBrace ''expected '{' after enum name'') (\<lambda>_.
     sbind enum_variants (\<lambda>variants.
     sbind (consume TK_RBrace ''expected '}' after enum variants'') (\<lambda>e.
     sreturn \<lparr>ed_name = name, ed_variants = variants,
       ed_span = Span_new (sp_start (tk_span t)) (sp_end (tk_span e))\<rparr>)))))"

definition module_decl :: "module_decl parser" where
  "module_decl =
     sbind (consume TK_Module (''expected 'module'' @ [CHR 0x27])) (\<lambda>t.
     sbind (consume_ident ''expected module name'') (\<lambda>(name, sp).
     sbind optional_semicolon (\<lambda>_.
     sreturn \<lparr>md_name = name, md_span = Span_new (sp_start (tk_span t)) (sp_end sp)\<rparr>)))"

definition item :: "item parser" where
  "item =
     sbind (check TK_Import) (\<lambda>b. if b then sbind import_decl (\<lambda>d. sreturn (It_Import d))
     else sbind (match_kind TK_Async) (\<lambda>b. if b then sbind (function_decl statement True) (\<lambda>d. sreturn (It_Function d))
     else sbind (check TK_Fn) (\<lambda>b. if b then sbind (function_decl statement False) (\<lambda>d. sreturn (It_Function d))
     else sbind (check TK_Struct) (\<lambda>b. if b then sbind struct_decl (\<lambda>d. sreturn (It_Struct d))
     else sbind (check TK_Enum) (\<lambda>b. if b then sbind enum_decl (\<lambda>d. sreturn (It_Enum d))
     else sbind (check TK_Module) (\<lambda>b. if b then sbind module_decl (\<lambda>d. sreturn (It_Module d))
     else sbind (check TK_Return) (\<lambda>b. if b then
       sbind peek (\<lambda>t. sraise (parse_error (lit ''return outside function'') (tk_span t)))
     else sbind peek (\<lambda>t. sraise (parse_error
       (lit ''expected top-level item: import, fn, struct, enum, or module'') (tk_span t))))))))))"

definition items_loop :: "item list parser" where
  "items_loop = sloop ps_rem (\<lambda>items.
     sbind (check TK_Eof) (\<lambda>eof.
     if eof then sreturn (Inr items)
     else sbind item (\<lambda>i. sreturn (Inl (items @ [i]))))) []"

definition parse_program_m :: "program parser" where
  "parse_program_m =
     sbind check_token_stream (\<lambda>_. sbind items_loop (\<lambda>items. sreturn \<lparr>pr_items = items\<rparr>))"

definition parse_expression_only_m :: "expr parser" where
  "parse_expression_only_m =
     sbind check_token_stream (\<lambda>_.
     sbind expression (\<lambda>e.
     sbind (consume TK_Eof ''expected end of expression'') (\<lambda>_. sreturn e)))"

text \<open>What a caller of a fresh parser sees.\<close>

definition run_parser :: "'a parser \<Rightarrow> token list \<Rightarrow> (ku_error, 'a) result" where
  "run_parser m toks = (case m (Parser_new toks) of Inl f \<Rightarrow> Inl f | Inr (x, _) \<Rightarrow> Inr x)"

definition parse_program :: "token list \<Rightarrow> (ku_error, program) result" where
  "parse_program toks = run_parser parse_program_m toks"

definition parse_expression_only :: "token list \<Rightarrow> (ku_error, expr) result" where
  "parse_expression_only toks = run_parser parse_expression_only_m toks"

subsection \<open>Evaluation\<close>

text \<open>Code equations with the state as an argument: a parser is unfolded only when it runs, so the
  nested calls that an input does not reach are never built.\<close>

lemmas parser_code [code] =
  check_def [THEN fun_cong] advance_def [THEN fun_cong] peek_kind_at_def [THEN fun_cong]
  peek_next_kind_def [THEN fun_cong] match_kind_def [THEN fun_cong] optional_semicolon_def [THEN fun_cong]
  consume_def [THEN fun_cong] consume_ident_msg_def [THEN fun_cong] consume_ident_def [THEN fun_cong]
  consume_string_def [THEN fun_cong] match_ident_text_def [THEN fun_cong]
  enter_parse_depth_def [THEN fun_cong] leave_parse_depth_def [THEN fun_cong]
  with_statement_depth_def [THEN fun_cong] with_type_parse_depth_def [THEN fun_cong]
  ensure_type_depth_def [THEN fun_cong] check_token_stream_def [THEN fun_cong]
  parameter_mode_def [THEN fun_cong] finish_type_name_def [THEN fun_cong]
  function_type_params_def [THEN fun_cong] function_type_def [THEN fun_cong]
  custom_type_name_def [THEN fun_cong, THEN fun_cong] type_atom_def [THEN fun_cong]
  type_name_body_def [THEN fun_cong] type_name_def [THEN fun_cong] sc_get_def [THEN fun_cong]
  sc_is_def [THEN fun_cong] sc_is_ident_def [THEN fun_cong] sc_step_def [THEN fun_cong]
  scan_function_params_def [THEN fun_cong] scan_function_type_def [THEN fun_cong]
  scan_dotted_def [THEN fun_cong] scan_type_atom_def [THEN fun_cong] scan_type_rest_def [THEN fun_cong]
  scan_type_body_def [THEN fun_cong] scan_type_def [THEN fun_cong, THEN fun_cong, THEN fun_cong]
  scan_arrow_type_def [THEN fun_cong] scan_arrow_type_or_def [THEN fun_cong]
  scan_colon_type_def [THEN fun_cong] scan_arrow_params_def [THEN fun_cong]
  scan_arrow_function_def [THEN fun_cong] is_arrow_function_start_def [THEN fun_cong]
  pattern_path_def [THEN fun_cong]
  push_frame_def [THEN fun_cong, THEN fun_cong, THEN fun_cong, THEN fun_cong]
  pattern_payload_def [THEN fun_cong] pattern_name_def [THEN fun_cong] pattern_start_def [THEN fun_cong]
  pattern_step_def [THEN fun_cong] match_pattern_def [THEN fun_cong]
  check_expression_chain_def [THEN fun_cong] binary_level_def [THEN fun_cong] factor_def [THEN fun_cong]
  term_expr_def [THEN fun_cong] comparison_def [THEN fun_cong] equality_def [THEN fun_cong]
  and_expr_def [THEN fun_cong] or_expr_def [THEN fun_cong] expression_body_def [THEN fun_cong]
  is_struct_literal_after_lbrace_def [THEN fun_cong] reject_call_site_ampersand_def [THEN fun_cong]
  call_args_def [THEN fun_cong] struct_fields_def [THEN fun_cong] finish_struct_literal_def [THEN fun_cong]
  postfix_struct_def [THEN fun_cong] postfix_step_def [THEN fun_cong] finish_call_def [THEN fun_cong]
  block_statements_def [THEN fun_cong] block_def [THEN fun_cong] arrow_body_def [THEN fun_cong]
  optional_type_def [THEN fun_cong] function_value_params_def [THEN fun_cong]
  arrow_function_def [THEN fun_cong] anonymous_function_def [THEN fun_cong] array_values_def [THEN fun_cong]
  array_literal_def [THEN fun_cong] object_fields_def [THEN fun_cong] object_literal_def [THEN fun_cong]
  match_guard_def [THEN fun_cong] match_arms_def [THEN fun_cong] match_expression_def [THEN fun_cong]
  name_arrow_def [THEN fun_cong] primary_name_def [THEN fun_cong] primary_atom_def [THEN fun_cong]
  ampersand_error_def [THEN fun_cong] primary_def [THEN fun_cong] call_expr_def [THEN fun_cong]
  deeper_def [THEN fun_cong] unary_body_def [THEN fun_cong] fn_param_list_def [THEN fun_cong]
  type_param_names_def [THEN fun_cong] type_params_def [THEN fun_cong] function_start_def [THEN fun_cong]
  function_decl_def [THEN fun_cong] block_or_single_statement_def [THEN fun_cong]
  else_branch_def [THEN fun_cong] if_statement_body_def [THEN fun_cong] while_statement_def [THEN fun_cong]
  for_statement_def [THEN fun_cong] try_catch_def [THEN fun_cong] try_finally_def [THEN fun_cong]
  try_statement_def [THEN fun_cong] local_function_statement_def [THEN fun_cong]
  terminated_statement_def [THEN fun_cong] return_value_def [THEN fun_cong]
  return_statement_def [THEN fun_cong] fail_statement_def [THEN fun_cong]
  panic_statement_def [THEN fun_cong] print_value_def [THEN fun_cong] print_stmt_def [THEN fun_cong]
  increment_statement_def [THEN fun_cong] match_compound_assignment_op_def [THEN fun_cong]
  is_destructure_assignment_start_def [THEN fun_cong] destructure_names_def [THEN fun_cong]
  destructure_values_def [THEN fun_cong] destructure_assignment_statement_def [THEN fun_cong]
  is_object_destructure_assignment_start_def [THEN fun_cong] object_rest_def [THEN fun_cong]
  binding_local_def [THEN fun_cong] binding_default_def [THEN fun_cong] object_binding_def [THEN fun_cong]
  object_bindings_def [THEN fun_cong] object_destructure_assignment_statement_def [THEN fun_cong]
  declared_value_def [THEN fun_cong] typed_declaration_def [THEN fun_cong] assignment_def [THEN fun_cong]
  compound_assignment_def [THEN fun_cong] expression_tail_def [THEN fun_cong]
  assignment_or_expression_def [THEN fun_cong] expression_or_assignment_statement_def [THEN fun_cong]
  simple_statement_def [THEN fun_cong] jump_statement_def [THEN fun_cong]
  statement_inner_def [THEN fun_cong] statement_body_def [THEN fun_cong] unary_def [THEN fun_cong]
  expression_def [THEN fun_cong] statement_def [THEN fun_cong] if_statement_def [THEN fun_cong]
  import_alias_def [THEN fun_cong] import_names_def [THEN fun_cong] named_imports_def [THEN fun_cong]
  namespace_import_def [THEN fun_cong] import_kind_def [THEN fun_cong] import_decl_def [THEN fun_cong]
  struct_decl_fields_def [THEN fun_cong] struct_decl_def [THEN fun_cong]
  variant_field_list_def [THEN fun_cong] variant_fields_def [THEN fun_cong]
  enum_variants_def [THEN fun_cong] enum_decl_def [THEN fun_cong] module_decl_def [THEN fun_cong]
  item_def [THEN fun_cong] items_loop_def [THEN fun_cong] parse_program_m_def [THEN fun_cong]
  parse_expression_only_m_def [THEN fun_cong] sloop_fuel.simps [THEN fun_cong]
  match_any.simps [THEN fun_cong] pattern_complete.simps [THEN fun_cong]
  type_name_fuel.simps [THEN fun_cong] scan_type_fuel.simps [THEN fun_cong] unary_fuel.simps [THEN fun_cong]
  expression_fuel.simps [THEN fun_cong] statement_fuel.simps [THEN fun_cong]
  if_statement_fuel.simps [THEN fun_cong]

section \<open>Well-formed programs\<close>

definition params_ok :: "param list \<Rightarrow> bool" where
  "params_ok ps \<longleftrightarrow> (\<forall>p \<in> set ps. opt_all type_ok (pa_ty p))"

definition import_ok :: "import_decl \<Rightarrow> bool" where
  "import_ok d = (case im_kind d of
       IK_Namespace n \<Rightarrow> is_valid_namespace n
     | IK_Named ns \<Rightarrow> ns \<noteq> [] \<and> (\<forall>n \<in> set ns. opt_all is_valid_namespace (in_alias n))
     | IK_Glob \<Rightarrow> True)"

fun item_ok :: "item \<Rightarrow> bool" where
  "item_ok (It_Import d) = import_ok d"
| "item_ok (It_Function f) = fn_ok type_ok 0 f"
| "item_ok (It_Struct d) = params_ok (sd_fields d)"
| "item_ok (It_Enum d) = (\<forall>v \<in> set (ed_variants d). params_ok (ev_fields v))"
| "item_ok (It_Module d) = True"

definition program_ok :: "program \<Rightarrow> bool" where
  "program_ok p \<longleftrightarrow> (\<forall>i \<in> set (pr_items p). item_ok i)"

lemma import_alias_sound: "psound h pd td sd import_alias (\<lambda>a n. opt_all is_valid_namespace a)"
  unfolding import_alias_def by (intro ps_intro) auto

lemma import_names_sound:
  "psound h pd td sd import_names
     (\<lambda>ns n. ns \<noteq> [] \<and> (\<forall>x \<in> set ns. opt_all is_valid_namespace (in_alias x)))"
  unfolding import_names_def
  by (intro ps_intro import_alias_sound [THEN ps_bind]
      ps_loop [where I = "\<lambda>ns n. \<forall>x \<in> set ns. opt_all is_valid_namespace (in_alias x)"])
    (auto split: sum.splits)

definition import_kind_ok :: "import_kind \<Rightarrow> bool" where
  "import_kind_ok k = import_ok \<lparr>im_kind = k, im_path = [], im_span = Span_default\<rparr>"

lemma import_kind_sound: "psound h pd td sd import_kind (\<lambda>k n. import_kind_ok k)"
  unfolding import_kind_def named_imports_def namespace_import_def
  by (intro ps_intro import_names_sound [THEN ps_bind]) (auto simp: import_kind_ok_def import_ok_def)

lemma import_decl_sound: "psound h pd td sd import_decl (\<lambda>d n. 0 < n \<and> import_ok d)"
  unfolding import_decl_def
  by (intro ps_intro import_kind_sound [THEN ps_bind]) (auto simp: import_kind_ok_def import_ok_def)

lemma struct_decl_fields_sound: "psound h pd 0 sd struct_decl_fields (\<lambda>ps n. params_ok ps)"
  unfolding struct_decl_fields_def
  by (intro ps_intro ps_loop [where I = "\<lambda>ps n. params_ok ps"]) (auto simp: params_ok_def)

lemma struct_decl_sound: "psound h pd 0 sd struct_decl (\<lambda>d n. 0 < n \<and> params_ok (sd_fields d))"
  unfolding struct_decl_def by (intro ps_intro struct_decl_fields_sound [THEN ps_bind]) auto

lemma variant_field_list_sound: "psound h pd 0 sd variant_field_list (\<lambda>ps n. params_ok ps)"
  unfolding variant_field_list_def
  by (intro ps_intro ps_loop [where I = "\<lambda>ps n. params_ok ps"]) (auto simp: params_ok_def split: sum.splits)

lemma variant_fields_sound: "psound h pd 0 sd (variant_fields p) (\<lambda>(ps, p) n. params_ok ps)"
  unfolding variant_fields_def
  by (intro ps_intro variant_field_list_sound [THEN ps_bind]) (auto simp: params_ok_def)

lemma enum_variants_sound:
  "psound h pd 0 sd enum_variants (\<lambda>vs n. \<forall>v \<in> set vs. params_ok (ev_fields v))"
  unfolding enum_variants_def
  by (intro ps_intro variant_fields_sound [THEN ps_bind]
      ps_loop [where I = "\<lambda>vs n. \<forall>v \<in> set vs. params_ok (ev_fields v)"]) auto

lemma enum_decl_sound:
  "psound h pd 0 sd enum_decl (\<lambda>d n. 0 < n \<and> (\<forall>v \<in> set (ed_variants d). params_ok (ev_fields v)))"
  unfolding enum_decl_def by (intro ps_intro enum_variants_sound [THEN ps_bind]) auto

lemma module_decl_sound: "psound h pd td sd module_decl (\<lambda>d n. 0 < n)"
  unfolding module_decl_def by (intro ps_intro) auto

lemma item_sound: "psound h 0 0 0 item (\<lambda>i n. 0 < n \<and> item_ok i)"
  unfolding item_def
  by (intro ps_intro import_decl_sound [THEN ps_bind] struct_decl_sound [THEN ps_bind]
      enum_decl_sound [THEN ps_bind] module_decl_sound [THEN ps_bind]
      bodies.function_decl_sound [THEN ps_bind]) auto

lemma items_loop_sound: "psound h 0 0 0 items_loop (\<lambda>is n. \<forall>i \<in> set is. item_ok i)"
  unfolding items_loop_def
  by (intro ps_intro item_sound [THEN ps_bind] ps_loop [where I = "\<lambda>is n. \<forall>i \<in> set is. item_ok i"]) auto

section \<open>Running a parser\<close>

lemma check_token_stream_error:
  "check_token_stream s = Inl f \<Longrightarrow> \<exists>e. f = Raise e \<and> ke_kind e = KE_Parse"
  by (auto simp: check_token_stream_def sbind_def sget_def sraise_def sreturn_def
      split: if_splits option.splits)

text \<open>A parser that is sound on every stream the check admits never panics and never runs out of fuel.\<close>

lemma run_checked:
  assumes "psound False 0 0 0 m (\<lambda>x n. R x)"
  shows "(\<exists>x. run_parser (sbind check_token_stream (\<lambda>_. m)) toks = Inr x \<and> R x)
    \<or> (\<exists>e. run_parser (sbind check_token_stream (\<lambda>_. m)) toks = Inl (Raise e) \<and> ke_kind e = KE_Parse)"
proof (cases "check_token_stream (Parser_new toks)")
  case (Inl f)
  then show ?thesis using check_token_stream_error [OF Inl] by (auto simp: run_parser_def sbind_def)
next
  case (Inr r)
  obtain u s where "r = (u, s)" by (cases r)
  with Inr have c: "check_token_stream (Parser_new toks) = Inr (u, s)" by simp
  from check_token_stream_Inr [OF c]
  have s: "s = Parser_new toks" and "stream_ok toks" by (auto simp: Parser_new_def)
  then have "ps_wf s" by (auto simp: ps_wf_def Parser_new_def stream_ok_def)
  then have "wp (\<lambda>e. ke_kind e = KE_Parse) m (\<lambda>x s'. ps_ext s s' \<and> R x) s"
    using psoundD [OF assms, of s] s by (simp add: Parser_new_def)
  then show ?thesis using c
    by (auto simp: run_parser_def sbind_def wp_def split: sum.splits prod.splits fault.splits)
qed

lemma parse_program_result:
  "(\<exists>p. parse_program toks = Inr p \<and> program_ok p)
   \<or> (\<exists>e. parse_program toks = Inl (Raise e) \<and> ke_kind e = KE_Parse)"
  unfolding parse_program_def parse_program_m_def
  by (intro run_checked items_loop_sound [THEN ps_bind] ps_return) (simp add: program_ok_def)

text \<open>C1: For every token sequence the program parser returns: it neither panics (no token index
  is out of range) nor recurses without bound, it reports only parse errors, and a program it
  accepts is well-formed: every type nests at most 32 levels deep and every body-owning statement
  and function value sits at a statement depth below 32.\<close>

theorem parse_program_total:
  "(\<exists>p. parse_program toks = Inr p \<and> program_ok p)
   \<or> (\<exists>e. parse_program toks = Inl (Raise e) \<and> ke_kind e = KE_Parse)"
  by (rule parse_program_result)

lemma parse_expression_only_result:
  "(\<exists>e. parse_expression_only toks = Inr e \<and> expression_tree_fits e \<and> expr_wf 0 e)
   \<or> (\<exists>x. parse_expression_only toks = Inl (Raise x) \<and> ke_kind x = KE_Parse)"
proof -
  have "psound False 0 0 0 (sbind expression (\<lambda>e.
      sbind (consume TK_Eof ''expected end of expression'') (\<lambda>_. sreturn e)))
      (\<lambda>e n. expression_tree_fits e \<and> expr_wf 0 e)"
    by (intro ps_intro expressions.E_intro consume_eof_sound [THEN ps_bind]) auto
  then show ?thesis unfolding parse_expression_only_def parse_expression_only_m_def
    by (rule run_checked)
qed


end
