(* ===== verification/Worklist.thy ===== *)
theory Worklist
  imports Prelude
begin

text \<open>
  Explicit worklists and iterators. The repository replaces recursion over syntax trees by
  loops over a stack of pending nodes: popping a node may fail, may emit output and pushes the
  node's parts. \<open>worklist_fuel\<close> is that loop; the locale \<open>worklist\<close> states what makes it
  end and what a recursive traversal of one node yields, and shows once that the loop computes
  the recursive traversal. The locale \<open>stream_iterator\<close> states what an \<open>Iterator\<close>
  implementation promises: it enumerates a list.
\<close>

section \<open>The loop\<close>

text \<open>The stack is a list whose head is its top.\<close>

fun worklist_fuel ::
    "nat \<Rightarrow> ('n \<Rightarrow> 'e + ('o list \<times> 'n list)) \<Rightarrow> 'n list \<Rightarrow> ('e + 'o list) option" where
  "worklist_fuel 0 step ps = None"
| "worklist_fuel (Suc n) step [] = Some (Inr [])"
| "worklist_fuel (Suc n) step (p # ps) = (case step p of
       Inl e \<Rightarrow> Some (Inl e)
     | Inr (out, qs) \<Rightarrow> map_option (map_sum id (\<lambda>rest. out @ rest)) (worklist_fuel n step (qs @ ps)))"

text \<open>Recursive traversals combine the results of their parts from left to right.\<close>

fun seq_result :: "'e + 'o list \<Rightarrow> 'e + 'o list \<Rightarrow> 'e + 'o list" where
  "seq_result (Inl e) r = Inl e"
| "seq_result (Inr xs) r = map_sum id (\<lambda>ys. xs @ ys) r"

primrec seq_map :: "('n \<Rightarrow> 'e + 'o list) \<Rightarrow> 'n list \<Rightarrow> 'e + 'o list" where
  "seq_map f [] = Inr []"
| "seq_map f (p # ps) = seq_result (f p) (seq_map f ps)"

lemma seq_map_cong [fundef_cong]:
  "xs = ys \<Longrightarrow> (\<And>x. x \<in> set ys \<Longrightarrow> f x = g x) \<Longrightarrow> seq_map f xs = seq_map g ys"
  by (induction ys arbitrary: xs) auto

lemma seq_result_assoc: "seq_result (seq_result a b) c = seq_result a (seq_result b c)"
  by (cases a; cases b; cases c) auto

lemma seq_result_Inr_Nil: "seq_result (Inr []) r = r" "seq_result r (Inr []) = r"
  by (cases r; simp)+

lemma map_sum_append_Nil [simp]: "map_sum id ((@) []) r = r"
  using seq_result_Inr_Nil(1) by simp

lemma seq_map_append: "seq_map f (xs @ ys) = seq_result (seq_map f xs) (seq_map f ys)"
  by (induction xs) (auto simp: seq_result_assoc)

lemma seq_result_Inr_iff: "seq_result a b = Inr zs \<longleftrightarrow> (\<exists>xs ys. a = Inr xs \<and> b = Inr ys \<and> zs = xs @ ys)"
  by (cases a; cases b) auto

locale worklist =
  fixes step :: "'n \<Rightarrow> 'e + ('o list \<times> 'n list)"
    and weight :: "'n \<Rightarrow> nat"
    and traverse :: "'n \<Rightarrow> 'e + 'o list"
  assumes step_weight: "step p = Inr (out, qs) \<Longrightarrow> sum_list (map weight qs) < weight p"
    and step_traverse: "traverse p = (case step p of
        Inl e \<Rightarrow> Inl e | Inr (out, qs) \<Rightarrow> seq_result (Inr out) (seq_map traverse qs))"
begin

lemma run:
  "sum_list (map weight ps) < n \<Longrightarrow> worklist_fuel n step ps = Some (seq_map traverse ps)"
proof (induction n arbitrary: ps)
  case 0
  then show ?case by simp
next
  case (Suc n)
  show ?case
  proof (cases ps)
    case Nil
    then show ?thesis by simp
  next
    case (Cons p ps')
    show ?thesis
    proof (cases "step p")
      case (Inl e)
      then show ?thesis using Cons by (simp add: step_traverse [of p])
    next
      case (Inr r)
      obtain out qs where r: "r = (out, qs)" by (cases r)
      have "sum_list (map weight (qs @ ps')) < n"
        using Suc.prems Cons step_weight [of p out qs] Inr r by simp
      then have "worklist_fuel n step (qs @ ps') = Some (seq_map traverse (qs @ ps'))"
        by (rule Suc.IH)
      moreover have "traverse p = seq_result (Inr out) (seq_map traverse qs)"
        using step_traverse [of p] Inr r by simp
      ultimately show ?thesis using Cons Inr r
        by (simp add: seq_map_append seq_result_assoc del: seq_result.simps)
          (simp add: seq_result.simps)
    qed
  qed
qed

end

section \<open>Iterators\<close>

locale stream_iterator =
  fixes advance_iter :: "'s \<Rightarrow> 'a option \<times> 's"
    and upcoming :: "'s \<Rightarrow> 'a list"
  assumes advance_Nil: "upcoming s = [] \<Longrightarrow> fst (advance_iter s) = None"
    and advance_Cons: "upcoming s = x # xs \<Longrightarrow> fst (advance_iter s) = Some x"
    and advance_tl: "upcoming s = x # xs \<Longrightarrow> upcoming (snd (advance_iter s)) = xs"
begin

lemma advance_None_iff: "fst (advance_iter s) = None \<longleftrightarrow> upcoming s = []"
  by (cases "upcoming s") (auto simp: advance_Nil advance_Cons)

lemma advance_SomeE:
  assumes "fst (advance_iter s) = Some x"
  shows "upcoming s = x # upcoming (snd (advance_iter s))"
  using assms by (cases "upcoming s") (auto simp: advance_Nil advance_Cons advance_tl)

end

end
