(* ===== verification/Checker_Depth.thy ===== *)
theory Checker_Depth
  imports Worklist Parser_Expr
begin

text \<open>
  The checker's bound on nested statement bodies (\<open>src/src/checker/statement_depth.rs\<close>): a
  loop over a stack of pending slices and nodes. The reference is the recursive depth-first
  traversal \<open>depth_expr\<close>, \<open>depth_stmt\<close>; the loop reports exactly the violation that the
  traversal meets first, and accepts exactly the trees that respect the bound.
\<close>

section \<open>The loop\<close>

datatype (plugins only: code size) pending =
    P_Statements "stmt list" nat
  | P_Statement stmt nat
  | P_Expression expr nat
  | P_Expressions "expr list" nat
  | P_Fields "(ustring \<times> expr) list" nat
  | P_Bindings "object_binding list" nat
  | P_Arms "match_arm list" nat
  | P_Target assign_target nat

definition check_depth_error :: "span \<Rightarrow> ku_error" where
  "check_depth_error sp = runtime_error (lit ''maximum check depth exceeded; statement body is too deeply nested'') sp"

definition enter :: "nat \<Rightarrow> span \<Rightarrow> ku_error + nat" where
  "enter depth sp = (if MAX_STATEMENT_DEPTH \<le> depth then Inl (check_depth_error sp) else Inr (depth + 1))"

text \<open>The nodes a popped node pushes, the next one to be popped first.\<close>

definition entered :: "nat \<Rightarrow> span \<Rightarrow> (nat \<Rightarrow> pending list) \<Rightarrow> ku_error + (unit list \<times> pending list)" where
  "entered depth sp push = map_sum id (\<lambda>d. ([], push d)) (enter depth sp)"

definition pushed :: "pending list \<Rightarrow> ku_error + (unit list \<times> pending list)" where
  "pushed qs = Inr ([], qs)"

definition opt_pending :: "expr option \<Rightarrow> nat \<Rightarrow> pending list" where
  "opt_pending e depth = (case e of None \<Rightarrow> [] | Some e \<Rightarrow> [P_Expression e depth])"

fun check_statement :: "stmt \<Rightarrow> nat \<Rightarrow> ku_error + (unit list \<times> pending list)" where
  "check_statement (St_If c t e sp) depth =
     entered depth sp (\<lambda>d. [P_Expression c d, P_Statements t d, P_Statements e d])"
| "check_statement (St_While c b sp) depth = entered depth sp (\<lambda>d. [P_Expression c d, P_Statements b d])"
| "check_statement (St_For n i b sp) depth = entered depth sp (\<lambda>d. [P_Expression i d, P_Statements b d])"
| "check_statement (St_Try b cn cb fb sp) depth =
     entered depth sp (\<lambda>d. [P_Statements b d, P_Statements cb d, P_Statements fb d])"
| "check_statement (St_Function (FnDecl n a tp ps rt b sp)) depth = entered depth sp (\<lambda>d. [P_Statements b d])"
| "check_statement (St_VarDecl n m ty v sp) depth = pushed [P_Expression v depth]"
| "check_statement (St_Assign n v sp) depth = pushed [P_Expression v depth]"
| "check_statement (St_Fail v sp) depth = pushed [P_Expression v depth]"
| "check_statement (St_Panic v sp) depth = pushed [P_Expression v depth]"
| "check_statement (St_Print v sp) depth = pushed [P_Expression v depth]"
| "check_statement (St_AssignTarget t v sp) depth = pushed [P_Target t depth, P_Expression v depth]"
| "check_statement (St_CompoundAssign t op v sp) depth = pushed [P_Target t depth, P_Expression v depth]"
| "check_statement (St_DestructureAssign ns vs sp) depth = pushed [P_Expressions vs depth]"
| "check_statement (St_ObjectDestructureAssign bs r v sp) depth =
     pushed [P_Bindings bs depth, P_Expression v depth]"
| "check_statement (St_Return v sp) depth = pushed (opt_pending v depth)"
| "check_statement (St_Expr e sp) depth = pushed [P_Expression e depth]"
| "check_statement (St_Break sp) depth = pushed []"
| "check_statement (St_Continue sp) depth = pushed []"

fun check_expression :: "expr \<Rightarrow> nat \<Rightarrow> ku_error + (unit list \<times> pending list)" where
  "check_expression (Expr_new (EK_Function ps rt b) sp) depth = entered depth sp (\<lambda>d. [P_Statements b d])"
| "check_expression (Expr_new (EK_Unary op e) sp) depth = pushed [P_Expression e depth]"
| "check_expression (Expr_new (EK_Await e) sp) depth = pushed [P_Expression e depth]"
| "check_expression (Expr_new (EK_TryUnwrap e) sp) depth = pushed [P_Expression e depth]"
| "check_expression (Expr_new (EK_Binary l op r) sp) depth = pushed [P_Expression l depth, P_Expression r depth]"
| "check_expression (Expr_new (EK_Call f as) sp) depth = pushed [P_Expression f depth, P_Expressions as depth]"
| "check_expression (Expr_new (EK_Array vs) sp) depth = pushed [P_Expressions vs depth]"
| "check_expression (Expr_new (EK_Index t i) sp) depth = pushed [P_Expression t depth, P_Expression i depth]"
| "check_expression (Expr_new (EK_Field t x) sp) depth = pushed [P_Expression t depth]"
| "check_expression (Expr_new (EK_OptionalField t x) sp) depth = pushed [P_Expression t depth]"
| "check_expression (Expr_new (EK_StructLiteral n fs) sp) depth = pushed [P_Fields fs depth]"
| "check_expression (Expr_new (EK_ObjectLiteral fs) sp) depth = pushed [P_Fields fs depth]"
| "check_expression (Expr_new (EK_Match v arms) sp) depth = pushed [P_Expression v depth, P_Arms arms depth]"
| "check_expression (Expr_new (EK_Literal l) sp) depth = pushed []"
| "check_expression (Expr_new (EK_Variable x) sp) depth = pushed []"

fun check_step :: "pending \<Rightarrow> ku_error + (unit list \<times> pending list)" where
  "check_step (P_Statements [] depth) = pushed []"
| "check_step (P_Statements (s # ss) depth) = pushed [P_Statement s depth, P_Statements ss depth]"
| "check_step (P_Expressions [] depth) = pushed []"
| "check_step (P_Expressions (e # es) depth) = pushed [P_Expression e depth, P_Expressions es depth]"
| "check_step (P_Fields [] depth) = pushed []"
| "check_step (P_Fields ((x, v) # fs) depth) = pushed [P_Expression v depth, P_Fields fs depth]"
| "check_step (P_Bindings [] depth) = pushed []"
| "check_step (P_Bindings (ObjectBinding f l df sp # bs) depth) =
     pushed (opt_pending df depth @ [P_Bindings bs depth])"
| "check_step (P_Arms [] depth) = pushed []"
| "check_step (P_Arms (MatchArm p g v sp # as) depth) =
     pushed (opt_pending g depth @ [P_Expression v depth, P_Arms as depth])"
| "check_step (P_Target (AT_Variable x) depth) = pushed []"
| "check_step (P_Target (AT_Field t x) depth) = pushed [P_Expression t depth]"
| "check_step (P_Target (AT_Index t i) depth) = pushed [P_Expression t depth, P_Expression i depth]"
| "check_step (P_Statement s depth) = check_statement s depth"
| "check_step (P_Expression e depth) = check_expression e depth"

text \<open>Every pop lowers the total weight of the stack.\<close>

fun pending_weight :: "pending \<Rightarrow> nat" where
  "pending_weight (P_Statements ss d) = 4 * size_list size ss + 1"
| "pending_weight (P_Statement s d) = 4 * size s + 1"
| "pending_weight (P_Expression e d) = 4 * size e + 1"
| "pending_weight (P_Expressions es d) = 4 * size_list size es + 1"
| "pending_weight (P_Fields fs d) = 4 * size_list (size_prod (\<lambda>_. 0) size) fs + 1"
| "pending_weight (P_Bindings bs d) = 4 * size_list size bs + 1"
| "pending_weight (P_Arms as d) = 4 * size_list size as + 1"
| "pending_weight (P_Target t d) = 4 * size t + 1"

definition check_body :: "stmt list \<Rightarrow> (ku_error + unit list) option" where
  "check_body body = worklist_fuel (pending_weight (P_Statements body 0) + 1) check_step [P_Statements body 0]"

fun check_items :: "item list \<Rightarrow> (ku_error + unit list) option" where
  "check_items [] = Some (Inr [])"
| "check_items (It_Function f # is) = (case check_body (fn_body f) of
       Some (Inr _) \<Rightarrow> check_items is
     | r \<Rightarrow> r)"
| "check_items (_ # is) = check_items is"

definition statement_depth_check :: "program \<Rightarrow> (ku_error + unit list) option" where
  "statement_depth_check p = check_items (pr_items p)"

section \<open>The recursive traversal\<close>

definition enter_verdict :: "nat \<Rightarrow> span \<Rightarrow> ku_error + unit list" where
  "enter_verdict d sp = (if MAX_STATEMENT_DEPTH \<le> d then Inl (check_depth_error sp) else Inr [])"

abbreviation opt_seq :: "('a \<Rightarrow> 'e + 'o list) \<Rightarrow> 'a option \<Rightarrow> 'e + 'o list" where
  "opt_seq f x \<equiv> (case x of None \<Rightarrow> Inr [] | Some y \<Rightarrow> f y)"

fun depth_expr :: "nat \<Rightarrow> expr \<Rightarrow> ku_error + unit list"
  and depth_kind :: "nat \<Rightarrow> span \<Rightarrow> expr_kind \<Rightarrow> ku_error + unit list"
  and depth_stmt :: "nat \<Rightarrow> stmt \<Rightarrow> ku_error + unit list"
  and depth_target :: "nat \<Rightarrow> assign_target \<Rightarrow> ku_error + unit list" where
  "depth_expr d (Expr_new k sp) = depth_kind d sp k"
| "depth_kind d sp (EK_Literal l) = Inr []"
| "depth_kind d sp (EK_Variable x) = Inr []"
| "depth_kind d sp (EK_Unary op e) = depth_expr d e"
| "depth_kind d sp (EK_Await e) = depth_expr d e"
| "depth_kind d sp (EK_TryUnwrap e) = depth_expr d e"
| "depth_kind d sp (EK_Field e x) = depth_expr d e"
| "depth_kind d sp (EK_OptionalField e x) = depth_expr d e"
| "depth_kind d sp (EK_Binary l op r) = seq_result (depth_expr d l) (depth_expr d r)"
| "depth_kind d sp (EK_Index t i) = seq_result (depth_expr d t) (depth_expr d i)"
| "depth_kind d sp (EK_Call f as) = seq_result (depth_expr d f) (seq_map (depth_expr d) as)"
| "depth_kind d sp (EK_Array vs) = seq_map (depth_expr d) vs"
| "depth_kind d sp (EK_StructLiteral n fs) = seq_map (\<lambda>(x, v). depth_expr d v) fs"
| "depth_kind d sp (EK_ObjectLiteral fs) = seq_map (\<lambda>(x, v). depth_expr d v) fs"
| "depth_kind d sp (EK_Match v arms) =
     seq_result (depth_expr d v) (seq_map (\<lambda>a. case a of MatchArm p g e s \<Rightarrow>
       seq_result (opt_seq (depth_expr d) g) (depth_expr d e)) arms)"
| "depth_kind d sp (EK_Function ps rt b) = seq_result (enter_verdict d sp) (seq_map (depth_stmt (d + 1)) b)"
| "depth_stmt d (St_VarDecl n m ty v s) = depth_expr d v"
| "depth_stmt d (St_Assign n v s) = depth_expr d v"
| "depth_stmt d (St_Fail v s) = depth_expr d v"
| "depth_stmt d (St_Panic v s) = depth_expr d v"
| "depth_stmt d (St_Print v s) = depth_expr d v"
| "depth_stmt d (St_Expr v s) = depth_expr d v"
| "depth_stmt d (St_AssignTarget t v s) = seq_result (depth_target d t) (depth_expr d v)"
| "depth_stmt d (St_CompoundAssign t op v s) = seq_result (depth_target d t) (depth_expr d v)"
| "depth_stmt d (St_DestructureAssign ns vs s) = seq_map (depth_expr d) vs"
| "depth_stmt d (St_ObjectDestructureAssign bs r v s) =
     seq_result (seq_map (\<lambda>b. case b of ObjectBinding f l df sp \<Rightarrow> opt_seq (depth_expr d) df) bs) (depth_expr d v)"
| "depth_stmt d (St_If c t e s) = seq_result (enter_verdict d s) (seq_result (depth_expr (d + 1) c)
     (seq_result (seq_map (depth_stmt (d + 1)) t) (seq_map (depth_stmt (d + 1)) e)))"
| "depth_stmt d (St_While c b s) = seq_result (enter_verdict d s)
     (seq_result (depth_expr (d + 1) c) (seq_map (depth_stmt (d + 1)) b))"
| "depth_stmt d (St_For n i b s) = seq_result (enter_verdict d s)
     (seq_result (depth_expr (d + 1) i) (seq_map (depth_stmt (d + 1)) b))"
| "depth_stmt d (St_Function (FnDecl n a tp ps rt b sp)) =
     seq_result (enter_verdict d sp) (seq_map (depth_stmt (d + 1)) b)"
| "depth_stmt d (St_Try b cn cb fb s) = seq_result (enter_verdict d s)
     (seq_result (seq_map (depth_stmt (d + 1)) b)
       (seq_result (seq_map (depth_stmt (d + 1)) cb) (seq_map (depth_stmt (d + 1)) fb)))"
| "depth_stmt d (St_Return v s) = opt_seq (depth_expr d) v"
| "depth_stmt d (St_Break s) = Inr []"
| "depth_stmt d (St_Continue s) = Inr []"
| "depth_target d (AT_Variable x) = Inr []"
| "depth_target d (AT_Field t x) = depth_expr d t"
| "depth_target d (AT_Index t i) = seq_result (depth_expr d t) (depth_expr d i)"

fun depth_pending :: "pending \<Rightarrow> ku_error + unit list" where
  "depth_pending (P_Statements ss d) = seq_map (depth_stmt d) ss"
| "depth_pending (P_Statement s d) = depth_stmt d s"
| "depth_pending (P_Expression e d) = depth_expr d e"
| "depth_pending (P_Expressions es d) = seq_map (depth_expr d) es"
| "depth_pending (P_Fields fs d) = seq_map (\<lambda>(x, v). depth_expr d v) fs"
| "depth_pending (P_Bindings bs d) =
     seq_map (\<lambda>b. case b of ObjectBinding f l df sp \<Rightarrow> opt_seq (depth_expr d) df) bs"
| "depth_pending (P_Arms as d) = seq_map (\<lambda>a. case a of MatchArm p g e s \<Rightarrow>
       seq_result (opt_seq (depth_expr d) g) (depth_expr d e)) as"
| "depth_pending (P_Target t d) = depth_target d t"

lemmas step_simps = pushed_def entered_def enter_def opt_pending_def enter_verdict_def

lemma check_step_weight:
  "check_step p = Inr (out, qs) \<Longrightarrow> sum_list (map pending_weight qs) < pending_weight p"
  by (induction p rule: check_step.induct; (auto simp: step_simps split: option.splits if_splits)?)
    (auto simp: step_simps split: option.splits if_splits
      elim!: check_statement.elims check_expression.elims)

lemma check_statement_traverse:
  "depth_stmt d s = (case check_statement s d of
     Inl e \<Rightarrow> Inl e | Inr (out, qs) \<Rightarrow> seq_result (Inr out) (seq_map depth_pending qs))"
  by (cases "(s, d)" rule: check_statement.cases)
    (auto simp: step_simps seq_result_Inr_Nil simp del: seq_result.simps(2) split: option.splits)

lemma check_expression_traverse:
  "depth_expr d e = (case check_expression e d of
     Inl x \<Rightarrow> Inl x | Inr (out, qs) \<Rightarrow> seq_result (Inr out) (seq_map depth_pending qs))"
  by (cases "(e, d)" rule: check_expression.cases)
    (auto simp: step_simps seq_result_Inr_Nil simp del: seq_result.simps(2) split: option.splits)

lemma check_step_traverse:
  "depth_pending p = (case check_step p of
     Inl e \<Rightarrow> Inl e | Inr (out, qs) \<Rightarrow> seq_result (Inr out) (seq_map depth_pending qs))"
proof (cases p rule: check_step.cases)
  case (14 s d)
  then show ?thesis using check_statement_traverse by simp
next
  case (15 e d)
  then show ?thesis using check_expression_traverse by simp
qed (auto simp: step_simps seq_result_Inr_Nil seq_result_assoc simp del: seq_result.simps(2) split: option.splits)

interpretation depth_worklist: worklist check_step pending_weight depth_pending
  by unfold_locales (auto intro: check_step_weight check_step_traverse)

section \<open>What the traversal accepts\<close>

definition accepts :: "ku_error + unit list \<Rightarrow> bool" where
  "accepts r \<longleftrightarrow> (case r of Inl _ \<Rightarrow> False | Inr _ \<Rightarrow> True)"

lemma accepts_seq [simp]: "accepts (seq_result a b) \<longleftrightarrow> accepts a \<and> accepts b"
  by (cases a; cases b) (auto simp: accepts_def)

lemma accepts_Inr [simp]: "accepts (Inr xs)"
  by (simp add: accepts_def)

lemma accepts_seq_map [simp]: "accepts (seq_map f xs) \<longleftrightarrow> (\<forall>x \<in> set xs. accepts (f x))"
  by (induction xs) simp_all

lemma accepts_enter [simp]: "accepts (enter_verdict d sp) \<longleftrightarrow> d < MAX_STATEMENT_DEPTH"
  by (simp add: enter_verdict_def accepts_def)

lemma depth_accepts:
  "accepts (depth_expr d e) = expr_ok (\<lambda>_. True) d e"
  "accepts (depth_kind d sp k) = expr_kind_ok (\<lambda>_. True) d k"
  "accepts (depth_stmt d s) = stmt_ok (\<lambda>_. True) d s"
  "accepts (depth_target d t) = target_ok (\<lambda>_. True) d t"
proof (induction d e and d sp k and d s and d t
    rule: depth_expr_depth_kind_depth_stmt_depth_target.induct)
qed (auto split: option.splits match_arm.splits object_binding.splits)

lemma ok_mono:
  "(\<forall>t. P t \<longrightarrow> Q t) \<Longrightarrow> expr_ok P d e \<Longrightarrow> expr_ok Q d e"
  "(\<forall>t. P t \<longrightarrow> Q t) \<Longrightarrow> expr_kind_ok P d k \<Longrightarrow> expr_kind_ok Q d k"
  "(\<forall>t. P t \<longrightarrow> Q t) \<Longrightarrow> stmt_ok P d s \<Longrightarrow> stmt_ok Q d s"
  "(\<forall>t. P t \<longrightarrow> Q t) \<Longrightarrow> target_ok P d t \<Longrightarrow> target_ok Q d t"
proof (induction P d e and P d k and P d s and P d t
    rule: expr_ok_expr_kind_ok_stmt_ok_target_ok.induct)
qed (auto split: option.splits match_arm.splits object_binding.splits)

lemma check_body_eq: "check_body b = Some (seq_map (depth_stmt 0) b)"
  unfolding check_body_def by (subst depth_worklist.run) (simp_all add: seq_result_Inr_Nil)

text \<open>The only error of the loop is the depth error, at the span of the body's owner.\<close>

definition depth_only :: "ku_error + 'a \<Rightarrow> bool" where
  "depth_only r \<longleftrightarrow> (case r of Inl e \<Rightarrow> \<exists>sp. e = check_depth_error sp | Inr _ \<Rightarrow> True)"

lemma depth_only_leaf [simp]: "depth_only (Inr x)" "depth_only (enter_verdict d sp)"
  by (auto simp: depth_only_def enter_verdict_def)

lemma depth_only_seq: "depth_only a \<Longrightarrow> depth_only b \<Longrightarrow> depth_only (seq_result a b)"
  by (cases a; cases b) (auto simp: depth_only_def)

lemma depth_only_seq_map [intro]: "(\<And>x. x \<in> set xs \<Longrightarrow> depth_only (f x)) \<Longrightarrow> depth_only (seq_map f xs)"
  by (induction xs) (auto intro: depth_only_seq)

lemma depth_only_traversal:
  "depth_only (depth_expr d e)" "depth_only (depth_kind d sp k)"
  "depth_only (depth_stmt d s)" "depth_only (depth_target d t)"
proof (induction d e and d sp k and d s and d t
    rule: depth_expr_depth_kind_depth_stmt_depth_target.induct)
qed (auto intro!: depth_only_seq depth_only_seq_map split: option.splits match_arm.splits object_binding.splits)

fun depth_item :: "item \<Rightarrow> ku_error + unit list" where
  "depth_item (It_Function f) = seq_map (depth_stmt 0) (fn_body f)"
| "depth_item _ = Inr []"

text \<open>A traversal emits no output.\<close>

definition silent :: "'e + 'o list \<Rightarrow> bool" where
  "silent r \<longleftrightarrow> (case r of Inl _ \<Rightarrow> True | Inr xs \<Rightarrow> xs = [])"

lemma silent_leaf [simp]: "silent (Inr [])" "silent (enter_verdict d sp)"
  by (simp_all add: silent_def enter_verdict_def)

lemma silent_seq: "silent a \<Longrightarrow> silent b \<Longrightarrow> silent (seq_result a b)"
  by (cases a; cases b) (auto simp: silent_def)

lemma silent_seq_map: "(\<And>x. x \<in> set xs \<Longrightarrow> silent (f x)) \<Longrightarrow> silent (seq_map f xs)"
  by (induction xs) (auto intro: silent_seq)

lemma silent_traversal:
  "silent (depth_expr d e)" "silent (depth_kind d sp k)" "silent (depth_stmt d s)" "silent (depth_target d t)"
proof (induction d e and d sp k and d s and d t
    rule: depth_expr_depth_kind_depth_stmt_depth_target.induct)
qed (auto intro!: silent_seq silent_seq_map split: option.splits match_arm.splits object_binding.splits)

lemma check_items_eq: "check_items is = Some (seq_map depth_item is)"
proof (induction "is" rule: check_items.induct)
  case (2 f "is")
  have "silent (seq_map (depth_stmt 0) (fn_body f))"
    by (rule silent_seq_map) (rule silent_traversal)
  with 2 show ?case by (auto simp: check_body_eq silent_def split: sum.splits)
qed auto

text \<open>C14: The checker's worklist loop always ends, and it computes the recursive depth-first
  traversal of the program: the same verdict, and on a violation the error of the very statement
  that a recursive visit in source order meets first.\<close>

theorem statement_depth_check_traversal:
  "statement_depth_check p = Some (seq_map depth_item (pr_items p))"
  unfolding statement_depth_check_def by (rule check_items_eq)

text \<open>The declarative form of the bound.\<close>

fun item_depth_ok :: "item \<Rightarrow> bool" where
  "item_depth_ok (It_Function f) = (\<forall>s \<in> set (fn_body f). stmt_ok (\<lambda>_. True) 0 s)"
| "item_depth_ok _ = True"

definition program_depth_ok :: "program \<Rightarrow> bool" where
  "program_depth_ok p \<longleftrightarrow> (\<forall>i \<in> set (pr_items p). item_depth_ok i)"

lemma statement_depth_check_verdict:
  "(statement_depth_check p = Some (Inr []) \<longleftrightarrow> program_depth_ok p)
   \<and> (statement_depth_check p = Some (Inr []) \<or> (\<exists>sp. statement_depth_check p = Some (Inl (check_depth_error sp))))"
proof -
  let ?r = "seq_map depth_item (pr_items p)"
  have item: "silent (depth_item i) \<and> depth_only (depth_item i)" for i
    by (cases i) (auto intro!: silent_seq_map depth_only_seq_map silent_traversal depth_only_traversal)
  then have "silent ?r" "depth_only ?r"
    by (auto intro!: silent_seq_map depth_only_seq_map)
  moreover have "accepts (depth_item i) \<longleftrightarrow> item_depth_ok i" for i
    by (cases i) (auto simp: depth_accepts)
  then have "accepts ?r \<longleftrightarrow> program_depth_ok p"
    by (auto simp: program_depth_ok_def)
  ultimately show ?thesis
    by (auto simp: statement_depth_check_def check_items_eq accepts_def silent_def depth_only_def split: sum.splits)
qed

text \<open>C15: The checker accepts a program exactly when every body-owning statement and every
  function value in every top-level function sits at a depth below 32; otherwise it reports the
  depth error.\<close>

theorem statement_depth_check_iff:
  "(statement_depth_check p = Some (Inr []) \<longleftrightarrow> program_depth_ok p)
   \<and> (statement_depth_check p = Some (Inr []) \<or> (\<exists>sp. statement_depth_check p = Some (Inl (check_depth_error sp))))"
  by (rule statement_depth_check_verdict)

end
