(* ===== verification/Front_End.thy ===== *)
theory Front_End
  imports Parser_Program Checker_Depth
begin

text \<open>
  The front end as the language exposes it (\<open>src/src/stdlib/compiler.rs\<close>): the builtins
  \<open>lexer.scan\<close> and \<open>parser.parse\<close> run the lexer and the parser on a source string under size
  limits, and \<open>AstOutput\<close> bounds the printed tree. The \<open>Debug\<close> text of a program, which the
  compiler derives, is a parameter: the sequence of pieces it writes.
\<close>

definition MAX_EMBEDDED_SOURCE_BYTES :: nat where
  "MAX_EMBEDDED_SOURCE_BYTES = 1000000"

definition MAX_EMBEDDED_TOKENS :: nat where
  "MAX_EMBEDDED_TOKENS = 100000"

definition MAX_AST_OUTPUT_BYTES :: nat where
  "MAX_AST_OUTPUT_BYTES = 1000000"

definition reject_large_embedded_source :: "ustring \<Rightarrow> span \<Rightarrow> (ku_error, unit) result" where
  "reject_large_embedded_source source sp =
     (if MAX_EMBEDDED_SOURCE_BYTES < str_len source
      then Inl (Raise (runtime_error (lit ''embedded source is too large for compiler builtin'') sp))
      else Inr ())"

text \<open>The string case of \<open>lexer.scan\<close>, up to the printing of the token kinds.\<close>

definition lexer_scan :: "ustring \<Rightarrow> span \<Rightarrow> (ku_error, token_kind list) result" where
  "lexer_scan source sp = (case reject_large_embedded_source source sp of
       Inl e \<Rightarrow> Inl e
     | Inr _ \<Rightarrow> (case lex source of
         Inl e \<Rightarrow> Inl e
       | Inr tokens \<Rightarrow>
           let kinds = map tk_kind (take (MAX_EMBEDDED_TOKENS + 1) tokens) in
           if MAX_EMBEDDED_TOKENS < length kinds
           then Inl (Raise (runtime_error (lit ''too many tokens; input is too large for lexer.scan'') sp))
           else Inr kinds))"

text \<open>The string case of \<open>parser.parse\<close>, up to the printing of the tree.\<close>

definition parser_parse :: "ustring \<Rightarrow> span \<Rightarrow> (ku_error, program) result" where
  "parser_parse source sp = (case reject_large_embedded_source source sp of
       Inl e \<Rightarrow> Inl e
     | Inr _ \<Rightarrow> (case lex source of
         Inl e \<Rightarrow> Inl e
       | Inr tokens \<Rightarrow>
           if MAX_EMBEDDED_TOKENS < length tokens
           then Inl (Raise (runtime_error (lit ''too many tokens; input is too large for parser.parse'') sp))
           else parse_program tokens))"

section \<open>Bounded output\<close>

record ast_output =
  ao_text :: ustring
  ao_failure :: "string option"

datatype write_result = W_Ok ast_output | W_Err ast_output | W_Panic

text \<open>The subtraction panics when the text is already over the limit. \<open>reserve n\<close> says whether
  the allocator has room for \<open>n\<close> more bytes.\<close>

definition write_str :: "(nat \<Rightarrow> bool) \<Rightarrow> ast_output \<Rightarrow> ustring \<Rightarrow> write_result" where
  "write_str reserve out text =
     (if MAX_AST_OUTPUT_BYTES < str_len (ao_text out) then W_Panic
      else if MAX_AST_OUTPUT_BYTES - str_len (ao_text out) < str_len text
      then W_Err (out\<lparr>ao_failure := Some ''parser.parse output is too large''\<rparr>)
      else if \<not> reserve (str_len text)
      then W_Err (out\<lparr>ao_failure := Some ''parser.parse AST output out of memory''\<rparr>)
      else W_Ok (out\<lparr>ao_text := ao_text out @ text\<rparr>))"

text \<open>\<open>write!\<close> hands the pieces of the formatted program to \<open>write_str\<close> until one fails.\<close>

fun write_pieces :: "(nat \<Rightarrow> bool) \<Rightarrow> ast_output \<Rightarrow> ustring list \<Rightarrow> write_result" where
  "write_pieces reserve out [] = W_Ok out"
| "write_pieces reserve out (t # ts) = (case write_str reserve out t of
       W_Ok out' \<Rightarrow> write_pieces reserve out' ts
     | r \<Rightarrow> r)"

definition format_ast :: "(nat \<Rightarrow> bool) \<Rightarrow> ustring list \<Rightarrow> span \<Rightarrow> (ku_error, ustring) result" where
  "format_ast reserve pieces sp = (case write_pieces reserve \<lparr>ao_text = [], ao_failure = None\<rparr> pieces of
       W_Ok out \<Rightarrow> Inr (ao_text out)
     | W_Err out \<Rightarrow> Inl (Raise (runtime_error
         (lit (case ao_failure out of Some m \<Rightarrow> m | None \<Rightarrow> ''parser.parse could not format AST'')) sp))
     | W_Panic \<Rightarrow> Inl RustPanic)"

lemma write_pieces_eq:
  assumes "str_len (ao_text out) \<le> MAX_AST_OUTPUT_BYTES"
  shows "(str_len (ao_text out) + str_len (concat ts) \<le> MAX_AST_OUTPUT_BYTES
      \<and> write_pieces reserve out ts = W_Ok (out\<lparr>ao_text := ao_text out @ concat ts\<rparr>))
    \<or> (MAX_AST_OUTPUT_BYTES < str_len (ao_text out) + str_len (concat ts) \<and> (\<exists>o'. write_pieces reserve out ts = W_Err o'
         \<and> ao_failure o' = Some ''parser.parse output is too large''))
    \<or> ((\<exists>t \<in> set ts. \<not> reserve (str_len t)) \<and> (\<exists>o'. write_pieces reserve out ts = W_Err o'
         \<and> ao_failure o' = Some ''parser.parse AST output out of memory''))"
  using assms
proof (induction ts arbitrary: out)
  case (Cons t ts)
  show ?case
  proof (cases "str_len (ao_text out) + str_len t \<le> MAX_AST_OUTPUT_BYTES \<and> reserve (str_len t)")
    case True
    then have w: "write_str reserve out t = W_Ok (out\<lparr>ao_text := ao_text out @ t\<rparr>)"
      using Cons.prems by (auto simp: write_str_def)
    show ?thesis using Cons.IH [of "out\<lparr>ao_text := ao_text out @ t\<rparr>"] True
      by (simp add: w add.assoc)
  next
    case False
    then show ?thesis using Cons.prems by (auto simp: write_str_def)
  qed
qed simp

section \<open>Properties\<close>

lemma lex_error_kind: "lex src = Inl f \<Longrightarrow> \<exists>e. f = Raise e \<and> ke_kind e = KE_Lex"
  unfolding lex_def using lex_loop_error [of "[]" "Lexer_new src" f] by (auto simp: lx_err_def)


text \<open>The bounded writer never truncates and never panics: it returns the whole text of the tree,
  which then fits into a million bytes, or reports that the output is too large, which then is the
  case, or that an allocation failed; as long as no allocation fails it prints every text that fits.\<close>

lemma format_ast_exact:
  "(str_len (concat pieces) \<le> MAX_AST_OUTPUT_BYTES \<and> format_ast reserve pieces sp = Inr (concat pieces))
   \<or> (MAX_AST_OUTPUT_BYTES < str_len (concat pieces) \<and> format_ast reserve pieces sp
        = Inl (Raise (runtime_error (lit ''parser.parse output is too large'') sp)))
   \<or> ((\<exists>t. t \<in> set pieces \<and> \<not> reserve (str_len t)) \<and> format_ast reserve pieces sp
        = Inl (Raise (runtime_error (lit ''parser.parse AST output out of memory'') sp)))"
  using write_pieces_eq [of "\<lparr>ao_text = [], ao_failure = None\<rparr>" pieces reserve]
  by (auto simp: format_ast_def)

end
