(* ===== verification/Rust_Format.thy ===== *)
theory Rust_Format
  imports Rust_Num
begin

text \<open>
  The number formatting and parsing of the Rust standard library that the runtime library uses:
  \<open>to_string\<close> of integers, \<open>parse::<i64>\<close> on any text, \<open>parse::<f64>\<close> on decimal text and
  \<open>to_string\<close> of a double, which prints the shortest decimal that is read back as the same
  double, without exponent. The lemmas show that printing and parsing integers are inverse.
\<close>

section \<open>Integers\<close>

fun nat_to_string :: "nat \<Rightarrow> ustring" where
  "nat_to_string n =
     (if n < 10 then [ch CHR ''0'' + n] else nat_to_string (n div 10) @ [ch CHR ''0'' + n mod 10])"

declare nat_to_string.simps [simp del]

definition int_to_string :: "int \<Rightarrow> ustring" where
  "int_to_string i = (if i < 0 then ch CHR ''-'' # nat_to_string (nat (- i)) else nat_to_string (nat i))"

definition i64_to_string :: "i64 \<Rightarrow> ustring" where
  "i64_to_string w = int_to_string (sint w)"

text \<open>\<open>str::parse::<i64>\<close>: an optional sign, then at least one digit and nothing else.\<close>

definition str_parse_i64 :: "ustring \<Rightarrow> i64 option" where
  "str_parse_i64 s =
     (let (neg, ds) = (case s of
          c # cs \<Rightarrow> if c = ch CHR ''-'' then (True, cs) else if c = ch CHR ''+'' then (False, cs) else (False, s)
        | [] \<Rightarrow> (False, []))
      in if ds = [] \<or> \<not> list_all is_ascii_digit ds then None
         else if neg then (if digits_value ds \<le> 2 ^ 63 then Some (- of_nat (digits_value ds)) else None)
         else parse_i64 ds)"

lemma is_ascii_digit_iff: "is_ascii_digit c \<longleftrightarrow> 48 \<le> c \<and> c \<le> 57"
  by (simp add: is_ascii_digit_def ch_def)

lemma nat_to_string_digits: "list_all is_ascii_digit (nat_to_string n)"
proof (induction n rule: nat_to_string.induct)
  case (1 n)
  have "is_ascii_digit (ch CHR ''0'' + n mod 10)"
    using mod_less_divisor [of 10 n] by (simp add: is_ascii_digit_iff ch_def del: mod_less_divisor)
  moreover have "n < 10 \<Longrightarrow> is_ascii_digit (ch CHR ''0'' + n)"
    by (simp add: is_ascii_digit_iff ch_def)
  ultimately show ?case using 1 by (subst nat_to_string.simps) simp
qed

lemma nat_to_string_neq_Nil [simp]: "nat_to_string n \<noteq> []"
  by (subst nat_to_string.simps) simp

lemma digits_value_nat_to_string [simp]: "digits_value (nat_to_string n) = n"
proof (induction n rule: nat_to_string.induct)
  case (1 n)
  then show ?case
    by (subst nat_to_string.simps) (simp add: digits_value_append digit_value_def, simp add: digits_value_def digit_value_def)
qed

text \<open>No leading zero, except that zero is printed as such.\<close>

lemma nat_to_string_hd: "hd (nat_to_string n) = ch CHR ''0'' \<longleftrightarrow> n = 0"
proof (induction n rule: nat_to_string.induct)
  case (1 n)
  show ?case
  proof (cases "n < 10")
    case False
    then have "hd (nat_to_string n) = hd (nat_to_string (n div 10))"
      by (subst nat_to_string.simps) simp
    with 1 False show ?thesis by simp
  qed (subst nat_to_string.simps, simp)
qed

lemma nat_to_string_zero: "nat_to_string 0 = [ch CHR ''0'']"
  by (subst nat_to_string.simps) simp

lemma nat_to_string_Cons:
  obtains c cs where "nat_to_string n = c # cs" and "is_ascii_digit c" and "list_all is_ascii_digit cs"
  using nat_to_string_digits [of n] nat_to_string_neq_Nil [of n] by (cases "nat_to_string n") auto

lemma parse_nat_to_string:
  "str_parse_i64 (nat_to_string n) = (if n \<le> i64_MAX then Some (of_nat n) else None)"
proof -
  obtain c cs where c: "nat_to_string n = c # cs" "is_ascii_digit c" "list_all is_ascii_digit cs"
    by (rule nat_to_string_Cons)
  then have "c \<noteq> ch CHR ''-''" "c \<noteq> ch CHR ''+''"
    by (auto simp: is_ascii_digit_iff ch_def)
  with c have "str_parse_i64 (nat_to_string n) = parse_i64 (nat_to_string n)"
    by (simp add: str_parse_i64_def)
  then show ?thesis by (simp add: parse_i64_def)
qed

lemma parse_neg_nat_to_string:
  "str_parse_i64 (ch CHR ''-'' # nat_to_string n) = (if n \<le> 2 ^ 63 then Some (- of_nat n) else None)"
  by (simp add: str_parse_i64_def nat_to_string_digits)

lemma i64_cases:
  fixes w :: i64
  obtains (nonneg) n where "w = of_nat n" "sint w = int n" "n \<le> i64_MAX"
  | (neg) n where "w = - of_nat n" "sint w = - int n" "0 < n" "n \<le> 2 ^ 63"
proof (cases "0 \<le> sint w")
  case True
  have "sint w < 2 ^ 63" using sint_lt [of w] by simp
  moreover have "w = of_int (sint w)" by simp
  ultimately show thesis
    using True nonneg [of "nat (sint w)"] by (simp add: i64_MAX_def)
next
  case False
  have "- (2 ^ 63) \<le> sint w" using sint_ge [of w] by simp
  moreover have "w = of_int (sint w)" by simp
  ultimately show thesis
    using False neg [of "nat (- sint w)"] by simp
qed

lemma str_parse_i64_to_string: "str_parse_i64 (i64_to_string w) = Some w"
proof (cases w rule: i64_cases)
  case (nonneg n)
  then have "i64_to_string w = nat_to_string n" by (simp add: i64_to_string_def int_to_string_def)
  then show ?thesis using nonneg by (simp add: parse_nat_to_string)
next
  case (neg n)
  then have "i64_to_string w = ch CHR ''-'' # nat_to_string n"
    by (simp add: i64_to_string_def int_to_string_def)
  then show ?thesis using neg by (simp add: parse_neg_nat_to_string)
qed

text \<open>\<open>{:04x}\<close> and \<open>char::to_digit(16)\<close>.\<close>

definition hex_digit :: "nat \<Rightarrow> uchar" where
  "hex_digit d = (if d < 10 then ch CHR ''0'' + d else ch CHR ''a'' + (d - 10))"

definition hex4 :: "nat \<Rightarrow> ustring" where
  "hex4 n = map (\<lambda>i. hex_digit (n div 16 ^ i mod 16)) [3, 2, 1, 0]"

definition to_digit16 :: "uchar \<Rightarrow> nat option" where
  "to_digit16 c =
     (if is_ascii_digit c then Some (c - ch CHR ''0'')
      else if ch CHR ''a'' \<le> c \<and> c \<le> ch CHR ''f'' then Some (c - ch CHR ''a'' + 10)
      else if ch CHR ''A'' \<le> c \<and> c \<le> ch CHR ''F'' then Some (c - ch CHR ''A'' + 10)
      else None)"

lemma to_digit16_hex_digit: "d < 16 \<Longrightarrow> to_digit16 (hex_digit d) = Some d"
  by (simp add: to_digit16_def hex_digit_def is_ascii_digit_iff ch_def)

section \<open>Doubles\<close>

definition f64_negative :: "f64 \<Rightarrow> bool" where
  "f64_negative x \<longleftrightarrow> 2 ^ 63 \<le> unat (f64_bits x)"

definition f64_exponent :: "f64 \<Rightarrow> nat" where
  "f64_exponent x = unat (f64_bits x) div 2 ^ 52 mod 2 ^ 11"

definition f64_fraction :: "f64 \<Rightarrow> nat" where
  "f64_fraction x = unat (f64_bits x) mod 2 ^ 52"

definition f64_is_finite :: "f64 \<Rightarrow> bool" where
  "f64_is_finite x \<longleftrightarrow> f64_exponent x \<noteq> 0x7FF"

definition f64_is_nan :: "f64 \<Rightarrow> bool" where
  "f64_is_nan x \<longleftrightarrow> f64_exponent x = 0x7FF \<and> f64_fraction x \<noteq> 0"

definition f64_is_zero :: "f64 \<Rightarrow> bool" where
  "f64_is_zero x \<longleftrightarrow> f64_exponent x = 0 \<and> f64_fraction x = 0"

text \<open>IEEE equality: a NaN equals nothing, the two zeros are equal.\<close>

definition f64_eq :: "f64 \<Rightarrow> f64 \<Rightarrow> bool" where
  "f64_eq x y \<longleftrightarrow> \<not> f64_is_nan x \<and> \<not> f64_is_nan y \<and> (x = y \<or> f64_is_zero x \<and> f64_is_zero y)"

definition f64_abs :: "f64 \<Rightarrow> f64" where
  "f64_abs x = F64 (of_nat (unat (f64_bits x) mod 2 ^ 63))"

definition f64_neg :: "f64 \<Rightarrow> f64" where
  "f64_neg x = F64 (f64_bits x + 2 ^ 63)"

text \<open>The absolute value of a finite double as a fraction.\<close>

definition f64_ratio :: "f64 \<Rightarrow> nat \<times> nat" where
  "f64_ratio x =
     (let e = f64_exponent x; m = f64_fraction x in
      if e = 0 then (m, 2 ^ 1074)
      else if e < 1075 then (2 ^ 52 + m, 2 ^ (1075 - e))
      else ((2 ^ 52 + m) * 2 ^ (e - 1075), 1))"

text \<open>\<open>str::parse::<f64>\<close> on the decimal grammar: sign, digits, fraction, exponent. The names of
  the infinities and of NaN are not part of it.\<close>

definition take_sign :: "ustring \<Rightarrow> bool \<times> ustring" where
  "take_sign s = (case s of
       c # cs \<Rightarrow> if c = ch CHR ''-'' then (True, cs) else if c = ch CHR ''+'' then (False, cs) else (False, s)
     | [] \<Rightarrow> (False, []))"

definition parse_exponent :: "ustring \<Rightarrow> int option" where
  "parse_exponent s = (case s of
       [] \<Rightarrow> Some 0
     | c # cs \<Rightarrow>
         if c = ch CHR ''e'' \<or> c = ch CHR ''E'' then
           (let (neg, ds) = take_sign cs in
            if ds = [] \<or> \<not> list_all is_ascii_digit ds then None
            else Some (if neg then - int (digits_value ds) else int (digits_value ds)))
         else None)"

definition f64_of_decimal :: "nat \<Rightarrow> int \<Rightarrow> f64" where
  "f64_of_decimal d x = f64_round (d * 10 ^ nat x) (10 ^ nat (- x))"

definition str_parse_f64 :: "ustring \<Rightarrow> f64 option" where
  "str_parse_f64 s =
     (let (neg, t) = take_sign s;
          whole = takeWhile is_ascii_digit t;
          t' = dropWhile is_ascii_digit t;
          (frac, t'') = (case t' of
             c # cs \<Rightarrow> if c = ch CHR ''.'' then (takeWhile is_ascii_digit cs, dropWhile is_ascii_digit cs) else ([], t')
           | [] \<Rightarrow> ([], []))
      in if whole @ frac = [] then None
         else case parse_exponent t'' of
           None \<Rightarrow> None
         | Some x \<Rightarrow>
             let v = f64_of_decimal (digits_value (whole @ frac)) (x - int (length frac))
             in Some (if neg then f64_neg v else v))"

text \<open>
  The shortest decimal. \<open>k\<close> is the decimal exponent with \<open>10 ^ (k - 1) \<le> v < 10 ^ k\<close>. For a number
  of digits the candidates are the decimals next to \<open>v\<close>; the first number of digits at which one of
  them is read back as \<open>v\<close> is taken, and of two candidates the nearer one, the upper one on a tie.
  Seventeen digits are always enough.
\<close>

function lead_zeros :: "nat \<Rightarrow> nat \<Rightarrow> nat" where
  "lead_zeros p q = (if p = 0 \<or> q \<le> p then 0 else Suc (lead_zeros (10 * p) q))"
  by pat_completeness auto
termination
  by (relation "measure (\<lambda>(p, q). q - p)") auto

declare lead_zeros.simps [simp del]

definition decimal_exponent :: "nat \<Rightarrow> nat \<Rightarrow> int" where
  "decimal_exponent p q =
     (if q \<le> p then int (length (nat_to_string (p div q))) else 1 - int (lead_zeros p q))"

fun shortest_from :: "nat \<Rightarrow> nat \<Rightarrow> f64 \<Rightarrow> nat \<Rightarrow> nat \<Rightarrow> int \<Rightarrow> nat \<times> int" where
  "shortest_from fuel n x p q k =
     (let s = int n - k;
          num = p * 10 ^ nat s;
          den = q * 10 ^ nat (- s);
          d = num div den;
          r = num mod den;
          down = f64_of_decimal d (- s) = x;
          up = f64_of_decimal (d + 1) (- s) = x;
          nearer = (if den \<le> 2 * r then d + 1 else d)
      in if up \<and> (\<not> down \<or> den \<le> 2 * r) then (d + 1, - s)
         else if down then (d, - s)
         else case fuel of 0 \<Rightarrow> (nearer, - s) | Suc fuel' \<Rightarrow> shortest_from fuel' (Suc n) x p q k)"

declare shortest_from.simps [simp del]

definition f64_shortest :: "f64 \<Rightarrow> nat \<times> int" where
  "f64_shortest x = (let (p, q) = f64_ratio x in shortest_from 16 1 (f64_abs x) p q (decimal_exponent p q))"

definition strip_zeros :: "ustring \<Rightarrow> ustring" where
  "strip_zeros s = rev (dropWhile (\<lambda>c. c = ch CHR ''0'') (rev s))"

definition decimal_string :: "nat \<Rightarrow> int \<Rightarrow> ustring" where
  "decimal_string d x =
     (let ds = nat_to_string d; k = int (length ds) + x; ds' = strip_zeros ds in
      if k \<le> 0 then lit ''0.'' @ replicate (nat (- k)) (ch CHR ''0'') @ ds'
      else if int (length ds') \<le> k then ds' @ replicate (nat k - length ds') (ch CHR ''0'')
      else take (nat k) ds' @ lit ''.'' @ drop (nat k) ds')"

definition f64_to_string :: "f64 \<Rightarrow> ustring" where
  "f64_to_string x =
     (if f64_is_nan x then lit ''NaN''
      else (if f64_negative x then lit ''-'' else []) @
        (if \<not> f64_is_finite x then lit ''inf''
         else if f64_is_zero x then lit ''0''
         else let (d, e) = f64_shortest x in decimal_string d e))"

end
