(* ===== verification/Ast_Match_Pattern.thy ===== *)
theory Ast_Match_Pattern
  imports Worklist Ast Rust_Format "HOL-Library.Multiset"
begin

text \<open>
  The iterative traits of \<open>MatchPattern\<close> (\<open>src/src/ast/match_pattern.rs\<close>): the preorder
  iterator, \<open>Clone\<close>, \<open>Drop\<close>, \<open>PartialEq\<close> and \<open>Debug\<close>, each written as a loop so that deep
  patterns need no call stack. Every loop is shown to end and to compute what the derived,
  recursive implementation would. Stacks are lists whose head is the top.
\<close>

section \<open>The preorder iterator\<close>

record preorder =
  po_root :: "match_pattern option"
  po_children :: "match_pattern list list"

definition preorder_new :: "match_pattern \<Rightarrow> preorder" where
  "preorder_new p = \<lparr>po_root = Some p, po_children = []\<rparr>"

text \<open>The next child on the stack of slice cursors, dropping exhausted cursors.\<close>

fun next_child :: "match_pattern list list \<Rightarrow> (match_pattern \<times> match_pattern list list) option" where
  "next_child [] = None"
| "next_child ([] # cs) = next_child cs"
| "next_child ((p # ps) # cs) = Some (p, ps # cs)"

definition push_fields :: "match_pattern \<Rightarrow> match_pattern list list \<Rightarrow> match_pattern list list" where
  "push_fields node cs = (case node of
       MP_EnumVariant _ _ fs \<Rightarrow> if fs \<noteq> [] then fs # cs else cs
     | _ \<Rightarrow> cs)"

definition preorder_next :: "preorder \<Rightarrow> match_pattern option \<times> preorder" where
  "preorder_next it = (case po_root it of
       Some root \<Rightarrow> (Some root, \<lparr>po_root = None, po_children = push_fields root (po_children it)\<rparr>)
     | None \<Rightarrow> (case next_child (po_children it) of
         None \<Rightarrow> (None, \<lparr>po_root = None, po_children = []\<rparr>)
       | Some (child, cs) \<Rightarrow> (Some child, \<lparr>po_root = None, po_children = push_fields child cs\<rparr>)))"

text \<open>The recursive enumeration.\<close>

fun pattern_nodes :: "match_pattern \<Rightarrow> match_pattern list" where
  "pattern_nodes (MP_EnumVariant e v ps) = MP_EnumVariant e v ps # concat (map pattern_nodes ps)"
| "pattern_nodes p = [p]"

definition forest_nodes :: "match_pattern list \<Rightarrow> match_pattern list" where
  "forest_nodes ps = concat (map pattern_nodes ps)"

definition preorder_upcoming :: "preorder \<Rightarrow> match_pattern list" where
  "preorder_upcoming it =
     (case po_root it of None \<Rightarrow> [] | Some p \<Rightarrow> pattern_nodes p) @ concat (map forest_nodes (po_children it))"

lemma forest_nodes_simps [simp]:
  "forest_nodes [] = []" "forest_nodes (p # ps) = pattern_nodes p @ forest_nodes ps"
  by (simp_all add: forest_nodes_def)

lemma pattern_nodes_push:
  "pattern_nodes p @ concat (map forest_nodes cs) = p # concat (map forest_nodes (push_fields p cs))"
  by (cases p) (auto simp: push_fields_def forest_nodes_def)

lemma next_child_None: "next_child cs = None \<Longrightarrow> concat (map forest_nodes cs) = []"
  by (induction cs rule: next_child.induct) auto

lemma next_child_Some: "next_child cs = Some (p, cs') \<Longrightarrow>
    concat (map forest_nodes cs) = p # concat (map forest_nodes (push_fields p cs'))"
  by (induction cs rule: next_child.induct) (auto simp: pattern_nodes_push [symmetric])

lemma preorder_next_upcoming:
  "(case preorder_upcoming it of
      [] \<Rightarrow> fst (preorder_next it) = None
    | x # xs \<Rightarrow> fst (preorder_next it) = Some x \<and> preorder_upcoming (snd (preorder_next it)) = xs)"
proof (cases "po_root it")
  case None
  show ?thesis
  proof (cases "next_child (po_children it)")
    case n: None
    have "preorder_upcoming it = []"
      unfolding preorder_upcoming_def None next_child_None [OF n] by simp
    then show ?thesis using None n by (simp add: preorder_next_def)
  next
    case (Some r)
    obtain p cs where "r = (p, cs)" by (cases r)
    with Some have c: "next_child (po_children it) = Some (p, cs)" by simp
    then show ?thesis using None next_child_Some [OF c] by (simp add: preorder_next_def preorder_upcoming_def)
  qed
next
  case (Some p)
  then show ?thesis by (simp add: preorder_next_def preorder_upcoming_def pattern_nodes_push)
qed

interpretation preorder_iter: stream_iterator preorder_next preorder_upcoming
  by unfold_locales (use preorder_next_upcoming in \<open>force split: list.splits\<close>)+

fun collect :: "nat \<Rightarrow> preorder \<Rightarrow> match_pattern list option" where
  "collect 0 it = None"
| "collect (Suc n) it = (case preorder_next it of
       (None, _) \<Rightarrow> Some []
     | (Some p, it') \<Rightarrow> map_option (\<lambda>ps. p # ps) (collect n it'))"

lemma collect_eq: "length (preorder_upcoming it) < n \<Longrightarrow> collect n it = Some (preorder_upcoming it)"
proof (induction n arbitrary: it)
  case (Suc n)
  obtain r it' where nx: "preorder_next it = (r, it')" by (cases "preorder_next it")
  show ?case
  proof (cases "preorder_upcoming it")
    case Nil
    then show ?thesis using preorder_iter.advance_Nil [OF Nil] nx by simp
  next
    case (Cons x xs)
    then have "r = Some x" "preorder_upcoming it' = xs"
      using preorder_iter.advance_Cons [OF Cons] preorder_iter.advance_tl [OF Cons] nx by simp_all
    then show ?thesis using Suc Cons nx by simp
  qed
qed simp

section \<open>Equality\<close>

text \<open>The derived \<open>PartialEq\<close> of \<open>Literal\<close>.\<close>

definition literal_eq :: "literal \<Rightarrow> literal \<Rightarrow> bool" where
  "literal_eq l r = (case (l, r) of
       (Lit_Float x, Lit_Float y) \<Rightarrow> f64_eq x y
     | _ \<Rightarrow> l = r)"

definition node_eq :: "match_pattern \<Rightarrow> match_pattern \<Rightarrow> bool" where
  "node_eq l r = (case (l, r) of
       (MP_Wildcard, MP_Wildcard) \<Rightarrow> True
     | (MP_Binding x, MP_Binding y) \<Rightarrow> x = y
     | (MP_Literal x, MP_Literal y) \<Rightarrow> literal_eq x y
     | (MP_EnumVariant e v ps, MP_EnumVariant e' v' qs) \<Rightarrow> e = e' \<and> v = v' \<and> length ps = length qs
     | _ \<Rightarrow> False)"

fun eq_loop :: "nat \<Rightarrow> preorder \<Rightarrow> preorder \<Rightarrow> bool option" where
  "eq_loop 0 l r = None"
| "eq_loop (Suc n) l r = (case (preorder_next l, preorder_next r) of
       ((None, _), (None, _)) \<Rightarrow> Some True
     | ((Some p, l'), (Some q, r')) \<Rightarrow> if node_eq p q then eq_loop n l' r' else Some False
     | _ \<Rightarrow> Some False)"

definition pattern_eq :: "match_pattern \<Rightarrow> match_pattern \<Rightarrow> bool option" where
  "pattern_eq p q = eq_loop (Suc (length (pattern_nodes p))) (preorder_new p) (preorder_new q)"

text \<open>The derived, recursive equality.\<close>

function (sequential) pattern_eq_rec :: "match_pattern \<Rightarrow> match_pattern \<Rightarrow> bool" where
  "pattern_eq_rec MP_Wildcard MP_Wildcard = True"
| "pattern_eq_rec (MP_Binding x) (MP_Binding y) = (x = y)"
| "pattern_eq_rec (MP_Literal x) (MP_Literal y) = literal_eq x y"
| "pattern_eq_rec (MP_EnumVariant e v ps) (MP_EnumVariant e' v' qs) =
     (e = e' \<and> v = v' \<and> length ps = length qs \<and> (\<forall>(p, q) \<in> set (zip ps qs). pattern_eq_rec p q))"
| "pattern_eq_rec _ _ = False"
  by pat_completeness auto
termination
  by (relation "measure (size \<circ> fst)")
    (auto dest!: set_zip_leftD simp: less_Suc_eq_le intro: size_list_estimation')

lemma eq_loop_list_all2:
  "length (preorder_upcoming l) < n \<Longrightarrow>
   eq_loop n l r = Some (list_all2 node_eq (preorder_upcoming l) (preorder_upcoming r))"
proof (induction n arbitrary: l r)
  case (Suc n)
  obtain a l' b r' where nx: "preorder_next l = (a, l')" "preorder_next r = (b, r')"
    by (cases "preorder_next l"; cases "preorder_next r")
  show ?case
  proof (cases "preorder_upcoming l")
    case Nil
    then have "a = None" using preorder_iter.advance_Nil [OF Nil] nx by simp
    moreover have "b = None \<longleftrightarrow> preorder_upcoming r = []"
      using preorder_iter.advance_None_iff [of r] nx by simp
    ultimately show ?thesis using nx Nil by (auto split: option.splits)
  next
    case (Cons p ps)
    then have l: "a = Some p" "preorder_upcoming l' = ps"
      using preorder_iter.advance_Cons [OF Cons] preorder_iter.advance_tl [OF Cons] nx by simp_all
    show ?thesis
    proof (cases "preorder_upcoming r")
      case Nil
      then show ?thesis using preorder_iter.advance_Nil [OF Nil] nx l Cons by simp
    next
      case r: (Cons q qs)
      then have "b = Some q" "preorder_upcoming r' = qs"
        using preorder_iter.advance_Cons [OF r] preorder_iter.advance_tl [OF r] nx by simp_all
      then show ?thesis using Suc l Cons r nx by simp
    qed
  qed
qed simp

lemma pattern_nodes_Cons: "\<exists>rest. pattern_nodes p = p # rest"
  by (cases p) auto

lemma node_eq_simps [simp]:
  "node_eq (MP_EnumVariant e v ps) (MP_EnumVariant e' v' qs) \<longleftrightarrow> e = e' \<and> v = v' \<and> length ps = length qs"
  "node_eq MP_Wildcard q \<longleftrightarrow> q = MP_Wildcard"
  "node_eq (MP_Binding x) q \<longleftrightarrow> q = MP_Binding x"
  "node_eq (MP_Literal l) (MP_Literal l') \<longleftrightarrow> literal_eq l l'"
  by (auto simp: node_eq_def split: match_pattern.splits)

lemma nodes_eq_iff:
  "list_all2 node_eq (pattern_nodes p @ xs) (pattern_nodes q @ ys)
     \<longleftrightarrow> pattern_eq_rec p q \<and> list_all2 node_eq xs ys"
proof (induction p q arbitrary: xs ys rule: pattern_eq_rec.induct)
  case (4 e v ps e' v' qs)
  have forest: "list_all2 node_eq (forest_nodes as @ xs) (forest_nodes bs @ ys)
      \<longleftrightarrow> (\<forall>(p, q) \<in> set (zip as bs). pattern_eq_rec p q) \<and> list_all2 node_eq xs ys"
    if "length as = length bs" "set (zip as bs) \<subseteq> set (zip ps qs)" "length ps = length qs" for as bs xs ys
    using that
  proof (induction as bs rule: list_induct2)
    case (Cons a as b bs)
    then have "(a, b) \<in> set (zip ps qs)" by simp
    with Cons 4 show ?case by auto
  qed simp
  show ?case
    using forest [of ps qs xs ys] by (auto simp: forest_nodes_def)
qed (auto simp: node_eq_def)

lemma preorder_upcoming_new [simp]: "preorder_upcoming (preorder_new p) = pattern_nodes p"
  by (simp add: preorder_upcoming_def preorder_new_def)

text \<open>C17: The iterative \<open>PartialEq\<close> of match patterns, which walks two preorder iterators in lock
  step, always ends and decides exactly the recursive, field by field equality (with the equality
  of \<open>f64\<close> on float literals).\<close>

theorem pattern_eq_is_recursive: "pattern_eq p q = Some (pattern_eq_rec p q)"
  using eq_loop_list_all2 [of "preorder_new p" "Suc (length (pattern_nodes p))" "preorder_new q"]
    nodes_eq_iff [of p "[]" q "[]"]
  by (simp add: pattern_eq_def)

section \<open>Cloning\<close>

record clone_frame =
  cf_enum_name :: ustring
  cf_variant :: ustring
  cf_remaining :: "match_pattern list"
  cf_fields :: "match_pattern list"

text \<open>The inner loop: hand a completed clone to its parent; the next sibling to visit, or the
  finished clone of the root.\<close>

fun clone_complete ::
    "clone_frame list \<Rightarrow> match_pattern \<Rightarrow> (clone_frame list \<times> match_pattern) + match_pattern" where
  "clone_complete [] completed = Inr completed"
| "clone_complete (frame # frames) completed =
     (let finished = cf_fields frame @ [completed] in
      case cf_remaining frame of
        nxt # rest \<Rightarrow> Inl (frame\<lparr>cf_fields := finished, cf_remaining := rest\<rparr> # frames, nxt)
      | [] \<Rightarrow> clone_complete frames (MP_EnumVariant (cf_enum_name frame) (cf_variant frame) finished))"

definition clone_step ::
    "clone_frame list \<Rightarrow> match_pattern \<Rightarrow> (clone_frame list \<times> match_pattern) + match_pattern" where
  "clone_step frames current = (case current of
       MP_EnumVariant e v (first # rest) \<Rightarrow>
         Inl (\<lparr>cf_enum_name = e, cf_variant = v, cf_remaining = rest, cf_fields = []\<rparr> # frames, first)
     | _ \<Rightarrow> clone_complete frames current)"

fun clone_loop :: "nat \<Rightarrow> clone_frame list \<Rightarrow> match_pattern \<Rightarrow> match_pattern option" where
  "clone_loop 0 frames current = None"
| "clone_loop (Suc n) frames current = (case clone_step frames current of
       Inl (frames', current') \<Rightarrow> clone_loop n frames' current'
     | Inr completed \<Rightarrow> Some completed)"

definition pattern_clone :: "match_pattern \<Rightarrow> match_pattern option" where
  "pattern_clone p = clone_loop (length (pattern_nodes p)) [] p"

text \<open>What the open frames and the current node denote, and the nodes still to be visited.\<close>

fun plug :: "clone_frame list \<Rightarrow> match_pattern \<Rightarrow> match_pattern" where
  "plug [] p = p"
| "plug (f # fs) p = plug fs (MP_EnumVariant (cf_enum_name f) (cf_variant f) (cf_fields f @ p # cf_remaining f))"

definition frames_left :: "clone_frame list \<Rightarrow> nat" where
  "frames_left fs = sum_list (map (\<lambda>f. length (forest_nodes (cf_remaining f))) fs)"

lemma pattern_nodes_ne [simp]: "pattern_nodes p \<noteq> []"
  by (cases p) auto

lemma clone_complete_plug:
  "case clone_complete fs c of
     Inl (fs', p) \<Rightarrow> plug fs' p = plug fs c \<and> frames_left fs' + length (pattern_nodes p) = frames_left fs
   | Inr r \<Rightarrow> r = plug fs c"
proof (induction fs c rule: clone_complete.induct)
  case (2 f fs c)
  then show ?case
    by (cases "cf_remaining f") (auto simp: Let_def frames_left_def split: sum.splits)
qed simp

lemma clone_step_plug:
  "case clone_step fs c of
     Inl (fs', p) \<Rightarrow> plug fs' p = plug fs c
       \<and> frames_left fs' + length (pattern_nodes p) < frames_left fs + length (pattern_nodes c)
   | Inr r \<Rightarrow> r = plug fs c"
  using clone_complete_plug [of fs c]
  by (auto simp: clone_step_def frames_left_def forest_nodes_def
      split: match_pattern.splits list.splits sum.splits)

lemma clone_loop_plug:
  "frames_left fs + length (pattern_nodes p) \<le> n \<Longrightarrow> clone_loop n fs p = Some (plug fs p)"
proof (induction n arbitrary: fs p)
  case (Suc n)
  then show ?case using clone_step_plug [of fs p] by (auto split: sum.splits)
qed simp

text \<open>C16: The iterative \<open>Clone\<close> of match patterns ends after visiting every node once and returns
  an identical pattern.\<close>

theorem pattern_clone_identical: "pattern_clone p = Some p"
  unfolding pattern_clone_def by (subst clone_loop_plug) (simp_all add: frames_left_def)

section \<open>Destruction\<close>

text \<open>A popped node hands its fields to the worklist before its own destructor runs; the trace
  records every node in the state in which it is destroyed.\<close>

definition detach :: "match_pattern \<Rightarrow> match_pattern" where
  "detach p = (case p of MP_EnumVariant e v fs \<Rightarrow> MP_EnumVariant e v [] | _ \<Rightarrow> p)"

definition fields_of :: "match_pattern \<Rightarrow> match_pattern list" where
  "fields_of p = (case p of MP_EnumVariant e v fs \<Rightarrow> fs | _ \<Rightarrow> [])"

definition drop_step :: "match_pattern \<Rightarrow> unit + (match_pattern list \<times> match_pattern list)" where
  "drop_step node = Inr ([detach node], rev (fields_of node))"

definition pattern_drop :: "match_pattern \<Rightarrow> (unit + match_pattern list) option" where
  "pattern_drop p =
     (if fields_of p = [] then Some (Inr [])
      else worklist_fuel (length (pattern_nodes p)) drop_step (rev (fields_of p)))"

function drop_trace :: "match_pattern \<Rightarrow> unit + match_pattern list" where
  "drop_trace p = seq_result (Inr [detach p]) (seq_map drop_trace (rev (fields_of p)))"
  by auto
termination
  by (relation "measure size")
    (auto simp: fields_of_def less_Suc_eq_le split: match_pattern.splits intro: size_list_estimation')

declare drop_trace.simps [simp del]

lemma forest_nodes_sum: "length (forest_nodes ps) = sum_list (map (length \<circ> pattern_nodes) ps)"
  by (simp add: forest_nodes_def length_concat)

lemma nodes_fields: "pattern_nodes p = p # forest_nodes (fields_of p)"
  by (cases p) (auto simp: fields_of_def forest_nodes_def)

interpretation drop_worklist: worklist drop_step "\<lambda>p. length (pattern_nodes p)" drop_trace
proof unfold_locales
  fix p out qs
  assume "drop_step p = Inr (out, qs)"
  then show "sum_list (map (\<lambda>p. length (pattern_nodes p)) qs) < length (pattern_nodes p)"
    by (auto simp: drop_step_def nodes_fields [of p] forest_nodes_sum comp_def rev_map [symmetric] simp del: rev_map)
next
  fix p
  show "drop_trace p = (case drop_step p of Inl e \<Rightarrow> Inl e
      | Inr (out, qs) \<Rightarrow> seq_result (Inr out) (seq_map drop_trace qs))"
    by (subst drop_trace.simps) (simp add: drop_step_def)
qed

lemma seq_map_mset:
  assumes "\<And>p. p \<in> set ps \<Longrightarrow> \<exists>xs. f p = Inr xs \<and> mset xs = mset (g p)"
  shows "\<exists>xs. seq_map f (rev ps) = Inr xs \<and> mset xs = mset (concat (map g ps))"
  using assms
proof (induction ps)
  case (Cons p ps)
  then obtain xs ys where "f p = Inr xs" "mset xs = mset (g p)"
    "seq_map f (rev ps) = Inr ys" "mset ys = mset (concat (map g ps))" by force
  then show ?case by (simp add: seq_map_append)
qed simp

lemma drop_trace_mset: "\<exists>xs. drop_trace p = Inr xs \<and> mset xs = mset (map detach (pattern_nodes p))"
proof (induction p rule: drop_trace.induct)
  case (1 p)
  have "\<exists>xs. seq_map drop_trace (rev (fields_of p)) = Inr xs
      \<and> mset xs = mset (concat (map (\<lambda>p. map detach (pattern_nodes p)) (fields_of p)))"
    by (rule seq_map_mset) (rule 1, simp)
  then show ?case
    by (auto simp: drop_trace.simps [of p] nodes_fields [of p] forest_nodes_def map_concat comp_def)
qed

text \<open>The iterative \<open>Drop\<close> of match patterns ends, destroys every node below the root exactly
  once, and destroys each of them without fields, so that no destructor recurses.\<close>

lemma pattern_drop_complete:
  "\<exists>xs. pattern_drop p = Some (Inr xs)
     \<and> mset xs + {#detach p#} = mset (map detach (pattern_nodes p))
     \<and> list_all (\<lambda>q. fields_of q = []) xs"
proof -
  have det: "fields_of (detach q) = []" for q
    by (cases q) (auto simp: detach_def fields_of_def)
  obtain xs where tr: "seq_map drop_trace (rev (fields_of p)) = Inr xs"
    and ms: "mset xs = mset (concat (map (\<lambda>p. map detach (pattern_nodes p)) (fields_of p)))"
    using seq_map_mset [of "fields_of p" drop_trace "\<lambda>p. map detach (pattern_nodes p)"] drop_trace_mset by blast
  have "worklist_fuel (length (pattern_nodes p)) drop_step (rev (fields_of p)) = Some (Inr xs)"
    using tr by (subst drop_worklist.run)
      (auto simp: nodes_fields [of p] forest_nodes_sum comp_def rev_map [symmetric] simp del: rev_map)
  then have "pattern_drop p = Some (Inr xs)" using ms by (auto simp: pattern_drop_def)
  moreover have "mset xs + {#detach p#} = mset (map detach (pattern_nodes p))"
    using ms by (simp add: nodes_fields [of p] forest_nodes_def map_concat comp_def)
  moreover have "set xs \<subseteq> range detach"
    using mset_eq_setD [OF ms] by auto
  then have "list_all (\<lambda>q. fields_of q = []) xs" using det by (auto simp: list_all_iff)
  ultimately show ?thesis by blast
qed

end
