(* ===== verification/Pattern_Debug.thy ===== *)
theory Pattern_Debug
  imports Ast_Match_Pattern
begin

text \<open>
  The iterative \<open>Debug\<close> of match patterns (\<open>src/src/ast/match_pattern.rs\<close>), in compact and in
  pretty form. The output of the standard library for the leaves (strings and numbers) is a
  record of functions. The reference is the derived implementation: \<open>debug_tuple\<close>,
  \<open>debug_struct\<close> and \<open>debug_list\<close>, whose pretty form indents nested output with the padding
  adapter of the standard library.
\<close>

section \<open>The loop\<close>

record leaf_fmt =
  lf_str :: "ustring \<Rightarrow> ustring"
  lf_int :: "i64 \<Rightarrow> ustring"
  lf_float :: "f64 \<Rightarrow> ustring"
  lf_bool :: "bool \<Rightarrow> ustring"

datatype debug_work =
    DW_Pattern match_pattern nat
  | DW_Fields "match_pattern list" nat bool
  | DW_Literal literal nat
  | DW_Text ustring
  | DW_TupleEnd nat
  | DW_EnumEnd nat

definition NL :: uchar where
  "NL = 10"

definition SPACES :: ustring where
  "SPACES = lit ''    ''"

primrec indent :: "nat \<Rightarrow> ustring" where
  "indent 0 = []"
| "indent (Suc d) = SPACES @ indent d"

definition tuple_start :: "string \<Rightarrow> nat \<Rightarrow> ustring" where
  "tuple_start name depth = lit name @ lit ''('' @ [NL] @ indent (depth + 1)"

definition tuple_end :: "nat \<Rightarrow> ustring" where
  "tuple_end depth = lit '','' @ [NL] @ indent depth @ lit '')''"

definition literal_tuple :: "string \<Rightarrow> ustring \<Rightarrow> nat \<Rightarrow> ustring" where
  "literal_tuple name v depth = tuple_start name depth @ v @ tuple_end depth"

text \<open>The literal at the current relative indent.\<close>

definition debug_literal_pretty :: "leaf_fmt \<Rightarrow> literal \<Rightarrow> nat \<Rightarrow> ustring" where
  "debug_literal_pretty f l depth = (case l of
       Lit_Int v \<Rightarrow> literal_tuple ''Int'' (lf_int f v) depth
     | Lit_Float v \<Rightarrow> literal_tuple ''Float'' (lf_float f v) depth
     | Lit_Bool v \<Rightarrow> literal_tuple ''Bool'' (lf_bool f v) depth
     | Lit_String v \<Rightarrow> literal_tuple ''String'' (lf_str f v) depth
     | Lit_TemplateString v \<Rightarrow> literal_tuple ''TemplateString'' (lf_str f v) depth
     | Lit_Null \<Rightarrow> lit ''Null'')"

text \<open>The derived \<open>Debug\<close> of \<open>Literal\<close>, compact.\<close>

definition debug_literal_compact :: "leaf_fmt \<Rightarrow> literal \<Rightarrow> ustring" where
  "debug_literal_compact f l = (case l of
       Lit_Int v \<Rightarrow> lit ''Int('' @ lf_int f v @ lit '')''
     | Lit_Float v \<Rightarrow> lit ''Float('' @ lf_float f v @ lit '')''
     | Lit_Bool v \<Rightarrow> lit ''Bool('' @ lf_bool f v @ lit '')''
     | Lit_String v \<Rightarrow> lit ''String('' @ lf_str f v @ lit '')''
     | Lit_TemplateString v \<Rightarrow> lit ''TemplateString('' @ lf_str f v @ lit '')''
     | Lit_Null \<Rightarrow> lit ''Null'')"

definition debug_pattern :: "leaf_fmt \<Rightarrow> bool \<Rightarrow> match_pattern \<Rightarrow> nat \<Rightarrow> ustring \<times> debug_work list" where
  "debug_pattern f pretty p depth = (case p of
       MP_Wildcard \<Rightarrow> (lit ''Wildcard'', [])
     | MP_Binding name \<Rightarrow>
         (if pretty then (tuple_start ''Binding'' depth @ lf_str f name @ tuple_end depth, [])
          else (lit ''Binding('' @ lf_str f name @ lit '')'', []))
     | MP_Literal l \<Rightarrow>
         (if pretty then (tuple_start ''Literal'' depth, [DW_Literal l (depth + 1), DW_TupleEnd depth])
          else (lit ''Literal('' @ debug_literal_compact f l @ lit '')'', []))
     | MP_EnumVariant e v fs \<Rightarrow>
         (if pretty then
            (let head = lit ''EnumVariant {'' @ [NL] @ indent (depth + 1) @ lit ''enum_name: '' @ lf_str f e
                 @ lit '','' @ [NL] @ indent (depth + 1) @ lit ''variant: '' @ lf_str f v
                 @ lit '','' @ [NL] @ indent (depth + 1) @ lit ''fields: '' in
             if fs = [] then (head @ lit ''[],'' @ [NL] @ indent depth @ lit ''}'', [])
             else (head @ lit ''['' @ [NL], [DW_Fields fs (depth + 2) True, DW_EnumEnd depth]))
          else (lit ''EnumVariant { enum_name: '' @ lf_str f e @ lit '', variant: '' @ lf_str f v
                  @ lit '', fields: ['',
                [DW_Fields fs depth True, DW_Text (lit ''] }'')])))"

definition debug_fields :: "bool \<Rightarrow> match_pattern list \<Rightarrow> nat \<Rightarrow> bool \<Rightarrow> ustring \<times> debug_work list" where
  "debug_fields pretty fs depth first = (case fs of
       [] \<Rightarrow> ([], [])
     | field # rest \<Rightarrow>
         (if pretty then indent depth else if \<not> first then lit '', '' else [],
          [DW_Pattern field depth] @ (if pretty then [DW_Text (lit '','' @ [NL])] else [])
            @ [DW_Fields rest depth False]))"

definition debug_step :: "leaf_fmt \<Rightarrow> bool \<Rightarrow> debug_work \<Rightarrow> unit + (ustring \<times> debug_work list)" where
  "debug_step f pretty w = Inr (case w of
       DW_Pattern p depth \<Rightarrow> debug_pattern f pretty p depth
     | DW_Fields fs depth first \<Rightarrow> debug_fields pretty fs depth first
     | DW_Literal l depth \<Rightarrow> (debug_literal_pretty f l depth, [])
     | DW_Text text \<Rightarrow> (text, [])
     | DW_TupleEnd depth \<Rightarrow> (tuple_end depth, [])
     | DW_EnumEnd depth \<Rightarrow> (indent (depth + 1) @ lit ''],'' @ [NL] @ indent depth @ lit ''}'', []))"

fun work_weight :: "debug_work \<Rightarrow> nat" where
  "work_weight (DW_Pattern p d) = 8 * size p + 4"
| "work_weight (DW_Fields ps d b) = 8 * size_list size ps + 1"
| "work_weight (DW_Literal l d) = 1"
| "work_weight (DW_Text t) = 1"
| "work_weight (DW_TupleEnd d) = 1"
| "work_weight (DW_EnumEnd d) = 1"

definition pattern_debug :: "leaf_fmt \<Rightarrow> bool \<Rightarrow> match_pattern \<Rightarrow> (unit + ustring) option" where
  "pattern_debug f pretty p =
     worklist_fuel (work_weight (DW_Pattern p 0) + 1) (debug_step f pretty) [DW_Pattern p 0]"

section \<open>The derived implementation\<close>

text \<open>The padding adapter: four spaces in front of everything that starts a line.\<close>

fun pad :: "bool \<Rightarrow> ustring \<Rightarrow> ustring" where
  "pad on_newline [] = []"
| "pad on_newline (c # cs) = (if on_newline then SPACES else []) @ c # pad (c = NL) cs"

definition padded :: "ustring \<Rightarrow> ustring" where
  "padded s = pad True (s @ lit '','' @ [NL])"

definition debug_tuple :: "bool \<Rightarrow> string \<Rightarrow> ustring \<Rightarrow> ustring" where
  "debug_tuple pretty name v =
     (if pretty then lit name @ lit ''('' @ [NL] @ padded v @ lit '')''
      else lit name @ lit ''('' @ v @ lit '')'')"

fun comma_join :: "ustring list \<Rightarrow> ustring" where
  "comma_join [] = []"
| "comma_join [x] = x"
| "comma_join (x # xs) = x @ lit '', '' @ comma_join xs"

definition debug_list :: "bool \<Rightarrow> ustring list \<Rightarrow> ustring" where
  "debug_list pretty vs =
     (if pretty \<and> vs \<noteq> [] then lit ''['' @ [NL] @ concat (map padded vs) @ lit '']''
      else lit ''['' @ comma_join vs @ lit '']'')"

definition debug_struct :: "bool \<Rightarrow> string \<Rightarrow> (string \<times> ustring) list \<Rightarrow> ustring" where
  "debug_struct pretty name fs =
     (let entries = map (\<lambda>(x, v). lit x @ lit '': '' @ v) fs in
      if pretty then lit name @ lit '' {'' @ [NL] @ concat (map padded entries) @ lit ''}''
      else lit name @ lit '' { '' @ comma_join entries @ lit '' }'')"

definition derived_literal :: "leaf_fmt \<Rightarrow> bool \<Rightarrow> literal \<Rightarrow> ustring" where
  "derived_literal f pretty l = (case l of
       Lit_Int v \<Rightarrow> debug_tuple pretty ''Int'' (lf_int f v)
     | Lit_Float v \<Rightarrow> debug_tuple pretty ''Float'' (lf_float f v)
     | Lit_Bool v \<Rightarrow> debug_tuple pretty ''Bool'' (lf_bool f v)
     | Lit_String v \<Rightarrow> debug_tuple pretty ''String'' (lf_str f v)
     | Lit_TemplateString v \<Rightarrow> debug_tuple pretty ''TemplateString'' (lf_str f v)
     | Lit_Null \<Rightarrow> lit ''Null'')"

fun derived_debug :: "leaf_fmt \<Rightarrow> bool \<Rightarrow> match_pattern \<Rightarrow> ustring" where
  "derived_debug f pretty MP_Wildcard = lit ''Wildcard''"
| "derived_debug f pretty (MP_Binding x) = debug_tuple pretty ''Binding'' (lf_str f x)"
| "derived_debug f pretty (MP_Literal l) = debug_tuple pretty ''Literal'' (derived_literal f pretty l)"
| "derived_debug f pretty (MP_EnumVariant e v fs) =
     debug_struct pretty ''EnumVariant'' [(''enum_name'', lf_str f e), (''variant'', lf_str f v),
       (''fields'', debug_list pretty (map (derived_debug f pretty) fs))]"

section \<open>Indentation\<close>

text \<open>\<open>shift d\<close> indents every line after the first by \<open>d\<close> levels.\<close>

definition shift :: "nat \<Rightarrow> ustring \<Rightarrow> ustring" where
  "shift d s = concat (map (\<lambda>c. if c = NL then NL # indent d else [c]) s)"

lemma shift_append [simp]: "shift d (s @ t) = shift d s @ shift d t"
  by (simp add: shift_def)

lemma shift_Nil [simp]: "shift d [] = []"
  by (simp add: shift_def)

lemma shift_NL [simp]: "shift d (NL # s) = NL # indent d @ shift d s"
  by (simp add: shift_def)

lemma shift_line [simp]: "NL \<notin> set s \<Longrightarrow> shift d s = s"
  by (induction s) (auto simp: shift_def)

lemma SPACES_line [simp]: "NL \<notin> set SPACES"
  by (simp add: SPACES_def NL_def lit_def ch_def)

lemma indent_line [simp]: "NL \<notin> set (indent d)"
  by (induction d) auto

lemma NL_ch: "NL = ch CHR 0x0A"
  by (simp add: NL_def ch_def)

lemma lit_line [simp]: "CHR 0x0A \<notin> set s \<Longrightarrow> NL \<notin> set (lit s)"
  by (auto simp: NL_ch lit_def)

lemma indent_add: "indent d @ SPACES @ x = SPACES @ indent d @ x"
  by (induction d) auto

lemma shift_0 [simp]: "shift 0 s = s"
  by (induction s) (auto simp: shift_def)

lemma shift_Cons [simp]: "c \<noteq> NL \<Longrightarrow> shift d (c # s) = c # shift d s"
  by (simp add: shift_def)

lemma shift_shift: "shift d (shift (Suc 0) s) = shift (Suc d) s"
proof (induction s)
  case (Cons c s)
  then show ?case by (cases "c = NL") (simp_all add: indent_add)
qed simp

lemma pad_shift:
  "s \<noteq> [] \<Longrightarrow> last s \<noteq> NL \<Longrightarrow> pad b (s @ t) = (if b then SPACES else []) @ shift 1 s @ pad False t"
proof (induction s arbitrary: b)
  case (Cons c s)
  show ?case
  proof (cases "s = []")
    case True
    then show ?thesis using Cons.prems by (simp add: shift_def)
  next
    case False
    then show ?thesis using Cons by (auto simp: shift_def)
  qed
qed simp

definition ends_line :: "ustring \<Rightarrow> bool" where
  "ends_line s \<longleftrightarrow> s \<noteq> [] \<and> last s = NL"

lemma ends_line_simps [simp]:
  "NL \<notin> set s \<Longrightarrow> \<not> ends_line s"
  "t \<noteq> [] \<Longrightarrow> ends_line (s @ t) = ends_line t"
  "t \<noteq> [] \<Longrightarrow> ends_line (c # t) = ends_line t"
  by (auto simp: ends_line_def) (metis last_in_set)

lemma padded_eq: "\<not> ends_line s \<Longrightarrow> padded s = SPACES @ shift 1 s @ lit '','' @ [NL]"
  by (cases "s = []") (simp_all add: padded_def pad_shift ends_line_def lit_def NL_ch)

lemma shift_padded:
  "\<not> ends_line s \<Longrightarrow> indent d @ shift d (padded s)
     = indent (Suc d) @ shift (Suc d) s @ lit '','' @ [NL] @ indent d"
  by (simp add: padded_eq shift_shift indent_add)

lemma lit_ne [simp]: "lit s = [] \<longleftrightarrow> s = []"
  by (simp add: lit_def)

lemma shift_padded_list:
  "(\<And>v. v \<in> set vs \<Longrightarrow> \<not> ends_line v) \<Longrightarrow>
   indent d @ shift d (concat (map padded vs))
     = concat (map (\<lambda>v. indent (Suc d) @ shift (Suc d) v @ lit '','' @ [NL]) vs) @ indent d"
proof (induction vs)
  case (Cons v vs)
  have "indent d @ shift d (concat (map padded (v # vs)))
      = (indent d @ shift d (padded v)) @ shift d (concat (map padded vs))" by simp
  also have "\<dots> = indent (Suc d) @ shift (Suc d) v @ lit '','' @ [NL] @ indent d
      @ shift d (concat (map padded vs))"
    using shift_padded [of v d] Cons.prems by simp
  finally show ?case using Cons by (simp del: indent.simps)
qed simp

section \<open>The loop computes the derived output\<close>

definition leaf_lines :: "leaf_fmt \<Rightarrow> bool" where
  "leaf_lines f \<longleftrightarrow> (\<forall>x. NL \<notin> set (lf_str f x)) \<and> (\<forall>x. NL \<notin> set (lf_int f x))
     \<and> (\<forall>x. NL \<notin> set (lf_float f x)) \<and> (\<forall>x. NL \<notin> set (lf_bool f x))"

lemma ends_tuple [simp]: "\<not> ends_line (debug_tuple b name v)"
  by (simp add: debug_tuple_def)

lemma ends_list [simp]: "\<not> ends_line (debug_list b vs)"
  by (simp add: debug_list_def)

lemma ends_struct [simp]: "\<not> ends_line (debug_struct b name fs)"
  by (simp add: debug_struct_def Let_def)

lemma ends_derived_literal [simp]: "\<not> ends_line (derived_literal f b l)"
  by (cases l) (simp_all add: derived_literal_def)

lemma ends_derived [simp]: "\<not> ends_line (derived_debug f b p)"
  by (cases p) simp_all

lemma shift_tuple:
  assumes "\<not> ends_line v" and "CHR 0x0A \<notin> set name"
  shows "shift d (debug_tuple True name v) = tuple_start name d @ shift (Suc d) v @ tuple_end d"
  using shift_padded [OF assms(1), of d] assms(2)
  by (simp add: debug_tuple_def tuple_start_def tuple_end_def del: indent.simps)

lemma shift_literal:
  "leaf_lines f \<Longrightarrow> shift d (derived_literal f True l) = debug_literal_pretty f l d"
  by (cases l) (simp_all add: derived_literal_def debug_literal_pretty_def literal_tuple_def shift_tuple
      leaf_lines_def)

lemma compact_literal: "derived_literal f False l = debug_literal_compact f l"
  by (cases l) (simp_all add: derived_literal_def debug_literal_compact_def debug_tuple_def lit_def)

fun work_text :: "leaf_fmt \<Rightarrow> bool \<Rightarrow> debug_work \<Rightarrow> ustring" where
  "work_text f pretty (DW_Pattern p d) =
     (if pretty then shift d (derived_debug f True p) else derived_debug f False p)"
| "work_text f pretty (DW_Fields fs d first) =
     (if pretty then concat (map (\<lambda>p. indent d @ shift d (derived_debug f True p) @ lit '','' @ [NL]) fs)
      else (if first \<or> fs = [] then [] else lit '', '') @ comma_join (map (derived_debug f False) fs))"
| "work_text f pretty (DW_Literal l d) = debug_literal_pretty f l d"
| "work_text f pretty (DW_Text t) = t"
| "work_text f pretty (DW_TupleEnd d) = tuple_end d"
| "work_text f pretty (DW_EnumEnd d) = indent (d + 1) @ lit ''],'' @ [NL] @ indent d @ lit ''}''"

lemma seq_map_texts: "seq_map (\<lambda>w. Inr (g w)) ws = Inr (concat (map g ws))"
  by (induction ws) simp_all

lemma debug_fields_text:
  "work_text f pretty (DW_Fields fs d first) =
     fst (debug_fields pretty fs d first) @ concat (map (work_text f pretty) (snd (debug_fields pretty fs d first)))"
  by (cases fs; cases "tl fs") (auto simp: debug_fields_def)

lemma shift_padded_tail:
  "(\<And>v. v \<in> set vs \<Longrightarrow> \<not> ends_line v) \<Longrightarrow>
   indent d @ shift d (concat (map padded vs)) @ rest
     = concat (map (\<lambda>v. indent (Suc d) @ shift (Suc d) v @ lit '','' @ [NL]) vs) @ indent d @ rest"
  using shift_padded_list [of vs d] by (metis append_assoc)

lemma debug_list_ne [simp]: "debug_list b vs \<noteq> []"
  by (simp add: debug_list_def)

lemma shift_list:
  assumes "\<And>v. v \<in> set vs \<Longrightarrow> \<not> ends_line v"
  shows "shift d (debug_list True vs) = (if vs = [] then lit ''[]''
    else lit ''['' @ [NL] @ concat (map (\<lambda>v. indent (Suc d) @ shift (Suc d) v @ lit '','' @ [NL]) vs)
      @ indent d @ lit '']'')"
  using shift_padded_tail [OF assms, of vs d "lit '']''"]
  by (simp add: debug_list_def lit_append [symmetric] del: indent.simps)

lemma shift_struct:
  assumes "\<And>x v. (x, v) \<in> set fs \<Longrightarrow> \<not> ends_line (lit x @ lit '': '' @ v)" and "CHR 0x0A \<notin> set name"
  shows "shift d (debug_struct True name fs) = lit name @ lit '' {'' @ [NL]
    @ concat (map (\<lambda>(x, v). indent (Suc d) @ shift (Suc d) (lit x @ lit '': '' @ v) @ lit '','' @ [NL]) fs)
    @ indent d @ lit ''}''"
proof -
  let ?vs = "map (\<lambda>(x, v). lit x @ lit '': '' @ v) fs"
  have "indent d @ shift d (concat (map padded ?vs)) @ lit ''}''
      = concat (map (\<lambda>v. indent (Suc d) @ shift (Suc d) v @ lit '','' @ [NL]) ?vs) @ indent d @ lit ''}''"
    by (rule shift_padded_tail) (use assms(1) in auto)
  moreover have "concat (map (\<lambda>v. indent (Suc d) @ shift (Suc d) v @ lit '','' @ [NL]) ?vs)
      = concat (map (\<lambda>(x, v). indent (Suc d) @ shift (Suc d) (lit x @ lit '': '' @ v) @ lit '','' @ [NL]) fs)"
    unfolding map_map comp_def by (intro arg_cong [where f = concat] map_cong) auto
  moreover have "shift d (debug_struct True name fs)
      = lit name @ lit '' {'' @ NL # indent d @ shift d (concat (map padded ?vs)) @ lit ''}''"
    using assms(2) by (simp add: debug_struct_def Let_def del: map_map)
  ultimately show ?thesis by simp
qed

lemma debug_pattern_text:
  assumes "leaf_lines f"
  shows "work_text f pretty (DW_Pattern p d) =
     fst (debug_pattern f pretty p d) @ concat (map (work_text f pretty) (snd (debug_pattern f pretty p d)))"
proof (cases p)
  case (MP_EnumVariant e v fs)
  have leaf: "NL \<notin> set (lf_str f e)" "NL \<notin> set (lf_str f v)"
    using assms by (auto simp: leaf_lines_def)
  show ?thesis
  proof (cases pretty)
    case True
    have "shift d (derived_debug f True p) = lit ''EnumVariant'' @ lit '' {'' @ [NL]
        @ (indent (Suc d) @ (lit ''enum_name'' @ lit '': '' @ lf_str f e) @ lit '','' @ [NL])
        @ (indent (Suc d) @ (lit ''variant'' @ lit '': '' @ lf_str f v) @ lit '','' @ [NL])
        @ (indent (Suc d) @ (lit ''fields'' @ lit '': '' @
            shift (Suc d) (debug_list True (map (derived_debug f True) fs))) @ lit '','' @ [NL])
        @ indent d @ lit ''}''"
      unfolding MP_EnumVariant derived_debug.simps
      by (subst shift_struct) (use leaf in \<open>auto simp del: indent.simps\<close>)
    moreover have "shift (Suc d) (debug_list True (map (derived_debug f True) fs)) = (if fs = [] then lit ''[]''
      else lit ''['' @ [NL] @ concat (map (\<lambda>p. indent (Suc (Suc d)) @ shift (Suc (Suc d)) (derived_debug f True p)
        @ lit '','' @ [NL]) fs) @ indent (Suc d) @ lit '']'')"
      by (subst shift_list) (auto simp: comp_def simp del: indent.simps)
    ultimately show ?thesis using True MP_EnumVariant
      by (simp add: debug_pattern_def Let_def lit_def del: indent.simps)
  next
    case False
    then show ?thesis using MP_EnumVariant
      by (simp add: debug_pattern_def debug_struct_def debug_list_def lit_def)
  qed
next
  case (MP_Binding x)
  then show ?thesis using assms
    by (cases pretty) (simp_all add: debug_pattern_def shift_tuple leaf_lines_def debug_tuple_def [of False] lit_def)
next
  case (MP_Literal l)
  then show ?thesis using assms
    by (cases pretty) (simp_all add: debug_pattern_def shift_tuple shift_literal compact_literal
        debug_tuple_def [of False] lit_def)
qed (simp add: debug_pattern_def)

lemma work_text_step:
  assumes "leaf_lines f"
  shows "Inr (work_text f pretty w) = (case debug_step f pretty w of Inl e \<Rightarrow> Inl e
    | Inr (out, ws) \<Rightarrow> seq_result (Inr out) (seq_map (\<lambda>w. Inr (work_text f pretty w)) ws))"
  using debug_pattern_text [OF assms] debug_fields_text
  by (cases w) (auto simp: debug_step_def seq_map_texts split_beta simp del: work_text.simps(1,2))

lemma debug_step_weight:
  "debug_step f pretty w = Inr (out, ws) \<Longrightarrow> sum_list (map work_weight ws) < work_weight w"
  by (cases w) (auto simp: debug_step_def debug_pattern_def debug_fields_def Let_def
      split: match_pattern.splits list.splits if_splits)

lemma pattern_debug_eq:
  assumes "leaf_lines f"
  shows "pattern_debug f pretty p = Some (Inr (derived_debug f pretty p))"
proof -
  have "worklist (debug_step f pretty) work_weight (\<lambda>w. Inr (work_text f pretty w))"
    using debug_step_weight work_text_step [OF assms] by unfold_locales
  from worklist.run [OF this, of "[DW_Pattern p 0]"] show ?thesis
    by (simp add: pattern_debug_def)
qed

text \<open>C18: The iterative \<open>Debug\<close> of match patterns, compact and pretty, ends and prints exactly what
  the derived, recursive implementation prints through the standard padding adapter, whenever the
  printed strings and numbers contain no line break.\<close>

theorem pattern_debug_derived:
  "leaf_lines f \<Longrightarrow> pattern_debug f pretty p = Some (Inr (derived_debug f pretty p))"
  by (rule pattern_debug_eq)

definition sample_fmt :: leaf_fmt where
  "sample_fmt = \<lparr>lf_str = filter (\<lambda>c. c \<noteq> NL), lf_int = (\<lambda>_. lit ''0''), lf_float = (\<lambda>_. lit ''0.0''),
     lf_bool = (\<lambda>b. if b then lit ''true'' else lit ''false'')\<rparr>"

theorem pattern_debug_derived_witness:
  "leaf_lines sample_fmt \<and>
   pattern_debug sample_fmt False (MP_EnumVariant (lit ''Opt'') (lit ''Some'') [MP_Wildcard, MP_Binding (lit ''x'')])
     = Some (Inr (lit ''EnumVariant { enum_name: Opt, variant: Some, fields: [Wildcard, Binding(x)] }''))"
proof -
  have l: "leaf_lines sample_fmt" by (simp add: leaf_lines_def sample_fmt_def)
  show ?thesis using pattern_debug_derived [OF l] l
    by (simp add: debug_struct_def debug_list_def debug_tuple_def sample_fmt_def lit_def NL_def ch_def)
qed

end
