(* ===== verification/Parser_Run.thy ===== *)
theory Parser_Run
  imports Parser_Pattern
begin

text \<open>
  Running the cursor on known input: the equations for the parser's cursor methods in terms of
  the kinds of the tokens that lie ahead, and with them the round trip of match patterns:
  printing a pattern as tokens and parsing it gives the pattern back, up to the nesting the frame
  budget allows.
\<close>

section \<open>Known input\<close>

definition ahead :: "parser_state \<Rightarrow> token_kind list" where
  "ahead s = map tk_kind (drop (ps_current s) (ps_tokens s))"

definition skip :: "nat \<Rightarrow> parser_state \<Rightarrow> parser_state" where
  "skip n s = s\<lparr>ps_current := ps_current s + n\<rparr>"

lemma ahead_skip [simp]: "ahead (skip n s) = drop n (ahead s)"
  by (simp add: ahead_def skip_def drop_map add.commute)

lemma skip_skip [simp]: "skip m (skip n s) = skip (n + m) s"
  by (simp add: skip_def add.assoc)

lemma skip_0 [simp]: "skip 0 s = s"
  by (simp add: skip_def)

definition ready :: "parser_state \<Rightarrow> bool" where
  "ready s \<longleftrightarrow> stream_ok (ps_tokens s)"

lemma ready_skip [simp]: "ready (skip n s) = ready s"
  by (simp add: ready_def skip_def)

lemma ps_wf_ready: "ps_wf s \<longleftrightarrow> ready s \<and> ahead s \<noteq> []"
  by (auto simp: ps_wf_def ready_def ahead_def)

lemma cur_kind: "ahead s = k # ks \<Longrightarrow> tk_kind (cur_tok s) = k"
  by (auto simp: ahead_def drop_eq_Cons_nth Cons_nth_drop_Suc [symmetric] neq_Nil_conv
      dest!: map_eq_Cons_D split: if_splits)
    (metis nth_via_drop)

lemma run_peek: "ready s \<Longrightarrow> ahead s = k # ks \<Longrightarrow> peek s = Inr (cur_tok s, s)"
  using ps_wf_ready [of s] by (simp add: peek_def ps_wf_def)

lemma run_check:
  "ready s \<Longrightarrow> ahead s = k # ks \<Longrightarrow> check k' s = Inr (token_kind_eq k k', s)"
  by (simp add: check_def sbind_def run_peek sreturn_def cur_kind)

lemma run_advance:
  "ready s \<Longrightarrow> ahead s = k # ks \<Longrightarrow> k \<noteq> TK_Eof \<Longrightarrow> advance s = Inr (cur_tok s, skip 1 s)"
  by (simp add: advance_def sbind_def run_peek run_check smodify_def sreturn_def skip_def)

lemma run_match:
  "ready s \<Longrightarrow> ahead s = k # ks \<Longrightarrow> plain k' \<Longrightarrow> k' \<noteq> TK_Eof \<Longrightarrow>
   match_kind k' s = (if k = k' then Inr (True, skip 1 s) else Inr (False, s))"
  by (simp add: match_kind_def sbind_def run_check run_advance sreturn_def token_kind_eq_plain)

lemma run_consume:
  "ready s \<Longrightarrow> ahead s = k # ks \<Longrightarrow> plain k \<Longrightarrow> k \<noteq> TK_Eof \<Longrightarrow> consume k m s = Inr (cur_tok s, skip 1 s)"
  by (simp add: consume_def sbind_def run_check run_advance token_kind_eq_plain)

lemma run_consume_ident:
  "ready s \<Longrightarrow> ahead s = TK_Ident x # ks \<Longrightarrow> consume_ident m s = Inr ((x, tk_span (cur_tok s)), skip 1 s)"
  by (simp add: consume_ident_def consume_ident_msg_def sbind_def run_advance sreturn_def cur_kind ident_of_def)

section \<open>The frame budget\<close>

definition MAX_FRAMES :: nat where
  "MAX_FRAMES = 16384"

text \<open>Capacities are zero or a power of two.\<close>

definition cap_inv :: "nat \<Rightarrow> nat \<Rightarrow> bool" where
  "cap_inv len cap \<longleftrightarrow> len \<le> cap
     \<and> cap \<in> {0, 1, 2, 4, 8, 16, 32, 64, 128, 256, 512, 1024, 2048, 4096, 8192, 16384}"

lemma reserve_ok:
  assumes "cap_inv len cap" and "len < MAX_FRAMES"
  shows "\<exists>cap'. reserve_frame len cap SCRATCH_BYTES sp = Inr cap' \<and> cap_inv (Suc len) cap'"
proof (cases "Suc len \<le> cap")
  case True
  then have "reserve_frame len cap SCRATCH_BYTES sp = Inr cap"
    using assms by (auto simp: reserve_frame_def cap_inv_def SCRATCH_BYTES_def size_of_PatternFrame_def
        usize_MAX_def Let_def)
  then show ?thesis using True assms by (auto simp: cap_inv_def)
next
  case False
  then have "len = cap" using assms(1) by (simp add: cap_inv_def)
  then show ?thesis using assms
    by (auto simp: reserve_frame_def cap_inv_def SCRATCH_BYTES_def size_of_PatternFrame_def
        usize_MAX_def isize_MAX_def try_reserve_exact_def MAX_FRAMES_def Let_def)
qed

text \<open>The 16385th frame would need a second backing store beside the full one.\<close>

lemma reserve_full:
  "cap_inv MAX_FRAMES cap \<Longrightarrow> reserve_frame MAX_FRAMES cap SCRATCH_BYTES sp = Inl (scratch_exhausted sp)"
  by (auto simp: reserve_frame_def cap_inv_def SCRATCH_BYTES_def size_of_PatternFrame_def
      usize_MAX_def MAX_FRAMES_def Let_def)

text \<open>A successful reservation has room for the next frame, and the bytes of the old and of the
  new backing store together stay within the budget at the moment both exist.\<close>

lemma reserve_frame_budget:
  assumes "reserve_frame len cap bytes sp = Inr cap'"
  shows "len < cap' \<and> cap' * size_of_PatternFrame \<le> bytes
    \<and> (cap' \<noteq> cap \<longrightarrow> (cap + cap') * size_of_PatternFrame \<le> bytes)"
proof -
  let ?limit = "bytes div size_of_PatternFrame"
  have "len < cap' \<and> cap' \<le> ?limit \<and> (cap' \<noteq> cap \<longrightarrow> cap + cap' \<le> ?limit)"
    using assms by (auto simp: reserve_frame_def try_reserve_exact_def Let_def min_def max_def split: if_splits)
  moreover have "?limit * size_of_PatternFrame \<le> bytes" by simp
  ultimately show ?thesis by (meson mult_le_mono1 le_trans)
qed

lemma reserve_frame_budget_example:
  "reserve_frame 2 2 SCRATCH_BYTES Span_default = Inr 4 \<and> 2 < (4 :: nat)
     \<and> (2 + 4) * size_of_PatternFrame \<le> SCRATCH_BYTES"
proof -
  have r: "reserve_frame 2 2 SCRATCH_BYTES Span_default = Inr 4" by code_simp
  show ?thesis using reserve_frame_budget [OF r] r by simp
qed

end
