(* ===== verification/Pattern_Roundtrip.thy ===== *)
theory Pattern_Roundtrip
  imports Parser_Run
begin

text \<open>
  Printing a match pattern as tokens and parsing the tokens back
  (\<open>src/src/parser/match_pattern.rs\<close>). The stack machine of the parser is followed pattern by
  pattern, for an arbitrary stack of open frames.
\<close>

section \<open>Printing\<close>

definition literal_kind :: "literal \<Rightarrow> token_kind" where
  "literal_kind l = (case l of
       Lit_Int v \<Rightarrow> TK_Int v | Lit_Float v \<Rightarrow> TK_Float v | Lit_Bool b \<Rightarrow> (if b then TK_True else TK_False)
     | Lit_String v \<Rightarrow> TK_String v | Lit_TemplateString v \<Rightarrow> TK_TemplateString v | Lit_Null \<Rightarrow> TK_Null)"

text \<open>An enum name with a dot is a qualified name.\<close>

definition enum_kinds :: "ustring \<Rightarrow> token_kind list" where
  "enum_kinds e = (let a = takeWhile (\<lambda>c. c \<noteq> ch CHR ''.'') e; b = dropWhile (\<lambda>c. c \<noteq> ch CHR ''.'') e in
     if b = [] then [TK_Ident a] else [TK_Ident a, TK_Dot, TK_Ident (tl b)])"

fun separated :: "token_kind list list \<Rightarrow> token_kind list" where
  "separated [] = []"
| "separated [ks] = ks"
| "separated (ks # kss) = ks @ TK_Comma # separated kss"

fun pattern_kinds :: "match_pattern \<Rightarrow> token_kind list" where
  "pattern_kinds MP_Wildcard = [TK_Ident (lit ''_'')]"
| "pattern_kinds (MP_Binding x) = [TK_Ident x]"
| "pattern_kinds (MP_Literal l) = [literal_kind l]"
| "pattern_kinds (MP_EnumVariant e v ps) = enum_kinds e @ [TK_Dot, TK_Ident v] @
     (if ps = [] then [] else TK_LParen # separated (map pattern_kinds ps) @ [TK_RParen])"

text \<open>Patterns that can be written down: the underscore is no name, template strings are no patterns.\<close>

fun printable :: "match_pattern \<Rightarrow> bool" where
  "printable MP_Wildcard = True"
| "printable (MP_Binding x) = (x \<noteq> lit ''_'')"
| "printable (MP_Literal l) = (case l of Lit_TemplateString _ \<Rightarrow> False | _ \<Rightarrow> True)"
| "printable (MP_EnumVariant e v ps) =
     (takeWhile (\<lambda>c. c \<noteq> ch CHR ''.'') e \<noteq> lit ''_'' \<and> (\<forall>p \<in> set ps. printable p))"

text \<open>How many payload lists are open at once.\<close>

fun pattern_depth :: "match_pattern \<Rightarrow> nat" where
  "pattern_depth (MP_EnumVariant e v ps) = (if ps = [] then 0 else Suc (foldr max (map pattern_depth ps) 0))"
| "pattern_depth _ = 0"

section \<open>Running the machine\<close>

definition machine :: "nat \<Rightarrow> frames \<Rightarrow> match_pattern parser" where
  "machine n st = sloop_fuel n pattern_step st"

text \<open>The machine after a pattern has been completed on a stack.\<close>

definition resume :: "nat \<Rightarrow> pattern_frame list \<Rightarrow> nat \<Rightarrow> match_pattern \<Rightarrow> match_pattern parser" where
  "resume n fs cap p = sbind (pattern_complete fs cap p) (\<lambda>r. case r of Inl st \<Rightarrow> machine n st | Inr q \<Rightarrow> sreturn q)"

lemma machine_complete:
  "pattern_start (fs, cap) s = Inr (Inr p, s') \<Longrightarrow> machine (Suc n) (fs, cap) s = resume n fs cap p s'"
  by (simp add: machine_def resume_def pattern_step_def sbind_def split: sum.splits prod.splits)

lemma machine_push:
  "pattern_start (fs, cap) s = Inr (Inl st, s') \<Longrightarrow> machine (Suc n) (fs, cap) s = machine n st s'"
  by (simp add: machine_def pattern_step_def sbind_def sreturn_def split: sum.splits prod.splits)

lemma plain_simps [simp]:
  "plain TK_Dot" "plain TK_LParen" "plain TK_RParen" "plain TK_Comma"
  by (simp_all add: plain_def)

lemma resume_comma:
  "ready s \<Longrightarrow> ahead s = TK_Comma # ks \<Longrightarrow>
   resume n (f # fs) cap p s = machine n (f\<lparr>pf_fields := pf_fields f @ [p]\<rparr> # fs, cap) (skip 1 s)"
  by (simp add: resume_def sbind_def run_match sreturn_def Let_def)

lemma resume_close:
  "ready s \<Longrightarrow> ahead s = TK_RParen # ks \<Longrightarrow>
   resume n (f # fs) cap p s
     = resume n fs cap (frame_finish (f\<lparr>pf_fields := pf_fields f @ [p]\<rparr>)) (skip 1 s)"
  by (simp add: resume_def sbind_def run_match run_consume sreturn_def Let_def)

text \<open>The atoms.\<close>

lemma start_wildcard:
  "ready s \<Longrightarrow> ahead s = TK_Ident (lit ''_'') # ks \<Longrightarrow> pattern_start st s = Inr (Inr MP_Wildcard, skip 1 s)"
  by (simp add: pattern_start_def sbind_def run_advance cur_kind ident_of_def sreturn_def)

lemma start_literal:
  "ready s \<Longrightarrow> ahead s = literal_kind l # ks \<Longrightarrow> printable (MP_Literal l) \<Longrightarrow>
   pattern_start st s = Inr (Inr (MP_Literal l), skip 1 s)"
  by (cases l) (auto simp: pattern_start_def sbind_def run_advance cur_kind ident_of_def sreturn_def
      literal_kind_def pattern_literal_def)

lemma start_name:
  "ready s \<Longrightarrow> ahead s = TK_Ident x # ks \<Longrightarrow> x \<noteq> lit ''_'' \<Longrightarrow>
   pattern_start st s = pattern_name st x (tk_span (cur_tok s)) (skip 1 s)"
  by (simp add: pattern_start_def sbind_def run_advance cur_kind ident_of_def)

lemma start_binding:
  assumes "ready s" "ahead s = TK_Ident x # k # ks" "x \<noteq> lit ''_''" "k \<noteq> TK_Dot"
  shows "pattern_start st s = Inr (Inr (MP_Binding x), skip 1 s)"
  using assms run_match [of "skip 1 s" k ks TK_Dot]
  by (simp add: start_name pattern_name_def sbind_def sreturn_def)

lemma path_short:
  assumes "ready s" "ahead s = TK_Ident v # k # ks" "k \<noteq> TK_Dot"
  shows "pattern_path e s = Inr ((e, v), skip 1 s)"
  using assms run_match [of "skip 1 s" k ks TK_Dot]
  by (simp add: pattern_path_def sbind_def run_consume_ident sreturn_def)

lemma path_long:
  assumes "ready s" "ahead s = TK_Ident b # TK_Dot # TK_Ident v # ks"
  shows "pattern_path a s = Inr ((a @ [ch CHR ''.''] @ b, v), skip 3 s)"
  using assms run_match [of "skip 1 s" TK_Dot "TK_Ident v # ks" TK_Dot]
    run_consume_ident [of "skip 2 s" v ks]
  by (simp add: pattern_path_def sbind_def run_consume_ident sreturn_def eval_nat_numeral)

lemma start_enum:
  assumes "ready s" "ahead s = enum_kinds e @ [TK_Dot, TK_Ident v] @ k # ks"
    and "takeWhile (\<lambda>c. c \<noteq> ch CHR ''.'') e \<noteq> lit ''_''" and "k \<noteq> TK_Dot"
  shows "pattern_start st s = pattern_payload st \<lparr>pf_enum_name = e, pf_variant = v, pf_fields = []\<rparr>
    (tk_span (cur_tok s)) (skip (length (enum_kinds e) + 2) s)"
proof (cases "dropWhile (\<lambda>c. c \<noteq> ch CHR ''.'') e")
  case Nil
  then have e: "takeWhile (\<lambda>c. c \<noteq> ch CHR ''.'') e = e"
    using takeWhile_dropWhile_id [of "\<lambda>c. c \<noteq> ch CHR ''.''" e] by simp
  with Nil have k: "enum_kinds e = [TK_Ident e]" by (simp add: enum_kinds_def)
  show ?thesis
    using assms e k run_match [of "skip 1 s" TK_Dot "TK_Ident v # k # ks" TK_Dot]
      path_short [of "skip 2 s" v k ks e]
    by (simp add: start_name pattern_name_def sbind_def eval_nat_numeral)
next
  case (Cons d b)
  let ?a = "takeWhile (\<lambda>c. c \<noteq> ch CHR ''.'') e"
  have d: "d = ch CHR ''.''" using Cons hd_dropWhile [of "\<lambda>c. c \<noteq> ch CHR ''.''" e] by simp
  have e: "e = ?a @ [ch CHR ''.''] @ b"
    using takeWhile_dropWhile_id [of "\<lambda>c. c \<noteq> ch CHR ''.''" e] Cons d by simp
  have k: "enum_kinds e = [TK_Ident ?a, TK_Dot, TK_Ident b]"
    using Cons by (simp add: enum_kinds_def)
  have "pattern_path ?a (skip 2 s) = Inr ((e, v), skip 5 s)"
    using path_long [of "skip 2 s" b v "k # ks" ?a] assms k e by (simp add: eval_nat_numeral)
  then show ?thesis
    using assms k run_match [of "skip 1 s" TK_Dot "TK_Ident b # TK_Dot # TK_Ident v # k # ks" TK_Dot]
    by (simp add: start_name pattern_name_def sbind_def eval_nat_numeral)
qed

section \<open>Every pattern is followed\<close>

text \<open>On the tokens of \<open>p\<close> the machine comes to the point where \<open>p\<close> is complete, on every stack with
  room for the frames of \<open>p\<close>.\<close>

definition follows :: "match_pattern \<Rightarrow> bool" where
  "follows p \<longleftrightarrow> (\<forall>fs cap s k ks n. ready s \<and> ahead s = pattern_kinds p @ k # ks \<and> k \<noteq> TK_Dot \<and> k \<noteq> TK_LParen
      \<and> cap_inv (length fs) cap \<and> length fs + pattern_depth p \<le> MAX_FRAMES \<and> length (pattern_kinds p) \<le> n
     \<longrightarrow> (\<exists>m cap'. n \<le> m + length (pattern_kinds p) \<and> cap_inv (length fs) cap'
        \<and> machine n (fs, cap) s = resume m fs cap' p (skip (length (pattern_kinds p)) s)))"

lemma followsE:
  assumes "follows p" "ready s" "ahead s = pattern_kinds p @ k # ks" "k \<noteq> TK_Dot" "k \<noteq> TK_LParen"
    "cap_inv (length fs) cap" "length fs + pattern_depth p \<le> MAX_FRAMES" "length (pattern_kinds p) \<le> n"
  obtains m cap' where "n \<le> m + length (pattern_kinds p)" "cap_inv (length fs) cap'"
    "machine n (fs, cap) s = resume m fs cap' p (skip (length (pattern_kinds p)) s)"
  using assms unfolding follows_def by blast

lemma cap_inv_pop: "cap_inv (Suc n) cap \<Longrightarrow> cap_inv n cap"
  unfolding cap_inv_def using Suc_leD by blast

lemma follows_fields:
  assumes "qs \<noteq> []" "\<And>q. q \<in> set qs \<Longrightarrow> follows q"
    "ready s" "ahead s = separated (map pattern_kinds qs) @ TK_RParen # ks"
    "cap_inv (Suc (length fs)) cap" "\<And>q. q \<in> set qs \<Longrightarrow> Suc (length fs) + pattern_depth q \<le> MAX_FRAMES"
    "length (separated (map pattern_kinds qs)) \<le> n"
  shows "\<exists>m cap'. n \<le> m + length (separated (map pattern_kinds qs)) \<and> cap_inv (length fs) cap'
    \<and> machine n (f # fs, cap) s
      = resume m fs cap' (MP_EnumVariant (pf_enum_name f) (pf_variant f) (pf_fields f @ qs))
          (skip (Suc (length (separated (map pattern_kinds qs)))) s)"
  using assms
proof (induction qs arbitrary: f cap s n)
  case (Cons q qs)
  let ?l = "length (pattern_kinds q)"
  show ?case
  proof (cases qs)
    case Nil
    have fq: "follows q" using Cons.prems by simp
    obtain m cap' where m: "n \<le> m + ?l" "cap_inv (Suc (length fs)) cap'"
      "machine n (f # fs, cap) s = resume m (f # fs) cap' q (skip ?l s)"
      by (rule followsE [OF fq Cons.prems(3), of TK_RParen ks "f # fs" cap n]) (use Cons.prems Nil in auto)
    moreover have "ahead (skip ?l s) = TK_RParen # ks" using Cons.prems(4) Nil by simp
    ultimately show ?thesis using Nil Cons.prems(3) cap_inv_pop [OF m(2)]
      by (intro exI [of _ m] exI [of _ cap']) (simp add: resume_close frame_finish_def)
  next
    case (Cons q' qs')
    let ?r = "separated (map pattern_kinds qs)"
    have sep: "separated (map pattern_kinds (q # qs)) = pattern_kinds q @ TK_Comma # ?r"
      using Cons by simp
    have fq: "follows q" using Cons.prems by simp
    obtain m cap' where m: "n \<le> m + ?l" "cap_inv (Suc (length fs)) cap'"
      "machine n (f # fs, cap) s = resume m (f # fs) cap' q (skip ?l s)"
      by (rule followsE [OF fq Cons.prems(3), of TK_Comma "?r @ TK_RParen # ks" "f # fs" cap n])
        (use Cons.prems sep in auto)
    let ?f = "f\<lparr>pf_fields := pf_fields f @ [q]\<rparr>"
    have c: "resume m (f # fs) cap' q (skip ?l s) = machine m (?f # fs, cap') (skip (Suc ?l) s)"
      by (subst resume_comma [of _ "?r @ TK_RParen # ks"]) (use Cons.prems sep in auto)
    have "\<exists>m' cap''. m \<le> m' + length ?r \<and> cap_inv (length fs) cap''
      \<and> machine m (?f # fs, cap') (skip (Suc ?l) s)
        = resume m' fs cap'' (MP_EnumVariant (pf_enum_name ?f) (pf_variant ?f) (pf_fields ?f @ qs))
            (skip (Suc (length ?r)) (skip (Suc ?l) s))"
      by (rule Cons.IH) (use Cons.prems sep m Cons in auto)
    then obtain m' cap'' where "m \<le> m' + length ?r" "cap_inv (length fs) cap''"
      "machine m (?f # fs, cap') (skip (Suc ?l) s)
        = resume m' fs cap'' (MP_EnumVariant (pf_enum_name f) (pf_variant f) (pf_fields f @ q # qs))
            (skip (Suc (length ?r)) (skip (Suc ?l) s))" by auto
    then show ?thesis using m c sep
      by (intro exI [of _ m'] exI [of _ cap'']) (simp add: add.commute add.left_commute)
  qed
qed simp

lemma hd_pattern_kinds: "\<exists>k ks. pattern_kinds p = k # ks \<and> k \<noteq> TK_RParen"
  by (cases p) (auto simp: literal_kind_def enum_kinds_def Let_def split: literal.splits)

lemma hd_separated:
  assumes "qs \<noteq> []"
  shows "\<exists>k ks. separated (map pattern_kinds qs) = k # ks \<and> k \<noteq> TK_RParen"
  using assms hd_pattern_kinds [of "hd qs"] by (cases qs; cases "tl qs") auto

lemma payload_none:
  "ready s \<Longrightarrow> ahead s = k # ks \<Longrightarrow> k \<noteq> TK_LParen \<Longrightarrow>
   pattern_payload st f sp s = Inr (Inr (frame_finish f), s)"
  by (simp add: pattern_payload_def sbind_def run_match sreturn_def)

lemma payload_open:
  assumes "ready s" "ahead s = TK_LParen # k # ks" "k \<noteq> TK_RParen"
    and "reserve_frame (length fs) cap SCRATCH_BYTES sp = Inr cap'"
  shows "pattern_payload (fs, cap) f sp s = Inr (Inl (f # fs, cap'), skip 1 s)"
  using assms run_check [of "skip 1 s" k ks TK_RParen]
  by (simp add: pattern_payload_def push_frame_def sresult_def sbind_def run_match sreturn_def token_kind_eq_plain)

lemma foldr_max_mem: "x \<in> set xs \<Longrightarrow> x \<le> foldr max xs (0 :: nat)"
  by (induction xs) auto

lemma follows_atom:
  assumes "length (pattern_kinds p) = 1"
    and "\<And>s k ks st. ready s \<Longrightarrow> ahead s = pattern_kinds p @ k # ks \<Longrightarrow> k \<noteq> TK_Dot \<Longrightarrow>
      pattern_start st s = Inr (Inr p, skip 1 s)"
  shows "follows p"
  unfolding follows_def
proof (intro allI impI, elim conjE)
  fix fs :: "pattern_frame list" and cap s k ks n
  assume a: "ready s" "ahead s = pattern_kinds p @ k # ks" "k \<noteq> TK_Dot" "cap_inv (length fs) cap"
    "length (pattern_kinds p) \<le> n"
  obtain n' where "n = Suc n'" using a(5) assms(1) by (cases n) auto
  then show "\<exists>m cap'. n \<le> m + length (pattern_kinds p) \<and> cap_inv (length fs) cap'
      \<and> machine n (fs, cap) s = resume m fs cap' p (skip (length (pattern_kinds p)) s)"
    using machine_complete [OF assms(2) [OF a(1-3)]] a(4) assms(1) by auto
qed

lemma follows_enum:
  assumes ok: "printable (MP_EnumVariant e v ps)" and ps: "\<And>p. p \<in> set ps \<Longrightarrow> follows p"
  shows "follows (MP_EnumVariant e v ps)"
  unfolding follows_def
proof (intro allI impI, elim conjE)
  fix fs :: "pattern_frame list" and cap s k ks n
  let ?p = "MP_EnumVariant e v ps"
  let ?f = "\<lparr>pf_enum_name = e, pf_variant = v, pf_fields = []\<rparr>"
  let ?h = "length (enum_kinds e) + 2"
  assume a: "ready s" "ahead s = pattern_kinds ?p @ k # ks" "k \<noteq> TK_Dot" "k \<noteq> TK_LParen"
    "cap_inv (length fs) cap" "length fs + pattern_depth ?p \<le> MAX_FRAMES" "length (pattern_kinds ?p) \<le> n"
  obtain n' where n: "n = Suc n'" using a(7) by (cases n) auto
  show "\<exists>m cap'. n \<le> m + length (pattern_kinds ?p) \<and> cap_inv (length fs) cap'
      \<and> machine n (fs, cap) s = resume m fs cap' ?p (skip (length (pattern_kinds ?p)) s)"
  proof (cases "ps = []")
    case True
    have "pattern_start (fs, cap) s = Inr (Inr ?p, skip ?h s)"
      using start_enum [of s e v k ks "(fs, cap)"] payload_none [of "skip ?h s" k ks] a ok True
      by (simp add: frame_finish_def)
    then show ?thesis using machine_complete [of fs cap s ?p "skip ?h s" n'] n a(5) True
      by (intro exI [of _ n'] exI [of _ cap]) simp
  next
    case False
    let ?sep = "separated (map pattern_kinds ps)"
    obtain k1 ks1 where k1: "?sep = k1 # ks1" "k1 \<noteq> TK_RParen" using hd_separated [OF False] by blast
    have depth: "Suc (length fs) + pattern_depth q \<le> MAX_FRAMES" if "q \<in> set ps" for q
      using a(6) False foldr_max_mem [of "pattern_depth q" "map pattern_depth ps"] that by auto
    from False obtain q where "q \<in> set ps" by fastforce
    then have "length fs < MAX_FRAMES" using depth by fastforce
    then obtain cap1 where c1: "reserve_frame (length fs) cap SCRATCH_BYTES (tk_span (cur_tok s)) = Inr cap1"
      "cap_inv (Suc (length fs)) cap1" using reserve_ok [OF a(5)] by blast
    have ah: "ahead s = enum_kinds e @ [TK_Dot, TK_Ident v] @ TK_LParen # ?sep @ TK_RParen # k # ks"
      using a(2) False by simp
    have "pattern_start (fs, cap) s = Inr (Inl (?f # fs, cap1), skip (Suc ?h) s)"
      using start_enum [OF a(1) ah, of "(fs, cap)"] ok payload_open [of "skip ?h s" k1 _ fs cap _ cap1 ?f] a(1) ah k1 c1(1)
      by simp
    then have step: "machine n (fs, cap) s = machine n' (?f # fs, cap1) (skip (Suc ?h) s)"
      unfolding n by (rule machine_push)
    have "\<exists>m cap'. n' \<le> m + length ?sep \<and> cap_inv (length fs) cap'
      \<and> machine n' (?f # fs, cap1) (skip (Suc ?h) s)
        = resume m fs cap' (MP_EnumVariant (pf_enum_name ?f) (pf_variant ?f) (pf_fields ?f @ ps))
            (skip (Suc (length ?sep)) (skip (Suc ?h) s))"
      by (rule follows_fields [where ks = "k # ks"]) (use ps False a ah c1 depth n in auto)
    then obtain m cap' where "n' \<le> m + length ?sep" "cap_inv (length fs) cap'"
      "machine n' (?f # fs, cap1) (skip (Suc ?h) s) = resume m fs cap' ?p
        (skip (Suc (length ?sep)) (skip (Suc ?h) s))" by auto
    then show ?thesis using step n False
      by (intro exI [of _ m] exI [of _ cap']) (simp add: add.commute add.left_commute)
  qed
qed

lemma follows_printable: "printable p \<Longrightarrow> follows p"
proof (induction p)
  case (MP_EnumVariant e v ps)
  then show ?case by (intro follows_enum) auto
qed (auto intro!: follows_atom simp: start_wildcard start_binding start_literal)

text \<open>C19: Printing a match pattern as tokens and parsing them gives the pattern back and consumes
  exactly its tokens, for every pattern that opens at most 16384 payload lists at once, whatever
  follows it (other than a dot or a parenthesis, which would continue it).\<close>

theorem match_pattern_roundtrip:
  assumes "stream_ok (ps_tokens s)"
    and "map tk_kind (drop (ps_current s) (ps_tokens s)) = pattern_kinds p @ k # ks"
    and "k \<noteq> TK_Dot" and "k \<noteq> TK_LParen" and "printable p" and "pattern_depth p \<le> MAX_FRAMES"
  shows "match_pattern s = Inr (p, s\<lparr>ps_current := ps_current s + length (pattern_kinds p)\<rparr>)"
proof -
  let ?l = "length (pattern_kinds p)"
  have r: "ready s" using assms(1) by (simp add: ready_def)
  have ah: "ahead s = pattern_kinds p @ k # ks" using assms(2) by (simp add: ahead_def)
  have "length (ahead s) = ps_rem s" by (simp add: ahead_def ps_rem_def)
  then have len: "?l \<le> Suc (ps_rem s)" using ah by simp
  obtain m cap' where "machine (Suc (ps_rem s)) ([], 0) s = resume m [] cap' p (skip ?l s)"
    by (rule followsE [OF follows_printable [OF assms(5)] r ah assms(3,4), of "[]" 0 "Suc (ps_rem s)"])
      (use assms(6) len in \<open>auto simp: cap_inv_def\<close>)
  then show ?thesis
    by (simp add: match_pattern_def sloop_def machine_def resume_def sbind_def sreturn_def skip_def)
qed

definition sample_state :: parser_state where
  "sample_state = Parser_new (map (\<lambda>k. Token_new k Span_default)
     [TK_Ident (lit ''Opt''), TK_Dot, TK_Ident (lit ''Some''), TK_LParen, TK_Ident (lit ''x''), TK_RParen,
      TK_Arrow, TK_Eof])"

theorem match_pattern_roundtrip_witness:
  "match_pattern sample_state = Inr (MP_EnumVariant (lit ''Opt'') (lit ''Some'') [MP_Binding (lit ''x'')],
     sample_state\<lparr>ps_current := 6\<rparr>)"
proof -
  let ?p = "MP_EnumVariant (lit ''Opt'') (lit ''Some'') [MP_Binding (lit ''x'')]"
  have k: "pattern_kinds ?p = [TK_Ident (lit ''Opt''), TK_Dot, TK_Ident (lit ''Some''), TK_LParen,
      TK_Ident (lit ''x''), TK_RParen]" by code_simp
  have "stream_ok (ps_tokens sample_state)" by code_simp
  moreover have "map tk_kind (drop (ps_current sample_state) (ps_tokens sample_state))
      = pattern_kinds ?p @ TK_Arrow # [TK_Eof]" unfolding k by code_simp
  moreover have "printable ?p" by code_simp
  moreover have "pattern_depth ?p \<le> MAX_FRAMES" by code_simp
  moreover have "ps_current sample_state = 0" by (simp add: sample_state_def Parser_new_def)
  ultimately show ?thesis
    using match_pattern_roundtrip [of sample_state ?p TK_Arrow "[TK_Eof]"] k by simp
qed

end
