(* ===== verification/Values.thy ===== *)
theory Values
  imports Rust_Format Ast "HOL-Library.List_Lexorder"
begin

text \<open>
  Runtime values (\<open>src/src/runtime/value.rs\<close>): the data of the interpreter and the operations
  that only read it.

  \<^item> A \<open>HashMap\<close> is an association list with distinct keys in the map's iteration order, which
    the language leaves open; \<open>value_ok\<close> states the distinctness.
  \<^item> A \<open>Weak\<close> root is what upgrading it yields at the moment of the call: the root, which is
    immutable while it lives, or nothing once its owner is gone. A root is older than every view
    of it, so views are well-founded.
  \<^item> The captured environment of a function value is not read here and is a type parameter.
\<close>

section \<open>The data\<close>

datatype value_projection = VP_Field ustring | VP_Index nat | VP_EnumField nat

record task_handle =
  th_id :: i64
  th_state :: nat

record http_listener_lease =
  hl_id :: i64
  hl_arc :: nat

text \<open>The thread and the task that may read a borrowed view.\<close>

record owner =
  ow_thread :: nat
  ow_task :: i64

datatype 'env value_t =
    V_Int i64
  | V_Float f64
  | V_Bool bool
  | V_String ustring
  | V_Array "'env value_t list"
  | V_Object "(ustring \<times> 'env value_t) list"
  | V_Struct ustring "(ustring \<times> 'env value_t) list"
  | V_Enum ustring ustring "'env value_t list"
  | V_Result bool "'env value_t"
  | V_Function "ustring list" "param_mode list" "stmt list" 'env "ustring option" bool
  | V_Task task_handle
  | V_HttpListenerLease http_listener_lease
  | V_Borrowed "'env value_t option" "value_projection list" owner
  | V_Null

text \<open>The children a container owns (\<open>OwnedValueChildren::of\<close>); views and closures are leaves.\<close>

definition owned_children :: "'env value_t \<Rightarrow> 'env value_t list option" where
  "owned_children v = (case v of
       V_Array vs \<Rightarrow> Some vs
     | V_Enum _ _ vs \<Rightarrow> Some vs
     | V_Object fs \<Rightarrow> Some (map snd fs)
     | V_Struct _ fs \<Rightarrow> Some (map snd fs)
     | V_Result _ v' \<Rightarrow> Some [v']
     | _ \<Rightarrow> None)"

definition children :: "'env value_t \<Rightarrow> 'env value_t list" where
  "children v = (case owned_children v of Some vs \<Rightarrow> vs | None \<Rightarrow> [])"

lemma size_snd_less: "(k, x) \<in> set fs \<Longrightarrow> size x < Suc (size_list (size_prod (\<lambda>_. 0) size) fs)"
  by (induction fs) auto

lemma size_in_list: "x \<in> set vs \<Longrightarrow> size x < Suc (size_list size vs)"
  for x :: "'env value_t"
  by (induction vs) auto

lemma children_size: "c \<in> set (children v) \<Longrightarrow> size c < size v"
  by (cases v) (auto simp: children_def owned_children_def dest: size_snd_less dest!: size_in_list)

lemma owned_children_size: "owned_children v = Some vs \<Longrightarrow> c \<in> set vs \<Longrightarrow> size c < size v"
  using children_size [of c v] by (simp add: children_def)

section \<open>Projections and borrowed views\<close>

definition project_one :: "value_projection \<Rightarrow> 'env value_t \<Rightarrow> 'env value_t option" where
  "project_one p v = (case (p, v) of
       (VP_Field name, V_Object fs) \<Rightarrow> map_of fs name
     | (VP_Field name, V_Struct _ fs) \<Rightarrow> map_of fs name
     | (VP_Index i, V_Array vs) \<Rightarrow> if i < length vs then Some (vs ! i) else None
     | (VP_EnumField i, V_Enum _ _ vs) \<Rightarrow> if i < length vs then Some (vs ! i) else None
     | _ \<Rightarrow> None)"

fun project_path :: "value_projection list \<Rightarrow> 'env value_t \<Rightarrow> 'env value_t option" where
  "project_path [] v = Some v"
| "project_path (p # ps) v = (case project_one p v of None \<Rightarrow> None | Some v' \<Rightarrow> project_path ps v')"

lemma project_one_child: "project_one p v = Some c \<Longrightarrow> c \<in> set (children v)"
  by (auto simp: project_one_def children_def owned_children_def split: value_projection.splits value_t.splits if_splits
      dest!: map_of_SomeD intro: rev_image_eqI)

lemma project_path_size: "project_path ps v = Some c \<Longrightarrow> size c \<le> size v"
proof (induction ps arbitrary: v)
  case (Cons p ps)
  then obtain v' where "project_one p v = Some v'" and "project_path ps v' = Some c"
    by (auto split: option.splits)
  then show ?case using Cons.IH [of v'] children_size [OF project_one_child] by fastforce
qed simp

definition check_owner :: "owner \<Rightarrow> owner \<Rightarrow> span \<Rightarrow> ku_error + unit" where
  "check_owner now own sp =
     (if own = now then Inr ()
      else Inl (runtime_error (lit ''borrowed value cannot be read across threads or async tasks'') sp))"

definition read_root :: "'env value_t option \<Rightarrow> value_projection list \<Rightarrow> span \<Rightarrow> ku_error + 'env value_t" where
  "read_root root path sp = (case root of
       None \<Rightarrow> Inl (runtime_error (lit ''borrowed value outlived its synchronous call'') sp)
     | Some v \<Rightarrow> (case project_path path v of
         None \<Rightarrow> Inl (runtime_error (lit ''invalid borrowed projection'') sp)
       | Some v' \<Rightarrow> Inr v'))"

definition borrowed_read ::
    "owner \<Rightarrow> 'env value_t option \<Rightarrow> value_projection list \<Rightarrow> owner \<Rightarrow> span \<Rightarrow> ku_error + 'env value_t" where
  "borrowed_read now root path own sp = (case check_owner now own sp of
       Inl e \<Rightarrow> Inl e
     | Inr _ \<Rightarrow> read_root root path sp)"

lemma borrowed_read_size:
  "borrowed_read now root path own sp = Inr v \<Longrightarrow> size v < size (V_Borrowed root path own)"
  by (auto simp: borrowed_read_def read_root_def split: sum.splits option.splits dest!: project_path_size)

text \<open>\<open>Value::with_read\<close>: the value itself, or what the view shows.\<close>

definition value_read :: "owner \<Rightarrow> 'env value_t \<Rightarrow> span \<Rightarrow> ku_error + 'env value_t" where
  "value_read now v sp = (case v of
       V_Borrowed root path own \<Rightarrow> borrowed_read now root path own sp
     | _ \<Rightarrow> Inr v)"

text \<open>\<open>with_projection_read\<close>: a further path below a view.\<close>

definition borrowed_projection_read ::
    "owner \<Rightarrow> 'env value_t option \<Rightarrow> value_projection list \<Rightarrow> owner \<Rightarrow> value_projection list \<Rightarrow> span
     \<Rightarrow> ku_error + 'env value_t" where
  "borrowed_projection_read now root path own rest sp = (case borrowed_read now root path own sp of
       Inl e \<Rightarrow> Inl e
     | Inr v \<Rightarrow> (case project_path rest v of
         None \<Rightarrow> Inl (runtime_error (lit ''invalid borrowed projection'') sp)
       | Some v' \<Rightarrow> Inr v'))"

definition copy_value :: "'env value_t \<Rightarrow> 'env value_t option" where
  "copy_value v = (case v of
       V_Int _ \<Rightarrow> Some v | V_Float _ \<Rightarrow> Some v | V_Bool _ \<Rightarrow> Some v | V_Null \<Rightarrow> Some v | _ \<Rightarrow> None)"

definition borrowed_project ::
    "owner \<Rightarrow> 'env value_t option \<Rightarrow> value_projection list \<Rightarrow> owner \<Rightarrow> value_projection \<Rightarrow> span
     \<Rightarrow> ku_error + 'env value_t" where
  "borrowed_project now root path own p sp = (case borrowed_read now root (path @ [p]) own sp of
       Inl e \<Rightarrow> Inl e
     | Inr v \<Rightarrow> Inr (case copy_value v of Some c \<Rightarrow> c | None \<Rightarrow> V_Borrowed root (path @ [p]) own))"

lemma project_path_append:
  "project_path (ps @ qs) v = (case project_path ps v of None \<Rightarrow> None | Some v' \<Rightarrow> project_path qs v')"
  by (induction ps arbitrary: v) (auto split: option.splits)

section \<open>Type names and truth\<close>

function is_truthy :: "owner \<Rightarrow> 'env value_t \<Rightarrow> bool" where
  "is_truthy now v = (case v of
       V_Borrowed root path own \<Rightarrow> (case borrowed_read now root path own Span_default of
           Inl e \<Rightarrow> False
         | Inr v' \<Rightarrow> is_truthy now v')
     | V_Bool b \<Rightarrow> b
     | V_Int i \<Rightarrow> i \<noteq> 0
     | V_Float x \<Rightarrow> \<not> f64_eq x (F64 0)
     | V_String s \<Rightarrow> s \<noteq> []
     | V_Array vs \<Rightarrow> vs \<noteq> []
     | V_Object fs \<Rightarrow> fs \<noteq> []
     | V_Null \<Rightarrow> False
     | _ \<Rightarrow> True)"
  by pat_completeness auto
termination
  by (relation "measure (\<lambda>(now, v). size v)") (auto dest: borrowed_read_size)

function type_name_of :: "owner \<Rightarrow> 'env value_t \<Rightarrow> ustring" where
  "type_name_of now v = (case v of
       V_Int _ \<Rightarrow> lit ''int''
     | V_Float _ \<Rightarrow> lit ''float''
     | V_Bool _ \<Rightarrow> lit ''bool''
     | V_String _ \<Rightarrow> lit ''str''
     | V_Array _ \<Rightarrow> lit ''array''
     | V_Object _ \<Rightarrow> lit ''object''
     | V_Struct _ _ \<Rightarrow> lit ''struct''
     | V_Enum _ _ _ \<Rightarrow> lit ''enum''
     | V_Result _ _ \<Rightarrow> lit ''result''
     | V_Function _ _ _ _ _ _ \<Rightarrow> lit ''function''
     | V_Task _ \<Rightarrow> lit ''task''
     | V_HttpListenerLease _ \<Rightarrow> lit ''http_listener_lease''
     | V_Borrowed root path own \<Rightarrow> (case borrowed_read now root path own Span_default of
           Inl e \<Rightarrow> lit ''expired borrowed value''
         | Inr v' \<Rightarrow> type_name_of now v')
     | V_Null \<Rightarrow> lit ''null'')"
  by pat_completeness auto
termination
  by (relation "measure (\<lambda>(now, v). size v)") (auto dest: borrowed_read_size)

declare is_truthy.simps [simp del] type_name_of.simps [simp del]

section \<open>Display\<close>

text \<open>\<open>Display\<close> fails on a view that cannot be read (\<open>None\<close>); \<open>to_string\<close> then panics.\<close>

definition sorted_fields :: "(ustring \<times> 'a) list \<Rightarrow> (ustring \<times> 'a) list" where
  "sorted_fields fs = sort_key fst fs"

lemma set_sorted_fields [simp]: "set (sorted_fields fs) = set fs"
  by (simp add: sorted_fields_def)

fun join_with :: "ustring \<Rightarrow> ustring list \<Rightarrow> ustring" where
  "join_with sep [] = []"
| "join_with sep [x] = x"
| "join_with sep (x # xs) = x @ sep @ join_with sep xs"

function display :: "owner \<Rightarrow> 'env value_t \<Rightarrow> ustring option" where
  "display now v = (case v of
       V_Int i \<Rightarrow> Some (i64_to_string i)
     | V_Float x \<Rightarrow> Some (f64_to_string x)
     | V_Bool b \<Rightarrow> Some (if b then lit ''true'' else lit ''false'')
     | V_String s \<Rightarrow> Some s
     | V_Array vs \<Rightarrow>
         map_option (\<lambda>ts. lit ''['' @ join_with (lit '', '') ts @ lit '']'') (those (map (\<lambda>x. display now x) vs))
     | V_Object fs \<Rightarrow>
         map_option (\<lambda>ts. lit ''{ '' @ join_with (lit '', '') ts @ lit '' }'')
           (those (map (\<lambda>(k, x). map_option (\<lambda>t. k @ lit '': '' @ t) (display now x)) (sorted_fields fs)))
     | V_Struct name fs \<Rightarrow>
         map_option (\<lambda>ts. name @ lit '' { '' @ join_with (lit '', '') ts @ lit '' }'')
           (those (map (\<lambda>(k, x). map_option (\<lambda>t. k @ lit '': '' @ t) (display now x)) (sorted_fields fs)))
     | V_Enum name variant vs \<Rightarrow>
         if vs = [] then Some (name @ lit ''.'' @ variant)
         else map_option (\<lambda>ts. name @ lit ''.'' @ variant @ lit ''('' @ join_with (lit '', '') ts @ lit '')'')
           (those (map (\<lambda>x. display now x) vs))
     | V_Result ok x \<Rightarrow>
         map_option (\<lambda>t. (if ok then lit ''Ok('' else lit ''Err('') @ t @ lit '')'') (display now x)
     | V_Function _ _ _ _ _ _ \<Rightarrow> Some (lit ''<function>'')
     | V_Task t \<Rightarrow> Some (lit ''<task:'' @ i64_to_string (th_id t) @ lit ''>'')
     | V_HttpListenerLease _ \<Rightarrow> Some (lit ''<http-listener-lease>'')
     | V_Borrowed root path own \<Rightarrow> (case borrowed_read now root path own Span_default of
           Inl e \<Rightarrow> None
         | Inr v' \<Rightarrow> display now v')
     | V_Null \<Rightarrow> Some (lit ''null''))"
  by pat_completeness auto
termination
  by (relation "measure (\<lambda>(now, v). size v)")
    (auto dest: borrowed_read_size size_snd_less dest!: size_in_list)

definition value_to_string :: "owner \<Rightarrow> 'env value_t \<Rightarrow> (ku_error, ustring) result" where
  "value_to_string now v = (case display now v of None \<Rightarrow> Inl RustPanic | Some t \<Rightarrow> Inr t)"

section \<open>Equality\<close>

lemma size_zip_less:
  "(x, y) \<in> set (zip l r) \<Longrightarrow> size x + size y < Suc (Suc (size_list size l + size_list size r))"
  for x :: "'env value_t" and y :: "'env value_t"
  using size_in_list [OF set_zip_leftD] size_in_list [OF set_zip_rightD] by fastforce

lemma size_fields_less:
  "(k, x) \<in> set l \<Longrightarrow> (k', y) \<in> set r \<Longrightarrow> size x + size y
     < Suc (Suc (size_list (size_prod (\<lambda>_. 0) size) l + size_list (size_prod (\<lambda>_. 0) size) r))"
  using size_snd_less [of k x l] size_snd_less [of k' y r] by linarith

function value_eq :: "owner \<Rightarrow> 'env value_t \<Rightarrow> 'env value_t \<Rightarrow> bool" where
  "value_eq now a b = (case (a, b) of
       (V_Borrowed root path own, _) \<Rightarrow> (case borrowed_read now root path own Span_default of
           Inl e \<Rightarrow> False | Inr v \<Rightarrow> value_eq now v b)
     | (_, V_Borrowed root path own) \<Rightarrow> (case borrowed_read now root path own Span_default of
           Inl e \<Rightarrow> False | Inr v \<Rightarrow> value_eq now a v)
     | (V_Int l, V_Int r) \<Rightarrow> l = r
     | (V_Float l, V_Float r) \<Rightarrow> f64_eq l r
     | (V_Bool l, V_Bool r) \<Rightarrow> l = r
     | (V_String l, V_String r) \<Rightarrow> l = r
     | (V_Array l, V_Array r) \<Rightarrow>
         length l = length r \<and> list_all (\<lambda>(x, y). value_eq now x y) (zip l r)
     | (V_Object l, V_Object r) \<Rightarrow>
         length l = length r \<and>
         list_all (\<lambda>(k, x). case map_of r k of None \<Rightarrow> False | Some y \<Rightarrow> value_eq now x y) l
     | (V_Struct ln l, V_Struct rn r) \<Rightarrow>
         ln = rn \<and> length l = length r \<and>
         list_all (\<lambda>(k, x). case map_of r k of None \<Rightarrow> False | Some y \<Rightarrow> value_eq now x y) l
     | (V_Enum ln lv l, V_Enum rn rv r) \<Rightarrow>
         ln = rn \<and> lv = rv \<and> length l = length r \<and> list_all (\<lambda>(x, y). value_eq now x y) (zip l r)
     | (V_Result lo l, V_Result ro r) \<Rightarrow> lo = ro \<and> value_eq now l r
     | (V_Task l, V_Task r) \<Rightarrow> l = r
     | (V_HttpListenerLease l, V_HttpListenerLease r) \<Rightarrow> hl_arc l = hl_arc r
     | (V_Null, V_Null) \<Rightarrow> True
     | _ \<Rightarrow> False)"
  by pat_completeness auto
termination
  by (relation "measure (\<lambda>(now, a, b). size a + size b)")
    (auto dest: borrowed_read_size size_zip_less dest!: map_of_SomeD intro: size_fields_less)

declare display.simps [simp del] value_eq.simps [simp del]

end
