(* ===== verification/Value_Walk.thy ===== *)
theory Value_Walk
  imports Values "HOL-Library.Multiset"
begin

text \<open>
  The walk over the values a container owns (\<open>visit_owned_values\<close> of
  \<open>src/src/runtime/value.rs\<close>) and the operations built on it. The loop keeps a stack of
  iterators over the children still to visit, whose backing store is bounded in bytes; the size
  of one iterator (\<open>frame_bytes\<close>) and the allocator's answer (\<open>alloc\<close>: the capacity it gives for
  a requested one, or nothing) belong to the platform and are arguments. The walk is proved to
  visit the values in depth-first order, to end, and to need no more than three iterators per
  level.
\<close>

section \<open>The loop\<close>

record walk_env =
  we_frame_bytes :: nat
  we_alloc :: "nat \<Rightarrow> nat option"

definition scratch_limit_error :: "span \<Rightarrow> ku_error" where
  "scratch_limit_error sp = runtime_error (lit ''value traversal scratch budget exhausted'') sp"

definition scratch_memory_error :: "span \<Rightarrow> ku_error" where
  "scratch_memory_error sp = runtime_error (lit ''value traversal scratch out of memory'') sp"

definition reserve_value_ancestor :: "walk_env \<Rightarrow> nat \<Rightarrow> nat \<Rightarrow> nat \<Rightarrow> span \<Rightarrow> ku_error + nat" where
  "reserve_value_ancestor env len cap scratch_bytes sp =
     (let frame_limit = scratch_bytes div we_frame_bytes env in
      if usize_MAX < len + 1 then Inl (scratch_limit_error sp)
      else let required = len + 1 in
      if frame_limit < required \<or> frame_limit < cap then Inl (scratch_limit_error sp)
      else if required \<le> cap then Inr cap
      else let available = frame_limit - cap in
      if available < required then Inl (scratch_limit_error sp)
      else let target = min (max (min usize_MAX (cap * 2)) required) available in
      case we_alloc env target of
        None \<Rightarrow> Inl (scratch_memory_error sp)
      | Some replacement \<Rightarrow>
          if available < replacement then Inl (scratch_limit_error sp) else Inr replacement)"

text \<open>The inner loop: the next child of the innermost iterator that has one; finished iterators are popped.\<close>

fun next_owned :: "'v list list \<Rightarrow> ('v \<times> 'v list list) option" where
  "next_owned [] = None"
| "next_owned ([] # as) = next_owned as"
| "next_owned ((c # cs) # as) = Some (c, cs # as)"

text \<open>The visitor threads a state and may stop the walk (\<open>True\<close>) or fail.\<close>

fun visit_loop ::
    "nat \<Rightarrow> walk_env \<Rightarrow> span \<Rightarrow> nat \<Rightarrow> ('env value_t \<Rightarrow> 's \<Rightarrow> ku_error + (bool \<times> 's)) \<Rightarrow>
     'env value_t \<Rightarrow> 'env value_t list list \<Rightarrow> nat \<Rightarrow> 's \<Rightarrow> (ku_error + (bool \<times> 's)) option" where
  "visit_loop 0 env sp bytes visit v as cap s = None"
| "visit_loop (Suc n) env sp bytes visit v as cap s = (case visit v s of
       Inl e \<Rightarrow> Some (Inl e)
     | Inr (True, s') \<Rightarrow> Some (Inr (True, s'))
     | Inr (False, s') \<Rightarrow> (case owned_children v of
           Some (c # cs) \<Rightarrow> (case reserve_value_ancestor env (length as) cap bytes sp of
               Inl e \<Rightarrow> Some (Inl e)
             | Inr cap' \<Rightarrow> visit_loop n env sp bytes visit c (cs # as) cap' s')
         | _ \<Rightarrow> (case next_owned as of
               None \<Rightarrow> Some (Inr (False, s'))
             | Some (c, as') \<Rightarrow> visit_loop n env sp bytes visit c as' cap s')))"

definition visit_owned_values_with_budget ::
    "walk_env \<Rightarrow> 'env value_t \<Rightarrow> span \<Rightarrow> nat \<Rightarrow> ('env value_t \<Rightarrow> 's \<Rightarrow> ku_error + (bool \<times> 's)) \<Rightarrow> 's \<Rightarrow>
     (ku_error + (bool \<times> 's)) option" where
  "visit_owned_values_with_budget env v sp bytes visit s =
     visit_loop (Suc (size v)) env sp bytes visit v [] 0 s"

definition visit_owned_values ::
    "walk_env \<Rightarrow> 'env value_t \<Rightarrow> span \<Rightarrow> ('env value_t \<Rightarrow> 's \<Rightarrow> ku_error + (bool \<times> 's)) \<Rightarrow> 's \<Rightarrow>
     (ku_error + (bool \<times> 's)) option" where
  "visit_owned_values env v sp visit s =
     visit_owned_values_with_budget env v sp (2 * 1024 * 1024) visit s"

section \<open>The recursive walk\<close>

text \<open>All owned values below and including a value, in depth-first order.\<close>

function preorder_values :: "'env value_t \<Rightarrow> 'env value_t list" where
  "preorder_values v = v # concat (map preorder_values (children v))"
  by pat_completeness auto
termination
  by (relation "measure size") (auto dest: children_size)

declare preorder_values.simps [simp del]

fun visit_list :: "('v \<Rightarrow> 's \<Rightarrow> 'e + (bool \<times> 's)) \<Rightarrow> 'v list \<Rightarrow> 's \<Rightarrow> 'e + (bool \<times> 's)" where
  "visit_list visit [] s = Inr (False, s)"
| "visit_list visit (v # vs) s = (case visit v s of
       Inl e \<Rightarrow> Inl e
     | Inr (True, s') \<Rightarrow> Inr (True, s')
     | Inr (False, s') \<Rightarrow> visit_list visit vs s')"

function nesting :: "'env value_t \<Rightarrow> nat" where
  "nesting v = Suc (Max (set (0 # map nesting (children v))))"
  by pat_completeness auto
termination
  by (relation "measure size") (auto dest: children_size)

declare nesting.simps [simp del]

definition pending :: "'env value_t list list \<Rightarrow> 'env value_t list" where
  "pending as = concat (map preorder_values (concat as))"

lemma pending_simps [simp]:
  "pending [] = []" "pending ([] # as) = pending as"
  "pending ((c # cs) # as) = preorder_values c @ pending (cs # as)"
  by (simp_all add: pending_def)

lemma pending_Cons: "pending (cs # as) = concat (map preorder_values cs) @ pending as"
  by (simp add: pending_def)

lemma next_owned_None: "next_owned as = None \<Longrightarrow> pending as = []"
  by (induction as rule: next_owned.induct) auto

lemma next_owned_Some: "next_owned as = Some (c, as') \<Longrightarrow> pending as = preorder_values c @ pending as'"
  by (induction as rule: next_owned.induct) auto

lemma next_owned_length: "next_owned as = Some (c, as') \<Longrightarrow> length as' \<le> length as"
  by (induction as rule: next_owned.induct) auto

definition scratch_error :: "span \<Rightarrow> (ku_error + (bool \<times> 's)) option \<Rightarrow> bool" where
  "scratch_error sp r \<longleftrightarrow> r = Some (Inl (scratch_limit_error sp)) \<or> r = Some (Inl (scratch_memory_error sp))"

lemma reserve_error:
  "reserve_value_ancestor env len cap bytes sp = Inl e \<Longrightarrow> e = scratch_limit_error sp \<or> e = scratch_memory_error sp"
  by (auto simp: reserve_value_ancestor_def Let_def split: if_splits option.splits)

lemma preorder_children: "owned_children v = Some vs \<Longrightarrow> preorder_values v = v # concat (map preorder_values vs)"
  by (subst preorder_values.simps) (simp add: children_def)

lemma preorder_leaf: "owned_children v = None \<Longrightarrow> preorder_values v = [v]"
  by (subst preorder_values.simps) (simp add: children_def)

text \<open>The loop ends, and unless the scratch space runs out it is the recursive walk.\<close>

lemma visit_loop_preorder:
  "length (preorder_values v @ pending as) \<le> n \<Longrightarrow>
   visit_loop n env sp bytes visit v as cap s = Some (visit_list visit (preorder_values v @ pending as) s)
   \<or> scratch_error sp (visit_loop n env sp bytes visit v as cap s)"
proof (induction n arbitrary: v as cap s)
  case 0
  then show ?case by (subst (asm) preorder_values.simps) simp
next
  case (Suc n)
  show ?case
  proof (cases "visit v s")
    case (Inl e)
    then show ?thesis by (subst preorder_values.simps) simp
  next
    case (Inr r)
    obtain stop s' where r: "r = (stop, s')" by (cases r)
    show ?thesis
    proof (cases stop)
      case True
      then show ?thesis using Inr r by (subst preorder_values.simps) simp
    next
      case False
      note step = Inr r False
      consider (leaf) "owned_children v = None \<or> owned_children v = Some []"
        | (node) c cs where "owned_children v = Some (c # cs)"
        by (cases "owned_children v") (auto simp: neq_Nil_conv, metis list.exhaust)
      then show ?thesis
      proof cases
        case leaf
        then have pre: "preorder_values v = [v]" by (auto simp: preorder_leaf preorder_children)
        show ?thesis
        proof (cases "next_owned as")
          case None
          then show ?thesis using step leaf pre by (auto simp: next_owned_None)
        next
          case (Some p)
          obtain c as' where p: "p = (c, as')" by (cases p)
          with Some have eq: "pending as = preorder_values c @ pending as'" by (simp add: next_owned_Some)
          with Suc.prems pre have "length (preorder_values c @ pending as') \<le> n" by simp
          from Suc.IH [OF this, of cap s'] show ?thesis using step leaf pre Some p eq by auto
        qed
      next
        case node
        have pre: "preorder_values v @ pending as = v # preorder_values c @ pending (cs # as)"
          using node by (simp add: preorder_children pending_Cons)
        show ?thesis
        proof (cases "reserve_value_ancestor env (length as) cap bytes sp")
          case (Inl e)
          then show ?thesis using step node reserve_error [OF Inl] by (auto simp: scratch_error_def)
        next
          case (Inr cap')
          have "length (preorder_values c @ pending (cs # as)) \<le> n" using Suc.prems pre by simp
          from Suc.IH [OF this, of cap' s'] show ?thesis using step node pre Inr by auto
        qed
      qed
    qed
  qed
qed

lemma size_list_sum: "size_list f xs = sum_list (map (\<lambda>x. Suc (f x)) xs)"
  by (induction xs) auto

lemma children_total_size: "sum_list (map (\<lambda>c. Suc (size c)) (children v)) \<le> size v"
proof -
  have "sum_list (map (\<lambda>c. Suc (size c)) (map snd fs)) \<le> size_list (size_prod (\<lambda>_. 0) size) fs"
    for fs :: "(ustring \<times> 'a value_t) list"
    by (induction fs) auto
  then show ?thesis
    by (cases v) (auto simp: children_def owned_children_def size_list_sum intro: le_SucI)
qed

lemma preorder_length: "length (preorder_values v) \<le> Suc (size v)"
proof (induction v rule: preorder_values.induct)
  case (1 v)
  have "sum_list (map (length \<circ> preorder_values) (children v)) \<le> sum_list (map (\<lambda>c. Suc (size c)) (children v))"
    using 1 by (intro sum_list_mono) simp
  then show ?case using children_total_size [of v]
    by (subst preorder_values.simps) (simp add: length_concat)
qed

section \<open>The scratch budget\<close>

text \<open>Levels below \<open>N\<close>: a child on an iterator with \<open>i\<close> iterators below it nests at most \<open>N - i - 1\<close> levels.\<close>

fun levels_ok :: "nat \<Rightarrow> 'env value_t list list \<Rightarrow> bool" where
  "levels_ok N [] = True"
| "levels_ok N (cs # as) = (list_all (\<lambda>c. Suc (length as) + nesting c \<le> N) cs \<and> levels_ok N as)"

lemma nesting_child: "c \<in> set (children v) \<Longrightarrow> nesting c < nesting v"
  by (subst nesting.simps [of v]) (auto simp: less_Suc_eq_le intro!: Max_ge)

lemma nesting_pos: "0 < nesting v"
  by (subst nesting.simps) simp

lemma next_owned_levels:
  "next_owned as = Some (c, as') \<Longrightarrow> levels_ok N as \<Longrightarrow> length as' + nesting c \<le> N \<and> levels_ok N as'"
  by (induction as rule: next_owned.induct) auto

text \<open>The conditions under which a reservation succeeds: an exact allocator and room for both
  buffers while one is moved.\<close>

definition exact_alloc :: "walk_env \<Rightarrow> bool" where
  "exact_alloc env \<longleftrightarrow> we_alloc env = Some"

lemma reserve_value_ancestor_ok:
  assumes "exact_alloc env" and "len \<le> cap" and "cap \<le> bytes div we_frame_bytes env"
    and "2 * len + 1 \<le> bytes div we_frame_bytes env" and "bytes \<le> usize_MAX"
  shows "\<exists>cap'. reserve_value_ancestor env len cap bytes sp = Inr cap'
           \<and> Suc len \<le> cap' \<and> cap' \<le> bytes div we_frame_bytes env"
proof -
  let ?limit = "bytes div we_frame_bytes env"
  have "?limit \<le> usize_MAX" using assms(5) div_le_dividend le_trans by blast
  with assms show ?thesis
    by (cases "len < cap") (auto simp: reserve_value_ancestor_def Let_def exact_alloc_def)
qed

lemma visit_loop_no_scratch:
  assumes "exact_alloc env" and "bytes \<le> usize_MAX" and "2 * N \<le> bytes div we_frame_bytes env + 3"
  shows "length as + nesting v \<le> N \<Longrightarrow> levels_ok N as \<Longrightarrow> length as \<le> cap \<Longrightarrow>
     cap \<le> bytes div we_frame_bytes env \<Longrightarrow> length (preorder_values v @ pending as) \<le> n \<Longrightarrow>
     visit_loop n env sp bytes visit v as cap s = Some (visit_list visit (preorder_values v @ pending as) s)"
proof (induction n arbitrary: v as cap s)
  case 0
  then show ?case by (subst (asm) preorder_values.simps) simp
next
  case (Suc n)
  consider (leaf) "owned_children v = None \<or> owned_children v = Some []"
    | (node) c cs where "owned_children v = Some (c # cs)"
    by (cases "owned_children v") (auto simp: neq_Nil_conv, metis list.exhaust)
  then show ?case
  proof cases
    case leaf
    then have pre: "preorder_values v = [v]" by (auto simp: preorder_leaf preorder_children)
    show ?thesis
    proof (cases "next_owned as")
      case None
      then show ?thesis using leaf pre by (auto simp: next_owned_None split: sum.splits prod.splits bool.splits)
    next
      case (Some p)
      obtain c as' where p: "p = (c, as')" by (cases p)
      with Some have eq: "pending as = preorder_values c @ pending as'" by (simp add: next_owned_Some)
      have "visit_loop n env sp bytes visit c as' cap s'
          = Some (visit_list visit (preorder_values c @ pending as') s')" for s'
        using Suc.prems Some p eq pre next_owned_levels [of as c as' N] next_owned_length [of as c as']
        by (intro Suc.IH) auto
      then show ?thesis using leaf pre Some p eq by (auto split: sum.splits prod.splits bool.splits)
    qed
  next
    case node
    then have mem: "x \<in> set (c # cs) \<Longrightarrow> x \<in> set (children v)" for x by (simp add: children_def)
    have pre: "preorder_values v @ pending as = v # preorder_values c @ pending (cs # as)"
      using node by (simp add: preorder_children pending_Cons)
    have lev: "x \<in> set (c # cs) \<Longrightarrow> Suc (length as) + nesting x \<le> N" for x
      using nesting_child [OF mem, of x] Suc.prems(1) by simp
    from lev [of c] nesting_pos [of c] assms(3) have "2 * length as + 1 \<le> bytes div we_frame_bytes env" by simp
    from reserve_value_ancestor_ok [OF assms(1) Suc.prems(3,4) this assms(2)] obtain cap'
      where r: "reserve_value_ancestor env (length as) cap bytes sp = Inr cap'"
        and c: "Suc (length as) \<le> cap'" "cap' \<le> bytes div we_frame_bytes env" by blast
    have "visit_loop n env sp bytes visit c (cs # as) cap' s'
        = Some (visit_list visit (preorder_values c @ pending (cs # as)) s')" for s'
      using Suc.prems c lev pre by (intro Suc.IH) (auto simp: list_all_iff)
    then show ?thesis using node pre r by (auto split: sum.splits prod.splits bool.splits)
  qed
qed

section \<open>Tasks and views inside a value\<close>

definition is_task :: "'env value_t \<Rightarrow> bool" where
  "is_task v = (case v of V_Task _ \<Rightarrow> True | _ \<Rightarrow> False)"

definition is_borrowed :: "'env value_t \<Rightarrow> bool" where
  "is_borrowed v = (case v of V_Borrowed _ _ _ \<Rightarrow> True | _ \<Rightarrow> False)"

text \<open>\<open>Ok(matches!(value, ...))\<close> as a visitor.\<close>

definition visit_test :: "('env value_t \<Rightarrow> bool) \<Rightarrow> 'env value_t \<Rightarrow> unit \<Rightarrow> ku_error + (bool \<times> unit)" where
  "visit_test P v s = Inr (P v, s)"

definition contains_owned_task :: "walk_env \<Rightarrow> 'env value_t \<Rightarrow> span \<Rightarrow> (ku_error + bool) option" where
  "contains_owned_task env v sp = map_option (map_sum id fst) (visit_owned_values env v sp (visit_test is_task) ())"

definition contains_borrowed :: "walk_env \<Rightarrow> 'env value_t \<Rightarrow> span \<Rightarrow> (ku_error + bool) option" where
  "contains_borrowed env v sp = map_option (map_sum id fst) (visit_owned_values env v sp (visit_test is_borrowed) ())"

definition escape_error :: "span \<Rightarrow> ku_error" where
  "escape_error sp = runtime_error (lit ''borrowed value cannot escape, be stored, or be passed to an owning parameter; use clone to create an owned value'') sp"

definition require_owned :: "walk_env \<Rightarrow> 'env value_t \<Rightarrow> span \<Rightarrow> (ku_error + unit) option" where
  "require_owned env v sp = map_option (\<lambda>r. case r of
       Inl e \<Rightarrow> Inl e
     | Inr b \<Rightarrow> if b then Inl (escape_error sp) else Inr ()) (contains_borrowed env v sp)"

definition require_owned_root :: "'env value_t \<Rightarrow> span \<Rightarrow> ku_error + unit" where
  "require_owned_root v sp = (if is_borrowed v then Inl (escape_error sp) else Inr ())"

text \<open>\<open>grow n\<close> says whether a vector of \<open>n\<close> handles can take one more.\<close>

definition collect_visit ::
    "(nat \<Rightarrow> bool) \<Rightarrow> span \<Rightarrow> 'env value_t \<Rightarrow> task_handle list \<Rightarrow> ku_error + (bool \<times> task_handle list)" where
  "collect_visit grow sp v tasks = (case v of
       V_Task t \<Rightarrow>
         if grow (length tasks) then Inr (False, tasks @ [t])
         else Inl (runtime_error (lit ''task ownership collection out of memory'') sp)
     | _ \<Rightarrow> Inr (False, tasks))"

definition collect_owned_tasks ::
    "walk_env \<Rightarrow> (nat \<Rightarrow> bool) \<Rightarrow> 'env value_t \<Rightarrow> task_handle list \<Rightarrow> span \<Rightarrow> (ku_error + task_handle list) option" where
  "collect_owned_tasks env grow v tasks sp =
     map_option (map_sum id snd) (visit_owned_values env v sp (collect_visit grow sp) tasks)"

text \<open>A path that leads nowhere holds no task.\<close>

definition contains_task_projection ::
    "walk_env \<Rightarrow> 'env value_t \<Rightarrow> value_projection list \<Rightarrow> span \<Rightarrow> (ku_error + bool) option" where
  "contains_task_projection env v path sp = (case project_path path v of
       None \<Rightarrow> Some (Inr False)
     | Some sel \<Rightarrow> contains_owned_task env sel sp)"

definition update_field :: "ustring \<Rightarrow> ('v \<Rightarrow> 'v) \<Rightarrow> (ustring \<times> 'v) list \<Rightarrow> (ustring \<times> 'v) list" where
  "update_field k f fs = map (\<lambda>(k', x). (k', if k' = k then f x else x)) fs"

definition update_child :: "value_projection \<Rightarrow> ('env value_t \<Rightarrow> 'env value_t) \<Rightarrow> 'env value_t \<Rightarrow> 'env value_t" where
  "update_child p f v = (case (p, v) of
       (VP_Field name, V_Object fs) \<Rightarrow> V_Object (update_field name f fs)
     | (VP_Field name, V_Struct n fs) \<Rightarrow> V_Struct n (update_field name f fs)
     | (VP_Index i, V_Array vs) \<Rightarrow> V_Array (vs[i := f (vs ! i)])
     | (VP_EnumField i, V_Enum n var vs) \<Rightarrow> V_Enum n var (vs[i := f (vs ! i)])
     | _ \<Rightarrow> v)"

fun replace_path :: "value_projection list \<Rightarrow> 'env value_t \<Rightarrow> 'env value_t \<Rightarrow> 'env value_t" where
  "replace_path [] new v = new"
| "replace_path (p # ps) new v = update_child p (replace_path ps new) v"

definition take_task_projection ::
    "walk_env \<Rightarrow> 'env value_t \<Rightarrow> value_projection list \<Rightarrow> span \<Rightarrow>
     (ku_error + ('env value_t option \<times> 'env value_t)) option" where
  "take_task_projection env v path sp = (case project_path path v of
       None \<Rightarrow> Some (Inr (None, v))
     | Some sel \<Rightarrow> map_option (map_sum id (\<lambda>b.
           if b then (Some sel, replace_path path V_Null v) else (None, v))) (contains_owned_task env sel sp))"

section \<open>Tasks are neither lost nor duplicated\<close>

definition task_of :: "'env value_t \<Rightarrow> task_handle list" where
  "task_of v = (case v of V_Task t \<Rightarrow> [t] | _ \<Rightarrow> [])"

definition owned_tasks :: "'env value_t \<Rightarrow> task_handle list" where
  "owned_tasks v = concat (map task_of (preorder_values v))"

text \<open>What a \<open>HashMap\<close> guarantees: its keys are distinct, here and in every owned value.\<close>

definition keys_distinct :: "'env value_t \<Rightarrow> bool" where
  "keys_distinct v = (case v of
       V_Object fs \<Rightarrow> distinct (map fst fs) | V_Struct _ fs \<Rightarrow> distinct (map fst fs) | _ \<Rightarrow> True)"

definition value_ok :: "'env value_t \<Rightarrow> bool" where
  "value_ok v \<longleftrightarrow> list_all keys_distinct (preorder_values v)"

lemma owned_tasks_children: "owned_tasks v = task_of v @ concat (map owned_tasks (children v))"
proof -
  have "concat (map task_of (concat (map preorder_values cs))) = concat (map owned_tasks cs)" for cs :: "'a value_t list"
    by (induction cs) (simp_all add: owned_tasks_def)
  then show ?thesis by (subst owned_tasks_def, subst preorder_values.simps) simp
qed

lemma value_ok_children: "value_ok v \<longleftrightarrow> keys_distinct v \<and> list_all value_ok (children v)"
proof -
  have "list_all keys_distinct (concat (map preorder_values cs)) = list_all value_ok cs" for cs :: "'a value_t list"
    by (induction cs) (simp_all add: value_ok_def)
  then show ?thesis by (subst value_ok_def, subst preorder_values.simps) simp
qed

lemma update_field_split:
  "map_of fs k = Some x \<Longrightarrow> distinct (map fst fs) \<Longrightarrow>
   \<exists>xs ys. map snd fs = xs @ x # ys \<and> map snd (update_field k f fs) = xs @ f x # ys"
proof (induction fs)
  case (Cons p fs)
  obtain k' y where p: "p = (k', y)" by (cases p)
  show ?case
  proof (cases "k' = k")
    case True
    then have "update_field k f fs = fs"
      using Cons.prems p by (force simp: update_field_def intro!: map_idI)
    then show ?thesis using True Cons.prems p by (auto simp: update_field_def intro: exI [of _ "[]"])
  next
    case False
    with Cons p obtain xs ys where "map snd fs = xs @ x # ys" "map snd (update_field k f fs) = xs @ f x # ys" by auto
    with False p show ?thesis
      by (intro exI [of _ "y # xs"] exI [of _ ys]) (simp add: update_field_def)
  qed
qed simp

lemma list_update_split:
  "i < length vs \<Longrightarrow> \<exists>xs ys. vs = xs @ vs ! i # ys \<and> vs[i := x] = xs @ x # ys"
  by (intro exI [of _ "take i vs"] exI [of _ "drop (Suc i) vs"]) (simp add: id_take_nth_drop upd_conv_take_nth_drop)

lemma update_child_split:
  assumes "project_one p v = Some c" and "keys_distinct v"
  shows "\<exists>xs ys. children v = xs @ c # ys \<and> children (update_child p f v) = xs @ f c # ys"
  using assms
  by (auto simp: project_one_def keys_distinct_def children_def owned_children_def update_child_def
      split: value_projection.splits value_t.splits if_splits
      intro: update_field_split list_update_split)

lemma update_child_task: "task_of (update_child p f v) = task_of v"
  by (auto simp: task_of_def update_child_def split: value_projection.splits value_t.splits)

lemma replace_path_tasks:
  "project_path path v = Some sel \<Longrightarrow> value_ok v \<Longrightarrow>
   mset (owned_tasks sel) + mset (owned_tasks (replace_path path new v)) = mset (owned_tasks v) + mset (owned_tasks new)"
proof (induction path arbitrary: v)
  case Nil
  then show ?case by simp
next
  case (Cons p ps)
  then obtain c where c: "project_one p v = Some c" "project_path ps c = Some sel"
    by (auto split: option.splits)
  from Cons.prems(2) have ok: "keys_distinct v" "list_all value_ok (children v)"
    by (simp_all add: value_ok_children [of v])
  from update_child_split [OF c(1) ok(1), of "replace_path ps new"] obtain xs ys
    where split: "children v = xs @ c # ys" "children (update_child p (replace_path ps new) v) = xs @ replace_path ps new c # ys"
    by blast
  from ok(2) split have "value_ok c" by simp
  from Cons.IH [OF c(2) this] show ?case
    by (simp add: owned_tasks_children [of v] owned_tasks_children [of "update_child p (replace_path ps new) v"]
        split update_child_task ac_simps)
qed

lemma project_one_update: "project_one p v = Some c \<Longrightarrow> project_one p (update_child p f v) = Some (f c)"
proof -
  have field: "map_of fs k = Some x \<Longrightarrow> map_of (update_field k f fs) k = Some (f x)" for fs k x
    by (induction fs) (auto simp: update_field_def)
  show "project_one p v = Some c \<Longrightarrow> ?thesis"
    by (auto simp: project_one_def update_child_def field
        split: value_projection.splits value_t.splits if_splits)
qed

lemma project_replace_path: "project_path path v = Some sel \<Longrightarrow> project_path path (replace_path path new v) = Some new"
  by (induction path arbitrary: v) (auto split: option.splits simp: project_one_update)

lemma visit_test_list: "visit_list (visit_test P) vs () = Inr (list_ex P vs, ())"
  by (induction vs) (simp_all add: visit_test_def split: bool.split)

lemma task_walk_iff: "list_ex is_task (preorder_values v) \<longleftrightarrow> owned_tasks v \<noteq> []"
  by (auto simp: owned_tasks_def list_ex_iff is_task_def task_of_def split: value_t.splits)

lemma visit_owned_values_result:
  "visit_owned_values env v sp visit s = Some (visit_list visit (preorder_values v) s)
   \<or> scratch_error sp (visit_owned_values env v sp visit s)"
  using visit_loop_preorder [of v "[]" "Suc (size v)" env sp "2 * 1024 * 1024" visit 0 s] preorder_length [of v]
  by (simp add: visit_owned_values_def visit_owned_values_with_budget_def)

lemma contains_owned_task_result:
  assumes "contains_owned_task env v sp = Some (Inr b)"
  shows "b \<longleftrightarrow> owned_tasks v \<noteq> []"
  using visit_owned_values_result [of env v sp "visit_test is_task" "()"] assms
  by (auto simp: contains_owned_task_def visit_test_list task_walk_iff scratch_error_def)

text \<open>C23: The walk over owned values visits every value exactly once in depth-first order. With an
  allocator that gives what it is asked for, \<open>2 d - 3\<close> iterators of scratch space are enough for
  a value nested \<open>d\<close> levels deep, and then the walk is the recursive one: no scratch error, every
  early stop and every visitor error as the recursive walk has them.\<close>

theorem visit_owned_values_walk:
  assumes "exact_alloc env" and "bytes \<le> usize_MAX"
    and "2 * nesting v \<le> bytes div we_frame_bytes env + 3"
  shows "visit_owned_values_with_budget env v sp bytes visit s = Some (visit_list visit (preorder_values v) s)"
  using visit_loop_no_scratch [OF assms, of "[]" v 0 "Suc (size v)" sp visit s] preorder_length [of v]
  by (simp add: visit_owned_values_with_budget_def)

theorem visit_owned_values_walk_witness:
  "visit_owned_values_with_budget \<lparr>we_frame_bytes = 40, we_alloc = Some\<rparr>
      (V_Result True (V_Result True (V_Int 1)) :: unit value_t) Span_default 120 (visit_test is_task) ()
    = Some (Inr (False, ()))"
proof -
  let ?v = "V_Result True (V_Result True (V_Int 1)) :: unit value_t"
  have "nesting ?v = 3"
    by (simp add: nesting.simps children_def owned_children_def)
  then show ?thesis
    using visit_owned_values_walk [of "\<lparr>we_frame_bytes = 40, we_alloc = Some\<rparr>" 120 ?v Span_default "visit_test is_task" "()"]
    by (simp add: exact_alloc_def usize_MAX_def visit_test_list)
      (simp add: preorder_values.simps children_def owned_children_def is_task_def)
qed

text \<open>C22: Moving a task out of a container neither loses nor duplicates a task. When
  \<open>take_task_projection\<close> succeeds, either nothing was taken and the container is unchanged, or the
  value at the path was taken, null stands in its place, and the tasks of the container before are
  exactly the tasks of the taken value together with those the container still owns.\<close>

theorem take_task_projection_conserves:
  assumes "value_ok v" and "take_task_projection env v path sp = Some (Inr (taken, v'))"
  shows "case taken of
      None \<Rightarrow> v' = v
    | Some sel \<Rightarrow> project_path path v = Some sel \<and> owned_tasks sel \<noteq> []
        \<and> project_path path v' = Some V_Null
        \<and> mset (owned_tasks v) = mset (owned_tasks sel) + mset (owned_tasks v')"
proof (cases "project_path path v")
  case None
  then show ?thesis using assms(2) by (simp add: take_task_projection_def)
next
  case (Some sel)
  have "owned_tasks (V_Null :: 'a value_t) = []"
    by (subst owned_tasks_children) (simp add: task_of_def children_def owned_children_def)
  then have "mset (owned_tasks v) = mset (owned_tasks sel) + mset (owned_tasks (replace_path path V_Null v))"
    using replace_path_tasks [OF Some assms(1), of V_Null] by simp
  moreover obtain b where b: "contains_owned_task env sel sp = Some (Inr b)"
    using assms(2) Some
    by (cases "contains_owned_task env sel sp"; cases "the (contains_owned_task env sel sp)")
      (auto simp: take_task_projection_def)
  moreover have "taken = (if b then Some sel else None)" "v' = (if b then replace_path path V_Null v else v)"
    using assms(2) Some b by (simp_all add: take_task_projection_def split: if_splits)
  ultimately show ?thesis
    using Some contains_owned_task_result [OF b] project_replace_path [OF Some, of V_Null]
    by (cases b) simp_all
qed

theorem take_task_projection_conserves_witness:
  "project_path [VP_Index 1] (V_Array [V_Int 7, V_Null] :: unit value_t) = Some V_Null
   \<and> mset (owned_tasks (V_Array [V_Int 7, V_Task \<lparr>th_id = 1, th_state = 5\<rparr>] :: unit value_t))
     = mset (owned_tasks (V_Task \<lparr>th_id = 1, th_state = 5\<rparr> :: unit value_t))
       + mset (owned_tasks (V_Array [V_Int 7, V_Null] :: unit value_t))"
proof -
  let ?v = "V_Array [V_Int 7, V_Task \<lparr>th_id = 1, th_state = 5\<rparr>] :: unit value_t"
  let ?env = "\<lparr>we_frame_bytes = 40, we_alloc = Some\<rparr>"
  have ok: "value_ok ?v"
    by (simp add: value_ok_def preorder_values.simps children_def owned_children_def keys_distinct_def)
  have take: "take_task_projection ?env ?v [VP_Index 1] Span_default
      = Some (Inr (Some (V_Task \<lparr>th_id = 1, th_state = 5\<rparr>), V_Array [V_Int 7, V_Null]))"
    by (simp add: take_task_projection_def project_one_def contains_owned_task_def visit_owned_values_def
        visit_owned_values_with_budget_def visit_test_def is_task_def update_child_def)
  from take_task_projection_conserves [OF ok take] show ?thesis by simp
qed

end
