(* ===== verification/Stdlib.thy ===== *)
theory Stdlib
  imports Value_Walk
begin

text \<open>
  The pure modules of the standard library of Ku: \<open>src/src/stdlib/core.rs\<close>, \<open>errors.rs\<close>,
  \<open>string.rs\<close>, \<open>array.rs\<close>, \<open>object.rs\<close> and the dispatch of \<open>mod.rs\<close>. A call gets a function name
  and evaluated arguments; it does not know the function (\<open>Inr None\<close>), fails with an error or
  returns a value. Indexing and slicing in Rust panic out of range, and so does the model. The
  Unicode case mappings of Rust's library are an argument.
\<close>

section \<open>Shared helpers\<close>

type_synonym 'env args = "'env value_t list"
type_synonym 'env builtin_result = "(ku_error, 'env value_t option) result"

definition rbind :: "('e, 'a) result \<Rightarrow> ('a \<Rightarrow> ('e, 'b) result) \<Rightarrow> ('e, 'b) result" where
  "rbind m f = (case m of Inl e \<Rightarrow> Inl e | Inr x \<Rightarrow> f x)"

definition rerr :: "'e \<Rightarrow> ('e, 'a) result" where
  "rerr e = Inl (Raise e)"

text \<open>\<open>args[i]\<close>\<close>

definition arg :: "'v list \<Rightarrow> nat \<Rightarrow> ('e, 'v) result" where
  "arg args i = (if i < length args then Inr (args ! i) else Inl RustPanic)"

definition returns :: "('e, 'a) result \<Rightarrow> bool" where
  "returns r = (case r of Inl RustPanic \<Rightarrow> False | Inl OutOfFuel \<Rightarrow> False | _ \<Rightarrow> True)"

lemma rbind_simps [simp]: "rbind (Inl e) f = Inl e" "rbind (Inr x) f = f x" "rbind (rerr e') f = rerr e'"
  by (simp_all add: rbind_def rerr_def)

lemma returns_simps [simp]: "returns (Inr x)" "returns (rerr e)" "returns (Inl (Raise e))"
  by (simp_all add: returns_def rerr_def)

definition errors_ok :: "'env value_t \<Rightarrow> 'env value_t" where
  "errors_ok v = V_Result True v"

definition error_object :: "ustring \<Rightarrow> ustring \<Rightarrow> ustring \<Rightarrow> 'env value_t" where
  "error_object domain code message = V_Object
     [(lit ''domain'', V_String domain), (lit ''code'', V_String code), (lit ''message'', V_String message)]"

definition errors_err :: "ustring \<Rightarrow> ustring \<Rightarrow> ustring \<Rightarrow> 'env value_t" where
  "errors_err domain code message = V_Result False (error_object domain code message)"

definition expect_arg_count :: "ustring \<Rightarrow> nat \<Rightarrow> nat \<Rightarrow> span \<Rightarrow> (ku_error, unit) result" where
  "expect_arg_count name actual expected sp =
     (if actual = expected then Inr ()
      else rerr (runtime_error (lit ''function '' @ [39] @ name @ [39] @ lit '' expects '' @ nat_to_string expected
             @ lit '' arguments but got '' @ nat_to_string actual) sp))"

definition expected_type :: "owner \<Rightarrow> ustring \<Rightarrow> 'env value_t \<Rightarrow> span \<Rightarrow> ku_error" where
  "expected_type now expected actual sp =
     runtime_error (lit ''type error: expected '' @ expected @ lit '' but got '' @ type_name_of now actual) sp"

text \<open>\<open>let Value::String(text) = &args[i] else { return Err(expected_type(...)) }\<close> and its siblings.\<close>

definition string_arg :: "owner \<Rightarrow> 'env args \<Rightarrow> nat \<Rightarrow> span \<Rightarrow> (ku_error, ustring) result" where
  "string_arg now args i sp = rbind (arg args i) (\<lambda>v. case v of
       V_String s \<Rightarrow> Inr s | _ \<Rightarrow> rerr (expected_type now (lit ''str'') v sp))"

definition int_arg :: "owner \<Rightarrow> 'env args \<Rightarrow> nat \<Rightarrow> span \<Rightarrow> (ku_error, i64) result" where
  "int_arg now args i sp = rbind (arg args i) (\<lambda>v. case v of
       V_Int n \<Rightarrow> Inr n | _ \<Rightarrow> rerr (expected_type now (lit ''int'') v sp))"

definition array_arg :: "owner \<Rightarrow> 'env args \<Rightarrow> nat \<Rightarrow> span \<Rightarrow> (ku_error, 'env value_t list) result" where
  "array_arg now args i sp = rbind (arg args i) (\<lambda>v. case v of
       V_Array vs \<Rightarrow> Inr vs | _ \<Rightarrow> rerr (expected_type now (lit ''array'') v sp))"

definition object_arg :: "owner \<Rightarrow> 'env args \<Rightarrow> nat \<Rightarrow> span \<Rightarrow> (ku_error, (ustring \<times> 'env value_t) list) result" where
  "object_arg now args i sp = rbind (arg args i) (\<lambda>v. case v of
       V_Object fs \<Rightarrow> Inr fs | _ \<Rightarrow> rerr (expected_type now (lit ''object'') v sp))"

section \<open>core.rs\<close>

text \<open>\<open>println\<close> writes to the terminal; the line it writes is the \<open>snd\<close> of the result.\<close>

definition core_eval_builtin :: "owner \<Rightarrow> ustring \<Rightarrow> 'env args \<Rightarrow> span \<Rightarrow>
    (ku_error, 'env value_t option \<times> ustring option) result" where
  "core_eval_builtin now name args sp =
     (if name = lit ''len'' then
        rbind (expect_arg_count name (length args) 1 sp) (\<lambda>_.
        rbind (arg args 0) (\<lambda>v. case v of
            V_String s \<Rightarrow> Inr (Some (V_Int (of_nat (length s))), None)
          | V_Array vs \<Rightarrow> Inr (Some (V_Int (of_nat (length vs))), None)
          | _ \<Rightarrow> rerr (expected_type now (lit ''str or array'') v sp)))
      else if name = lit ''str'' then
        rbind (expect_arg_count name (length args) 1 sp) (\<lambda>_.
        rbind (arg args 0) (\<lambda>v.
        rbind (value_to_string now v) (\<lambda>t. Inr (Some (V_String t), None))))
      else if name = lit ''ok'' then
        rbind (expect_arg_count name (length args) 1 sp) (\<lambda>_.
        rbind (arg args 0) (\<lambda>v. Inr (Some (V_Result True v), None)))
      else if name = lit ''err'' then
        rbind (expect_arg_count name (length args) 1 sp) (\<lambda>_.
        rbind (string_arg now args 0 sp) (\<lambda>m. Inr (Some (errors_err (lit ''ku'') (lit ''err'') m), None)))
      else if name = lit ''println'' then
        rbind (expect_arg_count name (length args) 1 sp) (\<lambda>_.
        rbind (arg args 0) (\<lambda>v.
        rbind (value_to_string now v) (\<lambda>t. Inr (Some V_Null, Some (t @ [10])))))
      else Inr (None, None))"

section \<open>string.rs\<close>

record unicode_case =
  uc_lower :: "ustring \<Rightarrow> ustring"
  uc_upper :: "ustring \<Rightarrow> ustring"

definition is_whitespace :: "uchar \<Rightarrow> bool" where
  "is_whitespace c \<longleftrightarrow> 9 \<le> c \<and> c \<le> 13 \<or> c = 0x20 \<or> c = 0x85 \<or> c = 0xA0 \<or> c = 0x1680
     \<or> 0x2000 \<le> c \<and> c \<le> 0x200A \<or> c = 0x2028 \<or> c = 0x2029 \<or> c = 0x202F \<or> c = 0x205F \<or> c = 0x3000"

definition trim_text :: "ustring \<Rightarrow> ustring" where
  "trim_text s = rev (dropWhile is_whitespace (rev (dropWhile is_whitespace s)))"

definition ends_with :: "ustring \<Rightarrow> ustring \<Rightarrow> bool" where
  "ends_with s needle \<longleftrightarrow> str_starts_with (rev s) (rev needle)"

lemma str_starts_with_iff: "str_starts_with s p \<longleftrightarrow> take (length p) s = p"
  by (induction s p rule: str_starts_with.induct) auto

lemma str_starts_with_length: "str_starts_with s p \<Longrightarrow> length p \<le> length s"
  by (induction s p rule: str_starts_with.induct) auto

text \<open>\<open>str::replace\<close>: the matches from left to right, without overlap; the empty pattern matches
  between any two characters and at both ends.\<close>

function replace_all :: "ustring \<Rightarrow> ustring \<Rightarrow> ustring \<Rightarrow> ustring" where
  "replace_all from to s =
     (if from = [] then to @ concat (map (\<lambda>c. c # to) s)
      else if str_starts_with s from then to @ replace_all from to (drop (length from) s)
      else case s of [] \<Rightarrow> [] | c # cs \<Rightarrow> c # replace_all from to cs)"
  by pat_completeness auto
termination
  by (relation "measure (\<lambda>(from, to, s). length s)") (auto dest: str_starts_with_length intro!: diff_less)

declare replace_all.simps [simp del]

definition one_string :: "owner \<Rightarrow> ustring \<Rightarrow> 'env args \<Rightarrow> span \<Rightarrow> (ku_error, ustring) result" where
  "one_string now name args sp =
     rbind (expect_arg_count name (length args) 1 sp) (\<lambda>_. string_arg now args 0 sp)"

definition two_strings :: "owner \<Rightarrow> ustring \<Rightarrow> 'env args \<Rightarrow> span \<Rightarrow> (ku_error, ustring \<times> ustring) result" where
  "two_strings now name args sp =
     rbind (expect_arg_count name (length args) 2 sp) (\<lambda>_.
     rbind (string_arg now args 0 sp) (\<lambda>l.
     rbind (string_arg now args 1 sp) (\<lambda>r. Inr (l, r))))"

definition slice_err :: "ustring \<Rightarrow> 'env value_t" where
  "slice_err message = errors_err (lit ''string'') (lit ''slice_error'') message"

text \<open>\<open>chars[start..end]\<close> panics unless \<open>start \<le> end \<le> len\<close>.\<close>

definition slice_range :: "'a list \<Rightarrow> nat \<Rightarrow> nat \<Rightarrow> ('e, 'a list) result" where
  "slice_range xs a b = (if a \<le> b \<and> b \<le> length xs then Inr (take (b - a) (drop a xs)) else Inl RustPanic)"

definition string_slice :: "ustring \<Rightarrow> i64 \<Rightarrow> i64 \<Rightarrow> (ku_error, 'env value_t) result" where
  "string_slice s a b =
     (if sint a < 0 \<or> sint b < 0 then Inr (slice_err (lit ''string.slice indexes must be >= 0''))
      else if sint b < sint a then Inr (slice_err (lit ''string.slice start must be <= end''))
      else let start = unat a; stop = unat b in
        if length s < stop then
          Inr (slice_err (lit ''string.slice end '' @ nat_to_string stop @ lit '' out of bounds for length ''
            @ nat_to_string (length s)))
        else rbind (slice_range s start stop) (\<lambda>t. Inr (V_Result True (V_String t))))"

definition string_eval :: "owner \<Rightarrow> unicode_case \<Rightarrow> ustring \<Rightarrow> 'env args \<Rightarrow> span \<Rightarrow> 'env builtin_result" where
  "string_eval now uc function args sp =
     (if function = lit ''len'' then
        rbind (one_string now (lit ''string.len'') args sp) (\<lambda>s. Inr (Some (V_Int (of_nat (length s)))))
      else if function = lit ''byte_len'' then
        rbind (one_string now (lit ''string.byte_len'') args sp) (\<lambda>s. Inr (Some (V_Int (of_nat (str_len s)))))
      else if function = lit ''chars'' then
        rbind (one_string now (lit ''string.chars'') args sp) (\<lambda>s.
          Inr (Some (V_Array (map (\<lambda>c. V_String [c]) s))))
      else if function = lit ''contains'' then
        rbind (two_strings now (lit ''string.contains'') args sp) (\<lambda>(s, n). Inr (Some (V_Bool (str_contains s n))))
      else if function = lit ''starts_with'' then
        rbind (two_strings now (lit ''string.starts_with'') args sp) (\<lambda>(s, n). Inr (Some (V_Bool (str_starts_with s n))))
      else if function = lit ''ends_with'' then
        rbind (two_strings now (lit ''string.ends_with'') args sp) (\<lambda>(s, n). Inr (Some (V_Bool (ends_with s n))))
      else if function = lit ''trim'' then
        rbind (one_string now (lit ''string.trim'') args sp) (\<lambda>s. Inr (Some (V_String (trim_text s))))
      else if function = lit ''lower'' then
        rbind (one_string now (lit ''string.lower'') args sp) (\<lambda>s. Inr (Some (V_String (uc_lower uc s))))
      else if function = lit ''upper'' then
        rbind (one_string now (lit ''string.upper'') args sp) (\<lambda>s. Inr (Some (V_String (uc_upper uc s))))
      else if function = lit ''replace'' then
        rbind (expect_arg_count (lit ''string.replace'') (length args) 3 sp) (\<lambda>_.
        rbind (string_arg now args 0 sp) (\<lambda>s.
        rbind (string_arg now args 1 sp) (\<lambda>from.
        rbind (string_arg now args 2 sp) (\<lambda>to. Inr (Some (V_String (replace_all from to s)))))))
      else if function = lit ''slice'' then
        rbind (expect_arg_count (lit ''string.slice'') (length args) 3 sp) (\<lambda>_.
        rbind (string_arg now args 0 sp) (\<lambda>s.
        rbind (int_arg now args 1 sp) (\<lambda>a.
        rbind (int_arg now args 2 sp) (\<lambda>b.
        rbind (string_slice s a b) (\<lambda>v. Inr (Some v))))))
      else Inr None)"

section \<open>array.rs\<close>

definition one_array :: "owner \<Rightarrow> ustring \<Rightarrow> 'env args \<Rightarrow> span \<Rightarrow> (ku_error, 'env value_t list) result" where
  "one_array now name args sp =
     rbind (expect_arg_count name (length args) 1 sp) (\<lambda>_. array_arg now args 0 sp)"

definition array_err :: "ustring \<Rightarrow> 'env value_t" where
  "array_err message = errors_err (lit ''array'') (lit ''index_out_of_bounds'') message"

definition array_try_get :: "'env value_t list \<Rightarrow> i64 \<Rightarrow> 'env value_t" where
  "array_try_get vs i =
     (if sint i < 0 then array_err (lit ''array index must be >= 0'')
      else if unat i < length vs then V_Result True (vs ! unat i)
      else array_err (lit ''array index '' @ i64_to_string i @ lit '' out of bounds for length ''
             @ nat_to_string (length vs)))"

definition array_eval :: "owner \<Rightarrow> ustring \<Rightarrow> 'env args \<Rightarrow> span \<Rightarrow> 'env builtin_result" where
  "array_eval now function args sp =
     (if function = lit ''len'' then
        rbind (one_array now (lit ''array.len'') args sp) (\<lambda>vs. Inr (Some (V_Int (of_nat (length vs)))))
      else if function = lit ''is_empty'' then
        rbind (one_array now (lit ''array.is_empty'') args sp) (\<lambda>vs. Inr (Some (V_Bool (vs = []))))
      else if function = lit ''push'' then
        rbind (expect_arg_count (lit ''array.push'') (length args) 2 sp) (\<lambda>_.
        rbind (array_arg now args 0 sp) (\<lambda>vs.
        rbind (arg args 1) (\<lambda>v. Inr (Some (V_Array (vs @ [v]))))))
      else if function = lit ''concat'' then
        rbind (expect_arg_count (lit ''array.concat'') (length args) 2 sp) (\<lambda>_.
        rbind (array_arg now args 0 sp) (\<lambda>l.
        rbind (array_arg now args 1 sp) (\<lambda>r. Inr (Some (V_Array (l @ r))))))
      else if function = lit ''first'' then
        rbind (one_array now (lit ''array.first'') args sp) (\<lambda>vs.
          Inr (Some (case vs of [] \<Rightarrow> V_Null | v # _ \<Rightarrow> v)))
      else if function = lit ''last'' then
        rbind (one_array now (lit ''array.last'') args sp) (\<lambda>vs.
          Inr (Some (if vs = [] then V_Null else last vs)))
      else if function = lit ''try_get'' then
        rbind (expect_arg_count (lit ''array.try_get'') (length args) 2 sp) (\<lambda>_.
        rbind (array_arg now args 0 sp) (\<lambda>vs.
        rbind (int_arg now args 1 sp) (\<lambda>i. Inr (Some (array_try_get vs i)))))
      else Inr None)"

section \<open>object.rs\<close>

definition object_eval :: "owner \<Rightarrow> ustring \<Rightarrow> 'env args \<Rightarrow> span \<Rightarrow> 'env builtin_result" where
  "object_eval now function args sp =
     (if function = lit ''get_or'' then
        rbind (expect_arg_count (lit ''object.get_or'') (length args) 3 sp) (\<lambda>_.
        rbind (object_arg now args 0 sp) (\<lambda>fs.
        rbind (string_arg now args 1 sp) (\<lambda>key.
        rbind (arg args 2) (\<lambda>d.
          Inr (Some (case map_of fs key of Some v \<Rightarrow> v | None \<Rightarrow> d))))))
      else Inr None)"

section \<open>mod.rs\<close>

definition dotted_name :: "expr \<Rightarrow> (ustring \<times> ustring) option" where
  "dotted_name e = (case ex_kind e of
       EK_Field target name \<Rightarrow> (case ex_kind target of EK_Variable m \<Rightarrow> Some (m, name) | _ \<Rightarrow> None)
     | _ \<Rightarrow> None)"

text \<open>The modules by name; the ones that do input and output are not modelled and are arguments.\<close>

record 'env std_modules =
  sm_fs :: "ustring \<Rightarrow> 'env args \<Rightarrow> span \<Rightarrow> 'env builtin_result"
  sm_compiler :: "ustring \<Rightarrow> ustring \<Rightarrow> 'env args \<Rightarrow> span \<Rightarrow> 'env builtin_result"
  sm_config :: "ustring \<Rightarrow> 'env args \<Rightarrow> span \<Rightarrow> 'env builtin_result"
  sm_json :: "ustring \<Rightarrow> 'env args \<Rightarrow> span \<Rightarrow> 'env builtin_result"
  sm_time :: "ustring \<Rightarrow> 'env args \<Rightarrow> span \<Rightarrow> 'env builtin_result"
  sm_http :: "ustring \<Rightarrow> 'env args \<Rightarrow> span \<Rightarrow> 'env builtin_result"

definition eval_dotted_builtin ::
    "owner \<Rightarrow> unicode_case \<Rightarrow> 'env std_modules \<Rightarrow> expr \<Rightarrow> 'env args \<Rightarrow> span \<Rightarrow> 'env builtin_result" where
  "eval_dotted_builtin now uc mods callee args sp = (case dotted_name callee of
       None \<Rightarrow> Inr None
     | Some (m, f) \<Rightarrow>
         if m = lit ''fs'' then sm_fs mods f args sp
         else if m = lit ''lexer'' \<or> m = lit ''parser'' then sm_compiler mods m f args sp
         else if m = lit ''string'' then string_eval now uc f args sp
         else if m = lit ''array'' then array_eval now f args sp
         else if m = lit ''config'' then sm_config mods f args sp
         else if m = lit ''json'' then sm_json mods f args sp
         else if m = lit ''object'' then object_eval now f args sp
         else if m = lit ''time'' then sm_time mods f args sp
         else if m = lit ''http'' then sm_http mods f args sp
         else Inr None)"

section \<open>Lemmas\<close>

named_theorems returns_intro

lemma returns_bind [returns_intro]: "returns m \<Longrightarrow> (\<And>x. m = Inr x \<Longrightarrow> returns (f x)) \<Longrightarrow> returns (rbind m f)"
  by (cases m) (auto simp: returns_def split: fault.splits)

lemma returns_expect [returns_intro]: "returns (expect_arg_count name n m sp)"
  by (simp add: expect_arg_count_def)

lemma expect_arg_count_Inr [simp]: "expect_arg_count name n m sp = Inr u \<longleftrightarrow> n = m"
  by (simp add: expect_arg_count_def rerr_def)

lemma returns_args [returns_intro]:
  "i < length args \<Longrightarrow> returns (arg args i)"
  "i < length args \<Longrightarrow> returns (string_arg now args i sp)"
  "i < length args \<Longrightarrow> returns (int_arg now args i sp)"
  "i < length args \<Longrightarrow> returns (array_arg now args i sp)"
  "i < length args \<Longrightarrow> returns (object_arg now args i sp)"
  by (auto simp: arg_def string_arg_def int_arg_def array_arg_def object_arg_def split: value_t.split)

lemma i64_unat: "0 \<le> sint w \<Longrightarrow> int (unat w) = sint w" for w :: i64
  by (cases w rule: i64_cases) (auto simp: i64_MAX_def unat_of_nat take_bit_nat_eq_self)

lemma string_slice_cases:
  "string_slice s a b =
     (if 0 \<le> sint a \<and> sint a \<le> sint b \<and> sint b \<le> int (length s)
      then Inr (V_Result True (V_String (take (unat b - unat a) (drop (unat a) s))))
      else Inr (slice_err (if sint a < 0 \<or> sint b < 0 then lit ''string.slice indexes must be >= 0''
             else if sint b < sint a then lit ''string.slice start must be <= end''
             else lit ''string.slice end '' @ nat_to_string (unat b) @ lit '' out of bounds for length ''
               @ nat_to_string (length s))))"
proof (cases "0 \<le> sint a \<and> 0 \<le> sint b")
  case True
  then have "unat a = nat (sint a)" "unat b = nat (sint b)"
    using i64_unat [of a] i64_unat [of b] by (metis nat_int)+
  then show ?thesis using True by (auto simp: string_slice_def slice_range_def Let_def nat_le_iff)
qed (auto simp: string_slice_def)

lemma returns_slice [returns_intro]: "returns (string_slice s a b)"
  by (simp add: string_slice_cases)

lemma string_eval_returns: "returns (string_eval now uc f args sp)"
  unfolding string_eval_def one_string_def two_strings_def
  by (auto intro!: returns_intro)

lemma array_eval_returns: "returns (array_eval now f args sp)"
  unfolding array_eval_def one_array_def
  by (auto intro!: returns_intro)

lemma object_eval_returns: "returns (object_eval now f args sp)"
  unfolding object_eval_def
  by (auto intro!: returns_intro)

text \<open>A value without views can always be printed.\<close>

definition owned_value :: "'env value_t \<Rightarrow> bool" where
  "owned_value v \<longleftrightarrow> \<not> list_ex is_borrowed (preorder_values v)"

lemma owned_value_children: "owned_value v \<longleftrightarrow> \<not> is_borrowed v \<and> list_all owned_value (children v)"
proof -
  have "\<not> list_ex is_borrowed (concat (map preorder_values cs)) \<longleftrightarrow> list_all owned_value cs" for cs :: "'a value_t list"
    by (induction cs) (simp_all add: owned_value_def)
  then show ?thesis by (subst owned_value_def, subst preorder_values.simps) simp
qed

lemma those_map_Some: "(\<And>x. x \<in> set xs \<Longrightarrow> \<exists>y. f x = Some y) \<Longrightarrow> \<exists>ys. those (map f xs) = Some ys"
proof (induction xs)
  case (Cons x xs)
  from Cons.prems [of x] obtain y where "f x = Some y" by auto
  moreover from Cons obtain ys where "those (map f xs) = Some ys" by auto
  ultimately show ?case by simp
qed simp

lemma owned_display: "owned_value v \<Longrightarrow> display now v \<noteq> None"
proof (induction v rule: measure_induct_rule [where f = size])
  case (less v)
  have child: "c \<in> set (children v) \<Longrightarrow> display now c \<noteq> None" for c
    using less.IH [of c] less.prems children_size [of c v] owned_value_children [of v] by (auto simp: list_all_iff)
  have fs: "(k, c) \<in> set fs \<Longrightarrow> c \<in> set (map snd fs)" for k c and fs :: "(ustring \<times> 'a value_t) list"
    by force
  have "\<not> is_borrowed v" using less.prems owned_value_children [of v] by simp
  with child show ?case
    by (subst display.simps)
      (auto simp: is_borrowed_def children_def owned_children_def split: value_t.splits
        intro!: those_map_Some dest: fs)
qed



text \<open>Slicing a string at any position inside it splits it: both halves are returned as
  results, and together they are the string again. Positions count characters, not bytes.\<close>

lemma string_slice_splits:
  assumes "i \<le> length s" and "length s < 2 ^ 63"
  shows "\<exists>l r. string_slice s 0 (of_nat i) = Inr (V_Result True (V_String l))
    \<and> string_slice s (of_nat i) (of_nat (length s)) = Inr (V_Result True (V_String r))
    \<and> l @ r = s \<and> length l = i"
proof -
  have word: "sint (of_nat n :: i64) = int n \<and> unat (of_nat n :: i64) = n" if "n < 2 ^ 63" for n
    using that by (simp add: signed_of_nat signed_take_bit_int_eq_self unat_of_nat take_bit_nat_eq_self)
  show ?thesis using assms word [of i] word [of "length s"]
    by (simp add: string_slice_cases)
qed

lemma string_slice_splits_example:
  "\<exists>l r. string_slice (lit ''abc'') 0 (of_nat 1) = Inr (V_Result True (V_String l) :: unit value_t)
    \<and> string_slice (lit ''abc'') (of_nat 1) (of_nat (length (lit ''abc''))) = Inr (V_Result True (V_String r) :: unit value_t)
    \<and> l @ r = lit ''abc'' \<and> length l = 1"
  using string_slice_splits [of 1 "lit ''abc''"] by (simp add: lit_def)

end
