(* ===== verification/Json.thy ===== *)
theory Json
  imports Stdlib
begin

text \<open>
  The JSON module (\<open>src/src/stdlib/json.rs\<close>): a recursive-descent parser over the characters of
  the text, bounded in depth and input size, and a writer bounded in depth and output size. The
  parser recurses at most \<open>MAX_JSON_DEPTH + 1\<close> levels, so \<open>JSON_FUEL\<close> levels of the model are
  enough; its loops consume a character per round.
\<close>

section \<open>The cursor\<close>

definition MAX_JSON_INPUT_BYTES :: nat where
  "MAX_JSON_INPUT_BYTES = 1000000"

definition MAX_JSON_DEPTH :: nat where
  "MAX_JSON_DEPTH = 32"

definition MAX_JSON_OUTPUT_BYTES :: nat where
  "MAX_JSON_OUTPUT_BYTES = 1000000"

record json_parser =
  jp_chars :: ustring
  jp_current :: nat
  jp_span :: span

type_synonym 'a jm = "(json_parser, ku_error, 'a) sm"

definition JsonParser_new :: "ustring \<Rightarrow> span \<Rightarrow> json_parser" where
  "JsonParser_new source sp = \<lparr>jp_chars = source, jp_current = 0, jp_span = sp\<rparr>"

definition jpeek :: "uchar option jm" where
  "jpeek = sget (\<lambda>s. if jp_current s < length (jp_chars s) then Some (jp_chars s ! jp_current s) else None)"

definition jadvance :: "uchar option jm" where
  "jadvance = sbind jpeek (\<lambda>c. case c of
       None \<Rightarrow> sreturn None
     | Some x \<Rightarrow> sbind (smodify (\<lambda>s. s\<lparr>jp_current := jp_current s + 1\<rparr>)) (\<lambda>_. sreturn (Some x)))"

text \<open>The slice of the characters read so far is in range as long as the cursor is.\<close>

definition json_error :: "json_parser \<Rightarrow> ustring \<Rightarrow> ku_error" where
  "json_error s message =
     (let byte = str_len (take (jp_current s) (jp_chars s));
          p = Position_new (line (sp_start (jp_span s))) (column (sp_start (jp_span s))) byte
      in runtime_error (lit ''json parse failed: '' @ message @ lit '' at byte '' @ nat_to_string byte) (Span_point p))"

definition jfail :: "ustring \<Rightarrow> 'a jm" where
  "jfail message s = (if jp_current s \<le> length (jp_chars s) then Inl (Raise (json_error s message)) else Inl RustPanic)"

definition jmatches :: "uchar \<Rightarrow> bool jm" where
  "jmatches expected = sbind jpeek (\<lambda>c.
     if c = Some expected then sbind jadvance (\<lambda>_. sreturn True) else sreturn False)"

definition jconsume :: "uchar \<Rightarrow> unit jm" where
  "jconsume expected = sbind (jmatches expected) (\<lambda>ok.
     if ok then sreturn () else jfail (lit ''expected '' @ [39, expected, 39]))"

definition jrest :: "json_parser \<Rightarrow> nat" where
  "jrest s = length (jp_chars s) - jp_current s"

definition is_json_ws :: "uchar \<Rightarrow> bool" where
  "is_json_ws c \<longleftrightarrow> c = 32 \<or> c = 13 \<or> c = 10 \<or> c = 9"

text \<open>\<open>while matches!(self.peek(), ...) { self.advance(); }\<close>, counting the characters.\<close>

definition jskip :: "(uchar \<Rightarrow> bool) \<Rightarrow> nat jm" where
  "jskip P = sloop jrest (\<lambda>n. sbind jpeek (\<lambda>c.
     case c of
       Some x \<Rightarrow> if P x then sbind jadvance (\<lambda>_. sreturn (Inl (n + 1))) else sreturn (Inr n)
     | None \<Rightarrow> sreturn (Inr n))) 0"

definition jskip_ws :: "unit jm" where
  "jskip_ws = sbind (jskip is_json_ws) (\<lambda>_. sreturn ())"

definition consume_digits :: "nat jm" where
  "consume_digits = jskip is_ascii_digit"

definition jis_done :: "bool jm" where
  "jis_done = sget (\<lambda>s. length (jp_chars s) \<le> jp_current s)"

primrec jliteral :: "ustring \<Rightarrow> unit jm" where
  "jliteral [] = sreturn ()"
| "jliteral (c # cs) = sbind (jconsume c) (\<lambda>_. jliteral cs)"

section \<open>Strings\<close>

primrec code_unit_digits :: "nat \<Rightarrow> nat \<Rightarrow> nat jm" where
  "code_unit_digits 0 v = sreturn v"
| "code_unit_digits (Suc n) v = sbind jadvance (\<lambda>c. case c of
       None \<Rightarrow> jfail (lit ''unterminated unicode escape'')
     | Some x \<Rightarrow> (case to_digit16 x of
         None \<Rightarrow> jfail (lit ''invalid unicode escape'')
       | Some d \<Rightarrow> code_unit_digits n (v * 16 + d)))"

definition unicode_code_unit :: "nat jm" where
  "unicode_code_unit = code_unit_digits 4 0"

text \<open>\<open>char::from_u32\<close>\<close>

definition char_from_u32 :: "nat \<Rightarrow> uchar option" where
  "char_from_u32 n = (if n < 0xD800 \<or> 0xDFFF < n \<and> n < 0x110000 then Some n else None)"

definition from_scalar :: "nat \<Rightarrow> uchar jm" where
  "from_scalar n = (case char_from_u32 n of Some c \<Rightarrow> sreturn c | None \<Rightarrow> jfail (lit ''invalid unicode scalar''))"

definition surrogate_error :: "'a jm" where
  "surrogate_error = jfail (lit ''high surrogate must be followed by a low surrogate'')"

text \<open>The second \<open>advance\<close> is only evaluated when the first one found the backslash.\<close>

definition unicode_escape :: "uchar jm" where
  "unicode_escape = sbind unicode_code_unit (\<lambda>high.
     if 0xD800 \<le> high \<and> high \<le> 0xDBFF then
       sbind jadvance (\<lambda>a.
       if a \<noteq> Some 92 then surrogate_error
       else sbind jadvance (\<lambda>b.
       if b \<noteq> Some (ch CHR ''u'') then surrogate_error
       else sbind unicode_code_unit (\<lambda>low.
       if \<not> (0xDC00 \<le> low \<and> low \<le> 0xDFFF) then surrogate_error
       else from_scalar (0x10000 + (high - 0xD800) * 1024 + (low - 0xDC00)))))
     else if 0xDC00 \<le> high \<and> high \<le> 0xDFFF then jfail (lit ''unexpected low surrogate'')
     else from_scalar high)"

definition simple_escape :: "uchar \<Rightarrow> uchar option" where
  "simple_escape c =
     (if c = 34 then Some 34 else if c = 92 then Some 92 else if c = ch CHR ''/'' then Some (ch CHR ''/'')
      else if c = ch CHR ''b'' then Some 8 else if c = ch CHR ''f'' then Some 12
      else if c = ch CHR ''n'' then Some 10 else if c = ch CHR ''r'' then Some 13
      else if c = ch CHR ''t'' then Some 9 else None)"

definition string_escape :: "uchar jm" where
  "string_escape = sbind jadvance (\<lambda>e. case e of
       None \<Rightarrow> jfail (lit ''unterminated json escape'')
     | Some escaped \<Rightarrow> (case simple_escape escaped of
           Some c \<Rightarrow> sreturn c
         | None \<Rightarrow> if escaped = ch CHR ''u'' then unicode_escape else jfail (lit ''invalid json escape'')))"

definition string_step :: "ustring \<Rightarrow> (ustring + ustring) jm" where
  "string_step out = sbind jadvance (\<lambda>c. case c of
       None \<Rightarrow> jfail (lit ''unterminated json string'')
     | Some x \<Rightarrow>
         if x = 34 then sreturn (Inr out)
         else if x = 92 then sbind string_escape (\<lambda>y. sreturn (Inl (out @ [y])))
         else if x < 0x20 then jfail (lit ''control character in json string'')
         else sreturn (Inl (out @ [x])))"

definition jstring :: "ustring jm" where
  "jstring = sbind (jconsume 34) (\<lambda>_. sloop jrest string_step [])"

section \<open>Numbers\<close>

definition consume_integer_digits :: "unit jm" where
  "consume_integer_digits = sbind (jmatches (ch CHR ''0'')) (\<lambda>zero.
     if zero then
       sbind jpeek (\<lambda>c. case c of
           Some d \<Rightarrow> if is_ascii_digit d then jfail (lit ''leading zero in json number'') else sreturn ()
         | None \<Rightarrow> sreturn ())
     else sbind consume_digits (\<lambda>n. if n = 0 then jfail (lit ''expected digit in json number'') else sreturn ()))"

definition json_fraction :: "bool jm" where
  "json_fraction = sbind (jmatches (ch CHR ''.'')) (\<lambda>dot.
     if dot then sbind consume_digits (\<lambda>n.
       if n = 0 then jfail (lit ''expected digit after decimal point'') else sreturn True)
     else sreturn False)"

definition json_exponent :: "bool jm" where
  "json_exponent = sbind jpeek (\<lambda>c.
     if c = Some (ch CHR ''e'') \<or> c = Some (ch CHR ''E'') then
       sbind jadvance (\<lambda>_.
       sbind (jmatches (ch CHR ''+'')) (\<lambda>plus.
       sbind (if plus then sreturn True else jmatches (ch CHR ''-'')) (\<lambda>_.
       sbind consume_digits (\<lambda>n.
       if n = 0 then jfail (lit ''expected digit in exponent'') else sreturn True))))
     else sreturn False)"

definition json_number_value :: "bool \<Rightarrow> ustring \<Rightarrow> 'env value_t jm" where
  "json_number_value is_float text =
     (if is_float then
        (case str_parse_f64 text of
           None \<Rightarrow> jfail (lit ''invalid json number'')
         | Some x \<Rightarrow> if f64_is_finite x then sreturn (V_Float x) else jfail (lit ''json number must be finite''))
      else
        (case str_parse_i64 text of
           None \<Rightarrow> jfail (lit ''invalid json number: integer is outside int64 range'')
         | Some i \<Rightarrow> sreturn (V_Int i)))"

definition json_number :: "'env value_t jm" where
  "json_number = sbind (sget jp_current) (\<lambda>start.
     sbind (jmatches (ch CHR ''-'')) (\<lambda>_.
     sbind consume_integer_digits (\<lambda>_.
     sbind json_fraction (\<lambda>frac.
     sbind json_exponent (\<lambda>expo.
     sbind (sget (\<lambda>s. slice_range (jp_chars s) start (jp_current s) :: (unit, ustring) result)) (\<lambda>text.
     case text of
       Inl _ \<Rightarrow> spanic
     | Inr t \<Rightarrow> json_number_value (frac \<or> expo) t))))))"

section \<open>Values\<close>

text \<open>\<open>HashMap::insert\<close>: a later entry replaces the value of an earlier one.\<close>

fun hm_insert :: "ustring \<Rightarrow> 'v \<Rightarrow> (ustring \<times> 'v) list \<Rightarrow> (ustring \<times> 'v) list" where
  "hm_insert k v [] = [(k, v)]"
| "hm_insert k v ((k', v') # fs) = (if k' = k then (k, v) # fs else (k', v') # hm_insert k v fs)"

definition array_step ::
    "(nat \<Rightarrow> 'env value_t jm) \<Rightarrow> nat \<Rightarrow> 'env value_t list \<Rightarrow> ('env value_t list + 'env value_t) jm" where
  "array_step val depth values =
     sbind (val depth) (\<lambda>v.
     sbind jskip_ws (\<lambda>_.
     sbind (jmatches (ch CHR '']'')) (\<lambda>close.
     if close then sreturn (Inr (V_Array (values @ [v])))
     else sbind (jconsume (ch CHR '','')) (\<lambda>_. sreturn (Inl (values @ [v]))))))"

definition json_array :: "(nat \<Rightarrow> 'env value_t jm) \<Rightarrow> nat \<Rightarrow> 'env value_t jm" where
  "json_array val depth =
     sbind (jconsume (ch CHR ''['')) (\<lambda>_.
     sbind jskip_ws (\<lambda>_.
     sbind (jmatches (ch CHR '']'')) (\<lambda>empty.
     if empty then sreturn (V_Array [])
     else sloop jrest (array_step val depth) [])))"

definition object_step ::
    "(nat \<Rightarrow> 'env value_t jm) \<Rightarrow> nat \<Rightarrow> (ustring \<times> 'env value_t) list \<Rightarrow>
     ((ustring \<times> 'env value_t) list + 'env value_t) jm" where
  "object_step val depth fs =
     sbind jskip_ws (\<lambda>_.
     sbind jstring (\<lambda>key.
     sbind jskip_ws (\<lambda>_.
     sbind (jconsume (ch CHR '':'')) (\<lambda>_.
     sbind (val depth) (\<lambda>v.
     sbind jskip_ws (\<lambda>_.
     sbind (jmatches (ch CHR ''}'')) (\<lambda>close.
     if close then sreturn (Inr (V_Object (hm_insert key v fs)))
     else sbind (jconsume (ch CHR '','')) (\<lambda>_. sreturn (Inl (hm_insert key v fs))))))))))"

definition json_object :: "(nat \<Rightarrow> 'env value_t jm) \<Rightarrow> nat \<Rightarrow> 'env value_t jm" where
  "json_object val depth =
     sbind (jconsume (ch CHR ''{'')) (\<lambda>_.
     sbind jskip_ws (\<lambda>_.
     sbind (jmatches (ch CHR ''}'')) (\<lambda>empty.
     if empty then sreturn (V_Object [])
     else sloop jrest (object_step val depth) [])))"

definition json_value_body :: "(nat \<Rightarrow> 'env value_t jm) \<Rightarrow> nat \<Rightarrow> 'env value_t jm" where
  "json_value_body val depth =
     (if MAX_JSON_DEPTH < depth then jfail (lit ''json nesting is too deep'')
      else sbind jskip_ws (\<lambda>_. sbind jpeek (\<lambda>c. case c of
          None \<Rightarrow> jfail (lit ''unexpected end of json'')
        | Some x \<Rightarrow>
            if x = 34 then sbind jstring (\<lambda>s. sreturn (V_String s))
            else if x = ch CHR ''n'' then sbind (jliteral (lit ''null'')) (\<lambda>_. sreturn V_Null)
            else if x = ch CHR ''t'' then sbind (jliteral (lit ''true'')) (\<lambda>_. sreturn (V_Bool True))
            else if x = ch CHR ''f'' then sbind (jliteral (lit ''false'')) (\<lambda>_. sreturn (V_Bool False))
            else if x = ch CHR ''['' then json_array val (depth + 1)
            else if x = ch CHR ''{'' then json_object val (depth + 1)
            else if x = ch CHR ''-'' \<or> is_ascii_digit x then json_number
            else jfail (lit ''expected json value''))))"

primrec json_value :: "nat \<Rightarrow> nat \<Rightarrow> 'env value_t jm" where
  "json_value 0 = (\<lambda>depth. sfuel)"
| "json_value (Suc n) = json_value_body (json_value n)"

definition JSON_FUEL :: nat where
  "JSON_FUEL = MAX_JSON_DEPTH + 2"

definition parse_json :: "ustring \<Rightarrow> span \<Rightarrow> (ku_error, 'env value_t) result" where
  "parse_json text sp =
     (if MAX_JSON_INPUT_BYTES < str_len text then rerr (runtime_error (lit ''json input is too large'') sp)
      else case sbind (json_value JSON_FUEL 0) (\<lambda>v.
             sbind jskip_ws (\<lambda>_.
             sbind jis_done (\<lambda>done.
             if \<not> done then jfail (lit ''unexpected trailing characters'') else sreturn v)))
             (JsonParser_new text sp) of
           Inl e \<Rightarrow> Inl e
         | Inr (v, _) \<Rightarrow> Inr v)"

section \<open>The writer\<close>

definition too_large :: "span \<Rightarrow> ku_error" where
  "too_large sp = runtime_error (lit ''json.stringify output is too large'') sp"

definition json_escape :: "uchar \<Rightarrow> ustring" where
  "json_escape c =
     (if c = 34 then [92, 34] else if c = 92 then [92, 92] else if c = 10 then [92, ch CHR ''n'']
      else if c = 13 then [92, ch CHR ''r''] else if c = 9 then [92, ch CHR ''t'']
      else if c < 0x20 then [92, ch CHR ''u''] @ hex4 c else [c])"

fun write_string_chars :: "ustring \<Rightarrow> ustring \<Rightarrow> span \<Rightarrow> ku_error + ustring" where
  "write_string_chars [] out sp = Inr out"
| "write_string_chars (c # cs) out sp =
     (let out' = out @ json_escape c in
      if MAX_JSON_OUTPUT_BYTES \<le> str_len out' then Inl (too_large sp) else write_string_chars cs out' sp)"

definition write_json_string :: "ustring \<Rightarrow> ustring \<Rightarrow> span \<Rightarrow> ku_error + ustring" where
  "write_json_string s out sp =
     (if MAX_JSON_OUTPUT_BYTES - str_len out < min usize_MAX (str_len s + 2) then Inl (too_large sp)
      else case write_string_chars s (out @ [34]) sp of
        Inl e \<Rightarrow> Inl e
      | Inr out' \<Rightarrow> Inr (out' @ [34]))"

definition write_json_float :: "f64 \<Rightarrow> ustring \<Rightarrow> span \<Rightarrow> ku_error + ustring" where
  "write_json_float x out sp =
     (if \<not> f64_is_finite x then Inl (runtime_error (lit ''json.stringify does not support non-finite float'') sp)
      else let text = f64_to_string x in
        Inr (out @ text @
          (if (\<exists>c \<in> set text. c = ch CHR ''.'' \<or> c = ch CHR ''e'' \<or> c = ch CHR ''E'') \<or> str_parse_i64 text \<noteq> None
           then [] else lit ''.0'')))"

text \<open>The loops over elements and fields write a separator in front of every element but the first.\<close>

fun write_elements :: "('v \<Rightarrow> ustring \<Rightarrow> ku_error + ustring) \<Rightarrow> bool \<Rightarrow> 'v list \<Rightarrow> ustring \<Rightarrow> ku_error + ustring" where
  "write_elements f first [] out = Inr out"
| "write_elements f first (v # vs) out =
     (case f v (if first then out else out @ lit '','') of
        Inl e \<Rightarrow> Inl e
      | Inr out' \<Rightarrow> write_elements f False vs out')"

lemma write_elements_eq:
  "(\<And>x z. x \<in> set ys \<Longrightarrow> f x z = g x z) \<Longrightarrow> write_elements f first ys out = write_elements g first ys out"
  by (induction ys arbitrary: first out) (auto split: sum.split)

lemma write_elements_cong [fundef_cong]:
  "xs = ys \<Longrightarrow> first = first' \<Longrightarrow> out = out' \<Longrightarrow> (\<And>x z. x \<in> set ys \<Longrightarrow> f x z = g x z) \<Longrightarrow>
   write_elements f first xs out = write_elements g first' ys out'"
  using write_elements_eq [of ys f g first' out'] by blast

definition check_output :: "span \<Rightarrow> ku_error + ustring \<Rightarrow> ku_error + ustring" where
  "check_output sp r = (case r of
       Inl e \<Rightarrow> Inl e
     | Inr out \<Rightarrow> if MAX_JSON_OUTPUT_BYTES < str_len out then Inl (too_large sp) else Inr out)"

definition close_with :: "ustring \<Rightarrow> ku_error + ustring \<Rightarrow> ku_error + ustring" where
  "close_with t r = map_sum id (\<lambda>out. out @ t) r"

text \<open>One field: the key, a colon and the value.\<close>

definition write_field ::
    "span \<Rightarrow> ('v \<Rightarrow> ustring \<Rightarrow> ku_error + ustring) \<Rightarrow> ustring \<times> 'v \<Rightarrow> ustring \<Rightarrow> ku_error + ustring" where
  "write_field sp f kv out = (case write_json_string (fst kv) out sp of
       Inl e \<Rightarrow> Inl e
     | Inr out' \<Rightarrow> f (snd kv) (out' @ lit '':''))"

lemma write_field_cong [fundef_cong]:
  "sp = sp' \<Longrightarrow> kv = kv' \<Longrightarrow> out = out' \<Longrightarrow> (\<And>z. f (snd kv') z = g (snd kv') z) \<Longrightarrow>
   write_field sp f kv out = write_field sp' g kv' out'"
  by (auto simp: write_field_def split: sum.splits)

definition write_fields ::
    "span \<Rightarrow> ('v \<Rightarrow> ustring \<Rightarrow> ku_error + ustring) \<Rightarrow> (ustring \<times> 'v) list \<Rightarrow> ustring \<Rightarrow> ku_error + ustring" where
  "write_fields sp f fs out =
     (if MAX_JSON_OUTPUT_BYTES div 4 < length fs then Inl (too_large sp)
      else close_with (lit ''}'') (write_elements (write_field sp f) True (sorted_fields fs) (out @ lit ''{'')))"

lemma write_fields_cong [fundef_cong]:
  assumes "sp = sp'" and "fs = fs'" and "out = out'"
    and "\<And>k v z. (k, v) \<in> set fs' \<Longrightarrow> f v z = g v z"
  shows "write_fields sp f fs out = write_fields sp' g fs' out'"
proof -
  have "write_elements (write_field sp f) True (sorted_fields fs) (out @ lit ''{'')
      = write_elements (write_field sp' g) True (sorted_fields fs') (out' @ lit ''{'')"
    using assms by (intro write_elements_cong write_field_cong) auto
  then show ?thesis using assms(1,2) by (simp add: write_fields_def)
qed

function write_json :: "owner \<Rightarrow> 'env value_t \<Rightarrow> ustring \<Rightarrow> nat \<Rightarrow> span \<Rightarrow> ku_error + ustring" where
  "write_json now v out depth sp =
     (if MAX_JSON_DEPTH < depth then Inl (runtime_error (lit ''json value nesting is too deep'') sp)
      else case v of
        V_Borrowed root path own \<Rightarrow> (case borrowed_read now root path own sp of
            Inl e \<Rightarrow> Inl e
          | Inr v' \<Rightarrow> write_json now v' out depth sp)
      | V_Null \<Rightarrow> check_output sp (Inr (out @ lit ''null''))
      | V_Bool b \<Rightarrow> check_output sp (Inr (out @ (if b then lit ''true'' else lit ''false'')))
      | V_Int i \<Rightarrow> check_output sp (Inr (out @ i64_to_string i))
      | V_Float x \<Rightarrow> check_output sp (write_json_float x out sp)
      | V_String s \<Rightarrow> check_output sp (write_json_string s out sp)
      | V_Array vs \<Rightarrow> check_output sp (close_with (lit '']'')
            (write_elements (\<lambda>x out. write_json now x out (depth + 1) sp) True vs (out @ lit ''['')))
      | V_Object fs \<Rightarrow> check_output sp (write_fields sp (\<lambda>x out. write_json now x out (depth + 1) sp) fs out)
      | V_Struct _ fs \<Rightarrow> check_output sp (write_fields sp (\<lambda>x out. write_json now x out (depth + 1) sp) fs out)
      | _ \<Rightarrow> Inl (runtime_error (lit ''json.stringify does not support '' @ type_name_of now v) sp))"
  by pat_completeness auto
termination
  by (relation "measure (\<lambda>(now, v, out, depth, sp). size v)")
    (auto dest: borrowed_read_size size_snd_less dest!: size_in_list)

declare write_json.simps [simp del]

definition stringify_value :: "owner \<Rightarrow> 'env value_t \<Rightarrow> span \<Rightarrow> ku_error + ustring" where
  "stringify_value now v sp = check_output sp (write_json now v [] 0 sp)"

section \<open>The module\<close>

definition error_value :: "ustring \<Rightarrow> ku_error \<Rightarrow> 'env value_t" where
  "error_value code e = errors_err
     (case ke_domain e of Some d \<Rightarrow> d | None \<Rightarrow> lit ''json'')
     (case ke_code e of Some c \<Rightarrow> c | None \<Rightarrow> code) (ke_message e)"

definition parse_result :: "ustring \<Rightarrow> span \<Rightarrow> (ku_error, 'env value_t) result" where
  "parse_result text sp = (case parse_json text sp of
       Inr v \<Rightarrow> Inr (errors_ok v)
     | Inl (Raise e) \<Rightarrow> Inr (error_value (lit ''parse_error'') e)
     | Inl f \<Rightarrow> Inl f)"

definition json_eval :: "owner \<Rightarrow> ustring \<Rightarrow> 'env args \<Rightarrow> span \<Rightarrow> 'env builtin_result" where
  "json_eval now function args sp =
     (if function \<in> {lit ''parse'', lit ''try_parse'', lit ''decode''} then
        rbind (expect_arg_count (lit ''json.'' @ function) (length args) 1 sp) (\<lambda>_.
        rbind (string_arg now args 0 sp) (\<lambda>text.
        rbind (parse_result text sp) (\<lambda>v. Inr (Some v))))
      else if function \<in> {lit ''stringify'', lit ''encode''} then
        rbind (expect_arg_count (lit ''json.'' @ function) (length args) 1 sp) (\<lambda>_.
        rbind (arg args 0) (\<lambda>v. Inr (Some (case stringify_value now v sp of
            Inr text \<Rightarrow> errors_ok (V_String text)
          | Inl e \<Rightarrow> error_value (lit ''stringify_error'') e))))
      else Inr None)"

end
