(* ===== verification/Json_Total.thy ===== *)
theory Json_Total
  imports Json
begin

text \<open>
  Totality of the JSON parser: on every text it returns a value or a runtime error that points
  into the text, without panic and within the depth bound, and a returned value is plain data.
  \<open>jsound m R\<close> says of a parser \<open>m\<close> that from every position in the text it returns, moves the
  cursor \<open>n\<close> characters ahead inside the text and yields a result with \<open>R x n\<close>.
\<close>

section \<open>The cursor\<close>

definition jwf :: "json_parser \<Rightarrow> bool" where
  "jwf s \<longleftrightarrow> jp_current s \<le> length (jp_chars s)"

definition jahead :: "nat \<Rightarrow> json_parser \<Rightarrow> json_parser" where
  "jahead n s = s\<lparr>jp_current := jp_current s + n\<rparr>"

definition jext :: "json_parser \<Rightarrow> json_parser \<Rightarrow> bool" where
  "jext s s' \<longleftrightarrow> (\<exists>n. s' = jahead n s \<and> (jwf s \<longrightarrow> jwf s'))"

lemma jahead_simps [simp]:
  "jp_chars (jahead n s) = jp_chars s" "jp_span (jahead n s) = jp_span s"
  "jp_current (jahead n s) = jp_current s + n" "jahead m (jahead n s) = jahead (n + m) s" "jahead 0 s = s"
  by (simp_all add: jahead_def add.assoc)

lemma jrest_jahead [simp]: "jrest (jahead n s) = jrest s - n"
  by (simp add: jrest_def)

interpretation json_cursor: cursor jwf jrest jext
proof
  show "jext s s" for s by (auto simp: jext_def intro: exI [of _ 0])
  show "jext a c" if "jext a b" "jext b c" for a b c
    using that by (auto simp: jext_def)
  show "jwf b" if "jext a b" "jwf a" for a b using that by (auto simp: jext_def)
  show "jrest b \<le> jrest a" if "jext a b" for a b using that by (auto simp: jext_def)
qed

definition runtime_kind :: "ku_error \<Rightarrow> bool" where
  "runtime_kind e \<longleftrightarrow> ke_kind e = KE_Runtime"

definition jsound :: "'a jm \<Rightarrow> ('a \<Rightarrow> nat \<Rightarrow> bool) \<Rightarrow> bool" where
  "jsound m R \<longleftrightarrow> (\<forall>s. jwf s \<longrightarrow> wp runtime_kind m (\<lambda>x s'. \<exists>n. s' = jahead n s \<and> jwf s' \<and> R x n) s)"

named_theorems js_intro

lemma jsoundD: "jsound m R \<Longrightarrow> jwf s \<Longrightarrow> wp runtime_kind m (\<lambda>x s'. \<exists>n. s' = jahead n s \<and> jwf s' \<and> R x n) s"
  by (simp add: jsound_def)

lemma js_mono: "jsound m R \<Longrightarrow> (\<And>x n. R x n \<Longrightarrow> R' x n) \<Longrightarrow> jsound m R'"
  unfolding jsound_def by (blast intro: wp_mono)

lemma js_return [js_intro]: "R x 0 \<Longrightarrow> jsound (sreturn x) R"
  by (auto simp: jsound_def wp_return intro: exI [of _ 0])

lemma js_fail [js_intro]: "jsound (jfail m) R"
  by (auto simp: jsound_def jfail_def wp_def jwf_def runtime_kind_def json_error_def Let_def)

lemma js_bind:
  assumes "jsound m R" and "\<And>x n. R x n \<Longrightarrow> jsound (f x) (\<lambda>y k. Q y (n + k))"
  shows "jsound (sbind m f) Q"
  unfolding jsound_def wp_bind
proof (intro allI impI)
  fix s assume "jwf s"
  show "wp runtime_kind m (\<lambda>x. wp runtime_kind (f x) (\<lambda>y s'. \<exists>n. s' = jahead n s \<and> jwf s' \<and> Q y n)) s"
  proof (rule wp_mono [OF jsoundD [OF assms(1) \<open>jwf s\<close>]], elim exE conjE)
    fix x s' n assume s': "s' = jahead n s" "jwf s'" "R x n"
    show "wp runtime_kind (f x) (\<lambda>y s'. \<exists>n. s' = jahead n s \<and> jwf s' \<and> Q y n) s'"
      by (rule wp_mono [OF jsoundD [OF assms(2) [OF s'(3)] s'(2)]]) (use s'(1) in auto)
  qed
qed

lemma js_if [js_intro]: "(b \<Longrightarrow> jsound m R) \<Longrightarrow> (\<not> b \<Longrightarrow> jsound m' R) \<Longrightarrow> jsound (if b then m else m') R"
  by simp

lemma js_option [js_intro]:
  "(x = None \<Longrightarrow> jsound m R) \<Longrightarrow> (\<And>y. x = Some y \<Longrightarrow> jsound (f y) R) \<Longrightarrow>
   jsound (case x of None \<Rightarrow> m | Some y \<Rightarrow> f y) R"
  by (cases x) auto

lemma js_peek: "jsound jpeek (\<lambda>c n. n = 0)"
  by (auto simp: jsound_def jpeek_def wp_get intro: exI [of _ 0])

lemma js_advance: "jsound jadvance (\<lambda>c n. c \<noteq> None \<longrightarrow> 0 < n)"
  by (auto simp: jsound_def jadvance_def jpeek_def wp_bind wp_get wp_modify wp_return jwf_def jahead_def
      intro: exI [of _ 0] exI [of _ 1])

lemma js_matches: "jsound (jmatches c) (\<lambda>b n. b \<longrightarrow> 0 < n)"
  by (auto simp: jsound_def jmatches_def jadvance_def jpeek_def wp_bind wp_get wp_modify wp_return jwf_def jahead_def
      intro: exI [of _ 0] exI [of _ 1])

lemma js_consume: "jsound (jconsume c) (\<lambda>_ n. 0 < n)"
  unfolding jconsume_def by (rule js_bind [OF js_matches]) (auto intro!: js_intro)

lemma js_loop:
  assumes "I b" and "\<And>b. I b \<Longrightarrow> jsound (body b) (\<lambda>r n. case r of Inl b' \<Rightarrow> I b' \<and> 0 < n | Inr a \<Rightarrow> Q a)"
  shows "jsound (sloop jrest body b) (\<lambda>a n. Q a)"
  unfolding jsound_def
proof (intro allI impI)
  fix s assume "jwf s"
  have "wp runtime_kind (sloop jrest body b) (\<lambda>a s'. jext s s' \<and> Q a) s"
  proof (rule json_cursor.sloop_wp [where I = "\<lambda>b s'. I b \<and> jext s s'"])
    show "jwf s" by fact
    show "I b \<and> jext s s" using assms(1) by (simp add: json_cursor.ext_refl)
    fix b1 s1 assume s1: "jwf s1" "I b1 \<and> jext s s1"
    show "wp runtime_kind (body b1) (\<lambda>r s'. case r of
        Inl b' \<Rightarrow> jext s1 s' \<and> jrest s' < jrest s1 \<and> I b' \<and> jext s s' | Inr a \<Rightarrow> jext s s' \<and> Q a) s1"
    proof (rule wp_mono [OF jsoundD [OF assms(2) s1(1)]])
      fix r s' assume "\<exists>n. s' = jahead n s1 \<and> jwf s' \<and> (case r of Inl b' \<Rightarrow> I b' \<and> 0 < n | Inr a \<Rightarrow> Q a)"
      then obtain n where n: "s' = jahead n s1" "jwf s'" "case r of Inl b' \<Rightarrow> I b' \<and> 0 < n | Inr a \<Rightarrow> Q a" by blast
      then have "jext s1 s'" by (auto simp: jext_def)
      moreover have "0 < n \<Longrightarrow> jrest s' < jrest s1" using n s1(1) by (auto simp: jrest_def jwf_def)
      ultimately show "case r of Inl b' \<Rightarrow> jext s1 s' \<and> jrest s' < jrest s1 \<and> I b' \<and> jext s s' | Inr a \<Rightarrow> jext s s' \<and> Q a"
        using n(3) s1(2) by (auto split: sum.splits intro: json_cursor.ext_trans)
    qed (use s1 in simp)
  qed
  then show "wp runtime_kind (sloop jrest body b) (\<lambda>x s'. \<exists>n. s' = jahead n s \<and> jwf s' \<and> Q x) s"
    by (rule wp_mono) (use \<open>jwf s\<close> in \<open>auto simp: jext_def\<close>)
qed

text \<open>Advancing past a character that was just peeked.\<close>

lemma js_peek_advance:
  assumes "\<And>x. P x \<Longrightarrow> jsound m (\<lambda>y k. Q y (Suc k))" and "\<And>c. jsound (f c) Q"
  shows "jsound (sbind jpeek (\<lambda>c. case c of Some x \<Rightarrow> if P x then sbind jadvance (\<lambda>_. m) else f c | None \<Rightarrow> f c)) Q"
  unfolding jsound_def
proof (intro allI impI)
  fix s assume s: "jwf s"
  have next_s: "jwf (jahead 1 s)" if "jp_current s < length (jp_chars s)"
    using that by (simp add: jwf_def)
  have jump: "s\<lparr>jp_current := Suc (jp_current s)\<rparr> = jahead 1 s" by (simp add: jahead_def)
  have "wp runtime_kind m (\<lambda>x s'. \<exists>n. s' = jahead n s \<and> jwf s' \<and> Q x n) (jahead 1 s)"
    if "P x" "jp_current s < length (jp_chars s)" for x
    by (rule wp_mono [OF jsoundD [OF assms(1) [OF that(1)] next_s [OF that(2)]]]) auto
  then show "wp runtime_kind
      (sbind jpeek (\<lambda>c. case c of None \<Rightarrow> f c | Some x \<Rightarrow> if P x then sbind jadvance (\<lambda>_. m) else f c))
      (\<lambda>x s'. \<exists>n. s' = jahead n s \<and> jwf s' \<and> Q x n) s"
    using jsoundD [OF assms(2) s]
    by (simp add: jpeek_def jadvance_def wp_bind wp_get wp_modify wp_return jump)
qed

lemma js_skip [js_intro]: "jsound (jskip P) (\<lambda>_ n. True)"
  unfolding jskip_def
proof (rule js_loop [where I = "\<lambda>_. True"])
  fix b :: nat
  have "jsound (sbind jpeek (\<lambda>c. case c of Some x \<Rightarrow> if P x then sbind jadvance (\<lambda>_. sreturn (Inl (b + 1))) else sreturn (Inr b)
      | None \<Rightarrow> sreturn (Inr b))) (\<lambda>r n. case r of Inl b' \<Rightarrow> True \<and> 0 < n | Inr a \<Rightarrow> True)"
    by (rule js_peek_advance) (auto intro: js_intro)
  then show "jsound (sbind jpeek (\<lambda>c. case c of None \<Rightarrow> sreturn (Inr b)
      | Some x \<Rightarrow> if P x then sbind jadvance (\<lambda>_. sreturn (Inl (b + 1))) else sreturn (Inr b)))
      (\<lambda>r n. case r of Inl b' \<Rightarrow> True \<and> 0 < n | Inr a \<Rightarrow> True)" .
qed simp

lemma js_any: "jsound m R \<Longrightarrow> jsound m (\<lambda>_ _. True)"
  by (rule js_mono) auto

lemma js_skip_ws [js_intro]: "jsound jskip_ws (\<lambda>_ n. True)"
  unfolding jskip_ws_def by (rule js_bind [OF js_skip]) (rule js_intro, simp)

lemma js_consume_digits [js_intro]: "jsound consume_digits (\<lambda>_ n. True)"
  by (simp add: consume_digits_def js_intro)

lemma js_literal [js_intro]: "jsound (jliteral cs) (\<lambda>_ n. True)"
  by (induction cs) (auto intro: js_intro intro!: js_bind [OF js_consume])

section \<open>Strings and numbers\<close>

lemma js_code_unit_digits [js_intro]: "jsound (code_unit_digits k v) (\<lambda>_ n. True)"
  by (induction k arbitrary: v) (auto intro!: js_intro js_bind [OF js_advance])

lemma js_from_scalar [js_intro]: "jsound (from_scalar v) (\<lambda>_ n. True)"
  unfolding from_scalar_def by (intro js_intro) simp

lemma js_unicode_escape [js_intro]: "jsound unicode_escape (\<lambda>_ n. True)"
  unfolding unicode_escape_def unicode_code_unit_def surrogate_error_def
  by (intro js_bind [OF js_code_unit_digits] js_bind [OF js_advance] js_intro)

lemma js_string_escape [js_intro]: "jsound string_escape (\<lambda>_ n. True)"
  unfolding string_escape_def
  by (rule js_bind [OF js_advance]) (auto intro!: js_intro split: option.split)

lemma js_string [js_intro]: "jsound jstring (\<lambda>_ n. True)"
  unfolding jstring_def
proof (intro js_bind [OF js_consume] js_loop [where I = "\<lambda>_. True"])
  fix b show "jsound (string_step b) (\<lambda>r n. case r of Inl b' \<Rightarrow> True \<and> 0 < n | Inr a \<Rightarrow> True)"
    unfolding string_step_def
    by (rule js_bind [OF js_advance]) (auto intro!: js_intro js_bind [OF js_string_escape])
qed simp

lemma js_integer_digits: "jsound consume_integer_digits (\<lambda>_ n. True)"
  unfolding consume_integer_digits_def
  by (rule js_bind [OF js_matches]) (auto intro!: js_intro js_bind [OF js_peek] js_bind [OF js_consume_digits])

lemma js_fraction: "jsound json_fraction (\<lambda>_ n. True)"
  unfolding json_fraction_def
  by (rule js_bind [OF js_matches]) (auto intro!: js_intro js_bind [OF js_consume_digits])

lemma js_sign: "jsound (if found then sreturn True else jmatches c) (\<lambda>_ n. True)"
  by (auto intro: js_intro js_any [OF js_matches])

lemma js_exponent: "jsound json_exponent (\<lambda>_ n. True)"
  unfolding json_exponent_def
  by (intro js_bind [OF js_peek] js_if js_bind [OF js_advance] js_bind [OF js_matches] js_bind [OF js_sign]
      js_bind [OF js_consume_digits] js_fail js_return TrueI)

section \<open>Plain data\<close>

text \<open>The values JSON can express.\<close>

definition json_node :: "'env value_t \<Rightarrow> bool" where
  "json_node v = (case v of
       V_Null \<Rightarrow> True | V_Bool _ \<Rightarrow> True | V_Int _ \<Rightarrow> True | V_Float x \<Rightarrow> f64_is_finite x
     | V_String _ \<Rightarrow> True | V_Array _ \<Rightarrow> True | V_Object fs \<Rightarrow> distinct (map fst fs) | _ \<Rightarrow> False)"

definition json_data :: "'env value_t \<Rightarrow> bool" where
  "json_data v \<longleftrightarrow> list_all json_node (preorder_values v)"

lemma json_data_children: "json_data v \<longleftrightarrow> json_node v \<and> list_all json_data (children v)"
proof -
  have "list_all json_node (concat (map preorder_values cs)) = list_all json_data cs" for cs :: "'a value_t list"
    by (induction cs) (simp_all add: json_data_def)
  then show ?thesis by (subst json_data_def, subst preorder_values.simps) simp
qed

text \<open>Data below a given depth: at most \<open>MAX_JSON_DEPTH\<close> levels of containers around a leaf.\<close>

definition json_ok :: "nat \<Rightarrow> 'env value_t \<Rightarrow> bool" where
  "json_ok depth v \<longleftrightarrow> json_data v \<and> depth + nesting v \<le> MAX_JSON_DEPTH + 1"

lemma nesting_le: "(\<And>c. c \<in> set (children v) \<Longrightarrow> nesting c \<le> n) \<Longrightarrow> nesting v \<le> Suc n"
  by (subst nesting.simps) auto

lemma nesting_leaf: "children v = [] \<Longrightarrow> nesting v = 1"
  by (subst nesting.simps) simp

lemma json_ok_leaf: "depth \<le> MAX_JSON_DEPTH \<Longrightarrow> json_node v \<Longrightarrow> children v = [] \<Longrightarrow> json_ok depth v"
  by (simp add: json_ok_def nesting_leaf json_data_children [of v])

lemma json_ok_node:
  assumes "depth \<le> MAX_JSON_DEPTH" and "json_node v" and "list_all (json_ok (Suc depth)) (children v)"
  shows "json_ok depth v"
proof (cases "children v")
  case Nil
  then show ?thesis using assms by (simp add: json_ok_leaf)
next
  case (Cons c cs)
  with assms(3) have "Suc depth + nesting c \<le> MAX_JSON_DEPTH + 1" by (simp add: json_ok_def)
  then have "nesting v \<le> Suc (MAX_JSON_DEPTH - depth)"
    using assms(3) by (intro nesting_le) (auto simp: list_all_iff json_ok_def)
  then show ?thesis using assms by (auto simp: json_ok_def json_data_children [of v] list_all_iff)
qed

lemma hm_insert_keys: "fst ` set (hm_insert k v fs) = insert k (fst ` set fs)"
  by (induction k v fs rule: hm_insert.induct) (simp_all add: insert_commute)

lemma hm_insert_distinct: "distinct (map fst fs) \<Longrightarrow> distinct (map fst (hm_insert k v fs))"
  by (induction k v fs rule: hm_insert.induct) (auto simp: hm_insert_keys)

lemma hm_insert_subset: "set (hm_insert k v fs) \<subseteq> insert (k, v) (set fs)"
  by (induction k v fs rule: hm_insert.induct) auto

lemma hm_insert_vals: "list_all P (map snd fs) \<Longrightarrow> P v \<Longrightarrow> list_all P (map snd (hm_insert k v fs))"
  using hm_insert_subset [of k v fs] by (force simp: list_all_iff)

definition leaf_ok :: "'env value_t \<Rightarrow> bool" where
  "leaf_ok v \<longleftrightarrow> json_node v \<and> children v = []"

lemma js_number_value [js_intro]: "jsound (json_number_value fl t) (\<lambda>v n. leaf_ok v)"
  unfolding json_number_value_def
  by (auto intro!: js_intro simp: leaf_ok_def json_node_def children_def owned_children_def)

lemma js_number [js_intro]: "jsound json_number (\<lambda>v n. leaf_ok v)"
  unfolding jsound_def
proof (intro allI impI)
  fix s assume s: "jwf s"
  let ?scan = "sbind (jmatches (ch CHR ''-'')) (\<lambda>_. sbind consume_integer_digits (\<lambda>_.
     sbind json_fraction (\<lambda>frac. sbind json_exponent (\<lambda>expo. sreturn (frac \<or> expo)))))"
  have scan: "jsound ?scan (\<lambda>_ n. True)"
    by (intro js_bind [OF js_matches] js_bind [OF js_integer_digits] js_bind [OF js_fraction]
        js_bind [OF js_exponent] js_return TrueI)
  have "wp runtime_kind (sbind ?scan (\<lambda>b. sbind (sget (\<lambda>s'. slice_range (jp_chars s') (jp_current s) (jp_current s') :: (unit, ustring) result))
      (\<lambda>text. case text of Inl _ \<Rightarrow> spanic | Inr t \<Rightarrow> json_number_value b t)))
      (\<lambda>v s'. \<exists>n. s' = jahead n s \<and> jwf s' \<and> leaf_ok v) s"
    unfolding wp_bind [of _ ?scan] wp_bind [of _ "sget _"] wp_get
  proof (rule wp_mono [OF jsoundD [OF scan s]], elim exE conjE)
    fix b s' n assume s': "s' = jahead n s" "jwf s'"
    then have slice: "slice_range (jp_chars s') (jp_current s) (jp_current s')
        = (Inr (take n (drop (jp_current s) (jp_chars s))) :: (unit, ustring) result)"
      by (simp add: slice_range_def jwf_def)
    show "wp runtime_kind (case slice_range (jp_chars s') (jp_current s) (jp_current s') :: (unit, ustring) result of
        Inl _ \<Rightarrow> spanic | Inr t \<Rightarrow> json_number_value b t) (\<lambda>v s'. \<exists>n. s' = jahead n s \<and> jwf s' \<and> leaf_ok v) s'"
      unfolding slice
      by (simp, rule wp_mono [OF jsoundD [OF js_number_value s'(2)]]) (use s'(1) in auto)
  qed
  then show "wp runtime_kind json_number (\<lambda>v s'. \<exists>n. s' = jahead n s \<and> jwf s' \<and> leaf_ok v) s"
    by (simp add: json_number_def wp_bind wp_get wp_return)
qed

section \<open>Values\<close>

definition json_fields_ok :: "nat \<Rightarrow> (ustring \<times> 'env value_t) list \<Rightarrow> bool" where
  "json_fields_ok depth fs \<longleftrightarrow> distinct (map fst fs) \<and> list_all (json_ok depth) (map snd fs)"

lemma json_fields_ok_insert: "json_fields_ok depth fs \<Longrightarrow> json_ok depth v \<Longrightarrow> json_fields_ok depth (hm_insert k v fs)"
  by (simp only: json_fields_ok_def hm_insert_distinct hm_insert_vals conj_ac simp_thms)

lemma json_ok_array: "depth \<le> MAX_JSON_DEPTH \<Longrightarrow> list_all (json_ok (Suc depth)) vs \<Longrightarrow> json_ok depth (V_Array vs)"
  by (rule json_ok_node) (simp_all add: json_node_def children_def owned_children_def)

lemma json_ok_object: "depth \<le> MAX_JSON_DEPTH \<Longrightarrow> json_fields_ok (Suc depth) fs \<Longrightarrow> json_ok depth (V_Object fs)"
  by (rule json_ok_node) (simp_all add: json_node_def children_def owned_children_def json_fields_ok_def)

lemma js_array:
  assumes "depth \<le> MAX_JSON_DEPTH" and "jsound (val (Suc depth)) (\<lambda>v n. json_ok (Suc depth) v)"
  shows "jsound (json_array val (Suc depth)) (\<lambda>v n. json_ok depth v)"
  unfolding json_array_def array_step_def
proof (intro js_bind [OF js_consume] js_bind [OF js_skip_ws] js_bind [OF js_matches] js_if
    js_loop [where I = "list_all (json_ok (Suc depth))"] js_bind [OF assms(2)])
  show "list_all (json_ok (Suc depth)) []" by simp
qed (use assms(1) in \<open>auto intro!: js_intro js_bind [OF js_consume] simp: json_ok_array\<close>)

lemma js_object:
  assumes "depth \<le> MAX_JSON_DEPTH" and "jsound (val (Suc depth)) (\<lambda>v n. json_ok (Suc depth) v)"
  shows "jsound (json_object val (Suc depth)) (\<lambda>v n. json_ok depth v)"
  unfolding json_object_def object_step_def
proof (intro js_bind [OF js_consume] js_bind [OF js_skip_ws] js_bind [OF js_matches] js_if
    js_loop [where I = "json_fields_ok (Suc depth)"] js_bind [OF js_string] js_bind [OF assms(2)])
  show empty: "json_fields_ok (Suc depth) []" by (simp add: json_fields_ok_def)
  show "jsound (sreturn (V_Object [])) (\<lambda>v k. json_ok depth v)"
    by (intro js_return json_ok_object assms(1) empty)
qed (use assms(1) in \<open>auto intro!: js_intro js_bind [OF js_consume] simp: json_ok_object json_fields_ok_insert\<close>)

lemma js_value_body:
  assumes "depth \<le> MAX_JSON_DEPTH \<Longrightarrow> jsound (val (Suc depth)) (\<lambda>v n. json_ok (Suc depth) v)"
  shows "jsound (json_value_body val depth) (\<lambda>v n. json_ok depth v)"
proof (cases "depth \<le> MAX_JSON_DEPTH")
  case True
  have leaf: "leaf_ok v \<Longrightarrow> json_ok depth v" for v :: "'a value_t"
    using True by (simp add: leaf_ok_def json_ok_leaf)
  have atom: "json_ok depth V_Null" "json_ok depth (V_Bool b)" "json_ok depth (V_String t)" for b t
    using True by (simp_all add: json_ok_leaf json_node_def children_def owned_children_def)
  show ?thesis
    unfolding json_value_body_def
    using True js_array [of depth val, OF True assms [OF True]] js_object [of depth val, OF True assms [OF True]]
    by (auto intro!: js_intro js_bind [OF js_skip_ws] js_bind [OF js_peek] js_bind [OF js_string] js_bind [OF js_literal]
        js_mono [OF js_number leaf] simp: atom)
qed (simp add: json_value_body_def js_fail)

lemma js_value: "0 < n \<Longrightarrow> depth + n = JSON_FUEL \<Longrightarrow> jsound (json_value n depth) (\<lambda>v n. json_ok depth v)"
proof (induction n arbitrary: depth)
  case (Suc n)
  then show ?case by (auto intro!: js_value_body simp: JSON_FUEL_def)
qed simp

text \<open>C21: The JSON parser returns on every text. It never panics and never recurses past its
  depth bound; it returns a runtime error, or a value that is plain data (finite numbers, distinct
  keys in every object) with at most \<open>MAX_JSON_DEPTH\<close> levels of nesting.\<close>

theorem parse_json_total:
  "case parse_json text sp of
     Inr v \<Rightarrow> json_data v \<and> nesting v \<le> MAX_JSON_DEPTH + 1
   | Inl (Raise e) \<Rightarrow> ke_kind e = KE_Runtime
   | Inl _ \<Rightarrow> False"
proof (cases "MAX_JSON_INPUT_BYTES < str_len text")
  case False
  let ?m = "sbind (json_value JSON_FUEL 0) (\<lambda>v. sbind jskip_ws (\<lambda>_. sbind jis_done (\<lambda>done.
             if \<not> done then jfail (lit ''unexpected trailing characters'') else sreturn v))) :: 'a value_t jm"
  have fin: "jsound jis_done (\<lambda>_ n. True)"
    by (auto simp: jsound_def jis_done_def wp_get intro: exI [of _ 0])
  have val: "jsound (json_value JSON_FUEL 0 :: 'a value_t jm) (\<lambda>v n. json_ok 0 v)"
    by (rule js_value) (simp_all add: JSON_FUEL_def)
  have "jsound ?m (\<lambda>v n. json_ok 0 v)"
    by (intro js_bind [OF val] js_bind [OF js_skip_ws] js_bind [OF fin] js_if js_fail js_return)
  moreover have "jwf (JsonParser_new text sp)" by (simp add: jwf_def JsonParser_new_def)
  ultimately have "wp runtime_kind ?m (\<lambda>v s'. json_ok 0 v) (JsonParser_new text sp)"
    by (rule wp_mono [OF jsoundD]) auto
  then show ?thesis using False
    by (auto simp: parse_json_def wp_def runtime_kind_def json_ok_def split: sum.splits fault.splits prod.splits)
qed (simp add: parse_json_def rerr_def)

end
