(* ===== verification/Json_Roundtrip.thy ===== *)
theory Json_Roundtrip
  imports Json_Total
begin

text \<open>
  The round trip of the JSON module: what \<open>stringify\<close> writes, \<open>parse\<close> reads back. \<open>json_text\<close> is
  the text of a value as one expression; the writer is proved to append exactly that text, and the
  parser to read it up to its last character. Object fields come back in sorted order, which
  \<open>Value\<close>'s equality does not observe.
\<close>

section \<open>Running the cursor on known text\<close>

definition remaining :: "json_parser \<Rightarrow> ustring" where
  "remaining s = drop (jp_current s) (jp_chars s)"

lemma remaining_jahead [simp]: "remaining (jahead n s) = drop n (remaining s)"
  by (simp add: remaining_def add.commute)

lemma jrest_remaining: "jrest s = length (remaining s)"
  by (simp add: jrest_def remaining_def)

lemma run_jpeek: "jpeek s = Inr (case remaining s of [] \<Rightarrow> None | c # _ \<Rightarrow> Some c, s)"
  by (simp add: jpeek_def sget_def remaining_def drop_eq_Cons_nth)

lemma run_jadvance: "remaining s = c # cs \<Longrightarrow> jadvance s = Inr (Some c, jahead 1 s)"
  by (simp add: jadvance_def sbind_def run_jpeek smodify_def sreturn_def jahead_def)

lemma run_jmatches:
  "remaining s = c # cs \<Longrightarrow> jmatches x s = (if c = x then Inr (True, jahead 1 s) else Inr (False, s))"
  by (simp add: jmatches_def sbind_def run_jpeek run_jadvance sreturn_def)

lemma run_jmatches_Nil: "remaining s = [] \<Longrightarrow> jmatches x s = Inr (False, s)"
  by (simp add: jmatches_def sbind_def run_jpeek sreturn_def)

lemma run_jconsume: "remaining s = c # cs \<Longrightarrow> jconsume c s = Inr ((), jahead 1 s)"
  by (simp add: jconsume_def sbind_def run_jmatches sreturn_def)

lemma run_jliteral: "remaining s = t @ ys \<Longrightarrow> jliteral t s = Inr ((), jahead (length t) s)"
  by (induction t arbitrary: s) (simp_all add: sreturn_def sbind_def run_jconsume)

definition stops :: "(uchar \<Rightarrow> bool) \<Rightarrow> ustring \<Rightarrow> bool" where
  "stops P ys \<longleftrightarrow> (case ys of [] \<Rightarrow> True | y # _ \<Rightarrow> \<not> P y)"

lemma sloop_fuel_step: "body b s = Inr (Inl b', s') \<Longrightarrow> sloop_fuel (Suc k) body b s = sloop_fuel k body b' s'"
  by (simp add: sbind_def)

lemma sloop_fuel_exit: "body b s = Inr (Inr a, s') \<Longrightarrow> sloop_fuel (Suc k) body b s = Inr (a, s')"
  by (simp add: sbind_def sreturn_def)

lemma sbind_assoc: "sbind (sbind m f) g = sbind m (\<lambda>x. sbind (f x) g)"
  by (auto simp: sbind_def fun_eq_iff split: sum.splits)

lemma sbind_run: "m s = Inr (x, s') \<Longrightarrow> sbind m f s = f x s'"
  by (simp add: sbind_def)

lemma run_jskip:
  assumes "remaining s = xs @ ys" and "list_all P xs" and "stops P ys"
  shows "jskip P s = Inr (length xs, jahead (length xs) s)"
proof -
  let ?body = "\<lambda>n. sbind jpeek (\<lambda>c. case c of
       Some x \<Rightarrow> if P x then sbind jadvance (\<lambda>_. sreturn (Inl (n + 1))) else sreturn (Inr n)
     | None \<Rightarrow> sreturn (Inr n))"
  have "sloop_fuel k ?body n s = Inr (n + length xs, jahead (length xs) s)"
    if "length xs < k" "remaining s = xs @ ys" "list_all P xs" for k n s xs
    using that
  proof (induction xs arbitrary: k n s)
    case Nil
    then obtain j where j: "k = Suc j" by (cases k) auto
    have "?body n s = Inr (Inr n, s)" using Nil \<open>stops P ys\<close>
      by (auto simp: sbind_def run_jpeek sreturn_def stops_def split: list.splits)
    then show ?case unfolding j by (simp add: sloop_fuel_exit del: sloop_fuel.simps)
  next
    case (Cons x xs)
    then obtain j where j: "k = Suc j" by (cases k) auto
    have "?body n s = Inr (Inl (n + 1), jahead 1 s)" using Cons.prems
      by (simp add: sbind_def run_jpeek run_jadvance sreturn_def)
    moreover have "sloop_fuel j ?body (n + 1) (jahead 1 s) = Inr (n + 1 + length xs, jahead (length xs) (jahead 1 s))"
      using Cons.prems j by (intro Cons.IH) auto
    ultimately show ?case unfolding j by (simp add: sloop_fuel_step del: sloop_fuel.simps)
  qed
  from this [of xs "Suc (jrest s)" s 0] assms
  have "sloop_fuel (Suc (jrest s)) ?body 0 s = Inr (0 + length xs, jahead (length xs) s)"
    by (simp add: jrest_remaining del: sloop_fuel.simps)
  then show ?thesis by (simp only: jskip_def sloop_def add_0)
qed

lemma run_jskip_ws: "stops is_json_ws (remaining s) \<Longrightarrow> jskip_ws s = Inr ((), s)"
  using run_jskip [of s "[]" "remaining s" is_json_ws] by (simp add: jskip_ws_def sbind_def sreturn_def)

lemma run_consume_digits:
  "remaining s = xs @ ys \<Longrightarrow> list_all is_ascii_digit xs \<Longrightarrow> stops is_ascii_digit ys \<Longrightarrow>
   consume_digits s = Inr (length xs, jahead (length xs) s)"
  by (simp add: consume_digits_def run_jskip)

section \<open>Strings\<close>

definition string_body :: "ustring \<Rightarrow> ustring" where
  "string_body str = concat (map json_escape str)"

lemma code_unit_step:
  "remaining s = x # ys \<Longrightarrow> to_digit16 x = Some d \<Longrightarrow>
   code_unit_digits (Suc n) v s = code_unit_digits n (v * 16 + d) (jahead 1 s)"
  by (simp add: sbind_def run_jadvance)

lemma length_hex4 [simp]: "length (hex4 c) = 4"
  by (simp add: hex4_def)

lemma run_code_unit:
  assumes "c < 32" and "remaining s = hex4 c @ ys"
  shows "unicode_code_unit s = Inr (c, jahead 4 s)"
proof -
  have "remaining s = hex_digit 0 # hex_digit 0 # hex_digit (c div 16) # hex_digit (c mod 16) # ys"
    using assms by (simp add: hex4_def)
  moreover have "to_digit16 (hex_digit 0) = Some 0" "to_digit16 (hex_digit (c div 16)) = Some (c div 16)"
    "to_digit16 (hex_digit (c mod 16)) = Some (c mod 16)"
    using assms(1) by (simp_all add: to_digit16_hex_digit)
  moreover have unfold4: "unicode_code_unit = code_unit_digits (Suc (Suc (Suc (Suc 0)))) 0"
    by (simp only: unicode_code_unit_def numeral_eq_Suc pred_numeral_simps arith_simps num.case BitM.simps)
  ultimately show ?thesis
    unfolding unfold4 by (simp add: code_unit_step del: code_unit_digits.simps(2)) (simp add: sreturn_def)
qed

lemma run_string_step:
  assumes "remaining s = json_escape c @ ys"
  shows "string_step out s = Inr (Inl (out @ [c]), jahead (length (json_escape c)) s)"
proof -
  consider (quote) "c = 34" | (slash) "c = 92" | (nl) "c = 10" | (cr) "c = 13" | (tab) "c = 9"
    | (control) "c \<notin> {34, 92, 10, 13, 9}" "c < 32" | (plain) "c \<notin> {34, 92}" "32 \<le> c"
    by force
  then show ?thesis
  proof cases
    case control
    let ?t = "jahead 1 (jahead 1 s)"
    have rem: "remaining s = 92 # ch CHR ''u'' # hex4 c @ ys" using control assms by (simp add: json_escape_def)
    then have "unicode_code_unit ?t = Inr (c, jahead 4 ?t)"
      by (intro run_code_unit [OF control(2), of _ ys]) simp
    then show ?thesis using control rem
      by (simp add: string_step_def string_escape_def unicode_escape_def from_scalar_def char_from_u32_def
          sbind_def run_jadvance sreturn_def simple_escape_def ch_def json_escape_def)
  qed (use assms in \<open>simp_all add: string_step_def string_escape_def sbind_def run_jadvance sreturn_def
      simple_escape_def ch_def json_escape_def numeral_2_eq_2\<close>)
qed

lemma run_string_loop:
  "length str < k \<Longrightarrow> remaining s = string_body str @ 34 # ys \<Longrightarrow>
   sloop_fuel k string_step out s = Inr (out @ str, jahead (Suc (length (string_body str))) s)"
proof (induction str arbitrary: k out s)
  case Nil
  then obtain j where "k = Suc j" by (cases k) auto
  then show ?case using Nil by (simp add: string_body_def string_step_def sbind_def run_jadvance sreturn_def)
next
  case (Cons c str)
  then obtain j where j: "k = Suc j" by (cases k) auto
  have "remaining s = json_escape c @ (string_body str @ 34 # ys)" using Cons.prems by (simp add: string_body_def)
  then have step: "string_step out s = Inr (Inl (out @ [c]), jahead (length (json_escape c)) s)"
    by (rule run_string_step)
  have "sloop_fuel j string_step (out @ [c]) (jahead (length (json_escape c)) s)
      = Inr ((out @ [c]) @ str, jahead (Suc (length (string_body str))) (jahead (length (json_escape c)) s))"
    using Cons.prems j by (intro Cons.IH) (auto simp: string_body_def)
  then show ?case using step j by (simp add: sbind_def string_body_def)
qed

definition json_quote :: "ustring \<Rightarrow> ustring" where
  "json_quote str = 34 # string_body str @ [34]"

lemma string_body_length: "length str \<le> length (string_body str)"
  by (induction str) (auto simp: string_body_def json_escape_def)

lemma run_jstring:
  assumes "remaining s = json_quote str @ ys"
  shows "jstring s = Inr (str, jahead (length (json_quote str)) s)"
  using assms string_body_length [of str]
    run_string_loop [of str "Suc (jrest (jahead 1 s))" "jahead 1 s" ys "[]"]
  by (simp add: jstring_def sbind_def run_jconsume sloop_def json_quote_def jrest_remaining del: sloop_fuel.simps)

section \<open>Numbers\<close>

text \<open>What may follow a value: the end, a separator or a closing bracket.\<close>

definition follows :: "ustring \<Rightarrow> bool" where
  "follows ys \<longleftrightarrow> (case ys of [] \<Rightarrow> True | y # _ \<Rightarrow> y \<in> {ch CHR '','', ch CHR '']'', ch CHR ''}''})"

lemma follows_stops: "follows ys \<Longrightarrow> stops is_ascii_digit ys" "follows ys \<Longrightarrow> stops is_json_ws ys"
  by (auto simp: follows_def stops_def is_ascii_digit_iff is_json_ws_def ch_def split: list.splits)

lemma run_integer_digits:
  assumes "remaining s = nat_to_string n @ ys" and "stops is_ascii_digit ys"
  shows "consume_integer_digits s = Inr ((), jahead (length (nat_to_string n)) s)"
proof (cases "n = 0")
  case True
  then show ?thesis using assms
    by (auto simp: nat_to_string_zero consume_integer_digits_def sbind_def run_jmatches run_jpeek sreturn_def
        stops_def split: list.splits)
next
  case False
  obtain c cs where c: "nat_to_string n = c # cs" "is_ascii_digit c" "list_all is_ascii_digit cs"
    by (rule nat_to_string_Cons)
  with False have "c \<noteq> ch CHR ''0''" using nat_to_string_hd [of n] by simp
  moreover have "consume_digits s = Inr (length (c # cs), jahead (length (c # cs)) s)"
    using assms c by (intro run_consume_digits [of s "c # cs" ys]) simp_all
  ultimately show ?thesis using assms c
    by (simp add: consume_integer_digits_def sbind_def run_jmatches sreturn_def)
qed

lemma run_no_fraction: "follows (remaining s) \<Longrightarrow> json_fraction s = Inr (False, s)"
  by (cases "remaining s")
    (auto simp: follows_def json_fraction_def sbind_def run_jmatches run_jmatches_Nil sreturn_def)

lemma run_no_exponent: "follows (remaining s) \<Longrightarrow> json_exponent s = Inr (False, s)"
  by (cases "remaining s") (auto simp: follows_def json_exponent_def sbind_def run_jpeek sreturn_def)

lemma int_to_string_cases:
  obtains (pos) n where "int_to_string i = nat_to_string n"
  | (neg) n where "int_to_string i = ch CHR ''-'' # nat_to_string n"
  by (cases "i < 0") (auto simp: int_to_string_def)

lemma int_to_string_neq_Nil: "int_to_string i \<noteq> []"
  by (simp add: int_to_string_def)

lemma run_number_scan:
  assumes "remaining s = int_to_string i @ ys" and "follows ys"
  shows "sbind (jmatches (ch CHR ''-'')) (\<lambda>_. consume_integer_digits) s = Inr ((), jahead (length (int_to_string i)) s)"
proof (cases i rule: int_to_string_cases)
  case (pos n)
  obtain c cs where c: "nat_to_string n = c # cs" "is_ascii_digit c" by (rule nat_to_string_Cons)
  then have "c \<noteq> ch CHR ''-''" by (auto simp: is_ascii_digit_iff ch_def)
  then show ?thesis using assms pos c follows_stops(1) [OF assms(2)] run_integer_digits [of s n ys]
    by (simp add: sbind_def run_jmatches)
next
  case (neg n)
  then show ?thesis using assms follows_stops(1) [OF assms(2)] run_integer_digits [of "jahead 1 s" n ys]
    by (simp add: sbind_def run_jmatches)
qed

lemma run_number:
  assumes "remaining s = i64_to_string w @ ys" and "follows ys"
  shows "json_number s = Inr (V_Int w, jahead (length (i64_to_string w)) s)"
proof -
  let ?t = "jahead (length (i64_to_string w)) s"
  have scan: "sbind (jmatches (ch CHR ''-'')) (\<lambda>_. consume_integer_digits) s = Inr ((), ?t)"
    using assms by (simp add: i64_to_string_def run_number_scan)
  have "jp_current s + length (i64_to_string w) \<le> length (jp_chars s)"
    using arg_cong [OF assms(1), of length] int_to_string_neq_Nil [of "sint w"]
    by (simp add: remaining_def i64_to_string_def flip: length_greater_0_conv)
  moreover have "take (length (i64_to_string w)) (drop (jp_current s) (jp_chars s)) = i64_to_string w"
    using assms(1) by (simp add: remaining_def)
  ultimately have "slice_range (jp_chars s) (jp_current s) (jp_current ?t) = (Inr (i64_to_string w) :: (unit, ustring) result)"
    by (simp add: slice_range_def)
  moreover have "follows (remaining ?t)" using assms by simp
  moreover have "json_number s = sbind (sbind (jmatches (ch CHR ''-'')) (\<lambda>_. consume_integer_digits)) (\<lambda>_.
     sbind json_fraction (\<lambda>frac.
     sbind json_exponent (\<lambda>expo.
     sbind (sget (\<lambda>s'. slice_range (jp_chars s') (jp_current s) (jp_current s') :: (unit, ustring) result)) (\<lambda>text.
     case text of Inl _ \<Rightarrow> spanic | Inr t \<Rightarrow> json_number_value (frac \<or> expo) t)))) s"
    unfolding json_number_def sbind_assoc
    by (rule sbind_run) (simp add: sget_def)
  ultimately have "json_number s = json_number_value False (i64_to_string w) ?t"
    by (simp add: sbind_run [of "sbind (jmatches (ch CHR ''-'')) (\<lambda>_. consume_integer_digits)" s "()" ?t, OF scan]
        sbind_run [of json_fraction ?t False ?t, OF run_no_fraction]
        sbind_run [of json_exponent ?t False ?t, OF run_no_exponent] sbind_def [of "sget _"] sget_def
        del: jahead_simps(3))
  then show ?thesis by (simp add: json_number_value_def sreturn_def str_parse_i64_to_string)
qed

section \<open>The text of a value\<close>

text \<open>The values whose text determines them: plain data without floats, which a reader may take for integers.\<close>

definition exact_node :: "'env value_t \<Rightarrow> bool" where
  "exact_node v \<longleftrightarrow> json_node v \<and> (case v of V_Float _ \<Rightarrow> False | _ \<Rightarrow> True)"

definition json_exact :: "'env value_t \<Rightarrow> bool" where
  "json_exact v \<longleftrightarrow> list_all exact_node (preorder_values v)"

lemma json_exact_children: "json_exact v \<longleftrightarrow> exact_node v \<and> list_all json_exact (children v)"
proof -
  have "list_all exact_node (concat (map preorder_values cs)) = list_all json_exact cs" for cs :: "'a value_t list"
    by (induction cs) (simp_all add: json_exact_def)
  then show ?thesis by (subst json_exact_def, subst preorder_values.simps) simp
qed

function json_text :: "'env value_t \<Rightarrow> ustring" where
  "json_text v = (case v of
       V_Null \<Rightarrow> lit ''null''
     | V_Bool b \<Rightarrow> if b then lit ''true'' else lit ''false''
     | V_Int i \<Rightarrow> i64_to_string i
     | V_String s \<Rightarrow> json_quote s
     | V_Array vs \<Rightarrow> lit ''['' @ join_with (lit '','') (map (\<lambda>x. json_text x) vs) @ lit '']''
     | V_Object fs \<Rightarrow>
         lit ''{'' @ join_with (lit '','') (map (\<lambda>(k, x). json_quote k @ lit '':'' @ json_text x) (sorted_fields fs)) @ lit ''}''
     | _ \<Rightarrow> [])"
  by pat_completeness auto
termination
  by (relation "measure size") (auto dest: size_snd_less dest!: size_in_list)

text \<open>The value as it is read back: fields in sorted order.\<close>

function json_norm :: "'env value_t \<Rightarrow> 'env value_t" where
  "json_norm v = (case v of
       V_Array vs \<Rightarrow> V_Array (map (\<lambda>x. json_norm x) vs)
     | V_Object fs \<Rightarrow> V_Object (map (\<lambda>(k, x). (k, json_norm x)) (sorted_fields fs))
     | _ \<Rightarrow> v)"
  by pat_completeness auto
termination
  by (relation "measure size") (auto dest: size_snd_less dest!: size_in_list)

declare json_text.simps [simp del] json_norm.simps [simp del]

definition field_text :: "ustring \<times> 'env value_t \<Rightarrow> ustring" where
  "field_text kv = json_quote (fst kv) @ ch CHR '':'' # json_text (snd kv)"

definition field_norm :: "ustring \<times> 'env value_t \<Rightarrow> ustring \<times> 'env value_t" where
  "field_norm kv = (fst kv, json_norm (snd kv))"

lemma json_text_atoms:
  "json_text V_Null = lit ''null''" "json_text (V_Bool b) = (if b then lit ''true'' else lit ''false'')"
  "json_text (V_Int i) = i64_to_string i" "json_text (V_String t) = json_quote t"
  "json_text (V_Array vs) = ch CHR ''['' # join_with (lit '','') (map json_text vs) @ [ch CHR '']'']"
  by (subst json_text.simps, simp add: lit_def)+

lemma json_text_object:
  "json_text (V_Object fs) = ch CHR ''{'' # join_with (lit '','') (map field_text (sorted_fields fs)) @ [ch CHR ''}'']"
proof -
  have "(\<lambda>(k, x). json_quote k @ ch CHR '':'' # json_text x) = (field_text :: _ \<times> 'a value_t \<Rightarrow> _)"
    by (simp add: fun_eq_iff field_text_def)
  then show ?thesis by (subst json_text.simps) (simp add: lit_def)
qed

lemmas json_text_eqs = json_text_atoms json_text_object

lemma json_norm_eqs:
  "json_norm V_Null = V_Null" "json_norm (V_Bool b) = V_Bool b" "json_norm (V_Int i) = V_Int i"
  "json_norm (V_String t) = V_String t" "json_norm (V_Array vs) = V_Array (map json_norm vs)"
  "json_norm (V_Object fs) = V_Object (map field_norm (sorted_fields fs))"
  by (subst json_norm.simps, simp add: field_norm_def [abs_def] split_beta)+

lemma json_exact_cases:
  assumes "json_exact v"
  obtains "v = V_Null" | b where "v = V_Bool b" | i where "v = V_Int i" | t where "v = V_String t"
  | vs where "v = V_Array vs" "list_all json_exact vs"
  | fs where "v = V_Object fs" "distinct (map fst fs)" "list_all (\<lambda>(k, x). json_exact x) fs"
  using assms that unfolding json_exact_children [of v]
  by (cases v) (auto simp: exact_node_def json_node_def children_def owned_children_def list_all_iff split_beta)

lemma i64_to_string_start: "\<exists>c cs. i64_to_string i = c # cs \<and> (c = ch CHR ''-'' \<or> is_ascii_digit c)"
proof (cases "sint i" rule: int_to_string_cases)
  case (pos n)
  then show ?thesis using nat_to_string_Cons [of n] by (metis i64_to_string_def)
qed (simp add: i64_to_string_def)

lemma json_text_start:
  assumes "json_exact v"
  obtains c cs where "json_text v = c # cs" "\<not> is_json_ws c" "c \<noteq> ch CHR '']''" "c \<noteq> ch CHR ''}''"
proof -
  from assms have "\<exists>c cs. json_text v = c # cs \<and> \<not> is_json_ws c \<and> c \<noteq> ch CHR '']'' \<and> c \<noteq> ch CHR ''}''"
  proof (cases rule: json_exact_cases)
    case (3 i)
    then show ?thesis using i64_to_string_start [of i] by (auto simp: json_text_eqs is_json_ws_def is_ascii_digit_iff ch_def)
  qed (auto simp: json_text_eqs is_json_ws_def lit_def ch_def json_quote_def)
  with that show thesis by blast
qed

section \<open>Reading the text\<close>

definition reads :: "(nat \<Rightarrow> 'env value_t jm) \<Rightarrow> nat \<Rightarrow> 'env value_t \<Rightarrow> bool" where
  "reads val depth v \<longleftrightarrow> (\<forall>s ys. follows ys \<longrightarrow> remaining s = json_text v @ ys \<longrightarrow>
     val depth s = Inr (json_norm v, jahead (length (json_text v)) s))"

lemma readsD: "reads val depth v \<Longrightarrow> follows ys \<Longrightarrow> remaining s = json_text v @ ys \<Longrightarrow>
   val depth s = Inr (json_norm v, jahead (length (json_text v)) s)"
  by (simp add: reads_def)

lemma follows_sep: "follows (ch CHR '','' # ys)" "follows (ch CHR '']'' # ys)" "follows (ch CHR ''}'' # ys)"
  by (simp_all add: follows_def)

lemma join_with_Cons: "xs \<noteq> [] \<Longrightarrow> join_with sep (x # xs) = x @ sep @ join_with sep xs"
  by (cases xs) auto

lemma run_array_step:
  assumes "reads val depth v" and "remaining s = json_text v @ c # ys" and "c = ch CHR '','' \<or> c = ch CHR '']''"
  shows "array_step val depth acc s = Inr
    (if c = ch CHR '']'' then Inr (V_Array (acc @ [json_norm v])) else Inl (acc @ [json_norm v]),
     jahead (Suc (length (json_text v))) s)"
proof -
  let ?t = "jahead (length (json_text v)) s"
  have "val depth s = Inr (json_norm v, ?t)"
    using assms follows_sep by (intro readsD [of _ _ _ "c # ys"]) auto
  moreover have "remaining ?t = c # ys" using assms by simp
  moreover from this have "jskip_ws ?t = Inr ((), ?t)"
    using assms(3) by (intro run_jskip_ws) (auto simp: stops_def is_json_ws_def ch_def)
  ultimately show ?thesis using assms(3)
    by (auto simp: array_step_def sbind_def run_jmatches run_jconsume sreturn_def)
qed

lemma run_array_loop:
  "vs \<noteq> [] \<Longrightarrow> list_all (reads val depth) vs \<Longrightarrow> length vs \<le> k \<Longrightarrow>
   remaining s = join_with (lit '','') (map json_text vs) @ ch CHR '']'' # ys \<Longrightarrow>
   sloop_fuel k (array_step val depth) acc s =
     Inr (V_Array (acc @ map json_norm vs), jahead (Suc (length (join_with (lit '','') (map json_text vs)))) s)"
proof (induction vs arbitrary: acc s k)
  case (Cons v vs)
  then obtain j where j: "k = Suc j" by (cases k) auto
  show ?case
  proof (cases "vs = []")
    case True
    then have "array_step val depth acc s = Inr (Inr (V_Array (acc @ [json_norm v])), jahead (Suc (length (json_text v))) s)"
      using Cons.prems run_array_step [of val depth v s "ch CHR '']''" ys acc] by simp
    then show ?thesis using True j by (simp add: sloop_fuel_exit del: sloop_fuel.simps)
  next
    case False
    let ?s = "jahead (Suc (length (json_text v))) s"
    have rem: "remaining s = json_text v @ ch CHR '','' # (join_with (lit '','') (map json_text vs) @ ch CHR '']'' # ys)"
      using Cons.prems(4) False by (simp add: join_with_Cons lit_def)
    then have "array_step val depth acc s = Inr (Inl (acc @ [json_norm v]), ?s)"
      using Cons.prems run_array_step [of val depth v s "ch CHR '',''" _ acc] by simp
    moreover have "sloop_fuel j (array_step val depth) (acc @ [json_norm v]) ?s = Inr
        (V_Array ((acc @ [json_norm v]) @ map json_norm vs), jahead (Suc (length (join_with (lit '','') (map json_text vs)))) ?s)"
      using Cons.prems False j rem by (intro Cons.IH) auto
    ultimately show ?thesis using False j
      by (simp add: sloop_fuel_step join_with_Cons lit_def del: sloop_fuel.simps)
  qed
qed simp

lemma hm_insert_fresh: "k \<notin> fst ` set fs \<Longrightarrow> hm_insert k v fs = fs @ [(k, v)]"
  by (induction k v fs rule: hm_insert.induct) auto

lemma stops_colon: "stops is_json_ws (ch CHR '':'' # ys)" "stops is_json_ws (json_quote k @ ys)"
  by (simp_all add: stops_def is_json_ws_def ch_def json_quote_def)

lemma run_object_step:
  assumes "reads val depth (snd kv)" and "remaining s = field_text kv @ c # ys"
    and "c = ch CHR '','' \<or> c = ch CHR ''}''" and "fst kv \<notin> fst ` set acc"
  shows "object_step val depth acc s = Inr
    (if c = ch CHR ''}'' then Inr (V_Object (acc @ [field_norm kv])) else Inl (acc @ [field_norm kv]),
     jahead (Suc (length (field_text kv))) s)"
proof -
  let ?q = "json_quote (fst kv)" and ?x = "json_text (snd kv)"
  let ?t = "jahead (length ?q) s"
  let ?u = "jahead 1 ?t"
  let ?w = "jahead (length ?x) ?u"
  have rem: "remaining s = ?q @ ch CHR '':'' # ?x @ c # ys" using assms(2) by (simp add: field_text_def)
  have ws: "jskip_ws s = Inr ((), s)" by (rule run_jskip_ws) (simp only: rem stops_colon)
  have str: "jstring s = Inr (fst kv, ?t)" using rem by (rule run_jstring)
  have rt: "remaining ?t = ch CHR '':'' # ?x @ c # ys" using rem by simp
  have wt: "jskip_ws ?t = Inr ((), ?t)" by (rule run_jskip_ws) (simp only: rt stops_colon)
  have ct: "jconsume (ch CHR '':'') ?t = Inr ((), ?u)" using rt by (rule run_jconsume)
  have ru: "remaining ?u = ?x @ c # ys" using rem by simp
  have vu: "val depth ?u = Inr (json_norm (snd kv), ?w)"
    using assms(1) _ ru by (rule readsD) (use assms(3) follows_sep in auto)
  have rw: "remaining ?w = c # ys" using rem by simp
  have "jskip_ws ?w = Inr ((), ?w)"
    using assms(3) rw by (intro run_jskip_ws) (auto simp: stops_def is_json_ws_def ch_def)
  moreover have "length (field_text kv) = length ?q + Suc (length ?x)" by (simp add: field_text_def)
  ultimately show ?thesis
    unfolding object_step_def sbind_run [of jskip_ws s "()" s, OF ws] sbind_run [of jstring s "fst kv" ?t, OF str]
      sbind_run [of jskip_ws ?t "()" ?t, OF wt] sbind_run [of "jconsume (ch CHR '':'')" ?t "()" ?u, OF ct]
      sbind_run [of "val depth" ?u "json_norm (snd kv)" ?w, OF vu]
    using assms(3,4) rw by (auto simp: sbind_def run_jmatches run_jconsume sreturn_def hm_insert_fresh field_norm_def)
qed

lemma run_object_loop:
  "fs \<noteq> [] \<Longrightarrow> list_all (\<lambda>kv. reads val depth (snd kv)) fs \<Longrightarrow> length fs \<le> k \<Longrightarrow>
   distinct (map fst (acc @ fs)) \<Longrightarrow>
   remaining s = join_with (lit '','') (map field_text fs) @ ch CHR ''}'' # ys \<Longrightarrow>
   sloop_fuel k (object_step val depth) acc s =
     Inr (V_Object (acc @ map field_norm fs), jahead (Suc (length (join_with (lit '','') (map field_text fs)))) s)"
proof (induction fs arbitrary: acc s k)
  case (Cons kv fs)
  then obtain j where j: "k = Suc j" by (cases k) auto
  have fresh: "fst kv \<notin> fst ` set acc" using Cons.prems(4) by auto
  show ?case
  proof (cases "fs = []")
    case True
    then have "object_step val depth acc s = Inr (Inr (V_Object (acc @ [field_norm kv])), jahead (Suc (length (field_text kv))) s)"
      using Cons.prems fresh run_object_step [of val depth kv s "ch CHR ''}''" ys acc] by simp
    then show ?thesis using True j by (simp add: sloop_fuel_exit del: sloop_fuel.simps)
  next
    case False
    let ?s = "jahead (Suc (length (field_text kv))) s"
    have rem: "remaining s = field_text kv @ ch CHR '','' # (join_with (lit '','') (map field_text fs) @ ch CHR ''}'' # ys)"
      using Cons.prems(5) False by (simp add: join_with_Cons lit_def)
    then have "object_step val depth acc s = Inr (Inl (acc @ [field_norm kv]), ?s)"
      using Cons.prems fresh run_object_step [of val depth kv s "ch CHR '',''" _ acc] by simp
    moreover have "sloop_fuel j (object_step val depth) (acc @ [field_norm kv]) ?s = Inr
        (V_Object ((acc @ [field_norm kv]) @ map field_norm fs), jahead (Suc (length (join_with (lit '','') (map field_text fs)))) ?s)"
      using Cons.prems False j rem by (intro Cons.IH) (auto simp: field_norm_def)
    ultimately show ?thesis using False j
      by (simp add: sloop_fuel_step join_with_Cons lit_def del: sloop_fuel.simps)
  qed
qed simp

lemma join_with_start: "xs \<noteq> [] \<Longrightarrow> hd xs = c # cs \<Longrightarrow> \<exists>ds. join_with sep xs = c # ds"
  by (cases xs rule: list.exhaust; cases "tl xs") auto

lemma join_with_length: "sep \<noteq> [] \<Longrightarrow> length xs \<le> Suc (length (join_with sep xs))"
  by (induction sep xs rule: join_with.induct) (auto simp: Suc_le_eq neq_Nil_conv)

lemma run_json_array:
  assumes "list_all json_exact vs" and "list_all (reads val depth) vs"
    and "remaining s = json_text (V_Array vs) @ ys"
  shows "json_array val depth s = Inr (json_norm (V_Array vs), jahead (length (json_text (V_Array vs))) s)"
proof (cases "vs = []")
  case True
  then have "remaining s = ch CHR ''['' # ch CHR '']'' # ys" using assms(3) by (simp add: json_text_eqs lit_def)
  moreover from this have "jskip_ws (jahead (Suc 0) s) = Inr ((), jahead (Suc 0) s)"
    by (intro run_jskip_ws) (simp add: stops_def is_json_ws_def ch_def)
  ultimately show ?thesis using True
    by (simp add: json_array_def sbind_def run_jconsume run_jmatches sreturn_def json_norm_eqs json_text_eqs lit_def
        numeral_2_eq_2)
next
  case False
  let ?j = "join_with (lit '','') (map json_text vs)"
  let ?t = "jahead 1 s"
  have "json_exact (hd vs)" using assms(1) False by (cases vs) auto
  then obtain c cs where c: "json_text (hd vs) = c # cs" "\<not> is_json_ws c" "c \<noteq> ch CHR '']''"
    by (rule json_text_start)
  then obtain ds where ds: "?j = c # ds" using False join_with_start [of "map json_text vs" c cs "lit '',''"]
    by (auto simp: hd_map)
  have rem: "remaining s = ch CHR ''['' # ?j @ ch CHR '']'' # ys" using assms(3) by (simp add: json_text_eqs lit_def)
  then have rt: "remaining ?t = ?j @ ch CHR '']'' # ys" by simp
  have "length vs \<le> Suc (jrest ?t)"
    using join_with_length [of "lit '',''" "map json_text vs"] unfolding jrest_remaining rt by (simp add: lit_def)
  then have loop: "sloop_fuel (Suc (jrest ?t)) (array_step val depth) [] ?t
      = Inr (V_Array ([] @ map json_norm vs), jahead (Suc (length ?j)) ?t)"
    using False assms(2) rt by (intro run_array_loop) auto
  have "jskip_ws ?t = Inr ((), ?t)" using rt c ds by (intro run_jskip_ws) (simp add: stops_def)
  moreover have "jmatches (ch CHR '']'') ?t = Inr (False, ?t)" using rt c ds by (simp add: run_jmatches)
  ultimately have "json_array val depth s = sloop_fuel (Suc (jrest ?t)) (array_step val depth) [] ?t"
    using rem by (simp add: json_array_def sbind_def run_jconsume sloop_def del: sloop_fuel.simps)
  then show ?thesis using loop by (simp add: json_norm_eqs json_text_eqs lit_def)
qed

lemma run_json_object:
  assumes "distinct (map fst fs)" and "list_all (\<lambda>kv. reads val depth (snd kv)) fs"
    and "remaining s = json_text (V_Object fs) @ ys"
  shows "json_object val depth s = Inr (json_norm (V_Object fs), jahead (length (json_text (V_Object fs))) s)"
proof -
  let ?fs = "sorted_fields fs"
  let ?j = "join_with (lit '','') (map field_text ?fs)"
  let ?t = "jahead 1 s"
  have shape: "json_text (V_Object fs) = ch CHR ''{'' # ?j @ [ch CHR ''}'']"
    by (simp add: json_text_eqs)
  have norm: "json_norm (V_Object fs) = V_Object (map field_norm ?fs)"
    by (simp add: json_norm_eqs)
  have rem: "remaining s = ch CHR ''{'' # ?j @ ch CHR ''}'' # ys" using assms(3) shape by simp
  then have rt: "remaining ?t = ?j @ ch CHR ''}'' # ys" by simp
  have dist: "distinct (map fst ?fs)" using assms(1)
    by (simp add: sorted_fields_def distinct_map distinct_sort)
  show ?thesis
  proof (cases "?fs = []")
    case True
    then have "jskip_ws ?t = Inr ((), ?t)" using rt by (intro run_jskip_ws) (simp add: stops_def is_json_ws_def ch_def)
    then show ?thesis using True rem rt
      by (simp add: json_object_def sbind_def run_jconsume run_jmatches sreturn_def shape norm)
  next
    case False
    obtain kv gs where gs: "?fs = kv # gs" using False by (cases ?fs) auto
    have "hd (map field_text ?fs) = 34 # string_body (fst kv) @ 34 # ch CHR '':'' # json_text (snd kv)"
      by (simp add: gs field_text_def json_quote_def)
    from join_with_start [OF _ this] obtain ds where ds: "?j = 34 # ds" using False by auto
    have "length ?fs \<le> Suc (jrest ?t)"
      using join_with_length [of "lit '',''" "map field_text ?fs"] unfolding jrest_remaining rt by (simp add: lit_def)
    then have loop: "sloop_fuel (Suc (jrest ?t)) (object_step val depth) [] ?t
        = Inr (V_Object ([] @ map field_norm ?fs), jahead (Suc (length ?j)) ?t)"
      using False assms(2) rt dist by (intro run_object_loop) (auto simp: list_all_iff)
    have "jskip_ws ?t = Inr ((), ?t)" using rt ds by (intro run_jskip_ws) (simp add: stops_def is_json_ws_def)
    moreover have "jmatches (ch CHR ''}'') ?t = Inr (False, ?t)" using rt ds by (simp add: run_jmatches ch_def)
    ultimately have "json_object val depth s = sloop_fuel (Suc (jrest ?t)) (object_step val depth) [] ?t"
      using rem by (simp add: json_object_def sbind_def run_jconsume sloop_def del: sloop_fuel.simps)
    then show ?thesis using loop by (simp add: norm shape)
  qed
qed

lemma json_value_reads:
  "json_exact v \<Longrightarrow> 0 < n \<Longrightarrow> depth + n = JSON_FUEL \<Longrightarrow> depth + nesting v \<le> MAX_JSON_DEPTH + 1 \<Longrightarrow>
   reads (json_value n) depth v"
proof (induction n arbitrary: v depth)
  case (Suc n)
  have d: "depth \<le> MAX_JSON_DEPTH" using Suc.prems(4) nesting_pos [of v] by simp
  have child: "reads (json_value n) (Suc depth) c" if "c \<in> set (children v)" for c
    using that Suc.prems nesting_child [OF that] nesting_pos [of c]
    by (intro Suc.IH) (auto simp: json_exact_children [of v] list_all_iff JSON_FUEL_def)
  show ?case
    unfolding reads_def
  proof (intro allI impI)
    fix s ys assume ys: "follows ys" and rem: "remaining s = json_text v @ ys"
    obtain c cs where c: "json_text v = c # cs" "\<not> is_json_ws c"
      using Suc.prems(1) by (rule json_text_start)
    have ws: "jskip_ws s = Inr ((), s)" using rem c by (intro run_jskip_ws) (simp add: stops_def)
    have peek: "jpeek s = Inr (Some c, s)" using rem c by (simp add: run_jpeek)
    note body = json_value_body_def sbind_def ws peek sreturn_def
    from Suc.prems(1) show "json_value (Suc n) depth s = Inr (json_norm v, jahead (length (json_text v)) s)"
    proof (cases rule: json_exact_cases)
      case 1
      then show ?thesis using d c rem run_jliteral [of s "lit ''null''" ys]
        by (simp add: body json_text_eqs json_norm_eqs) (auto simp: lit_def ch_def sreturn_def)
    next
      case (2 b)
      then show ?thesis using d c rem run_jliteral [of s "if b then lit ''true'' else lit ''false''" ys]
        by (cases b) (simp_all add: body json_text_eqs json_norm_eqs, (auto simp: lit_def ch_def sreturn_def)[2])
    next
      case (3 i)
      then have i: "c = ch CHR ''-'' \<or> is_ascii_digit c" "remaining s = i64_to_string i @ ys"
        using c rem i64_to_string_start [of i] by (auto simp: json_text_eqs)
      then have "json_value (Suc n) depth s = (json_number s :: (ku_error, 'a value_t \<times> json_parser) result)"
        using d by (auto simp: body ch_def is_ascii_digit_iff)
      then show ?thesis using 3 by (simp add: json_text_eqs json_norm_eqs run_number [OF i(2) ys] del: json_value.simps)
    next
      case (4 t)
      then show ?thesis using d c rem run_jstring [of s t ys]
        by (simp add: body json_text_eqs json_norm_eqs) (auto simp: json_quote_def sreturn_def)
    next
      case (5 vs)
      then have "json_value (Suc n) depth s = json_array (json_value n :: nat \<Rightarrow> 'a value_t jm) (Suc depth) s"
        using d c by (simp add: body json_text_eqs) (auto simp: lit_def ch_def sreturn_def)
      moreover have "list_all (reads (json_value n) (Suc depth)) vs"
        using child 5 by (simp add: list_all_iff children_def owned_children_def)
      ultimately show ?thesis using 5 rem run_json_array [of vs "json_value n" "Suc depth" s ys] by simp
    next
      case (6 fs)
      then have "json_value (Suc n) depth s = json_object (json_value n :: nat \<Rightarrow> 'a value_t jm) (Suc depth) s"
        using d c by (simp add: body json_text_eqs) (auto simp: lit_def ch_def sreturn_def)
      moreover have "list_all (\<lambda>kv. reads (json_value n) (Suc depth) (snd kv)) fs"
        using child 6 by (simp add: list_all_iff children_def owned_children_def)
      ultimately show ?thesis using 6 rem run_json_object [of fs "json_value n" "Suc depth" s ys] by simp
    qed
  qed
qed simp

section \<open>Writing the text\<close>

lemma write_string_chars_text: "write_string_chars t out sp = Inr out' \<Longrightarrow> out' = out @ string_body t"
  by (induction t out sp rule: write_string_chars.induct) (auto simp: Let_def string_body_def split: if_splits)

lemma write_json_string_text: "write_json_string t out sp = Inr out' \<Longrightarrow> out' = out @ json_quote t"
  by (auto simp: write_json_string_def json_quote_def split: if_splits sum.splits dest!: write_string_chars_text)

lemma write_elements_text:
  assumes "\<And>x a b. x \<in> set xs \<Longrightarrow> f x a = Inr b \<Longrightarrow> b = a @ t x"
    and "write_elements f first xs out = Inr out'"
  shows "out' = out @ (if first \<or> xs = [] then [] else lit '','') @ join_with (lit '','') (map t xs)"
  using assms
proof (induction xs arbitrary: first out)
  case (Cons x xs)
  from Cons.prems(2) obtain b where b: "f x (if first then out else out @ lit '','') = Inr b"
    and rest: "write_elements f False xs b = Inr out'"
    by (auto split: sum.splits)
  have "b = (if first then out else out @ lit '','') @ t x" using Cons.prems(1) b by simp
  moreover have "out' = b @ (if xs = [] then [] else lit '','') @ join_with (lit '','') (map t xs)"
    using Cons.IH [OF _ rest] Cons.prems(1) by simp
  ultimately show ?case by (cases xs) auto
qed simp

lemma write_elements_each:
  "write_elements f first xs out = Inr out' \<Longrightarrow> x \<in> set xs \<Longrightarrow> \<exists>a b. f x a = Inr b"
  by (induction f first xs out rule: write_elements.induct) (fastforce split: sum.splits)+

lemma write_field_Inr: "write_field sp f kv a = Inr b \<Longrightarrow> \<exists>z. f (snd kv) z = Inr b"
  by (cases "write_json_string (fst kv) a sp") (auto simp: write_field_def)

lemma check_output_Inr: "check_output sp r = Inr out \<longleftrightarrow> r = Inr out \<and> str_len out \<le> MAX_JSON_OUTPUT_BYTES"
  by (auto simp: check_output_def split: sum.splits)

lemma close_with_Inr: "close_with t r = Inr out \<longleftrightarrow> (\<exists>b. r = Inr b \<and> out = b @ t)"
  by (cases r) (auto simp: close_with_def)

lemma write_json_text:
  "json_exact v \<Longrightarrow> write_json now v out depth sp = Inr out' \<Longrightarrow>
   out' = out @ json_text v \<and> depth + nesting v \<le> MAX_JSON_DEPTH + 1"
proof (induction v arbitrary: out depth out' rule: measure_induct_rule [where f = size])
  case (less v)
  have d: "depth \<le> MAX_JSON_DEPTH" using less.prems(2) by (subst (asm) write_json.simps) (auto split: if_splits)
  have child: "b = a @ json_text c \<and> Suc depth + nesting c \<le> MAX_JSON_DEPTH + 1"
    if "c \<in> set (children v)" "write_json now c a (Suc depth) sp = Inr b" for c a b
    using less.IH [OF children_size [OF that(1)] _ that(2)] less.prems(1) that(1)
    by (auto simp: json_exact_children [of v] list_all_iff)
  have deep: "depth + nesting v \<le> MAX_JSON_DEPTH + 1"
    if "\<And>c. c \<in> set (children v) \<Longrightarrow> \<exists>a b. write_json now c a (Suc depth) sp = Inr b"
    using d nesting_le [of v "MAX_JSON_DEPTH - depth"] child that by fastforce
  have leaf: "children v = [] \<Longrightarrow> depth + nesting v \<le> MAX_JSON_DEPTH + 1"
    using d by (simp add: nesting_leaf)
  note w = less.prems(2) [unfolded write_json.simps [of now v]]
  note eqs = json_text_eqs check_output_Inr close_with_Inr
  from less.prems(1) show ?case
  proof (cases rule: json_exact_cases)
    case (5 vs)
    let ?f = "\<lambda>x out. write_json now x out (Suc depth) sp"
    from w d 5 obtain b where b: "write_elements ?f True vs (out @ lit ''['') = Inr b" "out' = b @ lit '']''"
      by (auto simp: eqs)
    have ch: "children v = vs" using 5 by (simp add: children_def owned_children_def)
    have "b = (out @ lit ''['') @ (if True \<or> vs = [] then [] else lit '','') @ join_with (lit '','') (map json_text vs)"
      by (rule write_elements_text [OF _ b(1)]) (use child ch in blast)
    moreover have "depth + nesting v \<le> MAX_JSON_DEPTH + 1"
      using write_elements_each [OF b(1)] ch by (intro deep) auto
    ultimately show ?thesis using b(2) 5 by (simp add: json_text_eqs lit_def)
  next
    case (6 fs)
    let ?f = "\<lambda>x out. write_json now x out (Suc depth) sp"
    from w d 6 obtain b
      where b: "write_elements (write_field sp ?f) True (sorted_fields fs) (out @ lit ''{'') = Inr b" "out' = b @ lit ''}''"
      by (auto simp: eqs write_fields_def split: if_splits)
    have ch: "children v = map snd fs" using 6 by (simp add: children_def owned_children_def)
    have fld: "c = a @ field_text kv" if "kv \<in> set (sorted_fields fs)" "write_field sp ?f kv a = Inr c" for kv a c
      using that child [of "snd kv" "a @ json_quote (fst kv) @ lit '':''" c] ch
      by (auto simp: write_field_def field_text_def lit_def split: sum.splits dest!: write_json_string_text)
    have "b = (out @ lit ''{'') @ (if True \<or> sorted_fields fs = [] then [] else lit '','')
        @ join_with (lit '','') (map field_text (sorted_fields fs))"
      by (rule write_elements_text [OF fld b(1)])
    moreover have "depth + nesting v \<le> MAX_JSON_DEPTH + 1"
    proof (rule deep)
      fix c assume "c \<in> set (children v)"
      then obtain kv where kv: "kv \<in> set (sorted_fields fs)" "c = snd kv" using ch by auto
      from write_elements_each [OF b(1) kv(1)] show "\<exists>a b. write_json now c a (Suc depth) sp = Inr b"
        using kv(2) by (blast dest: write_field_Inr)
    qed
    ultimately show ?thesis using b(2) 6 by (simp add: json_text_eqs lit_def)
  next
    case (4 t)
    then show ?thesis using w d leaf
      by (auto simp: eqs children_def owned_children_def dest!: write_json_string_text)
  qed (use w d leaf in \<open>auto simp: eqs children_def owned_children_def split: if_splits\<close>)
qed

section \<open>The value read back is equal\<close>

lemma field_norm_fst: "map fst (map field_norm fs) = map fst fs"
  by (simp add: field_norm_def)

lemma json_norm_equal: "json_exact v \<Longrightarrow> value_eq now v (json_norm v)"
proof (induction v rule: measure_induct_rule [where f = size])
  case (less v)
  from less.prems show ?case
  proof (cases rule: json_exact_cases)
    case (5 vs)
    then have "x \<in> set vs \<Longrightarrow> value_eq now x (json_norm x)" for x
      using less.IH [of x] by (auto simp: list_all_iff size_in_list)
    then show ?thesis using 5
      by (subst value_eq.simps) (auto simp: json_norm_eqs list_all_iff zip_map2 zip_same)
  next
    case (6 fs)
    let ?gs = "map field_norm (sorted_fields fs)"
    have dist: "distinct (map fst ?gs)" using 6(2)
      by (simp only: field_norm_fst) (simp add: sorted_fields_def distinct_map distinct_sort)
    have "map_of ?gs k = Some (json_norm x) \<and> value_eq now x (json_norm x)" if "(k, x) \<in> set fs" for k x
    proof
      have "(k, json_norm x) \<in> set ?gs" using that by (force simp: field_norm_def)
      then show "map_of ?gs k = Some (json_norm x)" using dist by (rule map_of_is_SomeI [rotated])
      show "value_eq now x (json_norm x)" using less.IH [of x] that 6 size_snd_less [OF that]
        by (auto simp: list_all_iff)
    qed
    then show ?thesis using 6
      by (subst value_eq.simps) (auto simp: json_norm_eqs list_all_iff sorted_fields_def)
  qed (subst value_eq.simps, simp add: json_norm_eqs)+
qed

text \<open>C20: What \<open>json.stringify\<close> writes, \<open>json.parse\<close> reads back. For every value made of null,
  booleans, integers, strings, arrays and objects, if writing it succeeds then the text is accepted
  by the parser, whatever the depth and the size, and the result is equal to the original value (its
  object fields are those of the original in sorted order).\<close>

theorem json_roundtrip:
  assumes "json_exact v" and "stringify_value now v sp = Inr t"
  shows "parse_json t sp' = Inr (json_norm v) \<and> value_eq now v (json_norm v)"
proof -
  from assms(2) have w: "write_json now v [] 0 sp = Inr t" and small: "str_len t \<le> MAX_JSON_INPUT_BYTES"
    by (auto simp: stringify_value_def check_output_Inr MAX_JSON_OUTPUT_BYTES_def MAX_JSON_INPUT_BYTES_def)
  from write_json_text [OF assms(1) w] have t: "t = json_text v" and n: "0 + nesting v \<le> MAX_JSON_DEPTH + 1" by simp_all
  let ?s = "JsonParser_new t sp'"
  have "reads (json_value JSON_FUEL) 0 v"
    by (rule json_value_reads [OF assms(1) _ _ n]) (simp_all add: JSON_FUEL_def)
  then have val: "json_value JSON_FUEL 0 ?s = Inr (json_norm v, jahead (length t) ?s)"
    using t by (auto simp: reads_def remaining_def JsonParser_new_def follows_def split: list.splits)
  have ws: "jskip_ws (jahead (length t) ?s) = Inr ((), jahead (length t) ?s)"
    by (rule run_jskip_ws) (simp add: stops_def remaining_def JsonParser_new_def)
  have "parse_json t sp' = Inr (json_norm v)"
    using small val ws
    by (simp add: parse_json_def sbind_def jis_done_def sget_def sreturn_def) (simp add: JsonParser_new_def)
  then show ?thesis using json_norm_equal [OF assms(1)] by simp
qed

theorem json_roundtrip_witness:
  "parse_json (lit ''[true,null]'') Span_default = Inr (V_Array [V_Bool True, V_Null] :: unit value_t)"
proof -
  let ?v = "V_Array [V_Bool True, V_Null] :: unit value_t"
  have exact: "json_exact ?v"
    by (simp add: json_exact_def preorder_values.simps children_def owned_children_def exact_node_def json_node_def)
  have "stringify_value \<lparr>ow_thread = 0, ow_task = 0\<rparr> ?v Span_default = Inr (lit ''[true,null]'')"
    by (simp add: stringify_value_def write_json.simps check_output_def close_with_def MAX_JSON_DEPTH_def
        MAX_JSON_OUTPUT_BYTES_def str_len_def len_utf8_def lit_def ch_def)
  from json_roundtrip [OF exact this, of Span_default] show ?thesis by (simp add: json_norm_eqs)
qed

end
