(* ===== verification/Diagnostics.thy ===== *)
theory Diagnostics
  imports Rust_Format Span_Error
begin

text \<open>
  The rendering of diagnostics (\<open>src/src/error.rs\<close>). An error message, a file name and a source line
  may hold arbitrary text; the renderer bounds their length and replaces every character that could
  control a terminal or reorder the text. Byte offsets at character boundaries are modelled as
  character positions.
\<close>

section \<open>Previews\<close>

definition MAX_DIAGNOSTIC_MARKER_INDENT :: nat where
  "MAX_DIAGNOSTIC_MARKER_INDENT = 256"

definition MAX_DIAGNOSTIC_MARKER_CARETS :: nat where
  "MAX_DIAGNOSTIC_MARKER_CARETS = 256"

definition MAX_DIAGNOSTIC_LINE_CHARS :: nat where
  "MAX_DIAGNOSTIC_LINE_CHARS = MAX_DIAGNOSTIC_MARKER_INDENT + MAX_DIAGNOSTIC_MARKER_CARETS"

definition MAX_DIAGNOSTIC_INLINE_CHARS :: nat where
  "MAX_DIAGNOSTIC_INLINE_CHARS = 1024"

definition DIAGNOSTIC_LINE_TRUNCATION :: ustring where
  "DIAGNOSTIC_LINE_TRUNCATION = 0x2026 # lit '' [line truncated]''"

definition DIAGNOSTIC_INLINE_TRUNCATION :: ustring where
  "DIAGNOSTIC_INLINE_TRUNCATION = 0x2026 # lit '' [text truncated]''"

definition diagnostic_marker :: "nat \<Rightarrow> nat \<Rightarrow> ustring" where
  "diagnostic_marker col caret_len =
     (let indent = col - 1; caret_len = max caret_len 1 in
      if MAX_DIAGNOSTIC_MARKER_INDENT < indent then
        lit ''... [marker omitted: column='' @ nat_to_string col @ lit '', width='' @ nat_to_string caret_len @ lit '']''
      else if MAX_DIAGNOSTIC_MARKER_CARETS < caret_len then
        replicate indent 32 @ replicate MAX_DIAGNOSTIC_MARKER_CARETS (ch CHR ''^'')
          @ lit ''... [span truncated: width='' @ nat_to_string caret_len @ lit '']''
      else replicate indent 32 @ replicate caret_len (ch CHR ''^''))"

text \<open>\<open>char::is_control\<close>: the C0 and C1 controls and delete.\<close>

definition is_control :: "uchar \<Rightarrow> bool" where
  "is_control c \<longleftrightarrow> c < 0x20 \<or> 0x7F \<le> c \<and> c \<le> 0x9F"

definition unsafe_diagnostic_char :: "uchar \<Rightarrow> bool" where
  "unsafe_diagnostic_char c \<longleftrightarrow> is_control c \<or> c = 0x061C \<or> c = 0x200E \<or> c = 0x200F
     \<or> 0x2028 \<le> c \<and> c \<le> 0x202E \<or> 0x2066 \<le> c \<and> c \<le> 0x2069"

definition replacement :: "uchar \<Rightarrow> uchar option" where
  "replacement c = (if c = 9 then Some 32 else if unsafe_diagnostic_char c then Some 0xFFFD else None)"

text \<open>
  The loop copies the text only from the first replaced character on (\<open>sanitized\<close>); \<open>stop\<close> is the
  end of the part seen so far.
\<close>

fun preview_loop :: "nat \<Rightarrow> ustring \<Rightarrow> nat \<Rightarrow> ustring \<Rightarrow> ustring option \<Rightarrow> nat \<Rightarrow> ustring option \<times> nat \<times> bool" where
  "preview_loop max_chars source i [] sanitized stop = (sanitized, stop, False)"
| "preview_loop max_chars source i (c # cs) sanitized stop =
     (if i = max_chars then (sanitized, stop, True)
      else
        let sanitized' = (case replacement c of
               Some r \<Rightarrow> Some ((case sanitized of Some out \<Rightarrow> out | None \<Rightarrow> take i source) @ [r])
             | None \<Rightarrow> (case sanitized of Some out \<Rightarrow> Some (out @ [c]) | None \<Rightarrow> None))
        in preview_loop max_chars source (i + 1) cs sanitized' (i + 1))"

definition sanitized_diagnostic_preview :: "ustring \<Rightarrow> nat \<Rightarrow> ustring \<times> bool" where
  "sanitized_diagnostic_preview source max_chars =
     (let limit = min max_chars MAX_DIAGNOSTIC_INLINE_CHARS;
          (sanitized, stop, truncated) = preview_loop limit source 0 source None 0
      in case sanitized of
           Some output \<Rightarrow> (output, truncated)
         | None \<Rightarrow> if truncated then (take stop source, True) else (source, False))"

definition diagnostic_line_preview :: "ustring \<Rightarrow> ustring \<times> ustring" where
  "diagnostic_line_preview l =
     (let (preview, truncated) = sanitized_diagnostic_preview l MAX_DIAGNOSTIC_LINE_CHARS
      in (preview, if truncated then DIAGNOSTIC_LINE_TRUNCATION else []))"

definition diagnostic_inline_preview :: "ustring \<Rightarrow> ustring \<times> ustring" where
  "diagnostic_inline_preview t =
     (let (preview, truncated) = sanitized_diagnostic_preview t MAX_DIAGNOSTIC_INLINE_CHARS
      in (preview, if truncated then DIAGNOSTIC_INLINE_TRUNCATION else []))"

section \<open>The diagnostic\<close>

definition diagnostic_location :: "ku_error \<Rightarrow> nat \<times> nat \<times> nat \<times> nat" where
  "diagnostic_location e =
     (let l = max (error_line e) 1;
          c = max (error_column e) 1;
          end_l = max (line (sp_end (ke_span e))) l;
          end_c = max (column (sp_end (ke_span e))) 1
      in if end_l = l then (l, c, end_l, max end_c (min usize_MAX (c + 1)))
         else if line (sp_end (ke_span e)) = 0 then (l, c, l, min usize_MAX (c + 1))
         else (l, c, end_l, end_c))"

text \<open>\<open>str::lines\<close>: split at line feeds, a carriage return before one is dropped, no empty last line.\<close>

definition strip_cr :: "ustring \<Rightarrow> ustring" where
  "strip_cr l = (if l \<noteq> [] \<and> last l = 13 then butlast l else l)"

fun split_lines :: "ustring \<Rightarrow> ustring \<Rightarrow> ustring list" where
  "split_lines acc [] = (if acc = [] then [] else [acc])"
| "split_lines acc (c # cs) = (if c = 10 then strip_cr acc # split_lines [] cs else split_lines (acc @ [c]) cs)"

definition str_lines :: "ustring \<Rightarrow> ustring list" where
  "str_lines s = split_lines [] s"

definition nth_line :: "ustring \<Rightarrow> nat \<Rightarrow> ustring" where
  "nth_line source n = (if n < length (str_lines source) then str_lines source ! n else [])"

definition pad_left :: "nat \<Rightarrow> ustring \<Rightarrow> ustring" where
  "pad_left w s = replicate (w - length s) 32 @ s"

text \<open>The file and the source an error carries with it win over those of the caller.\<close>

definition diagnostic_source :: "ku_error \<Rightarrow> ustring \<Rightarrow> ustring \<Rightarrow> ustring \<times> ustring" where
  "diagnostic_source e file source = (case ke_context e of
       Some c \<Rightarrow> (case ec_diagnostic c of Some d \<Rightarrow> (dc_file d, dc_source d) | None \<Rightarrow> (file, source))
     | None \<Rightarrow> (file, source))"

definition diagnostic :: "ku_error \<Rightarrow> ustring \<Rightarrow> ustring \<Rightarrow> (ku_error, ustring) result" where
  "diagnostic e file source =
     (let (file, source) = diagnostic_source e file source;
          (l, c, end_l, end_c) = diagnostic_location e
      in case diagnostic_info e of
        Inl f \<Rightarrow> Inl f
      | Inr info \<Rightarrow>
          let (line_text, line_suffix) = diagnostic_line_preview (nth_line source (l - 1));
              caret_len = (if end_l = l then max (end_c - c) 1 else 1);
              marker = diagnostic_marker c caret_len;
              (message, message_suffix) = diagnostic_inline_preview (ke_message e);
              (file, file_suffix) = diagnostic_inline_preview file
          in Inr (lit ''error['' @ dd_code info @ lit '']: error: '' @ message @ message_suffix @ [10]
               @ lit ''  --> '' @ file @ file_suffix @ lit '':'' @ nat_to_string l @ lit '':'' @ nat_to_string c @ [10]
               @ lit ''   |'' @ [10]
               @ pad_left 3 (nat_to_string l) @ lit '' | '' @ line_text @ line_suffix @ [10]
               @ lit ''   | '' @ marker
               @ concat (map (\<lambda>note. [10] @ lit ''   |'' @ [10] @ lit ''note: '' @ note) (dd_notes info))
               @ concat (map (\<lambda>help. [10] @ lit ''help: '' @ help) (dd_helps info))))"

record diagnostic_data_t =
  da_level :: ustring
  da_code :: ustring
  da_message :: ustring
  da_file :: ustring
  da_line :: nat
  da_column :: nat
  da_end_line :: nat
  da_end_column :: nat
  da_notes :: "ustring list"
  da_helps :: "ustring list"

definition diagnostic_data :: "ku_error \<Rightarrow> ustring \<Rightarrow> ustring \<Rightarrow> (ku_error, diagnostic_data_t) result" where
  "diagnostic_data e file source =
     (let (file, _) = diagnostic_source e file source;
          (l, c, end_l, end_c) = diagnostic_location e
      in case diagnostic_info e of
        Inl f \<Rightarrow> Inl f
      | Inr info \<Rightarrow> Inr \<lparr>da_level = lit ''error'', da_code = dd_code info, da_message = ke_message e, da_file = file,
            da_line = l, da_column = c, da_end_line = end_l, da_end_column = end_c,
            da_notes = dd_notes info, da_helps = dd_helps info\<rparr>)"

definition kind_name :: "ku_error_kind \<Rightarrow> ustring" where
  "kind_name k = (case k of KE_Lex \<Rightarrow> lit ''Lex'' | KE_Parse \<Rightarrow> lit ''Parse'' | KE_Runtime \<Rightarrow> lit ''Runtime'')"

definition error_display :: "ku_error \<Rightarrow> ustring" where
  "error_display e =
     (if ke_span e = Span_default then ke_message e
      else kind_name (ke_kind e) @ lit '' error at '' @ nat_to_string (error_line e) @ lit '':''
        @ nat_to_string (error_column e) @ lit '': '' @ ke_message e)"

section \<open>Lemmas\<close>

definition clean :: "uchar \<Rightarrow> uchar" where
  "clean c = (case replacement c of Some r \<Rightarrow> r | None \<Rightarrow> c)"

definition kept :: "uchar \<Rightarrow> bool" where
  "kept c \<longleftrightarrow> replacement c = None"

definition cleaned :: "ustring \<Rightarrow> ustring option" where
  "cleaned t = (if list_all kept t then None else Some (map clean t))"

lemma clean_kept: "list_all kept t \<Longrightarrow> map clean t = t"
  by (induction t) (auto simp: kept_def clean_def)

lemma preview_loop_cleaned:
  "drop i source = cs \<Longrightarrow> i \<le> max_chars \<Longrightarrow> i \<le> length source \<Longrightarrow>
   preview_loop max_chars source i cs (cleaned (take i source)) i =
     (cleaned (take max_chars source), min max_chars (length source), max_chars < length source)"
proof (induction cs arbitrary: i)
  case Nil
  then have "i = length source" by simp
  then show ?case using Nil.prems(2) by simp
next
  case (Cons c cs)
  have lt: "i < length source" using Cons.prems(1) by (metis drop_eq_Nil leI list.distinct(1))
  with Cons.prems(1) have i: "i < length source" "source ! i = c" "drop (Suc i) source = cs"
    by (simp_all add: drop_eq_Cons_nth)
  show ?case
  proof (cases "i = max_chars")
    case False
    have "take (Suc i) source = take i source @ [c]" using i by (simp add: take_Suc_conv_app_nth)
    then have "cleaned (take (Suc i) source) = (case replacement c of
               Some r \<Rightarrow> Some ((case cleaned (take i source) of Some out \<Rightarrow> out | None \<Rightarrow> take i source) @ [r])
             | None \<Rightarrow> (case cleaned (take i source) of Some out \<Rightarrow> Some (out @ [c]) | None \<Rightarrow> None))"
      by (auto simp: cleaned_def clean_kept kept_def clean_def split: option.splits)
    then show ?thesis using False Cons.IH [OF i(3)] Cons.prems i(1) by simp
  qed (use i in simp)
qed

lemma sanitized_preview_eq:
  "sanitized_diagnostic_preview source max_chars =
     (let n = min max_chars MAX_DIAGNOSTIC_INLINE_CHARS in (map clean (take n source), n < length source))"
proof -
  have "cleaned (take 0 source) = None" by (simp add: cleaned_def)
  then have "preview_loop n source 0 source None 0 =
      (cleaned (take n source), min n (length source), n < length source)" for n
    using preview_loop_cleaned [of 0 source source n] by simp
  then show ?thesis
    by (auto simp: sanitized_diagnostic_preview_def Let_def cleaned_def clean_kept min_def)
qed

definition printable :: "uchar \<Rightarrow> bool" where
  "printable c \<longleftrightarrow> \<not> unsafe_diagnostic_char c"

lemma printable_ascii: "32 \<le> c \<Longrightarrow> c < 127 \<Longrightarrow> printable c"
  by (simp add: printable_def unsafe_diagnostic_char_def is_control_def)

lemma printable_clean: "printable (clean c)"
  by (auto simp: clean_def replacement_def printable_def unsafe_diagnostic_char_def is_control_def)

lemma printable_nat: "list_all printable (nat_to_string n)"
  using nat_to_string_digits [of n] by (auto simp: list_all_iff is_ascii_digit_iff intro!: printable_ascii)

definition plain_text :: "string \<Rightarrow> bool" where
  "plain_text s \<longleftrightarrow> list_all (\<lambda>c. 32 \<le> (of_char c :: nat) \<and> (of_char c :: nat) < 127) s"

lemma printable_lit: "plain_text s \<Longrightarrow> list_all printable (lit s)"
  by (auto simp: plain_text_def lit_def ch_def list_all_iff intro!: printable_ascii)

lemma printable_truncation: "list_all printable DIAGNOSTIC_LINE_TRUNCATION" "list_all printable DIAGNOSTIC_INLINE_TRUNCATION"
  by (code_simp, code_simp)

lemma printable_cleaned: "list_all printable (map clean t)"
  by (simp add: list_all_iff printable_clean)

lemma printable_line_preview: "diagnostic_line_preview t = (p, s) \<Longrightarrow> list_all printable p \<and> list_all printable s"
  by (auto simp: diagnostic_line_preview_def sanitized_preview_eq Let_def printable_cleaned printable_truncation)

lemma printable_inline_preview: "diagnostic_inline_preview t = (p, s) \<Longrightarrow> list_all printable p \<and> list_all printable s"
  by (auto simp: diagnostic_inline_preview_def sanitized_preview_eq Let_def printable_cleaned printable_truncation)

definition printable_definition :: "diagnostic_definition \<Rightarrow> bool" where
  "printable_definition d \<longleftrightarrow> list_all printable (dd_code d) \<and> list_all (list_all printable) (dd_notes d)
     \<and> list_all (list_all printable) (dd_helps d)"

lemma registry_printable: "list_all printable_definition DIAGNOSTIC_REGISTRY"
  by code_simp

lemma registry_length: "length DIAGNOSTIC_REGISTRY = 38"
  by code_simp

lemma diagnostic_index_less: "diagnostic_index d < 38"
  by (cases d) (simp_all add: diagnostic_index_def)

lemma diagnostic_info_total: "\<exists>info. diagnostic_info e = Inr info \<and> printable_definition info"
  using registry_printable diagnostic_index_less
  by (simp add: diagnostic_info_def diagnostic_definition_of_def registry_length list_all_length)

lemma printable_marker: "list_all printable (diagnostic_marker c n)"
  using printable_nat [of c] printable_nat [of "max n 1"]
  by (auto simp: diagnostic_marker_def Let_def lit_def ch_def printable_ascii list_all_iff)

definition safe_text :: "ustring \<Rightarrow> bool" where
  "safe_text t \<longleftrightarrow> list_all (\<lambda>c. c = 10 \<or> printable c) t"

lemma safe_text_append: "safe_text (s @ t) \<longleftrightarrow> safe_text s \<and> safe_text t"
  by (simp add: safe_text_def)

lemma safe_text_nl: "safe_text [10]"
  by (simp add: safe_text_def)

lemma safe_text_printable: "list_all printable t \<Longrightarrow> safe_text t"
  by (auto simp: safe_text_def list_all_iff)

lemma safe_text_lit: "plain_text s \<Longrightarrow> safe_text (lit s)"
  by (simp add: safe_text_printable printable_lit)

lemma safe_text_concat: "(\<And>x. x \<in> set xs \<Longrightarrow> safe_text (f x)) \<Longrightarrow> safe_text (concat (map f xs))"
  by (induction xs) (auto simp: safe_text_append safe_text_def)

lemma safe_text_pad: "safe_text t \<Longrightarrow> safe_text (pad_left n t)"
  by (auto simp: pad_left_def safe_text_def list_all_iff printable_ascii)


text \<open>C26: Previews are the sanitized prefix. The single pass that copies only from the first
  replaced character on computes what replacing every character of the prefix would; a line preview
  has at most 512 characters, an inline preview at most 1024, and truncation is reported exactly when
  text was cut.\<close>

theorem sanitized_preview_exact:
  "sanitized_diagnostic_preview source max_chars =
     (map clean (take (min max_chars MAX_DIAGNOSTIC_INLINE_CHARS) source),
      min max_chars MAX_DIAGNOSTIC_INLINE_CHARS < length source)
   \<and> length (fst (diagnostic_line_preview source)) \<le> 512
   \<and> length (fst (diagnostic_inline_preview source)) \<le> 1024"
  by (simp add: sanitized_preview_eq Let_def diagnostic_line_preview_def diagnostic_inline_preview_def
      MAX_DIAGNOSTIC_LINE_CHARS_def MAX_DIAGNOSTIC_INLINE_CHARS_def MAX_DIAGNOSTIC_MARKER_INDENT_def
      MAX_DIAGNOSTIC_MARKER_CARETS_def split: prod.split)

text \<open>The registry is consistent. Every diagnostic identity finds the definition registered for
  it, and no two definitions share a code.\<close>

lemma diagnostic_registry_consistent:
  "map_sum (\<lambda>_. ()) dd_id (diagnostic_definition_of d) = Inr d \<and> distinct (map dd_code DIAGNOSTIC_REGISTRY)"
proof
  have "map dd_id DIAGNOSTIC_REGISTRY ! diagnostic_index d = d"
    by (cases d) (simp_all add: DIAGNOSTIC_REGISTRY_def diagnostic_index_def)
  then show "map_sum (\<lambda>_. ()) dd_id (diagnostic_definition_of d) = Inr d"
    using diagnostic_index_less [of d] by (simp add: diagnostic_definition_of_def registry_length)
  show "distinct (map dd_code DIAGNOSTIC_REGISTRY)" by code_simp
qed

text \<open>The reported range is never empty and never runs backwards: lines and columns start at
  one, the end is not before the start, and on one line it is past the start.\<close>

lemma diagnostic_location_ordered:
  assumes "error_column e < usize_MAX"
  shows "case diagnostic_location e of (l, c, end_l, end_c) \<Rightarrow>
    1 \<le> l \<and> 1 \<le> c \<and> l \<le> end_l \<and> 1 \<le> end_c \<and> (end_l = l \<longrightarrow> c < end_c)"
  using assms by (auto simp: diagnostic_location_def Let_def usize_MAX_def)

lemma diagnostic_location_ordered_example:
  "diagnostic_location (lex_error (lit ''x'') (Span_new (Position_new 2 5 9) (Position_new 2 5 9))) = (2, 5, 2, 6)"
  using diagnostic_location_ordered [of "lex_error (lit ''x'') (Span_new (Position_new 2 5 9) (Position_new 2 5 9))"]
  by (simp add: diagnostic_location_def Let_def error_line_def error_column_def lex_error_def KuError_new_def Span_new_def
      Position_new_def usize_MAX_def)

text \<open>Cleanup deadlines only ever get earlier. Remembering a sequence of cleanup contexts on an
  error keeps the earliest deadline seen, and it changes neither the message nor the span of the error
  nor whether the error terminates its task.\<close>

lemma remember_scope_cleanup_earliest:
  "map_option rt_cleanup_deadline (scope_cleanup (foldl remember_scope_cleanup e ctxs)) =
     (case map rt_cleanup_deadline (case scope_cleanup e of None \<Rightarrow> ctxs | Some c \<Rightarrow> c # ctxs) of
        [] \<Rightarrow> None | d # ds \<Rightarrow> Some (fold min ds d))
   \<and> ke_message (foldl remember_scope_cleanup e ctxs) = ke_message e
   \<and> ke_span (foldl remember_scope_cleanup e ctxs) = ke_span e
   \<and> map_option ec_terminating (ke_context (foldl remember_scope_cleanup e ctxs))
       = (if ctxs = [] then map_option ec_terminating (ke_context e)
          else Some (case ke_context e of None \<Rightarrow> False | Some c \<Rightarrow> ec_terminating c))"
proof (induction ctxs arbitrary: e)
  case Nil
  then show ?case by (simp split: option.split)
next
  case (Cons c ctxs)
  let ?e = "remember_scope_cleanup e c"
  have sc: "scope_cleanup ?e = Some (case scope_cleanup e of None \<Rightarrow> c
      | Some x \<Rightarrow> x\<lparr>rt_cleanup_deadline := min (rt_cleanup_deadline x) (rt_cleanup_deadline c)\<rparr>)"
    by (simp add: remember_scope_cleanup_def scope_cleanup_def Let_def ErrorContext_default_def split: option.split)
  have ctx: "map_option ec_terminating (ke_context ?e) = Some (case ke_context e of None \<Rightarrow> False | Some c \<Rightarrow> ec_terminating c)"
    by (simp add: remember_scope_cleanup_def Let_def ErrorContext_default_def split: option.split)
  then obtain k where k: "ke_context ?e = Some k" "ec_terminating k = (case ke_context e of None \<Rightarrow> False | Some c \<Rightarrow> ec_terminating c)"
    by (cases "ke_context ?e") auto
  have "ke_message ?e = ke_message e" "ke_span ?e = ke_span e"
    by (simp_all add: remember_scope_cleanup_def Let_def)
  then show ?case using Cons.IH [of ?e] sc k
    by (auto simp: min.commute split: option.splits)
qed

end
