(* ===== verification/Rust_Float.thy ===== *)
theory Rust_Float
  imports Rust_Format
begin

text \<open>
  The arithmetic of \<open>f64\<close>: a finite double is an exact fraction, the operations compute the exact
  result and round it to the nearest double, ties to even. Every NaN result is the canonical one; the
  language leaves its bits open.
\<close>

definition f64_nan :: f64 where
  "f64_nan = F64 0x7FF8000000000000"

definition f64_infinity :: "bool \<Rightarrow> f64" where
  "f64_infinity neg = F64 (if neg then 0xFFF0000000000000 else 0x7FF0000000000000)"

definition f64_is_infinite :: "f64 \<Rightarrow> bool" where
  "f64_is_infinite x \<longleftrightarrow> f64_exponent x = 0x7FF \<and> f64_fraction x = 0"

definition f64_signed :: "bool \<Rightarrow> f64 \<Rightarrow> f64" where
  "f64_signed neg x = (if neg then f64_neg x else x)"

text \<open>Numerator and denominator of a finite double, and the double nearest to a fraction; the sign
  of a zero result is given.\<close>

definition f64_num :: "f64 \<Rightarrow> int" where
  "f64_num x = (if f64_negative x then - int (fst (f64_ratio x)) else int (fst (f64_ratio x)))"

definition f64_den :: "f64 \<Rightarrow> nat" where
  "f64_den x = snd (f64_ratio x)"

definition f64_of_fraction :: "bool \<Rightarrow> int \<Rightarrow> nat \<Rightarrow> f64" where
  "f64_of_fraction zero_neg p q =
     (if p = 0 then f64_signed zero_neg (F64 0) else f64_signed (p < 0) (f64_round (nat \<bar>p\<bar>) q))"

definition f64_add :: "f64 \<Rightarrow> f64 \<Rightarrow> f64" where
  "f64_add x y =
     (if f64_is_nan x \<or> f64_is_nan y then f64_nan
      else if f64_is_infinite x then
        (if f64_is_infinite y \<and> f64_negative x \<noteq> f64_negative y then f64_nan else x)
      else if f64_is_infinite y then y
      else f64_of_fraction (f64_negative x \<and> f64_negative y)
        (f64_num x * int (f64_den y) + f64_num y * int (f64_den x)) (f64_den x * f64_den y))"

definition f64_sub :: "f64 \<Rightarrow> f64 \<Rightarrow> f64" where
  "f64_sub x y = f64_add x (f64_neg y)"

definition f64_mul :: "f64 \<Rightarrow> f64 \<Rightarrow> f64" where
  "f64_mul x y =
     (let neg = (f64_negative x \<noteq> f64_negative y) in
      if f64_is_nan x \<or> f64_is_nan y then f64_nan
      else if f64_is_infinite x \<or> f64_is_infinite y then
        (if f64_is_zero x \<or> f64_is_zero y then f64_nan else f64_infinity neg)
      else f64_of_fraction neg (f64_num x * f64_num y) (f64_den x * f64_den y))"

definition f64_div :: "f64 \<Rightarrow> f64 \<Rightarrow> f64" where
  "f64_div x y =
     (let neg = (f64_negative x \<noteq> f64_negative y) in
      if f64_is_nan x \<or> f64_is_nan y then f64_nan
      else if f64_is_infinite x then (if f64_is_infinite y then f64_nan else f64_infinity neg)
      else if f64_is_infinite y then f64_signed neg (F64 0)
      else if f64_is_zero y then (if f64_is_zero x then f64_nan else f64_infinity neg)
      else f64_of_fraction neg
        (sgn (f64_num y) * f64_num x * int (f64_den y)) (f64_den x * nat \<bar>f64_num y\<bar>))"

definition f64_of_i64 :: "i64 \<Rightarrow> f64" where
  "f64_of_i64 w = f64_of_fraction False (sint w) 1"

text \<open>The order of the non-NaN doubles is the order of their bits read as sign and magnitude.\<close>

definition f64_key :: "f64 \<Rightarrow> int" where
  "f64_key x = (let m = int (unat (f64_bits x) mod 2 ^ 63) in if f64_negative x then - m else m)"

definition f64_lt :: "f64 \<Rightarrow> f64 \<Rightarrow> bool" where
  "f64_lt x y \<longleftrightarrow> \<not> f64_is_nan x \<and> \<not> f64_is_nan y \<and> f64_key x < f64_key y"

definition f64_le :: "f64 \<Rightarrow> f64 \<Rightarrow> bool" where
  "f64_le x y \<longleftrightarrow> \<not> f64_is_nan x \<and> \<not> f64_is_nan y \<and> f64_key x \<le> f64_key y"

end
