(* ===== verification/Operators.thy ===== *)
theory Operators
  imports Rust_Float Stdlib "HOL-Library.Signed_Division"
begin

text \<open>
  The operators of the language on runtime values (\<open>eval_binary\<close>, \<open>numeric\<close>, \<open>compare\<close> and the
  unary operators of \<open>src/src/runtime/interpreter.rs\<close>). Integer arithmetic is checked, float
  arithmetic is IEEE, mixed operands are converted to floats, and borrowed operands are read through
  their views.
\<close>

section \<open>Checked integer arithmetic\<close>

definition INT64_MIN :: int where
  "INT64_MIN = - (2 ^ 63)"

definition INT64_MAX :: int where
  "INT64_MAX = 2 ^ 63 - 1"

definition i64_in_range :: "int \<Rightarrow> bool" where
  "i64_in_range x \<longleftrightarrow> INT64_MIN \<le> x \<and> x \<le> INT64_MAX"

definition i64_checked :: "int \<Rightarrow> i64 option" where
  "i64_checked x = (if i64_in_range x then Some (of_int x) else None)"

text \<open>\<open>i64::checked_add\<close> and its siblings; division truncates toward zero, and the one quotient out of
  range makes division and remainder fail.\<close>

definition checked_add :: "i64 \<Rightarrow> i64 \<Rightarrow> i64 option" where
  "checked_add a b = i64_checked (sint a + sint b)"

definition checked_sub :: "i64 \<Rightarrow> i64 \<Rightarrow> i64 option" where
  "checked_sub a b = i64_checked (sint a - sint b)"

definition checked_mul :: "i64 \<Rightarrow> i64 \<Rightarrow> i64 option" where
  "checked_mul a b = i64_checked (sint a * sint b)"

definition checked_div :: "i64 \<Rightarrow> i64 \<Rightarrow> i64 option" where
  "checked_div a b = (if b = 0 then None else i64_checked (sint a sdiv sint b))"

definition checked_rem :: "i64 \<Rightarrow> i64 \<Rightarrow> i64 option" where
  "checked_rem a b =
     (if b = 0 \<or> sint a = INT64_MIN \<and> sint b = -1 then None else i64_checked (sint a smod sint b))"

definition checked_neg :: "i64 \<Rightarrow> i64 option" where
  "checked_neg a = i64_checked (- sint a)"

lemma i64_sint_range: "i64_in_range (sint w)" for w :: i64
  using sint_ge [of w] sint_lt [of w] by (simp add: i64_in_range_def INT64_MIN_def INT64_MAX_def)

lemma sint_of_int_range: "i64_in_range x \<Longrightarrow> sint (of_int x :: i64) = x"
  by (simp add: i64_in_range_def INT64_MIN_def INT64_MAX_def signed_of_int signed_take_bit_int_eq_self)

section \<open>Operators\<close>

definition overflow_error :: "span \<Rightarrow> ku_error" where
  "overflow_error sp = runtime_error (lit ''integer overflow'') sp"

definition zero_error :: "span \<Rightarrow> ku_error" where
  "zero_error sp = runtime_error (lit ''division by zero'') sp"

definition type_error :: "owner \<Rightarrow> span \<Rightarrow> ustring \<Rightarrow> 'env value_t \<Rightarrow> 'env value_t \<Rightarrow> (ku_error, 'env value_t) result" where
  "type_error now sp op left right =
     rerr (runtime_error (lit ''type error: cannot apply '' @ op @ lit '' to '' @ type_name_of now left
       @ lit '' and '' @ type_name_of now right) sp)"

definition int_result :: "span \<Rightarrow> i64 option \<Rightarrow> (ku_error, 'env value_t) result" where
  "int_result sp r = (case r of Some i \<Rightarrow> Inr (V_Int i) | None \<Rightarrow> rerr (overflow_error sp))"

definition numeric ::
    "owner \<Rightarrow> 'env value_t \<Rightarrow> 'env value_t \<Rightarrow> span \<Rightarrow> bool \<Rightarrow> (i64 \<Rightarrow> i64 \<Rightarrow> i64 option) \<Rightarrow> (f64 \<Rightarrow> f64 \<Rightarrow> f64)
     \<Rightarrow> (ku_error, 'env value_t) result" where
  "numeric now left right sp check_zero int_op float_op = (case (left, right) of
       (V_Int a, V_Int b) \<Rightarrow>
         if b = 0 \<and> check_zero then rerr (zero_error sp) else int_result sp (int_op a b)
     | (V_Float a, V_Float b) \<Rightarrow>
         if check_zero \<and> f64_eq b (F64 0) then rerr (zero_error sp) else Inr (V_Float (float_op a b))
     | (V_Int a, V_Float b) \<Rightarrow>
         if check_zero \<and> f64_eq b (F64 0) then rerr (zero_error sp) else Inr (V_Float (float_op (f64_of_i64 a) b))
     | (V_Float a, V_Int b) \<Rightarrow>
         if b = 0 \<and> check_zero then rerr (zero_error sp) else Inr (V_Float (float_op a (f64_of_i64 b)))
     | _ \<Rightarrow> type_error now sp (lit ''numeric operator'') left right)"

definition compare_values ::
    "owner \<Rightarrow> 'env value_t \<Rightarrow> 'env value_t \<Rightarrow> span \<Rightarrow> (int \<Rightarrow> int \<Rightarrow> bool) \<Rightarrow> (f64 \<Rightarrow> f64 \<Rightarrow> bool)
     \<Rightarrow> (ku_error, 'env value_t) result" where
  "compare_values now left right sp int_op float_op = (case (left, right) of
       (V_Int a, V_Int b) \<Rightarrow> Inr (V_Bool (int_op (sint a) (sint b)))
     | (V_Float a, V_Float b) \<Rightarrow> Inr (V_Bool (float_op a b))
     | (V_Int a, V_Float b) \<Rightarrow> Inr (V_Bool (float_op (f64_of_i64 a) b))
     | (V_Float a, V_Int b) \<Rightarrow> Inr (V_Bool (float_op a (f64_of_i64 b)))
     | _ \<Rightarrow> type_error now sp (lit ''comparison operator'') left right)"

text \<open>Logical operators are short-circuited by the caller and unreachable here.\<close>

definition eval_binary_owned :: "owner \<Rightarrow> binary_op \<Rightarrow> 'env value_t \<Rightarrow> 'env value_t \<Rightarrow> span \<Rightarrow> (ku_error, 'env value_t) result" where
  "eval_binary_owned now op left right sp = (case op of
       BO_Add \<Rightarrow> (case (left, right) of
           (V_Int a, V_Int b) \<Rightarrow> int_result sp (checked_add a b)
         | (V_Float a, V_Float b) \<Rightarrow> Inr (V_Float (f64_add a b))
         | (V_Int a, V_Float b) \<Rightarrow> Inr (V_Float (f64_add (f64_of_i64 a) b))
         | (V_Float a, V_Int b) \<Rightarrow> Inr (V_Float (f64_add a (f64_of_i64 b)))
         | (V_String a, V_String b) \<Rightarrow> Inr (V_String (a @ b))
         | _ \<Rightarrow> type_error now sp (lit ''+'') left right)
     | BO_Subtract \<Rightarrow> numeric now left right sp False checked_sub f64_sub
     | BO_Multiply \<Rightarrow> numeric now left right sp False checked_mul f64_mul
     | BO_Divide \<Rightarrow> numeric now left right sp True checked_div f64_div
     | BO_Remainder \<Rightarrow> (case (left, right) of
           (V_Int a, V_Int b) \<Rightarrow>
             if b = 0 then rerr (zero_error sp) else int_result sp (checked_rem a b)
         | _ \<Rightarrow> type_error now sp (lit ''%'') left right)
     | BO_Equal \<Rightarrow> Inr (V_Bool (value_eq now left right))
     | BO_NotEqual \<Rightarrow> Inr (V_Bool (\<not> value_eq now left right))
     | BO_Less \<Rightarrow> compare_values now left right sp (<) f64_lt
     | BO_LessEqual \<Rightarrow> compare_values now left right sp (\<le>) f64_le
     | BO_Greater \<Rightarrow> compare_values now left right sp (>) (\<lambda>a b. f64_lt b a)
     | BO_GreaterEqual \<Rightarrow> compare_values now left right sp (\<ge>) (\<lambda>a b. f64_le b a)
     | BO_And \<Rightarrow> Inl RustPanic
     | BO_Or \<Rightarrow> Inl RustPanic)"

text \<open>\<open>reserve n\<close> says whether the allocator has room for \<open>n\<close> bytes.\<close>

definition borrowed_concat :: "(nat \<Rightarrow> bool) \<Rightarrow> ustring \<Rightarrow> ustring \<Rightarrow> span \<Rightarrow> (ku_error, 'env value_t) result" where
  "borrowed_concat reserve left right sp =
     (let oom = runtime_error (lit ''string concat out of memory'') sp in
      if usize_MAX < str_len left + str_len right then rerr oom
      else if \<not> reserve (str_len left + str_len right) then rerr oom
      else Inr (V_String (left @ right)))"

definition eval_binary_views ::
    "owner \<Rightarrow> (nat \<Rightarrow> bool) \<Rightarrow> binary_op \<Rightarrow> 'env value_t \<Rightarrow> 'env value_t \<Rightarrow> span \<Rightarrow> (ku_error, 'env value_t) result" where
  "eval_binary_views now reserve op left right sp =
     (let copied = (case (copy_value left, copy_value right) of
            (Some l, Some r) \<Rightarrow> eval_binary_owned now op l r sp
          | _ \<Rightarrow> type_error now sp (lit ''operator'') left right)
      in case op of
           BO_Equal \<Rightarrow> Inr (V_Bool (value_eq now left right))
         | BO_NotEqual \<Rightarrow> Inr (V_Bool (\<not> value_eq now left right))
         | BO_Add \<Rightarrow> (case (left, right) of
               (V_String l, V_String r) \<Rightarrow> borrowed_concat reserve l r sp
             | _ \<Rightarrow> copied)
         | _ \<Rightarrow> copied)"

definition eval_binary ::
    "owner \<Rightarrow> (nat \<Rightarrow> bool) \<Rightarrow> binary_op \<Rightarrow> 'env value_t \<Rightarrow> 'env value_t \<Rightarrow> span \<Rightarrow> (ku_error, 'env value_t) result" where
  "eval_binary now reserve op left right sp =
     (if is_borrowed left \<or> is_borrowed right then
        (case value_read now left sp of
           Inl e \<Rightarrow> rerr e
         | Inr l \<Rightarrow> (case value_read now right sp of
             Inl e \<Rightarrow> rerr e
           | Inr r \<Rightarrow> eval_binary_views now reserve op l r sp))
      else eval_binary_owned now op left right sp)"

definition eval_unary :: "owner \<Rightarrow> unary_op \<Rightarrow> 'env value_t \<Rightarrow> span \<Rightarrow> (ku_error, 'env value_t) result" where
  "eval_unary now op v sp = (case (op, v) of
       (UO_Negate, V_Int i) \<Rightarrow> int_result sp (checked_neg i)
     | (UO_Negate, V_Float x) \<Rightarrow> Inr (V_Float (f64_neg x))
     | (UO_Not, V_Bool b) \<Rightarrow> Inr (V_Bool (\<not> b))
     | _ \<Rightarrow> rerr (runtime_error (lit ''invalid unary operation for '' @ type_name_of now v) sp))"

section \<open>Properties\<close>

lemma returns_type_error [returns_intro]: "returns (type_error now sp op l r)"
  by (simp add: type_error_def)

lemma returns_int_result [returns_intro]: "returns (int_result sp r)"
  by (simp add: int_result_def split: option.split)

lemma returns_numeric [returns_intro]: "returns (numeric now l r sp z f g)"
  by (auto simp: numeric_def returns_type_error returns_int_result split: value_t.split)

lemma returns_compare [returns_intro]: "returns (compare_values now l r sp f g)"
  by (auto simp: compare_values_def returns_type_error split: value_t.split)

lemma returns_owned: "op \<noteq> BO_And \<Longrightarrow> op \<noteq> BO_Or \<Longrightarrow> returns (eval_binary_owned now op l r sp)"
  by (cases op) (auto simp: eval_binary_owned_def returns_intro split: value_t.split)

definition arithmetic :: "binary_op \<Rightarrow> bool" where
  "arithmetic op \<longleftrightarrow> op \<noteq> BO_And \<and> op \<noteq> BO_Or"



text \<open>Borrowing is transparent. When a view shows a copyable value, every operator gives the
  same result, error messages included, as on the value itself.\<close>

lemma borrowed_operands_transparent:
  assumes "value_read now left sp = Inr l" and "copy_value l = Some l"
    and "value_read now right sp = Inr r" and "copy_value r = Some r"
  shows "eval_binary now reserve op left right sp = eval_binary now reserve op l r sp"
proof -
  have own: "\<not> is_borrowed l" "\<not> is_borrowed r"
    using assms(2,4) by (auto simp: copy_value_def is_borrowed_def split: value_t.splits)
  have "is_borrowed left \<or> l = left" "is_borrowed right \<or> r = right"
    using assms(1,3) by (auto simp: value_read_def is_borrowed_def split: value_t.splits)
  moreover have "eval_binary_views now reserve op l r sp = eval_binary_owned now op l r sp"
    using assms(2,4)
    by (cases op) (auto simp: eval_binary_views_def eval_binary_owned_def Let_def copy_value_def split: value_t.splits)
  ultimately show ?thesis using assms(1,3) own by (auto simp: eval_binary_def)
qed

lemma borrowed_operands_transparent_example:
  "eval_binary \<lparr>ow_thread = 0, ow_task = 0\<rparr> (\<lambda>_. True) BO_Add
     (V_Borrowed (Some (V_Int 2)) [] \<lparr>ow_thread = 0, ow_task = 0\<rparr> :: unit value_t) (V_Int 3) Span_default
   = Inr (V_Int 5)"
  using borrowed_operands_transparent [of "\<lparr>ow_thread = 0, ow_task = 0\<rparr>"
      "V_Borrowed (Some (V_Int 2)) [] \<lparr>ow_thread = 0, ow_task = 0\<rparr> :: unit value_t" Span_default "V_Int 2" "V_Int 3" "V_Int 3"
      "\<lambda>_. True" BO_Add]
  by (simp add: value_read_def borrowed_read_def check_owner_def read_root_def copy_value_def eval_binary_def is_borrowed_def
      eval_binary_owned_def int_result_def checked_add_def i64_checked_def i64_in_range_def INT64_MIN_def INT64_MAX_def)

end
