(* ===== verification/Checked_Int.thy ===== *)
theory Checked_Int
  imports Operators
begin

text \<open>
  The checked integer helpers that the C backend emits (\<open>CHECKED_INT_RUNTIME\<close> of
  \<open>src/src/backend/c_int.rs\<close>): C code on \<open>int64_t\<close> values with a status result and an output
  cell. A C expression whose exact value is not representable has undefined behaviour, and so does
  a division by zero; both are \<open>None\<close>. Both preprocessor paths of addition and subtraction are
  modelled. The theorem relates the helpers to the interpreter's arithmetic.
\<close>

section \<open>C expressions\<close>

datatype int_status = KU_INT_OK | KU_INT_OVERFLOW | KU_INT_DIV_ZERO

text \<open>The status a helper returns and the contents of \<open>*out\<close> afterwards.\<close>

type_synonym int_outcome = "(int_status \<times> int) option"

definition c_value :: "int \<Rightarrow> int option" where
  "c_value x = (if i64_in_range x then Some x else None)"

definition c_div :: "int \<Rightarrow> int \<Rightarrow> int option" where
  "c_div a b = (if b = 0 then None else c_value (a sdiv b))"

definition c_rem :: "int \<Rightarrow> int \<Rightarrow> int option" where
  "c_rem a b = (if b = 0 \<or> \<not> i64_in_range (a sdiv b) then None else c_value (a smod b))"

definition store :: "int option \<Rightarrow> int_outcome" where
  "store x = map_option (\<lambda>v. (KU_INT_OK, v)) x"

text \<open>\<open>if (cond) return KU_INT_OVERFLOW;\<close> where the condition compares with an expression.\<close>

definition guard_overflow :: "int option \<Rightarrow> (int \<Rightarrow> bool) \<Rightarrow> int \<Rightarrow> int_outcome \<Rightarrow> int_outcome" where
  "guard_overflow bound test out rest = (case bound of
       None \<Rightarrow> None
     | Some b \<Rightarrow> if test b then Some (KU_INT_OVERFLOW, out) else rest)"

text \<open>The compiler builtins: the result wrapped to 64 bits, and whether that changed it.\<close>

definition wrap64 :: "int \<Rightarrow> int" where
  "wrap64 x = sint (of_int x :: i64)"

definition builtin_overflow :: "int \<Rightarrow> int \<times> bool" where
  "builtin_overflow x = (wrap64 x, wrap64 x \<noteq> x)"

section \<open>The helpers\<close>

definition ku_int_neg :: "int \<Rightarrow> int \<Rightarrow> int_outcome" where
  "ku_int_neg v out =
     (if v = INT64_MIN then Some (KU_INT_OVERFLOW, out) else store (c_value (- v)))"

definition ku_int_add :: "bool \<Rightarrow> int \<Rightarrow> int \<Rightarrow> int \<Rightarrow> int_outcome" where
  "ku_int_add use_builtins left right out =
     (if use_builtins then
        (let (result, overflow) = builtin_overflow (left + right) in
         if overflow then Some (KU_INT_OVERFLOW, out) else Some (KU_INT_OK, result))
      else
        (let done = store (c_value (left + right)) in
         if 0 < right then guard_overflow (c_value (INT64_MAX - right)) (\<lambda>b. b < left) out done
         else if right < 0 then guard_overflow (c_value (INT64_MIN - right)) (\<lambda>b. left < b) out done
         else done))"

definition ku_int_sub :: "bool \<Rightarrow> int \<Rightarrow> int \<Rightarrow> int \<Rightarrow> int_outcome" where
  "ku_int_sub use_builtins left right out =
     (if use_builtins then
        (let (result, overflow) = builtin_overflow (left - right) in
         if overflow then Some (KU_INT_OVERFLOW, out) else Some (KU_INT_OK, result))
      else
        (let done = store (c_value (left - right)) in
         if 0 < right then guard_overflow (c_value (INT64_MIN + right)) (\<lambda>b. left < b) out done
         else if right < 0 then guard_overflow (c_value (INT64_MAX + right)) (\<lambda>b. b < left) out done
         else done))"

definition ku_int_mul :: "int \<Rightarrow> int \<Rightarrow> int \<Rightarrow> int_outcome" where
  "ku_int_mul left right out =
     (let done = store (c_value (left * right)) in
      if 0 < left then
        (if 0 < right then guard_overflow (c_div INT64_MAX right) (\<lambda>b. b < left) out done
         else if right < 0 then guard_overflow (c_div INT64_MIN left) (\<lambda>b. right < b) out done
         else done)
      else if left < 0 then
        (if 0 < right then guard_overflow (c_div INT64_MIN right) (\<lambda>b. left < b) out done
         else if right < 0 then guard_overflow (c_div INT64_MAX right) (\<lambda>b. left < b) out done
         else done)
      else done)"

definition ku_int_div :: "int \<Rightarrow> int \<Rightarrow> int \<Rightarrow> int_outcome" where
  "ku_int_div left right out =
     (if right = 0 then Some (KU_INT_DIV_ZERO, out)
      else if left = INT64_MIN \<and> right = -1 then Some (KU_INT_OVERFLOW, out)
      else store (c_div left right))"

definition ku_int_rem :: "int \<Rightarrow> int \<Rightarrow> int \<Rightarrow> int_outcome" where
  "ku_int_rem left right out =
     (if right = 0 then Some (KU_INT_DIV_ZERO, out)
      else if left = INT64_MIN \<and> right = -1 then Some (KU_INT_OVERFLOW, out)
      else store (c_rem left right))"

section \<open>Exactness\<close>

text \<open>What a helper has to do: store the exact result when it fits, report overflow otherwise.\<close>

definition exact_outcome :: "int \<Rightarrow> int \<Rightarrow> int_outcome" where
  "exact_outcome x out = Some (if i64_in_range x then (KU_INT_OK, x) else (KU_INT_OVERFLOW, out))"

lemma wrap64_range: "wrap64 x = x \<longleftrightarrow> i64_in_range x"
  using i64_sint_range [of "of_int x"] sint_of_int_range [of x] by (auto simp: wrap64_def)

lemma range_bounds: "i64_in_range x \<longleftrightarrow> - 9223372036854775808 \<le> x \<and> x \<le> 9223372036854775807"
  by (simp add: i64_in_range_def INT64_MIN_def INT64_MAX_def)

lemmas int_bounds = range_bounds INT64_MIN_def INT64_MAX_def

lemma ku_int_add_exact: "i64_in_range l \<Longrightarrow> i64_in_range r \<Longrightarrow> ku_int_add b l r out = exact_outcome (l + r) out"
  by (auto simp: ku_int_add_def builtin_overflow_def wrap64_range exact_outcome_def store_def c_value_def
      guard_overflow_def int_bounds Let_def)

lemma ku_int_sub_exact: "i64_in_range l \<Longrightarrow> i64_in_range r \<Longrightarrow> ku_int_sub b l r out = exact_outcome (l - r) out"
  by (auto simp: ku_int_sub_def builtin_overflow_def wrap64_range exact_outcome_def store_def c_value_def
      guard_overflow_def int_bounds Let_def)

lemma ku_int_neg_exact: "i64_in_range v \<Longrightarrow> ku_int_neg v out = exact_outcome (- v) out"
  by (auto simp: ku_int_neg_def exact_outcome_def store_def c_value_def int_bounds)

lemma le_div_iff: "0 < b \<Longrightarrow> a \<le> m div b \<longleftrightarrow> a * b \<le> m" for a b m :: int
proof
  assume "0 < b" and "a \<le> m div b"
  then have "a * b \<le> m div b * b" by simp
  also have "\<dots> \<le> m" using \<open>0 < b\<close> by (simp add: minus_mod_eq_div_mult [symmetric])
  finally show "a * b \<le> m" .
next
  assume b: "0 < b" and "a * b \<le> m"
  then have "(a * b) div b \<le> m div b" by (intro zdiv_mono1)
  then show "a \<le> m div b" using b by simp
qed

lemma div_less_iff: "0 < b \<Longrightarrow> m div b < a \<longleftrightarrow> m < a * b" for a b m :: int
  using le_div_iff [of b a m] by linarith

lemma sdiv_signs:
  "0 \<le> a \<Longrightarrow> 0 < b \<Longrightarrow> a sdiv b = a div b" "0 \<le> a \<Longrightarrow> 0 < b \<Longrightarrow> (- a) sdiv b = - (a div b)"
  "0 \<le> a \<Longrightarrow> 0 < b \<Longrightarrow> a sdiv (- b) = - (a div b)" "0 \<le> a \<Longrightarrow> 0 < b \<Longrightarrow> (- a) sdiv (- b) = a div b"
  for a b :: int
  by (auto simp: signed_divide_int_def sgn_if mult_less_0_iff zero_less_mult_iff)

lemma div_bound: "0 \<le> a \<Longrightarrow> 0 < b \<Longrightarrow> 0 \<le> a div b \<and> a div b \<le> a" for a b :: int
  using zdiv_mono2 [of a 1 b] by (simp add: pos_imp_zdiv_nonneg_iff)

lemma ku_int_mul_exact:
  assumes "i64_in_range l" and "i64_in_range r"
  shows "ku_int_mul l r out = exact_outcome (l * r) out"
proof -
  let ?M = "9223372036854775807 :: int" and ?N = "9223372036854775808 :: int"
  consider "l = 0 \<or> r = 0" | "0 < l" "0 < r" | "0 < l" "r < 0" | "l < 0" "0 < r" | "l < 0" "r < 0" by linarith
  then show ?thesis
  proof cases
    case 1
    then show ?thesis by (auto simp: ku_int_mul_def exact_outcome_def store_def c_value_def range_bounds Let_def)
  next
    case 2
    have "- ?N \<le> l * r" using mult_pos_pos [OF 2] by linarith
    then show ?thesis using 2 div_less_iff [of r ?M l] div_bound [of ?M r]
      by (auto simp: ku_int_mul_def exact_outcome_def store_def c_div_def c_value_def guard_overflow_def int_bounds Let_def
          sdiv_signs)
  next
    case 3
    have "l * r \<le> ?M" using mult_pos_neg [OF 3] by linarith
    then show ?thesis using 3 div_less_iff [of l ?N "- r"] div_bound [of ?N l] sdiv_signs(2) [of ?N l]
      by (auto simp: ku_int_mul_def exact_outcome_def store_def c_div_def c_value_def guard_overflow_def int_bounds Let_def
          mult.commute)
  next
    case 4
    have "l * r \<le> ?M" using mult_neg_pos [OF 4] by linarith
    then show ?thesis using 4 div_less_iff [of r ?N "- l"] div_bound [of ?N r] sdiv_signs(2) [of ?N r]
      by (auto simp: ku_int_mul_def exact_outcome_def store_def c_div_def c_value_def guard_overflow_def int_bounds Let_def)
  next
    case 5
    have "- ?N \<le> l * r" using mult_neg_neg [OF 5] by linarith
    then show ?thesis using 5 div_less_iff [of "- r" ?M "- l"] div_bound [of ?M "- r"] sdiv_signs(3) [of ?M "- r"]
      by (auto simp: ku_int_mul_def exact_outcome_def store_def c_div_def c_value_def guard_overflow_def int_bounds Let_def)
  qed
qed

text \<open>The only quotient out of range is the one of the smallest integer by minus one.\<close>

lemma sdiv_range_iff:
  assumes "i64_in_range a" and "i64_in_range b" and "b \<noteq> 0"
  shows "i64_in_range (a sdiv b) \<longleftrightarrow> \<not> (a = INT64_MIN \<and> b = -1)"
proof (cases "\<bar>b\<bar> = 1")
  case True
  then have "b = 1 \<or> b = -1" by linarith
  then show ?thesis using assms(1) by (auto simp: int_bounds signed_divide_int_def mult_sgn_abs)
next
  case False
  then have b: "2 \<le> \<bar>b\<bar>" using assms(3) by linarith
  have "\<bar>a sdiv b\<bar> = \<bar>a\<bar> div \<bar>b\<bar> \<or> a sdiv b = 0"
    by (auto simp: signed_divide_int_def sgn_if abs_mult pos_imp_zdiv_nonneg_iff)
  moreover have "\<bar>a\<bar> div \<bar>b\<bar> \<le> \<bar>a\<bar> div 2" using b by (intro zdiv_mono2) auto
  ultimately have "\<bar>a sdiv b\<bar> \<le> \<bar>a\<bar> div 2" by auto
  then show ?thesis using assms(1) b by (auto simp: int_bounds)
qed

lemma smod_range:
  assumes "i64_in_range b" and "b \<noteq> 0"
  shows "i64_in_range (a smod b)"
  using smod_int_range [OF assms(2), of a] assms(1) by (auto simp: range_bounds)

definition binary_outcome :: "binary_op \<Rightarrow> bool \<Rightarrow> int \<Rightarrow> int \<Rightarrow> int \<Rightarrow> int_outcome" where
  "binary_outcome op b l r out = (case op of
       BO_Add \<Rightarrow> ku_int_add b l r out
     | BO_Subtract \<Rightarrow> ku_int_sub b l r out
     | BO_Multiply \<Rightarrow> ku_int_mul l r out
     | BO_Divide \<Rightarrow> ku_int_div l r out
     | BO_Remainder \<Rightarrow> ku_int_rem l r out
     | _ \<Rightarrow> None)"

text \<open>How the emitted code maps a status to the result of the operation.\<close>

definition native_result :: "span \<Rightarrow> int \<Rightarrow> int_outcome \<Rightarrow> (ku_error, 'env value_t) result option" where
  "native_result sp out r = (case r of
       None \<Rightarrow> None
     | Some (KU_INT_OK, v) \<Rightarrow> Some (Inr (V_Int (of_int v)))
     | Some (KU_INT_OVERFLOW, v) \<Rightarrow> if v = out then Some (rerr (overflow_error sp)) else None
     | Some (KU_INT_DIV_ZERO, v) \<Rightarrow> if v = out then Some (rerr (zero_error sp)) else None)"

definition integer_op :: "binary_op \<Rightarrow> bool" where
  "integer_op op \<longleftrightarrow> op \<in> {BO_Add, BO_Subtract, BO_Multiply, BO_Divide, BO_Remainder}"

lemma sint_zero_iff: "sint w = 0 \<longleftrightarrow> w = 0" for w :: i64
  by (metis signed_0 signed_of_int sint_sbintrunc' signed_eq_0_iff)

lemma native_exact: "native_result sp out (exact_outcome x out) = Some (int_result sp (i64_checked x))"
  by (simp add: native_result_def exact_outcome_def int_result_def i64_checked_def)

text \<open>C31: The compiled arithmetic is the interpreted arithmetic. For any two integers, either
  preprocessor path and any prior contents of the output cell, the emitted C helper has no undefined
  behaviour, leaves the output cell untouched on failure, and reports exactly the value, the overflow
  or the division by zero that the interpreter computes for the same operator.\<close>

theorem native_arithmetic_agrees:
  assumes "integer_op op"
  shows "native_result sp out (binary_outcome op use_builtins (sint a) (sint b) out)
    = Some (eval_binary now reserve op (V_Int a) (V_Int b) sp)"
proof -
  note rng = i64_sint_range [of a] i64_sint_range [of b]
  have bin: "eval_binary now reserve op (V_Int a) (V_Int b) sp = eval_binary_owned now op (V_Int a) (V_Int b) sp"
    by (simp add: eval_binary_def is_borrowed_def)
  have div: "ku_int_div (sint a) (sint b) out = (if b = 0 then Some (KU_INT_DIV_ZERO, out) else exact_outcome (sint a sdiv sint b) out)"
    using sdiv_range_iff [OF rng] by (auto simp: ku_int_div_def exact_outcome_def c_div_def c_value_def store_def sint_zero_iff)
  have rem: "ku_int_rem (sint a) (sint b) out = (if b = 0 then Some (KU_INT_DIV_ZERO, out)
      else if sint a = INT64_MIN \<and> sint b = -1 then Some (KU_INT_OVERFLOW, out) else exact_outcome (sint a smod sint b) out)"
    using sdiv_range_iff [OF rng] smod_range [OF rng(2), of "sint a"]
    by (auto simp: ku_int_rem_def exact_outcome_def c_rem_def c_value_def store_def sint_zero_iff)
  from assms show ?thesis
    unfolding bin integer_op_def
    by (auto simp: binary_outcome_def eval_binary_owned_def numeric_def ku_int_add_exact ku_int_sub_exact ku_int_mul_exact
        rng native_exact checked_add_def checked_sub_def checked_mul_def checked_div_def checked_rem_def div rem)
      (auto simp: native_result_def int_result_def)
qed

theorem native_arithmetic_agrees_witness:
  "native_result Span_default 7 (ku_int_div (sint (1 :: i64)) (sint (0 :: i64)) 7)
     = Some (eval_binary \<lparr>ow_thread = 0, ow_task = 0\<rparr> (\<lambda>_. True) BO_Divide (V_Int 1 :: unit value_t) (V_Int 0) Span_default)"
  using native_arithmetic_agrees [of BO_Divide Span_default 7 True 1 0 "\<lparr>ow_thread = 0, ow_task = 0\<rparr>" "\<lambda>_. True"]
  by (simp add: integer_op_def binary_outcome_def)

end
