(* ===== verification/Budgets.thy ===== *)
theory Budgets
  imports Rust_Format Span_Error
begin

text \<open>
  The resource ledgers of the compiler: the construction budget of IR lowering
  (\<open>src/src/ir/budget.rs\<close>), the bounded buffer of the generated C file (\<open>src/src/backend/c_output.rs\<close>)
  and the budget of the capture analysis (\<open>src/src/runtime/interpreter.rs\<close>). The first two are sticky:
  the first failure is kept and every later request reports it. The locale \<open>sticky_meter\<close> states that
  contract once; both ledgers are instances.
\<close>

section \<open>Sticky meters\<close>

text \<open>A sequence of requests: the report of each and the state after the last.\<close>

primrec serve :: "('op \<Rightarrow> 's \<Rightarrow> 'e option \<times> 's) \<Rightarrow> 'op list \<Rightarrow> 's \<Rightarrow> 'e option list \<times> 's" where
  "serve request [] s = ([], s)"
| "serve request (r # rs) s = (let (e, s') = request r s; (es, s'') = serve request rs s' in (e # es, s''))"

locale sticky_meter =
  fixes failure :: "'s \<Rightarrow> 'e option"
    and used :: "'s \<Rightarrow> nat"
    and limit :: "'s \<Rightarrow> nat"
    and request :: "'op \<Rightarrow> 's \<Rightarrow> 'e option \<times> 's"
  assumes sticky: "failure s = Some e \<Longrightarrow> request r s = (Some e, s)"
    and reported: "failure s = None \<Longrightarrow> request r s = (x, s') \<Longrightarrow> failure s' = x"
    and grows: "failure s = None \<Longrightarrow> used s \<le> limit s \<Longrightarrow> request r s = (None, s') \<Longrightarrow>
      used s \<le> used s' \<and> used s' \<le> limit s'"
    and rejects: "failure s = None \<Longrightarrow> request r s = (Some e, s') \<Longrightarrow> used s' = used s"
    and keeps_limit: "request r s = (x, s') \<Longrightarrow> limit s' = limit s"
begin

text \<open>Within the limit, growing, and after the first failure nothing changes any more.\<close>

lemma serve_used:
  "used s \<le> limit s \<Longrightarrow> serve request rs s = (es, s') \<Longrightarrow> used s \<le> used s' \<and> used s' \<le> limit s' \<and> limit s' = limit s"
proof (induction rs arbitrary: s es)
  case (Cons r rs)
  obtain e s1 where r: "request r s = (e, s1)" by fastforce
  with Cons.prems obtain es1 where rest: "serve request rs s1 = (es1, s')" by (auto simp: Let_def split: prod.splits)
  have "used s \<le> used s1 \<and> used s1 \<le> limit s1 \<and> limit s1 = limit s"
  proof (cases "failure s")
    case None
    then show ?thesis using grows [OF None Cons.prems(1), of r s1] rejects [OF None, of r _ s1] keeps_limit [OF r] r Cons.prems(1)
      by (cases e) auto
  next
    case (Some x)
    then show ?thesis using sticky [OF Some, of r] r Cons.prems(1) by simp
  qed
  then show ?case using Cons.IH [OF _ rest] by auto
qed simp

lemma serve_failed: "failure s = Some e \<Longrightarrow> serve request rs s = (replicate (length rs) (Some e), s)"
  by (induction rs) (simp_all add: sticky)

text \<open>The reports are successes up to the first failure and that failure from then on.\<close>

lemma serve_reports:
  "failure s = None \<Longrightarrow> serve request rs s = (es, s') \<Longrightarrow>
   \<exists>n. es = replicate n None @ replicate (length rs - n) (failure s') \<and> n \<le> length rs \<and> (failure s' = None \<longrightarrow> n = length rs)"
proof (induction rs arbitrary: s es)
  case Nil
  then show ?case by auto
next
  case (Cons r rs)
  obtain e s1 where r: "request r s = (e, s1)" by fastforce
  with Cons.prems obtain es1 where rest: "serve request rs s1 = (es1, s')" "es = e # es1" by (auto simp: Let_def split: prod.splits)
  have f: "failure s1 = e" using reported [OF Cons.prems(1) r] .
  show ?case
  proof (cases e)
    case None
    with Cons.IH [OF _ rest(1)] f obtain n where "es1 = replicate n None @ replicate (length rs - n) (failure s')"
      "n \<le> length rs" "failure s' = None \<longrightarrow> n = length rs" by auto
    then show ?thesis using rest(2) None by (intro exI [of _ "Suc n"]) auto
  next
    case (Some x)
    with serve_failed [of s1 x rs] f rest show ?thesis by (intro exI [of _ 0]) auto
  qed
qed

end

section \<open>The lowering budget\<close>

record lower_limits =
  max_blocks_per_function :: nat
  max_instructions_per_block :: nat
  max_work :: nat

definition LowerLimits_default :: lower_limits where
  "LowerLimits_default = \<lparr>max_blocks_per_function = 10000, max_instructions_per_block = 10000, max_work = 262144\<rparr>"

record lower_budget =
  lb_limits :: lower_limits
  lb_used :: nat
  lb_failure :: "ku_error option"

definition LowerBudget_new :: "lower_limits \<Rightarrow> lower_budget" where
  "LowerBudget_new limits = \<lparr>lb_limits = limits, lb_used = 0, lb_failure = None\<rparr>"

text \<open>The error a call returns, if any, and the state after it.\<close>

definition lb_fail :: "string \<Rightarrow> span \<Rightarrow> lower_budget \<Rightarrow> ku_error option \<times> lower_budget" where
  "lb_fail message sp b = (case lb_failure b of
       Some e \<Rightarrow> (Some e, b)
     | None \<Rightarrow>
         let e = runtime_error (lit ''IR lowering limit: '' @ lit message) sp
         in (Some e, b\<lparr>lb_failure := Some e\<rparr>))"

definition lb_spend :: "nat \<Rightarrow> span \<Rightarrow> lower_budget \<Rightarrow> ku_error option \<times> lower_budget" where
  "lb_spend amount sp b = (case lb_failure b of
       Some e \<Rightarrow> (Some e, b)
     | None \<Rightarrow>
         if lb_used b + amount \<le> usize_MAX \<and> lb_used b + amount \<le> max_work (lb_limits b)
         then (None, b\<lparr>lb_used := lb_used b + amount\<rparr>)
         else lb_fail ''expanded work exhausted'' sp b)"

definition lb_block :: "nat \<Rightarrow> span \<Rightarrow> lower_budget \<Rightarrow> ku_error option \<times> lower_budget" where
  "lb_block admitted sp b = (case lb_failure b of
       Some e \<Rightarrow> (Some e, b)
     | None \<Rightarrow>
         if max_blocks_per_function (lb_limits b) \<le> admitted \<or> admitted = usize_MAX
         then lb_fail ''function block count exhausted'' sp b
         else lb_spend 1 sp b)"

definition lb_finish_block :: "nat \<Rightarrow> span \<Rightarrow> lower_budget \<Rightarrow> ku_error option \<times> lower_budget" where
  "lb_finish_block finalized sp b = (case lb_failure b of
       Some e \<Rightarrow> (Some e, b)
     | None \<Rightarrow>
         if max_blocks_per_function (lb_limits b) \<le> finalized
         then lb_fail ''function block count exhausted'' sp b
         else (None, b))"

definition lb_instruction :: "nat \<Rightarrow> span \<Rightarrow> lower_budget \<Rightarrow> ku_error option \<times> lower_budget" where
  "lb_instruction current sp b = (case lb_failure b of
       Some e \<Rightarrow> (Some e, b)
     | None \<Rightarrow>
         if max_instructions_per_block (lb_limits b) \<le> current
         then lb_fail ''block instruction count exhausted'' sp b
         else lb_spend 1 sp b)"

datatype lower_request = LR_Spend nat span | LR_Block nat span | LR_FinishBlock nat span | LR_Instruction nat span

fun lower_step :: "lower_request \<Rightarrow> lower_budget \<Rightarrow> ku_error option \<times> lower_budget" where
  "lower_step (LR_Spend n sp) b = lb_spend n sp b"
| "lower_step (LR_Block n sp) b = lb_block n sp b"
| "lower_step (LR_FinishBlock n sp) b = lb_finish_block n sp b"
| "lower_step (LR_Instruction n sp) b = lb_instruction n sp b"

lemmas lb_defs = lb_spend_def lb_block_def lb_finish_block_def lb_instruction_def lb_fail_def Let_def

interpretation lowering: sticky_meter lb_failure lb_used "\<lambda>b. max_work (lb_limits b)" lower_step
proof unfold_locales
  fix s e r x s'
  show "lb_failure s = Some e \<Longrightarrow> lower_step r s = (Some e, s)" by (cases r) (simp_all add: lb_defs)
  show "lb_failure s' = x" if "lb_failure s = None" "lower_step r s = (x, s')"
    using that by (cases r) (auto simp: lb_defs split: if_splits)
  show "lb_used s \<le> lb_used s' \<and> lb_used s' \<le> max_work (lb_limits s')"
    if "lb_failure s = None" "lb_used s \<le> max_work (lb_limits s)" "lower_step r s = (None, s')"
    using that by (cases r) (auto simp: lb_defs split: if_splits)
  show "lb_used s' = lb_used s" if "lb_failure s = None" "lower_step r s = (Some e, s')"
    using that by (cases r) (auto simp: lb_defs split: if_splits)
  show "max_work (lb_limits s') = max_work (lb_limits s)" if "lower_step r s = (x, s')"
    using that by (cases r) (auto simp: lb_defs split: if_splits option.splits)
qed

section \<open>The C output buffer\<close>

datatype output_failure = OF_Limit | OF_Allocation

record c_output =
  co_text :: ustring
  co_capacity :: nat
  co_limit :: nat
  co_failure :: "output_failure option"

definition checked_length :: "nat \<Rightarrow> nat \<Rightarrow> nat \<Rightarrow> nat option" where
  "checked_length current additional limit =
     (if current + additional \<le> usize_MAX \<and> current + additional \<le> limit then Some (current + additional) else None)"

definition COutput_new :: "nat \<Rightarrow> c_output" where
  "COutput_new limit = \<lparr>co_text = [], co_capacity = 0, co_limit = limit, co_failure = None\<rparr>"

definition co_remaining :: "c_output \<Rightarrow> nat" where
  "co_remaining out = co_limit out - str_len (co_text out)"

definition co_failed :: "c_output \<Rightarrow> bool" where
  "co_failed out \<longleftrightarrow> co_failure out \<noteq> None"

text \<open>\<open>alloc n\<close> is the capacity after reserving up to \<open>n\<close> bytes, or nothing when the allocator refuses.\<close>

definition co_push_str :: "(nat \<Rightarrow> nat option) \<Rightarrow> ustring \<Rightarrow> c_output \<Rightarrow> c_output" where
  "co_push_str alloc t out =
     (if co_failed out then out
      else case checked_length (str_len (co_text out)) (str_len t) (co_limit out) of
        None \<Rightarrow> out\<lparr>co_failure := Some OF_Limit\<rparr>
      | Some len \<Rightarrow>
          if co_capacity out < len then
            (let capacity = max (min (min usize_MAX (max (co_capacity out) 1024 * 2)) (co_limit out)) len in
             case alloc capacity of
               None \<Rightarrow> out\<lparr>co_failure := Some OF_Allocation\<rparr>
             | Some cap \<Rightarrow> out\<lparr>co_text := co_text out @ t, co_capacity := cap\<rparr>)
          else out\<lparr>co_text := co_text out @ t\<rparr>)"

definition co_push :: "(nat \<Rightarrow> nat option) \<Rightarrow> uchar \<Rightarrow> c_output \<Rightarrow> c_output" where
  "co_push alloc c out = co_push_str alloc [c] out"

definition message_error :: "ustring \<Rightarrow> ku_error" where
  "message_error m = KuError_new KE_Runtime m Span_default"

definition co_check :: "c_output \<Rightarrow> ku_error option" where
  "co_check out = (case co_failure out of
       None \<Rightarrow> None
     | Some OF_Limit \<Rightarrow> Some (message_error (lit ''native C output limit exceeded: maximum ''
         @ nat_to_string (co_limit out) @ lit '' bytes''))
     | Some OF_Allocation \<Rightarrow> Some (message_error (lit ''native C output allocation failed'')))"

definition co_finish :: "c_output \<Rightarrow> ku_error + ustring" where
  "co_finish out = (case co_check out of Some e \<Rightarrow> Inl e | None \<Rightarrow> Inr (co_text out))"

text \<open>A write followed by a look at the failure.\<close>

definition co_request :: "(nat \<Rightarrow> nat option) \<Rightarrow> ustring \<Rightarrow> c_output \<Rightarrow> output_failure option \<times> c_output" where
  "co_request alloc t out = (co_failure (co_push_str alloc t out), co_push_str alloc t out)"

lemmas co_defs = co_push_str_def co_failed_def checked_length_def Let_def

interpretation c_buffer: sticky_meter co_failure "\<lambda>out. str_len (co_text out)" co_limit "co_request alloc" for alloc
  by unfold_locales (auto simp: co_request_def co_defs split: option.splits if_splits)

text \<open>Where the writes end, from a state without failure.\<close>

lemma co_failed_writes: "co_failed out \<Longrightarrow> fold (co_push_str alloc) ts out = out"
  by (induction ts) (simp_all add: co_push_str_def)

lemma co_writes:
  "\<not> co_failed out \<Longrightarrow> str_len (co_text out) \<le> co_limit out \<Longrightarrow>
   (let out' = fold (co_push_str alloc) ts out; total = str_len (co_text out @ concat ts) in
    co_limit out' = co_limit out \<and>
    (case co_failure out' of
       None \<Rightarrow> co_text out' = co_text out @ concat ts \<and> total \<le> co_limit out
     | Some OF_Limit \<Rightarrow> co_limit out < total \<or> usize_MAX < total
     | Some OF_Allocation \<Rightarrow> \<exists>n. alloc n = None))"
proof (induction ts arbitrary: out)
  case (Cons t ts)
  define out1 where "out1 = co_push_str alloc t out"
  have step: "co_limit out1 = co_limit out \<and>
    (case co_failure out1 of
       None \<Rightarrow> co_text out1 = co_text out @ t \<and> str_len (co_text out1) \<le> co_limit out
     | Some OF_Limit \<Rightarrow> co_limit out < str_len (co_text out @ t) \<or> usize_MAX < str_len (co_text out @ t)
     | Some OF_Allocation \<Rightarrow> \<exists>n. alloc n = None)"
    using Cons.prems by (auto simp: out1_def co_defs not_le split: option.splits)
  show ?case
  proof (cases "co_failure out1")
    case None
    with step have "\<not> co_failed out1" "str_len (co_text out1) \<le> co_limit out1" "co_text out1 = co_text out @ t"
      "co_limit out1 = co_limit out"
      by (auto simp: co_failed_def)
    with Cons.IH [of out1] show ?thesis
      by (auto simp: Let_def simp flip: out1_def split: option.splits output_failure.splits)
  next
    case (Some f)
    then have "fold (co_push_str alloc) ts out1 = out1" by (simp add: co_failed_writes co_failed_def)
    with step Some show ?thesis by (cases f) (auto simp: Let_def simp flip: out1_def)
  qed
qed (simp add: co_failed_def Let_def)

section \<open>The capture budget\<close>

definition MAX_CAPTURE_SCAN_DEPTH :: nat where
  "MAX_CAPTURE_SCAN_DEPTH = 128"

definition MAX_CAPTURE_SCAN_WORK :: nat where
  "MAX_CAPTURE_SCAN_WORK = 262144"

definition MAX_CAPTURE_TEMPLATE_BYTES :: nat where
  "MAX_CAPTURE_TEMPLATE_BYTES = 1048576"

record capture_budget =
  remaining_work :: nat
  remaining_template_bytes :: nat

definition CaptureScanBudget_new :: capture_budget where
  "CaptureScanBudget_new = \<lparr>remaining_work = MAX_CAPTURE_SCAN_WORK, remaining_template_bytes = MAX_CAPTURE_TEMPLATE_BYTES\<rparr>"

definition cb_spend :: "nat \<Rightarrow> span \<Rightarrow> capture_budget \<Rightarrow> ku_error + capture_budget" where
  "cb_spend amount sp b =
     (if amount \<le> remaining_work b then Inr (b\<lparr>remaining_work := remaining_work b - amount\<rparr>)
      else Inl (runtime_error (lit ''capture analysis limit: work budget exhausted'') sp))"

definition cb_enter :: "nat \<Rightarrow> span \<Rightarrow> capture_budget \<Rightarrow> ku_error + capture_budget" where
  "cb_enter depth sp b =
     (if MAX_CAPTURE_SCAN_DEPTH \<le> depth
      then Inl (runtime_error (lit ''capture analysis limit: nesting depth exceeded'') sp)
      else cb_spend 1 sp b)"

definition cb_clone_scope :: "ustring set \<Rightarrow> span \<Rightarrow> capture_budget \<Rightarrow> ku_error + (ustring set \<times> capture_budget)" where
  "cb_clone_scope bound sp b = map_sum id (\<lambda>b'. (bound, b')) (cb_spend (card bound) sp b)"

definition cb_template :: "ustring \<Rightarrow> span \<Rightarrow> capture_budget \<Rightarrow> ku_error + capture_budget" where
  "cb_template raw sp b =
     (if str_len raw \<le> remaining_template_bytes b
      then Inr (b\<lparr>remaining_template_bytes := remaining_template_bytes b - str_len raw\<rparr>)
      else Inl (runtime_error (lit ''capture analysis limit: template byte budget exhausted'') sp))"

section \<open>Properties\<close>


text \<open>C33: The generated C file is never truncated. Whatever texts are written to a new buffer, \<open>finish\<close>
  returns their whole concatenation, within the limit; or it reports the limit, and then the texts
  exceed it (or no \<open>usize\<close> can hold their length); or it reports the allocator, and then the allocator
  refused some request.\<close>

theorem c_output_complete:
  "case co_finish (fold (co_push_str alloc) ts (COutput_new limit)) of
     Inr file \<Rightarrow> file = concat ts \<and> str_len file \<le> limit
   | Inl e \<Rightarrow>
       e = message_error (lit ''native C output limit exceeded: maximum '' @ nat_to_string limit @ lit '' bytes'')
         \<and> min limit usize_MAX < str_len (concat ts)
       \<or> e = message_error (lit ''native C output allocation failed'') \<and> (\<exists>n. alloc n = None)"
proof -
  let ?out = "fold (co_push_str alloc) ts (COutput_new limit)"
  have "co_limit ?out = limit \<and>
    (case co_failure ?out of
       None \<Rightarrow> co_text ?out = concat ts \<and> str_len (concat ts) \<le> limit
     | Some OF_Limit \<Rightarrow> limit < str_len (concat ts) \<or> usize_MAX < str_len (concat ts)
     | Some OF_Allocation \<Rightarrow> \<exists>n. alloc n = None)"
    using co_writes [of "COutput_new limit" alloc ts] 
    by (auto simp: COutput_new_def co_failed_def Let_def split: option.splits output_failure.splits)
  then show ?thesis
    by (auto simp: co_finish_def co_check_def split: option.splits output_failure.splits)
qed

end
