(* ===== verification/Match_Scratch.thy ===== *)
theory Match_Scratch
  imports Value_Walk Front_End
begin

text \<open>
  The scratch buffers of the traversals over match patterns (\<open>src/src/runtime/interpreter.rs\<close>,
  \<open>reserve_match_scratch\<close> and \<open>match_scratch_bytes\<close>). A buffer is given by its length and its
  capacity; the element size and the allocator are parameters. Two buffers may share the budget: the
  second one gives its bytes as \<open>other_bytes\<close>.
\<close>

record scratch_env =
  se_elem_bytes :: nat
  se_alloc :: "nat \<Rightarrow> nat option"

definition MATCH_SCRATCH_BYTES :: nat where
  "MATCH_SCRATCH_BYTES = 2 * 1024 * 1024"

definition match_limit_error :: "span \<Rightarrow> ku_error" where
  "match_limit_error sp = runtime_error (lit ''match traversal scratch budget exhausted'') sp"

definition match_memory_error :: "span \<Rightarrow> ku_error" where
  "match_memory_error sp = runtime_error (lit ''match traversal scratch out of memory'') sp"

definition reserve_match_scratch :: "scratch_env \<Rightarrow> nat \<Rightarrow> nat \<Rightarrow> nat \<Rightarrow> span \<Rightarrow> ku_error + nat" where
  "reserve_match_scratch env len cap other_bytes sp =
     (if MATCH_SCRATCH_BYTES < other_bytes then Inl (match_limit_error sp)
      else let limit = (MATCH_SCRATCH_BYTES - other_bytes) div se_elem_bytes env in
      if usize_MAX < len + 1 then Inl (match_limit_error sp)
      else let required = len + 1 in
      if limit < cap \<or> limit < required then Inl (match_limit_error sp)
      else if required \<le> cap then Inr cap
      else let available = limit - cap in
      if available < required then Inl (match_limit_error sp)
      else let target = min (max (min usize_MAX (cap * 2)) required) available in
      case se_alloc env target of
        None \<Rightarrow> Inl (match_memory_error sp)
      | Some replacement \<Rightarrow>
          if available < replacement then Inl (match_limit_error sp) else Inr replacement)"

definition match_scratch_bytes :: "scratch_env \<Rightarrow> nat \<Rightarrow> span \<Rightarrow> ku_error + nat" where
  "match_scratch_bytes env cap sp =
     (if cap * se_elem_bytes env \<le> usize_MAX then Inr (cap * se_elem_bytes env) else Inl (match_limit_error sp))"

text \<open>Errors of the scratch buffers.\<close>

definition match_scratch_error :: "span \<Rightarrow> ku_error \<Rightarrow> bool" where
  "match_scratch_error sp e \<longleftrightarrow> e = match_limit_error sp \<or> e = match_memory_error sp"

lemma reserve_match_error: "reserve_match_scratch env len cap other sp = Inl e \<Longrightarrow> match_scratch_error sp e"
  by (auto simp: reserve_match_scratch_def match_scratch_error_def Let_def split: if_splits option.splits)

lemma match_bytes_error: "match_scratch_bytes env cap sp = Inl e \<Longrightarrow> match_scratch_error sp e"
  by (auto simp: match_scratch_bytes_def match_scratch_error_def split: if_splits)

text \<open>With an allocator that serves the requests of the code exactly, a buffer of \<open>len\<close> elements can
  grow as long as the old and the new backing store fit together.\<close>

definition exact_scratch :: "scratch_env \<Rightarrow> bool" where
  "exact_scratch env \<longleftrightarrow> se_alloc env = Some"

lemma reserve_match_ok:
  assumes "exact_scratch env" and "len \<le> cap" and "other \<le> MATCH_SCRATCH_BYTES"
    and "cap \<le> (MATCH_SCRATCH_BYTES - other) div se_elem_bytes env"
    and "2 * len + 1 \<le> (MATCH_SCRATCH_BYTES - other) div se_elem_bytes env"
  shows "\<exists>cap'. reserve_match_scratch env len cap other sp = Inr cap' \<and> Suc len \<le> cap'
           \<and> cap' \<le> (MATCH_SCRATCH_BYTES - other) div se_elem_bytes env"
proof -
  let ?limit = "(MATCH_SCRATCH_BYTES - other) div se_elem_bytes env"
  have "?limit \<le> MATCH_SCRATCH_BYTES" using div_le_dividend [of "MATCH_SCRATCH_BYTES - other"] by (rule order_trans) simp
  moreover have "MATCH_SCRATCH_BYTES \<le> usize_MAX" by (simp add: MATCH_SCRATCH_BYTES_def usize_MAX_def)
  ultimately have "?limit \<le> usize_MAX" by simp
  with assms show ?thesis
    by (cases "len < cap") (auto simp: reserve_match_scratch_def Let_def exact_scratch_def min_le_iff_disj)
qed

end
