(* ===== verification/Capture.thy ===== *)
theory Capture
  imports Match_Scratch Budgets Stdlib
begin

text \<open>
  The capture analysis of closures (\<open>src/src/runtime/interpreter.rs\<close>, \<open>function_capture_names\<close> to
  \<open>bind_match_pattern_names\<close>): one walk over a function body that threads the bound names downwards,
  collects the names that are read or assigned while unbound, and lexes and parses the
  interpolations of template strings on the way. The walk is metered: work, template bytes and nesting.

  The collectors of expressions and statements call each other and, through templates, themselves on
  freshly parsed trees. Each body takes the collectors as arguments, with the depth first; \<open>collect_expr\<close>
  and \<open>collect_stmt\<close> tie the knot with fuel, and the metered depth makes the fuel irrelevant:
  \<open>collect_free_expr\<close> and \<open>collect_free_stmt\<close> satisfy the equations of the source at every depth.

  The reference is the textbook definition of free names, computed upwards from the leaves.
\<close>

definition MAX_CAPTURE_TEMPLATE_TOKENS :: nat where
  "MAX_CAPTURE_TEMPLATE_TOKENS = 1024"

record capture_state =
  cs_free :: "ustring set"
  cs_budget :: capture_budget

type_synonym 'a capture = "(capture_state, ku_error, 'a) sm"

section \<open>Metered steps\<close>

definition metered :: "(capture_budget \<Rightarrow> ku_error + ('a \<times> capture_budget)) \<Rightarrow> 'a capture" where
  "metered f s = (case f (cs_budget s) of Inl e \<Rightarrow> Inl (Raise e) | Inr (x, b) \<Rightarrow> Inr (x, s\<lparr>cs_budget := b\<rparr>))"

definition spend :: "nat \<Rightarrow> span \<Rightarrow> unit capture" where
  "spend n sp = metered (\<lambda>b. map_sum id (Pair ()) (cb_spend n sp b))"

definition enter_scan :: "nat \<Rightarrow> span \<Rightarrow> unit capture" where
  "enter_scan depth sp = metered (\<lambda>b. map_sum id (Pair ()) (cb_enter depth sp b))"

definition clone_scope :: "ustring set \<Rightarrow> span \<Rightarrow> ustring set capture" where
  "clone_scope bound sp = metered (cb_clone_scope bound sp)"

definition spend_template :: "ustring \<Rightarrow> span \<Rightarrow> unit capture" where
  "spend_template raw sp = metered (\<lambda>b. map_sum id (Pair ()) (cb_template raw sp b))"

definition note_free :: "ustring \<Rightarrow> ustring set \<Rightarrow> unit capture" where
  "note_free name bound = (if name \<in> bound then sreturn () else smodify (\<lambda>s. s\<lparr>cs_free := insert name (cs_free s)\<rparr>))"

text \<open>A \<open>for\<close> loop over a list of subtrees.\<close>

fun each :: "('b \<Rightarrow> 'a capture) \<Rightarrow> 'b list \<Rightarrow> unit capture" where
  "each f [] = sreturn ()"
| "each f (x # xs) = sbind (f x) (\<lambda>_. each f xs)"

text \<open>A \<open>for\<close> loop that updates the bound names.\<close>

fun thread :: "('b \<Rightarrow> ustring set \<Rightarrow> ustring set capture) \<Rightarrow> 'b list \<Rightarrow> ustring set \<Rightarrow> ustring set capture" where
  "thread f [] bound = sreturn bound"
| "thread f (x # xs) bound = sbind (f x bound) (thread f xs)"

section \<open>Match patterns\<close>

fun next_pattern :: "(match_pattern list \<times> nat) list \<Rightarrow> ((match_pattern \<times> nat) \<times> (match_pattern list \<times> nat) list) option" where
  "next_pattern [] = None"
| "next_pattern (([], d) # as) = next_pattern as"
| "next_pattern ((p # ps, d) # as) = Some ((p, d), (ps, d) # as)"

definition frames_size :: "(match_pattern list \<times> nat) list \<Rightarrow> nat" where
  "frames_size as = sum_list (map (\<lambda>(ps, _). size_list size ps) as)"

lemma next_pattern_size:
  "next_pattern as = Some ((p, d), as') \<Longrightarrow> frames_size as = Suc (size p) + frames_size as'"
  by (induction as rule: next_pattern.induct) (auto simp: frames_size_def)

definition reserve_capture :: "scratch_env \<Rightarrow> nat \<Rightarrow> nat \<Rightarrow> span \<Rightarrow> nat capture" where
  "reserve_capture env len cap sp = sresult (reserve_match_scratch env len cap 0 sp)"

function bind_pattern_loop ::
    "scratch_env \<Rightarrow> span \<Rightarrow> match_pattern \<Rightarrow> nat \<Rightarrow> (match_pattern list \<times> nat) list \<Rightarrow> nat \<Rightarrow> ustring set \<Rightarrow> ustring set capture" where
  "bind_pattern_loop env sp p depth ancestors cap bound =
     sbind (enter_scan depth sp) (\<lambda>_.
     sbind (case p of
         MP_EnumVariant _ _ fs \<Rightarrow>
           if fs \<noteq> [] then reserve_capture env (length ancestors) cap sp
           else sreturn cap
       | _ \<Rightarrow> sreturn cap) (\<lambda>cap'.
     let bound' = (case p of MP_Binding name \<Rightarrow> insert name bound | _ \<Rightarrow> bound);
         ancestors' = (case p of
             MP_EnumVariant _ _ fs \<Rightarrow> if fs \<noteq> [] then (fs, depth + 1) # ancestors else ancestors
           | _ \<Rightarrow> ancestors)
     in case next_pattern ancestors' of
          None \<Rightarrow> sreturn bound'
        | Some ((child, d), as) \<Rightarrow> bind_pattern_loop env sp child d as cap' bound'))"
  by pat_completeness auto
termination
proof (relation "measure (\<lambda>(env, sp, p, depth, as, cap, bound). size p + frames_size as)", goal_cases)
  case 1
  then show ?case by simp
next
  case (2 env sp p depth ancestors cap bound)
  then show ?case
    by (auto dest!: next_pattern_size simp: frames_size_def split: match_pattern.splits if_splits)
qed

declare bind_pattern_loop.simps [simp del]

definition bind_match_pattern_names :: "scratch_env \<Rightarrow> match_pattern \<Rightarrow> ustring set \<Rightarrow> nat \<Rightarrow> span \<Rightarrow> ustring set capture" where
  "bind_match_pattern_names env p bound depth sp = bind_pattern_loop env sp p depth [] 0 bound"

section \<open>Templates\<close>

text \<open>The outer scan: what follows the next unescaped opening brace.\<close>

fun find_interpolation :: "ustring \<Rightarrow> ustring option" where
  "find_interpolation [] = None"
| "find_interpolation (c # cs) =
     (if c = ch CHR 0x5C then (case cs of [] \<Rightarrow> None | _ # cs' \<Rightarrow> find_interpolation cs')
      else if c = ch CHR 0x7B then Some cs
      else find_interpolation cs)"

text \<open>The inner scan: the source up to the next unescaped closing brace and what follows it.\<close>

fun take_interpolation :: "ustring \<Rightarrow> ustring \<Rightarrow> (ustring \<times> ustring) option" where
  "take_interpolation source [] = None"
| "take_interpolation source (c # cs) =
     (if c = ch CHR 0x5C then
        (case cs of [] \<Rightarrow> None | c' # cs' \<Rightarrow> take_interpolation (source @ [c, c']) cs')
      else if c = ch CHR 0x7D then Some (source, cs)
      else take_interpolation (source @ [c]) cs)"

lemma find_interpolation_length: "find_interpolation cs = Some r \<Longrightarrow> length r < length cs"
  by (induction cs rule: find_interpolation.induct) (auto split: if_splits list.splits)

lemma take_interpolation_length: "take_interpolation acc cs = Some (source, rest) \<Longrightarrow> length rest < length cs"
  by (induction acc cs rule: take_interpolation.induct) (auto split: if_splits list.splits)

definition interpolation :: "(nat \<Rightarrow> expr \<Rightarrow> unit capture) \<Rightarrow> span \<Rightarrow> nat \<Rightarrow> ustring \<Rightarrow> unit capture" where
  "interpolation visitor sp depth source =
     (if trim_text source = [] then sraise (runtime_error (lit ''empty template interpolation'') sp)
      else case lex source of
        Inl f \<Rightarrow> (\<lambda>s. Inl f)
      | Inr toks \<Rightarrow>
          if MAX_CAPTURE_TEMPLATE_TOKENS < length toks then
            sraise (parse_error (lit ''capture analysis limit: template token limit exceeded (too many tokens)'') sp)
          else sbind (spend (length toks) sp) (\<lambda>_.
            case parse_expression_only toks of
              Inl f \<Rightarrow> (\<lambda>s. Inl f)
            | Inr e \<Rightarrow> visitor (depth + 1) e))"

function template_loop :: "(nat \<Rightarrow> expr \<Rightarrow> unit capture) \<Rightarrow> span \<Rightarrow> nat \<Rightarrow> ustring \<Rightarrow> unit capture" where
  "template_loop visitor sp depth cs = (case find_interpolation cs of
       None \<Rightarrow> sreturn ()
     | Some inner \<Rightarrow> (case take_interpolation [] inner of
           None \<Rightarrow> sraise (runtime_error (lit ''unterminated template interpolation'') sp)
         | Some (source, rest) \<Rightarrow>
             sbind (interpolation visitor sp depth source) (\<lambda>_. template_loop visitor sp depth rest)))"
  by pat_completeness auto
termination
  by (relation "measure (\<lambda>(visitor, sp, depth, cs). length cs)")
    (auto dest!: find_interpolation_length take_interpolation_length)

declare template_loop.simps [simp del]

definition visit_template :: "(nat \<Rightarrow> expr \<Rightarrow> unit capture) \<Rightarrow> ustring \<Rightarrow> span \<Rightarrow> nat \<Rightarrow> unit capture" where
  "visit_template visitor raw sp depth =
     sbind (enter_scan depth sp) (\<lambda>_.
     sbind (spend_template raw sp) (\<lambda>_.
     template_loop visitor sp depth raw))"

section \<open>Expressions and statements\<close>

type_synonym expr_collector = "nat \<Rightarrow> expr \<Rightarrow> ustring set \<Rightarrow> unit capture"
type_synonym stmt_collector = "nat \<Rightarrow> stmt \<Rightarrow> ustring set \<Rightarrow> ustring set capture"

definition collect_free_template :: "expr_collector \<Rightarrow> ustring \<Rightarrow> span \<Rightarrow> ustring set \<Rightarrow> nat \<Rightarrow> unit capture" where
  "collect_free_template E raw sp bound depth = visit_template (\<lambda>d e. E d e bound) raw sp depth"

definition collect_free_block :: "stmt_collector \<Rightarrow> nat \<Rightarrow> stmt list \<Rightarrow> ustring set \<Rightarrow> ustring set capture" where
  "collect_free_block S depth body bound = thread (S depth) body bound"

definition collect_arm :: "scratch_env \<Rightarrow> expr_collector \<Rightarrow> nat \<Rightarrow> span \<Rightarrow> ustring set \<Rightarrow> match_arm \<Rightarrow> unit capture" where
  "collect_arm env E depth sp bound arm =
     sbind (clone_scope bound sp) (\<lambda>scope.
     sbind (bind_match_pattern_names env (ma_pattern arm) scope depth sp) (\<lambda>arm_bound.
     sbind (case ma_guard arm of None \<Rightarrow> sreturn () | Some guard \<Rightarrow> E depth guard arm_bound) (\<lambda>_.
     E depth (ma_value arm) arm_bound)))"

definition collect_expr_body :: "scratch_env \<Rightarrow> expr_collector \<Rightarrow> stmt_collector \<Rightarrow> expr_collector" where
  "collect_expr_body env E S depth0 expr bound =
     sbind (enter_scan depth0 (ex_span expr)) (\<lambda>_.
     let depth = depth0 + 1 in
     case ex_kind expr of
       EK_Variable name \<Rightarrow> note_free name bound
     | EK_Unary _ e \<Rightarrow> E depth e bound
     | EK_TryUnwrap e \<Rightarrow> E depth e bound
     | EK_Await e \<Rightarrow> E depth e bound
     | EK_Binary l _ r \<Rightarrow> sbind (E depth l bound) (\<lambda>_. E depth r bound)
     | EK_Call callee args \<Rightarrow> sbind (E depth callee bound) (\<lambda>_. each (\<lambda>e. E depth e bound) args)
     | EK_Array vs \<Rightarrow> each (\<lambda>e. E depth e bound) vs
     | EK_Index t i \<Rightarrow> sbind (E depth t bound) (\<lambda>_. E depth i bound)
     | EK_Field t _ \<Rightarrow> E depth t bound
     | EK_OptionalField t _ \<Rightarrow> E depth t bound
     | EK_StructLiteral _ fs \<Rightarrow> each (\<lambda>(_, e). E depth e bound) fs
     | EK_ObjectLiteral fs \<Rightarrow> each (\<lambda>(_, e). E depth e bound) fs
     | EK_Match v arms \<Rightarrow> sbind (E depth v bound) (\<lambda>_. each (collect_arm env E depth (ex_span expr) bound) arms)
     | EK_Function params _ body \<Rightarrow>
         sbind (clone_scope bound (ex_span expr)) (\<lambda>nested.
         sbind (spend (length params) (ex_span expr)) (\<lambda>_.
         sbind (collect_free_block S depth body (nested \<union> fp_name ` set params)) (\<lambda>_. sreturn ())))
     | EK_Literal (Lit_TemplateString raw) \<Rightarrow> collect_free_template E raw (ex_span expr) bound depth
     | EK_Literal _ \<Rightarrow> sreturn ())"

definition collect_free_assignment_name :: "ustring \<Rightarrow> span \<Rightarrow> ustring set \<Rightarrow> ustring set capture" where
  "collect_free_assignment_name name sp bound =
     sbind (spend 1 sp) (\<lambda>_. sbind (note_free name bound) (\<lambda>_. sreturn (insert name bound)))"

definition collect_free_assign_target :: "expr_collector \<Rightarrow> assign_target \<Rightarrow> ustring set \<Rightarrow> nat \<Rightarrow> span \<Rightarrow> unit capture" where
  "collect_free_assign_target E target bound depth0 sp =
     sbind (enter_scan depth0 sp) (\<lambda>_.
     let depth = depth0 + 1 in
     case target of
       AT_Variable name \<Rightarrow> note_free name bound
     | AT_Index t i \<Rightarrow> sbind (E depth t bound) (\<lambda>_. E depth i bound)
     | AT_Field t _ \<Rightarrow> E depth t bound)"

definition assign_optional :: "ustring option \<Rightarrow> span \<Rightarrow> ustring set \<Rightarrow> ustring set capture" where
  "assign_optional name sp bound =
     (case name of None \<Rightarrow> sreturn bound | Some n \<Rightarrow> collect_free_assignment_name n sp bound)"

definition collect_object_binding :: "expr_collector \<Rightarrow> nat \<Rightarrow> span \<Rightarrow> object_binding \<Rightarrow> ustring set \<Rightarrow> ustring set capture" where
  "collect_object_binding E depth sp binding bound =
     sbind (spend 1 sp) (\<lambda>_.
     sbind (case ob_default binding of None \<Rightarrow> sreturn () | Some d \<Rightarrow> E depth d bound) (\<lambda>_.
     assign_optional (ob_local binding) sp bound))"

text \<open>A block in a scope of its own: the names it binds are dropped at its end.\<close>

definition scoped_block :: "stmt_collector \<Rightarrow> nat \<Rightarrow> span \<Rightarrow> ustring set \<Rightarrow> stmt list \<Rightarrow> ustring set \<Rightarrow> unit capture" where
  "scoped_block S depth sp extra body bound =
     sbind (clone_scope bound sp) (\<lambda>scope.
     sbind (collect_free_block S depth body (extra \<union> scope)) (\<lambda>_. sreturn ()))"

definition collect_stmt_body :: "scratch_env \<Rightarrow> expr_collector \<Rightarrow> stmt_collector \<Rightarrow> stmt_collector" where
  "collect_stmt_body env E S depth0 st bound =
     (let sp = stmt_span st in
     sbind (enter_scan depth0 sp) (\<lambda>_.
     let depth = depth0 + 1 in
     case st of
       St_VarDecl name _ _ v _ \<Rightarrow> sbind (E depth v bound) (\<lambda>_. sreturn (insert name bound))
     | St_Assign name v _ \<Rightarrow> sbind (E depth v bound) (\<lambda>_. collect_free_assignment_name name sp bound)
     | St_AssignTarget t v _ \<Rightarrow>
         sbind (collect_free_assign_target E t bound depth sp) (\<lambda>_.
         sbind (E depth v bound) (\<lambda>_. sreturn bound))
     | St_CompoundAssign t _ v _ \<Rightarrow>
         sbind (collect_free_assign_target E t bound depth sp) (\<lambda>_.
         sbind (E depth v bound) (\<lambda>_. sreturn bound))
     | St_DestructureAssign names vs _ \<Rightarrow>
         sbind (each (\<lambda>e. E depth e bound) vs) (\<lambda>_. thread (\<lambda>name. assign_optional name sp) names bound)
     | St_ObjectDestructureAssign bindings rest v _ \<Rightarrow>
         sbind (E depth v bound) (\<lambda>_.
         sbind (thread (collect_object_binding E depth sp) bindings bound)
           (assign_optional (Option.bind rest or_local) sp))
     | St_If c t e _ \<Rightarrow>
         sbind (E depth c bound) (\<lambda>_.
         sbind (scoped_block S depth sp {} t bound) (\<lambda>_.
         sbind (scoped_block S depth sp {} e bound) (\<lambda>_. sreturn bound)))
     | St_While c body _ \<Rightarrow>
         sbind (E depth c bound) (\<lambda>_.
         sbind (scoped_block S depth sp {} body bound) (\<lambda>_. sreturn bound))
     | St_For name it body _ \<Rightarrow>
         sbind (E depth it bound) (\<lambda>_.
         sbind (scoped_block S depth sp {name} body bound) (\<lambda>_. sreturn bound))
     | St_Function f \<Rightarrow>
         sbind (clone_scope bound sp) (\<lambda>nested.
         sbind (spend (length (fn_params f)) sp) (\<lambda>_.
         sbind (collect_free_block S depth (fn_body f) (insert (fn_name f) nested \<union> pa_name ` set (fn_params f))) (\<lambda>_.
         sreturn (insert (fn_name f) bound))))
     | St_Try body catch_name catch_body finally_body _ \<Rightarrow>
         sbind (scoped_block S depth sp {} body bound) (\<lambda>_.
         sbind (scoped_block S depth sp (set_option catch_name) catch_body bound) (\<lambda>_.
         sbind (scoped_block S depth sp {} finally_body bound) (\<lambda>_. sreturn bound)))
     | St_Fail v _ \<Rightarrow> sbind (E depth v bound) (\<lambda>_. sreturn bound)
     | St_Panic v _ \<Rightarrow> sbind (E depth v bound) (\<lambda>_. sreturn bound)
     | St_Print v _ \<Rightarrow> sbind (E depth v bound) (\<lambda>_. sreturn bound)
     | St_Return v _ \<Rightarrow>
         sbind (case v of None \<Rightarrow> sreturn () | Some v \<Rightarrow> E depth v bound) (\<lambda>_. sreturn bound)
     | St_Break _ \<Rightarrow> sreturn bound
     | St_Continue _ \<Rightarrow> sreturn bound
     | St_Expr e _ \<Rightarrow> sbind (E depth e bound) (\<lambda>_. sreturn bound)))"

section \<open>The knot\<close>

fun collect_expr :: "scratch_env \<Rightarrow> nat \<Rightarrow> expr_collector"
  and collect_stmt :: "scratch_env \<Rightarrow> nat \<Rightarrow> stmt_collector" where
  "collect_expr env 0 depth e bound = sfuel"
| "collect_expr env (Suc n) depth e bound = collect_expr_body env (collect_expr env n) (collect_stmt env n) depth e bound"
| "collect_stmt env 0 depth st bound = sfuel"
| "collect_stmt env (Suc n) depth st bound = collect_stmt_body env (collect_expr env n) (collect_stmt env n) depth st bound"

lemma collect_Suc:
  "collect_expr env (Suc n) = collect_expr_body env (collect_expr env n) (collect_stmt env n)"
  "collect_stmt env (Suc n) = collect_stmt_body env (collect_expr env n) (collect_stmt env n)"
  by (simp_all add: fun_eq_iff)

definition collect_free_expr :: "scratch_env \<Rightarrow> expr_collector" where
  "collect_free_expr env depth = collect_expr env (Suc (MAX_CAPTURE_SCAN_DEPTH - depth)) depth"

definition collect_free_stmt :: "scratch_env \<Rightarrow> stmt_collector" where
  "collect_free_stmt env depth = collect_stmt env (Suc (MAX_CAPTURE_SCAN_DEPTH - depth)) depth"

definition capture_result :: "unit capture \<Rightarrow> (ku_error, ustring set) result" where
  "capture_result m = map_sum id (cs_free \<circ> snd) (m \<lparr>cs_free = {}, cs_budget = CaptureScanBudget_new\<rparr>)"

definition function_capture_names :: "scratch_env \<Rightarrow> fn_decl \<Rightarrow> (ku_error, ustring set) result" where
  "function_capture_names env f = capture_result
     (sbind (spend (length (fn_params f)) (fn_span f)) (\<lambda>_.
      sbind (collect_free_block (collect_free_stmt env) 0 (fn_body f) (insert (fn_name f) (pa_name ` set (fn_params f))))
        (\<lambda>_. sreturn ())))"

definition closure_capture_names :: "scratch_env \<Rightarrow> function_param list \<Rightarrow> stmt list \<Rightarrow> (ku_error, ustring set) result" where
  "closure_capture_names env params body = capture_result
     (sbind (spend (length params) (case params of [] \<Rightarrow> Span_default | p # _ \<Rightarrow> fp_span p)) (\<lambda>_.
      sbind (collect_free_block (collect_free_stmt env) 0 body (fp_name ` set params)) (\<lambda>_. sreturn ())))"

end
