(* ===== verification/Capture_Free.thy ===== *)
theory Capture_Free
  imports Capture
begin

text \<open>
  What the capture analysis computes. The reference is an inductive definition of the free names of
  expressions, statements and blocks, which goes from the leaves upwards and knows neither budget nor
  depth nor scope copies. The analysis is shown to return on every input, with exactly the free names or
  with one of the documented errors.
\<close>

section \<open>Free names\<close>

fun pattern_names :: "match_pattern \<Rightarrow> ustring set" where
  "pattern_names MP_Wildcard = {}"
| "pattern_names (MP_Binding name) = {name}"
| "pattern_names (MP_Literal _) = {}"
| "pattern_names (MP_EnumVariant _ _ ps) = (\<Union>p \<in> set ps. pattern_names p)"

text \<open>The subexpressions that are evaluated in the scope of the expression itself.\<close>

definition plain_children :: "expr_kind \<Rightarrow> expr list" where
  "plain_children k = (case k of
       EK_Unary _ e \<Rightarrow> [e] | EK_TryUnwrap e \<Rightarrow> [e] | EK_Await e \<Rightarrow> [e]
     | EK_Binary l _ r \<Rightarrow> [l, r] | EK_Call f args \<Rightarrow> f # args | EK_Array vs \<Rightarrow> vs
     | EK_Index t i \<Rightarrow> [t, i] | EK_Field t _ \<Rightarrow> [t] | EK_OptionalField t _ \<Rightarrow> [t]
     | EK_StructLiteral _ fs \<Rightarrow> map snd fs | EK_ObjectLiteral fs \<Rightarrow> map snd fs
     | EK_Match v _ \<Rightarrow> [v] | _ \<Rightarrow> [])"

definition target_children :: "assign_target \<Rightarrow> expr list" where
  "target_children t = (case t of AT_Variable _ \<Rightarrow> [] | AT_Index t i \<Rightarrow> [t, i] | AT_Field t _ \<Rightarrow> [t])"

definition target_names :: "assign_target \<Rightarrow> ustring set" where
  "target_names t = (case t of AT_Variable name \<Rightarrow> {name} | _ \<Rightarrow> {})"

definition stmt_exprs :: "stmt \<Rightarrow> expr list" where
  "stmt_exprs st = (case st of
       St_VarDecl _ _ _ v _ \<Rightarrow> [v] | St_Assign _ v _ \<Rightarrow> [v]
     | St_AssignTarget t v _ \<Rightarrow> target_children t @ [v]
     | St_CompoundAssign t _ v _ \<Rightarrow> target_children t @ [v]
     | St_DestructureAssign _ vs _ \<Rightarrow> vs
     | St_ObjectDestructureAssign bs _ v _ \<Rightarrow> v # List.map_filter ob_default bs
     | St_If c _ _ _ \<Rightarrow> [c] | St_While c _ _ \<Rightarrow> [c] | St_For _ it _ _ \<Rightarrow> [it]
     | St_Fail v _ \<Rightarrow> [v] | St_Panic v _ \<Rightarrow> [v] | St_Print v _ \<Rightarrow> [v] | St_Expr e _ \<Rightarrow> [e]
     | St_Return v _ \<Rightarrow> (case v of None \<Rightarrow> [] | Some v \<Rightarrow> [v])
     | _ \<Rightarrow> [])"

definition object_locals :: "object_binding list \<Rightarrow> object_destructure_rest option \<Rightarrow> ustring set" where
  "object_locals bs rest = (\<Union>b \<in> set bs. set_option (ob_local b)) \<union> set_option (Option.bind rest or_local)"

text \<open>The names a statement uses by itself, and the names it binds for the rest of its block.\<close>

definition stmt_uses :: "stmt \<Rightarrow> ustring set" where
  "stmt_uses st = (case st of
       St_Assign name _ _ \<Rightarrow> {name}
     | St_AssignTarget t _ _ \<Rightarrow> target_names t
     | St_CompoundAssign t _ _ _ \<Rightarrow> target_names t
     | St_DestructureAssign names _ _ \<Rightarrow> (\<Union>n \<in> set names. set_option n)
     | St_ObjectDestructureAssign bs rest _ _ \<Rightarrow> object_locals bs rest
     | _ \<Rightarrow> {})"

definition stmt_binds :: "stmt \<Rightarrow> ustring set" where
  "stmt_binds st = (case st of
       St_VarDecl name _ _ _ _ \<Rightarrow> {name}
     | St_Assign name _ _ \<Rightarrow> {name}
     | St_DestructureAssign names _ _ \<Rightarrow> (\<Union>n \<in> set names. set_option n)
     | St_ObjectDestructureAssign bs rest _ _ \<Rightarrow> object_locals bs rest
     | St_Function f \<Rightarrow> {fn_name f}
     | _ \<Rightarrow> {})"

text \<open>The blocks of a statement, each with the names its scope starts with.\<close>

definition stmt_blocks :: "stmt \<Rightarrow> (ustring set \<times> stmt list) list" where
  "stmt_blocks st = (case st of
       St_If _ t e _ \<Rightarrow> [({}, t), ({}, e)]
     | St_While _ b _ \<Rightarrow> [({}, b)]
     | St_For name _ b _ \<Rightarrow> [({name}, b)]
     | St_Function f \<Rightarrow> [(insert (fn_name f) (pa_name ` set (fn_params f)), fn_body f)]
     | St_Try b c cb fb _ \<Rightarrow> [({}, b), (set_option c, cb), ({}, fb)]
     | _ \<Rightarrow> [])"

text \<open>The sources of the interpolations of a template, up to the first unterminated one.\<close>

function interpolations :: "ustring \<Rightarrow> ustring list" where
  "interpolations cs = (case find_interpolation cs of
       None \<Rightarrow> []
     | Some inner \<Rightarrow> (case take_interpolation [] inner of
           None \<Rightarrow> []
         | Some (source, rest) \<Rightarrow> source # interpolations rest))"
  by pat_completeness auto
termination
  by (relation "measure length") (auto dest!: find_interpolation_length take_interpolation_length)

declare interpolations.simps [simp del]

inductive free_expr :: "expr \<Rightarrow> ustring \<Rightarrow> bool"
  and free_stmt :: "stmt \<Rightarrow> ustring \<Rightarrow> bool"
  and free_block :: "stmt list \<Rightarrow> ustring \<Rightarrow> bool" where
  free_variable: "free_expr (Expr_new (EK_Variable x) sp) x"
| free_child: "e \<in> set (plain_children k) \<Longrightarrow> free_expr e x \<Longrightarrow> free_expr (Expr_new k sp) x"
| free_guard: "arm \<in> set arms \<Longrightarrow> ma_guard arm = Some g \<Longrightarrow> free_expr g x \<Longrightarrow> x \<notin> pattern_names (ma_pattern arm) \<Longrightarrow>
    free_expr (Expr_new (EK_Match v arms) sp) x"
| free_arm: "arm \<in> set arms \<Longrightarrow> free_expr (ma_value arm) x \<Longrightarrow> x \<notin> pattern_names (ma_pattern arm) \<Longrightarrow>
    free_expr (Expr_new (EK_Match v arms) sp) x"
| free_function: "free_block body x \<Longrightarrow> x \<notin> fp_name ` set params \<Longrightarrow>
    free_expr (Expr_new (EK_Function params ret body) sp) x"
| free_template: "source \<in> set (interpolations raw) \<Longrightarrow> lex source = Inr toks \<Longrightarrow>
    parse_expression_only toks = Inr e \<Longrightarrow> free_expr e x \<Longrightarrow>
    free_expr (Expr_new (EK_Literal (Lit_TemplateString raw)) sp) x"
| free_use: "x \<in> stmt_uses st \<Longrightarrow> free_stmt st x"
| free_stmt_expr: "e \<in> set (stmt_exprs st) \<Longrightarrow> free_expr e x \<Longrightarrow> free_stmt st x"
| free_stmt_block: "(scope, body) \<in> set (stmt_blocks st) \<Longrightarrow> free_block body x \<Longrightarrow> x \<notin> scope \<Longrightarrow> free_stmt st x"
| free_head: "free_stmt st x \<Longrightarrow> free_block (st # sts) x"
| free_tail: "free_block sts x \<Longrightarrow> x \<notin> stmt_binds st \<Longrightarrow> free_block (st # sts) x"

inductive_cases free_expr_elim: "free_expr (Expr_new k sp) x"
inductive_simps free_stmt_iff: "free_stmt st x"
inductive_simps free_block_Nil: "free_block [] x"
inductive_simps free_block_Cons: "free_block (st # sts) x"

abbreviation expr_free :: "expr \<Rightarrow> ustring set" where
  "expr_free e \<equiv> Collect (free_expr e)"

abbreviation block_free :: "stmt list \<Rightarrow> ustring set" where
  "block_free b \<equiv> Collect (free_block b)"

abbreviation stmt_free :: "stmt \<Rightarrow> ustring set" where
  "stmt_free st \<equiv> Collect (free_stmt st)"

definition template_free :: "ustring \<Rightarrow> ustring set" where
  "template_free raw = {x. \<exists>source toks e. source \<in> set (interpolations raw) \<and> lex source = Inr toks
     \<and> parse_expression_only toks = Inr e \<and> free_expr e x}"

definition arm_free :: "match_arm \<Rightarrow> ustring set" where
  "arm_free arm = ((case ma_guard arm of None \<Rightarrow> {} | Some g \<Rightarrow> expr_free g) \<union> expr_free (ma_value arm)) - pattern_names (ma_pattern arm)"

text \<open>The equations of the free names, one for each way an expression can be built.\<close>

lemma expr_free_eq:
  "expr_free (Expr_new k sp) = (\<Union>e \<in> set (plain_children k). expr_free e) \<union> (case k of
       EK_Variable x \<Rightarrow> {x}
     | EK_Match v arms \<Rightarrow> (\<Union>arm \<in> set arms. arm_free arm)
     | EK_Function params ret body \<Rightarrow> block_free body - fp_name ` set params
     | EK_Literal (Lit_TemplateString raw) \<Rightarrow> template_free raw
     | _ \<Rightarrow> {})"  (is "?l = ?r")
proof
  show "?l \<subseteq> ?r"
    by (auto elim!: free_expr_elim simp: template_free_def plain_children_def) (fastforce simp: arm_free_def)+
  show "?r \<subseteq> ?l"
    by (auto simp: arm_free_def template_free_def split: expr_kind.splits literal.splits option.splits
        intro: free_expr_free_stmt_free_block.intros)
qed

lemma stmt_free_eq:
  "stmt_free st = stmt_uses st \<union> (\<Union>e \<in> set (stmt_exprs st). expr_free e)
     \<union> (\<Union>(scope, body) \<in> set (stmt_blocks st). block_free body - scope)"
  by (auto simp: free_stmt_iff)

lemma block_free_simps [simp]:
  "block_free [] = {}" "block_free (st # sts) = stmt_free st \<union> (block_free sts - stmt_binds st)"
  by (auto simp: free_block_Nil free_block_Cons)

section \<open>A calculus of collectors\<close>

definition capture_messages :: "ustring list" where
  "capture_messages = map lit
     [''capture analysis limit: work budget exhausted'',
      ''capture analysis limit: nesting depth exceeded'',
      ''capture analysis limit: template byte budget exhausted'',
      ''unterminated template interpolation'', ''empty template interpolation'',
      ''match traversal scratch budget exhausted'', ''match traversal scratch out of memory'']"

text \<open>The errors of the analysis: a limit or a malformed template, or a lexical or parse error of an
  interpolation.\<close>

definition capture_error :: "ku_error \<Rightarrow> bool" where
  "capture_error e = (case ke_kind e of
       KE_Runtime \<Rightarrow> ke_message e \<in> set capture_messages
     | KE_Lex \<Rightarrow> True | KE_Parse \<Rightarrow> True)"

text \<open>The computation returns with value \<open>r\<close> and has collected the names \<open>A\<close>, or it fails with an error
  of the analysis.\<close>

definition collects :: "'a capture \<Rightarrow> ustring set \<Rightarrow> 'a \<Rightarrow> bool" where
  "collects m A r \<longleftrightarrow> (\<forall>s. wp capture_error m (\<lambda>x s'. x = r \<and> cs_free s' = cs_free s \<union> A) s)"

named_theorems collects_intro \<open>rules of the calculus of collectors\<close>

lemma collects_eq: "collects m A r \<Longrightarrow> A = A' \<Longrightarrow> r = r' \<Longrightarrow> collects m A' r'"
  by simp

lemma collects_return [collects_intro]: "collects (sreturn x) {} x"
  by (simp add: collects_def wp_simps)

lemma collects_bind [collects_intro]:
  "collects m A r \<Longrightarrow> collects (f r) B t \<Longrightarrow> collects (sbind m f) (A \<union> B) t"
  unfolding collects_def wp_bind
  by (intro allI, rule wp_mono, erule spec, elim conjE, hypsubst, rule wp_mono, erule spec) (simp add: Un_assoc)

lemma collects_metered:
  assumes "\<And>b. case f b of Inl e \<Rightarrow> capture_error e | Inr (x, _) \<Rightarrow> x = r"
  shows "collects (metered f) {} r"
  unfolding collects_def
proof
  fix s :: capture_state
  show "wp capture_error (metered f) (\<lambda>x s'. x = r \<and> cs_free s' = cs_free s \<union> {}) s"
    using assms [of "cs_budget s"] by (auto simp: wp_def metered_def split: sum.splits prod.splits)
qed

lemma runtime_error_kind [simp]:
  "capture_error (runtime_error m sp) \<longleftrightarrow> m \<in> set capture_messages"
  by (simp add: capture_error_def runtime_error_def KuError_new_def)

lemma collects_raise: "capture_error e \<Longrightarrow> collects (sraise e) A r"
  by (simp add: collects_def wp_simps)

lemma collects_fail: "capture_error e \<Longrightarrow> collects (\<lambda>s. Inl (Raise e)) A r"
  by (simp add: collects_def wp_def)

lemma collects_spend [collects_intro]: "collects (spend n sp) {} ()"
  unfolding spend_def by (rule collects_metered) (simp add: cb_spend_def capture_messages_def)

lemma collects_enter [collects_intro]: "collects (enter_scan d sp) {} ()"
  unfolding enter_scan_def
  by (rule collects_metered) (simp add: cb_enter_def cb_spend_def capture_messages_def)

lemma collects_entered:
  "collects m A r \<Longrightarrow> collects (sbind (enter_scan d sp) (\<lambda>_. m)) A r"
  using collects_bind [OF collects_enter, of "\<lambda>_. m" A r d sp] by simp

lemma collects_clone [collects_intro]: "collects (clone_scope bound sp) {} bound"
  unfolding clone_scope_def
  by (rule collects_metered) (simp add: cb_clone_scope_def cb_spend_def capture_messages_def)

lemma collects_spend_template [collects_intro]: "collects (spend_template raw sp) {} ()"
  unfolding spend_template_def by (rule collects_metered) (simp add: cb_template_def capture_messages_def)

lemma collects_note [collects_intro]: "collects (note_free name bound) ({name} - bound) ()"
  by (auto simp: collects_def note_free_def wp_simps)

lemma collects_each:
  assumes "\<And>x. x \<in> set xs \<Longrightarrow> collects (f x) (A x) (r x)"
  shows "collects (each f xs) (\<Union>x \<in> set xs. A x) ()"
  using assms
proof (induction xs)
  case Nil
  show ?case using collects_return [of "()"] by simp
next
  case (Cons x xs)
  then have "collects (f x) (A x) (r x)" "collects (each f xs) (\<Union>x \<in> set xs. A x) ()" by simp_all
  then show ?case using collects_bind [of "f x" "A x" "r x" "\<lambda>_. each f xs"] by simp
qed

text \<open>A sequence of steps that each collect what is free in them and extend the scope.\<close>

fun seq_free :: "('b \<Rightarrow> ustring set) \<Rightarrow> ('b \<Rightarrow> ustring set) \<Rightarrow> 'b list \<Rightarrow> ustring set" where
  "seq_free A B [] = {}"
| "seq_free A B (x # xs) = A x \<union> (seq_free A B xs - B x)"

lemma collects_thread:
  assumes "\<And>x bound. x \<in> set xs \<Longrightarrow> collects (f x bound) (A x - bound) (bound \<union> B x)"
  shows "collects (thread f xs bound) (seq_free A B xs - bound) (bound \<union> (\<Union>x \<in> set xs. B x))"
  using assms
proof (induction xs arbitrary: bound)
  case Nil
  show ?case using collects_return [of bound] by simp
next
  case (Cons x xs)
  have "collects (f x bound) (A x - bound) (bound \<union> B x)" using Cons.prems by simp
  moreover have "collects (thread f xs (bound \<union> B x)) (seq_free A B xs - (bound \<union> B x))
      (bound \<union> B x \<union> (\<Union>x \<in> set xs. B x))"
    by (rule Cons.IH) (use Cons.prems in simp)
  ultimately have "collects (thread f (x # xs) bound) ((A x - bound) \<union> (seq_free A B xs - (bound \<union> B x)))
      (bound \<union> B x \<union> (\<Union>x \<in> set xs. B x))"
    using collects_bind [of "f x bound" "A x - bound" "bound \<union> B x" "thread f xs"] by simp
  then show ?case by (rule collects_eq) auto
qed

lemma seq_free_block: "seq_free stmt_free stmt_binds body = block_free body"
  by (induction body) simp_all

lemma seq_free_uses:
  assumes "\<And>x. x \<in> set xs \<Longrightarrow> B x \<subseteq> A x"
  shows "seq_free A B xs = (\<Union>x \<in> set xs. A x)"
  using assms by (induction xs) auto

section \<open>Patterns and templates\<close>

lemma collects_sresult:
  "(\<And>e. r = Inl e \<Longrightarrow> capture_error e) \<Longrightarrow> (\<And>x. r = Inr x \<Longrightarrow> collects (f x) A t) \<Longrightarrow> collects (sbind (sresult r) f) A t"
  by (cases r) (auto simp: sresult_def collects_def wp_simps)

lemma capture_reserve_error [simp]: "reserve_match_scratch env len cap other sp = Inl e \<Longrightarrow> capture_error e"
  by (drule reserve_match_error)
    (auto simp: match_scratch_error_def match_limit_error_def match_memory_error_def capture_messages_def)

definition frame_names :: "(match_pattern list \<times> nat) list \<Rightarrow> ustring set" where
  "frame_names as = (\<Union>(ps, d) \<in> set as. \<Union>p \<in> set ps. pattern_names p)"

lemma next_pattern_names:
  "(case next_pattern as of None \<Rightarrow> {} | Some ((p, d), as') \<Rightarrow> pattern_names p \<union> frame_names as') = frame_names as"
  by (induction as rule: next_pattern.induct) (auto simp: frame_names_def)

lemma collects_pattern_loop:
  "collects (bind_pattern_loop env sp p depth as cap bound) {} (bound \<union> pattern_names p \<union> frame_names as)"
proof (induction env sp p depth as cap bound rule: bind_pattern_loop.induct)
  case (1 env sp p depth as cap bound)
  have rest: "collects (case next_pattern as' of None \<Rightarrow> sreturn bound'
        | Some ((child, d), as'') \<Rightarrow> bind_pattern_loop env sp child d as'' cap' bound') {} (bound' \<union> frame_names as')"
    if "\<And>child d as''. next_pattern as' = Some ((child, d), as'') \<Longrightarrow>
      collects (bind_pattern_loop env sp child d as'' cap' bound') {} (bound' \<union> pattern_names child \<union> frame_names as'')"
    for as' bound' cap'
  proof (cases "next_pattern as'")
    case None
    then show ?thesis using next_pattern_names [of as'] collects_return [of bound'] by simp
  next
    case (Some n)
    then obtain child d as'' where "next_pattern as' = Some ((child, d), as'')" by (metis prod_cases3 surj_pair)
    then show ?thesis using that next_pattern_names [of as'] by (simp add: Un_assoc)
  qed
  show ?case
  proof (cases "\<exists>n v fs. p = MP_EnumVariant n v fs \<and> fs \<noteq> []")
    case True
    then obtain n v fs where p: "p = MP_EnumVariant n v fs" "fs \<noteq> []" by blast
    have "collects (sbind (reserve_capture env (length as) cap sp) (\<lambda>cap'. case next_pattern ((fs, depth + 1) # as) of
        None \<Rightarrow> sreturn bound | Some ((child, d), as'') \<Rightarrow> bind_pattern_loop env sp child d as'' cap' bound))
        {} (bound \<union> frame_names ((fs, depth + 1) # as))"
      unfolding reserve_capture_def by (rule collects_sresult; (erule capture_reserve_error | rule rest)) (use 1 p in simp)
    then have "collects (bind_pattern_loop env sp p depth as cap bound) {} (bound \<union> frame_names ((fs, depth + 1) # as))"
      using p by (subst bind_pattern_loop.simps) (simp add: collects_entered)
    then show ?thesis by (rule collects_eq) (auto simp: p frame_names_def)
  next
    case False
    let ?bound = "case p of MP_Binding name \<Rightarrow> insert name bound | _ \<Rightarrow> bound"
    have "collects (case next_pattern as of None \<Rightarrow> sreturn ?bound
        | Some ((child, d), as'') \<Rightarrow> bind_pattern_loop env sp child d as'' cap ?bound) {} (?bound \<union> frame_names as)"
      by (rule rest) (use 1 False in \<open>auto split: match_pattern.splits\<close>)
    then have "collects (bind_pattern_loop env sp p depth as cap bound) {} (?bound \<union> frame_names as)"
      using False by (subst bind_pattern_loop.simps)
        (rule collects_entered, auto simp: ps_bind_return Let_def split: match_pattern.splits)
    then show ?thesis by (rule collects_eq) (use False in \<open>auto split: match_pattern.splits\<close>)
  qed
qed

lemma collects_pattern [collects_intro]:
  "collects (bind_match_pattern_names env p bound depth sp) {} (bound \<union> pattern_names p)"
  unfolding bind_match_pattern_names_def
  using collects_pattern_loop [of env sp p depth "[]"] by (simp add: frame_names_def)

definition source_free :: "ustring \<Rightarrow> ustring set" where
  "source_free source = {x. \<exists>toks e. lex source = Inr toks \<and> parse_expression_only toks = Inr e \<and> free_expr e x}"

lemma parse_fault: "parse_expression_only toks = Inl f \<Longrightarrow> \<exists>e. f = Raise e \<and> capture_error e"
  using parse_expression_only_result [of toks] by (auto simp: capture_error_def)

lemma lex_fault: "lex source = Inl f \<Longrightarrow> \<exists>e. f = Raise e \<and> capture_error e"
  using lex_error_kind [of source f] by (auto simp: capture_error_def)

lemma collects_interpolation:
  assumes "\<And>e. collects (visitor (depth + 1) e) (expr_free e - bound) ()"
  shows "collects (interpolation visitor sp depth source) (source_free source - bound) ()"
proof (cases "lex source")
  case (Inl f)
  then obtain e where "f = Raise e" "capture_error e" using lex_fault by blast
  with Inl show ?thesis
    by (auto simp: interpolation_def capture_messages_def intro: collects_raise collects_fail)
next
  case (Inr toks)
  have limit: "capture_error (parse_error m sp)" for m
    by (simp add: capture_error_def parse_error_def KuError_new_def)
  have "collects (case parse_expression_only toks of Inl f \<Rightarrow> (\<lambda>s. Inl f) | Inr e \<Rightarrow> visitor (depth + 1) e)
      (source_free source - bound) ()"
  proof (cases "parse_expression_only toks")
    case (Inl f)
    then obtain e where "f = Raise e" "capture_error e" using parse_fault by blast
    with Inl show ?thesis by (simp add: collects_fail)
  next
    case parsed: (Inr e)
    then show ?thesis using assms [of e] by (simp add: source_free_def Inr)
  qed
  from collects_bind [OF collects_spend this] Inr limit show ?thesis
    by (auto simp: interpolation_def capture_messages_def intro: collects_raise)
qed

lemma collects_template_loop:
  assumes "\<And>e. collects (visitor (depth + 1) e) (expr_free e - bound) ()"
  shows "collects (template_loop visitor sp depth cs) ((\<Union>source \<in> set (interpolations cs). source_free source) - bound) ()"
  using assms
proof (induction visitor sp depth cs rule: template_loop.induct)
  case (1 visitor sp depth cs)
  note eqs = template_loop.simps [of visitor sp depth cs] interpolations.simps [of cs]
  show ?case
  proof (cases "find_interpolation cs")
    case None
    then show ?thesis using eqs collects_return [of "()"] by simp
  next
    case found: (Some inner)
    show ?thesis
    proof (cases "take_interpolation [] inner")
      case None
      with found eqs show ?thesis by (simp add: collects_raise capture_messages_def)
    next
      case (Some part)
      then obtain source rest where part: "take_interpolation [] inner = Some (source, rest)" by (cases part) auto
      have "collects (template_loop visitor sp depth rest)
          ((\<Union>source \<in> set (interpolations rest). source_free source) - bound) ()"
        using 1 found part by simp
      moreover have "collects (interpolation visitor sp depth source) (source_free source - bound) ()"
        by (rule collects_interpolation) (rule 1)
      ultimately show ?thesis using found part eqs by (simp add: Un_Diff collects_bind)
    qed
  qed
qed

lemma template_free_sources: "template_free raw = (\<Union>source \<in> set (interpolations raw). source_free source)"
  by (auto simp: template_free_def source_free_def)

lemma collects_template:
  assumes "\<And>e bound. collects (E (depth + 1) e bound) (expr_free e - bound) ()"
  shows "collects (collect_free_template E raw sp bound depth) (template_free raw - bound) ()"
  unfolding collect_free_template_def visit_template_def template_free_sources
proof (rule collects_entered)
  have "collects (template_loop (\<lambda>d e. E d e bound) sp depth raw)
      ((\<Union>source \<in> set (interpolations raw). source_free source) - bound) ()"
    by (rule collects_template_loop) (rule assms)
  from collects_bind [OF collects_spend_template this]
  show "collects (sbind (spend_template raw sp) (\<lambda>_. template_loop (\<lambda>d e. E d e bound) sp depth raw))
      ((\<Union>source \<in> set (interpolations raw). source_free source) - bound) ()" by simp
qed

section \<open>Expressions and statements\<close>

definition binding_free :: "object_binding \<Rightarrow> ustring set" where
  "binding_free b = (case ob_default b of None \<Rightarrow> {} | Some e \<Rightarrow> expr_free e) \<union> set_option (ob_local b)"

locale collectors =
  fixes E :: expr_collector and S :: stmt_collector and depth :: nat
  assumes expr: "\<And>e bound. collects (E (depth + 1) e bound) (expr_free e - bound) ()"
    and deep_expr: "\<And>e bound. collects (E (depth + 2) e bound) (expr_free e - bound) ()"
    and stmt: "\<And>st bound. collects (S (depth + 1) st bound) (stmt_free st - bound) (bound \<union> stmt_binds st)"
begin

lemma each_expr: "collects (each (\<lambda>e. E (depth + 1) e bound) es) ((\<Union>e \<in> set es. expr_free e) - bound) ()"
  using collects_each [of es "\<lambda>e. E (depth + 1) e bound" "\<lambda>e. expr_free e - bound" "\<lambda>_. ()"] expr
  by simp

lemma each_field: "collects (each (\<lambda>(_, e). E (depth + 1) e bound) fs) ((\<Union>e \<in> set (map snd fs). expr_free e) - bound) ()"
  using collects_each [of fs "\<lambda>(_, e). E (depth + 1) e bound" "\<lambda>(_, e). expr_free e - bound" "\<lambda>_. ()"] expr
  by (simp add: split_beta)

lemma block: "collects (collect_free_block S (depth + 1) body bound) (block_free body - bound)
    (bound \<union> (\<Union>st \<in> set body. stmt_binds st))"
  unfolding collect_free_block_def seq_free_block [symmetric]
  by (rule collects_thread) (rule stmt)

lemma scoped: "collects (scoped_block S (depth + 1) sp extra body bound) (block_free body - extra - bound) ()"
proof -
  have "collects (scoped_block S (depth + 1) sp extra body bound) ({} \<union> ((block_free body - (extra \<union> bound)) \<union> {})) ()"
    unfolding scoped_block_def by (rule collects_bind collects_clone block collects_return)+
  then show ?thesis by (rule collects_eq) auto
qed

lemma arm: "collects (collect_arm env E (depth + 1) sp bound a) (arm_free a - bound) ()"
proof -
  have guard: "collects (case ma_guard a of None \<Rightarrow> sreturn () | Some g \<Rightarrow> E (depth + 1) g b)
      ((case ma_guard a of None \<Rightarrow> {} | Some g \<Rightarrow> expr_free g) - b) ()" for b
    by (cases "ma_guard a") (use expr collects_return [of "()"] in simp_all)
  let ?b = "bound \<union> pattern_names (ma_pattern a)"
  have "collects (collect_arm env E (depth + 1) sp bound a)
      ({} \<union> ({} \<union> (((case ma_guard a of None \<Rightarrow> {} | Some g \<Rightarrow> expr_free g) - ?b) \<union> (expr_free (ma_value a) - ?b)))) ()"
    unfolding collect_arm_def by (rule collects_bind collects_clone collects_pattern guard expr)+
  then show ?thesis by (rule collects_eq) (auto simp: arm_free_def)
qed

lemma arms: "collects (each (collect_arm env E (depth + 1) sp bound) as) ((\<Union>a \<in> set as. arm_free a) - bound) ()"
  using collects_each [of as "collect_arm env E (depth + 1) sp bound" "\<lambda>a. arm_free a - bound" "\<lambda>_. ()"] arm
  by simp

lemma function_value:
  "collects (sbind (clone_scope bound sp) (\<lambda>nested. sbind (spend n sp) (\<lambda>_.
     sbind (collect_free_block S (depth + 1) body (nested \<union> names)) (\<lambda>_. sreturn r))))
     (block_free body - names - bound) r"
proof -
  have "collects (sbind (clone_scope bound sp) (\<lambda>nested. sbind (spend n sp) (\<lambda>_.
     sbind (collect_free_block S (depth + 1) body (nested \<union> names)) (\<lambda>_. sreturn r))))
     ({} \<union> ({} \<union> ((block_free body - (bound \<union> names)) \<union> {}))) r"
    by (rule collects_bind collects_clone collects_spend block collects_return)+
  then show ?thesis by (rule collects_eq) auto
qed

lemma pair: "collects (sbind (E (depth + 1) l bound) (\<lambda>_. E (depth + 1) r bound)) (expr_free l \<union> expr_free r - bound) ()"
  unfolding Un_Diff by (rule collects_bind expr)+

lemma expr_body: "collects (collect_expr_body env E S depth e bound) (expr_free e - bound) ()"
proof -
  obtain k sp where e: "e = Expr_new k sp" by (cases e)
  have tmpl: "collects (collect_free_template E raw sp bound (depth + 1)) (template_free raw - bound) ()" for raw
    by (rule collects_template) (use deep_expr in simp)
  note rules = expr pair each_expr each_field function_value collects_note collects_return tmpl
    collects_bind [OF expr each_expr] collects_bind [OF expr arms]
  show ?thesis unfolding collect_expr_body_def e
    by (rule collects_entered)
      (cases k; use rules in \<open>auto simp: Let_def expr_free_eq plain_children_def Un_Diff simp del: each.simps
         split: literal.splits\<close>)
qed

lemma assign_name:
  "collects (collect_free_assignment_name name sp bound) ({name} - bound) (insert name bound)"
proof -
  have "collects (collect_free_assignment_name name sp bound) ({} \<union> (({name} - bound) \<union> {})) (insert name bound)"
    unfolding collect_free_assignment_name_def by (rule collects_bind collects_spend collects_note collects_return)+
  then show ?thesis by simp
qed

lemma assign_opt:
  "collects (assign_optional name sp bound) (set_option name - bound) (bound \<union> set_option name)"
  using assign_name collects_return [of bound] by (cases name) (simp_all add: assign_optional_def)

lemma assign_names:
  "collects (thread (\<lambda>name. assign_optional name sp) names bound)
     ((\<Union>n \<in> set names. set_option n) - bound) (bound \<union> (\<Union>n \<in> set names. set_option n))"
  using collects_thread [of names "\<lambda>name. assign_optional name sp" set_option set_option bound] assign_opt
  by (simp add: seq_free_uses)

lemma target:
  "collects (collect_free_assign_target E t bound (depth + 1) sp)
     ((target_names t \<union> (\<Union>e \<in> set (target_children t). expr_free e)) - bound) ()"
  unfolding collect_free_assign_target_def
  by (rule collects_entered)
    (cases t; use deep_expr collects_note collects_bind [OF deep_expr deep_expr] in
      \<open>auto simp: target_names_def target_children_def Un_Diff\<close>)

lemma optional_expr:
  "collects (case d of None \<Rightarrow> sreturn () | Some e \<Rightarrow> E (depth + 1) e bound)
     ((case d of None \<Rightarrow> {} | Some e \<Rightarrow> expr_free e) - bound) ()"
  using expr collects_return [of "()"] by (cases d) simp_all

lemma object_binding:
  "collects (collect_object_binding E (depth + 1) sp b bound) (binding_free b - bound) (bound \<union> set_option (ob_local b))"
proof -
  have "collects (collect_object_binding E (depth + 1) sp b bound)
      ({} \<union> (((case ob_default b of None \<Rightarrow> {} | Some e \<Rightarrow> expr_free e) - bound) \<union> (set_option (ob_local b) - bound)))
      (bound \<union> set_option (ob_local b))"
    unfolding collect_object_binding_def by (rule collects_bind collects_spend optional_expr assign_opt)+
  then show ?thesis by (rule collects_eq) (auto simp: binding_free_def)
qed

lemma object_bindings:
  "collects (sbind (thread (collect_object_binding E (depth + 1) sp) bs bound) (assign_optional (Option.bind rest or_local) sp))
     (((\<Union>e \<in> set (List.map_filter ob_default bs). expr_free e) \<union> object_locals bs rest) - bound)
     (bound \<union> object_locals bs rest)"
proof -
  have "collects (thread (collect_object_binding E (depth + 1) sp) bs bound)
      ((\<Union>b \<in> set bs. binding_free b) - bound) (bound \<union> (\<Union>b \<in> set bs. set_option (ob_local b)))"
    using collects_thread [of bs "collect_object_binding E (depth + 1) sp" binding_free "\<lambda>b. set_option (ob_local b)" bound]
      object_binding by (simp add: seq_free_uses binding_free_def)
  from collects_bind [OF this assign_opt] show ?thesis
    by (rule collects_eq)
      (auto simp: binding_free_def object_locals_def map_filter_def split: option.splits)
qed

lemma then_bound: "collects m A r \<Longrightarrow> collects (sbind m (\<lambda>_. sreturn b)) A b"
  using collects_bind [of m A r "\<lambda>_. sreturn b" "{}" b] collects_return [of b] by simp

lemma stmt_body: "collects (collect_stmt_body env E S depth st bound) (stmt_free st - bound) (bound \<union> stmt_binds st)"
proof -
  define sp where "sp = stmt_span st"
  have insert_union: "insert n A \<union> B = A \<union> insert n B" for n and A B :: "ustring set" by simp
  note two = collects_bind [OF target then_bound [OF expr]] collects_bind [OF expr assign_name]
    collects_bind [OF each_expr assign_names] collects_bind [OF expr object_bindings]
    collects_bind [OF expr then_bound [OF scoped]]
    collects_bind [OF expr collects_bind [OF scoped then_bound [OF scoped]]]
    collects_bind [OF scoped collects_bind [OF scoped then_bound [OF scoped]]]
    function_value then_bound [OF expr] then_bound [OF optional_expr]
  show ?thesis
    unfolding collect_stmt_body_def sp_def [symmetric] Let_def
    by (rule collects_entered, cases st, simp_all only: stmt.case insert_union)
      (rule two [THEN collects_eq] collects_return [THEN collects_eq];
       auto simp: stmt_free_eq stmt_uses_def stmt_binds_def stmt_exprs_def stmt_blocks_def split: option.splits; fail)+
qed

end

section \<open>The knot\<close>

lemma collects_too_deep: "MAX_CAPTURE_SCAN_DEPTH \<le> d \<Longrightarrow> collects (sbind (enter_scan d sp) f) A r"
  by (simp add: collects_def wp_def sbind_def enter_scan_def metered_def cb_enter_def capture_messages_def)

lemma collect_knot:
  assumes "Suc (MAX_CAPTURE_SCAN_DEPTH - d) \<le> n"
  shows "collects (collect_expr env n d e bound) (expr_free e - bound) ()
       \<and> collects (collect_stmt env n d st bound) (stmt_free st - bound) (bound \<union> stmt_binds st)"
  using assms
proof (induction n arbitrary: d e st bound)
  case (Suc n)
  show ?case
  proof (cases "MAX_CAPTURE_SCAN_DEPTH \<le> d")
    case True
    then show ?thesis by (simp add: collect_expr_body_def collect_stmt_body_def Let_def collects_too_deep)
  next
    case False
    have "collectors (collect_expr env n) (collect_stmt env n) d"
      by unfold_locales (use Suc False in auto)
    then show ?thesis by (simp add: collectors.expr_body collectors.stmt_body)
  qed
qed simp

lemma collect_free_exact:
  "collects (collect_free_expr env d e bound) (expr_free e - bound) ()"
  "collects (collect_free_stmt env d st bound) (stmt_free st - bound) (bound \<union> stmt_binds st)"
  unfolding collect_free_expr_def collect_free_stmt_def
  by (rule collect_knot [THEN conjunct1, OF order_refl]) (rule collect_knot [THEN conjunct2, OF order_refl])

interpretation analysis: collectors "collect_free_expr env" "collect_free_stmt env" depth for env depth
  by unfold_locales (rule collect_free_exact)+

text \<open>The collectors satisfy the recursion equations of the source at every depth: the metered depth
  cuts the recursion before the fuel does.\<close>

lemma template_loop_cong: "v (d + 1) = v' (d + 1) \<Longrightarrow> template_loop v sp d cs = template_loop v' sp d cs"
proof (induction v sp d cs rule: template_loop.induct)
  case (1 v sp d cs)
  have "interpolation v sp d = interpolation v' sp d" by (intro ext) (unfold interpolation_def 1(2), rule refl)
  with 1 show ?case by (simp add: template_loop.simps [of _ sp d cs] split: option.splits)
qed

lemma collector_bodies_cong:
  assumes "E (d + 1) = E' (d + 1)" "E (d + 1 + 1) = E' (d + 1 + 1)" "S (d + 1) = S' (d + 1)"
  shows "collect_expr_body env E S d = collect_expr_body env E' S' d"
    and "collect_stmt_body env E S d = collect_stmt_body env E' S' d"
proof -
  have arm: "collect_arm env E (d + 1) = collect_arm env E' (d + 1)"
    by (intro ext) (unfold collect_arm_def assms, rule refl)
  have tmpl: "collect_free_template E raw sp bound (d + 1) = collect_free_template E' raw sp bound (d + 1)" for raw sp bound
    unfolding collect_free_template_def visit_template_def
    by (subst template_loop_cong [of _ _ "\<lambda>d e. E' d e bound"]) (simp_all only: assms)
  have block: "collect_free_block S (d + 1) = collect_free_block S' (d + 1)"
    by (intro ext) (unfold collect_free_block_def assms, rule refl)
  have target: "collect_free_assign_target E t bound (d + 1) sp = collect_free_assign_target E' t bound (d + 1) sp" for t bound sp
    unfolding collect_free_assign_target_def Let_def assms by (rule refl)
  have obj: "collect_object_binding E (d + 1) = collect_object_binding E' (d + 1)"
    by (intro ext) (unfold collect_object_binding_def assms, rule refl)
  show "collect_expr_body env E S d = collect_expr_body env E' S' d"
    by (intro ext) (unfold collect_expr_body_def Let_def assms arm tmpl block, rule refl)
  show "collect_stmt_body env E S d = collect_stmt_body env E' S' d"
    by (intro ext) (unfold collect_stmt_body_def scoped_block_def Let_def assms target obj block, rule refl)
qed

lemma bodies_too_deep:
  assumes "MAX_CAPTURE_SCAN_DEPTH \<le> d"
  shows "collect_expr_body env E S d = collect_expr_body env E' S' d"
    and "collect_stmt_body env E S d = collect_stmt_body env E' S' d"
proof -
  have "sbind (enter_scan d sp) f = sbind (enter_scan d sp) g" for sp and f g :: "unit \<Rightarrow> 'a capture"
    using assms by (simp add: sbind_def enter_scan_def metered_def cb_enter_def fun_eq_iff)
  then show "collect_expr_body env E S d = collect_expr_body env E' S' d"
    and "collect_stmt_body env E S d = collect_stmt_body env E' S' d"
    unfolding collect_expr_body_def collect_stmt_body_def Let_def fun_eq_iff by metis+
qed

lemma collect_fuel:
  assumes "Suc (MAX_CAPTURE_SCAN_DEPTH - d) \<le> n" and "Suc (MAX_CAPTURE_SCAN_DEPTH - d) \<le> m"
  shows "collect_expr env n d = collect_expr env m d \<and> collect_stmt env n d = collect_stmt env m d"
  using assms
proof (induction n arbitrary: d m)
  case (Suc n)
  then obtain m' where m: "m = Suc m'" by (cases m) auto
  show ?case
  proof (cases "MAX_CAPTURE_SCAN_DEPTH \<le> d")
    case True
    then show ?thesis unfolding m collect_Suc by (intro conjI bodies_too_deep)
  next
    case False
    have "collect_expr env n d' = collect_expr env m' d' \<and> collect_stmt env n d' = collect_stmt env m' d'" if "d < d'" for d'
      by (rule Suc.IH) (use Suc.prems that False m in auto)
    then show ?thesis unfolding m collect_Suc by (intro conjI collector_bodies_cong) simp_all
  qed
qed simp

lemma collect_free_equations:
  "collect_free_expr env d = collect_expr_body env (collect_free_expr env) (collect_free_stmt env) d" (is ?E)
  "collect_free_stmt env d = collect_stmt_body env (collect_free_expr env) (collect_free_stmt env) d" (is ?S)
proof -
  let ?n = "MAX_CAPTURE_SCAN_DEPTH - d"
  note step = collect_free_expr_def [of env d] collect_free_stmt_def [of env d] collect_Suc
  have "?E \<and> ?S"
  proof (cases "MAX_CAPTURE_SCAN_DEPTH \<le> d")
    case True
    then show ?thesis unfolding step by (intro conjI bodies_too_deep)
  next
    case False
    have "collect_expr env ?n d' = collect_free_expr env d' \<and> collect_stmt env ?n d' = collect_free_stmt env d'"
      if "d < d'" for d'
      unfolding collect_free_expr_def collect_free_stmt_def by (rule collect_fuel) (use that False in auto)
    then show ?thesis unfolding step by (intro conjI collector_bodies_cong) simp_all
  qed
  then show ?E and ?S by simp_all
qed

section \<open>Properties\<close>

text \<open>C28: The capture analysis is exact. On every function and closure it returns, with the set of
  names that occur free in the body and are not parameters (nor, for a function, its own name), template
  interpolations included; or with a lexical or parse error of an interpolation, or one of the limits
  and template errors it documents. It never panics, and no error is mistaken for an empty set.\<close>

theorem capture_names_exact:
  "(case function_capture_names env f of
      Inr names \<Rightarrow> names = {x. free_block (fn_body f) x} - insert (fn_name f) (pa_name ` set (fn_params f))
    | Inl (Raise e) \<Rightarrow> capture_error e
    | Inl _ \<Rightarrow> False)
   \<and> (case closure_capture_names env params body of
      Inr names \<Rightarrow> names = {x. free_block body x} - fp_name ` set params
    | Inl (Raise e) \<Rightarrow> capture_error e
    | Inl _ \<Rightarrow> False)"
proof -
  have result: "case capture_result m of Inr names \<Rightarrow> names = A | Inl (Raise e) \<Rightarrow> capture_error e | Inl _ \<Rightarrow> False"
    if "collects m A ()" for m A
    using that [unfolded collects_def, rule_format, of "\<lparr>cs_free = {}, cs_budget = CaptureScanBudget_new\<rparr>"]
    by (auto simp: capture_result_def wp_def split: sum.splits prod.splits fault.splits)
  have block: "collects (collect_free_block (collect_free_stmt env) 0 body bound) (block_free body - bound)
      (bound \<union> (\<Union>st \<in> set body. stmt_binds st))" for body bound
    unfolding collect_free_block_def seq_free_block [symmetric]
    by (rule collects_thread) (rule collect_free_exact)
  have "collects (sbind (spend n sp) (\<lambda>_. sbind (collect_free_block (collect_free_stmt env) 0 body bound) (\<lambda>_. sreturn ())))
      ({} \<union> ((block_free body - bound) \<union> {})) ()" for n sp body bound
    by (rule collects_bind collects_spend block collects_return)+
  then have "collects (sbind (spend n sp) (\<lambda>_. sbind (collect_free_block (collect_free_stmt env) 0 body bound) (\<lambda>_. sreturn ())))
      (block_free body - bound) ()" for n sp body bound by simp
  then show ?thesis unfolding function_capture_names_def closure_capture_names_def by (intro conjI result)
qed

text \<open>A closure whose body assigns an outer name and matches with a guard and a template: the assigned
  name, the name in the guard and the name in the second interpolation are captured; the parameter and the
  name bound by the pattern are not.\<close>

lemma closure_capture_example:
  fixes V :: "string \<Rightarrow> expr"
  defines "V n \<equiv> Expr_new (EK_Variable (lit n)) Span_default"
  shows "closure_capture_names \<lparr>se_elem_bytes = 24, se_alloc = Some\<rparr>
     [\<lparr>fp_mode = PM_Owned, fp_name = lit ''x'', fp_ty = None, fp_span = Span_default\<rparr>]
     [St_Assign (lit ''t'') (V ''x'') Span_default,
      St_Return (Some (Expr_new (EK_Match (V ''t'')
        [MatchArm (MP_EnumVariant (lit ''E'') (lit ''A'') [MP_Binding (lit ''p'')]) (Some (V ''q''))
          (Expr_new (EK_Literal (Lit_TemplateString (lit ''a {p} {y}''))) Span_default) Span_default]) Span_default)) Span_default]
     = Inr {lit ''t'', lit ''q'', lit ''y''}"
  unfolding V_def by code_simp

end
