(* ===== verification/Match_Bindings.thy ===== *)
theory Match_Bindings
  imports Match_Scratch
begin

text \<open>
  Matching a value against a pattern (\<open>src/src/runtime/interpreter.rs\<close>, \<open>collect_match_bindings\<close>): a
  loop over an explicit stack of open enum payloads and one shared path of projections, both within
  one scratch budget. A value behind a view is read through the view again at every node, at the path
  below the view. The bindings are appended in pattern order; a binding of a value that owns a task keeps
  the path to it, so that the task can be moved out later.

  The reference is the recursion over the pattern that the loop replaces: no stack, no shared path, no
  budget.
\<close>

section \<open>Data\<close>

record 'env match_binding =
  mb_name :: ustring
  mb_value :: "'env value_t"
  mb_task_path :: "value_projection list option"

text \<open>A view is its root, its path and its owner; \<open>path_base\<close> is the length of the shared path at the
  point where the traversal met the view.\<close>

datatype 'env match_input =
    MI_Direct "'env value_t"
  | MI_View "'env value_t option" "value_projection list" owner nat

datatype 'env match_fields =
    MF_Direct "'env value_t list"
  | MF_View "'env value_t option" "value_projection list" owner nat

record 'env match_frame =
  mf_patterns :: "match_pattern list"
  mf_fields :: "'env match_fields"
  mf_next :: nat
  mf_path_len :: nat

text \<open>The reader, the walk that looks for tasks, and the two scratch buffers.\<close>

record match_env =
  me_now :: owner
  me_walk :: walk_env
  me_frames :: scratch_env
  me_path :: scratch_env

type_synonym match_answer = "(ku_error, bool) result"

definition value_from_literal :: "literal \<Rightarrow> 'env value_t" where
  "value_from_literal l = (case l of
       Lit_Int v \<Rightarrow> V_Int v | Lit_Float v \<Rightarrow> V_Float v | Lit_Bool v \<Rightarrow> V_Bool v
     | Lit_String v \<Rightarrow> V_String v | Lit_TemplateString v \<Rightarrow> V_String v | Lit_Null \<Rightarrow> V_Null)"

section \<open>One node\<close>

text \<open>What a node does: it ends the match with an answer (\<open>Inl\<close>), or the match goes on, with a frame for
  the payload of an enum pattern. The bindings come back in either case.\<close>

type_synonym 'env node_result = "(match_answer + 'env match_frame option) \<times> 'env match_binding list"

definition frame_new :: "match_pattern list \<Rightarrow> 'env match_fields \<Rightarrow> value_projection list \<Rightarrow> 'env match_frame" where
  "frame_new ps fs path = \<lparr>mf_patterns = ps, mf_fields = fs, mf_next = 0, mf_path_len = length path\<rparr>"

definition match_direct ::
    "match_env \<Rightarrow> span \<Rightarrow> match_pattern \<Rightarrow> 'env value_t \<Rightarrow> value_projection list \<Rightarrow> 'env match_binding list \<Rightarrow> 'env node_result" where
  "match_direct env sp p v path bs = (case p of
       MP_Wildcard \<Rightarrow> (Inr None, bs)
     | MP_Binding name \<Rightarrow> (case contains_owned_task (me_walk env) v sp of
           None \<Rightarrow> (Inl (Inl OutOfFuel), bs)
         | Some (Inl e) \<Rightarrow> (Inl (Inl (Raise e)), bs)
         | Some (Inr b) \<Rightarrow>
             (Inr None, bs @ [\<lparr>mb_name = name, mb_value = v, mb_task_path = if b then Some path else None\<rparr>]))
     | MP_Literal l \<Rightarrow> (if value_eq (me_now env) v (value_from_literal l) then Inr None else Inl (Inr False), bs)
     | MP_EnumVariant enum_name variant ps \<Rightarrow> (case v of
           V_Enum name actual fs \<Rightarrow>
             if name \<noteq> enum_name \<or> actual \<noteq> variant then (Inl (Inr False), bs)
             else if length ps \<noteq> length fs then
               (Inl (Inl (Raise (runtime_error (lit ''match pattern '' @ [ch CHR 0x27] @ enum_name @ lit ''.'' @ variant @ [ch CHR 0x27] @
                  lit '' expects '' @ nat_to_string (length fs) @ lit '' fields but got '' @ nat_to_string (length ps)) sp))), bs)
             else (Inr (Some (frame_new ps (MF_Direct fs) path)), bs)
         | _ \<Rightarrow> (Inl (Inr False), bs)))"

definition match_view ::
    "match_env \<Rightarrow> span \<Rightarrow> match_pattern \<Rightarrow> 'env value_t option \<Rightarrow> value_projection list \<Rightarrow> owner \<Rightarrow> nat
     \<Rightarrow> value_projection list \<Rightarrow> 'env match_binding list \<Rightarrow> 'env node_result" where
  "match_view env sp p root rpath own base path bs =
     (let projected = base < length path;
          found = borrowed_projection_read (me_now env) root rpath own (drop base path) sp
      in case p of
       MP_Wildcard \<Rightarrow>
         (case found of Inl e \<Rightarrow> if projected then (Inl (Inl (Raise e)), bs) else (Inr None, bs)
          | Inr _ \<Rightarrow> (Inr None, bs))
     | MP_Binding name \<Rightarrow>
         (case (if projected then map_sum id copy_value found else Inr None) of
            Inl e \<Rightarrow> (Inl (Inl (Raise e)), bs)
          | Inr None \<Rightarrow> (Inl (Inl (Raise (runtime_error
              (lit ''binding an owned borrowed match payload is not supported; clone to create an owned value'') sp))), bs)
          | Inr (Some v) \<Rightarrow> (Inr None, bs @ [\<lparr>mb_name = name, mb_value = v, mb_task_path = None\<rparr>]))
     | MP_Literal l \<Rightarrow>
         (case map_sum id (\<lambda>v. value_eq (me_now env) v (value_from_literal l)) found of
            Inl e \<Rightarrow> if projected then (Inl (Inl (Raise e)), bs) else (Inl (Inr False), bs)
          | Inr matched \<Rightarrow> (if matched then Inr None else Inl (Inr False), bs))
     | MP_EnumVariant enum_name variant ps \<Rightarrow>
         (case found of
            Inl e \<Rightarrow> (Inl (Inl (Raise e)), bs)
          | Inr (V_Enum name actual fs) \<Rightarrow>
              if name = enum_name \<and> actual = variant then
                if length fs \<noteq> length ps then
                  (Inl (Inl (Raise (runtime_error (lit ''match pattern field count mismatch'') sp))), bs)
                else (Inr (Some (frame_new ps (MF_View root rpath own base) path)), bs)
              else (Inl (Inr False), bs)
          | Inr _ \<Rightarrow> (Inl (Inr False), bs)))"

definition match_node ::
    "match_env \<Rightarrow> span \<Rightarrow> match_pattern \<Rightarrow> 'env match_input \<Rightarrow> value_projection list \<Rightarrow> 'env match_binding list \<Rightarrow> 'env node_result" where
  "match_node env sp p inp path bs = (case inp of
       MI_Direct (V_Borrowed root rpath own) \<Rightarrow> match_view env sp p root rpath own (length path) path bs
     | MI_Direct v \<Rightarrow> match_direct env sp p v path bs
     | MI_View root rpath own base \<Rightarrow> match_view env sp p root rpath own base path bs)"

section \<open>The loop\<close>

text \<open>\<open>&fields[index]\<close> panics out of range.\<close>

definition field_input :: "'env match_fields \<Rightarrow> nat \<Rightarrow> 'env match_input option" where
  "field_input fs i = (case fs of
       MF_Direct vs \<Rightarrow> if i < length vs then Some (MI_Direct (vs ! i)) else None
     | MF_View root rpath own base \<Rightarrow> Some (MI_View root rpath own base))"

text \<open>The inner loop: the innermost frame with a pattern left; finished frames are popped. The head of the
  list is the innermost frame.\<close>

fun next_match :: "'env match_frame list \<Rightarrow> ('env match_frame \<times> 'env match_frame list) option" where
  "next_match [] = None"
| "next_match (fr # as) = (if mf_next fr < length (mf_patterns fr) then Some (fr, as) else next_match as)"

text \<open>The patterns a stack still has to visit, as a bound on the rounds of the loop.\<close>

definition frame_work :: "'env match_frame \<Rightarrow> nat" where
  "frame_work fr = size_list size (drop (mf_next fr) (mf_patterns fr))"

lemma next_match_work:
  "next_match as = Some (fr, as') \<Longrightarrow> mf_next fr < length (mf_patterns fr)
     \<and> frame_work fr + sum_list (map frame_work as') \<le> sum_list (map frame_work as)"
  by (induction as rule: next_match.induct) (auto simp: frame_work_def split: if_splits)

lemma frame_work_next:
  assumes "mf_next fr < length (mf_patterns fr)"
  shows "frame_work fr = Suc (size (mf_patterns fr ! mf_next fr)) + frame_work (fr\<lparr>mf_next := mf_next fr + 1\<rparr>)"
  using assms by (simp add: frame_work_def Cons_nth_drop_Suc [symmetric])

definition frame_of_node :: "match_pattern \<Rightarrow> 'env match_frame option \<Rightarrow> bool" where
  "frame_of_node p f = (case f of
       None \<Rightarrow> True
     | Some fr \<Rightarrow> (\<exists>n v. p = MP_EnumVariant n v (mf_patterns fr)) \<and> mf_next fr = 0)"

lemma match_node_frame: "match_node env sp p inp path bs = (Inr f, bs') \<Longrightarrow> frame_of_node p f"
  by (auto simp: match_node_def match_direct_def match_view_def frame_of_node_def frame_new_def Let_def
      split: match_input.splits match_pattern.splits value_t.splits option.splits sum.splits if_splits)

definition push_match_frame ::
    "match_env \<Rightarrow> span \<Rightarrow> 'env match_frame option \<Rightarrow> nat \<Rightarrow> 'env match_frame list \<Rightarrow> nat
     \<Rightarrow> ku_error + ('env match_frame list \<times> nat)" where
  "push_match_frame env sp f pcap as fcap = (case f of
       None \<Rightarrow> Inr (as, fcap)
     | Some fr \<Rightarrow>
         if mf_patterns fr = [] then Inr (as, fcap)
         else (case match_scratch_bytes (me_path env) pcap sp of
             Inl e \<Rightarrow> Inl e
           | Inr path_bytes \<Rightarrow> (case reserve_match_scratch (me_frames env) (length as) fcap path_bytes sp of
               Inl e \<Rightarrow> Inl e
             | Inr fcap' \<Rightarrow> Inr (fr # as, fcap'))))"

definition reserve_path :: "match_env \<Rightarrow> span \<Rightarrow> nat \<Rightarrow> nat \<Rightarrow> nat \<Rightarrow> ku_error + nat" where
  "reserve_path env sp fcap len pcap = (case match_scratch_bytes (me_frames env) fcap sp of
       Inl e \<Rightarrow> Inl e
     | Inr frame_bytes \<Rightarrow> reserve_match_scratch (me_path env) len pcap frame_bytes sp)"

lemma push_match_frame_work:
  "push_match_frame env sp f pcap as fcap = Inr (as', fcap') \<Longrightarrow> frame_of_node p f \<Longrightarrow>
     sum_list (map frame_work as') < Suc (size p + sum_list (map frame_work as))"
  by (auto simp: push_match_frame_def frame_of_node_def frame_work_def split: option.splits if_splits sum.splits)

function match_loop ::
    "match_env \<Rightarrow> span \<Rightarrow> match_pattern \<Rightarrow> 'env match_input \<Rightarrow> value_projection list \<Rightarrow> nat
     \<Rightarrow> 'env match_frame list \<Rightarrow> nat \<Rightarrow> 'env match_binding list \<Rightarrow> match_answer \<times> 'env match_binding list" where
  "match_loop env sp p inp path pcap as fcap bs =
     (case match_node env sp p inp path bs of
        (Inl r, bs') \<Rightarrow> (r, bs')
      | (Inr f, bs') \<Rightarrow> (case push_match_frame env sp f pcap as fcap of
          Inl e \<Rightarrow> (Inl (Raise e), bs')
        | Inr (as1, fcap1) \<Rightarrow> (case next_match as1 of
            None \<Rightarrow> (Inr True, bs')
          | Some (fr, as2) \<Rightarrow>
              let path1 = take (mf_path_len fr) path; index = mf_next fr in
              (case field_input (mf_fields fr) index of
                 None \<Rightarrow> (Inl RustPanic, bs')
               | Some inp' \<Rightarrow> (case reserve_path env sp fcap1 (length path1) pcap of
                   Inl e \<Rightarrow> (Inl (Raise e), bs')
                 | Inr pcap1 \<Rightarrow>
                     match_loop env sp (mf_patterns fr ! index) inp' (path1 @ [VP_EnumField index]) pcap1
                       (fr\<lparr>mf_next := index + 1\<rparr> # as2) fcap1 bs')))))"
  by pat_completeness auto
termination
proof (relation "measure (\<lambda>(env, sp, p, inp, path, pcap, as, fcap, bs). size p + sum_list (map frame_work as))", goal_cases)
  case 1
  then show ?case by simp
next
  case (2 env sp p inp path pcap as fcap bs node bs' f pushed as1 fcap1 nxt fr as2 path1 index inp' pcap1)
  then show ?case
    using frame_work_next [of fr] match_node_frame [of env sp p inp path bs f bs']
      push_match_frame_work [of env sp f pcap as fcap as1 fcap1 p] next_match_work [of as1 fr as2]
    by auto
qed

declare match_loop.simps [simp del]

definition collect_match_bindings ::
    "match_env \<Rightarrow> match_pattern \<Rightarrow> 'env value_t \<Rightarrow> 'env match_binding list \<Rightarrow> value_projection list \<Rightarrow> nat \<Rightarrow> span
     \<Rightarrow> match_answer \<times> 'env match_binding list" where
  "collect_match_bindings env p v bindings path pcap sp =
     (case match_loop env sp p (MI_Direct v) path pcap [] 0 bindings of
        (r, bs) \<Rightarrow> (r, if r = Inr False then take (length bindings) bs else bs))"

end
