(* ===== verification/Match_Exact.thy ===== *)
theory Match_Exact
  imports Match_Bindings
begin

text \<open>
  The match loop agrees with the recursion over the pattern, and the recursion computes what a pattern
  means: a value fits a pattern, and the bindings are the parts of the value at the places of the names.
\<close>

section \<open>The recursion\<close>

function match_rec ::
    "match_env \<Rightarrow> span \<Rightarrow> match_pattern \<Rightarrow> 'env match_input \<Rightarrow> value_projection list \<Rightarrow> 'env match_binding list
     \<Rightarrow> match_answer \<times> 'env match_binding list"
  and match_list ::
    "match_env \<Rightarrow> span \<Rightarrow> match_pattern list \<Rightarrow> nat \<Rightarrow> 'env match_fields \<Rightarrow> value_projection list \<Rightarrow> 'env match_binding list
     \<Rightarrow> match_answer \<times> 'env match_binding list" where
  "match_rec env sp p inp path bs = (case match_node env sp p inp path bs of
       (Inl r, bs') \<Rightarrow> (r, bs')
     | (Inr None, bs') \<Rightarrow> (Inr True, bs')
     | (Inr (Some fr), bs') \<Rightarrow> match_list env sp (mf_patterns fr) 0 (mf_fields fr) path bs')"
| "match_list env sp [] i fs path bs = (Inr True, bs)"
| "match_list env sp (p # ps) i fs path bs = (case field_input fs i of
       None \<Rightarrow> (Inl RustPanic, bs)
     | Some inp \<Rightarrow> (case match_rec env sp p inp (path @ [VP_EnumField i]) bs of
         (Inr True, bs') \<Rightarrow> match_list env sp ps (Suc i) fs path bs'
       | stop \<Rightarrow> stop))"
  by pat_completeness auto
termination
proof (relation "measure (\<lambda>x. case x of Inl (env, sp, p, inp, path, bs) \<Rightarrow> size p
    | Inr (env, sp, ps, i, fs, path, bs) \<Rightarrow> size_list size ps)", goal_cases)
  case (2 env sp p inp path bs node bs' f fr)
  then show ?case using match_node_frame [of env sp p inp path bs "Some fr" bs'] by (auto simp: frame_of_node_def)
qed auto

declare match_rec.simps [simp del]

section \<open>The loop and the recursion\<close>

definition then_do :: "match_answer \<times> 'b \<Rightarrow> ('b \<Rightarrow> match_answer \<times> 'b) \<Rightarrow> match_answer \<times> 'b" where
  "then_do x k = (case x of (Inr True, bs) \<Rightarrow> k bs | _ \<Rightarrow> x)"

lemma then_do_simps [simp]:
  "then_do (Inr True, bs) k = k bs" "then_do (Inl e, bs) k = (Inl e, bs)" "then_do (Inr False, bs) k = (Inr False, bs)"
  by (simp_all add: then_do_def)

lemma then_do_assoc: "then_do (then_do x k) l = then_do x (\<lambda>bs. then_do (k bs) l)"
  by (cases x; cases "fst x") (auto simp: then_do_def split: bool.splits)

lemma match_list_Cons:
  "match_list env sp (p # ps) i fs path bs = (case field_input fs i of
       None \<Rightarrow> (Inl RustPanic, bs)
     | Some inp \<Rightarrow> then_do (match_rec env sp p inp (path @ [VP_EnumField i]) bs) (match_list env sp ps (Suc i) fs path))"
  by (simp add: then_do_def split: option.splits prod.splits sum.splits bool.splits)

declare match_list.simps(2) [simp del]

text \<open>What the open frames still have to do.\<close>

fun resume :: "match_env \<Rightarrow> span \<Rightarrow> value_projection list \<Rightarrow> 'env match_frame list \<Rightarrow> 'env match_binding list
    \<Rightarrow> match_answer \<times> 'env match_binding list" where
  "resume env sp path [] bs = (Inr True, bs)"
| "resume env sp path (fr # as) bs =
     then_do (match_list env sp (drop (mf_next fr) (mf_patterns fr)) (mf_next fr) (mf_fields fr) (take (mf_path_len fr) path) bs)
       (resume env sp path as)"

lemma resume_Cons:
  "resume env sp path (fr # as) = (\<lambda>bs. then_do
     (match_list env sp (drop (mf_next fr) (mf_patterns fr)) (mf_next fr) (mf_fields fr) (take (mf_path_len fr) path) bs)
     (resume env sp path as))"
  by (simp add: fun_eq_iff)

text \<open>The paths of the frames are prefixes of the shared path, outer ones shorter.\<close>

fun stacked :: "nat \<Rightarrow> 'env match_frame list \<Rightarrow> bool" where
  "stacked n [] = True"
| "stacked n (fr # as) = (mf_path_len fr \<le> n \<and> stacked (mf_path_len fr) as)"

lemma stacked_mono: "stacked n as \<Longrightarrow> n \<le> m \<Longrightarrow> stacked m as"
  by (cases as) auto

lemma resume_prefix:
  "stacked n as \<Longrightarrow> take n path = take n path' \<Longrightarrow> resume env sp path as = resume env sp path' as"
proof (induction as arbitrary: n)
  case (Cons fr as)
  then have "take (mf_path_len fr) path = take (mf_path_len fr) path'"
    by (metis min.absorb1 stacked.simps(2) take_take)
  moreover have "resume env sp path as = resume env sp path' as"
    using Cons.prems calculation by (intro Cons.IH [of "mf_path_len fr"]) simp_all
  ultimately show ?case by (intro ext) simp
qed (simp add: fun_eq_iff)

lemma next_match_resume:
  "case next_match as of
     None \<Rightarrow> resume env sp path as bs = (Inr True, bs)
   | Some (fr, as') \<Rightarrow> resume env sp path as bs = resume env sp path (fr # as') bs
       \<and> mf_next fr < length (mf_patterns fr)"
  by (induction as arbitrary: bs rule: next_match.induct) (auto split: option.splits)

lemma next_match_stacked: "next_match as = Some (fr, as') \<Longrightarrow> stacked n as \<Longrightarrow> stacked n (fr # as')"
proof (induction as arbitrary: n rule: next_match.induct)
  case (2 fr0 as)
  then show ?case by (auto split: if_splits dest: stacked_mono)
qed simp

lemma match_node_path_len: "match_node env sp p inp path bs = (Inr (Some fr), bs') \<Longrightarrow> mf_path_len fr = length path \<and> mf_next fr = 0"
  by (auto simp: match_node_def match_direct_def match_view_def frame_new_def Let_def
      split: match_input.splits match_pattern.splits value_t.splits option.splits sum.splits if_splits)

lemma match_node_stop: "match_node env sp p inp path bs = (Inl r, bs') \<Longrightarrow> r \<noteq> Inr True"
  by (auto simp: match_node_def match_direct_def match_view_def Let_def
      split: match_input.splits match_pattern.splits value_t.splits option.splits sum.splits if_splits)

lemma then_do_stop: "r \<noteq> Inr True \<Longrightarrow> then_do (r, bs) k = (r, bs)"
  by (auto simp: then_do_def split: sum.splits bool.splits)

definition scratch_stop :: "span \<Rightarrow> match_answer \<Rightarrow> bool" where
  "scratch_stop sp r = (case r of Inl (Raise e) \<Rightarrow> match_scratch_error sp e | _ \<Rightarrow> False)"

lemma push_match_frame_error: "push_match_frame env sp f pcap as fcap = Inl e \<Longrightarrow> match_scratch_error sp e"
  by (auto simp: push_match_frame_def split: option.splits if_splits sum.splits dest: match_bytes_error reserve_match_error)

lemma reserve_path_error: "reserve_path env sp fcap len pcap = Inl e \<Longrightarrow> match_scratch_error sp e"
  by (auto simp: reserve_path_def split: sum.splits dest: match_bytes_error reserve_match_error)

lemma push_match_frame_resume:
  assumes push: "push_match_frame env sp f pcap as fcap = Inr (as1, fcap1)"
    and node: "match_node env sp p inp path bs = (Inr f, bs')" and st: "stacked (length path) as"
  shows "stacked (length path) as1"
    and "then_do (match_rec env sp p inp path bs) (resume env sp path as) = resume env sp path as1 bs'"
  using assms match_node_path_len [of env sp p inp path bs _ bs']
  by (auto simp: push_match_frame_def match_rec.simps split: option.splits if_splits sum.splits)

lemma match_loop_rec:
  assumes "stacked (length path) as"
  shows "scratch_stop sp (fst (match_loop env sp p inp path pcap as fcap bs))
    \<or> match_loop env sp p inp path pcap as fcap bs = then_do (match_rec env sp p inp path bs) (resume env sp path as)"
  using assms
proof (induction env sp p inp path pcap as fcap bs rule: match_loop.induct)
  case (1 env sp p inp path pcap as fcap bs)
  note unfold = match_loop.simps [of env sp p inp path pcap as fcap bs]
  obtain nd bs' where node: "match_node env sp p inp path bs = (nd, bs')" by (cases "match_node env sp p inp path bs")
  show ?case
  proof (cases nd)
    case (Inl r)
    then show ?thesis using unfold node match_node_stop [of env sp p inp path bs r bs']
      by (simp add: match_rec.simps then_do_stop)
  next
    case f: (Inr f)
    show ?thesis
    proof (cases "push_match_frame env sp f pcap as fcap")
      case (Inl e)
      then show ?thesis using unfold node f push_match_frame_error [OF Inl] by (simp add: scratch_stop_def)
    next
      case (Inr pushed)
      then obtain as1 fcap1 where push: "push_match_frame env sp f pcap as fcap = Inr (as1, fcap1)" by (cases pushed) auto
      note rest = push_match_frame_resume [OF push node [unfolded f] 1(2)]
      show ?thesis
      proof (cases "next_match as1")
        case None
        then show ?thesis using unfold node f push rest next_match_resume [where as = as1 and env = env and sp = sp and path = path and bs = bs'] by simp
      next
        case (Some nxt)
        then obtain fr as2 where nxt: "next_match as1 = Some (fr, as2)" by (cases nxt) auto
        let ?path = "take (mf_path_len fr) path" and ?i = "mf_next fr"
        have st: "stacked (length path) (fr # as2)" using next_match_stacked [OF nxt rest(1)] .
        then have len: "length ?path = mf_path_len fr" by simp
        have lt: "?i < length (mf_patterns fr)" and
          res: "resume env sp path as1 bs' = resume env sp path (fr # as2) bs'"
          using next_match_resume [where as = as1 and env = env and sp = sp and path = path and bs = bs'] nxt by auto
        show ?thesis
        proof (cases "field_input (mf_fields fr) ?i")
          case None
          then show ?thesis using unfold node f push nxt rest(2) res lt
            by (simp add: Let_def Cons_nth_drop_Suc [symmetric] match_list_Cons)
        next
          case inp: (Some inp')
          show ?thesis
          proof (cases "reserve_path env sp fcap1 (length ?path) pcap")
            case (Inl e)
            then show ?thesis using unfold node f push nxt inp reserve_path_error [OF Inl]
              by (simp add: Let_def scratch_stop_def)
          next
            case pcap1: (Inr pcap1)
            let ?fr = "fr\<lparr>mf_next := ?i + 1\<rparr>" and ?path' = "?path @ [VP_EnumField ?i]"
            have st': "stacked (length ?path') (?fr # as2)" using st len by simp
            have pre: "resume env sp ?path' (?fr # as2) = resume env sp path (?fr # as2)"
              by (rule resume_prefix [of "mf_path_len fr"]) (use st len in simp_all)
            have "resume env sp path (fr # as2) bs' =
                then_do (match_rec env sp (mf_patterns fr ! ?i) inp' ?path' bs') (resume env sp path (?fr # as2))"
              using lt inp resume_Cons [of env sp path ?fr as2]
              by (simp add: Cons_nth_drop_Suc [symmetric] match_list_Cons then_do_assoc)
            moreover have "match_loop env sp p inp path pcap as fcap bs =
                match_loop env sp (mf_patterns fr ! ?i) inp' ?path' pcap1 (?fr # as2) fcap1 bs'"
              using unfold node f push nxt inp pcap1 by (simp add: Let_def)
            moreover note 1(1) [OF node [symmetric] f push refl nxt refl refl refl inp pcap1 st']
            ultimately show ?thesis by (simp only: rest(2) res pre)
          qed
        qed
      qed
    qed
  qed
qed

section \<open>What a pattern means\<close>

fun fits :: "owner \<Rightarrow> match_pattern \<Rightarrow> 'env value_t \<Rightarrow> bool" where
  "fits now MP_Wildcard v = True"
| "fits now (MP_Binding _) v = True"
| "fits now (MP_Literal l) v = value_eq now v (value_from_literal l)"
| "fits now (MP_EnumVariant n var ps) v = (case v of
       V_Enum n' var' vs \<Rightarrow> n' = n \<and> var' = var \<and> list_all2 (fits now) ps vs
     | _ \<Rightarrow> False)"

text \<open>The numbers of fields agree wherever the pattern and the value have the same variant.\<close>

fun arity_ok :: "match_pattern \<Rightarrow> 'env value_t \<Rightarrow> bool" where
  "arity_ok (MP_EnumVariant n var ps) v = (case v of
       V_Enum n' var' vs \<Rightarrow> if n' = n \<and> var' = var then list_all2 arity_ok ps vs else True
     | _ \<Rightarrow> True)"
| "arity_ok _ v = True"

text \<open>The names of a pattern with the parts of the value they stand for and their places.\<close>

fun places :: "match_pattern \<Rightarrow> 'env value_t \<Rightarrow> value_projection list \<Rightarrow> (ustring \<times> 'env value_t \<times> value_projection list) list"
  and places_from :: "match_pattern list \<Rightarrow> nat \<Rightarrow> 'env value_t list \<Rightarrow> value_projection list
    \<Rightarrow> (ustring \<times> 'env value_t \<times> value_projection list) list" where
  "places (MP_Binding n) v path = [(n, v, path)]"
| "places (MP_EnumVariant _ _ ps) v path = (case v of V_Enum _ _ vs \<Rightarrow> places_from ps 0 vs path | _ \<Rightarrow> [])"
| "places _ v path = []"
| "places_from (p # ps) i vs path =
     (if i < length vs then places p (vs ! i) (path @ [VP_EnumField i]) else []) @ places_from ps (Suc i) vs path"
| "places_from [] i vs path = []"

definition binding_of :: "ustring \<times> 'env value_t \<times> value_projection list \<Rightarrow> 'env match_binding" where
  "binding_of = (\<lambda>(n, v, path). \<lparr>mb_name = n, mb_value = v, mb_task_path = if owned_tasks v = [] then None else Some path\<rparr>)"

fun binds_nothing :: "match_pattern \<Rightarrow> bool" where
  "binds_nothing (MP_Binding _) = False"
| "binds_nothing (MP_EnumVariant _ _ ps) = list_all binds_nothing ps"
| "binds_nothing _ = True"

definition view_free :: "'env value_t \<Rightarrow> bool" where
  "view_free v \<longleftrightarrow> list_all (\<lambda>x. \<not> is_borrowed x) (preorder_values v)"

text \<open>The value that an input shows to a node, directly or through a view.\<close>

definition sees :: "match_env \<Rightarrow> span \<Rightarrow> 'env match_input \<Rightarrow> value_projection list \<Rightarrow> 'env value_t \<Rightarrow> bool \<Rightarrow> bool" where
  "sees env sp inp path v view = (case inp of
       MI_Direct (V_Borrowed root rpath own) \<Rightarrow> view \<and> borrowed_read (me_now env) root rpath own sp = Inr v
     | MI_Direct u \<Rightarrow> \<not> view \<and> u = v
     | MI_View root rpath own base \<Rightarrow> view \<and> base < length path
         \<and> borrowed_projection_read (me_now env) root rpath own (drop base path) sp = Inr v)"

definition sees_fields :: "match_env \<Rightarrow> span \<Rightarrow> 'env match_fields \<Rightarrow> value_projection list \<Rightarrow> 'env value_t list \<Rightarrow> bool \<Rightarrow> bool" where
  "sees_fields env sp fs path vs view = (case fs of
       MF_Direct us \<Rightarrow> \<not> view \<and> us = vs
     | MF_View root rpath own base \<Rightarrow> view \<and> base \<le> length path
         \<and> (\<exists>n var. borrowed_projection_read (me_now env) root rpath own (drop base path) sp = Inr (V_Enum n var vs)))"

lemma view_free_children: "view_free v \<longleftrightarrow> \<not> is_borrowed v \<and> list_all view_free (children v)"
proof -
  have "list_all (\<lambda>x. \<not> is_borrowed x) (concat (map preorder_values cs)) = list_all view_free cs" for cs :: "'a value_t list"
    by (induction cs) (simp_all add: view_free_def)
  then show ?thesis by (subst view_free_def, subst preorder_values.simps) simp
qed

lemma view_free_enum: "view_free (V_Enum n var vs) \<longleftrightarrow> list_all view_free vs"
  by (subst view_free_children) (simp add: is_borrowed_def children_def owned_children_def)

lemma sees_direct: "\<not> is_borrowed v \<Longrightarrow> sees env sp (MI_Direct v) path v False"
  by (simp add: sees_def is_borrowed_def split: value_t.splits)

lemma projection_read_snoc:
  "borrowed_projection_read now root rpath own rest sp = Inr v \<Longrightarrow> project_one p v = Some u \<Longrightarrow>
   borrowed_projection_read now root rpath own (rest @ [p]) sp = Inr u"
  by (auto simp: borrowed_projection_read_def project_path_append split: sum.splits option.splits)

lemma field_input_sees:
  assumes "i < length vs" "sees_fields env sp fs path vs view" "view_free (vs ! i)"
  shows "\<exists>inp. field_input fs i = Some inp \<and> sees env sp inp (path @ [VP_EnumField i]) (vs ! i) view"
proof (cases fs)
  case (MF_Direct us)
  then show ?thesis using assms by (simp add: field_input_def sees_fields_def sees_direct view_free_children)
next
  case (MF_View root rpath own base)
  then show ?thesis using assms
    by (auto simp: field_input_def sees_fields_def sees_def project_one_def intro!: projection_read_snoc)
qed

text \<open>The errors a match may report: a scratch limit, a field count that does not fit, or a name under a view.\<close>

definition walk_stop :: "span \<Rightarrow> ku_error \<Rightarrow> bool" where
  "walk_stop sp e \<longleftrightarrow> match_scratch_error sp e \<or> e = scratch_limit_error sp \<or> e = scratch_memory_error sp"

definition stop_ok :: "span \<Rightarrow> bool \<Rightarrow> bool \<Rightarrow> bool \<Rightarrow> bool \<Rightarrow> match_answer \<Rightarrow> bool" where
  "stop_ok sp fit arity mute view r = (case r of
       Inr b \<Rightarrow> \<not> b \<and> \<not> fit
     | Inl (Raise e) \<Rightarrow> walk_stop sp e \<or> \<not> arity \<or> view \<and> \<not> mute
     | _ \<Rightarrow> False)"

definition meaning :: "span \<Rightarrow> bool \<Rightarrow> bool \<Rightarrow> bool \<Rightarrow> bool \<Rightarrow> 'b list \<Rightarrow> match_answer \<times> 'b list \<Rightarrow> bool" where
  "meaning sp fit arity mute view expected = (\<lambda>(r, bs).
     if r = Inr True then fit \<and> bs = expected else stop_ok sp fit arity mute view r)"

lemma contains_owned_task_cases:
  obtains (scratch) e where "contains_owned_task env v sp = Some (Inl e)" "walk_stop sp e"
    | (tasks) "contains_owned_task env v sp = Some (Inr (owned_tasks v \<noteq> []))"
  using visit_owned_values_result [of env v sp "visit_test is_task" "()"]
  by (auto simp: contains_owned_task_def visit_test_list task_walk_iff Value_Walk.scratch_error_def walk_stop_def)

lemma direct_node:
  assumes "\<not> is_borrowed v"
  shows "case match_direct env sp p v path bs of
      (Inl r, bs') \<Rightarrow> stop_ok sp (fits (me_now env) p v) (arity_ok p v) (binds_nothing p) False r
    | (Inr None, bs') \<Rightarrow> fits (me_now env) p v \<and> bs' = bs @ map binding_of (places p v path)
    | (Inr (Some fr), bs') \<Rightarrow> bs' = bs \<and> (\<exists>n var vs. v = V_Enum n var vs \<and> p = MP_EnumVariant n var (mf_patterns fr)
        \<and> length (mf_patterns fr) = length vs \<and> sees_fields env sp (mf_fields fr) path vs False)"
proof (cases p)
  case (MP_Binding n)
  then show ?thesis
    by (cases rule: contains_owned_task_cases [of "me_walk env" v sp]) (auto simp: match_direct_def stop_ok_def binding_of_def)
qed (auto simp: match_direct_def stop_ok_def sees_fields_def frame_new_def list_all2_lengthD split: value_t.splits)

lemma owned_tasks_copy: "copy_value v = Some u \<Longrightarrow> u = v \<and> owned_tasks v = []"
  by (subst owned_tasks_children)
    (auto simp: copy_value_def task_of_def children_def owned_children_def split: value_t.splits)

lemma view_node:
  assumes "borrowed_projection_read (me_now env) root rpath own (drop base path) sp = Inr v" and "base \<le> length path"
  shows "case match_view env sp p root rpath own base path bs of
      (Inl r, bs') \<Rightarrow> stop_ok sp (fits (me_now env) p v) (arity_ok p v) (binds_nothing p) True r
    | (Inr None, bs') \<Rightarrow> fits (me_now env) p v \<and> bs' = bs @ map binding_of (places p v path)
    | (Inr (Some fr), bs') \<Rightarrow> bs' = bs \<and> (\<exists>n var vs. v = V_Enum n var vs \<and> p = MP_EnumVariant n var (mf_patterns fr)
        \<and> length (mf_patterns fr) = length vs \<and> sees_fields env sp (mf_fields fr) path vs True)"
proof (cases p)
  case (MP_Binding n)
  then show ?thesis using assms
    by (cases "copy_value v") (auto simp: match_view_def stop_ok_def binding_of_def dest: owned_tasks_copy)
qed (use assms in \<open>auto simp: match_view_def stop_ok_def sees_fields_def frame_new_def list_all2_lengthD split: value_t.splits\<close>)

lemma sees_node:
  assumes "sees env sp inp path v view"
  shows "case match_node env sp p inp path bs of
      (Inl r, bs') \<Rightarrow> stop_ok sp (fits (me_now env) p v) (arity_ok p v) (binds_nothing p) view r
    | (Inr None, bs') \<Rightarrow> fits (me_now env) p v \<and> bs' = bs @ map binding_of (places p v path)
    | (Inr (Some fr), bs') \<Rightarrow> bs' = bs \<and> (\<exists>n var vs. v = V_Enum n var vs \<and> p = MP_EnumVariant n var (mf_patterns fr)
        \<and> length (mf_patterns fr) = length vs \<and> sees_fields env sp (mf_fields fr) path vs view)"
proof (cases inp)
  case (MI_Direct u)
  show ?thesis
  proof (cases "is_borrowed u")
    case True
    then obtain root rpath own where u: "u = V_Borrowed root rpath own" by (auto simp: is_borrowed_def split: value_t.splits)
    then have "borrowed_projection_read (me_now env) root rpath own (drop (length path) path) sp = Inr v" and view: "view = True"
      using assms MI_Direct by (auto simp: sees_def borrowed_projection_read_def)
    then show ?thesis using view_node [of env root rpath own "length path" path sp v p bs] MI_Direct u
      unfolding view by (simp add: match_node_def)
  next
    case False
    then have "u = v" and view: "view = False" and "match_node env sp p inp path bs = match_direct env sp p u path bs"
      using assms MI_Direct by (auto simp: sees_def is_borrowed_def match_node_def split: value_t.splits)
    then show ?thesis using direct_node [where v = v and env = env and sp = sp and p = p and path = path and bs = bs] False unfolding view by simp
  qed
next
  case (MI_View root rpath own base)
  then have view: "view = True" using assms by (simp add: sees_def)
  show ?thesis using view_node [of env root rpath own base path sp v p bs] assms MI_View
    unfolding view by (simp add: sees_def match_node_def)
qed

lemma stop_ok_mono:
  "stop_ok sp fit arity mute view r \<Longrightarrow> stop_ok sp (fit \<and> fit') (arity \<and> arity') (mute \<and> mute') view r"
  by (auto simp: stop_ok_def split: sum.splits fault.splits)

lemma stop_ok_True [simp]: "\<not> stop_ok sp fit arity mute view (Inr True)"
  by (simp add: stop_ok_def)

text \<open>A first component that does not answer yes decides; otherwise the rest does.\<close>

lemma meaning_then:
  assumes "meaning sp fit1 arity1 mute1 view xs1 x"
    and "x = (Inr True, xs1) \<Longrightarrow> meaning sp fit2 arity2 mute2 view xs2 (k xs1)"
  shows "meaning sp (fit1 \<and> fit2) (arity1 \<and> arity2) (mute1 \<and> mute2) view xs2 (then_do x k)"
proof (cases x)
  case (Pair r bs)
  show ?thesis
  proof (cases "r = Inr True")
    case True
    then have "fit1" "bs = xs1" using assms(1) Pair by (simp_all add: meaning_def)
    then show ?thesis using assms(2) True Pair
      by (auto simp: meaning_def stop_ok_def split: prod.splits sum.splits fault.splits bool.splits)
  next
    case False
    then show ?thesis using assms(1) Pair stop_ok_mono by (auto simp: then_do_stop meaning_def)
  qed
qed

lemma match_rec_meaning:
  "sees env sp inp path v view \<Longrightarrow> view_free v \<Longrightarrow>
   meaning sp (fits (me_now env) p v) (arity_ok p v) (binds_nothing p) view (bs @ map binding_of (places p v path))
     (match_rec env sp p inp path bs)"
  and match_list_meaning:
  "sees_fields env sp fs path vs view \<Longrightarrow> list_all view_free vs \<Longrightarrow> length ps + i = length vs \<Longrightarrow>
   meaning sp (list_all2 (fits (me_now env)) ps (drop i vs)) (list_all2 arity_ok ps (drop i vs)) (list_all binds_nothing ps) view
     (bs @ map binding_of (places_from ps i vs path)) (match_list env sp ps i fs path bs)"
proof (induction env sp p inp path bs and env sp ps i fs path bs arbitrary: v view and vs view rule: match_rec_match_list.induct)
  case (1 env sp p inp path bs)
  obtain nd bs' where node: "match_node env sp p inp path bs = (nd, bs')" by (cases "match_node env sp p inp path bs")
  note eff = sees_node [OF 1(2), of p bs, unfolded node]
  show ?case
  proof (cases nd)
    case (Inl r)
    then show ?thesis using eff node by (auto simp: match_rec.simps meaning_def)
  next
    case f: (Inr f)
    show ?thesis
    proof (cases f)
      case None
      then show ?thesis using eff node f by (simp add: match_rec.simps meaning_def)
    next
      case (Some fr)
      then obtain n var vs where v: "v = V_Enum n var vs" "p = MP_EnumVariant n var (mf_patterns fr)" "bs' = bs"
        and len: "length (mf_patterns fr) = length vs" and sees: "sees_fields env sp (mf_fields fr) path vs view"
        using eff f by auto
      have "list_all view_free vs" using 1(3) v by (simp add: view_free_enum)
      from 1(1) [OF node [symmetric] f Some sees this] len v node f Some
      show ?thesis by (simp add: match_rec.simps)
    qed
  qed
next
  case (2 env sp i fs path bs)
  then show ?case by (simp add: meaning_def)
next
  case (3 env sp p ps i fs path bs)
  then have i: "i < length vs" by simp
  have free: "view_free (vs ! i)" using 3(4) i by (simp add: list_all_length)
  obtain inp where inp: "field_input fs i = Some inp" "sees env sp inp (path @ [VP_EnumField i]) (vs ! i) view"
    using field_input_sees [OF i 3(3) free] by blast
  have "meaning sp (fits (me_now env) p (vs ! i) \<and> list_all2 (fits (me_now env)) ps (drop (Suc i) vs))
      (arity_ok p (vs ! i) \<and> list_all2 arity_ok ps (drop (Suc i) vs)) (binds_nothing p \<and> list_all binds_nothing ps) view
      ((bs @ map binding_of (places p (vs ! i) (path @ [VP_EnumField i]))) @ map binding_of (places_from ps (Suc i) vs path))
      (then_do (match_rec env sp p inp (path @ [VP_EnumField i]) bs) (match_list env sp ps (Suc i) fs path))"
    by (rule meaning_then [OF 3(1) [OF inp(1,2) free] 3(2) [OF inp(1) sym refl refl]]) (use 3(3-5) in auto)
  then show ?case using i inp by (simp add: match_list_Cons Cons_nth_drop_Suc [symmetric])
qed

section \<open>Properties\<close>

lemma match_node_appends: "\<exists>xs. snd (match_node env sp p inp path bs) = bs @ xs"
  by (auto simp: match_node_def match_direct_def match_view_def Let_def
      split: match_input.splits match_pattern.splits value_t.splits option.splits sum.splits if_splits)

lemma match_loop_appends: "\<exists>xs. snd (match_loop env sp p inp path pcap as fcap bs) = bs @ xs"
proof (induction env sp p inp path pcap as fcap bs rule: match_loop.induct)
  case (1 env sp p inp path pcap as fcap bs)
  obtain nd xs where node: "match_node env sp p inp path bs = (nd, bs @ xs)"
    using match_node_appends [of env sp p inp path bs] by (metis prod.collapse)
  show ?case
  proof (cases "\<exists>as1 fcap1 fr as2 inp' pcap1 f. nd = Inr f \<and> push_match_frame env sp f pcap as fcap = Inr (as1, fcap1)
      \<and> next_match as1 = Some (fr, as2) \<and> field_input (mf_fields fr) (mf_next fr) = Some inp'
      \<and> reserve_path env sp fcap1 (length (take (mf_path_len fr) path)) pcap = Inr pcap1")
    case True
    then obtain as1 fcap1 fr as2 inp' pcap1 f where eqs: "nd = Inr f" "push_match_frame env sp f pcap as fcap = Inr (as1, fcap1)"
      "next_match as1 = Some (fr, as2)" "field_input (mf_fields fr) (mf_next fr) = Some inp'"
      "reserve_path env sp fcap1 (length (take (mf_path_len fr) path)) pcap = Inr pcap1" by blast
    from 1 [OF node [symmetric] eqs(1,2) refl eqs(3) refl refl refl eqs(4,5)] eqs node show ?thesis
      by (subst match_loop.simps) (auto simp: Let_def)
  next
    case False
    then show ?thesis using node
      by (subst match_loop.simps) (auto simp: Let_def split: sum.splits prod.splits option.splits)
  qed
qed

text \<open>Why a match may fail: a scratch limit, a field count that differs from the pattern's, or a name that
  would take a value out of a view.\<close>

definition match_failure :: "span \<Rightarrow> match_pattern \<Rightarrow> 'env value_t \<Rightarrow> bool \<Rightarrow> ku_error \<Rightarrow> bool" where
  "match_failure sp p v view e \<longleftrightarrow> walk_stop sp e \<or> \<not> arity_ok p v \<or> view \<and> \<not> binds_nothing p"

text \<open>C29: Matching is exact. For every owned value, and for every readable view of one, the loop answers yes
  only if the value fits the pattern, and then it has appended, in pattern order, for each name the part
  of the value at the place of the name, with the path to it exactly if the part owns a task; it answers
  no only if the value does not fit, and then it leaves the bindings as they were; it fails only at a
  scratch limit, on a wrong number of fields, or on a name below a view. It never panics.\<close>

theorem match_bindings_exact:
  "case value_read (me_now env) v sp of
     Inl _ \<Rightarrow> True
   | Inr u \<Rightarrow> (if view_free u then
       (case collect_match_bindings env p v bs path pcap sp of
          (Inr True, bs') \<Rightarrow> fits (me_now env) p u \<and> bs' = bs @ map binding_of (places p u path)
        | (Inr False, bs') \<Rightarrow> \<not> fits (me_now env) p u \<and> bs' = bs
        | (Inl (Raise e), _) \<Rightarrow> match_failure sp p u (is_borrowed v) e
        | _ \<Rightarrow> False)
      else True)"
proof (cases "value_read (me_now env) v sp")
  case (Inr u)
  show ?thesis
  proof (cases "view_free u")
    case True
    have sees: "sees env sp (MI_Direct v) path u (is_borrowed v)"
      using Inr True by (auto simp: value_read_def sees_def is_borrowed_def split: value_t.splits)
    obtain r bs' where loop: "match_loop env sp p (MI_Direct v) path pcap [] 0 bs = (r, bs')"
      by (cases "match_loop env sp p (MI_Direct v) path pcap [] 0 bs")
    obtain xs where app: "bs' = bs @ xs"
      using match_loop_appends [of env sp p "MI_Direct v" path pcap "[]" 0 bs] loop by auto
    have "scratch_stop sp r \<or> (r, bs') = match_rec env sp p (MI_Direct v) path bs"
    proof -
      have "then_do x (resume env sp path []) = x" for x :: "match_answer \<times> 'a match_binding list"
        by (cases x) (auto simp: then_do_def split: sum.splits bool.splits)
      then show ?thesis using match_loop_rec [of path "[]" sp env p "MI_Direct v" pcap 0 bs] loop by simp
    qed
    moreover have "meaning sp (fits (me_now env) p u) (arity_ok p u) (binds_nothing p) (is_borrowed v)
        (bs @ map binding_of (places p u path)) (match_rec env sp p (MI_Direct v) path bs)"
      using sees True by (rule match_rec_meaning)
    ultimately have "if r = Inr True then fits (me_now env) p u \<and> bs' = bs @ map binding_of (places p u path)
        else stop_ok sp (fits (me_now env) p u) (arity_ok p u) (binds_nothing p) (is_borrowed v) r"
      by (auto simp: meaning_def scratch_stop_def stop_ok_def walk_stop_def split: sum.splits fault.splits prod.splits)
    then show ?thesis using Inr True loop app
      by (auto simp: collect_match_bindings_def stop_ok_def match_failure_def split: sum.splits fault.splits bool.splits)
  qed (simp add: Inr)
qed simp

text \<open>A task inside a payload is bound with the path to it; a literal that differs undoes the bindings.\<close>

lemma match_bindings_example:
  fixes env :: match_env and task :: "unit value_t"
  defines "env \<equiv> \<lparr>me_now = \<lparr>ow_thread = 0, ow_task = 0\<rparr>, me_walk = \<lparr>we_frame_bytes = 24, we_alloc = Some\<rparr>,
      me_frames = \<lparr>se_elem_bytes = 64, se_alloc = Some\<rparr>, me_path = \<lparr>se_elem_bytes = 32, se_alloc = Some\<rparr>\<rparr>"
    and "task \<equiv> V_Task \<lparr>th_id = 1, th_state = 5\<rparr>"
  shows "collect_match_bindings env (MP_EnumVariant (lit ''E'') (lit ''A'') [MP_Binding (lit ''x''), MP_Literal (Lit_Int 3)])
      (V_Enum (lit ''E'') (lit ''A'') [task, V_Int 3]) [] [] 0 Span_default
     = (Inr True, [\<lparr>mb_name = lit ''x'', mb_value = task, mb_task_path = Some [VP_EnumField 0]\<rparr>])"
    and "collect_match_bindings env (MP_EnumVariant (lit ''E'') (lit ''A'') [MP_Binding (lit ''x''), MP_Literal (Lit_Int 4)])
      (V_Enum (lit ''E'') (lit ''A'') [task, V_Int 3]) [] [] 0 Span_default = (Inr False, [])"
  unfolding env_def task_def by code_simp+

end
