(* ===== verification/Wait_Graph.thy ===== *)
theory Wait_Graph
  imports Rust_Num
begin

unbundle bit_operations_syntax

text \<open>
  Two shared structures of the task runtime (\<open>src/src/runtime/task.rs\<close>). The wait graph records which
  task awaits which; \<open>register_wait\<close> refuses an edge that would close a cycle. The producer gate is one
  atomic word whose high bit closes admission and whose other bits count admitted producers.
\<close>

section \<open>The wait graph\<close>

type_synonym wait_edges = "i64 \<rightharpoonup> i64"

definition MAX_AWAIT_DEPTH :: nat where
  "MAX_AWAIT_DEPTH = 64"

datatype wait_outcome = Await_Free | Await_Cycle | Await_Depth

fun follow_wait :: "nat \<Rightarrow> i64 \<Rightarrow> i64 \<Rightarrow> wait_edges \<Rightarrow> wait_outcome" where
  "follow_wait 0 current node edges = Await_Depth"
| "follow_wait (Suc n) current node edges =
     (if node = current then Await_Cycle
      else case edges node of
        None \<Rightarrow> Await_Free
      | Some nxt \<Rightarrow> follow_wait n current nxt edges)"

definition register_wait :: "i64 \<Rightarrow> i64 \<Rightarrow> wait_edges \<Rightarrow> wait_outcome \<times> wait_edges" where
  "register_wait current target edges =
     (let edges' = edges(current \<mapsto> target) in
      case follow_wait MAX_AWAIT_DEPTH current target edges' of
        Await_Free \<Rightarrow> (Await_Free, edges')
      | r \<Rightarrow> (r, edges'(current := None)))"

definition clear_wait :: "i64 \<Rightarrow> wait_edges \<Rightarrow> wait_edges" where
  "clear_wait current edges = edges(current := None)"

datatype wait_op = Register i64 i64 | Clear i64

fun wait_step :: "wait_op \<Rightarrow> wait_edges \<Rightarrow> wait_edges" where
  "wait_step (Register current target) edges = snd (register_wait current target edges)"
| "wait_step (Clear current) edges = clear_wait current edges"

definition waits_for :: "wait_edges \<Rightarrow> (i64 \<times> i64) set" where
  "waits_for edges = {(a, b). edges a = Some b}"

lemma waits_for_upd: "waits_for (edges(c \<mapsto> t)) = insert (c, t) (waits_for (edges(c := None)))"
  by (auto simp: waits_for_def split: if_splits)

lemma waits_for_clear: "waits_for (edges(c := None)) \<subseteq> waits_for edges"
  by (auto simp: waits_for_def split: if_splits)

lemma waits_for_step: "(x, z) \<in> (waits_for edges)\<^sup>* \<Longrightarrow> x \<noteq> z \<Longrightarrow> \<exists>y. edges x = Some y \<and> (y, z) \<in> (waits_for edges)\<^sup>*"
  by (erule converse_rtranclE) (auto simp: waits_for_def)

lemma follow_free:
  "follow_wait n c x edges = Await_Free \<Longrightarrow> (x, c) \<notin> (waits_for (edges(c := None)))\<^sup>*"
proof (induction n arbitrary: x)
  case (Suc n)
  then have "x \<noteq> c" by (auto split: if_splits)
  show ?case
  proof
    assume "(x, c) \<in> (waits_for (edges(c := None)))\<^sup>*"
    with \<open>x \<noteq> c\<close> obtain y where y: "edges x = Some y" "(y, c) \<in> (waits_for (edges(c := None)))\<^sup>*"
      using waits_for_step by force
    with Suc.prems \<open>x \<noteq> c\<close> have "follow_wait n c y edges = Await_Free" by simp
    with Suc.IH y show False by blast
  qed
qed simp

lemma follow_cycle:
  "follow_wait n c x edges = Await_Cycle \<Longrightarrow> (x, c) \<in> (waits_for (edges(c := None)))\<^sup>*"
proof (induction n arbitrary: x)
  case (Suc n)
  show ?case
  proof (cases "x = c")
    case False
    with Suc.prems obtain y where "edges x = Some y" "follow_wait n c y edges = Await_Cycle" by (auto split: option.splits)
    with Suc.IH False show ?thesis
      by (auto simp: waits_for_def intro: converse_rtrancl_into_rtrancl)
  qed simp
qed simp

lemma follow_depth:
  "follow_wait n c x edges = Await_Depth \<Longrightarrow> \<exists>y. (x, y) \<in> waits_for (edges(c := None)) ^^ n"
proof (induction n arbitrary: x)
  case (Suc n)
  then obtain y where "edges x = Some y" "x \<noteq> c" "follow_wait n c y edges = Await_Depth"
    by (auto split: option.splits if_splits)
  moreover from this have "(x, y) \<in> waits_for (edges(c := None))" by (simp add: waits_for_def)
  ultimately show ?case using Suc.IH [of y] relpow_Suc_I2 by metis
qed auto

lemma wait_step_acyclic: "acyclic (waits_for edges) \<Longrightarrow> acyclic (waits_for (wait_step w edges))"
proof (induction w)
  case (Register c t)
  have "acyclic (waits_for (edges(c := None)))" using Register waits_for_clear acyclic_subset by blast
  moreover have "follow_wait MAX_AWAIT_DEPTH c t (edges(c \<mapsto> t)) = Await_Free \<Longrightarrow>
      (t, c) \<notin> (waits_for (edges(c := None)))\<^sup>*"
    using follow_free [of MAX_AWAIT_DEPTH c t "edges(c \<mapsto> t)"] by simp
  ultimately show ?case
    by (cases "follow_wait MAX_AWAIT_DEPTH c t (edges(c \<mapsto> t))")
       (simp_all only: wait_step.simps register_wait_def Let_def wait_outcome.case snd_conv fun_upd_upd waits_for_upd acyclic_insert not_False_eq_True simp_thms)
qed (auto simp: clear_wait_def intro: acyclic_subset [OF _ waits_for_clear])

lemma wait_step_finite: "finite (dom edges) \<Longrightarrow> finite (dom (wait_step w edges))"
  by (cases w) (auto simp: register_wait_def clear_wait_def Let_def split: wait_outcome.splits)

lemma wait_run:
  "acyclic (waits_for (fold wait_step ws Map.empty)) \<and> finite (dom (fold wait_step ws Map.empty))"
proof (induction ws rule: rev_induct)
  case Nil
  show ?case by (simp add: waits_for_def acyclic_def)
qed (simp add: wait_step_acyclic wait_step_finite)

lemma waits_for_finite: "finite (dom edges) \<Longrightarrow> finite (waits_for edges)"
  by (rule finite_subset [of _ "(\<lambda>a. (a, the (edges a))) ` dom edges"]) (force simp: waits_for_def dom_def image_def)+

lemma waiting_chain_ends: "wf ((waits_for edges)\<inverse>) \<Longrightarrow> \<exists>b. (a, b) \<in> (waits_for edges)\<^sup>* \<and> edges b = None"
proof (induction a rule: wf_induct_rule)
  case (less a)
  show ?case
  proof (cases "edges a")
    case (Some y)
    then have "(a, y) \<in> waits_for edges" by (simp add: waits_for_def)
    with less.IH [of y] show ?thesis by (meson converse_iff converse_rtrancl_into_rtrancl)
  qed blast
qed

section \<open>The producer gate\<close>

definition PRODUCER_CLOSED_BIT :: "64 word" where
  "PRODUCER_CLOSED_BIT = push_bit 63 1"

definition PRODUCER_COUNT_MASK :: "64 word" where
  "PRODUCER_COUNT_MASK = PRODUCER_CLOSED_BIT - 1"

datatype producer_admission = Admitted | Closed | Overflow

text \<open>The update closure of \<open>fetch_update\<close> and what \<open>begin\<close> makes of its outcome.\<close>

definition ProducerAdmission_begin :: "64 word \<Rightarrow> producer_admission \<times> 64 word" where
  "ProducerAdmission_begin gate =
     (if gate AND PRODUCER_CLOSED_BIT \<noteq> 0 then (Closed, gate)
      else if gate \<noteq> - 1 \<and> (gate + 1) AND PRODUCER_CLOSED_BIT = 0 then (Admitted, gate + 1)
      else (Overflow, gate))"

definition ProducerResponsibility_drop :: "64 word \<Rightarrow> 64 word" where
  "ProducerResponsibility_drop gate = gate - 1"

definition close_producers :: "64 word \<Rightarrow> 64 word" where
  "close_producers gate = gate OR PRODUCER_CLOSED_BIT"

definition producer_count :: "64 word \<Rightarrow> 64 word" where
  "producer_count gate = gate AND PRODUCER_COUNT_MASK"

text \<open>The atomic steps of all threads in some order, beside the number of live responsibilities and
  whether shutdown has started. Only a live responsibility is dropped.\<close>

datatype gate_op = Gate_Begin | Gate_Retire | Gate_Close

fun gate_step :: "gate_op \<Rightarrow> 64 word \<times> nat \<times> bool \<Rightarrow> 64 word \<times> nat \<times> bool" where
  "gate_step Gate_Begin (gate, live, closed) =
     (case ProducerAdmission_begin gate of
        (Admitted, gate') \<Rightarrow> (gate', Suc live, closed)
      | (_, gate') \<Rightarrow> (gate', live, closed))"
| "gate_step Gate_Retire (gate, live, closed) =
     (if live = 0 then (gate, live, closed) else (ProducerResponsibility_drop gate, live - 1, closed))"
| "gate_step Gate_Close (gate, live, closed) = (close_producers gate, live, True)"

definition gate_inv :: "64 word \<times> nat \<times> bool \<Rightarrow> bool" where
  "gate_inv = (\<lambda>(gate, live, closed). live < 2 ^ 63 \<and> unat gate = live + (if closed then 2 ^ 63 else 0))"

lemma closed_bit: "gate AND PRODUCER_CLOSED_BIT = 0 \<longleftrightarrow> \<not> bit gate 63"
  unfolding PRODUCER_CLOSED_BIT_def push_bit_of_1 by (rule and_exp_eq_0_iff_not_bit)

lemma unat64: "unat (gate :: 64 word) < 2 * 2 ^ 63"
proof -
  have "unat gate < 2 ^ LENGTH(64)" by (rule unsigned_less)
  then show ?thesis by simp
qed

lemma top_bit: "bit (gate :: 64 word) 63 \<longleftrightarrow> 2 ^ 63 \<le> unat gate"
proof -
  have "bit gate 63 \<longleftrightarrow> odd (unat gate div 2 ^ 63)"
    by (metis bit_iff_odd bit_unsigned_iff possible_bit_def possible_bit_nat)
  moreover have "unat gate div 2 ^ 63 < 2" using unat64 [of gate] by (simp add: less_mult_imp_div_less)
  ultimately show ?thesis by (cases "2 ^ 63 \<le> unat gate") (auto simp: less_2_cases_iff div_eq_0_iff)
qed

lemma count_mod: "unat (producer_count gate) = unat gate mod 2 ^ 63"
proof -
  have "PRODUCER_COUNT_MASK = mask 63"
    unfolding PRODUCER_COUNT_MASK_def PRODUCER_CLOSED_BIT_def push_bit_of_1 by (rule mask_eq_exp_minus_1 [symmetric])
  then have "producer_count gate = take_bit 63 gate" unfolding producer_count_def by (simp only: take_bit_eq_mask)
  then show ?thesis by (simp only: unsigned_take_bit_eq) (simp add: take_bit_eq_mod)
qed

lemma close_unat: "unat (close_producers gate) = unat gate mod 2 ^ 63 + 2 ^ 63"
proof -
  have close: "close_producers gate = gate + of_bool (\<not> bit gate 63) * 2 ^ 63"
    unfolding close_producers_def PRODUCER_CLOSED_BIT_def by (simp only: set_bit_eq_or [symmetric] set_bit_eq)
  show ?thesis using unat64 [of gate]
    by (cases "2 ^ 63 \<le> unat gate") (auto simp: close top_bit unat_word_ariths mod_if)
qed

lemma gate_step_inv: "gate_inv s \<Longrightarrow> gate_inv (gate_step r s)"
proof (induction r s rule: gate_step.induct)
  case (1 gate live closed)
  show ?case
  proof (cases "bit gate 63")
    case False
    then have "\<not> closed" "unat gate = live" "unat (gate + 1) = Suc live" 
      using 1 by (auto simp: gate_inv_def top_bit unat_word_ariths split: if_splits)
    then show ?thesis using 1 False
      by (auto simp: gate_inv_def ProducerAdmission_begin_def closed_bit top_bit)
  qed (use 1 in \<open>simp add: ProducerAdmission_begin_def closed_bit\<close>)
next
  case (2 gate live closed)
  then show ?case
    by (auto simp: gate_inv_def ProducerResponsibility_drop_def unat_sub_if_size)
next
  case (3 gate live closed)
  then show ?case by (auto simp: gate_inv_def close_unat)
qed

lemma gate_run_inv: "gate_inv (fold gate_step rs (0, 0, False))"
proof (induction rs rule: rev_induct)
  case Nil
  show ?case by (simp add: gate_inv_def)
qed (simp add: gate_step_inv)

section \<open>Properties\<close>

text \<open>C35: Waiting never closes a cycle. After any sequence of registrations and clearings, in any
  interleaving, every chain of waiting tasks ends in a task that waits for nobody. A registration is
  refused as a cycle only if the target already waits, directly or not, for the current task, and as too
  deep only behind a chain of 64 waiting tasks; an accepted one is recorded and a refused one is not.\<close>

theorem wait_graph_deadlock_free:
  "let edges = fold wait_step ws Map.empty in
     (\<forall>a. \<exists>b. (a, b) \<in> (waits_for edges)\<^sup>* \<and> edges b = None)
     \<and> (case register_wait current target edges of
          (Await_Free, edges') \<Rightarrow> edges' = edges(current \<mapsto> target)
        | (Await_Cycle, edges') \<Rightarrow> edges' = edges(current := None) \<and> (target, current) \<in> (waits_for edges')\<^sup>*
        | (Await_Depth, edges') \<Rightarrow> edges' = edges(current := None) \<and> (\<exists>b. (target, b) \<in> waits_for edges' ^^ 64))"
proof -
  define edges where "edges = fold wait_step ws Map.empty"
  let ?e = "edges(current \<mapsto> target)"
  have "wf ((waits_for edges)\<inverse>)"
    using wait_run [of ws] waits_for_finite [of edges] by (simp add: edges_def finite_acyclic_wf_converse)
  then have ends: "\<exists>b. (a, b) \<in> (waits_for edges)\<^sup>* \<and> edges b = None" for a by (rule waiting_chain_ends)
  have none: "?e(current := None) = edges(current := None)" by simp
  have "case register_wait current target edges of
          (Await_Free, edges') \<Rightarrow> edges' = edges(current \<mapsto> target)
        | (Await_Cycle, edges') \<Rightarrow> edges' = edges(current := None) \<and> (target, current) \<in> (waits_for edges')\<^sup>*
        | (Await_Depth, edges') \<Rightarrow> edges' = edges(current := None) \<and> (\<exists>b. (target, b) \<in> waits_for edges' ^^ 64)"
    using follow_cycle [of MAX_AWAIT_DEPTH current target ?e] follow_depth [of MAX_AWAIT_DEPTH current target ?e]
    unfolding none
    by (cases "follow_wait MAX_AWAIT_DEPTH current target ?e")
       (simp_all only: register_wait_def Let_def wait_outcome.case prod.case none simp_thms MAX_AWAIT_DEPTH_def)
  with ends show ?thesis by (simp add: Let_def flip: edges_def)
qed

text \<open>The producer gate counts exactly. After any interleaving of admissions, retirements and
  closings the low bits are the number of live producers and the high bit says whether shutdown has
  started; an admission is refused as closed exactly after shutdown, and as an overflow only with
  $2^{63} - 1$ live producers.\<close>

lemma producer_gate_exact:
  "case fold gate_step rs (0, 0, False) of (gate, live, closed) \<Rightarrow>
     unat (producer_count gate) = live
     \<and> (case ProducerAdmission_begin gate of
          (Admitted, gate') \<Rightarrow> unat (producer_count gate') = Suc live \<and> \<not> closed
        | (Closed, gate') \<Rightarrow> gate' = gate \<and> closed
        | (Overflow, gate') \<Rightarrow> gate' = gate \<and> \<not> closed \<and> live = 2 ^ 63 - 1)"
proof -
  obtain gate live closed where run: "fold gate_step rs (0, 0, False) = (gate, live, closed)"
    by (metis prod_cases3)
  have inv: "gate_inv (gate, live, closed)" using gate_run_inv [of rs] run by simp
  consider (closed) closed "bit gate 63" "2 ^ 63 \<le> unat gate" | (unclosed) "\<not> closed" "\<not> bit gate 63" "unat gate = live"
      "unat (gate + 1) = Suc live" 
    using inv by (auto simp: gate_inv_def top_bit unat_word_ariths split: if_splits)
  then show ?thesis
    using inv by cases
      (auto simp: run gate_inv_def ProducerAdmission_begin_def closed_bit count_mod top_bit)
qed

end
