(* ===== verification/Termination_Context.thy ===== *)
theory Termination_Context
  imports Span_Error
begin

text \<open>
  Cooperative termination (\<open>src/src/runtime/task/cancellation.rs\<close>, and the producer gate and the wait graph
  of \<open>src/src/runtime/task.rs\<close>). A thread has three places where a termination can be seen: the cleanup
  window, the latch of the synchronous execution, and the cancellation of the task it runs. Guards
  install and restore the first two; they are locals of one thread, so a run of a thread is a properly
  nested sequence of actions.
\<close>

section \<open>The slots of a thread\<close>

record thread_slots =
  cleanup_slot :: "runtime_termination option"
  execution_slot :: "runtime_termination option"
  task_slot :: "runtime_termination option"

text \<open>An earlier termination keeps its reason; a later one can only bring the deadline forward.\<close>

definition tightened :: "runtime_termination \<Rightarrow> nat \<Rightarrow> runtime_termination" where
  "tightened previous d = \<lparr>rt_reason = rt_reason previous, rt_cleanup_deadline = min (rt_cleanup_deadline previous) d\<rparr>"

definition current_cleanup_context :: "thread_slots \<Rightarrow> runtime_termination option" where
  "current_cleanup_context t = cleanup_slot t"

definition current_execution_termination :: "thread_slots \<Rightarrow> runtime_termination option" where
  "current_execution_termination t = execution_slot t"

definition or_else :: "'a option \<Rightarrow> 'a option \<Rightarrow> 'a option" where
  "or_else x y = (case x of Some a \<Rightarrow> Some a | None \<Rightarrow> y)"

definition current_termination :: "thread_slots \<Rightarrow> runtime_termination option" where
  "current_termination t = or_else (or_else (current_cleanup_context t) (current_execution_termination t)) (task_slot t)"

definition RuntimeTermination_with_deadline :: "termination_reason \<Rightarrow> nat \<Rightarrow> thread_slots \<Rightarrow> runtime_termination" where
  "RuntimeTermination_with_deadline reason d t = (case current_termination t of
       Some inherited \<Rightarrow> tightened inherited d
     | None \<Rightarrow> \<lparr>rt_reason = reason, rt_cleanup_deadline = d\<rparr>)"

text \<open>One second in the ticks of \<open>Instant\<close>; \<open>instant_MAX\<close> is the platform's last instant.\<close>

definition one_second :: nat where
  "one_second = 1000000000"

definition RuntimeTermination_new :: "nat \<Rightarrow> termination_reason \<Rightarrow> nat \<Rightarrow> thread_slots \<Rightarrow> runtime_termination" where
  "RuntimeTermination_new instant_MAX reason now t =
     RuntimeTermination_with_deadline reason
       (if now + one_second \<le> instant_MAX then now + one_second else now) t"

definition latch :: "runtime_termination \<Rightarrow> runtime_termination option \<Rightarrow> runtime_termination option" where
  "latch ctx sl = Some (case sl of
       Some previous \<Rightarrow> tightened previous (rt_cleanup_deadline ctx)
     | None \<Rightarrow> ctx)"

definition set_execution_termination :: "runtime_termination \<Rightarrow> thread_slots \<Rightarrow> thread_slots" where
  "set_execution_termination ctx t = t\<lparr>execution_slot := latch ctx (execution_slot t)\<rparr>"

definition ExecutionTerminationGuard_enter :: "thread_slots \<Rightarrow> runtime_termination option \<times> thread_slots" where
  "ExecutionTerminationGuard_enter t = (execution_slot t, t\<lparr>execution_slot := None\<rparr>)"

definition ExecutionTerminationGuard_drop :: "runtime_termination option \<Rightarrow> thread_slots \<Rightarrow> thread_slots" where
  "ExecutionTerminationGuard_drop previous t = t\<lparr>execution_slot := previous\<rparr>"

definition CleanupGuard_enter ::
    "runtime_termination \<Rightarrow> thread_slots \<Rightarrow> runtime_termination option \<times> thread_slots" where
  "CleanupGuard_enter ctx t = (cleanup_slot t, t\<lparr>cleanup_slot := latch ctx (cleanup_slot t)\<rparr>)"

definition CleanupGuard_drop :: "runtime_termination option \<Rightarrow> thread_slots \<Rightarrow> thread_slots" where
  "CleanupGuard_drop previous t = t\<lparr>cleanup_slot := map_option
     (\<lambda>p. case cleanup_slot t of
        Some current \<Rightarrow> p\<lparr>rt_cleanup_deadline := min (rt_cleanup_deadline p) (rt_cleanup_deadline current)\<rparr>
      | None \<Rightarrow> p) previous\<rparr>"

definition ensure_task_operations_allowed :: "span \<Rightarrow> thread_slots \<Rightarrow> ku_error + unit" where
  "ensure_task_operations_allowed sp t = (case current_termination t of
       Some ctx \<Rightarrow> Inl (termination_error ctx sp)
     | None \<Rightarrow> Inr ())"

definition tighten_current_cleanup :: "runtime_termination \<Rightarrow> thread_slots \<Rightarrow> runtime_termination" where
  "tighten_current_cleanup ctx t = (case current_cleanup_context t of
       Some actual \<Rightarrow> ctx\<lparr>rt_cleanup_deadline := min (rt_cleanup_deadline ctx) (rt_cleanup_deadline actual)\<rparr>
     | None \<Rightarrow> ctx)"

section \<open>Runs of a thread\<close>

text \<open>What a thread does to its slots: latch a termination, work inside a cleanup window or behind an
  execution boundary. A guard is dropped at the end of its scope, on return and on unwinding alike.\<close>

datatype thread_act =
    TA_Latch runtime_termination
  | TA_Cleanup runtime_termination "thread_act list"
  | TA_Execution "thread_act list"

fun run_acts :: "thread_act list \<Rightarrow> thread_slots \<Rightarrow> thread_slots" where
  "run_acts [] t = t"
| "run_acts (TA_Latch ctx # as) t = run_acts as (set_execution_termination ctx t)"
| "run_acts (TA_Cleanup ctx body # as) t =
     (let (previous, t1) = CleanupGuard_enter ctx t
      in run_acts as (CleanupGuard_drop previous (run_acts body t1)))"
| "run_acts (TA_Execution body # as) t =
     (let (previous, t1) = ExecutionTerminationGuard_enter t
      in run_acts as (ExecutionTerminationGuard_drop previous (run_acts body t1)))"

text \<open>The deadlines of all windows a run opens, and the terminations it latches outside any inner boundary.\<close>

fun window_deadlines :: "thread_act list \<Rightarrow> nat list" where
  "window_deadlines [] = []"
| "window_deadlines (TA_Latch _ # as) = window_deadlines as"
| "window_deadlines (TA_Cleanup ctx body # as) = rt_cleanup_deadline ctx # window_deadlines body @ window_deadlines as"
| "window_deadlines (TA_Execution body # as) = window_deadlines body @ window_deadlines as"

fun latched :: "thread_act list \<Rightarrow> runtime_termination list" where
  "latched [] = []"
| "latched (TA_Latch ctx # as) = ctx # latched as"
| "latched (TA_Cleanup _ body # as) = latched body @ latched as"
| "latched (TA_Execution _ # as) = latched as"

lemmas slot_defs = set_execution_termination_def ExecutionTerminationGuard_enter_def ExecutionTerminationGuard_drop_def
  CleanupGuard_enter_def CleanupGuard_drop_def latch_def tightened_def

lemma fold_min_shift: "fold min ds (min a (b :: nat)) = min a (fold min ds b)"
  by (induction ds arbitrary: b) (simp_all add: min.left_commute [of _ a])

lemma fold_min_le: "fold min ds (a :: nat) \<le> a" "d \<in> set ds \<Longrightarrow> fold min ds a \<le> d"
proof (induction ds arbitrary: a)
  case (Cons x ds)
  { case 1 show ?case using Cons.IH(1) [of "min x a"] by simp
  next
    case 2 then show ?case using Cons.IH(1) [of "min x a"] Cons.IH(2) [of "min x a"] by auto }
qed simp_all

lemma run_acts_cleanup:
  "cleanup_slot (run_acts as t) =
     map_option (\<lambda>c. c\<lparr>rt_cleanup_deadline := fold min (window_deadlines as) (rt_cleanup_deadline c)\<rparr>) (cleanup_slot t)"
proof (induction as t rule: run_acts.induct)
  case (3 ctx body as t)
  show ?case
    using 3 by (cases "cleanup_slot t") (simp_all add: slot_defs min.commute fold_min_shift Let_def)
qed (simp_all add: slot_defs Let_def option.map_comp comp_def option.map_ident)

lemma run_acts_execution:
  "execution_slot (run_acts as t) = fold latch (latched as) (execution_slot t)"
  by (induction as t rule: run_acts.induct) (simp_all add: slot_defs Let_def)

lemma run_acts_task: "task_slot (run_acts as t) = task_slot t"
  by (induction as t rule: run_acts.induct) (simp_all add: slot_defs Let_def)

lemma fold_latch:
  "fold latch cs (Some c) =
     Some (c\<lparr>rt_cleanup_deadline := fold min (map rt_cleanup_deadline cs) (rt_cleanup_deadline c)\<rparr>)"
  by (induction cs arbitrary: c) (simp_all add: latch_def tightened_def min.commute)

section \<open>Properties\<close>

text \<open>C34: What a properly nested run leaves in the slots of its thread. The cleanup window that was
  open before is open again with the same cause, and its deadline is the earliest of its own and of
  all windows the run opened; no window is left open if none was. The execution latch holds the first
  termination latched outside inner boundaries, with the earliest deadline; what happened behind an
  inner boundary does not reach it.\<close>

theorem thread_run_slots:
  "cleanup_slot (run_acts as t) = map_option
       (\<lambda>c. c\<lparr>rt_cleanup_deadline := fold min (window_deadlines as) (rt_cleanup_deadline c)\<rparr>) (cleanup_slot t)
   \<and> execution_slot (run_acts as t) =
       (case (case execution_slot t of Some c \<Rightarrow> c # latched as | None \<Rightarrow> latched as) of
          [] \<Rightarrow> None
        | c # cs \<Rightarrow> Some (c\<lparr>rt_cleanup_deadline := fold min (map rt_cleanup_deadline cs) (rt_cleanup_deadline c)\<rparr>))
   \<and> task_slot (run_acts as t) = task_slot t"
  by (auto simp: run_acts_cleanup run_acts_execution run_acts_task fold_latch latch_def split: option.split list.split)

text \<open>A termination created while another one is in force keeps the cause of the one in force and
  its deadline or an earlier one: nothing that runs during cleanup, after a latched termination or in a
  cancelled task extends the time. Without one in force the given reason is used and the deadline is at
  most one second away. Task operations are refused with exactly the termination in force.\<close>

lemma termination_inherited:
  "case current_termination t of
     Some inherited \<Rightarrow>
       rt_reason (RuntimeTermination_new imax reason now t) = rt_reason inherited
       \<and> rt_cleanup_deadline (RuntimeTermination_new imax reason now t) \<le> rt_cleanup_deadline inherited
       \<and> (\<exists>e. ensure_task_operations_allowed sp t = Inl e \<and> error_runtime_termination e = Some inherited)
   | None \<Rightarrow>
       rt_reason (RuntimeTermination_new imax reason now t) = reason
       \<and> rt_cleanup_deadline (RuntimeTermination_new imax reason now t) \<in> {now .. now + one_second}
       \<and> ensure_task_operations_allowed sp t = Inr ()"
  by (auto simp: RuntimeTermination_new_def RuntimeTermination_with_deadline_def tightened_def one_second_def
      ensure_task_operations_allowed_def termination_error_def error_runtime_termination_def Let_def
      split: option.split termination_reason.split)

end
