(* ===== verification/Task_State.thy ===== *)
theory Task_State
  imports Termination_Context Values "HOL-Library.Multiset"
begin

text \<open>
  The life of one task (\<open>TaskState\<close> in \<open>src/src/runtime/task.rs\<close>). Any number of threads call its methods:
  the worker completes it, owners release it, others cancel or await it, the queue retires its node. Each
  method is a section under the result lock followed by unlocked stages: drops of payloads that lost a
  race, publications of flags, loads of flags. A thread is the list of stages it still has to run and a
  run of the system is any interleaving of the threads. Locks are never poisoned: every destructor
  runs after the lock is released.
\<close>

section \<open>The shared state\<close>

definition TASK_PENDING :: "8 word" where "TASK_PENDING = 0"

definition TASK_RUNNING :: "8 word" where "TASK_RUNNING = 1"

definition TASK_WAITING :: "8 word" where "TASK_WAITING = 2"

definition TASK_COMPLETED :: "8 word" where "TASK_COMPLETED = 3"

definition TASK_FAILED :: "8 word" where "TASK_FAILED = 4"

definition TASK_CANCELLED :: "8 word" where "TASK_CANCELLED = 5"

definition TASK_CANCELLING :: "8 word" where "TASK_CANCELLING = 6"

definition TASK_PANICKED :: "8 word" where "TASK_PANICKED = 7"

definition TASK_TIMED_OUT :: "8 word" where "TASK_TIMED_OUT = 8"

lemmas status_defs = TASK_PENDING_def TASK_RUNNING_def TASK_WAITING_def TASK_COMPLETED_def TASK_FAILED_def
  TASK_CANCELLED_def TASK_CANCELLING_def TASK_PANICKED_def TASK_TIMED_OUT_def

type_synonym 'env outcome = "ku_error + 'env value_t"

record ('run, 'env) task_state =
  ts_id :: i64
  ts_queue_consumed :: bool
  ts_execution_queue_retired :: bool
  ts_completion_cleanup_done :: bool
  ts_accounting_finished :: bool
  ts_accounting_done :: bool
  ts_result :: "'env outcome option"
  ts_pending_run :: "'run option"
  ts_owner_released :: bool
  ts_owner_call_done :: bool
  ts_owner_payload_done :: bool
  ts_owner_cleanup_done :: bool
  ts_cancelled :: bool
  ts_cancellation :: "runtime_termination option"
  ts_awaited :: bool
  ts_status :: "8 word"

definition TaskState_new :: "i64 \<Rightarrow> ('run, 'env) task_state" where
  "TaskState_new tid = \<lparr>ts_id = tid, ts_queue_consumed = False, ts_execution_queue_retired = False,
     ts_completion_cleanup_done = False, ts_accounting_finished = False, ts_accounting_done = False,
     ts_result = None, ts_pending_run = None, ts_owner_released = False, ts_owner_call_done = False,
     ts_owner_payload_done = False, ts_owner_cleanup_done = False, ts_cancelled = False,
     ts_cancellation = None, ts_awaited = False, ts_status = TASK_PENDING\<rparr>"

text \<open>The counters of the runtime that accounting touches; \<open>usize\<close> wraps.\<close>

record runtime_counters =
  rc_states :: "i64 set"
  rc_active_tasks :: "64 word"
  rc_finished_tasks :: "64 word"
  rc_finished_cancelled_tasks :: "64 word"
  rc_finished_timed_out_tasks :: "64 word"

section \<open>The sections under the result lock\<close>

definition is_terminal :: "('run, 'env) task_state \<Rightarrow> bool" where
  "is_terminal s \<longleftrightarrow> ts_status s = TASK_COMPLETED \<or> ts_status s = TASK_FAILED \<or> ts_status s = TASK_CANCELLED
     \<or> ts_status s = TASK_PANICKED \<or> ts_status s = TASK_TIMED_OUT"

definition task_cancellation :: "('run, 'env) task_state \<Rightarrow> runtime_termination option" where
  "task_cancellation s = (if ts_cancelled s then ts_cancellation s else None)"

definition claim_await :: "('run, 'env) task_state \<Rightarrow> bool \<times> ('run, 'env) task_state" where
  "claim_await s = (\<not> ts_awaited s, s\<lparr>ts_awaited := True\<rparr>)"

definition set_status :: "8 word \<Rightarrow> ('run, 'env) task_state \<Rightarrow> ('run, 'env) task_state" where
  "set_status st s = (if ts_result s = None \<and> \<not> ts_cancelled s \<and> \<not> is_terminal s then s\<lparr>ts_status := st\<rparr> else s)"

definition status_name :: "('run, 'env) task_state \<Rightarrow> ustring" where
  "status_name s =
     (if ts_status s = TASK_PENDING then lit ''pending''
      else if ts_status s = TASK_RUNNING then lit ''running''
      else if ts_status s = TASK_WAITING then lit ''waiting''
      else if ts_status s = TASK_COMPLETED then lit ''completed''
      else if ts_status s = TASK_FAILED then lit ''failed''
      else if ts_status s = TASK_CANCELLED then lit ''cancelled''
      else if ts_status s = TASK_CANCELLING then lit ''cancelling''
      else if ts_status s = TASK_PANICKED then lit ''panicked''
      else if ts_status s = TASK_TIMED_OUT then lit ''timed_out''
      else lit ''unknown'')"

text \<open>Whether the request was the first, and the queued frame it took out.\<close>

definition request_cancel_locked ::
    "runtime_termination \<Rightarrow> ('run, 'env) task_state \<Rightarrow> bool \<times> 'run option \<times> ('run, 'env) task_state" where
  "request_cancel_locked ctx s =
     (if ts_result s \<noteq> None \<or> is_terminal s then (False, None, s)
      else case ts_cancellation s of
        Some existing \<Rightarrow> (False, None, s\<lparr>ts_cancellation := Some (tightened existing (rt_cleanup_deadline ctx))\<rparr>)
      | None \<Rightarrow> (True, ts_pending_run s,
          s\<lparr>ts_cancellation := Some ctx, ts_cancelled := True, ts_status := TASK_CANCELLING, ts_pending_run := None\<rparr>))"

definition claim_run :: "('run, 'env) task_state \<Rightarrow> 'run option \<times> ('run, 'env) task_state" where
  "claim_run s =
     (if ts_cancelled s \<or> is_terminal s then (None, s)
      else case ts_pending_run s of
        None \<Rightarrow> (None, s)
      | Some run \<Rightarrow> (Some run, s\<lparr>ts_pending_run := None, ts_status := TASK_RUNNING\<rparr>))"

text \<open>The frame that could not be installed, if any.\<close>

definition install_run_locked :: "'run \<Rightarrow> ('run, 'env) task_state \<Rightarrow> 'run option \<times> ('run, 'env) task_state" where
  "install_run_locked run s =
     (if task_cancellation s = None \<and> ts_result s = None \<and> \<not> is_terminal s
      then (None, s\<lparr>ts_pending_run := Some run\<rparr>) else (Some run, s))"

definition reject_queued_locked :: "('run, 'env) task_state \<Rightarrow> 'run option \<times> bool \<times> ('run, 'env) task_state" where
  "reject_queued_locked s =
     (ts_pending_run s, ts_pending_run s = None \<and> ts_cancelled s, s\<lparr>ts_pending_run := None\<rparr>)"

definition release_owner_locked :: "('run, 'env) task_state \<Rightarrow> bool \<times> 'env outcome option \<times> ('run, 'env) task_state" where
  "release_owner_locked s =
     (\<not> ts_owner_released s, ts_result s, s\<lparr>ts_owner_released := True, ts_result := None\<rparr>)"

definition observe_result ::
    "bool \<Rightarrow> ('run, 'env) task_state \<Rightarrow> ('env outcome option \<times> bool) \<times> ('run, 'env) task_state" where
  "observe_result consume s =
     ((ts_result s, is_terminal s), if consume then s\<lparr>ts_result := None\<rparr> else s)"

definition remember_cleanup_deadline ::
    "runtime_termination option \<Rightarrow> ('run, 'env) task_state \<Rightarrow> ('run, 'env) task_state" where
  "remember_cleanup_deadline tls s = (case tls of
       None \<Rightarrow> s
     | Some cleanup \<Rightarrow> (case ts_cancellation s of
         None \<Rightarrow> s
       | Some existing \<Rightarrow>
           let existing' = tightened existing (rt_cleanup_deadline cleanup) in
           s\<lparr>ts_cancellation := Some existing',
             ts_result := (case ts_result s of
                Some (Inl e) \<Rightarrow> Some (Inl (if error_runtime_termination e \<noteq> None then remember_scope_cleanup e existing' else e))
              | r \<Rightarrow> r)\<rparr>))"

definition task_end_error :: "i64 \<Rightarrow> runtime_termination \<Rightarrow> ku_error" where
  "task_end_error tid ctx = (termination_error ctx Span_default)\<lparr>ke_message :=
     lit ''task '' @ i64_to_string tid @ lit '' was '' @
     (case rt_reason ctx of Cancelled \<Rightarrow> lit ''cancelled'' | TimedOut \<Rightarrow> lit ''timed out'')\<rparr>"

text \<open>The result that lost (\<open>uncommitted\<close>), the result nobody will collect (\<open>abandoned\<close>) and whether this
  call published.\<close>

definition complete_locked ::
    "i64 \<Rightarrow> 'env outcome \<Rightarrow> 8 word option \<Rightarrow> ('run, 'env) task_state
      \<Rightarrow> 'env outcome option \<times> 'env outcome option \<times> bool \<times> ('run, 'env) task_state" where
  "complete_locked tid r st s =
     (if ts_result s = None \<and> \<not> is_terminal s then
        (let incoming = (case r of Inl e \<Rightarrow> error_runtime_termination e | Inr _ \<Rightarrow> None);
             ctx = (case incoming of
                 None \<Rightarrow> ts_cancellation s
               | Some inc \<Rightarrow> (case ts_cancellation s of
                   Some existing \<Rightarrow> Some (tightened existing (rt_cleanup_deadline inc))
                 | None \<Rightarrow> Some inc));
             (uncommitted, res, status) = (case ctx of
                 Some c \<Rightarrow> (Some r, Inl (task_end_error tid c),
                   (case rt_reason c of Cancelled \<Rightarrow> TASK_CANCELLED | TimedOut \<Rightarrow> TASK_TIMED_OUT))
               | None \<Rightarrow> (None, r, (case st of Some x \<Rightarrow> x | None \<Rightarrow> if isl r then TASK_FAILED else TASK_COMPLETED)));
             s1 = s\<lparr>ts_cancellation := ctx, ts_cancelled := ts_cancelled s \<or> ctx \<noteq> None, ts_status := status\<rparr>
         in if ts_owner_released s then (uncommitted, Some res, True, s1)
            else (uncommitted, None, True, s1\<lparr>ts_result := Some res\<rparr>))
      else (Some r, None, False, s))"

section \<open>Threads\<close>

fun has_single_task_leaf :: "'env value_t \<Rightarrow> bool" where
  "has_single_task_leaf (V_Task _) = True"
| "has_single_task_leaf (V_Result _ v) = has_single_task_leaf v"
| "has_single_task_leaf (V_Array [v]) = has_single_task_leaf v"
| "has_single_task_leaf (V_Enum _ _ [v]) = has_single_task_leaf v"
| "has_single_task_leaf (V_Object [(_, v)]) = has_single_task_leaf v"
| "has_single_task_leaf (V_Struct _ [(_, v)]) = has_single_task_leaf v"
| "has_single_task_leaf _ = False"

text \<open>The stages of the methods. \<open>ST_Acc1\<close> to \<open>ST_Acc4\<close> are the loads of \<open>finish_task_accounting\<close> and its claim,
  \<open>ST_Unregister\<close> to \<open>ST_AccDone\<close> the work behind the claim, \<open>ST_Own1\<close> to \<open>ST_Own3\<close> the loads of
  \<open>finish_owner_cleanup\<close> and its claim.\<close>

datatype ('run, 'env) stage =
    ST_Complete i64 "'env outcome" "8 word option"
  | ST_Cancel runtime_termination
  | ST_CancelTightened runtime_termination
  | ST_Install 'run
  | ST_Claim
  | ST_Reject i64 "'env outcome"
  | ST_Release runtime_termination
  | ST_Observe bool
  | ST_SetStatus "8 word"
  | ST_DropRun 'run
  | ST_Drop "'env outcome"
  | ST_DropReleased "'env outcome"
  | ST_Remember
  | ST_CompletionDone
  | ST_QueueConsumed
  | ST_Retired
  | ST_Acc1
  | ST_Acc2
  | ST_Acc3
  | ST_Acc4
  | ST_Unregister
  | ST_Deactivate
  | ST_Finished
  | ST_Tally
  | ST_AccDone
  | ST_PayloadDone
  | ST_CallDone
  | ST_Own1
  | ST_Own2
  | ST_Own3

text \<open>Beside the shared state, a ledger of what happened to every payload and every frame.\<close>

record ('run, 'env) task_system =
  sys_task :: "('run, 'env) task_state"
  sys_runtime :: runtime_counters
  sys_submitted :: "'env value_t multiset"
  sys_delivered :: "'env value_t multiset"
  sys_dropped :: "'env value_t multiset"
  sys_installed :: "'run multiset"
  sys_started :: "'run multiset"
  sys_discarded :: "'run multiset"

definition value_of :: "'env outcome \<Rightarrow> 'env value_t multiset" where
  "value_of r = (case r of Inr v \<Rightarrow> {#v#} | Inl _ \<Rightarrow> {#})"

definition opt_value :: "'env outcome option \<Rightarrow> 'env value_t multiset" where
  "opt_value r = (case r of Some r' \<Rightarrow> value_of r' | None \<Rightarrow> {#})"

definition opt_run :: "'run option \<Rightarrow> 'run multiset" where
  "opt_run r = (case r of Some run \<Rightarrow> {#run#} | None \<Rightarrow> {#})"

definition drop_stages :: "'env outcome option \<Rightarrow> ('run, 'env) stage list" where
  "drop_stages r = (case r of Some r' \<Rightarrow> [ST_Drop r', ST_Remember] | None \<Rightarrow> [])"

definition run_stages :: "'run option \<Rightarrow> ('run, 'env) stage list" where
  "run_stages r = (case r of Some run \<Rightarrow> [ST_DropRun run, ST_Remember] | None \<Rightarrow> [ST_Remember])"

definition tally :: "8 word \<Rightarrow> runtime_counters \<Rightarrow> runtime_counters" where
  "tally st rc =
     (if st = TASK_CANCELLED then rc\<lparr>rc_finished_cancelled_tasks := rc_finished_cancelled_tasks rc + 1\<rparr>
      else if st = TASK_TIMED_OUT then rc\<lparr>rc_finished_timed_out_tasks := rc_finished_timed_out_tasks rc + 1\<rparr>
      else rc)"

text \<open>What each method does after its section under the lock. \<open>ST_Remember\<close> stands for
  \<open>remember_cleanup_deadline\<close>, which follows every guarded cleanup.\<close>

definition complete_stages :: "'env outcome option \<Rightarrow> 'env outcome option \<Rightarrow> bool \<Rightarrow> ('run, 'env) stage list" where
  [simp]: "complete_stages uncommitted abandoned published =
     drop_stages uncommitted @ drop_stages abandoned @ [ST_Remember]
       @ (if published then [ST_CompletionDone] else []) @ [ST_Acc1]"

definition cancel_stages :: "i64 \<Rightarrow> 'run option \<Rightarrow> ('run, 'env) stage list" where
  [simp]: "cancel_stages tid queued = (case queued of
       Some run \<Rightarrow> [ST_DropRun run, ST_Remember, ST_Remember, ST_Complete tid (Inr V_Null) None, ST_Remember]
     | None \<Rightarrow> [])"

definition install_stages :: "i64 \<Rightarrow> 'run \<Rightarrow> ('run, 'env) stage list" where
  [simp]: "install_stages tid run =
     [ST_DropRun run, ST_Remember, ST_Remember, ST_Remember, ST_Complete tid (Inr V_Null) None, ST_Remember, ST_Remember]"

definition reject_stages :: "i64 \<Rightarrow> 'env outcome \<Rightarrow> 'run option \<Rightarrow> bool \<Rightarrow> ('run, 'env) stage list" where
  [simp]: "reject_stages tid r run cancellation_owns_completion =
     run_stages run @ [ST_Remember, ST_Remember]
       @ (if cancellation_owns_completion then [ST_Remember, ST_Drop r]
          else [ST_Complete tid r None, ST_Remember, ST_Remember])"

text \<open>A released result with a single task leaf goes to the drain of the thread, which drops it and then
  publishes for it.\<close>

definition release_deferred :: "'env outcome option \<Rightarrow> bool" where
  [simp]: "release_deferred abandoned = (case abandoned of Some (Inr v) \<Rightarrow> has_single_task_leaf v | _ \<Rightarrow> False)"

definition release_stages :: "runtime_termination \<Rightarrow> bool \<Rightarrow> 'env outcome option \<Rightarrow> ('run, 'env) stage list" where
  [simp]: "release_stages ctx first abandoned =
     (let deferred = release_deferred abandoned in
      (case abandoned of
         Some r \<Rightarrow> if deferred then [ST_Remember] else [ST_DropReleased r, ST_Remember]
       | None \<Rightarrow> [])
      @ [ST_CancelTightened ctx, ST_Remember, ST_Remember]
      @ (if first then [ST_Remember] @ (if deferred then [] else [ST_PayloadDone]) @ [ST_CallDone, ST_Own1] else []))"

definition drain_stages :: "'env outcome option \<Rightarrow> ('run, 'env) stage list list" where
  [simp]: "drain_stages abandoned = (case abandoned of
       Some r \<Rightarrow> if release_deferred abandoned then [[ST_DropReleased r, ST_PayloadDone, ST_Own1]] else []
     | None \<Rightarrow> [])"

text \<open>One stage: the stages the same thread runs next, a continuation left for a later drain of that
  thread, and the new state. \<open>tls\<close> is the cleanup window of the thread at that moment.\<close>

fun exec_stage :: "runtime_termination option \<Rightarrow> ('run, 'env) stage \<Rightarrow> ('run, 'env) task_system
    \<Rightarrow> ('run, 'env) stage list \<times> ('run, 'env) stage list list \<times> ('run, 'env) task_system" where
  "exec_stage tls (ST_Complete tid r st) y =
     (let (uncommitted, abandoned, published, s) = complete_locked tid r st (sys_task y) in
      (complete_stages uncommitted abandoned published, [],
       y\<lparr>sys_task := s, sys_submitted := sys_submitted y + value_of r\<rparr>))"
| "exec_stage tls (ST_Cancel ctx) y =
     (let (first, queued, s) = request_cancel_locked ctx (sys_task y) in
      (cancel_stages (ts_id s) queued, [], y\<lparr>sys_task := s\<rparr>))"
| "exec_stage tls (ST_CancelTightened ctx) y =
     ([ST_Cancel (case tls of Some c \<Rightarrow> tightened ctx (rt_cleanup_deadline c) | None \<Rightarrow> ctx)], [], y)"
| "exec_stage tls (ST_Install run) y =
     (let (uninstalled, s) = install_run_locked run (sys_task y);
          y' = y\<lparr>sys_task := s, sys_installed := add_mset run (sys_installed y)\<rparr> in
      case uninstalled of
        Some r \<Rightarrow> (install_stages (ts_id s) r, [], y')
      | None \<Rightarrow> ([], [], y'\<lparr>sys_discarded := sys_discarded y + opt_run (ts_pending_run (sys_task y))\<rparr>))"
| "exec_stage tls ST_Claim y =
     (let (run, s) = claim_run (sys_task y) in
      ([], [], y\<lparr>sys_task := s, sys_started := sys_started y + opt_run run\<rparr>))"
| "exec_stage tls (ST_Reject tid r) y =
     (let (run, cancellation_owns_completion, s) = reject_queued_locked (sys_task y) in
      (reject_stages tid r run cancellation_owns_completion, [],
       y\<lparr>sys_task := s, sys_submitted := sys_submitted y + (if cancellation_owns_completion then value_of r else {#})\<rparr>))"
| "exec_stage tls (ST_Release ctx) y =
     (let (first, abandoned, s) = release_owner_locked (sys_task y) in
      (release_stages ctx first abandoned, drain_stages abandoned, y\<lparr>sys_task := s\<rparr>))"
| "exec_stage tls (ST_Observe consume) y =
     (let ((r, terminal), s) = observe_result consume (sys_task y) in
      ([], [], y\<lparr>sys_task := s, sys_delivered := sys_delivered y + (if consume then opt_value r else {#})\<rparr>))"
| "exec_stage tls (ST_SetStatus st) y = ([], [], y\<lparr>sys_task := set_status st (sys_task y)\<rparr>)"
| "exec_stage tls (ST_DropRun run) y = ([], [], y\<lparr>sys_discarded := add_mset run (sys_discarded y)\<rparr>)"
| "exec_stage tls (ST_Drop r) y = ([], [], y\<lparr>sys_dropped := sys_dropped y + value_of r\<rparr>)"
| "exec_stage tls (ST_DropReleased r) y = ([], [], y\<lparr>sys_dropped := sys_dropped y + value_of r\<rparr>)"
| "exec_stage tls ST_Remember y = ([], [], y\<lparr>sys_task := remember_cleanup_deadline tls (sys_task y)\<rparr>)"
| "exec_stage tls ST_CompletionDone y = ([], [], y\<lparr>sys_task := (sys_task y)\<lparr>ts_completion_cleanup_done := True\<rparr>\<rparr>)"
| "exec_stage tls ST_QueueConsumed y = ([], [], y\<lparr>sys_task := (sys_task y)\<lparr>ts_queue_consumed := True\<rparr>\<rparr>)"
| "exec_stage tls ST_Retired y = ([], [], y\<lparr>sys_task := (sys_task y)\<lparr>ts_execution_queue_retired := True\<rparr>\<rparr>)"
| "exec_stage tls ST_Acc1 y = (if ts_execution_queue_retired (sys_task y) then [ST_Acc2] else [], [], y)"
| "exec_stage tls ST_Acc2 y = (if ts_completion_cleanup_done (sys_task y) then [ST_Acc3] else [], [], y)"
| "exec_stage tls ST_Acc3 y = (if is_terminal (sys_task y) then [ST_Acc4] else [], [], y)"
| "exec_stage tls ST_Acc4 y =
     (if ts_accounting_finished (sys_task y) then [] else [ST_Unregister, ST_Deactivate, ST_Finished, ST_Tally, ST_AccDone], [],
      y\<lparr>sys_task := (sys_task y)\<lparr>ts_accounting_finished := True\<rparr>\<rparr>)"
| "exec_stage tls ST_Unregister y =
     ([], [], y\<lparr>sys_runtime := (sys_runtime y)\<lparr>rc_states := rc_states (sys_runtime y) - {ts_id (sys_task y)}\<rparr>\<rparr>)"
| "exec_stage tls ST_Deactivate y =
     ([], [], y\<lparr>sys_runtime := (sys_runtime y)\<lparr>rc_active_tasks := rc_active_tasks (sys_runtime y) - 1\<rparr>\<rparr>)"
| "exec_stage tls ST_Finished y =
     ([], [], y\<lparr>sys_runtime := (sys_runtime y)\<lparr>rc_finished_tasks := rc_finished_tasks (sys_runtime y) + 1\<rparr>\<rparr>)"
| "exec_stage tls ST_Tally y = ([], [], y\<lparr>sys_runtime := tally (ts_status (sys_task y)) (sys_runtime y)\<rparr>)"
| "exec_stage tls ST_AccDone y = ([], [], y\<lparr>sys_task := (sys_task y)\<lparr>ts_accounting_done := True\<rparr>\<rparr>)"
| "exec_stage tls ST_PayloadDone y = ([], [], y\<lparr>sys_task := (sys_task y)\<lparr>ts_owner_payload_done := True\<rparr>\<rparr>)"
| "exec_stage tls ST_CallDone y = ([], [], y\<lparr>sys_task := (sys_task y)\<lparr>ts_owner_call_done := True\<rparr>\<rparr>)"
| "exec_stage tls ST_Own1 y = (if ts_owner_call_done (sys_task y) then [ST_Own2] else [], [], y)"
| "exec_stage tls ST_Own2 y = (if ts_owner_payload_done (sys_task y) then [ST_Own3] else [], [], y)"
| "exec_stage tls ST_Own3 y = ([], [], y\<lparr>sys_task := (sys_task y)\<lparr>ts_owner_cleanup_done := True\<rparr>\<rparr>)"

text \<open>The calls other code makes, and the order of their stages.\<close>

datatype ('run, 'env) task_call =
    TC_Complete "'env outcome" bool
  | TC_Cancel runtime_termination
  | TC_Install 'run
  | TC_Claim
  | TC_Reject "'env outcome"
  | TC_Release runtime_termination
  | TC_Observe bool
  | TC_Wait
  | TC_Resume
  | TC_JobDone

fun call_stages :: "i64 \<Rightarrow> ('run, 'env) task_call \<Rightarrow> ('run, 'env) stage list" where
  "call_stages tid (TC_Complete r panicked) = [ST_Complete tid r (if panicked then Some TASK_PANICKED else None)]"
| "call_stages tid (TC_Cancel ctx) = [ST_Cancel ctx]"
| "call_stages tid (TC_Install run) = [ST_Install run]"
| "call_stages tid TC_Claim = [ST_Claim]"
| "call_stages tid (TC_Reject r) = [ST_Reject tid r]"
| "call_stages tid (TC_Release ctx) = [ST_Release ctx]"
| "call_stages tid (TC_Observe consume) = [ST_Observe consume]"
| "call_stages tid TC_Wait = [ST_SetStatus TASK_WAITING]"
| "call_stages tid TC_Resume = [ST_SetStatus TASK_RUNNING]"
| "call_stages tid TC_JobDone = [ST_QueueConsumed, ST_Retired, ST_Acc1]"

text \<open>An event is a new call or one stage of one thread, with the cleanup window it runs in.\<close>

datatype ('run, 'env) task_event =
    EV_Call "('run, 'env) task_call"
  | EV_Step nat "runtime_termination option"

type_synonym ('run, 'env) config = "('run, 'env) stage list list \<times> ('run, 'env) task_system"

fun config_step :: "('run, 'env) task_event \<Rightarrow> ('run, 'env) config \<Rightarrow> ('run, 'env) config" where
  "config_step (EV_Call c) (ths, y) = (ths @ [call_stages (ts_id (sys_task y)) c], y)"
| "config_step (EV_Step i tls) (ths, y) =
     (if i < length ths then
        (case ths ! i of
           [] \<Rightarrow> (ths, y)
         | a # as \<Rightarrow>
             let (nexts, spawned, y') = exec_stage tls a y in (ths[i := nexts @ as] @ spawned, y'))
      else (ths, y))"

definition initial_config :: "i64 \<Rightarrow> runtime_counters \<Rightarrow> ('run, 'env) config" where
  "initial_config tid rc = ([], \<lparr>sys_task = TaskState_new tid, sys_runtime = rc, sys_submitted = {#},
     sys_delivered = {#}, sys_dropped = {#}, sys_installed = {#}, sys_started = {#}, sys_discarded = {#}\<rparr>)"

definition task_run :: "i64 \<Rightarrow> runtime_counters \<Rightarrow> ('run, 'env) task_event list \<Rightarrow> ('run, 'env) config" where
  "task_run tid rc evs = fold config_step evs (initial_config tid rc)"

end
