(* ===== verification/Task_Invariants.thy ===== *)
theory Task_Invariants
  imports Task_State
begin

text \<open>
  Invariants of the task system and what follows for every interleaving: one publication, stable terminal
  states, exact accounting without a lost acknowledgement, conservation of payloads and frames.
\<close>

section \<open>The stages still to run\<close>

definition pending :: "('run, 'env) stage list list \<Rightarrow> ('run, 'env) stage multiset" where
  "pending ths = mset (concat ths)"

lemma pending_split: "i < length ths \<Longrightarrow> ths ! i = a # as \<Longrightarrow> pending ths = add_mset a (mset as + pending (ths[i := []]))"
proof (induction ths arbitrary: i)
  case (Cons t ths)
  then show ?case by (cases i) (auto simp: pending_def)
qed simp

lemma pending_upd: "i < length ths \<Longrightarrow> pending (ths[i := as] @ sp) = mset as + pending (ths[i := []]) + pending sp"
proof (induction ths arbitrary: i)
  case (Cons t ths)
  then show ?case by (cases i) (auto simp: pending_def)
qed simp

text \<open>A publication is followed, in its own thread, by the check that may act on it.\<close>

fun ordered :: "('run, 'env) stage list \<Rightarrow> bool" where
  "ordered [] = True"
| "ordered (a # as) \<longleftrightarrow> ordered as
     \<and> (a = ST_CompletionDone \<or> a = ST_Retired \<longrightarrow> ST_Acc1 \<in> set as)
     \<and> (a = ST_PayloadDone \<or> a = ST_CallDone \<longrightarrow> ST_Own1 \<in> set as)
     \<and> (\<forall>r. a = ST_DropReleased r \<longrightarrow> ST_PayloadDone \<in> set as)
     \<and> (a = ST_Unregister \<or> a = ST_Deactivate \<or> a = ST_Finished \<or> a = ST_Tally \<longrightarrow> ST_AccDone \<in> set as)"

lemma ordered_append: "ordered xs \<Longrightarrow> ordered ys \<Longrightarrow> ordered (xs @ ys)"
  by (induction xs) auto

lemma ordered_calls: "ordered (call_stages tid c)"
  by (cases c) auto

lemma ordered_drop_stages [simp]: "ordered (drop_stages r)" "ordered (run_stages q)"
  by (simp_all add: drop_stages_def run_stages_def split: option.split)

lemma ordered_nexts:
  assumes "exec_stage tls a y = (nexts, spawned, y')" and "ts_owner_released (sys_task y) \<longrightarrow> ts_result (sys_task y) = None"
  shows "ordered nexts \<and> list_all ordered spawned"
proof (cases a)
  case (ST_Complete tid r st)
  then show ?thesis using assms by (auto simp: Let_def intro!: ordered_append split: prod.splits if_splits)
next
  case (ST_Reject tid r)
  then show ?thesis using assms by (auto simp: Let_def intro!: ordered_append split: prod.splits if_splits)
next
  case (ST_Release ctx)
  then show ?thesis using assms
    by (auto simp: Let_def release_owner_locked_def split: option.splits sum.splits if_splits)
qed (use assms in \<open>auto simp: Let_def split: prod.splits option.splits if_splits\<close>)

section \<open>Invariants of all interleavings\<close>

text \<open>The contract of an invariant over the state and the multiset of pending stages: it holds at the
  start and is kept by calls and by stages, where a stage may rely on the check that follows it.\<close>

locale stage_invariant =
  fixes holds :: "('run, 'env) stage multiset \<Rightarrow> ('run, 'env) task_system \<Rightarrow> bool"
    and start :: "('run, 'env) task_system \<Rightarrow> bool"
  assumes starts: "start y \<Longrightarrow> holds {#} y"
    and calls: "holds M y \<Longrightarrow> holds (M + mset (call_stages tid c)) y"
    and steps: "holds (add_mset a M) y \<Longrightarrow> exec_stage tls a y = (nexts, spawned, y') \<Longrightarrow>
      (a = ST_CompletionDone \<or> a = ST_Retired \<longrightarrow> ST_Acc1 \<in># M) \<Longrightarrow>
      (a = ST_PayloadDone \<or> a = ST_CallDone \<longrightarrow> ST_Own1 \<in># M) \<Longrightarrow>
      holds (M + mset nexts + pending spawned) y'"
    and released: "holds M y \<Longrightarrow> ts_owner_released (sys_task y) \<longrightarrow> ts_result (sys_task y) = None"
begin

lemma event_keeps:
  assumes "list_all ordered ths" "holds (pending ths) y" "config_step ev (ths, y) = (ths', y')"
  shows "list_all ordered ths' \<and> holds (pending ths') y'"
proof (cases ev)
  case (EV_Call c)
  then show ?thesis using assms calls [of "pending ths" y]
    by (auto simp: pending_def ordered_calls)
next
  case (EV_Step i tls)
  show ?thesis
  proof (cases "i < length ths \<and> ths ! i \<noteq> []")
    case True
    then obtain a as where i: "i < length ths" "ths ! i = a # as" by (cases "ths ! i") auto
    obtain nexts spawned y1 where ex: "exec_stage tls a y = (nexts, spawned, y1)" by (metis prod_cases3)
    have new: "ths' = ths[i := nexts @ as] @ spawned" "y' = y1" using assms(3) EV_Step i ex by auto
    have ord: "ordered (a # as)" using assms(1) i by (metis list_all_length)
    let ?M = "mset as + pending (ths[i := []])"
    have "holds (?M + mset nexts + pending spawned) y1"
      using assms(2) ord by (intro steps [OF _ ex]) (auto simp: pending_split [OF i])
    moreover have "list_all ordered ths'"
    proof -
      have "ordered (nexts @ as)" "list_all ordered spawned"
        using ordered_nexts [OF ex released [OF assms(2)]] ord by (auto intro: ordered_append)
      moreover have "set ths' \<subseteq> insert (nexts @ as) (set ths) \<union> set spawned"
        using set_update_subset_insert [of ths i "nexts @ as"] by (auto simp: new)
      ultimately show ?thesis using assms(1) by (auto simp only: list_all_iff)
    qed
    ultimately show ?thesis by (simp add: new pending_upd [OF i(1)] ac_simps)
  next
    case False
    then show ?thesis using assms EV_Step by (auto split: list.splits if_splits)
  qed
qed

lemma run_keeps:
  assumes "start (snd (initial_config tid rc))"
  shows "list_all ordered (fst (task_run tid rc evs)) \<and> holds (pending (fst (task_run tid rc evs))) (snd (task_run tid rc evs))"
proof (induction evs rule: rev_induct)
  case Nil
  show ?case using starts [OF assms] by (simp add: task_run_def initial_config_def pending_def)
next
  case (snoc ev evs)
  then show ?case
    using event_keeps [of "fst (task_run tid rc evs)" "snd (task_run tid rc evs)" ev]
    by (cases "config_step ev (task_run tid rc evs)") (auto simp: task_run_def)
qed

end

section \<open>What the locked sections change\<close>

lemma terminal_update [simp]:
  "is_terminal (s\<lparr>ts_queue_consumed := b\<rparr>) = is_terminal s" "is_terminal (s\<lparr>ts_execution_queue_retired := b\<rparr>) = is_terminal s"
  "is_terminal (s\<lparr>ts_completion_cleanup_done := b\<rparr>) = is_terminal s" "is_terminal (s\<lparr>ts_accounting_finished := b\<rparr>) = is_terminal s"
  "is_terminal (s\<lparr>ts_accounting_done := b\<rparr>) = is_terminal s" "is_terminal (s\<lparr>ts_result := r\<rparr>) = is_terminal s"
  "is_terminal (s\<lparr>ts_pending_run := q\<rparr>) = is_terminal s" "is_terminal (s\<lparr>ts_owner_released := b\<rparr>) = is_terminal s"
  "is_terminal (s\<lparr>ts_owner_call_done := b\<rparr>) = is_terminal s" "is_terminal (s\<lparr>ts_owner_payload_done := b\<rparr>) = is_terminal s"
  "is_terminal (s\<lparr>ts_owner_cleanup_done := b\<rparr>) = is_terminal s" "is_terminal (s\<lparr>ts_cancelled := b\<rparr>) = is_terminal s"
  "is_terminal (s\<lparr>ts_cancellation := c\<rparr>) = is_terminal s"
  by (simp_all add: is_terminal_def)

lemma terminal_status [simp]:
  "is_terminal (s\<lparr>ts_status := TASK_COMPLETED\<rparr>)" "is_terminal (s\<lparr>ts_status := TASK_FAILED\<rparr>)"
  "is_terminal (s\<lparr>ts_status := TASK_CANCELLED\<rparr>)" "is_terminal (s\<lparr>ts_status := TASK_PANICKED\<rparr>)"
  "is_terminal (s\<lparr>ts_status := TASK_TIMED_OUT\<rparr>)"
  "\<not> is_terminal (s\<lparr>ts_status := TASK_RUNNING\<rparr>)" "\<not> is_terminal (s\<lparr>ts_status := TASK_WAITING\<rparr>)"
  "\<not> is_terminal (s\<lparr>ts_status := TASK_CANCELLING\<rparr>)"
  by (simp_all add: is_terminal_def status_defs)

lemma terminal_status_cong: "is_terminal (s\<lparr>ts_status := st\<rparr>) \<Longrightarrow> is_terminal (s'\<lparr>ts_status := st\<rparr>)"
  by (simp add: is_terminal_def)

text \<open>Every field but the queue mark, the result, the frame, the status and the cancellation.\<close>

definition flags :: "('run, 'env) task_state \<Rightarrow> ('run, 'env) task_state" where
  "flags s = s\<lparr>ts_queue_consumed := False, ts_result := None, ts_pending_run := None, ts_cancelled := False, ts_cancellation := None, ts_status := 0\<rparr>"

definition state_ok :: "('run, 'env) task_state \<Rightarrow> bool" where
  "state_ok s \<longleftrightarrow> (ts_owner_released s \<longrightarrow> ts_result s = None) \<and> (ts_result s \<noteq> None \<longrightarrow> is_terminal s)
     \<and> (ts_cancelled s \<longleftrightarrow> ts_cancellation s \<noteq> None)"

lemma flags_eq: "flags s' = flags s \<Longrightarrow>
    ts_id s' = ts_id s \<and> ts_execution_queue_retired s' = ts_execution_queue_retired s
    \<and> ts_completion_cleanup_done s' = ts_completion_cleanup_done s
    \<and> ts_accounting_finished s' = ts_accounting_finished s \<and> ts_accounting_done s' = ts_accounting_done s
    \<and> ts_owner_released s' = ts_owner_released s \<and> ts_owner_call_done s' = ts_owner_call_done s
    \<and> ts_owner_payload_done s' = ts_owner_payload_done s \<and> ts_owner_cleanup_done s' = ts_owner_cleanup_done s"
  by (cases s; cases s') (simp add: flags_def)

text \<open>A section keeps the flags and the terminal status, and it never changes the status of a terminal task.\<close>

definition quiet :: "('run, 'env) task_state \<Rightarrow> ('run, 'env) task_state \<Rightarrow> bool" where
  "quiet s s' \<longleftrightarrow> state_ok s' \<and> flags s' = flags s \<and> is_terminal s' = is_terminal s
     \<and> (is_terminal s \<longrightarrow> ts_status s' = ts_status s)"

lemmas quiet_defs = quiet_def state_ok_def flags_def

lemma quiet_refl: "state_ok s \<Longrightarrow> quiet s s"
  by (simp add: quiet_def)

definition completion_context :: "'env outcome \<Rightarrow> runtime_termination option \<Rightarrow> runtime_termination option" where
  "completion_context r c = (case (case r of Inl e \<Rightarrow> error_runtime_termination e | Inr _ \<Rightarrow> None) of
       None \<Rightarrow> c
     | Some inc \<Rightarrow> (case c of Some existing \<Rightarrow> Some (tightened existing (rt_cleanup_deadline inc)) | None \<Rightarrow> Some inc))"

lemma complete_published:
  assumes "ts_result s = None" "\<not> is_terminal s" "st = None \<or> st = Some TASK_PANICKED"
  shows "\<exists>u res status. is_terminal (s\<lparr>ts_status := status\<rparr>)
    \<and> opt_value u + value_of res = value_of r
    \<and> complete_locked tid r st s =
        (let s1 = s\<lparr>ts_cancellation := completion_context r (ts_cancellation s),
                    ts_cancelled := ts_cancelled s \<or> completion_context r (ts_cancellation s) \<noteq> None, ts_status := status\<rparr>
         in if ts_owner_released s then (u, Some res, True, s1) else (u, None, True, s1\<lparr>ts_result := Some res\<rparr>))"
proof (cases "completion_context r (ts_cancellation s)")
  case None
  then show ?thesis using assms
    by (intro exI [of _ None] exI [of _ r] exI [of _ "case st of Some x \<Rightarrow> x | None \<Rightarrow> if isl r then TASK_FAILED else TASK_COMPLETED"])
       (auto simp: complete_locked_def completion_context_def [symmetric] Let_def opt_value_def)
next
  case (Some c)
  then show ?thesis using assms
    by (intro exI [of _ "Some r"] exI [of _ "Inl (task_end_error tid c)"]
          exI [of _ "case rt_reason c of Cancelled \<Rightarrow> TASK_CANCELLED | TimedOut \<Rightarrow> TASK_TIMED_OUT"])
       (auto simp: complete_locked_def completion_context_def [symmetric] Let_def opt_value_def value_of_def
          split: termination_reason.split)
qed

lemma complete_refused: "ts_result s \<noteq> None \<or> is_terminal s \<Longrightarrow> complete_locked tid r st s = (Some r, None, False, s)"
  by (auto simp: complete_locked_def)

lemma complete_effect:
  assumes "complete_locked tid r st s = (u, ab, published, s')" "state_ok s" "st = None \<or> st = Some TASK_PANICKED"
  shows "state_ok s' \<and> flags s' = flags s \<and> is_terminal s' \<and> published = (\<not> is_terminal s) \<and> (published \<or> s' = s)
    \<and> opt_value u + opt_value ab + opt_value (ts_result s') = value_of r + opt_value (ts_result s)"
proof (cases "is_terminal s")
  case True
  then show ?thesis using assms complete_refused [of s tid r st] by (auto simp: opt_value_def)
next
  case False
  with assms have "ts_result s = None" by (auto simp: state_ok_def)
  then obtain u' res status where sh: "is_terminal (s\<lparr>ts_status := status\<rparr>)" "opt_value u' + value_of res = value_of r"
    "complete_locked tid r st s =
        (let s1 = s\<lparr>ts_cancellation := completion_context r (ts_cancellation s),
                    ts_cancelled := ts_cancelled s \<or> completion_context r (ts_cancellation s) \<noteq> None, ts_status := status\<rparr>
         in if ts_owner_released s then (u', Some res, True, s1) else (u', None, True, s1\<lparr>ts_result := Some res\<rparr>))"
    using complete_published [OF _ False assms(3)] by blast
  have c: "ts_cancellation s \<noteq> None \<Longrightarrow> completion_context r (ts_cancellation s) \<noteq> None"
    by (auto simp: completion_context_def split: option.splits)
  have "ts_cancelled s = (ts_cancellation s \<noteq> None)" using assms(2) by (simp add: state_ok_def)
  with sh(1) c \<open>ts_result s = None\<close> have "state_ok s'" "flags s' = flags s" "is_terminal s'" published
    "opt_value u + opt_value ab + opt_value (ts_result s') = opt_value u' + value_of res"
    using assms(1) unfolding sh(3) Let_def
    by (auto simp: state_ok_def flags_def opt_value_def split: if_splits dest: terminal_status_cong)
  with False sh(2) \<open>ts_result s = None\<close> show ?thesis by (simp add: opt_value_def)
qed

lemma cancel_effect: "request_cancel_locked ctx s = (f, q, s') \<Longrightarrow> state_ok s \<Longrightarrow> quiet s s'"
  by (auto simp: request_cancel_locked_def quiet_defs split: if_splits option.splits)

lemma claim_effect: "claim_run s = (r, s') \<Longrightarrow> state_ok s \<Longrightarrow> quiet s s'"
  by (auto simp: claim_run_def quiet_defs split: if_splits option.splits)

lemma install_effect: "install_run_locked run s = (r, s') \<Longrightarrow> state_ok s \<Longrightarrow> quiet s s'"
  by (auto simp: install_run_locked_def quiet_defs split: if_splits)

lemma reject_effect: "reject_queued_locked s = (r, c, s') \<Longrightarrow> state_ok s \<Longrightarrow> quiet s s'"
  by (auto simp: reject_queued_locked_def quiet_defs)

lemma observe_effect: "observe_result c s = (r, s') \<Longrightarrow> state_ok s \<Longrightarrow> quiet s s'"
  by (auto simp: observe_result_def quiet_defs split: if_splits)

lemma set_status_effect: "state_ok s \<Longrightarrow> st = TASK_RUNNING \<or> st = TASK_WAITING \<Longrightarrow> quiet s (set_status st s)"
  by (auto simp: set_status_def quiet_defs)

lemma remember_effect: "state_ok s \<Longrightarrow> quiet s (remember_cleanup_deadline tls s)"
proof (cases "tls = None \<or> ts_cancellation s = None")
  case True
  then show "state_ok s \<Longrightarrow> ?thesis" by (auto simp: remember_cleanup_deadline_def quiet_refl split: option.split)
next
  case False
  then obtain c e where "tls = Some c" "ts_cancellation s = Some e" by auto
  then show "state_ok s \<Longrightarrow> ?thesis"
    by (cases "ts_result s") (auto simp: remember_cleanup_deadline_def quiet_defs Let_def split: sum.split)
qed

lemma release_effect:
  "release_owner_locked s = (first, ab, s') \<Longrightarrow> state_ok s \<Longrightarrow>
   state_ok s' \<and> s' = s\<lparr>ts_owner_released := True, ts_result := None\<rparr>
   \<and> first = (\<not> ts_owner_released s) \<and> (ab \<noteq> None \<longrightarrow> first)"
  by (auto simp: release_owner_locked_def state_ok_def flags_def)

section \<open>Stages by their effect on the protocol\<close>

text \<open>The stages that publish, load or act on the flags.\<close>

definition marks :: "('run, 'env) stage set" where
  "marks = {ST_CompletionDone, ST_Retired, ST_Acc1, ST_Acc2, ST_Acc3, ST_Acc4, ST_Unregister, ST_Deactivate,
     ST_Finished, ST_Tally, ST_AccDone, ST_PayloadDone, ST_CallDone, ST_Own1, ST_Own2, ST_Own3}"

definition legal :: "('run, 'env) stage \<Rightarrow> bool" where
  "legal a \<longleftrightarrow> (case a of
       ST_Complete _ _ (Some st) \<Rightarrow> st = TASK_PANICKED
     | ST_SetStatus st \<Rightarrow> st = TASK_RUNNING \<or> st = TASK_WAITING
     | _ \<Rightarrow> True)"

definition plain :: "('run, 'env) stage \<Rightarrow> bool" where
  "plain a \<longleftrightarrow> (case a of ST_Complete _ _ _ \<Rightarrow> False | ST_Release _ \<Rightarrow> False | _ \<Rightarrow> a \<notin> marks)"

lemmas stage_lists = drop_stages_def run_stages_def

lemma plain_effect:
  assumes "exec_stage tls a y = (nexts, spawned, y')" "plain a" "legal a" "state_ok (sys_task y)"
  shows "quiet (sys_task y) (sys_task y') \<and> sys_runtime y' = sys_runtime y \<and> spawned = [] \<and> set nexts \<inter> marks = {}"
proof (cases a)
  case (ST_Cancel ctx)
  then show ?thesis using assms cancel_effect [of ctx "sys_task y"] by (auto simp: marks_def split: prod.splits option.splits)
next
  case (ST_Install run)
  then show ?thesis using assms install_effect [of run "sys_task y"] by (auto simp: marks_def Let_def split: prod.splits option.splits)
next
  case ST_Claim
  then show ?thesis using assms claim_effect [of "sys_task y"] by (auto simp: marks_def split: prod.splits)
next
  case (ST_Reject tid r)
  then show ?thesis using assms reject_effect [of "sys_task y"]
    by (auto simp: marks_def stage_lists split: prod.splits option.splits if_splits)
next
  case (ST_Observe b)
  then show ?thesis using assms observe_effect [of b "sys_task y"] by (auto simp: marks_def split: prod.splits)
next
  case ST_QueueConsumed
  then show ?thesis using assms by (auto simp: quiet_defs)
qed (use assms in \<open>auto simp: plain_def legal_def marks_def quiet_refl set_status_effect remember_effect\<close>)

lemma legal_nexts:
  "exec_stage tls a y = (nexts, spawned, y') \<Longrightarrow> list_all legal nexts \<and> list_all (list_all legal) spawned"
  by (cases a) (auto simp: legal_def stage_lists Let_def split: prod.splits option.splits if_splits)

lemma complete_marks:
  assumes "exec_stage tls (ST_Complete tid r st) y = (nexts, spawned, y')" "state_ok (sys_task y)" "legal (ST_Complete tid r st)"
  shows "state_ok (sys_task y') \<and> flags (sys_task y') = flags (sys_task y) \<and> is_terminal (sys_task y')
    \<and> (is_terminal (sys_task y) \<longrightarrow> sys_task y' = sys_task y)
    \<and> sys_runtime y' = sys_runtime y \<and> spawned = []
    \<and> (\<forall>m\<in>marks. count (mset nexts) m = (if m = ST_Acc1 \<or> m = ST_CompletionDone \<and> \<not> is_terminal (sys_task y) then 1 else 0))"
proof -
  obtain u ab p s' where c: "complete_locked tid r st (sys_task y) = (u, ab, p, s')" by (metis prod_cases4)
  have "st = None \<or> st = Some TASK_PANICKED" using assms(3) by (auto simp: legal_def split: option.splits)
  note effect = complete_effect [OF c assms(2) this]
  have none: "count (mset (drop_stages z)) m = 0" if "m \<in> marks" for z m
    using that by (auto simp: stage_lists marks_def split: option.split)
  have new: "nexts = drop_stages u @ drop_stages ab @ [ST_Remember] @ (if p then [ST_CompletionDone] else []) @ [ST_Acc1]"
    "spawned = []" "sys_task y' = s'" "sys_runtime y' = sys_runtime y"
    using assms(1) c by auto
  have "count (mset nexts) m = (if m = ST_Acc1 \<or> m = ST_CompletionDone \<and> p then 1 else 0)" if "m \<in> marks" for m
    using none [OF that] that by (auto simp: new(1) marks_def)
  with effect new(2-) show ?thesis by auto
qed

lemma release_marks:
  assumes "exec_stage tls (ST_Release ctx) y = (nexts, spawned, y')" "state_ok (sys_task y)"
  shows "state_ok (sys_task y') \<and> sys_task y' = (sys_task y)\<lparr>ts_owner_released := True, ts_result := None\<rparr>
    \<and> sys_runtime y' = sys_runtime y
    \<and> (\<forall>m\<in>marks - {ST_Own1}. count (mset nexts + pending spawned) m =
         (if \<not> ts_owner_released (sys_task y) \<and> (m = ST_PayloadDone \<or> m = ST_CallDone) then 1 else 0))"
proof -
  obtain f ab s' where c: "release_owner_locked (sys_task y) = (f, ab, s')" by (metis prod_cases3)
  note effect = release_effect [OF c assms(2)]
  consider "ab = None" | r where "ab = Some r" by blast
  then have "\<forall>m\<in>marks - {ST_Own1}. count (mset nexts + pending spawned) m = (if f \<and> (m = ST_PayloadDone \<or> m = ST_CallDone) then 1 else 0)"
    by cases (use assms(1) c effect in \<open>auto simp: marks_def pending_def Let_def split: if_splits\<close>)
  moreover have "sys_task y' = s'" "sys_runtime y' = sys_runtime y" using assms(1) c by (auto simp: Let_def)
  ultimately show ?thesis using effect by auto
qed

section \<open>The protocol invariant\<close>

definition core_inv :: "('run, 'env) stage multiset \<Rightarrow> ('run, 'env) task_system \<Rightarrow> bool" where
  "core_inv M y \<longleftrightarrow> state_ok (sys_task y) \<and> (\<forall>a\<in>#M. legal a)
     \<and> count M ST_CompletionDone + of_bool (ts_completion_cleanup_done (sys_task y)) = of_bool (is_terminal (sys_task y))"

definition gates_inv :: "('run, 'env) stage multiset \<Rightarrow> ('run, 'env) task_state \<Rightarrow> bool" where
  "gates_inv M s \<longleftrightarrow> (let gates = (ts_execution_queue_retired s \<and> ts_completion_cleanup_done s) in
     (0 < count M ST_Acc2 \<longrightarrow> ts_execution_queue_retired s)
     \<and> (0 < count M ST_Acc3 \<longrightarrow> gates) \<and> (0 < count M ST_Acc4 \<longrightarrow> gates) \<and> (ts_accounting_finished s \<longrightarrow> gates)
     \<and> (gates \<and> \<not> ts_accounting_finished s \<longrightarrow>
          0 < count M ST_Acc1 + count M ST_Acc2 + count M ST_Acc3 + count M ST_Acc4))"

definition tallied :: "8 word \<Rightarrow> 8 word \<Rightarrow> nat \<Rightarrow> 64 word" where
  "tallied code st n = (if st = code then of_nat n else 0)"

lemma tallied_0 [simp]: "tallied code st 0 = 0"
  by (simp add: tallied_def)

definition registry :: "bool \<Rightarrow> i64 \<Rightarrow> i64 set \<Rightarrow> i64 set" where
  "registry removed tid S = (if removed then S - {tid} else S)"

definition counts_inv :: "i64 \<Rightarrow> runtime_counters \<Rightarrow> ('run, 'env) stage multiset \<Rightarrow> ('run, 'env) task_state \<Rightarrow> runtime_counters \<Rightarrow> bool" where
  "counts_inv tid rc M s rt \<longleftrightarrow> (let claimed = ts_accounting_finished s in
     ts_id s = tid
     \<and> count M ST_Unregister \<le> of_bool claimed
     \<and> rc_states rt = registry (claimed \<and> count M ST_Unregister = 0) tid (rc_states rc)
     \<and> rc_active_tasks rt - of_nat (count M ST_Deactivate) = rc_active_tasks rc - of_bool claimed
     \<and> rc_finished_tasks rt + of_nat (count M ST_Finished) = rc_finished_tasks rc + of_bool claimed
     \<and> rc_finished_cancelled_tasks rt + tallied TASK_CANCELLED (ts_status s) (count M ST_Tally)
         = rc_finished_cancelled_tasks rc + tallied TASK_CANCELLED (ts_status s) (of_bool claimed)
     \<and> rc_finished_timed_out_tasks rt + tallied TASK_TIMED_OUT (ts_status s) (count M ST_Tally)
         = rc_finished_timed_out_tasks rc + tallied TASK_TIMED_OUT (ts_status s) (of_bool claimed)
     \<and> count M ST_Tally \<le> of_bool claimed
     \<and> count M ST_AccDone + of_bool (ts_accounting_done s) = of_bool claimed)"

definition own_inv :: "('run, 'env) stage multiset \<Rightarrow> ('run, 'env) task_system \<Rightarrow> bool" where
  "own_inv M y \<longleftrightarrow> (let s = sys_task y; both = (ts_owner_call_done s \<and> ts_owner_payload_done s) in
     count M ST_PayloadDone + of_bool (ts_owner_payload_done s) = of_bool (ts_owner_released s)
     \<and> count M ST_CallDone + of_bool (ts_owner_call_done s) = of_bool (ts_owner_released s)
     \<and> (0 < count M ST_Own2 \<longrightarrow> ts_owner_call_done s) \<and> (0 < count M ST_Own3 \<longrightarrow> both)
     \<and> (ts_owner_cleanup_done s \<longrightarrow> both)
     \<and> (both \<and> \<not> ts_owner_cleanup_done s \<longrightarrow> 0 < count M ST_Own1 + count M ST_Own2 + count M ST_Own3))"

definition protocol_inv :: "i64 \<Rightarrow> runtime_counters \<Rightarrow> ('run, 'env) stage multiset \<Rightarrow> ('run, 'env) task_system \<Rightarrow> bool" where
  "protocol_inv tid rc M y \<longleftrightarrow> core_inv M y \<and> gates_inv M (sys_task y) \<and> counts_inv tid rc M (sys_task y) (sys_runtime y) \<and> own_inv M y"

lemma marks_simps [simp]:
  "ST_CompletionDone \<in> marks" "ST_Retired \<in> marks" "ST_Acc1 \<in> marks" "ST_Acc2 \<in> marks" "ST_Acc3 \<in> marks" "ST_Acc4 \<in> marks"
  "ST_Unregister \<in> marks" "ST_Deactivate \<in> marks" "ST_Finished \<in> marks" "ST_Tally \<in> marks" "ST_AccDone \<in> marks"
  "ST_PayloadDone \<in> marks" "ST_CallDone \<in> marks" "ST_Own1 \<in> marks" "ST_Own2 \<in> marks" "ST_Own3 \<in> marks"
  by (simp_all add: marks_def)

lemma core_terminal: "core_inv M y \<Longrightarrow> ts_completion_cleanup_done (sys_task y) \<Longrightarrow> is_terminal (sys_task y)"
  by (cases "is_terminal (sys_task y)") (simp_all add: core_inv_def)

lemma gates_claimed: "gates_inv M s \<Longrightarrow> ts_accounting_finished s \<Longrightarrow> ts_completion_cleanup_done s"
  by (simp add: gates_inv_def Let_def)

lemma counts_cong:
  assumes "ts_id s' = ts_id s" "ts_accounting_finished s' = ts_accounting_finished s" "ts_accounting_done s' = ts_accounting_done s"
    and "ts_accounting_finished s \<Longrightarrow> ts_status s' = ts_status s"
    and cnt: "count M' ST_Unregister = count N ST_Unregister" "count M' ST_Deactivate = count N ST_Deactivate"
      "count M' ST_Finished = count N ST_Finished" "count M' ST_Tally = count N ST_Tally" "count M' ST_AccDone = count N ST_AccDone"
    and "rt' = rt" "counts_inv tid rc N s rt"
  shows "counts_inv tid rc M' s' rt'"
proof (cases "ts_accounting_finished s")
  case True
  with assms(4) have st: "ts_status s' = ts_status s" by simp
  have "counts_inv tid rc M' s' rt' = counts_inv tid rc N s rt" unfolding counts_inv_def Let_def st assms(1-3) \<open>rt' = rt\<close> cnt ..
  with assms show ?thesis by simp
next
  case False
  with \<open>counts_inv tid rc N s rt\<close> have "count N ST_Tally = 0" by (simp add: counts_inv_def Let_def)
  with False assms show ?thesis by (simp add: counts_inv_def Let_def split: if_splits)
qed

lemma gates_cong:
  assumes "ts_execution_queue_retired s' = ts_execution_queue_retired s"
    "ts_completion_cleanup_done s' = ts_completion_cleanup_done s" "ts_accounting_finished s' = ts_accounting_finished s"
    and "count N ST_Acc1 \<le> count M' ST_Acc1" "count M' ST_Acc2 = count N ST_Acc2" "count M' ST_Acc3 = count N ST_Acc3"
      "count M' ST_Acc4 = count N ST_Acc4" and "gates_inv N s"
  shows "gates_inv M' s'"
  using assms unfolding gates_inv_def Let_def by (simp del: count_greater_zero_iff add_gr_0) linarith

lemma own_cong:
  assumes "ts_owner_released (sys_task y') = ts_owner_released (sys_task y)" "ts_owner_call_done (sys_task y') = ts_owner_call_done (sys_task y)"
    "ts_owner_payload_done (sys_task y') = ts_owner_payload_done (sys_task y)"
    "ts_owner_cleanup_done (sys_task y') = ts_owner_cleanup_done (sys_task y)"
    and "count M' ST_PayloadDone = count N ST_PayloadDone" "count M' ST_CallDone = count N ST_CallDone"
    "count M' ST_Own1 = count N ST_Own1" "count M' ST_Own2 = count N ST_Own2" "count M' ST_Own3 = count N ST_Own3"
    and "own_inv N y"
  shows "own_inv M' y'"
proof -
  have "own_inv M' y' = own_inv N y" unfolding own_inv_def Let_def assms(1-9) ..
  with assms show ?thesis by simp
qed

text \<open>Only the marks count.\<close>

lemma protocol_quiet:
  assumes inv: "protocol_inv tid rc N y" and cnt: "\<And>m. m \<in> marks \<Longrightarrow> count M' m = count N m" and leg: "\<forall>b\<in>#M'. legal b"
    and q: "quiet (sys_task y) (sys_task y')" and rt: "sys_runtime y' = sys_runtime y"
  shows "protocol_inv tid rc M' y'"
proof -
  have fl: "flags (sys_task y') = flags (sys_task y)" using q by (simp add: quiet_def)
  note flag = flags_eq [OF fl]
  have st: "ts_accounting_finished (sys_task y) \<Longrightarrow> ts_status (sys_task y') = ts_status (sys_task y)"
    using inv q gates_claimed core_terminal unfolding protocol_inv_def quiet_def by blast
  have "counts_inv tid rc M' (sys_task y') (sys_runtime y')"
    by (rule counts_cong [where N = N and s = "sys_task y" and rt = "sys_runtime y"]) (use inv st in \<open>simp_all add: cnt rt flag protocol_inv_def\<close>)
  moreover have "gates_inv M' (sys_task y')"
    by (rule gates_cong [where N = N and s = "sys_task y"]) (use inv in \<open>simp_all add: cnt flag protocol_inv_def\<close>)
  moreover have "own_inv M' y'"
    by (rule own_cong [where N = N and y = y]) (use inv in \<open>simp_all add: cnt flag protocol_inv_def\<close>)
  moreover have "core_inv M' y'" using inv q flag leg unfolding protocol_inv_def core_inv_def by (simp add: cnt quiet_def)
  ultimately show ?thesis by (simp add: protocol_inv_def)
qed

lemma protocol_plain:
  assumes inv: "protocol_inv tid rc (add_mset a M) y" and ex: "exec_stage tls a y = (nexts, spawned, y')" and "plain a"
    and leg: "\<forall>b\<in>#M + mset nexts + pending spawned. legal b"
  shows "protocol_inv tid rc (M + mset nexts + pending spawned) y'"
proof (rule protocol_quiet [OF inv _ leg])
  have ok: "state_ok (sys_task y)" "legal a" using inv by (auto simp: protocol_inv_def core_inv_def)
  note effect = plain_effect [OF ex \<open>plain a\<close> ok(2,1)]
  then show "quiet (sys_task y) (sys_task y')" "sys_runtime y' = sys_runtime y" by auto
  have "a \<notin> marks" using \<open>plain a\<close> by (auto simp: plain_def split: stage.splits)
  then show "count (M + mset nexts + pending spawned) m = count (add_mset a M) m" if "m \<in> marks" for m
    using effect that by (auto simp: pending_def count_eq_zero_iff disjoint_iff)
qed

lemma nonmark_dropped:
  assumes "protocol_inv tid rc (add_mset a M) y" "a \<notin> marks"
  shows "protocol_inv tid rc M y"
proof (rule protocol_quiet [OF assms(1)])
  show "count M m = count (add_mset a M) m" if "m \<in> marks" for m using assms(2) that by auto
qed (use assms in \<open>auto simp: protocol_inv_def core_inv_def quiet_refl\<close>)

lemma protocol_complete:
  fixes y :: "('run, 'env) task_system"
  assumes inv: "protocol_inv tid rc (add_mset (ST_Complete i r st) M) y"
    and ex: "exec_stage tls (ST_Complete i r st) y = (nexts, spawned, y')"
    and leg: "\<forall>b\<in>#M + mset nexts + pending spawned. legal b"
  shows "protocol_inv tid rc (M + mset nexts + pending spawned) y'"
proof -
  define M' where "M' = M + mset nexts + pending spawned"
  have ok: "state_ok (sys_task y)" "legal (ST_Complete i r st :: ('run, 'env) stage)"
    using inv by (auto simp: protocol_inv_def core_inv_def)
  note effect = complete_marks [OF ex ok]
  then have fl: "flags (sys_task y') = flags (sys_task y)" by blast
  note flag = flags_eq [OF fl]
  have cnt: "count M' m = count M m + (if m = ST_Acc1 \<or> m = ST_CompletionDone \<and> \<not> is_terminal (sys_task y) then 1 else 0)"
    if "m \<in> marks" for m
    using effect that unfolding M'_def by (auto simp: pending_def)
  have old: "protocol_inv tid rc M y" using nonmark_dropped [OF inv] by (simp add: marks_def)
  have "core_inv M' y'" using old effect flag leg unfolding protocol_inv_def core_inv_def M'_def [symmetric] by (auto simp: cnt)
  moreover have "own_inv M' y'"
    by (rule own_cong [where N = M and y = y]) (use old in \<open>simp_all add: cnt flag protocol_inv_def\<close>)
  moreover have "gates_inv M' (sys_task y')"
    by (rule gates_cong [where N = M and s = "sys_task y"]) (use old in \<open>simp_all add: cnt flag protocol_inv_def\<close>)
  moreover have st: "ts_accounting_finished (sys_task y) \<Longrightarrow> ts_status (sys_task y') = ts_status (sys_task y)"
    using old effect gates_claimed core_terminal unfolding protocol_inv_def by metis
  moreover have "counts_inv tid rc M' (sys_task y') (sys_runtime y')"
    by (rule counts_cong [where N = M and s = "sys_task y" and rt = "sys_runtime y"]) (use old effect st in \<open>simp_all add: cnt flag protocol_inv_def\<close>)
  ultimately show ?thesis by (simp add: protocol_inv_def M'_def)
qed

lemma protocol_release:
  assumes inv: "protocol_inv tid rc (add_mset (ST_Release ctx) M) y"
    and ex: "exec_stage tls (ST_Release ctx) y = (nexts, spawned, y')"
    and leg: "\<forall>b\<in>#M + mset nexts + pending spawned. legal b"
  shows "protocol_inv tid rc (M + mset nexts + pending spawned) y'"
proof -
  define M' where "M' = M + mset nexts + pending spawned"
  have ok: "state_ok (sys_task y)" using inv by (auto simp: protocol_inv_def core_inv_def)
  note effect = release_marks [OF ex ok]
  then have flag: "sys_task y' = (sys_task y)\<lparr>ts_owner_released := True, ts_result := None\<rparr>" by blast
  have cnt: "count M' m = count M m + (if \<not> ts_owner_released (sys_task y) \<and> (m = ST_PayloadDone \<or> m = ST_CallDone) then 1 else 0)"
    if "m \<in> marks" "m \<noteq> ST_Own1" for m
    using effect that unfolding M'_def by auto
  have own1: "count M ST_Own1 \<le> count M' ST_Own1" by (simp add: M'_def)
  have old: "protocol_inv tid rc M y" using nonmark_dropped [OF inv] by (simp add: marks_def)
  have "core_inv M' y'" using old effect leg unfolding protocol_inv_def core_inv_def M'_def [symmetric] by (auto simp: cnt flag)
  moreover have "own_inv M' y'" using old own1 unfolding protocol_inv_def own_inv_def Let_def
    by (auto simp: cnt flag simp del: count_greater_zero_iff split: if_splits)
  moreover have "gates_inv M' (sys_task y')"
    by (rule gates_cong [where N = M and s = "sys_task y"]) (use old in \<open>simp_all add: cnt flag protocol_inv_def\<close>)
  moreover have "counts_inv tid rc M' (sys_task y') (sys_runtime y')"
    by (rule counts_cong [where N = M and s = "sys_task y" and rt = "sys_runtime y"]) (use old effect in \<open>simp_all add: cnt flag protocol_inv_def\<close>)
  ultimately show ?thesis by (simp add: protocol_inv_def M'_def)
qed

lemma state_ok_flag_updates [simp]:
  "state_ok (s\<lparr>ts_execution_queue_retired := b\<rparr>) = state_ok s" "state_ok (s\<lparr>ts_completion_cleanup_done := b\<rparr>) = state_ok s"
  "state_ok (s\<lparr>ts_accounting_finished := b\<rparr>) = state_ok s" "state_ok (s\<lparr>ts_accounting_done := b\<rparr>) = state_ok s"
  "state_ok (s\<lparr>ts_owner_call_done := b\<rparr>) = state_ok s" "state_ok (s\<lparr>ts_owner_payload_done := b\<rparr>) = state_ok s"
  "state_ok (s\<lparr>ts_owner_cleanup_done := b\<rparr>) = state_ok s"
  by (simp_all add: state_ok_def)

lemma mark_cases:
  assumes "a \<in> marks"
  obtains (CompletionDone) "a = ST_CompletionDone"
    | (Retired) "a = ST_Retired"
    | (Acc1) "a = ST_Acc1"
    | (Acc2) "a = ST_Acc2"
    | (Acc3) "a = ST_Acc3"
    | (Acc4) "a = ST_Acc4"
    | (Unregister) "a = ST_Unregister"
    | (Deactivate) "a = ST_Deactivate"
    | (Finished) "a = ST_Finished"
    | (Tally) "a = ST_Tally"
    | (AccDone) "a = ST_AccDone"
    | (PayloadDone) "a = ST_PayloadDone"
    | (CallDone) "a = ST_CallDone"
    | (Own1) "a = ST_Own1"
    | (Own2) "a = ST_Own2"
    | (Own3) "a = ST_Own3"
  using assms by (auto simp: marks_def)

lemma core_cong:
  assumes "state_ok (sys_task y')" "\<forall>b\<in>#M'. legal b"
    "ts_completion_cleanup_done (sys_task y') = ts_completion_cleanup_done (sys_task y)" "is_terminal (sys_task y') = is_terminal (sys_task y)"
    "count M' ST_CompletionDone = count N ST_CompletionDone" "core_inv N y"
  shows "core_inv M' y'"
  using assms by (simp add: core_inv_def)

lemma core_mark:
  assumes "a \<in> marks" and ex: "exec_stage tls a y = (nexts, spawned, y')"
    and leg: "\<forall>b\<in>#M + mset nexts + pending spawned. legal b" and "core_inv (add_mset a M) y"
  shows "core_inv (M + mset nexts + pending spawned) y'"
proof -
  have ok: "state_ok (sys_task y)" using assms(4) by (simp add: core_inv_def)
  show ?thesis using assms(1)
  proof (cases rule: mark_cases)
  case CompletionDone
  then show ?thesis using ex assms(3-)
    by (cases "is_terminal (sys_task y)") (auto simp: core_inv_def pending_def)
qed (rule core_cong [OF _ leg _ _ _ assms(4)]; use ex ok in \<open>auto simp: pending_def split: if_splits\<close>)+
qed

lemma own_mark:
  assumes "a \<in> marks" and ex: "exec_stage tls a y = (nexts, spawned, y')"
    and "a = ST_PayloadDone \<or> a = ST_CallDone \<longrightarrow> ST_Own1 \<in># M"
    and "own_inv (add_mset a M) y"
  shows "own_inv (M + mset nexts + pending spawned) y'"
  using assms(1)
proof (cases rule: mark_cases)
  case PayloadDone
  then show ?thesis using ex assms(3-)
    by (cases "ts_owner_released (sys_task y)") (auto simp: own_inv_def pending_def Let_def split: if_splits)
next
  case CallDone
  then show ?thesis using ex assms(3-)
    by (cases "ts_owner_released (sys_task y)") (auto simp: own_inv_def pending_def Let_def split: if_splits)
next
  case Own1
  then show ?thesis using ex assms(3-)
    by (cases "ts_owner_released (sys_task y)") (auto simp: own_inv_def pending_def Let_def split: if_splits)
next
  case Own2
  then show ?thesis using ex assms(3-)
    by (cases "ts_owner_released (sys_task y)") (auto simp: own_inv_def pending_def Let_def split: if_splits)
next
  case Own3
  then show ?thesis using ex assms(3-)
    by (cases "ts_owner_released (sys_task y)") (auto simp: own_inv_def pending_def Let_def split: if_splits)
qed (rule own_cong [OF _ _ _ _ _ _ _ _ _ assms(4)]; use ex in \<open>auto simp: pending_def split: if_splits\<close>)+

lemma gates_mark:
  assumes "a \<in> marks" and ex: "exec_stage tls a y = (nexts, spawned, y')"
    and "a = ST_CompletionDone \<or> a = ST_Retired \<longrightarrow> ST_Acc1 \<in># M"
    and "ts_completion_cleanup_done (sys_task y) \<longrightarrow> is_terminal (sys_task y)"
    and "gates_inv (add_mset a M) (sys_task y)"
  shows "gates_inv (M + mset nexts + pending spawned) (sys_task y')"
  using assms(1)
proof (cases rule: mark_cases)
  case CompletionDone
  then show ?thesis using ex assms(3-)
    by (auto simp: gates_inv_def pending_def Let_def split: if_splits)
next
  case Retired
  then show ?thesis using ex assms(3-)
    by (auto simp: gates_inv_def pending_def Let_def split: if_splits)
next
  case Acc1
  then show ?thesis using ex assms(3-)
    by (auto simp: gates_inv_def pending_def Let_def split: if_splits)
next
  case Acc2
  then show ?thesis using ex assms(3-)
    by (auto simp: gates_inv_def pending_def Let_def split: if_splits)
next
  case Acc3
  then show ?thesis using ex assms(3-)
    by (auto simp: gates_inv_def pending_def Let_def split: if_splits)
next
  case Acc4
  then show ?thesis using ex assms(3-)
    by (auto simp: gates_inv_def pending_def Let_def split: if_splits)
qed (rule gates_cong [OF _ _ _ _ _ _ _ assms(5)]; use ex in \<open>auto simp: pending_def split: if_splits\<close>)+

lemma cancelled_not_timed_out: "TASK_CANCELLED \<noteq> TASK_TIMED_OUT"
  by (simp add: status_defs)

lemma tally_fields:
  "rc_states (tally st rt) = rc_states rt" "rc_active_tasks (tally st rt) = rc_active_tasks rt"
  "rc_finished_tasks (tally st rt) = rc_finished_tasks rt"
  "rc_finished_cancelled_tasks (tally st rt) = rc_finished_cancelled_tasks rt + tallied TASK_CANCELLED st (Suc 0)"
  "rc_finished_timed_out_tasks (tally st rt) = rc_finished_timed_out_tasks rt + tallied TASK_TIMED_OUT st (Suc 0)"
  by (simp_all add: tally_def tallied_def cancelled_not_timed_out)

lemma counts_mark:
  assumes "a \<in> marks" and ex: "exec_stage tls a y = (nexts, spawned, y')"
    and "counts_inv tid rc (add_mset a M) (sys_task y) (sys_runtime y)"
  shows "counts_inv tid rc (M + mset nexts + pending spawned) (sys_task y') (sys_runtime y')"
  using assms(1)
proof (cases rule: mark_cases)
  case Acc4
  show ?thesis
  proof (cases "ts_accounting_finished (sys_task y)")
    case True
    show ?thesis by (rule counts_cong [OF _ _ _ _ _ _ _ _ _ _ assms(3)]) (use ex True Acc4 in \<open>auto simp: pending_def\<close>)
  next
    case False
    have new: "nexts = [ST_Unregister, ST_Deactivate, ST_Finished, ST_Tally, ST_AccDone]" "spawned = []"
      "y' = y\<lparr>sys_task := (sys_task y)\<lparr>ts_accounting_finished := True\<rparr>\<rparr>"
      using ex False Acc4 by auto
    have "count M ST_Tally = 0" using assms(3) False Acc4 by (simp add: counts_inv_def)
    then show ?thesis using assms(3) False unfolding Acc4 new
      by (simp add: counts_inv_def registry_def pending_def)
  qed
next
  case Unregister
  have new: "nexts = []" "spawned = []"
    "y' = y\<lparr>sys_runtime := (sys_runtime y)\<lparr>rc_states := rc_states (sys_runtime y) - {ts_id (sys_task y)}\<rparr>\<rparr>"
    using ex Unregister by auto
  have "ts_accounting_finished (sys_task y)" "count M ST_Unregister = 0" using assms(3) Unregister
    by (cases "ts_accounting_finished (sys_task y)"; simp add: counts_inv_def)+
  then show ?thesis using assms(3) unfolding Unregister new by (simp add: counts_inv_def registry_def pending_def)
next
  case Deactivate
  have new: "nexts = []" "spawned = []" "y' = y\<lparr>sys_runtime := (sys_runtime y)\<lparr>rc_active_tasks := rc_active_tasks (sys_runtime y) - 1\<rparr>\<rparr>"
    using ex Deactivate by auto
  show ?thesis using assms(3) unfolding Deactivate new by (simp add: counts_inv_def pending_def diff_diff_eq)
next
  case Finished
  have new: "nexts = []" "spawned = []" "y' = y\<lparr>sys_runtime := (sys_runtime y)\<lparr>rc_finished_tasks := rc_finished_tasks (sys_runtime y) + 1\<rparr>\<rparr>"
    using ex Finished by auto
  show ?thesis using assms(3) unfolding Finished new by (simp add: counts_inv_def pending_def add.assoc)
next
  case Tally
  have new: "nexts = []" "spawned = []" "y' = y\<lparr>sys_runtime := tally (ts_status (sys_task y)) (sys_runtime y)\<rparr>"
    using ex Tally by auto
  have "ts_accounting_finished (sys_task y)" "count M ST_Tally = 0" using assms(3) Tally
    by (cases "ts_accounting_finished (sys_task y)"; simp add: counts_inv_def)+
  then show ?thesis using assms(3) unfolding Tally new by (simp add: counts_inv_def pending_def tally_fields)
next
  case AccDone
  then show ?thesis using ex assms(3-)
    by (cases "ts_accounting_finished (sys_task y)") (auto simp: counts_inv_def pending_def)
qed (rule counts_cong [OF _ _ _ _ _ _ _ _ _ _ assms(3)]; use ex in \<open>auto simp: pending_def split: if_splits\<close>)+

lemma protocol_steps:
  assumes inv: "protocol_inv tid rc (add_mset a M) y" and ex: "exec_stage tls a y = (nexts, spawned, y')"
    and acc: "a = ST_CompletionDone \<or> a = ST_Retired \<longrightarrow> ST_Acc1 \<in># M"
    and own: "a = ST_PayloadDone \<or> a = ST_CallDone \<longrightarrow> ST_Own1 \<in># M"
  shows "protocol_inv tid rc (M + mset nexts + pending spawned) y'"
proof -
  have leg: "\<forall>b\<in>#M + mset nexts + pending spawned. legal b"
    using inv legal_nexts [OF ex] by (auto simp: protocol_inv_def core_inv_def pending_def list_all_iff)
  consider (mark) "a \<in> marks" | (complete) i r st where "a = ST_Complete i r st" | (release) ctx where "a = ST_Release ctx" | (plain) "plain a"
    by (cases a) (auto simp: plain_def)
  then show ?thesis
  proof cases
    case mark
    then show ?thesis
      using core_mark [OF mark ex leg] own_mark [OF mark ex own] gates_mark [OF mark ex acc] counts_mark [OF mark ex] inv
        core_terminal [of "add_mset a M" y]
      by (auto simp: protocol_inv_def)
  next
    case complete
    then show ?thesis using protocol_complete inv ex leg by blast
  next
    case release
    then show ?thesis using protocol_release inv ex leg by blast
  next
    case plain
    then show ?thesis using protocol_plain inv ex leg by blast
  qed
qed

definition fresh :: "i64 \<Rightarrow> runtime_counters \<Rightarrow> ('run, 'env) task_system \<Rightarrow> bool" where
  "fresh tid rc y \<longleftrightarrow> y = snd (initial_config tid rc)"

interpretation protocol: stage_invariant "protocol_inv tid rc" "fresh tid rc" for tid rc
proof unfold_locales
  show "protocol_inv tid rc {#} y" if "fresh tid rc y" for y
    using that by (simp add: fresh_def initial_config_def TaskState_new_def protocol_inv_def core_inv_def gates_inv_def
        counts_inv_def registry_def own_inv_def state_ok_def is_terminal_def status_defs)
  show "protocol_inv tid rc (M + mset (call_stages i c)) y" if "protocol_inv tid rc M y" for M y i c
  proof (cases c)
    case TC_JobDone
    have "core_inv (M + mset (call_stages i c)) y" 
      using that by (auto simp: TC_JobDone protocol_inv_def core_inv_def legal_def)
    moreover have "own_inv (M + mset (call_stages i c)) y"
      by (rule own_cong [where N = M and y = y]) (use that in \<open>simp_all add: TC_JobDone protocol_inv_def\<close>)
    moreover have "gates_inv (M + mset (call_stages i c)) (sys_task y)"
      by (rule gates_cong [where N = M and s = "sys_task y"]) (use that in \<open>simp_all add: TC_JobDone protocol_inv_def\<close>)
    moreover have "counts_inv tid rc (M + mset (call_stages i c)) (sys_task y) (sys_runtime y)"
      by (rule counts_cong [where N = M and s = "sys_task y" and rt = "sys_runtime y"])
         (use that in \<open>simp_all add: TC_JobDone protocol_inv_def\<close>)
    ultimately show ?thesis by (simp add: protocol_inv_def)
  qed (rule protocol_quiet [OF that]; use that in \<open>auto simp: protocol_inv_def core_inv_def quiet_refl legal_def marks_def\<close>)+
  show "protocol_inv tid rc (M + mset nexts + pending spawned) y'"
    if "protocol_inv tid rc (add_mset a M) y" "exec_stage tls a y = (nexts, spawned, y')"
      "a = ST_CompletionDone \<or> a = ST_Retired \<longrightarrow> ST_Acc1 \<in># M" "a = ST_PayloadDone \<or> a = ST_CallDone \<longrightarrow> ST_Own1 \<in># M"
    for a M y tls nexts spawned y'
    using that by (rule protocol_steps)
  show "ts_owner_released (sys_task y) \<longrightarrow> ts_result (sys_task y) = None" if "protocol_inv tid rc M y" for M y
    using that by (simp add: protocol_inv_def core_inv_def state_ok_def)
qed

end
