(* ===== verification/Task_Ledger.thy ===== *)
theory Task_Ledger
  imports Task_Invariants
begin

text \<open>
  Where the payloads and frames of a task go, and the theorems on all interleavings of
  \<open>src/src/runtime/task.rs\<close>'s \<open>TaskState\<close>.
\<close>

section \<open>Payloads and frames\<close>

fun held_value :: "('run, 'env) stage \<Rightarrow> 'env value_t multiset" where
  "held_value (ST_Drop r) = value_of r"
| "held_value (ST_DropReleased r) = value_of r"
| "held_value _ = {#}"

fun held_run :: "('run, 'env) stage \<Rightarrow> 'run multiset" where
  "held_run (ST_DropRun run) = {#run#}"
| "held_run _ = {#}"

definition held_values :: "('run, 'env) stage multiset \<Rightarrow> 'env value_t multiset" where
  "held_values M = \<Sum>\<^sub># (image_mset held_value M)"

definition held_runs :: "('run, 'env) stage multiset \<Rightarrow> 'run multiset" where
  "held_runs M = \<Sum>\<^sub># (image_mset held_run M)"

lemma held_simps [simp]:
  "held_values {#} = {#}" "held_values (add_mset a M) = held_value a + held_values M" "held_values (M + N) = held_values M + held_values N"
  "held_runs {#} = {#}" "held_runs (add_mset a M) = held_run a + held_runs M" "held_runs (M + N) = held_runs M + held_runs N"
  by (simp_all add: held_values_def held_runs_def)

lemma held_stage_lists [simp]:
  "held_values (mset (drop_stages r)) = opt_value r" "held_runs (mset (drop_stages r)) = {#}"
  "held_values (mset (run_stages q)) = {#}" "held_runs (mset (run_stages q)) = opt_run q"
  by (simp_all add: drop_stages_def run_stages_def opt_value_def opt_run_def split: option.split)

definition ledger :: "('run, 'env) stage multiset \<Rightarrow> ('run, 'env) task_system \<Rightarrow> bool" where
  "ledger M y \<longleftrightarrow>
     sys_submitted y = opt_value (ts_result (sys_task y)) + sys_delivered y + sys_dropped y + held_values M
     \<and> sys_installed y = opt_run (ts_pending_run (sys_task y)) + sys_started y + sys_discarded y + held_runs M"

text \<open>What the sections do to the slot and to the frame.\<close>

lemma cancel_moves: "request_cancel_locked ctx s = (f, q, s') \<Longrightarrow>
    ts_result s' = ts_result s \<and> opt_run (ts_pending_run s) = opt_run (ts_pending_run s') + opt_run q"
  by (auto simp: request_cancel_locked_def opt_run_def split: if_splits option.splits)

lemma claim_moves: "claim_run s = (q, s') \<Longrightarrow>
    ts_result s' = ts_result s \<and> opt_run (ts_pending_run s) = opt_run (ts_pending_run s') + opt_run q"
  by (auto simp: claim_run_def opt_run_def split: if_splits option.splits)

lemma install_moves: "install_run_locked run s = (q, s') \<Longrightarrow>
    ts_result s' = ts_result s \<and> (case q of
       Some r \<Rightarrow> r = run \<and> ts_pending_run s' = ts_pending_run s
     | None \<Rightarrow> ts_pending_run s' = Some run)"
  by (auto simp: install_run_locked_def split: if_splits)

lemma remember_moves: "opt_value (ts_result (remember_cleanup_deadline tls s)) = opt_value (ts_result s)
    \<and> ts_pending_run (remember_cleanup_deadline tls s) = ts_pending_run s"
proof (cases "tls = None \<or> ts_cancellation s = None")
  case False
  then obtain c e where "tls = Some c" "ts_cancellation s = Some e" by auto
  then show ?thesis
    by (cases "ts_result s") (auto simp: remember_cleanup_deadline_def opt_value_def value_of_def Let_def split: sum.split)
qed (auto simp: remember_cleanup_deadline_def split: option.split)

lemma set_status_moves: "ts_result (set_status st s) = ts_result s \<and> ts_pending_run (set_status st s) = ts_pending_run s"
  by (simp add: set_status_def)

lemma complete_pending: "complete_locked tid r st s = (u, ab, p, s') \<Longrightarrow> ts_pending_run s' = ts_pending_run s"
  by (auto simp: complete_locked_def Let_def split: if_splits prod.splits)

lemma value_of_null: "opt_run None = {#}" "opt_run (Some run) = {#run#}" "opt_value None = {#}" "opt_value (Some r) = value_of r"
  by (simp_all add: opt_run_def opt_value_def)

lemma ledger_steps:
  assumes led: "ledger (add_mset a M) y" and ok: "state_ok (sys_task y)" "legal a" and ex: "exec_stage tls a y = (nexts, spawned, y')"
  shows "ledger (M + mset nexts + pending spawned) y'"
proof (cases a)
  case (ST_Complete tid r st)
  obtain u ab p s' where c: "complete_locked tid r st (sys_task y) = (u, ab, p, s')" by (metis prod_cases4)
  have "st = None \<or> st = Some TASK_PANICKED" using ok(2) ST_Complete by (auto simp: legal_def split: option.splits)
  from complete_effect [OF c ok(1) this]
  have "opt_value u + opt_value ab + opt_value (ts_result s') = value_of r + opt_value (ts_result (sys_task y))" by blast
  with led ex c complete_pending [OF c] show ?thesis
    by (auto simp: ST_Complete ledger_def pending_def ac_simps)
next
  case (ST_Cancel ctx)
  obtain f q s' where c: "request_cancel_locked ctx (sys_task y) = (f, q, s')" by (metis prod_cases3)
  from cancel_moves [OF c] led ex c show ?thesis
    by (cases q) (auto simp: ST_Cancel ledger_def pending_def value_of_null)
next
  case (ST_Install run)
  obtain q s' where c: "install_run_locked run (sys_task y) = (q, s')" by fastforce
  from install_moves [OF c] led ex c show ?thesis
    by (cases q) (auto simp: ST_Install ledger_def pending_def value_of_null)
next
  case ST_Claim
  obtain q s' where c: "claim_run (sys_task y) = (q, s')" by fastforce
  from claim_moves [OF c] led ex c show ?thesis
    by (auto simp: ST_Claim ledger_def pending_def)
next
  case (ST_Reject tid r)
  then show ?thesis using led ex
    by (auto simp: ledger_def pending_def reject_queued_locked_def value_of_null)
next
  case (ST_Release ctx)
  then show ?thesis using led ex
    by (cases "ts_result (sys_task y)") (auto simp: ledger_def pending_def release_owner_locked_def value_of_null Let_def)
next
  case (ST_Observe b)
  then show ?thesis using led ex
    by (cases b) (auto simp: ledger_def pending_def observe_result_def value_of_null)
qed (use led ex in \<open>auto simp: ledger_def pending_def remember_moves set_status_moves split: if_splits\<close>)

lemma ledger_calls: "ledger M y \<Longrightarrow> ledger (M + mset (call_stages tid c)) y"
  by (cases c) (simp_all add: ledger_def)

definition accounts_inv :: "i64 \<Rightarrow> runtime_counters \<Rightarrow> ('run, 'env) stage multiset \<Rightarrow> ('run, 'env) task_system \<Rightarrow> bool" where
  "accounts_inv tid rc M y \<longleftrightarrow> protocol_inv tid rc M y \<and> ledger M y"

interpretation accounts: stage_invariant "accounts_inv tid rc" "fresh tid rc" for tid rc
proof unfold_locales
  fix M a tls nexts spawned i c and y y' :: "('run, 'env) task_system"
  show "fresh tid rc y \<Longrightarrow> accounts_inv tid rc {#} y"
    using protocol.starts [of tid rc y]
    by (simp add: accounts_inv_def fresh_def initial_config_def ledger_def TaskState_new_def value_of_null)
  show "accounts_inv tid rc M y \<Longrightarrow> accounts_inv tid rc (M + mset (call_stages i c)) y"
    by (simp add: accounts_inv_def protocol.calls ledger_calls)
  show "accounts_inv tid rc (M + mset nexts + pending spawned) y'"
    if "accounts_inv tid rc (add_mset a M) y" "exec_stage tls a y = (nexts, spawned, y')"
      "a = ST_CompletionDone \<or> a = ST_Retired \<longrightarrow> ST_Acc1 \<in># M" "a = ST_PayloadDone \<or> a = ST_CallDone \<longrightarrow> ST_Own1 \<in># M"
    using that protocol.steps [of tid rc a M y tls nexts spawned y'] ledger_steps [of a M y tls nexts spawned y']
    by (auto simp: accounts_inv_def protocol_inv_def core_inv_def)
  show "accounts_inv tid rc M y \<Longrightarrow> ts_owner_released (sys_task y) \<longrightarrow> ts_result (sys_task y) = None"
    using protocol.released [of tid rc M y] by (simp add: accounts_inv_def)
qed

lemma run_accounts:
  "list_all ordered (fst (task_run tid rc evs)) \<and> accounts_inv tid rc (pending (fst (task_run tid rc evs))) (snd (task_run tid rc evs))"
  by (rule accounts.run_keeps) (simp add: fresh_def)

section \<open>What later states keep\<close>

text \<open>Later in the same run: a terminal status stays, its empty slot stays empty, and the first cause of a
  cancellation stays while its deadline can only become earlier.\<close>

definition later :: "('run, 'env) task_state \<Rightarrow> ('run, 'env) task_state \<Rightarrow> bool" where
  "later s s' \<longleftrightarrow>
     (if is_terminal s then ts_status s' = ts_status s \<and> (if ts_result s = None then ts_result s' = None else True) else True)
     \<and> (case ts_cancellation s of
          None \<Rightarrow> True
        | Some c \<Rightarrow> \<exists>c'. ts_cancellation s' = Some c' \<and> rt_reason c' = rt_reason c \<and> rt_cleanup_deadline c' \<le> rt_cleanup_deadline c)"

lemma later_refl: "later s s"
  by (auto simp: later_def split: option.split)

lemma terminal_stays: "later s s' \<Longrightarrow> is_terminal s \<Longrightarrow> is_terminal s'"
  by (simp add: later_def is_terminal_def split: if_splits)

lemma later_trans: "later s s' \<Longrightarrow> later s' s'' \<Longrightarrow> later s s''"
  using terminal_stays [of s s'] by (fastforce simp: later_def split: option.splits if_splits intro: order_trans)

lemma later_same: "ts_status s' = ts_status s \<Longrightarrow> ts_result s' = ts_result s \<Longrightarrow> ts_cancellation s' = ts_cancellation s \<Longrightarrow> later s s'"
  by (auto simp: later_def split: option.split)

lemma complete_later:
  assumes "complete_locked tid r st s = (u, ab, p, s')" "state_ok s" "st = None \<or> st = Some TASK_PANICKED"
  shows "later s s'"
proof (cases "is_terminal s")
  case True
  then show ?thesis using assms(1) by (auto simp: complete_refused intro: later_refl)
next
  case False
  with assms(2) have "ts_result s = None" by (auto simp: state_ok_def)
  then have "ts_cancellation s' = completion_context r (ts_cancellation s)"
    using complete_published [OF _ False assms(3), of r tid] assms(1) by (auto simp: Let_def split: if_splits)
  with False show ?thesis
    by (auto simp: later_def completion_context_def tightened_def split: option.splits)
qed

lemma exec_later:
  assumes ok: "state_ok (sys_task y)" "legal a" and ex: "exec_stage tls a y = (nexts, spawned, y')"
  shows "later (sys_task y) (sys_task y')"
proof (cases a)
  case (ST_Complete tid r st)
  obtain u ab p s' where c: "complete_locked tid r st (sys_task y) = (u, ab, p, s')" by (metis prod_cases4)
  have "st = None \<or> st = Some TASK_PANICKED" using ok(2) ST_Complete by (auto simp: legal_def split: option.splits)
  from complete_later [OF c ok(1) this] show ?thesis using ex c ST_Complete by auto
next
  case (ST_Cancel ctx)
  then show ?thesis using ex
    by (auto simp: request_cancel_locked_def later_def tightened_def later_refl split: option.splits if_splits)
next
  case (ST_Install run)
  then show ?thesis using ex
    by (auto simp: install_run_locked_def Let_def later_refl split: option.splits if_splits intro: later_same)
next
  case ST_Claim
  then show ?thesis using ex
    by (auto simp: claim_run_def later_def split: option.splits if_splits)
next
  case (ST_Reject tid r)
  then show ?thesis using ex by (auto simp: reject_queued_locked_def intro: later_same)
next
  case (ST_Release ctx)
  then show ?thesis using ex by (auto simp: release_owner_locked_def later_def Let_def split: option.split)
next
  case (ST_Observe b)
  then show ?thesis using ex by (auto simp: observe_result_def later_def split: option.split)
next
  case (ST_SetStatus st)
  then show ?thesis using ex by (auto simp: set_status_def later_def split: option.split)
next
  case ST_Remember
  then show ?thesis using ex
    by (auto simp: remember_cleanup_deadline_def later_def tightened_def Let_def split: option.splits sum.splits)
qed (use ex in \<open>auto intro: later_same split: if_splits\<close>)

lemma step_later:
  assumes "accounts_inv tid rc (pending ths) y" "config_step ev (ths, y) = (ths', y')"
  shows "later (sys_task y) (sys_task y')"
proof (cases ev)
  case (EV_Step i tls)
  show ?thesis
  proof (cases "i < length ths \<and> ths ! i \<noteq> []")
    case True
    then obtain a as where i: "i < length ths" "ths ! i = a # as" by (cases "ths ! i") auto
    obtain nexts spawned y1 where ex: "exec_stage tls a y = (nexts, spawned, y1)" by (metis prod_cases3)
    have "state_ok (sys_task y)" "legal a"
      using assms(1) by (auto simp: accounts_inv_def protocol_inv_def core_inv_def pending_split [OF i])
    from exec_later [OF this ex] show ?thesis using assms(2) EV_Step i ex by auto
  next
    case False
    then show ?thesis using assms EV_Step by (auto simp: later_refl split: list.splits if_splits)
  qed
qed (use assms in \<open>auto simp: later_refl\<close>)

lemma task_run_snoc: "task_run tid rc (evs @ [ev]) = config_step ev (task_run tid rc evs)"
  by (simp add: task_run_def)

lemma run_later: "later (sys_task (snd (task_run tid rc evs))) (sys_task (snd (task_run tid rc (evs @ evs'))))"
proof (induction evs' rule: rev_induct)
  case Nil
  show ?case by (simp add: later_refl)
next
  case (snoc ev evs')
  obtain ths y where c: "task_run tid rc (evs @ evs') = (ths, y)" by fastforce
  obtain ths' y' where c': "config_step ev (ths, y) = (ths', y')" by fastforce
  have "later (sys_task y) (sys_task y')" using step_later [OF _ c'] run_accounts [of tid rc "evs @ evs'"] c by auto
  then show ?case using snoc c c' later_trans by (fastforce simp: task_run_snoc simp flip: append_assoc)
qed

section \<open>Properties\<close>

lemma ordered_mem:
  assumes "list_all ordered ths"
  shows "ST_Unregister \<in># pending ths \<or> ST_Deactivate \<in># pending ths \<or> ST_Finished \<in># pending ths \<or> ST_Tally \<in># pending ths
      \<Longrightarrow> ST_AccDone \<in># pending ths"
    and "ST_DropReleased r \<in># pending ths \<Longrightarrow> ST_PayloadDone \<in># pending ths"
proof -
  have acc: "ordered t \<Longrightarrow> ST_Unregister \<in> set t \<or> ST_Deactivate \<in> set t \<or> ST_Finished \<in> set t \<or> ST_Tally \<in> set t \<Longrightarrow> ST_AccDone \<in> set t"
    for t :: "('a, 'b) stage list" by (induction t) auto
  have own: "ordered t \<Longrightarrow> ST_DropReleased r \<in> set t \<Longrightarrow> ST_PayloadDone \<in> set t" for t :: "('a, 'b) stage list"
    by (induction t) auto
  show "ST_Unregister \<in># pending ths \<or> ST_Deactivate \<in># pending ths \<or> ST_Finished \<in># pending ths \<or> ST_Tally \<in># pending ths
      \<Longrightarrow> ST_AccDone \<in># pending ths"
    using assms acc by (force simp: pending_def list_all_iff)
  show "ST_DropReleased r \<in># pending ths \<Longrightarrow> ST_PayloadDone \<in># pending ths"
    using assms own by (force simp: pending_def list_all_iff)
qed

lemma pending_idle: "list_all (\<lambda>t. t = []) ths \<Longrightarrow> pending ths = {#}"
  by (auto simp: pending_def list_all_iff)

lemma counts_settled:
  assumes "counts_inv tid rc M s rt" "ST_Unregister \<notin># M" "ST_Deactivate \<notin># M" "ST_Finished \<notin># M" "ST_Tally \<notin># M"
  shows "if ts_accounting_finished s
    then rc_states rt = rc_states rc - {tid} \<and> rc_active_tasks rt = rc_active_tasks rc - 1 \<and> rc_finished_tasks rt = rc_finished_tasks rc + 1
      \<and> rc_finished_cancelled_tasks rt = rc_finished_cancelled_tasks rc + (if ts_status s = TASK_CANCELLED then 1 else 0)
      \<and> rc_finished_timed_out_tasks rt = rc_finished_timed_out_tasks rc + (if ts_status s = TASK_TIMED_OUT then 1 else 0)
    else rt = rc"
proof -
  have zero: "count M ST_Unregister = 0" "count M ST_Deactivate = 0" "count M ST_Finished = 0" "count M ST_Tally = 0"
    using assms(2-) by (simp_all add: not_in_iff)
  show ?thesis
  proof (cases "ts_accounting_finished s")
    case True
    have one: "tallied code st (Suc 0) = (if st = code then 1 else 0)" for code st by (simp add: tallied_def)
    from True show ?thesis using assms(1) by (simp add: counts_inv_def zero registry_def one split del: if_split)
  next
    case False
    then have "rc_states rt = rc_states rc" "rc_active_tasks rt = rc_active_tasks rc" "rc_finished_tasks rt = rc_finished_tasks rc"
      "rc_finished_cancelled_tasks rt = rc_finished_cancelled_tasks rc" "rc_finished_timed_out_tasks rt = rc_finished_timed_out_tasks rc"
      using assms(1) by (simp_all add: counts_inv_def zero registry_def)
    with False show ?thesis by (simp add: runtime_counters.equality)
  qed
qed

text \<open>C36: The outcome of a task is final. However its methods are interleaved, once the task is terminal
  its status never changes and an emptied result slot is never filled again; and the cause of a
  cancellation is the first one requested, with a deadline that can only become earlier.\<close>

theorem task_outcome_final:
  "let s = sys_task (snd (task_run tid rc evs)); s' = sys_task (snd (task_run tid rc (evs @ evs'))) in
     (if is_terminal s then ts_status s' = ts_status s \<and> (if ts_result s = None then ts_result s' = None else True) else True)
     \<and> (case ts_cancellation s of
          None \<Rightarrow> True
        | Some c \<Rightarrow> \<exists>c'. ts_cancellation s' = Some c' \<and> rt_reason c' = rt_reason c \<and> rt_cleanup_deadline c' \<le> rt_cleanup_deadline c)"
  using run_later [of tid rc evs evs'] by (simp add: later_def Let_def)

lemma own_settled: "own_inv {#} y \<Longrightarrow> ts_owner_cleanup_done (sys_task y) = ts_owner_released (sys_task y)"
  by (cases "ts_owner_released (sys_task y)"; cases "ts_owner_call_done (sys_task y)"; cases "ts_owner_payload_done (sys_task y)")
    (simp_all add: own_inv_def)

text \<open>C37: Every task is accounted for exactly once and no acknowledgement is lost. In every interleaving
  the accounting is done only after the queue node is retired and the losing payloads of the publishing
  call are gone; it then has removed the task from the registry and moved each counter by one. When all
  threads have finished their calls, the accounting is done if and only if the queue node is retired and
  the task is terminal (otherwise no counter has moved), and owner cleanup is acknowledged if and only if
  an owner was released.\<close>

theorem task_accounting_exact:
  "case task_run tid rc evs of (ths, y) \<Rightarrow>
     let s = sys_task y; rt = sys_runtime y; idle = list_all (\<lambda>t. t = []) ths in
     (if ts_accounting_done s then
        ts_execution_queue_retired s \<and> ts_completion_cleanup_done s \<and> is_terminal s
        \<and> rc_states rt = rc_states rc - {tid} \<and> rc_active_tasks rt = rc_active_tasks rc - 1
        \<and> rc_finished_tasks rt = rc_finished_tasks rc + 1
        \<and> rc_finished_cancelled_tasks rt = rc_finished_cancelled_tasks rc + (if ts_status s = TASK_CANCELLED then 1 else 0)
        \<and> rc_finished_timed_out_tasks rt = rc_finished_timed_out_tasks rc + (if ts_status s = TASK_TIMED_OUT then 1 else 0)
      else if idle then \<not> (ts_execution_queue_retired s \<and> is_terminal s) \<and> rt = rc
      else True)
     \<and> (if idle then ts_completion_cleanup_done s = is_terminal s \<and> ts_owner_cleanup_done s = ts_owner_released s else True)"
proof -
  obtain ths y where run: "task_run tid rc evs = (ths, y)" by fastforce
  let ?s = "sys_task y" and ?M = "pending ths"
  from run_accounts [of tid rc evs] run have ord: "list_all ordered ths" and inv: "protocol_inv tid rc ?M y"
    by (simp_all add: accounts_inv_def)
  then have core: "core_inv ?M y" and gates: "gates_inv ?M ?s" and counts: "counts_inv tid rc ?M ?s (sys_runtime y)" and own: "own_inv ?M y"
    by (simp_all add: protocol_inv_def)
  have acc: "if ts_accounting_done ?s then ts_accounting_finished ?s \<and> ST_AccDone \<notin># ?M else count ?M ST_AccDone = of_bool (ts_accounting_finished ?s)"
    using counts by (cases "ts_accounting_finished ?s") (auto simp: counts_inv_def not_in_iff)
  have completed: "list_all (\<lambda>t. t = []) ths \<Longrightarrow> ts_completion_cleanup_done ?s = is_terminal ?s"
    using core by (cases "is_terminal ?s"; cases "ts_completion_cleanup_done ?s") (simp_all add: core_inv_def pending_idle)
  have owned: "list_all (\<lambda>t. t = []) ths \<Longrightarrow> ts_owner_cleanup_done ?s = ts_owner_released ?s"
    using own own_settled [of y] by (simp add: pending_idle)
  have "if ts_accounting_done ?s then
        ts_execution_queue_retired ?s \<and> ts_completion_cleanup_done ?s \<and> is_terminal ?s
        \<and> rc_states (sys_runtime y) = rc_states rc - {tid} \<and> rc_active_tasks (sys_runtime y) = rc_active_tasks rc - 1
        \<and> rc_finished_tasks (sys_runtime y) = rc_finished_tasks rc + 1
        \<and> rc_finished_cancelled_tasks (sys_runtime y) = rc_finished_cancelled_tasks rc + (if ts_status ?s = TASK_CANCELLED then 1 else 0)
        \<and> rc_finished_timed_out_tasks (sys_runtime y) = rc_finished_timed_out_tasks rc + (if ts_status ?s = TASK_TIMED_OUT then 1 else 0)
      else if list_all (\<lambda>t. t = []) ths then \<not> (ts_execution_queue_retired ?s \<and> is_terminal ?s) \<and> sys_runtime y = rc else True"
  proof (cases "ts_accounting_done ?s")
    case True
    with acc have fin: "ts_accounting_finished ?s" "ST_AccDone \<notin># ?M" by auto
    have none: "ST_Unregister \<notin># ?M" "ST_Deactivate \<notin># ?M" "ST_Finished \<notin># ?M" "ST_Tally \<notin># ?M"
      using ordered_mem(1) [OF ord] fin(2) by blast+
    have "ts_execution_queue_retired ?s \<and> ts_completion_cleanup_done ?s" using gates fin(1) by (simp add: gates_inv_def Let_def)
    with counts_settled [OF counts none] core_terminal [OF core] fin(1) True show ?thesis by (simp split del: if_split)
  next
    case False
    have "sys_runtime y = rc \<and> \<not> (ts_execution_queue_retired ?s \<and> is_terminal ?s)" if idle: "list_all (\<lambda>t. t = []) ths"
    proof -
      note none = pending_idle [OF idle]
      have "\<not> ts_accounting_finished ?s" using acc False none by auto
      with counts_settled [OF counts] gates completed [OF idle] show ?thesis by (simp add: none gates_inv_def)
    qed
    with False show ?thesis by simp
  qed
  with completed owned show ?thesis by (simp add: run Let_def)
qed

text \<open>C38: No payload and no frame of a task is lost or duplicated. In every interleaving each value passed
  to a completion is in the result slot, or was delivered to one consuming await, or was dropped, or is
  about to be dropped by the thread that lost the race; the same holds for installed frames. When owner
  cleanup is acknowledged, the slot is empty and the released payload has been dropped.\<close>

theorem task_payloads_conserved:
  "case task_run tid rc evs of (ths, y) \<Rightarrow>
     sys_submitted y = opt_value (ts_result (sys_task y)) + sys_delivered y + sys_dropped y + held_values (pending ths)
     \<and> sys_installed y = opt_run (ts_pending_run (sys_task y)) + sys_started y + sys_discarded y + held_runs (pending ths)
     \<and> (if ts_owner_cleanup_done (sys_task y)
         then ts_result (sys_task y) = None \<and> (\<forall>r. ST_DropReleased r \<notin># pending ths) else True)"
proof -
  obtain ths y where run: "task_run tid rc evs = (ths, y)" by fastforce
  from run_accounts [of tid rc evs] run have ord: "list_all ordered ths" and inv: "protocol_inv tid rc (pending ths) y" and led: "ledger (pending ths) y"
    by (simp_all add: accounts_inv_def)
  have "ts_result (sys_task y) = None \<and> (\<forall>r. ST_DropReleased r \<notin># pending ths)" if "ts_owner_cleanup_done (sys_task y)"
  proof -
    have "ts_owner_released (sys_task y)" "ST_PayloadDone \<notin># pending ths"
      using inv that by (cases "ts_owner_released (sys_task y)"; simp add: protocol_inv_def own_inv_def Let_def not_in_iff)+
    with ordered_mem(2) [OF ord] protocol.released [OF inv] show ?thesis by blast
  qed
  with led show ?thesis by (simp add: run ledger_def)
qed

end
