(* ===== verification/Task_Batches.thy ===== *)
theory Task_Batches
  imports Task_State
begin

text \<open>
  The two persistent waits of scope exit: the cancellation broadcast
  (\<open>src/src/runtime/task/cancel_batch.rs\<close>) and the retirement evidence
  (\<open>src/src/runtime/task/retirement.rs\<close>). A poll reads the clock and the flags of its tasks, which
  other threads change: every reading is an input of the model. The queue step a poll asks
  for is recorded with the context it is given.
\<close>

section \<open>Scanning\<close>

text \<open>The first unfinished index and the number of unfinished entries.\<close>

fun scan_flags :: "nat \<Rightarrow> bool list \<Rightarrow> nat option \<Rightarrow> nat \<Rightarrow> nat option \<times> nat" where
  "scan_flags i [] first unfinished = (first, unfinished)"
| "scan_flags i (f # fs) first unfinished =
     (if f then scan_flags (Suc i) fs first unfinished
      else scan_flags (Suc i) fs (case first of Some j \<Rightarrow> Some j | None \<Rightarrow> Some i) (Suc unfinished))"

lemma scan_flags_first: "scan_flags i fs (Some j) n = (Some j, n + length (filter Not fs))"
  by (induction fs arbitrary: i n) auto

lemma scan_flags_spec:
  "scan_flags i fs None n = (case scan_flags 0 fs None 0 of (first, u) \<Rightarrow> (map_option (\<lambda>j. i + j) first, n + u))"
proof (induction fs arbitrary: i n)
  case (Cons f fs)
  show ?case
    using Cons [of "Suc i" n] Cons [of "Suc 0" 0]
    by (auto simp: scan_flags_first option.map_comp comp_def split: prod.splits)
qed simp

definition scan_exact :: "bool list \<Rightarrow> nat option \<times> nat \<Rightarrow> bool" where
  "scan_exact fs = (\<lambda>(first, u). u = length (filter Not fs) \<and>
     (case first of
        None \<Rightarrow> list_all id fs
      | Some i \<Rightarrow> i < length fs \<and> \<not> fs ! i \<and> list_all id (take i fs)))"

lemma scan_flags_exact: "scan_exact fs (scan_flags 0 fs None 0)"
proof (induction fs)
  case (Cons f fs)
  then show ?case
    by (cases f) (auto simp: scan_exact_def scan_flags_first scan_flags_spec [of "Suc 0" fs 0] split: prod.splits option.splits)
qed (simp add: scan_exact_def)

section \<open>The cancellation batch\<close>

datatype cancel_poll_result =
    CB_Pending nat nat
  | CB_TerminalObserved
  | CB_TimedOut runtime_termination

record cancel_batch =
  cb_context :: runtime_termination
  cb_release_context :: runtime_termination
  cb_completed :: "cancel_poll_result option"

text \<open>The counters of the runtime a batch touches and the queue steps it asked for.\<close>

record batch_metrics =
  bm_cleanup_timeouts :: nat
  bm_cleanup_unfinished :: nat
  bm_prefix_steps :: "runtime_termination list"

definition record_cleanup_timeout :: "batch_metrics \<Rightarrow> batch_metrics" where
  "record_cleanup_timeout m = m\<lparr>bm_cleanup_timeouts := Suc (bm_cleanup_timeouts m)\<rparr>"

text \<open>The broadcast requests cancellation of every handle; what cleanup runs meanwhile on this thread is
  \<open>acts\<close>.\<close>

definition cancel_batch_prepare ::
    "thread_act list \<Rightarrow> runtime_termination \<Rightarrow> thread_slots \<Rightarrow> ('run, 'env) task_state list
      \<Rightarrow> cancel_batch \<times> ('run, 'env) task_state list \<times> thread_slots" where
  "cancel_batch_prepare acts ctx t handles =
     (let (previous, t1) = CleanupGuard_enter ctx t;
          context = the (current_cleanup_context t1);
          handles' = map (\<lambda>s. snd (snd (request_cancel_locked context s))) handles;
          t2 = run_acts acts t1;
          release = (case current_cleanup_context t2 of
              Some r \<Rightarrow> context\<lparr>rt_cleanup_deadline := min (rt_cleanup_deadline context) (rt_cleanup_deadline r)\<rparr>
            | None \<Rightarrow> context)
      in (\<lparr>cb_context = context, cb_release_context = release, cb_completed = None\<rparr>, handles', CleanupGuard_drop previous t2))"

text \<open>What one poll reads: its argument, the clock before the queue step, the terminal flags, the clock
  after the scan.\<close>

record cancel_reading =
  cr_now :: nat
  cr_before :: nat
  cr_terminal :: "bool list"
  cr_after :: nat

definition cancel_batch_poll ::
    "cancel_reading \<Rightarrow> cancel_batch \<times> batch_metrics \<Rightarrow> cancel_poll_result \<times> cancel_batch \<times> batch_metrics" where
  "cancel_batch_poll rd = (\<lambda>(b, m).
     case cb_completed b of
       Some (CB_TimedOut ctx) \<Rightarrow> (CB_TimedOut ctx, b, m)
     | completed \<Rightarrow>
         let m1 = (if max (cr_now rd) (cr_before rd) < rt_cleanup_deadline (cb_release_context b)
                   then m\<lparr>bm_prefix_steps := bm_prefix_steps m @ [cb_release_context b]\<rparr> else m) in
         case completed of
           Some r \<Rightarrow> (r, b, m1)
         | None \<Rightarrow>
             (case scan_flags 0 (cr_terminal rd) None 0 of
                (None, _) \<Rightarrow> (CB_TerminalObserved, b\<lparr>cb_completed := Some CB_TerminalObserved\<rparr>, m1)
              | (Some first, unfinished) \<Rightarrow>
                  if rt_cleanup_deadline (cb_context b) \<le> max (cr_now rd) (cr_after rd) then
                    (let m2 = record_cleanup_timeout m1;
                         m3 = m2\<lparr>bm_cleanup_unfinished := bm_cleanup_unfinished m2 + unfinished\<rparr>;
                         completed = CB_TimedOut (cb_context b)
                     in (completed, b\<lparr>cb_completed := Some completed\<rparr>, m3))
                  else (CB_Pending first unfinished, b, m1)))"

fun cancel_batch_polls ::
    "cancel_reading list \<Rightarrow> cancel_batch \<times> batch_metrics \<Rightarrow> cancel_poll_result list \<times> cancel_batch \<times> batch_metrics" where
  "cancel_batch_polls [] st = ([], st)"
| "cancel_batch_polls (rd # rds) st =
     (let (r, st1) = cancel_batch_poll rd st; (rs, st2) = cancel_batch_polls rds st1 in (r # rs, st2))"

text \<open>A pending answer is exact and is given only before the deadline.\<close>

definition poll_exact :: "runtime_termination \<Rightarrow> cancel_reading \<Rightarrow> cancel_poll_result \<Rightarrow> bool" where
  "poll_exact ctx rd r = (case r of
       CB_Pending i u \<Rightarrow> max (cr_now rd) (cr_after rd) < rt_cleanup_deadline ctx \<and> scan_exact (cr_terminal rd) (Some i, u)
     | CB_TerminalObserved \<Rightarrow> True
     | CB_TimedOut c \<Rightarrow> c = ctx)"

definition is_pending :: "cancel_poll_result \<Rightarrow> bool" where
  "is_pending r = (case r of CB_Pending _ _ \<Rightarrow> True | _ \<Rightarrow> False)"

lemma poll_settled:
  assumes "cb_completed b = Some r" "\<not> is_pending r"
  shows "\<exists>m'. cancel_batch_poll rd (b, m) = (r, b, m') \<and> bm_cleanup_timeouts m' = bm_cleanup_timeouts m
    \<and> bm_cleanup_unfinished m' = bm_cleanup_unfinished m"
  using assms by (cases r) (auto simp: cancel_batch_poll_def is_pending_def Let_def)

lemma polls_settled:
  assumes "cb_completed b = Some r" "\<not> is_pending r"
  shows "\<exists>m'. cancel_batch_polls rds (b, m) = (replicate (length rds) r, b, m') \<and> bm_cleanup_timeouts m' = bm_cleanup_timeouts m
    \<and> bm_cleanup_unfinished m' = bm_cleanup_unfinished m"
proof (induction rds arbitrary: m)
  case (Cons rd rds)
  obtain m1 where "cancel_batch_poll rd (b, m) = (r, b, m1)" "bm_cleanup_timeouts m1 = bm_cleanup_timeouts m"
    "bm_cleanup_unfinished m1 = bm_cleanup_unfinished m"
    using poll_settled [OF assms] by blast
  with Cons.IH [of m1] show ?case by fastforce
qed simp

lemma poll_open:
  assumes "cb_completed b = None" "cancel_batch_poll rd (b, m) = (r, b', m')"
  shows "poll_exact (cb_context b) rd r \<and> cb_context b' = cb_context b
    \<and> (if is_pending r then b' = b \<and> bm_cleanup_timeouts m' = bm_cleanup_timeouts m \<and> bm_cleanup_unfinished m' = bm_cleanup_unfinished m
       else cb_completed b' = Some r
         \<and> bm_cleanup_timeouts m' = bm_cleanup_timeouts m + (if r = CB_TerminalObserved then 0 else 1)
         \<and> (r = CB_TerminalObserved \<longleftrightarrow> list_all id (cr_terminal rd)))"
proof (cases "scan_flags 0 (cr_terminal rd) None 0")
  case (Pair first u)
  then have ex: "scan_exact (cr_terminal rd) (first, u)" using scan_flags_exact [of "cr_terminal rd"] by simp
  have some: "first = Some i \<Longrightarrow> \<not> list_all id (cr_terminal rd)" for i
    using ex by (auto simp: scan_exact_def list_all_length)
  have none: "first = None \<Longrightarrow> list_all id (cr_terminal rd)" using ex by (simp add: scan_exact_def)
  show ?thesis
  proof (cases first)
    case None
    with assms Pair none show ?thesis
      by (auto simp: cancel_batch_poll_def poll_exact_def is_pending_def Let_def)
  next
    case (Some i)
    with assms Pair some ex show ?thesis
      by (auto simp: cancel_batch_poll_def poll_exact_def is_pending_def record_cleanup_timeout_def Let_def split: if_splits)
  qed
qed

lemma polls_shape:
  assumes "cb_completed b = None" "cancel_batch_polls rds (b, m) = (rs, b', m')"
  shows "length rs = length rds \<and> list_all2 (poll_exact (cb_context b)) rds rs
    \<and> bm_cleanup_timeouts m' = bm_cleanup_timeouts m + (if CB_TimedOut (cb_context b) \<in> set rs then 1 else 0)
    \<and> (\<exists>n r. rs = takeWhile is_pending rs @ replicate n r)"
  using assms
proof (induction rds arbitrary: b m rs)
  case (Cons rd rds)
  obtain r b1 m1 where p: "cancel_batch_poll rd (b, m) = (r, b1, m1)" by (metis prod_cases3)
  obtain rs1 where rest: "cancel_batch_polls rds (b1, m1) = (rs1, b', m')" "rs = r # rs1"
    using Cons.prems(2) p by (auto simp: Let_def split: prod.splits)
  note open_poll = poll_open [OF Cons.prems(1) p]
  show ?case
  proof (cases "is_pending r")
    case True
    with open_poll have "b1 = b" by simp
    have "r \<noteq> CB_TimedOut c" for c using True by (auto simp: is_pending_def)
    with Cons.IH [of b1 m1 rs1] rest open_poll True Cons.prems(1) \<open>b1 = b\<close> show ?thesis
      by (auto simp: rest(2))
  next
    case False
    with open_poll have c: "cb_completed b1 = Some r" by simp
    have exact: "poll_exact (cb_context b) rd' r" for rd' using open_poll False
      by (auto simp: poll_exact_def is_pending_def split: cancel_poll_result.splits)
    obtain m2 where "cancel_batch_polls rds (b1, m1) = (replicate (length rds) r, b1, m2)" "bm_cleanup_timeouts m2 = bm_cleanup_timeouts m1"
      using polls_settled [OF c False] by blast
    with rest have rs: "rs = replicate (Suc (length rds)) r" "bm_cleanup_timeouts m' = bm_cleanup_timeouts m1" by auto
    have r: "r = CB_TerminalObserved \<or> r = CB_TimedOut (cb_context b)"
      using open_poll False by (auto simp: poll_exact_def is_pending_def split: cancel_poll_result.splits)
    have "list_all2 (poll_exact (cb_context b)) (rd # rds) rs"
      using exact by (simp add: rs list_all2_conv_all_nth del: replicate_Suc)
    moreover have "rs = takeWhile is_pending rs @ replicate (Suc (length rds)) r" using False by (simp add: rs)
    ultimately show ?thesis using r open_poll False by (auto simp: rs simp del: replicate_Suc)
  qed
qed simp

section \<open>The retirement batch\<close>

datatype submission = SUBMISSION_PENDING | SUBMISSION_ACCEPTED | SUBMISSION_PRODUCER_RETIRED

definition retirement_observe ::
    "submission \<Rightarrow> nat \<Rightarrow> ('run, 'env) task_state \<Rightarrow> bool \<times> runtime_termination option" where
  "retirement_observe submission blocking s =
     ((case submission of
         SUBMISSION_ACCEPTED \<Rightarrow> ts_owner_cleanup_done s \<and> ts_completion_cleanup_done s
           \<and> ts_execution_queue_retired s \<and> ts_accounting_done s
       | SUBMISSION_PRODUCER_RETIRED \<Rightarrow> ts_owner_cleanup_done s
       | SUBMISSION_PENDING \<Rightarrow> False) \<and> blocking = 0, task_cancellation s)"

datatype retirement_poll =
    RP_Pending nat nat
  | RP_Retired
  | RP_TimedOut runtime_termination

record retirement_batch =
  rb_witnesses :: nat
  rb_context :: runtime_termination
  rb_prefix_cursor :: nat
  rb_timed_out :: bool

definition retirement_from_reserved :: "nat \<Rightarrow> runtime_termination \<Rightarrow> retirement_batch" where
  "retirement_from_reserved witnesses ctx = \<lparr>rb_witnesses = witnesses, rb_context = ctx, rb_prefix_cursor = 0, rb_timed_out = False\<rparr>"

definition tighten_by :: "runtime_termination option \<Rightarrow> runtime_termination \<Rightarrow> runtime_termination" where
  "tighten_by o_ctx c = (case o_ctx of
       Some x \<Rightarrow> c\<lparr>rt_cleanup_deadline := min (rt_cleanup_deadline c) (rt_cleanup_deadline x)\<rparr>
     | None \<Rightarrow> c)"

text \<open>What a scan reads of every witness, in order, and the cleanup window of the thread.\<close>

record retirement_reading =
  rr_witness :: "nat \<Rightarrow> bool \<times> runtime_termination option"
  rr_cleanup :: "runtime_termination option"

definition retirement_scan :: "retirement_reading \<Rightarrow> retirement_batch \<Rightarrow> (nat option \<times> nat) \<times> retirement_batch" where
  "retirement_scan rd b =
     (let obs = map (rr_witness rd) [0..<rb_witnesses b];
          ctx = fold (\<lambda>x. tighten_by (snd x)) obs (rb_context b)
      in (scan_flags 0 (map fst obs) None 0, b\<lparr>rb_context := tighten_by (rr_cleanup rd) ctx\<rparr>))"

definition observe_progress ::
    "nat option \<Rightarrow> nat \<Rightarrow> nat \<Rightarrow> nat \<Rightarrow> retirement_batch \<times> batch_metrics \<Rightarrow> retirement_poll \<times> retirement_batch \<times> batch_metrics" where
  "observe_progress first unfinished now clock = (\<lambda>(b, m).
     if rb_timed_out b then (RP_TimedOut (rb_context b), b, m)
     else case first of
       None \<Rightarrow> (RP_Retired, b, m)
     | Some i \<Rightarrow>
         if rt_cleanup_deadline (rb_context b) \<le> max now clock then
           (let m1 = record_cleanup_timeout m;
                m2 = m1\<lparr>bm_cleanup_unfinished := bm_cleanup_unfinished m1 + unfinished\<rparr>
            in (RP_TimedOut (rb_context b), b\<lparr>rb_timed_out := True\<rparr>, m2))
         else (RP_Pending i unfinished, b, m))"

record retirement_input =
  ri_now :: nat
  ri_scan1 :: retirement_reading
  ri_clock1 :: nat
  ri_acts :: "thread_act list"
  ri_slots :: thread_slots
  ri_scan2 :: retirement_reading
  ri_clock2 :: nat

text \<open>One poll; \<open>None\<close> is the panic of an index out of range or of a remainder by zero.\<close>

definition retirement_batch_poll ::
    "retirement_input \<Rightarrow> retirement_batch \<times> batch_metrics \<Rightarrow> (retirement_poll \<times> retirement_batch \<times> batch_metrics) option" where
  "retirement_batch_poll ri = (\<lambda>(b, m).
     let ((first, unfinished), b1) = retirement_scan (ri_scan1 ri) b;
         (progress, b2, m2) = observe_progress first unfinished (ri_now ri) (ri_clock1 ri) (b1, m) in
     case progress of
       RP_Pending _ _ \<Rightarrow>
         (let index = rb_prefix_cursor b2 in
          if rb_witnesses b2 = 0 \<or> rb_witnesses b2 \<le> index then None
          else
            let b3 = b2\<lparr>rb_prefix_cursor := (index + 1) mod rb_witnesses b2\<rparr>;
                (previous, t1) = CleanupGuard_enter (rb_context b3) (ri_slots ri);
                m3 = m2\<lparr>bm_prefix_steps := bm_prefix_steps m2 @ [rb_context b3]\<rparr>;
                t2 = run_acts (ri_acts ri) t1;
                b4 = b3\<lparr>rb_context := tighten_by (current_cleanup_context t2) (rb_context b3)\<rparr>;
                ((first, unfinished), b5) = retirement_scan (ri_scan2 ri) b4
            in Some (observe_progress first unfinished (ri_now ri) (ri_clock2 ri) (b5, m3)))
     | _ \<Rightarrow> Some (progress, b2, m2))"

fun retirement_batch_polls ::
    "retirement_input list \<Rightarrow> retirement_batch \<times> batch_metrics \<Rightarrow> (retirement_poll list \<times> retirement_batch \<times> batch_metrics) option" where
  "retirement_batch_polls [] st = Some ([], st)"
| "retirement_batch_polls (ri # ris) st = (case retirement_batch_poll ri st of
       None \<Rightarrow> None
     | Some (r, st1) \<Rightarrow> (case retirement_batch_polls ris st1 of
         None \<Rightarrow> None
       | Some (rs, st2) \<Rightarrow> Some (r # rs, st2)))"

definition cursor_ok :: "retirement_batch \<Rightarrow> bool" where
  "cursor_ok b \<longleftrightarrow> rb_prefix_cursor b < max 1 (rb_witnesses b)"

definition context_le :: "runtime_termination \<Rightarrow> runtime_termination \<Rightarrow> bool" where
  "context_le c' c \<longleftrightarrow> rt_reason c' = rt_reason c \<and> rt_cleanup_deadline c' \<le> rt_cleanup_deadline c"

lemma context_le_refl: "context_le c c" and context_le_trans: "context_le a b \<Longrightarrow> context_le b c \<Longrightarrow> context_le a c"
  by (simp_all add: context_le_def)

lemma tighten_by_le: "context_le (tighten_by x c) c"
  by (simp add: tighten_by_def context_le_def split: option.split)

lemma fold_tighten_le: "context_le (fold (\<lambda>x. tighten_by (snd x)) xs c) c"
proof (induction xs arbitrary: c)
  case (Cons x xs)
  then show ?case using context_le_trans [OF Cons [of "tighten_by (snd x) c"] tighten_by_le] by simp
qed (simp add: context_le_refl)

lemma scan_effect:
  assumes "retirement_scan rd b = ((first, u), b')"
  shows "rb_witnesses b' = rb_witnesses b \<and> rb_prefix_cursor b' = rb_prefix_cursor b \<and> rb_timed_out b' = rb_timed_out b
    \<and> context_le (rb_context b') (rb_context b) \<and> (first \<noteq> None \<longrightarrow> 0 < rb_witnesses b)"
proof -
  let ?obs = "map (rr_witness rd) [0..<rb_witnesses b]"
  have "scan_exact (map fst ?obs) (first, u)" using assms scan_flags_exact [of "map fst ?obs"] by (auto simp: retirement_scan_def Let_def)
  then have "first \<noteq> None \<longrightarrow> 0 < rb_witnesses b" by (auto simp: scan_exact_def split: option.splits)
  moreover have "context_le (tighten_by (rr_cleanup rd) (fold (\<lambda>x. tighten_by (snd x)) ?obs (rb_context b))) (rb_context b)"
    using context_le_trans [OF tighten_by_le fold_tighten_le] .
  ultimately show ?thesis using assms by (auto simp: retirement_scan_def Let_def)
qed

lemma progress_effect:
  assumes "observe_progress first u now clock (b, m) = (r, b', m')"
  shows "rb_witnesses b' = rb_witnesses b \<and> rb_prefix_cursor b' = rb_prefix_cursor b \<and> rb_context b' = rb_context b
    \<and> (rb_timed_out b \<longrightarrow> rb_timed_out b' \<and> r = RP_TimedOut (rb_context b) \<and> m' = m)
    \<and> (case r of RP_Pending i _ \<Rightarrow> first = Some i \<and> \<not> rb_timed_out b' \<and> max now clock < rt_cleanup_deadline (rb_context b)
        | RP_Retired \<Rightarrow> first = None \<and> \<not> rb_timed_out b' | RP_TimedOut c \<Rightarrow> rb_timed_out b' \<and> c = rb_context b')
    \<and> bm_cleanup_timeouts m' + of_bool (rb_timed_out b) = bm_cleanup_timeouts m + of_bool (rb_timed_out b')"
  using assms by (auto simp: observe_progress_def record_cleanup_timeout_def Let_def split: if_splits option.splits)

definition retirement_exact :: "runtime_termination \<Rightarrow> retirement_input \<Rightarrow> retirement_poll \<Rightarrow> bool" where
  "retirement_exact ctx ri r = (case r of
       RP_Pending _ _ \<Rightarrow> max (ri_now ri) (ri_clock2 ri) < rt_cleanup_deadline ctx
     | RP_Retired \<Rightarrow> True
     | RP_TimedOut c \<Rightarrow> context_le c ctx)"

definition is_timed_out :: "retirement_poll \<Rightarrow> bool" where
  "is_timed_out r = (case r of RP_TimedOut _ \<Rightarrow> True | _ \<Rightarrow> False)"

lemma retirement_poll_effect:
  assumes "cursor_ok b"
  shows "\<exists>r b' m'. retirement_batch_poll ri (b, m) = Some (r, b', m') \<and> cursor_ok b' \<and> context_le (rb_context b') (rb_context b)
    \<and> retirement_exact (rb_context b) ri r \<and> (rb_timed_out b \<longrightarrow> is_timed_out r) \<and> rb_timed_out b' = is_timed_out r
    \<and> bm_cleanup_timeouts m' + of_bool (rb_timed_out b) = bm_cleanup_timeouts m + of_bool (rb_timed_out b')"
proof -
  obtain first u b1 where s1: "retirement_scan (ri_scan1 ri) b = ((first, u), b1)" by (metis prod_cases3 surj_pair)
  obtain r2 b2 m2 where p1: "observe_progress first u (ri_now ri) (ri_clock1 ri) (b1, m) = (r2, b2, m2)" by (metis prod_cases3)
  note e1 = scan_effect [OF s1] and e2 = progress_effect [OF p1]
  show ?thesis
  proof (cases r2)
    case (RP_Pending i k)
    with e1 e2 have cur: "rb_prefix_cursor b2 < rb_witnesses b2" "0 < rb_witnesses b2" and nt: "\<not> rb_timed_out b2" "\<not> rb_timed_out b"
      using assms by (auto simp: cursor_ok_def)
    define b3 where "b3 = b2\<lparr>rb_prefix_cursor := (rb_prefix_cursor b2 + 1) mod rb_witnesses b2\<rparr>"
    define t2 where "t2 = run_acts (ri_acts ri) (snd (CleanupGuard_enter (rb_context b3) (ri_slots ri)))"
    define b4 where "b4 = b3\<lparr>rb_context := tighten_by (current_cleanup_context t2) (rb_context b3)\<rparr>"
    define m3 where "m3 = m2\<lparr>bm_prefix_steps := bm_prefix_steps m2 @ [rb_context b3]\<rparr>"
    obtain first' u' b5 where s2: "retirement_scan (ri_scan2 ri) b4 = ((first', u'), b5)" by (metis prod_cases3 surj_pair)
    obtain r b' m' where p2: "observe_progress first' u' (ri_now ri) (ri_clock2 ri) (b5, m3) = (r, b', m')" by (metis prod_cases3)
    have res: "retirement_batch_poll ri (b, m) = Some (r, b', m')"
      using cur s1 p1 RP_Pending s2 p2
      by (auto simp: retirement_batch_poll_def Let_def b3_def t2_def b4_def m3_def split: prod.splits)
    note e3 = scan_effect [OF s2] and e4 = progress_effect [OF p2]
    have b4: "rb_witnesses b4 = rb_witnesses b" "rb_prefix_cursor b4 < rb_witnesses b" "rb_timed_out b4 = rb_timed_out b2"
      using e1 e2 cur by (auto simp: b4_def b3_def)
    have "context_le (rb_context b4) (rb_context b2)" by (simp add: b4_def b3_def tighten_by_le)
    with e1 e2 have "context_le (rb_context b4) (rb_context b)" using context_le_trans by metis
    with e3 have ctx: "context_le (rb_context b5) (rb_context b)" using context_le_trans by blast
    show ?thesis
      using res e1 e2 e3 e4 b4 ctx nt cur RP_Pending
      by (cases r) (auto simp: cursor_ok_def retirement_exact_def is_timed_out_def context_le_def m3_def)
  next
    case RP_Retired
    with s1 p1 have "retirement_batch_poll ri (b, m) = Some (r2, b2, m2)" by (simp add: retirement_batch_poll_def)
    with e1 e2 assms RP_Retired show ?thesis
      by (auto simp: cursor_ok_def retirement_exact_def is_timed_out_def observe_progress_def split: if_splits)
  next
    case (RP_TimedOut c)
    with s1 p1 have "retirement_batch_poll ri (b, m) = Some (r2, b2, m2)" by (simp add: retirement_batch_poll_def)
    with e1 e2 assms RP_TimedOut show ?thesis by (auto simp: cursor_ok_def retirement_exact_def is_timed_out_def)
  qed
qed

lemma retirement_exact_mono: "context_le c' c \<Longrightarrow> retirement_exact c' ri r \<Longrightarrow> retirement_exact c ri r"
  by (auto simp: retirement_exact_def context_le_def split: retirement_poll.splits)

lemma retirement_polls_effect:
  assumes "cursor_ok b"
  shows "\<exists>rs b' m'. retirement_batch_polls ris (b, m) = Some (rs, b', m') \<and> context_le (rb_context b') (rb_context b)
    \<and> list_all2 (retirement_exact (rb_context b)) ris rs
    \<and> (if rb_timed_out b then list_all is_timed_out rs else list_all is_timed_out (dropWhile (\<lambda>r. \<not> is_timed_out r) rs))
    \<and> bm_cleanup_timeouts m' + of_bool (rb_timed_out b) = bm_cleanup_timeouts m + of_bool (rb_timed_out b')"
  using assms
proof (induction ris arbitrary: b m)
  case Nil
  show ?case by (simp add: context_le_refl)
next
  case (Cons ri ris)
  obtain r b1 m1 where p: "retirement_batch_poll ri (b, m) = Some (r, b1, m1)" "cursor_ok b1" "context_le (rb_context b1) (rb_context b)"
    "retirement_exact (rb_context b) ri r" "rb_timed_out b \<longrightarrow> is_timed_out r" "rb_timed_out b1 = is_timed_out r"
    "bm_cleanup_timeouts m1 + of_bool (rb_timed_out b) = bm_cleanup_timeouts m + of_bool (rb_timed_out b1)"
    using retirement_poll_effect [OF Cons.prems] by blast
  obtain rs b' m' where q: "retirement_batch_polls ris (b1, m1) = Some (rs, b', m')" "context_le (rb_context b') (rb_context b1)"
    "list_all2 (retirement_exact (rb_context b1)) ris rs"
    "if rb_timed_out b1 then list_all is_timed_out rs else list_all is_timed_out (dropWhile (\<lambda>r. \<not> is_timed_out r) rs)"
    "bm_cleanup_timeouts m' + of_bool (rb_timed_out b1) = bm_cleanup_timeouts m1 + of_bool (rb_timed_out b')"
    using Cons.IH [OF p(2)] by blast
  have "list_all2 (retirement_exact (rb_context b)) ris rs"
    using q(3) by (rule list_all2_mono) (rule retirement_exact_mono [OF p(3)])
  with p q context_le_trans [OF q(2) p(3)] show ?case by (auto split: if_splits)
qed

text \<open>A task that has seen the cancellation: it has ended, or it carries the context.\<close>

definition cancel_recorded :: "('run, 'env) task_state \<Rightarrow> bool" where
  "cancel_recorded s = (is_terminal s \<or> ts_result s \<noteq> None \<or> ts_cancellation s \<noteq> None)"

section \<open>Properties\<close>


text \<open>C40: The retirement wait never panics and always settles. For any number of witnesses, none
  included, and whatever the scans read, no poll indexes out of range or divides by zero; a poll is
  pending only before the deadline of its context; a timeout is final and counted once; the context keeps
  its cause and its deadline only becomes earlier.\<close>

theorem retirement_batch_settles:
  "\<exists>rs b m'. retirement_batch_polls ris (retirement_from_reserved n ctx, m) = Some (rs, b, m')
     \<and> list_all2 (retirement_exact ctx) ris rs
     \<and> list_all is_timed_out (dropWhile (\<lambda>r. \<not> is_timed_out r) rs)
     \<and> bm_cleanup_timeouts m' = bm_cleanup_timeouts m + of_bool (rb_timed_out b)
     \<and> rt_reason (rb_context b) = rt_reason ctx \<and> rt_cleanup_deadline (rb_context b) \<le> rt_cleanup_deadline ctx"
proof -
  have "cursor_ok (retirement_from_reserved n ctx)" by (simp add: cursor_ok_def retirement_from_reserved_def)
  moreover have "\<not> rb_timed_out (retirement_from_reserved n ctx)" "rb_context (retirement_from_reserved n ctx) = ctx"
    by (simp_all add: retirement_from_reserved_def)
  ultimately show ?thesis
    using retirement_polls_effect [of "retirement_from_reserved n ctx" ris m] unfolding context_le_def by fastforce
qed

end
