(* ===== verification/Package_Version.thy ===== *)
theory Package_Version
  imports Diagnostics Values
begin

text \<open>
  Versions, version requirements and package names (\<open>src/src/package.rs\<close>). A version is written
  \<open>major.minor.patch\<close> with decimal parts below \<open>2^64\<close> and no leading zeros; a requirement is a version or a
  caret range. The text of a version and the version determine each other, and a caret range is a half-open
  interval of the order of versions.
\<close>

section \<open>Text\<close>

text \<open>\<open>str::split\<close> on a character: one piece more than there are separators.\<close>

fun split_char :: "uchar \<Rightarrow> ustring \<Rightarrow> ustring list" where
  "split_char d [] = [[]]"
| "split_char d (c # cs) =
     (if c = d then [] # split_char d cs
      else case split_char d cs of [] \<Rightarrow> [[c]] | p # ps \<Rightarrow> (c # p) # ps)"

lemma split_char_ne [simp]: "split_char d s \<noteq> []"
  by (cases s) (auto split: list.splits)

lemma split_char_none: "d \<notin> set s \<Longrightarrow> split_char d s = [s]"
  by (induction s) simp_all

lemma split_char_append: "d \<notin> set a \<Longrightarrow> split_char d (a @ d # b) = a # split_char d b"
  by (induction a) simp_all

lemma join_split_char: "join_with [d] (split_char d s) = s"
proof (induction s)
  case (Cons c s)
  have "split_char d s \<noteq> []" by simp
  then obtain p ps where s: "split_char d s = p # ps" by (cases "split_char d s") auto
  with Cons show ?case by (cases ps) auto
qed simp

lemma split_char_pieces: "p \<in> set (split_char d s) \<Longrightarrow> d \<notin> set p"
proof (induction s arbitrary: p)
  case (Cons c s)
  then show ?case by (auto split: if_splits list.splits)
qed simp

section \<open>Versions\<close>

datatype package_version = PackageVersion (pv_major: i64) (pv_minor: i64) (pv_patch: i64)

text \<open>The derived order: by major, then minor, then patch, as unsigned numbers.\<close>

instantiation package_version :: linorder
begin

definition less_package_version :: "package_version \<Rightarrow> package_version \<Rightarrow> bool" where
  "less_package_version v w \<longleftrightarrow> pv_major v < pv_major w \<or> pv_major v = pv_major w \<and>
     (pv_minor v < pv_minor w \<or> pv_minor v = pv_minor w \<and> pv_patch v < pv_patch w)"

definition less_eq_package_version :: "package_version \<Rightarrow> package_version \<Rightarrow> bool" where
  "less_eq_package_version v w \<longleftrightarrow> v = w \<or> v < w"

instance
proof
  fix x y z :: package_version
  note defs = less_eq_package_version_def less_package_version_def
  show "x < y \<longleftrightarrow> x \<le> y \<and> \<not> y \<le> x" "x \<le> x" by (auto simp: defs)
  show "x \<le> y \<Longrightarrow> y \<le> z \<Longrightarrow> x \<le> z" "x \<le> y \<Longrightarrow> y \<le> x \<Longrightarrow> x = y" by (auto simp: defs)
  show "x \<le> y \<or> y \<le> x" by (cases x; cases y) (auto simp: defs)
qed

end

datatype version_requirement = Exact package_version | Caret package_version

definition invalid_version_error :: "span \<Rightarrow> ku_error" where
  "invalid_version_error sp = package_error (lit ''invalid_version'')
     (lit ''package version must use major.minor.patch digits within u64 range'') sp"

definition invalid_version_requirement_error :: "span \<Rightarrow> ku_error" where
  "invalid_version_requirement_error sp = package_error (lit ''invalid_version_requirement'')
     (lit ''dependency version must be an exact major.minor.patch version or a ^major.minor.patch range'') sp"

definition version_part_bad :: "ustring \<Rightarrow> bool" where
  "version_part_bad part \<longleftrightarrow> part = [] \<or> (1 < str_len part \<and> hd part = ch CHR ''0'') \<or> \<not> list_all is_ascii_digit part"

text \<open>\<open>str::parse::<u64>\<close> on a run of digits.\<close>

definition parse_u64 :: "ustring \<Rightarrow> i64 option" where
  "parse_u64 part = (if digits_value part < 2 ^ 64 then Some (of_nat (digits_value part)) else None)"

definition parse_version_part :: "span \<Rightarrow> ustring \<Rightarrow> ku_error + i64" where
  "parse_version_part sp part = (case parse_u64 part of None \<Rightarrow> Inl (invalid_version_error sp) | Some n \<Rightarrow> Inr n)"

definition parse_package_version :: "ustring \<Rightarrow> span \<Rightarrow> ku_error + package_version" where
  "parse_package_version version sp = (case split_char (ch CHR ''.'') version of
       [major, minor, patch] \<Rightarrow>
         if list_ex version_part_bad [major, minor, patch] then Inl (invalid_version_error sp)
         else (case parse_version_part sp major of Inl e \<Rightarrow> Inl e | Inr a \<Rightarrow>
              (case parse_version_part sp minor of Inl e \<Rightarrow> Inl e | Inr b \<Rightarrow>
              (case parse_version_part sp patch of Inl e \<Rightarrow> Inl e | Inr c \<Rightarrow> Inr (PackageVersion a b c))))
     | _ \<Rightarrow> Inl (invalid_version_error sp))"

definition parse_version_requirement :: "ustring \<Rightarrow> span \<Rightarrow> ku_error + version_requirement" where
  "parse_version_requirement requirement sp =
     (if requirement \<noteq> [] \<and> hd requirement = ch CHR ''^'' then
        (let version = tl requirement in
         if version \<noteq> [] \<and> hd version = ch CHR ''^'' then Inl (invalid_version_requirement_error sp)
         else map_sum (\<lambda>_. invalid_version_requirement_error sp) Caret (parse_package_version version sp))
      else map_sum (\<lambda>_. invalid_version_requirement_error sp) Exact (parse_package_version requirement sp))"

definition version_requirement_matches :: "version_requirement \<Rightarrow> package_version \<Rightarrow> bool" where
  "version_requirement_matches r v = (case r of
       Exact expected \<Rightarrow> v = expected
     | Caret minimum \<Rightarrow>
         if 0 < pv_major minimum then minimum \<le> v \<and> pv_major v = pv_major minimum
         else if 0 < pv_minor minimum then minimum \<le> v \<and> pv_major v = 0 \<and> pv_minor v = pv_minor minimum
         else minimum \<le> v \<and> pv_major v = 0 \<and> pv_minor v = 0 \<and> pv_patch v = pv_patch minimum)"

definition validate_version :: "ustring \<Rightarrow> span \<Rightarrow> ku_error + unit" where
  "validate_version version sp = map_sum id (\<lambda>_. ()) (parse_package_version version sp)"

definition validate_version_requirement :: "ustring \<Rightarrow> span \<Rightarrow> ku_error + unit" where
  "validate_version_requirement version sp = map_sum id (\<lambda>_. ()) (parse_version_requirement version sp)"

section \<open>Names\<close>

definition is_ascii_lowercase :: "uchar \<Rightarrow> bool" where
  "is_ascii_lowercase c \<longleftrightarrow> ch CHR ''a'' \<le> c \<and> c \<le> ch CHR ''z''"

definition to_ascii_uppercase :: "ustring \<Rightarrow> ustring" where
  "to_ascii_uppercase s = map (\<lambda>c. if is_ascii_lowercase c then c - 32 else c) s"

definition trim_end_spaces_dots :: "ustring \<Rightarrow> ustring" where
  "trim_end_spaces_dots s = rev (dropWhile (\<lambda>c. c = ch CHR '' '' \<or> c = ch CHR ''.'') (rev s))"

definition windows_path_component_has_reserved_device_basename :: "ustring \<Rightarrow> bool" where
  "windows_path_component_has_reserved_device_basename v =
     (let upper = to_ascii_uppercase (hd (split_char (ch CHR ''.'') (trim_end_spaces_dots v))) in
      upper \<in> set (map lit [''CON'', ''PRN'', ''AUX'', ''NUL''])
      \<or> str_len upper = 4 \<and> (take 3 upper = lit ''COM'' \<or> take 3 upper = lit ''LPT'')
        \<and> ch CHR ''1'' \<le> upper ! 3 \<and> upper ! 3 \<le> ch CHR ''9'')"

definition name_error :: "string \<Rightarrow> span \<Rightarrow> ku_error" where
  "name_error m sp = package_error (lit ''invalid_name'') (lit m) sp"

definition label_char :: "uchar \<Rightarrow> bool" where
  "label_char c \<longleftrightarrow> is_ascii_lowercase c \<or> is_ascii_digit c \<or> c = ch CHR ''_'' \<or> c = ch CHR ''-''"

definition validate_package_name :: "ustring \<Rightarrow> span \<Rightarrow> ku_error + unit" where
  "validate_package_name name sp =
     (if 64 < str_len name then Inl (name_error ''package name must be at most 64 bytes'' sp)
      else if windows_path_component_has_reserved_device_basename name
      then Inl (name_error ''package name cannot use a Windows reserved device basename'' sp)
      else case name of
        [] \<Rightarrow> Inl (name_error ''package name cannot be empty'' sp)
      | first # rest \<Rightarrow>
          if \<not> is_ascii_lowercase first
          then Inl (name_error ''package name must start with a lowercase ascii letter'' sp)
          else if \<not> list_all label_char rest
          then Inl (package_error (lit ''invalid_name'') (lit ''package name may only contain lowercase letters, digits, '' @
             [ch CHR 0x27] @ lit ''_'' @ [ch CHR 0x27] @ lit '' and '' @ [ch CHR 0x27] @ lit ''-'' @ [ch CHR 0x27]) sp)
          else Inr ())"

definition validate_manifest_label :: "ustring \<Rightarrow> ustring \<Rightarrow> span \<Rightarrow> ku_error + unit" where
  "validate_manifest_label kind v sp =
     (if v = [] then Inl (package_error (lit ''invalid_manifest_label'') (lit ''ku.mod '' @ kind @ lit '' cannot be empty'') sp)
      else if \<not> list_all label_char v
      then Inl (package_error (lit ''invalid_manifest_label'') (lit ''ku.mod '' @ kind @ lit '' may only contain lowercase letters, digits, '' @
             [ch CHR 0x27] @ lit ''_'' @ [ch CHR 0x27] @ lit '' and '' @ [ch CHR 0x27] @ lit ''-'' @ [ch CHR 0x27]) sp)
      else Inr ())"

section \<open>The text of a version\<close>

definition version_text :: "package_version \<Rightarrow> ustring" where
  "version_text v = nat_to_string (unat (pv_major v)) @ ch CHR ''.'' # nat_to_string (unat (pv_minor v)) @ ch CHR ''.'' #
     nat_to_string (unat (pv_patch v))"

lemma str_len_digits: "list_all is_ascii_digit s \<Longrightarrow> str_len s = length s"
  by (induction s) (auto simp: str_len_def len_utf8_def is_ascii_digit_def ch_def)

lemma nat_to_string_length: "1 < length (nat_to_string n) \<Longrightarrow> n \<noteq> 0"
  by (cases "n = 0") (auto simp: nat_to_string_zero)

lemma version_part_canonical: "\<not> version_part_bad (nat_to_string n)"
  using nat_to_string_digits [of n] nat_to_string_neq_Nil [of n] nat_to_string_hd [of n] nat_to_string_length [of n]
  by (auto simp: version_part_bad_def str_len_digits)

lemma digits_value_pos:
  "list_all is_ascii_digit s \<Longrightarrow> s \<noteq> [] \<Longrightarrow> hd s \<noteq> ch CHR ''0'' \<Longrightarrow> 0 < digits_value s"
proof (induction s rule: rev_induct)
  case (snoc c s)
  then show ?case
    by (cases "s = []") (auto simp: digits_value_append digit_value_def is_ascii_digit_def digits_value_def)
qed simp

text \<open>A run of digits without leading zeros is what its value prints as.\<close>

lemma nat_to_string_digits_value:
  "list_all is_ascii_digit s \<Longrightarrow> s \<noteq> [] \<Longrightarrow> length s = 1 \<or> hd s \<noteq> ch CHR ''0'' \<Longrightarrow> nat_to_string (digits_value s) = s"
proof (induction s rule: rev_induct)
  case (snoc c s)
  obtain d where c: "c = 48 + d" "d < 10"
    using snoc.prems le_Suc_ex [of 48 c] by (fastforce simp: is_ascii_digit_iff)
  show ?case
  proof (cases "s = []")
    case True
    then show ?thesis using c by (subst nat_to_string.simps) (simp add: digits_value_def digit_value_def ch_def)
  next
    case False
    then have hd: "hd s \<noteq> ch CHR ''0''" and "list_all is_ascii_digit s" using snoc.prems by auto
    then have "0 < digits_value s" "nat_to_string (digits_value s) = s"
      using digits_value_pos snoc.IH False by auto
    then show ?thesis using c
      by (subst nat_to_string.simps) (simp add: digits_value_append digit_value_def ch_def)
  qed
qed simp

lemma version_part_text:
  "\<not> version_part_bad part \<Longrightarrow> nat_to_string (digits_value part) = part"
  by (rule nat_to_string_digits_value) (auto simp: version_part_bad_def str_len_digits not_less le_Suc_eq)

lemma parse_u64_text: "parse_u64 (nat_to_string (unat w)) = Some w"
  using unsigned_less [of w] by (simp add: parse_u64_def)

lemma parse_u64_unat: "parse_u64 part = Some w \<Longrightarrow> unat w = digits_value part"
  by (auto simp: parse_u64_def unat_of_nat take_bit_nat_eq_self split: if_splits)

lemma no_dot: "list_all is_ascii_digit s \<Longrightarrow> ch CHR ''.'' \<notin> set s"
  by (auto simp: list_all_iff is_ascii_digit_iff ch_def)

lemma split_version_text:
  "split_char (ch CHR ''.'') (version_text v) =
     [nat_to_string (unat (pv_major v)), nat_to_string (unat (pv_minor v)), nat_to_string (unat (pv_patch v))]"
  using no_dot [OF nat_to_string_digits]
  by (simp add: version_text_def split_char_append split_char_none)

lemma parse_version_text: "parse_package_version (version_text v) sp = Inr v"
  by (simp add: parse_package_version_def split_version_text version_part_canonical parse_version_part_def parse_u64_text)

lemma parse_version_result:
  "case parse_package_version s sp of Inr v \<Rightarrow> s = version_text v | Inl e \<Rightarrow> e = invalid_version_error sp"
proof (cases "\<exists>a b c. split_char (ch CHR ''.'') s = [a, b, c] \<and> \<not> list_ex version_part_bad [a, b, c]")
  case True
  then obtain a b c where split: "split_char (ch CHR ''.'') s = [a, b, c]"
    and ok: "\<not> version_part_bad a" "\<not> version_part_bad b" "\<not> version_part_bad c" by auto
  have "s = a @ ch CHR ''.'' # b @ ch CHR ''.'' # c" using join_split_char [of "ch CHR ''.''" s] by (simp add: split)
  with split ok show ?thesis
    by (auto simp: parse_package_version_def parse_version_part_def version_text_def version_part_text
        dest!: parse_u64_unat split: option.splits)
next
  case False
  then show ?thesis by (auto simp: parse_package_version_def split: list.splits)
qed

section \<open>Caret ranges\<close>

text \<open>The first version that a caret range no longer holds, with unbounded parts.\<close>

definition caret_bound :: "package_version \<Rightarrow> nat \<times> nat \<times> nat" where
  "caret_bound m =
     (if 0 < pv_major m then (unat (pv_major m) + 1, 0, 0)
      else if 0 < pv_minor m then (0, unat (pv_minor m) + 1, 0)
      else (0, 0, unat (pv_patch m) + 1))"

definition below :: "package_version \<Rightarrow> nat \<times> nat \<times> nat \<Rightarrow> bool" where
  "below v = (\<lambda>(a, b, c). unat (pv_major v) < a \<or> unat (pv_major v) = a \<and>
     (unat (pv_minor v) < b \<or> unat (pv_minor v) = b \<and> unat (pv_patch v) < c))"

lemma below_bounds:
  "below v (unat a + 1, 0, 0) \<longleftrightarrow> pv_major v \<le> a"
  "below v (0, unat a + 1, 0) \<longleftrightarrow> pv_major v = 0 \<and> pv_minor v \<le> a"
  "below v (0, 0, unat a + 1) \<longleftrightarrow> pv_major v = 0 \<and> pv_minor v = 0 \<and> pv_patch v \<le> a"
  by (auto simp: below_def word_le_nat_alt unat_eq_zero less_Suc_eq_le)

lemma caret_interval: "version_requirement_matches (Caret m) w \<longleftrightarrow> m \<le> w \<and> below w (caret_bound m)"
proof -
  obtain a b c where m: "m = PackageVersion a b c" by (cases m)
  obtain x y z where w: "w = PackageVersion x y z" by (cases w)
  have zero: "\<not> 0 < p \<longleftrightarrow> p = 0" for p :: i64 by (simp add: word_neq_0_conv [symmetric])
  consider "0 < a" | "a = 0" "0 < b" | "a = 0" "b = 0" using zero by blast
  then show ?thesis
    by cases (auto simp: m w version_requirement_matches_def caret_bound_def below_bounds [simplified]
        less_eq_package_version_def less_package_version_def)
qed

section \<open>Properties\<close>

text \<open>C27: Versions and their texts determine each other, and requirements mean what they say. Every version
  parses back from its text; a text that parses is the text of the result, so it has no leading zeros, no
  sign, no spaces and no part beyond 64 bits; every other text is the version error. A caret requirement
  admits exactly the versions from its minimum on below the next breaking one.\<close>

theorem versions_exact:
  "parse_package_version (version_text v) sp = Inr v
   \<and> (case parse_package_version s sp of Inr w \<Rightarrow> s = version_text w | Inl e \<Rightarrow> e = invalid_version_error sp)
   \<and> parse_version_requirement (version_text v) sp = Inr (Exact v)
   \<and> parse_version_requirement (ch CHR ''^'' # version_text v) sp = Inr (Caret v)
   \<and> (version_requirement_matches (Exact m) w \<longleftrightarrow> w = m)
   \<and> (version_requirement_matches (Caret m) w \<longleftrightarrow> m \<le> w \<and> below w (caret_bound m))"
proof -
  have hd: "is_ascii_digit (hd (version_text v))" "version_text v \<noteq> []" for v
    using nat_to_string_digits [of "unat (pv_major v)"] by (cases "nat_to_string (unat (pv_major v))"; simp add: version_text_def)+
  have "hd (version_text v) \<noteq> ch CHR ''^''" for v using hd [of v] by (auto simp: is_ascii_digit_iff ch_def)
  then show ?thesis
    using hd parse_version_text parse_version_result [of sp s] caret_interval [of m w]
    by (simp add: parse_version_requirement_def version_requirement_matches_def [of "Exact m"])
qed

end
