(* ===== verification/Package_Solver.thy ===== *)
theory Package_Solver
  imports Package_Version Json
begin

text \<open>
  The resolver of registry dependencies (\<open>src/src/package.rs\<close>, \<open>RegistryGraphSolver\<close>): a backtracking
  search for one version of every package that the roots reach, such that all exact and caret
  requirements of reached packages hold; local file packages override the registry. The requirements in
  force depend on the versions chosen so far and are collected anew in each step.

  Maps are association lists with distinct keys; the code reads them by key or sorts the keys first. Fetching a signed index is network code: it is a parameter, a function of the package name, since the solver
  asks for each name at most once and keeps the answer. The clock is a parameter that says in which
  steps the deadline has passed.
\<close>

section \<open>Data\<close>

record package_dependency =
  pd_name :: ustring
  pd_version :: ustring
  pd_source :: "ustring option"
  pd_checksum :: "ustring option"

record registry_manifest =
  rm_name :: ustring
  rm_version :: ustring
  rm_source :: ustring
  rm_checksum :: ustring
  rm_dependencies :: "package_dependency list"

record registry_index =
  ri_name :: ustring
  ri_versions :: "registry_manifest list"

record file_override =
  fo_version :: ustring
  fo_dependencies :: "package_dependency list"

record index_usage =
  iu_source_bytes :: nat
  iu_versions :: nat
  iu_parsed_items :: nat

record cached_index =
  ci_index :: registry_index
  ci_usage :: index_usage

type_synonym assignment = "(ustring \<times> registry_manifest) list"
type_synonym constraints = "(ustring \<times> ustring list) list"

record solver_env =
  se_fetch :: "ustring \<Rightarrow> ku_error + cached_index"
  se_overrides :: "(ustring \<times> file_override) list"
  se_expired :: "nat \<Rightarrow> bool"

record solver =
  so_indexes :: "(ustring \<times> cached_index) list"
  so_budget :: index_usage
  so_steps :: nat
  so_assignments :: assignment

definition MAX_REGISTRY_DEPENDENCIES :: nat where "MAX_REGISTRY_DEPENDENCIES = 256"
definition MAX_REGISTRY_SOLVER_STEPS :: nat where "MAX_REGISTRY_SOLVER_STEPS = 20000"
definition MAX_REGISTRY_GRAPH_INDEX_BYTES :: nat where "MAX_REGISTRY_GRAPH_INDEX_BYTES = 16000000"
definition MAX_REGISTRY_GRAPH_INDEX_VERSIONS :: nat where "MAX_REGISTRY_GRAPH_INDEX_VERSIONS = 16384"
definition MAX_REGISTRY_GRAPH_INDEX_ITEMS :: nat where "MAX_REGISTRY_GRAPH_INDEX_ITEMS = 65536"

definition hm_remove :: "ustring \<Rightarrow> (ustring \<times> 'v) list \<Rightarrow> (ustring \<times> 'v) list" where
  "hm_remove k fs = filter (\<lambda>(k', _). k' \<noteq> k) fs"

section \<open>The index budget\<close>

definition registry_index_graph_limit_error :: "ustring \<Rightarrow> ku_error" where
  "registry_index_graph_limit_error m = package_error (lit ''registry_index_graph_limit'') m Span_default"

definition usage_limit_message :: "nat \<Rightarrow> nat \<Rightarrow> nat \<Rightarrow> ustring" where
  "usage_limit_message bytes versions items =
     lit ''signed registry dependency graph exceeds index limits: '' @ nat_to_string bytes @ lit ''/'' @
     nat_to_string MAX_REGISTRY_GRAPH_INDEX_BYTES @ lit '' bytes, '' @ nat_to_string versions @ lit ''/'' @
     nat_to_string MAX_REGISTRY_GRAPH_INDEX_VERSIONS @ lit '' versions, '' @ nat_to_string items @ lit ''/'' @
     nat_to_string MAX_REGISTRY_GRAPH_INDEX_ITEMS @ lit '' parsed items''"

definition index_budget_record :: "index_usage \<Rightarrow> index_usage \<Rightarrow> ku_error + index_usage" where
  "index_budget_record budget usage =
     (let bytes = iu_source_bytes budget + iu_source_bytes usage;
          versions = iu_versions budget + iu_versions usage;
          items = iu_parsed_items budget + iu_parsed_items usage in
      if usize_MAX < bytes then Inl (registry_index_graph_limit_error (lit ''signed registry index byte count overflowed''))
      else if usize_MAX < versions then Inl (registry_index_graph_limit_error (lit ''signed registry index version count overflowed''))
      else if usize_MAX < items then Inl (registry_index_graph_limit_error (lit ''signed registry index item count overflowed''))
      else if MAX_REGISTRY_GRAPH_INDEX_BYTES < bytes \<or> MAX_REGISTRY_GRAPH_INDEX_VERSIONS < versions
          \<or> MAX_REGISTRY_GRAPH_INDEX_ITEMS < items
      then Inl (registry_index_graph_limit_error (usage_limit_message bytes versions items))
      else Inr \<lparr>iu_source_bytes = bytes, iu_versions = versions, iu_parsed_items = items\<rparr>)"

section \<open>Requirements in force\<close>

definition invalid_registry_dependency_error :: "ustring \<Rightarrow> ku_error" where
  "invalid_registry_dependency_error name = package_error (lit ''invalid_registry_dependency'')
     (lit ''published dependency '' @ [ch CHR 0x27] @ name @ [ch CHR 0x27] @
      lit '' must use dep.name = '' @ [ch CHR 0x22] @ lit ''version'' @ [ch CHR 0x22] @ lit '' without source or checksum'') Span_default"

definition add_registry_constraint ::
    "package_dependency \<Rightarrow> constraints \<times> ustring list \<Rightarrow> ku_error + (constraints \<times> ustring list)" where
  "add_registry_constraint dep = (\<lambda>(cs, queue).
     if pd_source dep \<noteq> None \<or> pd_checksum dep \<noteq> None then Inl (invalid_registry_dependency_error (pd_name dep))
     else case validate_package_name (pd_name dep) Span_default of
       Inl e \<Rightarrow> Inl e
     | Inr _ \<Rightarrow> (case validate_version_requirement (pd_version dep) Span_default of
         Inl e \<Rightarrow> Inl e
       | Inr _ \<Rightarrow>
           let reqs = (case map_of cs (pd_name dep) of None \<Rightarrow> [] | Some rs \<Rightarrow> rs);
               reqs' = (if pd_version dep \<in> set reqs then reqs else sort (reqs @ [pd_version dep]))
           in Inr (hm_insert (pd_name dep) reqs' cs, pd_name dep # queue)))"

fun add_constraints ::
    "package_dependency list \<Rightarrow> constraints \<times> ustring list \<Rightarrow> ku_error + (constraints \<times> ustring list)" where
  "add_constraints [] st = Inr st"
| "add_constraints (d # ds) st = (case add_registry_constraint d st of Inl e \<Rightarrow> Inl e | Inr st' \<Rightarrow> add_constraints ds st')"

text \<open>The dependencies of a package: of its override, or else of the version chosen for it.\<close>

definition package_dependencies :: "(ustring \<times> file_override) list \<Rightarrow> assignment \<Rightarrow> ustring \<Rightarrow> package_dependency list" where
  "package_dependencies overrides assignments name = (case map_of overrides name of
       Some o' \<Rightarrow> fo_dependencies o'
     | None \<Rightarrow> (case map_of assignments name of Some m \<Rightarrow> rm_dependencies m | None \<Rightarrow> []))"

definition dependency_limit_error :: ku_error where
  "dependency_limit_error = package_error (lit ''dependency_limit'')
     (lit ''registry dependency graph exceeds '' @ nat_to_string MAX_REGISTRY_DEPENDENCIES @ lit '' packages'') Span_default"

definition known_packages :: "(ustring \<times> file_override) list \<Rightarrow> assignment \<Rightarrow> ustring set" where
  "known_packages overrides assignments = fst ` set overrides \<union> fst ` set assignments"

lemma package_dependencies_unknown:
  "name \<notin> known_packages overrides assignments \<Longrightarrow> package_dependencies overrides assignments name = []"
  by (auto simp: package_dependencies_def known_packages_def dest!: map_of_SomeD split: option.splits intro: rev_image_eqI)

function expand_constraints ::
    "(ustring \<times> file_override) list \<Rightarrow> assignment \<Rightarrow> ustring set \<Rightarrow> constraints \<times> ustring list \<Rightarrow> ku_error + constraints" where
  "expand_constraints overrides assignments expanded (cs, []) = Inr cs"
| "expand_constraints overrides assignments expanded (cs, name # queue) =
     (if MAX_REGISTRY_DEPENDENCIES < length cs then Inl dependency_limit_error
      else if name \<in> expanded then expand_constraints overrides assignments expanded (cs, queue)
      else case add_constraints (package_dependencies overrides assignments name) (cs, queue) of
        Inl e \<Rightarrow> Inl e
      | Inr st \<Rightarrow> expand_constraints overrides assignments (insert name expanded) st)"
  by pat_completeness auto

termination
proof (relation "measures [\<lambda>(overrides, assignments, expanded, st). card (known_packages overrides assignments - expanded),
    \<lambda>(overrides, assignments, expanded, st). length (snd st)]", goal_cases)
  case (3 overrides assignments expanded cs name queue st)
  show ?case
  proof (cases "name \<in> known_packages overrides assignments")
    case True
    have "card (known_packages overrides assignments - insert name expanded) < card (known_packages overrides assignments - expanded)"
      by (rule psubset_card_mono) (use True 3(2) in \<open>auto simp: known_packages_def\<close>)
    then show ?thesis by simp
  next
    case False
    then have "st = (cs, queue)" using 3(3) by (simp add: package_dependencies_unknown)
    moreover have "known_packages overrides assignments - insert name expanded = known_packages overrides assignments - expanded"
      using False by blast
    ultimately show ?thesis by simp
  qed
qed auto

definition collect_active_registry_constraints ::
    "package_dependency list \<Rightarrow> assignment \<Rightarrow> (ustring \<times> file_override) list \<Rightarrow> ku_error + constraints" where
  "collect_active_registry_constraints roots assignments overrides = (case add_constraints roots ([], []) of
       Inl e \<Rightarrow> Inl e
     | Inr st \<Rightarrow> expand_constraints overrides assignments {} st)"

fun matches_requirements :: "package_version \<Rightarrow> ustring list \<Rightarrow> span \<Rightarrow> ku_error + bool" where
  "matches_requirements v [] sp = Inr True"
| "matches_requirements v (r # rs) sp = (case parse_version_requirement r sp of
       Inl e \<Rightarrow> Inl e
     | Inr req \<Rightarrow> if version_requirement_matches req v then matches_requirements v rs sp else Inr False)"

definition registry_version_satisfies_all :: "ustring \<Rightarrow> ustring list \<Rightarrow> span \<Rightarrow> ku_error + bool" where
  "registry_version_satisfies_all version reqs sp = (case parse_package_version version sp of
       Inl e \<Rightarrow> Inl e
     | Inr v \<Rightarrow> matches_requirements v reqs sp)"

section \<open>The search\<close>

definition registry_resolve_timeout_error :: "span \<Rightarrow> ku_error" where
  "registry_resolve_timeout_error sp = package_error (lit ''registry_resolve_timeout'')
     (lit ''registry operation exceeded its 300 second deadline'') sp"

definition resolver_limit_error :: ku_error where
  "resolver_limit_error = package_error (lit ''resolver_limit'')
     (lit ''registry dependency solver exceeded '' @ nat_to_string MAX_REGISTRY_SOLVER_STEPS @ lit '' bounded steps'') Span_default"

definition dependency_conflict_error :: ku_error where
  "dependency_conflict_error = package_error (lit ''dependency_conflict'')
     (lit ''registry dependency graph has no version set satisfying all exact and caret requirements'') Span_default"

type_synonym 'a solving = "(solver, ku_error, 'a) sm"

definition lift :: "ku_error + 'a \<Rightarrow> 'a solving" where
  "lift r = (case r of Inl e \<Rightarrow> sraise e | Inr x \<Rightarrow> sreturn x)"

definition count_step :: "unit solving" where
  "count_step = sbind (smodify (\<lambda>s. s\<lparr>so_steps := so_steps s + 1\<rparr>)) (\<lambda>_.
     sbind (sget so_steps) (\<lambda>n. if MAX_REGISTRY_SOLVER_STEPS < n then sraise resolver_limit_error else sreturn ()))"

definition ensure_deadline :: "solver_env \<Rightarrow> unit solving" where
  "ensure_deadline env = sbind (sget so_steps) (\<lambda>n.
     if se_expired env n then sraise (registry_resolve_timeout_error Span_default) else sreturn ())"

text \<open>The first loop of a step: does every override and every chosen version meet the requirements?\<close>

fun check_assigned :: "solver_env \<Rightarrow> assignment \<Rightarrow> constraints \<Rightarrow> ustring list \<Rightarrow> ku_error + bool" where
  "check_assigned env assignments cs [] = Inr True"
| "check_assigned env assignments cs (name # names) =
     (case (case map_of (se_overrides env) name of
         Some o' \<Rightarrow> registry_version_satisfies_all (fo_version o') (the (map_of cs name)) Span_default
       | None \<Rightarrow> (case map_of assignments name of
           Some m \<Rightarrow> registry_version_satisfies_all (rm_version m) (the (map_of cs name)) Span_default
         | None \<Rightarrow> Inr True)) of
       Inl e \<Rightarrow> Inl e
     | Inr False \<Rightarrow> Inr False
     | Inr True \<Rightarrow> check_assigned env assignments cs names)"

definition take_registry_index :: "solver_env \<Rightarrow> ustring \<Rightarrow> cached_index solving" where
  "take_registry_index env name = sbind (sget so_indexes) (\<lambda>indexes.
     case map_of indexes name of
       Some cached \<Rightarrow> sbind (smodify (\<lambda>s. s\<lparr>so_indexes := hm_remove name indexes\<rparr>)) (\<lambda>_. sreturn cached)
     | None \<Rightarrow> sbind (lift (se_fetch env name)) (\<lambda>cached.
         if ri_name (ci_index cached) \<noteq> name then
           sraise (package_error (lit ''registry_name_mismatch'')
             (lit ''registry returned package '' @ [ch CHR 0x27] @ ri_name (ci_index cached) @ [ch CHR 0x27] @
              lit '' for requested dependency '' @ [ch CHR 0x27] @ name @ [ch CHR 0x27]) Span_default)
         else sbind (sget so_budget) (\<lambda>budget.
           sbind (lift (index_budget_record budget (ci_usage cached))) (\<lambda>budget'.
           sbind (smodify (\<lambda>s. s\<lparr>so_budget := budget'\<rparr>)) (\<lambda>_. sreturn cached)))))"

fun try_candidates :: "bool solving \<Rightarrow> ustring \<Rightarrow> ustring list \<Rightarrow> registry_manifest list \<Rightarrow> bool solving" where
  "try_candidates S name reqs [] = sreturn False"
| "try_candidates S name reqs (c # cs) =
     sbind (lift (registry_version_satisfies_all (rm_version c) reqs Span_default)) (\<lambda>ok.
     if \<not> ok then try_candidates S name reqs cs
     else sbind count_step (\<lambda>_.
       sbind (smodify (\<lambda>s. s\<lparr>so_assignments := hm_insert name c (so_assignments s)\<rparr>)) (\<lambda>_.
       sbind S (\<lambda>found.
       if found then sreturn True
       else sbind (smodify (\<lambda>s. s\<lparr>so_assignments := hm_remove name (so_assignments s)\<rparr>)) (\<lambda>_.
         try_candidates S name reqs cs)))))"

definition search_body :: "solver_env \<Rightarrow> package_dependency list \<Rightarrow> bool solving \<Rightarrow> bool solving" where
  "search_body env roots S =
     sbind (ensure_deadline env) (\<lambda>_.
     sbind count_step (\<lambda>_.
     sbind (sget so_assignments) (\<lambda>assignments.
     sbind (lift (collect_active_registry_constraints roots assignments (se_overrides env))) (\<lambda>cs.
     let names = sort (map fst cs) in
     sbind (lift (check_assigned env assignments cs names)) (\<lambda>ok.
     if \<not> ok then sreturn False
     else case find (\<lambda>name. map_of assignments name = None \<and> map_of (se_overrides env) name = None) names of
       None \<Rightarrow> sreturn True
     | Some name \<Rightarrow>
         sbind (take_registry_index env name) (\<lambda>cached.
         sbind (try_candidates S name (the (map_of cs name)) (ri_versions (ci_index cached))) (\<lambda>found.
         sbind (smodify (\<lambda>s. s\<lparr>so_indexes := hm_insert name cached (so_indexes s)\<rparr>)) (\<lambda>_.
         sreturn found))))))))"

fun search :: "nat \<Rightarrow> solver_env \<Rightarrow> package_dependency list \<Rightarrow> bool solving" where
  "search 0 env roots s = sfuel s"
| "search (Suc n) env roots s = search_body env roots (search n env roots) s"

definition solver_new :: solver where
  "solver_new = \<lparr>so_indexes = [], so_budget = \<lparr>iu_source_bytes = 0, iu_versions = 0, iu_parsed_items = 0\<rparr>,
     so_steps = 0, so_assignments = []\<rparr>"

definition SOLVER_FUEL :: nat where
  "SOLVER_FUEL = Suc MAX_REGISTRY_SOLVER_STEPS"

definition solve :: "solver_env \<Rightarrow> package_dependency list \<Rightarrow> (ku_error, assignment) result" where
  "solve env roots = (case search SOLVER_FUEL env roots solver_new of
       Inl f \<Rightarrow> Inl f
     | Inr (found, s) \<Rightarrow> if found then Inr (so_assignments s) else Inl (Raise dependency_conflict_error))"

end
