(* ===== verification/Package_Resolve.thy ===== *)
theory Package_Resolve
  imports Package_Solver
begin

text \<open>
  What the resolver decides. A solution chooses a published version for every package that the roots
  reach through the chosen versions, and meets every requirement of every reached package. The search
  returns such a choice, or it has shown that there is none, or it stops at a limit.
\<close>

section \<open>Solutions\<close>

type_synonym choice = "ustring \<Rightarrow> registry_manifest option"

definition choice_dependencies :: "(ustring \<times> file_override) list \<Rightarrow> choice \<Rightarrow> ustring \<Rightarrow> package_dependency list" where
  "choice_dependencies overrides \<sigma> name = (case map_of overrides name of
       Some o' \<Rightarrow> fo_dependencies o'
     | None \<Rightarrow> (case \<sigma> name of Some m \<Rightarrow> rm_dependencies m | None \<Rightarrow> []))"

inductive active :: "(ustring \<times> file_override) list \<Rightarrow> package_dependency list \<Rightarrow> choice \<Rightarrow> ustring \<Rightarrow> bool"
  for overrides roots \<sigma> where
  active_root: "d \<in> set roots \<Longrightarrow> active overrides roots \<sigma> (pd_name d)"
| active_step: "active overrides roots \<sigma> n \<Longrightarrow> d \<in> set (choice_dependencies overrides \<sigma> n) \<Longrightarrow>
    active overrides roots \<sigma> (pd_name d)"

definition required :: "(ustring \<times> file_override) list \<Rightarrow> package_dependency list \<Rightarrow> choice \<Rightarrow> ustring \<Rightarrow> ustring set" where
  "required overrides roots \<sigma> n = {pd_version d | d. pd_name d = n \<and>
     (d \<in> set roots \<or> (\<exists>m. active overrides roots \<sigma> m \<and> d \<in> set (choice_dependencies overrides \<sigma> m)))}"

definition satisfies :: "ustring \<Rightarrow> ustring \<Rightarrow> bool" where
  "satisfies version requirement = (case parse_package_version version Span_default of
       Inl _ \<Rightarrow> False
     | Inr v \<Rightarrow> (case parse_version_requirement requirement Span_default of
         Inl _ \<Rightarrow> False
       | Inr r \<Rightarrow> version_requirement_matches r v))"

definition offered :: "solver_env \<Rightarrow> ustring \<Rightarrow> registry_manifest set" where
  "offered env name = (case se_fetch env name of Inl _ \<Rightarrow> {} | Inr cached \<Rightarrow> set (ri_versions (ci_index cached)))"

definition settled :: "solver_env \<Rightarrow> choice \<Rightarrow> ustring set \<Rightarrow> ustring \<Rightarrow> bool" where
  "settled env \<sigma> reqs n = (case map_of (se_overrides env) n of
       Some o' \<Rightarrow> (\<forall>r \<in> reqs. satisfies (fo_version o') r)
     | None \<Rightarrow> (case \<sigma> n of None \<Rightarrow> False | Some m \<Rightarrow> m \<in> offered env n \<and> (\<forall>r \<in> reqs. satisfies (rm_version m) r)))"

definition solution :: "solver_env \<Rightarrow> package_dependency list \<Rightarrow> choice \<Rightarrow> bool" where
  "solution env roots \<sigma> \<longleftrightarrow> (\<forall>n. active (se_overrides env) roots \<sigma> n \<longrightarrow>
     settled env \<sigma> (required (se_overrides env) roots \<sigma> n) n)"

text \<open>More choices reach more packages and put more requirements in force.\<close>

lemma choice_dependencies_mono:
  "\<sigma> \<subseteq>\<^sub>m \<tau> \<Longrightarrow> set (choice_dependencies ov \<sigma> n) \<subseteq> set (choice_dependencies ov \<tau> n)"
  by (cases "\<sigma> n") (auto simp: choice_dependencies_def map_le_def dom_def split: option.splits)

lemma active_mono: "active ov roots \<sigma> n \<Longrightarrow> \<sigma> \<subseteq>\<^sub>m \<tau> \<Longrightarrow> active ov roots \<tau> n"
  by (induction rule: active.induct) (auto intro: active.intros dest: choice_dependencies_mono)

lemma required_mono: "\<sigma> \<subseteq>\<^sub>m \<tau> \<Longrightarrow> required ov roots \<sigma> n \<subseteq> required ov roots \<tau> n"
  unfolding required_def using active_mono choice_dependencies_mono by blast

section \<open>Maps\<close>

lemma map_of_hm_insert [simp]: "map_of (hm_insert k v fs) = (map_of fs)(k \<mapsto> v)"
  by (induction k v fs rule: hm_insert.induct) (auto simp: fun_eq_iff)

lemma map_of_hm_remove [simp]: "map_of (hm_remove k fs) = (map_of fs)(k := None)"
  by (induction fs) (auto simp: hm_remove_def fun_eq_iff)

lemma package_dependencies_choice: "package_dependencies ov a = choice_dependencies ov (map_of a)"
  by (simp add: package_dependencies_def choice_dependencies_def fun_eq_iff)

section \<open>The requirements in force are collected exactly\<close>

definition demand :: "package_dependency set \<Rightarrow> (ustring \<times> ustring) set" where
  "demand ds = (\<lambda>d. (pd_name d, pd_version d)) ` ds"

definition recorded :: "constraints \<Rightarrow> (ustring \<times> ustring) set" where
  "recorded cs = {(n, r). \<exists>rs. map_of cs n = Some rs \<and> r \<in> set rs}"

definition recorded_names :: "constraints \<Rightarrow> ustring set" where
  "recorded_names cs = dom (map_of cs)"

lemma add_registry_constraint_effect:
  assumes "add_registry_constraint d (cs, q) = Inr (cs', q')"
  shows "recorded cs' = recorded cs \<union> demand {d}" "q' = pd_name d # q"
    "recorded_names cs' = insert (pd_name d) (recorded_names cs)"
  using assms
  by (auto simp: add_registry_constraint_def Let_def recorded_def demand_def recorded_names_def
      split: if_splits sum.splits option.splits)

lemma add_constraints_effect:
  "add_constraints ds (cs, q) = Inr (cs', q') \<Longrightarrow>
     recorded cs' = recorded cs \<union> demand (set ds) \<and> set q' = set q \<union> pd_name ` set ds
     \<and> recorded_names cs' = recorded_names cs \<union> pd_name ` set ds"
proof (induction ds arbitrary: cs q)
  case (Cons d ds)
  then obtain cs1 q1 where step: "add_registry_constraint d (cs, q) = Inr (cs1, q1)"
    and rest: "add_constraints ds (cs1, q1) = Inr (cs', q')"
    by (auto split: sum.splits)
  from add_registry_constraint_effect [OF step] Cons.IH [OF rest]
  show ?case by (auto simp: demand_def)
qed (simp add: demand_def)

definition expansion :: "(ustring \<times> file_override) list \<Rightarrow> package_dependency list \<Rightarrow> choice \<Rightarrow> ustring set \<Rightarrow> package_dependency set" where
  "expansion ov roots \<sigma> expanded = set roots \<union> (\<Union>m \<in> expanded. set (choice_dependencies ov \<sigma> m))"

definition collecting ::
    "(ustring \<times> file_override) list \<Rightarrow> package_dependency list \<Rightarrow> assignment \<Rightarrow> ustring set \<Rightarrow> constraints \<Rightarrow> ustring list \<Rightarrow> bool" where
  "collecting ov roots a expanded cs q \<longleftrightarrow>
     recorded cs = demand (expansion ov roots (map_of a) expanded)
     \<and> recorded_names cs = pd_name ` expansion ov roots (map_of a) expanded
     \<and> recorded_names cs \<subseteq> set q \<union> expanded \<and> set q \<union> expanded \<subseteq> Collect (active ov roots (map_of a))"

lemma expand_constraints_exact:
  assumes "expand_constraints ov a expanded (cs, q) = Inr cs'" and "collecting ov roots a expanded cs q"
  shows "\<exists>E. collecting ov roots a E cs' []"
  using assms
proof (induction ov a expanded "(cs, q)" arbitrary: cs q rule: expand_constraints.induct)
  case (1 ov a expanded cs)
  then show ?case by auto
next
  case (2 ov a expanded cs name queue)
  show ?case
  proof (cases "name \<in> expanded")
    case True
    then show ?thesis using 2 by (simp add: collecting_def insert_absorb split: if_splits)
  next
    case False
    obtain cs1 q1 where step: "add_constraints (package_dependencies ov a name) (cs, queue) = Inr (cs1, q1)"
      and rest: "expand_constraints ov a (insert name expanded) (cs1, q1) = Inr cs'"
      and lim: "\<not> MAX_REGISTRY_DEPENDENCIES < length cs"
      using 2(3) False by (auto split: if_splits sum.splits)
    note eff = add_constraints_effect [OF step, unfolded package_dependencies_choice]
    have act: "active ov roots (map_of a) name" using 2(4) by (simp add: collecting_def)
    let ?ds = "set (choice_dependencies ov (map_of a) name)"
    have "expansion ov roots (map_of a) (insert name expanded) = expansion ov roots (map_of a) expanded \<union> ?ds"
      by (auto simp: expansion_def)
    moreover have "pd_name ` ?ds \<subseteq> Collect (active ov roots (map_of a))" using act by (auto intro: active_step)
    moreover have "recorded_names cs \<subseteq> insert name (set queue \<union> expanded)"
      "set queue \<union> expanded \<subseteq> Collect (active ov roots (map_of a))" using 2(4) by (auto simp: collecting_def)
    ultimately have "collecting ov roots a (insert name expanded) cs1 q1"
      using 2(4) eff act unfolding collecting_def demand_def by (simp add: image_Un) blast
    then show ?thesis using 2(2) [OF lim False step rest] by simp
  qed
qed

lemma collecting_done:
  assumes "collecting ov roots a E cs []"
  shows "recorded_names cs = Collect (active ov roots (map_of a))"
    and "map_of cs n = Some rs \<Longrightarrow> set rs = required ov roots (map_of a) n"
proof -
  have names: "recorded_names cs = pd_name ` expansion ov roots (map_of a) E" "recorded_names cs \<subseteq> E"
    "E \<subseteq> Collect (active ov roots (map_of a))"
    using assms by (auto simp: collecting_def)
  have "active ov roots (map_of a) m \<Longrightarrow> m \<in> recorded_names cs" for m
  proof (induction rule: active.induct)
    case (active_step n d)
    then have "d \<in> expansion ov roots (map_of a) E" using names(2) by (auto simp: expansion_def)
    then show ?case using names(1) by simp
  qed (use names(1) in \<open>simp add: expansion_def\<close>)
  with names show all: "recorded_names cs = Collect (active ov roots (map_of a))" by auto
  with names have E: "E = Collect (active ov roots (map_of a))" by auto
  have rec: "recorded cs = demand (expansion ov roots (map_of a) E)" using assms by (simp add: collecting_def)
  assume "map_of cs n = Some rs"
  then have "set rs = {r. (n, r) \<in> recorded cs}" by (auto simp: recorded_def)
  then have "set rs = {r. (n, r) \<in> demand (expansion ov roots (map_of a) E)}" by (simp only: rec)
  then show "set rs = required ov roots (map_of a) n"
    by (auto simp: required_def demand_def expansion_def E)
qed

lemma collect_exact:
  assumes "collect_active_registry_constraints roots a ov = Inr cs"
  shows "dom (map_of cs) = Collect (active ov roots (map_of a))"
    and "map_of cs n = Some rs \<Longrightarrow> set rs = required ov roots (map_of a) n"
proof -
  obtain cs0 q where init: "add_constraints roots ([], []) = Inr (cs0, q)" and exp: "expand_constraints ov a {} (cs0, q) = Inr cs"
    using assms by (auto simp: collect_active_registry_constraints_def split: sum.splits)
  have "collecting ov roots a {} cs0 q"
    using add_constraints_effect [OF init]
    by (auto simp: collecting_def expansion_def recorded_def recorded_names_def intro: active_root)
  then obtain E where "collecting ov roots a E cs []" using expand_constraints_exact [OF exp] by blast
  from collecting_done [OF this]
  show "dom (map_of cs) = Collect (active ov roots (map_of a))"
    and "map_of cs n = Some rs \<Longrightarrow> set rs = required ov roots (map_of a) n"
    by (simp_all add: recorded_names_def)
qed

lemma satisfies_all_exact:
  "registry_version_satisfies_all v reqs Span_default = Inr b \<Longrightarrow> b \<longleftrightarrow> (\<forall>r \<in> set reqs. satisfies v r)"
proof -
  assume "registry_version_satisfies_all v reqs Span_default = Inr b"
  then obtain pv where pv: "parse_package_version v Span_default = Inr pv" "matches_requirements pv reqs Span_default = Inr b"
    by (auto simp: registry_version_satisfies_all_def split: sum.splits)
  from pv(2) show ?thesis
    by (induction reqs) (auto simp: satisfies_def pv(1) split: sum.splits if_splits)
qed

section \<open>The search\<close>

lemma wp_lift [wp_simps]: "wp E (lift r) Q s \<longleftrightarrow> (case r of Inl e \<Rightarrow> E e | Inr x \<Rightarrow> Q x s)"
  by (cases r) (simp_all add: lift_def wp_simps)

lemma wp_count_step [wp_simps]:
  "wp E count_step Q s \<longleftrightarrow> (if MAX_REGISTRY_SOLVER_STEPS < so_steps s + 1 then E resolver_limit_error
     else Q () (s\<lparr>so_steps := so_steps s + 1\<rparr>))"
  by (simp add: count_step_def wp_simps)

abbreviation chosen :: "solver \<Rightarrow> choice" where
  "chosen s \<equiv> map_of (so_assignments s)"

text \<open>Cached indexes are what the registry answered, and chosen versions are published.\<close>

definition solver_ok :: "solver_env \<Rightarrow> solver \<Rightarrow> bool" where
  "solver_ok env s \<longleftrightarrow> so_steps s \<le> MAX_REGISTRY_SOLVER_STEPS
     \<and> (\<forall>n c. map_of (so_indexes s) n = Some c \<longrightarrow> se_fetch env n = Inr c)
     \<and> (\<forall>n m. chosen s n = Some m \<longrightarrow> m \<in> offered env n)"

definition hopeless :: "solver_env \<Rightarrow> package_dependency list \<Rightarrow> choice \<Rightarrow> bool" where
  "hopeless env roots \<sigma> \<longleftrightarrow> (\<forall>\<tau>. \<sigma> \<subseteq>\<^sub>m \<tau> \<longrightarrow> \<not> solution env roots \<tau>)"

text \<open>What a call of the search promises about the state in which it returns.\<close>

definition verdict :: "solver_env \<Rightarrow> package_dependency list \<Rightarrow> solver \<Rightarrow> bool \<Rightarrow> solver \<Rightarrow> bool" where
  "verdict env roots s found s' \<longleftrightarrow> solver_ok env s' \<and> so_steps s \<le> so_steps s' \<and>
     (if found then solution env roots (chosen s')
      else chosen s' = chosen s \<and> hopeless env roots (chosen s))"

definition decides :: "solver_env \<Rightarrow> package_dependency list \<Rightarrow> nat \<Rightarrow> bool solving \<Rightarrow> bool" where
  "decides env roots n S \<longleftrightarrow> (\<forall>s. solver_ok env s \<longrightarrow> MAX_REGISTRY_SOLVER_STEPS < so_steps s + n \<longrightarrow>
     wp (\<lambda>_. True) S (verdict env roots s) s)"

definition refuted :: "solver_env \<Rightarrow> package_dependency list \<Rightarrow> choice \<Rightarrow> ustring \<Rightarrow> ustring list \<Rightarrow> registry_manifest \<Rightarrow> bool" where
  "refuted env roots \<sigma> name reqs c \<longleftrightarrow>
     (\<exists>r \<in> set reqs. \<not> satisfies (rm_version c) r) \<or> hopeless env roots (\<sigma>(name \<mapsto> c))"

definition tried ::
    "solver_env \<Rightarrow> package_dependency list \<Rightarrow> ustring \<Rightarrow> ustring list \<Rightarrow> registry_manifest list \<Rightarrow> solver \<Rightarrow> bool \<Rightarrow> solver \<Rightarrow> bool" where
  "tried env roots name reqs cs s found s' \<longleftrightarrow> solver_ok env s' \<and> so_steps s \<le> so_steps s' \<and>
     (if found then solution env roots (chosen s')
      else chosen s' = chosen s \<and> list_all (refuted env roots (chosen s) name reqs) cs)"

lemma tried_Cons:
  "tried env roots name reqs cs t found s' \<Longrightarrow> chosen t = chosen s \<Longrightarrow> so_steps s \<le> so_steps t \<Longrightarrow>
   refuted env roots (chosen s) name reqs c \<Longrightarrow> tried env roots name reqs (c # cs) s found s'"
  by (auto simp: tried_def)

text \<open>The state after a candidate that led nowhere is the state before it, but for the steps.\<close>

lemma candidate_undone:
  assumes "verdict env roots (s\<lparr>so_steps := so_steps s + 1, so_assignments := hm_insert name c (so_assignments s)\<rparr>) False s'"
    and "chosen s name = None"
  defines "t \<equiv> s'\<lparr>so_assignments := hm_remove name (so_assignments s')\<rparr>"
  shows "chosen t = chosen s" "refuted env roots (chosen s) name reqs c" "solver_ok env t" "so_steps s \<le> so_steps t"
  using assms by (auto simp: verdict_def refuted_def solver_ok_def fun_eq_iff split: if_splits)

lemma try_candidates_verdict:
  assumes S: "decides env roots n S" and "solver_ok env s" and "MAX_REGISTRY_SOLVER_STEPS \<le> so_steps s + n"
    and "chosen s name = None" and "set cs \<subseteq> offered env name"
  shows "wp (\<lambda>_. True) (try_candidates S name reqs cs) (tried env roots name reqs cs s) s"
  using assms(2-5)
proof (induction cs arbitrary: s)
  case (Cons c cs)
  show ?case
  proof (cases "registry_version_satisfies_all (rm_version c) reqs Span_default = Inr True
      \<and> so_steps s + 1 \<le> MAX_REGISTRY_SOLVER_STEPS")
    case False
    have "refuted env roots (chosen s) name reqs c"
      if "registry_version_satisfies_all (rm_version c) reqs Span_default = Inr False"
      using satisfies_all_exact [OF that] by (auto simp: refuted_def)
    with Cons False show ?thesis
      by (auto simp: wp_simps split: sum.splits intro!: wp_mono [OF Cons.IH] intro: tried_Cons)
  next
    case True
    let ?s = "s\<lparr>so_steps := so_steps s + 1, so_assignments := hm_insert name c (so_assignments s)\<rparr>"
    let ?undo = "\<lambda>s. s\<lparr>so_assignments := hm_remove name (so_assignments s)\<rparr>"
    have ok: "solver_ok env ?s" using Cons.prems True by (auto simp: solver_ok_def)
    have found: "tried env roots name reqs (c # cs) s True s'" if "verdict env roots ?s True s'" for s'
      using that by (simp add: tried_def verdict_def)
    have next_ok: "wp (\<lambda>_. True) (try_candidates S name reqs cs) (tried env roots name reqs (c # cs) s) (?undo s')"
      if v: "verdict env roots ?s False s'" for s'
      by (rule wp_mono [OF Cons.IH tried_Cons [where t = "?undo s'"]]) (use candidate_undone [OF v] Cons.prems in auto)
    have "wp (\<lambda>_. True) S (verdict env roots ?s) ?s" using S ok Cons.prems(2) by (simp add: decides_def)
    then have "wp (\<lambda>_. True) S (\<lambda>found s'. if found then tried env roots name reqs (c # cs) s True s'
        else wp (\<lambda>_. True) (try_candidates S name reqs cs) (tried env roots name reqs (c # cs) s) (?undo s')) ?s"
      by (rule wp_mono) (use found next_ok in auto)
    then show ?thesis using True
      by (auto simp: wp_simps elim!: wp_mono split: if_splits)
  qed
qed (simp add: wp_simps tried_def)

text \<open>A requirement holds for what is in force for a package: its override, the version chosen for it, or nothing yet.\<close>

definition meets :: "solver_env \<Rightarrow> choice \<Rightarrow> ustring \<Rightarrow> ustring \<Rightarrow> bool" where
  "meets env \<sigma> n r = (case map_of (se_overrides env) n of
       Some o' \<Rightarrow> satisfies (fo_version o') r
     | None \<Rightarrow> (case \<sigma> n of Some m \<Rightarrow> satisfies (rm_version m) r | None \<Rightarrow> True))"

text \<open>The check of the versions in force finds a violated requirement or there is none.\<close>

lemma check_assigned_exact:
  assumes "check_assigned env a cs names = Inr ok" and "set names \<subseteq> dom (map_of cs)"
  shows "ok \<longleftrightarrow> (\<forall>n \<in> set names. \<forall>r \<in> set (the (map_of cs n)). meets env (map_of a) n r)"
  using assms unfolding meets_def
  by (induction names) (auto split: sum.splits bool.splits option.splits dest!: satisfies_all_exact)

lemma take_index_wp:
  assumes "solver_ok env s"
  shows "wp (\<lambda>_. True) (take_registry_index env name)
    (\<lambda>c s'. se_fetch env name = Inr c \<and> solver_ok env s' \<and> so_steps s' = so_steps s \<and> so_assignments s' = so_assignments s) s"
  using assms
  by (auto simp: take_registry_index_def wp_simps solver_ok_def split: option.splits sum.splits)

lemma refuted_all_hopeless:
  assumes act: "active (se_overrides env) roots \<sigma> name" and over: "map_of (se_overrides env) name = None"
    and reqs: "set reqs = required (se_overrides env) roots \<sigma> name"
    and all: "\<And>c. c \<in> offered env name \<Longrightarrow> refuted env roots \<sigma> name reqs c"
    and none: "\<sigma> name = None"
  shows "hopeless env roots \<sigma>"
  unfolding hopeless_def
proof (intro allI impI notI)
  fix \<tau>
  assume le: "\<sigma> \<subseteq>\<^sub>m \<tau>" and sol: "solution env roots \<tau>"
  have "settled env \<tau> (required (se_overrides env) roots \<tau> name) name"
    using sol active_mono [OF act le] by (simp add: solution_def)
  then obtain m where m: "\<tau> name = Some m" "m \<in> offered env name"
    and sat: "\<forall>r \<in> required (se_overrides env) roots \<tau> name. satisfies (rm_version m) r"
    by (auto simp: settled_def over split: option.splits)
  have "\<sigma>(name \<mapsto> m) \<subseteq>\<^sub>m \<tau>" using le m(1) by (auto simp: map_le_def)
  moreover have "\<forall>r \<in> set reqs. satisfies (rm_version m) r" using sat required_mono [OF le] reqs by blast
  ultimately show False using all [OF m(2)] sol by (auto simp: refuted_def hopeless_def)
qed

lemma violated_hopeless:
  assumes act: "active (se_overrides env) roots \<sigma> n" and r: "r \<in> required (se_overrides env) roots \<sigma> n"
    and bad: "\<not> meets env \<sigma> n r"
  shows "hopeless env roots \<sigma>"
  unfolding hopeless_def
proof (intro allI impI notI)
  fix \<tau>
  assume le: "\<sigma> \<subseteq>\<^sub>m \<tau>" and sol: "solution env roots \<tau>"
  have "settled env \<tau> (required (se_overrides env) roots \<tau> n) n" using sol active_mono [OF act le] by (simp add: solution_def)
  moreover have "r \<in> required (se_overrides env) roots \<tau> n" using required_mono [OF le] r by blast
  moreover have "\<sigma> n = Some m \<Longrightarrow> \<tau> n = Some m" for m using le by (auto simp: map_le_def dom_def)
  ultimately show False using bad by (fastforce simp: settled_def meets_def split: option.splits)
qed

lemma find_SomeD: "find P xs = Some x \<Longrightarrow> P x \<and> x \<in> set xs"
  by (induction xs) (auto split: if_splits)

lemma branch_verdict:
  assumes S: "decides env roots n S" and ok: "solver_ok env s" and fuel: "MAX_REGISTRY_SOLVER_STEPS \<le> so_steps s + n"
    and act: "active (se_overrides env) roots (chosen s) name" and over: "map_of (se_overrides env) name = None"
    and none: "chosen s name = None" and reqs: "set reqs = required (se_overrides env) roots (chosen s) name"
  shows "wp (\<lambda>_. True) (sbind (take_registry_index env name) (\<lambda>cached.
      sbind (try_candidates S name reqs (ri_versions (ci_index cached))) (\<lambda>found.
      sbind (smodify (\<lambda>s. s\<lparr>so_indexes := hm_insert name cached (so_indexes s)\<rparr>)) (\<lambda>_. sreturn found)))) (verdict env roots s) s"
  unfolding wp_bind
proof (rule wp_mono [OF take_index_wp [OF ok]])
  fix c t
  assume t: "se_fetch env name = Inr c \<and> solver_ok env t \<and> so_steps t = so_steps s \<and> so_assignments t = so_assignments s"
  have off: "offered env name = set (ri_versions (ci_index c))" using t by (simp add: offered_def)
  show "wp (\<lambda>_. True) (try_candidates S name reqs (ri_versions (ci_index c))) (\<lambda>found. wp (\<lambda>_. True)
      (smodify (\<lambda>s. s\<lparr>so_indexes := hm_insert name c (so_indexes s)\<rparr>)) (\<lambda>_. wp (\<lambda>_. True) (sreturn found) (verdict env roots s))) t"
  proof (rule wp_mono [OF try_candidates_verdict [OF S]])
    fix found u
    assume "tried env roots name reqs (ri_versions (ci_index c)) t found u"
    then show "wp (\<lambda>_. True) (smodify (\<lambda>s. s\<lparr>so_indexes := hm_insert name c (so_indexes s)\<rparr>))
        (\<lambda>_. wp (\<lambda>_. True) (sreturn found) (verdict env roots s)) u"
      using t off refuted_all_hopeless [OF act over reqs _ none]
      by (auto simp: wp_simps tried_def verdict_def solver_ok_def list_all_iff split: if_splits)
  qed (use t off fuel none in auto)
qed

lemma search_body_decides:
  assumes S: "decides env roots n S"
  shows "decides env roots (Suc n) (search_body env roots S)"
  unfolding decides_def
proof (intro allI impI)
  fix s
  assume ok: "solver_ok env s" and fuel: "MAX_REGISTRY_SOLVER_STEPS < so_steps s + Suc n"
  let ?ov = "se_overrides env" and ?a = "so_assignments s" and ?s = "s\<lparr>so_steps := so_steps s + 1\<rparr>"
  show "wp (\<lambda>_. True) (search_body env roots S) (verdict env roots s) s"
  proof (cases "\<exists>cs. collect_active_registry_constraints roots ?a ?ov = Inr cs
      \<and> so_steps s + 1 \<le> MAX_REGISTRY_SOLVER_STEPS \<and> \<not> isl (check_assigned env ?a cs (sort (map fst cs)))")
    case False
    then show ?thesis
      by (auto simp: search_body_def ensure_deadline_def wp_simps Let_def split: sum.splits)
  next
    case True
    then obtain cs ok' where cs: "collect_active_registry_constraints roots ?a ?ov = Inr cs"
      and step: "so_steps s + 1 \<le> MAX_REGISTRY_SOLVER_STEPS" and chk: "check_assigned env ?a cs (sort (map fst cs)) = Inr ok'"
      by (metis isl_def sum.collapse(2))
    have dom: "set (map fst cs) = Collect (active ?ov roots (chosen s))" "dom (map_of cs) = set (map fst cs)"
      using collect_exact(1) [OF cs] by (simp_all add: dom_map_of_conv_image_fst)
    have reqs: "set (the (map_of cs n)) = required ?ov roots (chosen s) n" if "active ?ov roots (chosen s) n" for n
      using collect_exact(2) [OF cs, of n] that dom by (metis (no_types) domD mem_Collect_eq option.sel)
    have ok1: "solver_ok env ?s" using ok step by (simp add: solver_ok_def)
    have exact: "ok' \<longleftrightarrow> (\<forall>n. active ?ov roots (chosen s) n \<longrightarrow> (\<forall>r \<in> required ?ov roots (chosen s) n. meets env (chosen s) n r))"
      using check_assigned_exact [OF chk] dom reqs by (simp add: Ball_def)
    let ?open = "\<lambda>name. chosen s name = None \<and> map_of ?ov name = None"
    let ?rest = "if \<not> ok' then sreturn False else case find ?open (sort (map fst cs)) of
         None \<Rightarrow> sreturn True
       | Some name \<Rightarrow> sbind (take_registry_index env name) (\<lambda>cached.
           sbind (try_candidates S name (the (map_of cs name)) (ri_versions (ci_index cached))) (\<lambda>found.
           sbind (smodify (\<lambda>s. s\<lparr>so_indexes := hm_insert name cached (so_indexes s)\<rparr>)) (\<lambda>_. sreturn found)))"
    have "wp (\<lambda>_. True) ?rest (verdict env roots ?s) ?s"
    proof (cases "ok' \<and> find ?open (sort (map fst cs)) \<noteq> None")
      case True
      then obtain name where find: "find ?open (sort (map fst cs)) = Some name" and ok' by blast
      then have "?open name" "name \<in> set (map fst cs)" using find_SomeD [OF find] by simp_all
      then show ?thesis using find \<open>ok'\<close> branch_verdict [OF S ok1] fuel dom reqs by simp
    next
      case False
      have "hopeless env roots (chosen s)" if "\<not> ok'"
        using that exact violated_hopeless by blast
      moreover have "solution env roots (chosen s)" if "ok'" "find ?open (sort (map fst cs)) = None"
        unfolding solution_def
      proof (intro allI impI)
        fix n
        assume n: "active ?ov roots (chosen s) n"
        then have "n \<in> set (sort (map fst cs))" unfolding set_sort dom(1) by simp
        then have "\<not> ?open n" using that(2) unfolding find_None_iff by blast
        then show "settled env (chosen s) (required ?ov roots (chosen s) n) n"
          using that(1) exact n ok by (auto simp: settled_def meets_def solver_ok_def split: option.splits)
      qed
      ultimately show ?thesis using False ok1 by (auto simp: wp_simps verdict_def)
    qed
    then have "wp (\<lambda>_. True) ?rest (verdict env roots s) ?s"
      by (rule wp_mono) (auto simp: verdict_def)
    then show ?thesis using step
      by (cases ok') (auto simp: search_body_def ensure_deadline_def wp_bind wp_get wp_count_step wp_lift Let_def cs chk wp_if wp_raise wp_return)
  qed
qed

lemma search_decides: "decides env roots n (search n env roots)"
proof (induction n)
  case 0
  then show ?case by (auto simp: decides_def solver_ok_def)
next
  case (Suc n)
  have "search (Suc n) env roots = search_body env roots (search n env roots)" by (simp add: fun_eq_iff)
  then show ?case using search_body_decides [OF Suc] by simp
qed

section \<open>Properties\<close>

text \<open>C5: The resolver is sound and complete. It always returns. The versions it returns are published and
  meet every requirement of every package they reach from the roots, overrides included. If the search
  answers, its answer is exact: it finds a choice if and only if there is one, whatever dependencies the
  candidates bring in; otherwise it has stopped at a limit, at the deadline or at an error of the registry or of a dependency declaration.\<close>

theorem registry_solver_exact:
  "(case solve env roots of
      Inr a \<Rightarrow> solution env roots (map_of a)
    | Inl (Raise e) \<Rightarrow> True
    | Inl _ \<Rightarrow> False)
   \<and> (case search SOLVER_FUEL env roots solver_new of
        Inr (found, s) \<Rightarrow> (found \<longleftrightarrow> (\<exists>\<sigma>. solution env roots \<sigma>))
          \<and> solve env roots = (if found then Inr (so_assignments s) else Inl (Raise dependency_conflict_error))
      | Inl f \<Rightarrow> solve env roots = Inl f)"
proof -
  have "solver_ok env solver_new" by (simp add: solver_ok_def solver_new_def)
  then have "wp (\<lambda>_. True) (search SOLVER_FUEL env roots) (verdict env roots solver_new) solver_new"
    using search_decides [of env roots SOLVER_FUEL] by (simp add: decides_def SOLVER_FUEL_def)
  then show ?thesis
    by (auto simp: solve_def wp_def verdict_def hopeless_def solver_new_def split: sum.splits prod.splits fault.splits if_splits)
qed

text \<open>A resolution that needs to backtrack: the newest version of \<open>a\<close> wants a version of \<open>b\<close> that the root
  excludes, so the older one is chosen.\<close>

lemma registry_solver_example:
  fixes dep :: "string \<Rightarrow> string \<Rightarrow> package_dependency"
    and man :: "string \<Rightarrow> string \<Rightarrow> package_dependency list \<Rightarrow> registry_manifest"
    and idx :: "string \<Rightarrow> registry_manifest list \<Rightarrow> cached_index"
  defines "dep n v \<equiv> \<lparr>pd_name = lit n, pd_version = lit v, pd_source = None, pd_checksum = None\<rparr>"
    and "man n v ds \<equiv> \<lparr>rm_name = lit n, rm_version = lit v, rm_source = [], rm_checksum = [], rm_dependencies = ds\<rparr>"
    and "idx n ms \<equiv> \<lparr>ci_index = \<lparr>ri_name = lit n, ri_versions = ms\<rparr>,
      ci_usage = \<lparr>iu_source_bytes = 10, iu_versions = length ms, iu_parsed_items = 4\<rparr>\<rparr>"
  shows "solve \<lparr>se_fetch = (\<lambda>n. if n = lit ''a'' then Inr (idx ''a'' [man ''a'' ''1.1.0'' [dep ''b'' ''2.0.0''], man ''a'' ''1.0.0'' []])
        else if n = lit ''b'' then Inr (idx ''b'' [man ''b'' ''1.0.0'' []]) else Inl dependency_limit_error),
      se_overrides = [], se_expired = (\<lambda>_. False)\<rparr> [dep ''a'' ''^1.0.0'', dep ''b'' ''1.0.0'']
    = Inr [(lit ''a'', man ''a'' ''1.0.0'' []), (lit ''b'', man ''b'' ''1.0.0'' [])]"
  unfolding dep_def man_def idx_def by code_simp

end
