(* ===== verification/Package_Paths.thy ===== *)
theory Package_Paths
  imports Package_Version Stdlib
begin

text \<open>
  Paths in manifests, imports and archives (\<open>src/src/package.rs\<close>). A path of a package is accepted only in a
  portable form, so that it names the same file on every platform and never leaves the directory it is joined
  to. Paths are the Unix ones of \<open>std::path\<close>: text with \<open>/\<close> between components.
\<close>

section \<open>Paths of the standard library\<close>

datatype component = RootDir | CurDir | ParentDir | Normal ustring

definition slash :: uchar where "slash = ch CHR ''/''"
definition dot :: ustring where "dot = lit ''.''"
definition dotdot :: ustring where "dotdot = lit ''..''"

definition component_of :: "ustring \<Rightarrow> component" where
  "component_of p = (if p = dotdot then ParentDir else Normal p)"

text \<open>\<open>Path::components\<close>: repeated separators and \<open>.\<close> are skipped, except a leading \<open>.\<close>.\<close>

definition path_components :: "ustring \<Rightarrow> component list" where
  "path_components p =
     (let pieces = split_char slash p;
          body = map component_of (filter (\<lambda>q. q \<noteq> [] \<and> q \<noteq> dot) pieces) in
      if str_starts_with p [slash] then RootDir # body
      else if hd pieces = dot then CurDir # body
      else body)"

text \<open>\<open>PathBuf::push\<close>: an absolute path replaces, any other is appended behind one separator.\<close>

definition path_join :: "ustring \<Rightarrow> ustring \<Rightarrow> ustring" where
  "path_join base p =
     (if str_starts_with p [slash] then p
      else if base = [] \<or> ends_with base [slash] then base @ p
      else base @ [slash] @ p)"

text \<open>\<open>Path::parent\<close>, on the reversed text: the last component and the separators and dots before it are cut.\<close>

fun trim_path_rev :: "ustring \<Rightarrow> ustring" where
  "trim_path_rev (c # d # cs) =
     (if c = slash \<or> c = ch CHR ''.'' \<and> d = slash then trim_path_rev (d # cs) else c # d # cs)"
| "trim_path_rev p = p"

definition path_parent :: "ustring \<Rightarrow> ustring option" where
  "path_parent p =
     (let q = trim_path_rev (rev p) in
      if q = [] \<or> q = [slash] then None
      else Some (rev (trim_path_rev (dropWhile (\<lambda>c. c \<noteq> slash) q))))"

text \<open>The place a path names: the names below the root, for a process that runs in \<open>cwd\<close>.\<close>

fun walk :: "component \<Rightarrow> ustring list \<Rightarrow> ustring list" where
  "walk RootDir at = []"
| "walk CurDir at = at"
| "walk ParentDir at = butlast at"
| "walk (Normal c) at = at @ [c]"

definition resolve :: "ustring list \<Rightarrow> ustring \<Rightarrow> ustring list" where
  "resolve cwd p = fold walk (path_components p) cwd"

section \<open>Portable components\<close>

definition non_portable_char :: "uchar \<Rightarrow> bool" where
  "non_portable_char c \<longleftrightarrow> is_control c \<or> c \<in> set (92 # lit '':<>|?*'') \<or> c = ch CHR 0x22"

definition not_portable_error :: "ustring \<Rightarrow> span \<Rightarrow> ku_error" where
  "not_portable_error v sp = package_error (lit ''unsafe_archive_path'')
     (lit ''package archive path component '' @ [ch CHR 0x27] @ v @ [ch CHR 0x27] @ lit '' is not portable'') sp"

definition validate_portable_package_component :: "ustring \<Rightarrow> span \<Rightarrow> ku_error + unit" where
  "validate_portable_package_component v sp =
     (if trim_end_spaces_dots v \<noteq> v \<or> list_ex non_portable_char v
         \<or> windows_path_component_has_reserved_device_basename v
      then Inl (not_portable_error v sp)
      else Inr ())"

section \<open>Paths of a manifest and of imports\<close>

definition unsafe_path_error :: "ustring \<Rightarrow> span \<Rightarrow> ku_error" where
  "unsafe_path_error kind sp = package_error (lit ''unsafe_path'')
     (lit ''ku.mod '' @ kind @ lit '' must use a portable relative path with '' @
      [ch CHR 0x27] @ [slash] @ [ch CHR 0x27] @ lit '' separators'') sp"

definition unsafe_component :: "span \<Rightarrow> ustring \<Rightarrow> bool" where
  "unsafe_component sp c \<longleftrightarrow> c = [] \<or> c = dot \<or> c = dotdot \<or> isl (validate_portable_package_component c sp)"

definition reject_unsafe_relative_path :: "ustring \<Rightarrow> ustring \<Rightarrow> span \<Rightarrow> ku_error + unit" where
  "reject_unsafe_relative_path kind v sp =
     (if v = [] \<or> 92 \<in> set v \<or> str_starts_with v [slash] \<or> ends_with v [slash]
         \<or> list_ex (unsafe_component sp) (split_char slash v)
      then Inl (unsafe_path_error kind sp)
      else Inr ())"

definition non_portable_import_error :: "ustring \<Rightarrow> span \<Rightarrow> ku_error" where
  "non_portable_import_error m sp = package_error (lit ''non_portable_import'') m sp"

fun validate_import_components :: "ustring list \<Rightarrow> span \<Rightarrow> ku_error + unit" where
  "validate_import_components [] sp = Inr ()"
| "validate_import_components (c # cs) sp =
     (if c = [] then Inl (non_portable_import_error (lit ''package imports must not contain empty path components'') sp)
      else if c = dot \<or> c = dotdot then validate_import_components cs sp
      else case validate_portable_package_component c sp of
        Inl _ \<Rightarrow> Inl (non_portable_import_error (lit ''package import component '' @ [ch CHR 0x27] @ c @ [ch CHR 0x27]
                   @ lit '' is not portable'') sp)
      | Inr _ \<Rightarrow> validate_import_components cs sp)"

definition validate_package_import_text :: "ustring \<Rightarrow> span \<Rightarrow> ku_error + unit" where
  "validate_package_import_text v sp =
     (if v = [] \<or> 92 \<in> set v \<or> str_starts_with v [slash] \<or> ends_with v [slash]
      then Inl (non_portable_import_error (lit ''package imports must use a non-empty relative path with '' @
             [ch CHR 0x27] @ [slash] @ [ch CHR 0x27] @ lit '' separators'') sp)
      else validate_import_components (split_char slash v) sp)"

definition unsafe_import_error :: "span \<Rightarrow> ku_error" where
  "unsafe_import_error sp = package_error (lit ''unsafe_import'')
     (lit ''package dependency import must stay inside dependency root'') sp"

definition reject_unsafe_dependency_import :: "ustring \<Rightarrow> span \<Rightarrow> ku_error + unit" where
  "reject_unsafe_dependency_import v sp =
     (if isl (validate_package_import_text v sp) \<or> list_ex (\<lambda>c. c = dot \<or> c = dotdot) (split_char slash v)
      then Inl (unsafe_import_error sp)
      else Inr ())"

section \<open>Paths of archive entries\<close>

record archive_policy =
  max_compressed_bytes :: nat
  max_unpacked_bytes :: nat
  max_files :: nat
  max_file_bytes :: nat
  max_path_bytes :: nat
  max_depth :: nat

definition MAX_REGISTRY_DOWNLOAD_BYTES :: nat where "MAX_REGISTRY_DOWNLOAD_BYTES = 32000000"

definition archive_policy_default :: archive_policy where
  "archive_policy_default = \<lparr>max_compressed_bytes = MAX_REGISTRY_DOWNLOAD_BYTES, max_unpacked_bytes = 128000000,
     max_files = 4096, max_file_bytes = 16000000, max_path_bytes = 240, max_depth = 32\<rparr>"

definition validate_package_archive_policy :: "archive_policy \<Rightarrow> span \<Rightarrow> ku_error + unit" where
  "validate_package_archive_policy policy sp =
     (if max_compressed_bytes policy = 0 \<or> max_unpacked_bytes policy = 0 \<or> max_files policy = 0
         \<or> max_file_bytes policy = 0 \<or> max_path_bytes policy = 0 \<or> max_depth policy = 0
      then Inl (package_error (lit ''invalid_archive_policy'') (lit ''package archive limits must be greater than zero'') sp)
      else Inr ())"

definition unsafe_archive_path_error :: "span \<Rightarrow> ku_error" where
  "unsafe_archive_path_error sp = package_error (lit ''unsafe_archive_path'')
     (lit ''package archive paths must stay under one relative root directory'') sp"

definition not_utf8_error :: "span \<Rightarrow> ku_error" where
  "not_utf8_error sp = package_error (lit ''unsafe_archive_path'') (lit ''package archive paths must be valid UTF-8'') sp"

definition archive_path_length_error :: "nat \<Rightarrow> span \<Rightarrow> ku_error" where
  "archive_path_length_error n sp = package_error (lit ''unsafe_archive_path'')
     (lit ''package archive path exceeds '' @ nat_to_string n @ lit '' bytes'') sp"

definition archive_roots_error :: "span \<Rightarrow> ku_error" where
  "archive_roots_error sp = package_error (lit ''invalid_package_archive'')
     (lit ''package archive must contain exactly one root directory'') sp"

fun archive_components :: "component list \<Rightarrow> span \<Rightarrow> ku_error + ustring list" where
  "archive_components [] sp = Inr []"
| "archive_components (Normal v # cs) sp =
     (if v = [] \<or> v = dot \<or> v = dotdot then Inl (unsafe_archive_path_error sp)
      else case validate_portable_package_component v sp of
        Inl e \<Rightarrow> Inl e
      | Inr _ \<Rightarrow> map_sum id ((#) v) (archive_components cs sp))"
| "archive_components (_ # cs) sp = Inl (unsafe_archive_path_error sp)"

text \<open>A path is \<open>None\<close> when its bytes are not UTF-8. The result is the path below the root directory, with the
  root of the archive.\<close>

definition validate_archive_entry_path ::
    "ustring option \<Rightarrow> ustring option \<Rightarrow> archive_policy \<Rightarrow> span \<Rightarrow> ku_error + ustring \<times> ustring option" where
  "validate_archive_entry_path path root_name policy sp = (case path of
       None \<Rightarrow> Inl (not_utf8_error sp)
     | Some text \<Rightarrow>
         if 92 \<in> set text then Inl (unsafe_archive_path_error sp)
         else if max_path_bytes policy < str_len text then Inl (archive_path_length_error (max_path_bytes policy) sp)
         else case archive_components (path_components text) sp of
           Inl e \<Rightarrow> Inl e
         | Inr components \<Rightarrow>
             if components = [] \<or> max_depth policy < length components then Inl (unsafe_archive_path_error sp)
             else let root = hd components in
               if root_name \<noteq> None \<and> root_name \<noteq> Some root then Inl (archive_roots_error sp)
               else Inr (fold (\<lambda>c relative. path_join relative c) (tl components) [], Some root))"

definition MANIFEST_FILE :: ustring where "MANIFEST_FILE = lit ''ku.mod''"

definition allowed_top_level :: "ustring list" where
  "allowed_top_level = MANIFEST_FILE # map lit [''src'', ''docs'', ''examples'', ''tests'', ''README'', ''README.md'',
     ''LICENSE'', ''LICENSE.md'']"

definition validate_archive_top_level :: "ustring \<Rightarrow> span \<Rightarrow> ku_error + unit" where
  "validate_archive_top_level relative sp = (case path_components relative of
       [] \<Rightarrow> Inr ()
     | Normal name # _ \<Rightarrow>
         if name \<in> set allowed_top_level then Inr ()
         else Inl (package_error (lit ''unsupported_archive_path'')
           (lit ''package archive top-level path '' @ [ch CHR 0x27] @ name @ [ch CHR 0x27] @ lit '' is not allowed'') sp)
     | _ \<Rightarrow> Inl (unsafe_archive_path_error sp))"

section \<open>Joining relative paths\<close>

lemma split_char_append_sep: "split_char d (a @ d # b) = split_char d a @ split_char d b"
proof (induction a)
  case (Cons c a)
  have "split_char d a \<noteq> []" by simp
  then obtain q qs where "split_char d a = q # qs" by (cases "split_char d a") auto
  with Cons show ?case by simp
qed simp

lemma hd_split_char: "hd (split_char d s) = takeWhile (\<lambda>c. c \<noteq> d) s"
proof (induction s)
  case (Cons c s)
  have "split_char d s \<noteq> []" by simp
  then obtain q qs where "split_char d s = q # qs" by (cases "split_char d s") auto
  with Cons show ?case by simp
qed simp

lemma starts_slash: "str_starts_with p [slash] \<longleftrightarrow> p \<noteq> [] \<and> hd p = slash"
  by (cases p) auto

lemma ends_slash: "ends_with p [slash] \<longleftrightarrow> p \<noteq> [] \<and> last p = slash"
  by (cases p rule: rev_cases) (simp_all add: ends_with_def)

text \<open>Plain pieces: what is left of a path when nothing in it is special.\<close>

definition plain_piece :: "ustring \<Rightarrow> bool" where
  "plain_piece q \<longleftrightarrow> q \<noteq> [] \<and> q \<noteq> dot \<and> q \<noteq> dotdot"

lemma plain_components:
  assumes "list_all plain_piece (split_char slash p)"
  shows "path_components p = map Normal (split_char slash p)" and "\<not> str_starts_with p [slash]"
proof -
  have ne: "split_char slash p \<noteq> []" by simp
  then have hd: "plain_piece (hd (split_char slash p))" using assms by (cases "split_char slash p") auto
  have "filter (\<lambda>q. q \<noteq> [] \<and> q \<noteq> dot) (split_char slash p) = split_char slash p"
    using assms by (auto simp: filter_id_conv list_all_iff plain_piece_def)
  moreover have "map component_of (split_char slash p) = map Normal (split_char slash p)"
    using assms by (auto simp: list_all_iff plain_piece_def component_of_def)
  moreover show "\<not> str_starts_with p [slash]"
    using hd by (cases p) (auto simp: hd_split_char plain_piece_def)
  ultimately show "path_components p = map Normal (split_char slash p)"
    using hd by (simp add: path_components_def Let_def plain_piece_def)
qed

definition body_components :: "ustring \<Rightarrow> component list" where
  "body_components p = map component_of (filter (\<lambda>q. q \<noteq> [] \<and> q \<noteq> dot) (split_char slash p))"

lemma components_sep:
  "path_components (b @ slash # p) = (if b = [] then [RootDir] else path_components b) @ body_components p"
proof -
  have "str_starts_with (b @ slash # p) [slash] \<longleftrightarrow> b = [] \<or> str_starts_with b [slash]"
    by (cases b) auto
  moreover have "hd (split_char slash b @ split_char slash p) = hd (split_char slash b)" by simp
  ultimately show ?thesis
    by (cases "b = []")
      (simp add: path_components_def body_components_def Let_def,
       simp add: path_components_def body_components_def Let_def split_char_append_sep del: split_char.simps)
qed

lemma components_join:
  assumes "\<not> str_starts_with p [slash]" and "hd (split_char slash p) \<noteq> dot"
  shows "path_components (path_join base p) = path_components base @ path_components p"
proof -
  have p: "path_components p = body_components p"
    using assms by (simp add: path_components_def body_components_def Let_def)
  consider "base = []" | b where "base = b @ [slash]" | "base \<noteq> []" "\<not> ends_with base [slash]"
    by (metis append_butlast_last_id ends_slash)
  then show ?thesis
  proof cases
    case 1
    then show ?thesis using assms by (simp add: path_join_def path_components_def Let_def dot_def lit_Cons)
  next
    case 2
    then have "path_join base p = b @ slash # p" using assms by (simp add: path_join_def ends_slash)
    moreover have "body_components [] = []" by (simp add: body_components_def)
    ultimately show ?thesis using 2 p by (simp add: components_sep)
  next
    case 3
    then have "path_join base p = base @ slash # p" using assms by (simp add: path_join_def)
    then show ?thesis using 3 p by (simp add: components_sep)
  qed
qed

lemma walk_normal: "fold walk (map Normal qs) at = at @ qs"
  by (induction qs arbitrary: at) simp_all

lemma resolve_join_plain:
  assumes "list_all plain_piece (split_char slash p)"
  shows "resolve cwd (path_join base p) = resolve cwd base @ split_char slash p"
proof -
  have "hd (split_char slash p) \<noteq> dot"
    using assms by (cases "split_char slash p") (auto simp: plain_piece_def)
  then show ?thesis
    using components_join plain_components [OF assms] by (simp add: resolve_def walk_normal)
qed

section \<open>Properties\<close>

definition portable_component :: "ustring \<Rightarrow> bool" where
  "portable_component c \<longleftrightarrow> c \<noteq> [] \<and> last c \<noteq> ch CHR '' '' \<and> last c \<noteq> ch CHR ''.''
     \<and> list_all (\<lambda>x. \<not> non_portable_char x) c \<and> \<not> windows_path_component_has_reserved_device_basename c"

lemma trim_end_id: "trim_end_spaces_dots v = v \<longleftrightarrow> v = [] \<or> last v \<noteq> ch CHR '' '' \<and> last v \<noteq> ch CHR ''.''"
proof (cases v rule: rev_cases)
  case (snoc u c)
  have "length (dropWhile P xs) \<noteq> Suc (length xs)" for P and xs :: ustring
    using length_dropWhile_le [of P xs] by linarith
  then have "rev (dropWhile P (rev u)) \<noteq> u @ [c]" for P by (metis length_append_singleton length_rev)
  then show ?thesis using snoc by (simp add: trim_end_spaces_dots_def)
qed (simp add: trim_end_spaces_dots_def)

lemma reserved_Nil: "\<not> windows_path_component_has_reserved_device_basename []"
  by (simp add: windows_path_component_has_reserved_device_basename_def trim_end_spaces_dots_def to_ascii_uppercase_def lit_Cons)

lemma portable_valid:
  "validate_portable_package_component v sp = (if v = [] \<or> portable_component v then Inr () else Inl (not_portable_error v sp))"
  by (cases "v = []")
    (auto simp: validate_portable_package_component_def portable_component_def trim_end_id list_ex_iff list_all_iff reserved_Nil)

lemma portable_plain: "portable_component v \<Longrightarrow> plain_piece v"
  by (auto simp: portable_component_def plain_piece_def dot_def dotdot_def lit_Cons)

lemma portable_no_backslash: "portable_component v \<Longrightarrow> 92 \<notin> set v"
  by (auto simp: portable_component_def list_all_iff non_portable_char_def)

lemma pieces_char: "c \<noteq> d \<Longrightarrow> c \<in> set s \<longleftrightarrow> (\<exists>q \<in> set (split_char d s). c \<in> set q)"
proof (induction s)
  case (Cons x s)
  have "split_char d s \<noteq> []" by simp
  then obtain q qs where "split_char d s = q # qs" by (cases "split_char d s") auto
  with Cons show ?case by auto
qed simp

lemma portable_pieces:
  assumes "list_all portable_component (split_char slash v)"
  shows "v \<noteq> []" "92 \<notin> set v" "\<not> str_starts_with v [slash]" "\<not> ends_with v [slash]"
proof -
  have plain: "list_all plain_piece (split_char slash v)"
    using assms portable_plain by (auto simp: list_all_iff)
  show "v \<noteq> []" using plain by (auto simp: plain_piece_def)
  have "(92 :: nat) \<noteq> slash" by (simp add: slash_def ch_def)
  then show "92 \<notin> set v" using pieces_char [of 92 slash v] assms portable_no_backslash by (auto simp: list_all_iff)
  show "\<not> str_starts_with v [slash]" using plain by (rule plain_components)
  show "\<not> ends_with v [slash]"
  proof
    assume "ends_with v [slash]"
    then obtain u where "v = u @ [slash]" by (metis append_butlast_last_id ends_slash)
    then have "[] \<in> set (split_char slash v)" using split_char_append_sep [of slash u "[]"] by simp
    then show False using plain by (auto simp: list_all_iff plain_piece_def)
  qed
qed

lemma unsafe_component_iff: "unsafe_component sp c \<longleftrightarrow> \<not> portable_component c"
  using portable_plain [of c] by (auto simp: unsafe_component_def portable_valid plain_piece_def)

lemma import_components_valid:
  "validate_import_components cs sp = Inr () \<longleftrightarrow> list_all (\<lambda>c. c = dot \<or> c = dotdot \<or> portable_component c) cs"
  by (induction cs) (auto simp: portable_valid portable_component_def dot_def dotdot_def lit_Cons)

lemma portable_path_iff:
  "reject_unsafe_relative_path kind v sp =
     (if list_all portable_component (split_char slash v) then Inr () else Inl (unsafe_path_error kind sp))"
  using portable_pieces [of v] by (auto simp: reject_unsafe_relative_path_def list_ex_iff list_all_iff unsafe_component_iff)

lemma portable_import_iff:
  "reject_unsafe_dependency_import v sp =
     (if list_all portable_component (split_char slash v) then Inr () else Inl (unsafe_import_error sp))"
proof -
  have "validate_package_import_text v sp = Inr ()" if "list_all portable_component (split_char slash v)"
    using portable_pieces [OF that] that import_components_valid [of "split_char slash v" sp]
    by (auto simp: validate_package_import_text_def list_all_iff)
  moreover have "list_all portable_component (split_char slash v)"
    if "\<not> isl (validate_package_import_text v sp)" "\<not> list_ex (\<lambda>c. c = dot \<or> c = dotdot) (split_char slash v)"
  proof -
    have "validate_import_components (split_char slash v) sp = Inr ()"
      using that(1) by (cases "validate_import_components (split_char slash v) sp")
        (auto simp: validate_package_import_text_def split: if_splits)
    then show ?thesis using that(2) by (auto simp: import_components_valid list_all_iff list_ex_iff)
  qed
  moreover have "\<not> list_ex (\<lambda>c. c = dot \<or> c = dotdot) (split_char slash v)" if "list_all portable_component (split_char slash v)"
    using that portable_plain by (auto simp: list_all_iff list_ex_iff plain_piece_def)
  ultimately show ?thesis by (auto simp: reject_unsafe_dependency_import_def)
qed

text \<open>C11: The paths that a manifest and an import may use are exactly the portable ones, and a portable path stays
  below the directory it is joined to: it is accepted if and only if every piece between its slashes is a
  non-empty portable name, every other path is rejected with the documented error, and joining an accepted path
  to any directory names the pieces one below the other inside that directory, wherever the process runs.\<close>

theorem package_paths_confined:
  "reject_unsafe_relative_path kind v sp =
     (if list_all portable_component (split_char slash v) then Inr () else Inl (unsafe_path_error kind sp))
   \<and> reject_unsafe_dependency_import v sp =
     (if list_all portable_component (split_char slash v) then Inr () else Inl (unsafe_import_error sp))
   \<and> (if reject_unsafe_relative_path kind v sp = Inr ()
      then resolve cwd (path_join base v) = resolve cwd base @ split_char slash v
      else True)"
proof -
  have "resolve cwd (path_join base v) = resolve cwd base @ split_char slash v"
    if "list_all portable_component (split_char slash v)"
    by (rule resolve_join_plain) (use that portable_plain in \<open>auto simp: list_all_iff\<close>)
  then show ?thesis by (simp add: portable_path_iff portable_import_iff)
qed

text \<open>Device names and their extensions are refused, a name that only contains one is not.\<close>

lemma package_paths_examples:
  "reject_unsafe_relative_path (lit ''root'') (lit ''lib/console/a.b'') Span_default = Inr ()"
  "isl (reject_unsafe_relative_path (lit ''root'') (lit ''lib/con.ku'') Span_default)"
  "isl (reject_unsafe_relative_path (lit ''root'') (lit ''lib/../..'') Span_default)"
  "isl (reject_unsafe_relative_path (lit ''root'') (lit ''lib//x'') Span_default)"
  by code_simp+

end
