(* ===== verification/Package_Archive.thy ===== *)
theory Package_Archive
  imports Package_Paths Budgets "HOL-Library.Sublist"
begin

text \<open>
  Unpacking a package archive and summarising its tree (\<open>src/src/package.rs\<close>,
  \<open>unpack_package_archive_with_expected_root\<close> and \<open>package_archive_tree_summary_with_budget\<close>): both walk the
  entries of a \<open>.tar.zst\<close> file that comes from the network. The decoder and the tar reader are libraries: what
  they deliver is a parameter, as are the clock, external failures of the file system, the case mapping of
  Unicode and the hash function. The file system is a map from places to directories and files without links.
\<close>

section \<open>State and failure\<close>

text \<open>Effects on the file system stay when a later step fails, so the state is returned with errors, too.\<close>

type_synonym ('s, 'a) am = "'s \<Rightarrow> (ku_error fault + 'a) \<times> 's"

definition areturn :: "'a \<Rightarrow> ('s, 'a) am" where "areturn x s = (Inr x, s)"
definition araise :: "ku_error \<Rightarrow> ('s, 'a) am" where "araise e s = (Inl (Raise e), s)"
definition aget :: "('s \<Rightarrow> 'a) \<Rightarrow> ('s, 'a) am" where "aget f s = (Inr (f s), s)"
definition amodify :: "('s \<Rightarrow> 's) \<Rightarrow> ('s, unit) am" where "amodify f s = (Inr (), f s)"

definition abind :: "('s, 'a) am \<Rightarrow> ('a \<Rightarrow> ('s, 'b) am) \<Rightarrow> ('s, 'b) am" where
  "abind m f s = (case m s of (Inl e, s') \<Rightarrow> (Inl e, s') | (Inr x, s') \<Rightarrow> f x s')"

definition aguard :: "bool \<Rightarrow> ku_error \<Rightarrow> ('s, unit) am" where
  "aguard b e = (if b then areturn () else araise e)"

definition alift :: "ku_error + 'a \<Rightarrow> ('s, 'a) am" where
  "alift r = (case r of Inl e \<Rightarrow> araise e | Inr x \<Rightarrow> areturn x)"

definition aexpect :: "'a option \<Rightarrow> ('s, 'a) am" where
  "aexpect o' s = (case o' of None \<Rightarrow> (Inl RustPanic, s) | Some x \<Rightarrow> (Inr x, s))"

section \<open>The file system\<close>

type_synonym bytes = "8 word list"

datatype node = Dir | File bytes

type_synonym file_system = "ustring list \<Rightarrow> node option"

definition is_file_node :: "node option \<Rightarrow> bool" where
  "is_file_node n = (case n of Some (File _) \<Rightarrow> True | _ \<Rightarrow> False)"

text \<open>\<open>fs::create_dir_all\<close>, \<open>fs::File::create\<close> and \<open>write_all\<close> on the created file.\<close>

definition create_dir_all :: "ustring list \<Rightarrow> file_system \<Rightarrow> file_system option" where
  "create_dir_all p fs =
     (if list_ex (\<lambda>q. is_file_node (fs q)) (prefixes p) then None
      else Some (\<lambda>q. if prefix q p then Some Dir else fs q))"

definition file_create :: "ustring list \<Rightarrow> file_system \<Rightarrow> file_system option" where
  "file_create p fs =
     (if p = [] \<or> fs (butlast p) \<noteq> Some Dir \<or> fs p = Some Dir then None else Some (fs(p \<mapsto> File [])))"

definition file_append :: "ustring list \<Rightarrow> bytes \<Rightarrow> file_system \<Rightarrow> file_system option" where
  "file_append p bs fs = (case fs p of Some (File c) \<Rightarrow> Some (fs(p \<mapsto> File (c @ bs))) | _ \<Rightarrow> None)"

section \<open>What the libraries deliver\<close>

datatype entry_type = ET_Dir | ET_File | ET_Other

text \<open>An entry of the archive: its path, or why it cannot be read; \<open>None\<close> is a path that is not UTF-8. The
  contents come in the chunks that successive reads return; an empty chunk is the end.\<close>

record tar_entry =
  te_type :: entry_type
  te_path :: "ustring + ustring option"
  te_size :: "ustring + nat"
  te_chunks :: "(ustring + bytes) list"

record archive_env =
  ae_cwd :: "ustring list"
  ae_archive :: ustring
  ae_len :: "ustring + nat"
  ae_open :: "ustring option"
  ae_decoder :: "ustring option"
  ae_window :: "ustring option"
  ae_entries :: "ustring + (ustring + tar_entry) list"
  ae_expired :: "nat \<Rightarrow> bool"
  ae_fault :: "nat \<Rightarrow> bool"
  ae_io_text :: "nat \<Rightarrow> ustring"
  ae_lower :: "ustring \<Rightarrow> ustring"
  ae_sha256 :: "bytes \<Rightarrow> bytes"

section \<open>Unpacking\<close>

record unpacking =
  un_root :: "ustring option"
  un_paths :: "ustring set"
  un_total :: nat
  un_seen :: nat
  un_manifest :: bool
  un_fs :: file_system
  un_checks :: nat
  un_ops :: nat

definition u64_MAX :: nat where "u64_MAX = 2 ^ 64 - 1"

definition saturating_add :: "nat \<Rightarrow> nat \<Rightarrow> nat" where
  "saturating_add a b = min u64_MAX (a + b)"

definition quoted :: "ustring \<Rightarrow> ustring" where
  "quoted s = [ch CHR 0x27] @ s @ [ch CHR 0x27]"

definition invalid_archive_error :: "ustring \<Rightarrow> span \<Rightarrow> ku_error" where
  "invalid_archive_error m sp = package_error (lit ''invalid_package_archive'') m sp"

definition archive_limit_error :: "ustring \<Rightarrow> span \<Rightarrow> ku_error" where
  "archive_limit_error m sp = package_error (lit ''package_archive_limit'') m sp"

definition ensure_package_archive_deadline :: "archive_env \<Rightarrow> span \<Rightarrow> (unpacking, unit) am" where
  "ensure_package_archive_deadline env sp =
     abind (aget un_checks) (\<lambda>n.
     abind (amodify (\<lambda>s. s\<lparr>un_checks := n + 1\<rparr>)) (\<lambda>_.
     aguard (\<not> ae_expired env n) (package_error (lit ''package_archive_timeout'')
       (lit ''package archive validation exceeded its request deadline'') sp)))"

text \<open>One operation of the file system: it fails when its own conditions do not hold, or from outside.\<close>

definition fs_op :: "archive_env \<Rightarrow> (file_system \<Rightarrow> file_system option) \<Rightarrow> (ustring \<Rightarrow> ku_error) \<Rightarrow> (unpacking, unit) am" where
  "fs_op env f err =
     abind (aget un_ops) (\<lambda>n.
     abind (amodify (\<lambda>s. s\<lparr>un_ops := n + 1\<rparr>)) (\<lambda>_.
     abind (aget un_fs) (\<lambda>fs.
     if ae_fault env n then araise (err (ae_io_text env n))
     else case f fs of
       None \<Rightarrow> araise (err (ae_io_text env n))
     | Some fs' \<Rightarrow> amodify (\<lambda>s. s\<lparr>un_fs := fs'\<rparr>))))"

definition create_directory_error :: "ustring \<Rightarrow> ustring \<Rightarrow> ku_error" where
  "create_directory_error p e = message_error (lit ''failed to create package archive directory '' @ quoted p @ lit '': '' @ e)"

fun copy_archive_file ::
    "archive_env \<Rightarrow> ustring list \<Rightarrow> nat \<Rightarrow> span \<Rightarrow> nat \<Rightarrow> (ustring + bytes) list \<Rightarrow> (unpacking, nat) am" where
  "copy_archive_file env target max_bytes sp copied [] =
     abind (ensure_package_archive_deadline env sp) (\<lambda>_. areturn copied)"
| "copy_archive_file env target max_bytes sp copied (chunk # chunks) =
     abind (ensure_package_archive_deadline env sp) (\<lambda>_.
     case chunk of
       Inl e \<Rightarrow> araise (invalid_archive_error (lit ''failed to read package archive file: '' @ e) sp)
     | Inr bs \<Rightarrow>
         if bs = [] then areturn copied
         else let copied' = saturating_add copied (length bs) in
           if max_bytes < copied' then
             araise (archive_limit_error (lit ''package archive file exceeds '' @ nat_to_string max_bytes @ lit '' bytes'') sp)
           else abind (fs_op env (file_append target bs)
                  (\<lambda>e. message_error (lit ''failed to write package archive file: '' @ e))) (\<lambda>_.
                copy_archive_file env target max_bytes sp copied' chunks))"

definition unpack_file ::
    "archive_env \<Rightarrow> archive_policy \<Rightarrow> ustring \<Rightarrow> ustring \<Rightarrow> tar_entry \<Rightarrow> span \<Rightarrow> (unpacking, unit) am" where
  "unpack_file env policy output_dir relative entry sp =
     (let target = path_join output_dir relative; place = resolve (ae_cwd env) target in
      case te_size entry of
        Inl e \<Rightarrow> araise (invalid_archive_error (lit ''failed to read package archive file size: '' @ e) sp)
      | Inr file_size \<Rightarrow>
          abind (aguard (file_size \<le> max_file_bytes policy)
            (archive_limit_error (lit ''package archive file '' @ quoted relative @ lit '' exceeds ''
               @ nat_to_string (max_file_bytes policy) @ lit '' bytes'') sp)) (\<lambda>_.
          abind (amodify (\<lambda>s. s\<lparr>un_total := saturating_add (un_total s) file_size\<rparr>)) (\<lambda>_.
          abind (aget un_total) (\<lambda>total_unpacked.
          abind (aguard (total_unpacked \<le> max_unpacked_bytes policy)
            (archive_limit_error (lit ''package archive exceeds unpacked limit of ''
               @ nat_to_string (max_unpacked_bytes policy) @ lit '' bytes'') sp)) (\<lambda>_.
          abind (if path_components relative = path_components MANIFEST_FILE
                 then amodify (\<lambda>s. s\<lparr>un_manifest := True\<rparr>) else areturn ()) (\<lambda>_.
          abind (case path_parent target of
              None \<Rightarrow> areturn ()
            | Some parent \<Rightarrow> fs_op env (create_dir_all (resolve (ae_cwd env) parent)) (create_directory_error parent)) (\<lambda>_.
          abind (fs_op env (file_create place)
            (\<lambda>e. message_error (lit ''failed to create package archive file '' @ quoted target @ lit '': '' @ e))) (\<lambda>_.
          abind (copy_archive_file env place (max_file_bytes policy) sp 0 (te_chunks entry)) (\<lambda>_. areturn ())))))))))"

definition portable_path :: "ustring \<Rightarrow> ustring" where
  "portable_path relative = map (\<lambda>c. if c = 92 then slash else c) relative"

text \<open>The part of the loop body behind the checks on the path.\<close>

definition unpack_placed ::
    "archive_env \<Rightarrow> archive_policy \<Rightarrow> ustring \<Rightarrow> span \<Rightarrow> ustring \<Rightarrow> tar_entry \<Rightarrow> (unpacking, unit) am" where
  "unpack_placed env policy output_dir sp relative entry =
     (let portable = ae_lower env (portable_path relative) in
      abind (aget un_paths) (\<lambda>paths.
      abind (amodify (\<lambda>s. s\<lparr>un_paths := insert portable paths\<rparr>)) (\<lambda>_.
      abind (aguard (portable \<notin> paths) (package_error (lit ''duplicate_archive_path'')
        (lit ''package archive contains a duplicate or case-conflicting path '' @ quoted relative) sp)) (\<lambda>_.
      if te_type entry = ET_Dir then
        fs_op env (create_dir_all (resolve (ae_cwd env) (path_join output_dir relative)))
          (create_directory_error (path_join output_dir relative))
      else unpack_file env policy output_dir relative entry sp))))"

definition unpack_entry ::
    "archive_env \<Rightarrow> archive_policy \<Rightarrow> ustring \<Rightarrow> ustring option \<Rightarrow> span \<Rightarrow> ustring + tar_entry \<Rightarrow> (unpacking, unit) am" where
  "unpack_entry env policy output_dir expected_root sp item =
     abind (ensure_package_archive_deadline env sp) (\<lambda>_.
     case item of
       Inl e \<Rightarrow> araise (invalid_archive_error (lit ''failed to read package archive entry: '' @ e) sp)
     | Inr entry \<Rightarrow>
         abind (amodify (\<lambda>s. s\<lparr>un_seen := un_seen s + 1\<rparr>)) (\<lambda>_.
         abind (aget un_seen) (\<lambda>seen.
         abind (aguard (seen \<le> max_files policy)
           (archive_limit_error (lit ''package archive exceeds entry limit of '' @ nat_to_string (max_files policy)) sp)) (\<lambda>_.
         abind (aguard (te_type entry \<noteq> ET_Other) (package_error (lit ''unsupported_archive_entry'')
           (lit ''package archives may only contain regular files and directories'') sp)) (\<lambda>_.
         case te_path entry of
           Inl e \<Rightarrow> araise (invalid_archive_error (lit ''failed to read package archive path: '' @ e) sp)
         | Inr path \<Rightarrow>
             abind (aget un_root) (\<lambda>root_name.
             abind (alift (validate_archive_entry_path path root_name policy sp)) (\<lambda>(relative, root_name).
             abind (amodify (\<lambda>s. s\<lparr>un_root := root_name\<rparr>)) (\<lambda>_.
             abind (case expected_root of
                 None \<Rightarrow> areturn ()
               | Some expected \<Rightarrow>
                   abind (aexpect root_name) (\<lambda>actual.
                   aguard (actual = expected) (package_error (lit ''package_identity_mismatch'')
                     (lit ''package archive root '' @ quoted actual @ lit '' does not match expected root '' @ quoted expected) sp)))
               (\<lambda>_.
             if relative = [] then
               aguard (te_type entry = ET_Dir) (invalid_archive_error (lit ''package archive root must be a directory'') sp)
             else
               abind (alift (validate_archive_top_level relative sp)) (\<lambda>_.
               unpack_placed env policy output_dir sp relative entry))))))))))"

fun unpack_entries ::
    "archive_env \<Rightarrow> archive_policy \<Rightarrow> ustring \<Rightarrow> ustring option \<Rightarrow> span \<Rightarrow> (ustring + tar_entry) list \<Rightarrow> (unpacking, unit) am" where
  "unpack_entries env policy output_dir expected_root sp [] = areturn ()"
| "unpack_entries env policy output_dir expected_root sp (item # items) =
     abind (unpack_entry env policy output_dir expected_root sp item) (\<lambda>_.
     unpack_entries env policy output_dir expected_root sp items)"

definition unpack_package_archive_with_expected_root ::
    "archive_env \<Rightarrow> ustring \<Rightarrow> archive_policy \<Rightarrow> ustring option \<Rightarrow> span \<Rightarrow> (unpacking, ustring) am" where
  "unpack_package_archive_with_expected_root env output_dir policy expected_root sp =
     abind (ensure_package_archive_deadline env sp) (\<lambda>_.
     abind (alift (validate_package_archive_policy policy sp)) (\<lambda>_.
     abind (case ae_len env of
         Inl e \<Rightarrow> araise (invalid_archive_error (lit ''failed to read package archive '' @ quoted (ae_archive env) @ lit '': '' @ e) sp)
       | Inr n \<Rightarrow> aguard (n \<le> max_compressed_bytes policy) (archive_limit_error
           (lit ''package archive exceeds compressed limit of '' @ nat_to_string (max_compressed_bytes policy) @ lit '' bytes'') sp)) (\<lambda>_.
     abind (aget un_fs) (\<lambda>fs.
     abind (aguard (fs (resolve (ae_cwd env) output_dir) = None) (package_error (lit ''package_archive_collision'')
       (lit ''package unpack destination already exists '' @ quoted output_dir) sp)) (\<lambda>_.
     abind (fs_op env (create_dir_all (resolve (ae_cwd env) output_dir)) (\<lambda>e. message_error
       (lit ''failed to create package unpack destination '' @ quoted output_dir @ lit '': '' @ e))) (\<lambda>_.
     abind (case ae_open env of None \<Rightarrow> areturn () | Some e \<Rightarrow> araise (invalid_archive_error
       (lit ''failed to open package archive '' @ quoted (ae_archive env) @ lit '': '' @ e) sp)) (\<lambda>_.
     abind (case ae_decoder env of None \<Rightarrow> areturn () | Some e \<Rightarrow> araise (invalid_archive_error
       (lit ''package archive '' @ quoted (ae_archive env) @ lit '' is not valid .tar.zst: '' @ e) sp)) (\<lambda>_.
     abind (case ae_window env of None \<Rightarrow> areturn () | Some e \<Rightarrow> araise (invalid_archive_error
       (lit ''failed to apply package zstd window limit: '' @ e) sp)) (\<lambda>_.
     case ae_entries env of
       Inl e \<Rightarrow> araise (invalid_archive_error (lit ''failed to read package archive entries: '' @ e) sp)
     | Inr items \<Rightarrow>
         abind (unpack_entries env policy output_dir expected_root sp items) (\<lambda>_.
         abind (aget un_root) (\<lambda>root_name.
         abind (aguard (root_name \<noteq> None) (invalid_archive_error (lit ''package archive is empty'') sp)) (\<lambda>_.
         abind (aget un_manifest) (\<lambda>saw_manifest.
         abind (aguard saw_manifest (package_error (lit ''missing_package_manifest'')
           (lit ''package archive root must contain ku.mod'') sp)) (\<lambda>_.
         areturn output_dir))))))))))))))"

definition unpacking_start :: "file_system \<Rightarrow> unpacking" where
  "unpacking_start fs = \<lparr>un_root = None, un_paths = {}, un_total = 0, un_seen = 0, un_manifest = False, un_fs = fs,
     un_checks = 0, un_ops = 0\<rparr>"

definition unpack_package_archive ::
    "archive_env \<Rightarrow> ustring \<Rightarrow> archive_policy \<Rightarrow> span \<Rightarrow> (unpacking, ustring) am" where
  "unpack_package_archive env output_dir policy sp =
     unpack_package_archive_with_expected_root env output_dir policy None sp"

definition unpack_package_archive_for_identity ::
    "archive_env \<Rightarrow> ustring \<Rightarrow> archive_policy \<Rightarrow> ustring \<Rightarrow> ustring \<Rightarrow> span \<Rightarrow> (unpacking, ustring) am" where
  "unpack_package_archive_for_identity env output_dir policy package_name version sp =
     unpack_package_archive_with_expected_root env output_dir policy (Some (package_name @ lit ''-'' @ version)) sp"

section \<open>The summary of a tree\<close>

text \<open>\<open>str::as_bytes\<close>.\<close>

definition utf8_char :: "uchar \<Rightarrow> bytes" where
  "utf8_char c =
     (if c < 0x80 then [of_nat c]
      else if c < 0x800 then [of_nat (0xC0 + c div 64), of_nat (0x80 + c mod 64)]
      else if c < 0x10000 then [of_nat (0xE0 + c div 4096), of_nat (0x80 + c div 64 mod 64), of_nat (0x80 + c mod 64)]
      else [of_nat (0xF0 + c div 262144), of_nat (0x80 + c div 4096 mod 64), of_nat (0x80 + c div 64 mod 64),
            of_nat (0x80 + c mod 64)])"

definition utf8_encode :: "ustring \<Rightarrow> bytes" where
  "utf8_encode s = concat (map utf8_char s)"

definition u64_le_bytes :: "nat \<Rightarrow> bytes" where
  "u64_le_bytes n = map (\<lambda>i. of_nat (n div 256 ^ i)) [0..<8]"

definition hex_bytes :: "bytes \<Rightarrow> ustring" where
  "hex_bytes bs = concat (map (\<lambda>b. [hex_digit (unat b div 16), hex_digit (unat b mod 16)]) bs)"

record tree_record =
  tr_path :: ustring
  tr_size :: nat
  tr_digest :: bytes

record tree_summary =
  tm_checksum :: ustring
  tm_bytes :: nat

record tree_scan =
  sc_root :: "ustring option"
  sc_paths :: "ustring set"
  sc_records :: "tree_record list"
  sc_seen :: nat
  sc_bytes :: nat
  sc_budget :: "nat option"
  sc_checks :: nat

text \<open>What is hashed: the records in the order of their paths.\<close>

definition tree_hash_input :: "tree_record list \<Rightarrow> bytes" where
  "tree_hash_input records = concat (map (\<lambda>r. utf8_encode (lit ''file'') @ [0] @ utf8_encode (tr_path r) @ [0]
     @ u64_le_bytes (tr_size r) @ tr_digest r) (sort_key tr_path records))"

definition finish_package_tree_hash :: "archive_env \<Rightarrow> tree_record list \<Rightarrow> ustring" where
  "finish_package_tree_hash env records = hex_bytes (ae_sha256 env (tree_hash_input records))"

definition cache_gc_budget_exhausted_error :: ku_error where
  "cache_gc_budget_exhausted_error = package_error (lit ''cache_gc_budget_exhausted'')
     (lit ''package cache GC exhausted its bounded scan budget'') Span_default"

definition check_deadline :: "archive_env \<Rightarrow> (tree_scan, unit) am" where
  "check_deadline env =
     abind (aget sc_checks) (\<lambda>n.
     abind (amodify (\<lambda>s. s\<lparr>sc_checks := n + 1\<rparr>)) (\<lambda>_.
     aguard (\<not> ae_expired env n) cache_gc_budget_exhausted_error))"

definition consume_or_error :: "archive_env \<Rightarrow> (tree_scan, unit) am" where
  "consume_or_error env =
     abind (aget sc_budget) (\<lambda>budget. case budget of
       None \<Rightarrow> areturn ()
     | Some remaining \<Rightarrow>
         abind (aguard (0 < remaining) cache_gc_budget_exhausted_error) (\<lambda>_.
         abind (check_deadline env) (\<lambda>_.
         amodify (\<lambda>s. s\<lparr>sc_budget := Some (remaining - 1)\<rparr>))))"

definition check_scan_deadline :: "archive_env \<Rightarrow> (tree_scan, unit) am" where
  "check_scan_deadline env =
     abind (aget sc_budget) (\<lambda>budget. if budget = None then areturn () else check_deadline env)"

text \<open>Reading the contents of an entry; the result is the contents that were hashed.\<close>

fun hash_archive_file ::
    "archive_env \<Rightarrow> archive_policy \<Rightarrow> nat \<Rightarrow> span \<Rightarrow> nat \<Rightarrow> bytes \<Rightarrow> (ustring + bytes) list \<Rightarrow> (tree_scan, nat \<times> bytes) am" where
  "hash_archive_file env policy file_size sp read_bytes hashed [] =
     abind (check_scan_deadline env) (\<lambda>_. areturn (read_bytes, hashed))"
| "hash_archive_file env policy file_size sp read_bytes hashed (chunk # chunks) =
     abind (check_scan_deadline env) (\<lambda>_.
     case chunk of
       Inl e \<Rightarrow> araise (invalid_archive_error (lit ''failed to read package archive file: '' @ e) sp)
     | Inr bs \<Rightarrow>
         if bs = [] then areturn (read_bytes, hashed)
         else let read_bytes' = saturating_add read_bytes (length bs) in
           if file_size < read_bytes' \<or> max_file_bytes policy < read_bytes' then
             araise (archive_limit_error (lit ''package archive file exceeds declared or configured size'') sp)
           else hash_archive_file env policy file_size sp read_bytes' (hashed @ bs) chunks)"

definition summarize_file ::
    "archive_env \<Rightarrow> archive_policy \<Rightarrow> ustring \<Rightarrow> tar_entry \<Rightarrow> span \<Rightarrow> (tree_scan, unit) am" where
  "summarize_file env policy relative entry sp = (case te_size entry of
       Inl e \<Rightarrow> araise (invalid_archive_error (lit ''failed to read package archive file size: '' @ e) sp)
     | Inr file_size \<Rightarrow>
         abind (amodify (\<lambda>s. s\<lparr>sc_bytes := saturating_add (sc_bytes s) file_size\<rparr>)) (\<lambda>_.
         abind (aget sc_bytes) (\<lambda>total_bytes.
         abind (aguard (file_size \<le> max_file_bytes policy \<and> total_bytes \<le> max_unpacked_bytes policy)
           (archive_limit_error (lit ''package archive exceeds file count or size limits'') sp)) (\<lambda>_.
         abind (hash_archive_file env policy file_size sp 0 [] (te_chunks entry)) (\<lambda>(read_bytes, hashed).
         abind (aguard (read_bytes = file_size) (invalid_archive_error (lit ''package archive file is truncated'') sp)) (\<lambda>_.
         amodify (\<lambda>s. s\<lparr>sc_records := sc_records s @
           [\<lparr>tr_path = relative, tr_size = file_size, tr_digest = ae_sha256 env hashed\<rparr>]\<rparr>)))))))"

definition summarize_entry ::
    "archive_env \<Rightarrow> archive_policy \<Rightarrow> span \<Rightarrow> ustring + tar_entry \<Rightarrow> (tree_scan, unit) am" where
  "summarize_entry env policy sp item =
     abind (consume_or_error env) (\<lambda>_.
     case item of
       Inl e \<Rightarrow> araise (invalid_archive_error (lit ''failed to read package archive entry: '' @ e) sp)
     | Inr entry \<Rightarrow>
         abind (amodify (\<lambda>s. s\<lparr>sc_seen := sc_seen s + 1\<rparr>)) (\<lambda>_.
         abind (aget sc_seen) (\<lambda>seen.
         abind (aguard (seen \<le> max_files policy)
           (archive_limit_error (lit ''package archive exceeds entry count limit'') sp)) (\<lambda>_.
         abind (aguard (te_type entry \<noteq> ET_Other) (package_error (lit ''unsupported_archive_entry'')
           (lit ''package archives may only contain regular files and directories'') sp)) (\<lambda>_.
         case te_path entry of
           Inl e \<Rightarrow> araise (invalid_archive_error (lit ''failed to read package archive path: '' @ e) sp)
         | Inr path \<Rightarrow>
             abind (aget sc_root) (\<lambda>root_name.
             abind (alift (validate_archive_entry_path path root_name policy sp)) (\<lambda>(relative, root_name).
             abind (amodify (\<lambda>s. s\<lparr>sc_root := root_name\<rparr>)) (\<lambda>_.
             if relative = [] then
               aguard (te_type entry = ET_Dir) (invalid_archive_error (lit ''package archive root must be a directory'') sp)
             else
               abind (alift (validate_archive_top_level relative sp)) (\<lambda>_.
               let relative = portable_path relative in
               abind (aget sc_paths) (\<lambda>paths.
               abind (amodify (\<lambda>s. s\<lparr>sc_paths := insert (ae_lower env relative) paths\<rparr>)) (\<lambda>_.
               abind (aguard (ae_lower env relative \<notin> paths) (package_error (lit ''duplicate_archive_path'')
                 (lit ''package archive contains duplicate path '' @ quoted relative) sp)) (\<lambda>_.
               if te_type entry = ET_Dir then areturn ()
               else summarize_file env policy relative entry sp))))))))))))"

fun summarize_entries :: "archive_env \<Rightarrow> archive_policy \<Rightarrow> span \<Rightarrow> (ustring + tar_entry) list \<Rightarrow> (tree_scan, unit) am" where
  "summarize_entries env policy sp [] = areturn ()"
| "summarize_entries env policy sp (item # items) =
     abind (summarize_entry env policy sp item) (\<lambda>_. summarize_entries env policy sp items)"

definition scan_start :: "nat option \<Rightarrow> tree_scan" where
  "scan_start gc_budget = \<lparr>sc_root = None, sc_paths = {}, sc_records = [], sc_seen = 0, sc_bytes = 0,
     sc_budget = gc_budget, sc_checks = 0\<rparr>"

definition package_archive_tree_summary_with_budget ::
    "archive_env \<Rightarrow> archive_policy \<Rightarrow> span \<Rightarrow> (tree_scan, tree_summary) am" where
  "package_archive_tree_summary_with_budget env policy sp =
     abind (alift (validate_package_archive_policy policy sp)) (\<lambda>_.
     abind (case ae_len env of
         Inl e \<Rightarrow> araise (invalid_archive_error (lit ''failed to inspect package archive '' @ quoted (ae_archive env) @ lit '': '' @ e) sp)
       | Inr n \<Rightarrow> aguard (n \<le> max_compressed_bytes policy)
           (archive_limit_error (lit ''package archive exceeds compressed size limit'') sp)) (\<lambda>_.
     abind (case ae_open env of None \<Rightarrow> areturn () | Some e \<Rightarrow> araise (invalid_archive_error
       (lit ''failed to open package archive '' @ quoted (ae_archive env) @ lit '': '' @ e) sp)) (\<lambda>_.
     abind (case ae_decoder env of None \<Rightarrow> areturn () | Some e \<Rightarrow> araise (invalid_archive_error
       (lit ''package archive is not valid .tar.zst: '' @ e) sp)) (\<lambda>_.
     abind (case ae_window env of None \<Rightarrow> areturn () | Some e \<Rightarrow> araise (invalid_archive_error
       (lit ''failed to apply package zstd window limit: '' @ e) sp)) (\<lambda>_.
     case ae_entries env of
       Inl e \<Rightarrow> araise (invalid_archive_error (lit ''failed to read package archive entries: '' @ e) sp)
     | Inr items \<Rightarrow>
         abind (summarize_entries env policy sp items) (\<lambda>_.
         abind (aget sc_root) (\<lambda>root_name.
         abind (aget sc_records) (\<lambda>records.
         abind (aguard (root_name \<noteq> None \<and> list_ex (\<lambda>r. tr_path r = MANIFEST_FILE) records)
           (package_error (lit ''missing_package_manifest'') (lit ''package archive root must contain ku.mod'') sp)) (\<lambda>_.
         abind (aget sc_bytes) (\<lambda>total_bytes.
         areturn \<lparr>tm_checksum = finish_package_tree_hash env records, tm_bytes = total_bytes\<rparr>))))))))))"

end
