(* ===== verification/Package_Unpack.thy ===== *)
theory Package_Unpack
  imports Package_Archive
begin

text \<open>
  What unpacking guarantees. The proofs follow the file system through the operations: an invariant on the tree
  below the destination, one lemma per operation of the file system, and a weakest-precondition calculus in which
  postconditions also see the state of a failed run.
\<close>

section \<open>Weakest preconditions with effects that stay\<close>

definition awp :: "('s, 'a) am \<Rightarrow> (ku_error fault + 'a \<Rightarrow> 's \<Rightarrow> bool) \<Rightarrow> 's \<Rightarrow> bool" where
  "awp m Q s = (case m s of (r, s') \<Rightarrow> Q r s')"

named_theorems awp_simps \<open>equations of the calculus with effects that stay\<close>

lemma awp_return [awp_simps]: "awp (areturn x) Q s = Q (Inr x) s"
  by (simp add: awp_def areturn_def)

lemma awp_raise [awp_simps]: "awp (araise e) Q s = Q (Inl (Raise e)) s"
  by (simp add: awp_def araise_def)

lemma awp_get [awp_simps]: "awp (aget f) Q s = Q (Inr (f s)) s"
  by (simp add: awp_def aget_def)

lemma awp_modify [awp_simps]: "awp (amodify f) Q s = Q (Inr ()) (f s)"
  by (simp add: awp_def amodify_def)

lemma awp_bind [awp_simps]:
  "awp (abind m f) Q s = awp m (\<lambda>r s'. case r of Inl e \<Rightarrow> Q (Inl e) s' | Inr x \<Rightarrow> awp (f x) Q s') s"
  by (auto simp: awp_def abind_def split: prod.splits sum.splits)

lemma awp_guard [awp_simps]: "awp (aguard b e) Q s = (if b then Q (Inr ()) s else Q (Inl (Raise e)) s)"
  by (simp add: aguard_def awp_simps)

lemma awp_lift [awp_simps]: "awp (alift r) Q s = (case r of Inl e \<Rightarrow> Q (Inl (Raise e)) s | Inr x \<Rightarrow> Q (Inr x) s)"
  by (cases r) (simp_all add: alift_def awp_simps)

lemma awp_expect [awp_simps]:
  "awp (aexpect o') Q s = (case o' of None \<Rightarrow> Q (Inl RustPanic) s | Some x \<Rightarrow> Q (Inr x) s)"
  by (cases o') (simp_all add: aexpect_def awp_def)

lemma awp_mono: "awp m Q s \<Longrightarrow> (\<And>r s'. Q r s' \<Longrightarrow> R r s') \<Longrightarrow> awp m R s"
  by (auto simp: awp_def split: prod.splits)

section \<open>The parent of a target\<close>

lemma components_trim: "path_components (rev (trim_path_rev t)) = path_components (rev t)"
proof (induction t rule: trim_path_rev.induct)
  case (1 c d cs)
  have "body_components [] = []" "body_components dot = []" by (simp_all add: body_components_def dot_def slash_def lit_Cons)
  then have "path_components (rev cs @ [d, c]) = path_components (rev cs @ [d])" if "c = slash \<or> c = ch CHR ''.'' \<and> d = slash"
    using that components_sep [of "rev cs @ [d]" "[]"] components_sep [of "rev cs" dot] components_sep [of "rev cs" "[]"]
    by (auto simp: dot_def lit_Cons)
  then show ?case using 1 by simp
qed simp_all

lemma trim_name:
  assumes "plain_piece q" "slash \<notin> set q" "t = [] \<or> hd t = slash"
  shows "trim_path_rev (rev q @ t) = rev q @ t"
proof (cases q rule: rev_cases)
  case (snoc u c)
  show ?thesis
  proof (cases u rule: rev_cases)
    case Nil
    then have "c \<noteq> ch CHR ''.''" using assms(1) snoc by (auto simp: plain_piece_def dot_def lit_Cons)
    then show ?thesis using assms snoc Nil by (cases t) auto
  next
    case (snoc u' c')
    then show ?thesis using assms \<open>q = u @ [c]\<close> by auto
  qed
qed (use assms in \<open>simp add: plain_piece_def\<close>)

lemma join_with_snoc: "xs \<noteq> [] \<Longrightarrow> join_with [d] (xs @ [x]) = join_with [d] xs @ d # x"
proof (induction xs)
  case (Cons a xs)
  then show ?case by (cases xs) simp_all
qed simp

lemma join_ends_with_last:
  assumes "pieces \<noteq> []"
  obtains t where "join_with [slash] pieces = t @ last pieces" "t = [] \<or> last t = slash"
proof (cases "butlast pieces = []")
  case True
  then have "pieces = [last pieces]" using assms by (metis append_butlast_last_id append_Nil)
  then have "join_with [slash] pieces = [] @ last pieces" by (metis append_Nil join_with.simps(2))
  then show thesis using that by blast
next
  case False
  have "join_with [slash] pieces = (join_with [slash] (butlast pieces) @ [slash]) @ last pieces"
    using join_with_snoc [OF False, of slash "last pieces"] assms by simp
  then show thesis using that by simp
qed

lemma parent_of_name:
  assumes "plain_piece q" "slash \<notin> set q" "t = [] \<or> last t = slash"
  shows "\<exists>parent. path_parent (t @ q) = Some parent \<and> path_components parent = path_components t"
proof -
  have t: "rev t = [] \<or> hd (rev t) = slash" using assms(3) by (auto simp: hd_rev)
  then have "trim_path_rev (rev (t @ q)) = rev q @ rev t" using assms trim_name [of q "rev t"] by simp
  moreover have "rev q @ rev t \<noteq> []" "rev q @ rev t \<noteq> [slash]"
    using assms by (auto simp: plain_piece_def append_eq_Cons_conv dest: arg_cong [where f = set])
  moreover have "dropWhile (\<lambda>c. c \<noteq> slash) (rev q @ rev t) = rev t"
    using assms(2) t by (cases "rev t") (auto simp: dropWhile_append3)
  ultimately have "path_parent (t @ q) = Some (rev (trim_path_rev (rev t)))"
    by (simp add: path_parent_def Let_def)
  then show ?thesis using components_trim [of "rev t"] by simp
qed

lemma parent_of_target:
  assumes plain: "list_all plain_piece (split_char slash p)"
  obtains parent where "path_parent (path_join base p) = Some parent"
    and "resolve cwd parent = resolve cwd base @ butlast (split_char slash p)"
proof -
  let ?ps = "split_char slash p"
  have ne: "?ps \<noteq> []" by simp
  then have last: "plain_piece (last ?ps)" "slash \<notin> set (last ?ps)"
    using plain split_char_pieces [of "last ?ps" slash p] by (auto simp: list_all_iff)
  obtain t where t: "p = t @ last ?ps" "t = [] \<or> last t = slash"
    using join_ends_with_last [OF ne] by (metis join_split_char)
  have rel: "\<not> str_starts_with p [slash]" by (rule plain_components [OF plain])
  obtain u where u: "path_join base p = u @ last ?ps" "u = [] \<or> last u = slash"
  proof (cases "t = []")
    case True
    then show thesis using that rel t(1) by (simp add: path_join_def ends_slash split: if_splits) (metis append_assoc last_snoc)
  next
    case False
    then show thesis using that rel t by (simp add: path_join_def split: if_splits) (metis append_assoc last_append last_ConsR append_Cons)
  qed
  obtain parent where parent: "path_parent (path_join base p) = Some parent" "path_components parent = path_components u"
    using parent_of_name [OF last u(2)] u(1) by auto
  have "path_components u @ [Normal (last ?ps)] = path_components (path_join base p)"
  proof (cases u rule: rev_cases)
    case (snoc u' c)
    have "body_components [] = []" by (simp add: body_components_def)
    moreover have "body_components (last ?ps) = [Normal (last ?ps)]"
      using last by (simp add: body_components_def split_char_none component_of_def plain_piece_def)
    ultimately show ?thesis using snoc u components_sep [of u' "last ?ps"] components_sep [of u' "[]"] by simp
  next
    case Nil
    then show ?thesis using u last plain_components(1) [of "last ?ps"] by (simp add: split_char_none path_components_def dot_def lit_Cons)
  qed
  also have "\<dots> = path_components base @ map Normal ?ps"
    using components_join [of p base] plain_components [OF plain] ne plain
    by (cases ?ps) (auto simp: plain_piece_def)
  also have "\<dots> = (path_components base @ map Normal (butlast ?ps)) @ [Normal (last ?ps)]"
    using ne by (metis append_assoc append_butlast_last_id list.simps(8,9) map_append)
  finally have "resolve cwd parent = resolve cwd base @ butlast ?ps"
    using parent by (simp add: resolve_def walk_normal)
  then show thesis using that parent by blast
qed

section \<open>Accepted paths\<close>

text \<open>The names in a path, and where below the destination an entry goes.\<close>

definition names :: "ustring \<Rightarrow> ustring list" where
  "names text = concat (map (\<lambda>c. case c of Normal n \<Rightarrow> [n] | _ \<Rightarrow> []) (path_components text))"

lemma archive_components_names:
  "archive_components cs sp = Inr ns \<Longrightarrow> cs = map Normal ns \<and> list_all portable_component ns"
proof (induction cs arbitrary: ns)
  case (Cons c cs)
  then show ?case
    by (cases c; cases "archive_components cs sp")
      (auto simp: portable_valid split: if_splits sum.splits)
qed simp

lemma component_names: "Normal n \<in> set (path_components p) \<Longrightarrow> slash \<notin> set n"
  using split_char_pieces [of _ slash p]
  by (auto simp: path_components_def Let_def component_of_def split: if_splits)

lemma fold_join:
  assumes "list_all (\<lambda>n. n \<noteq> [] \<and> slash \<notin> set n) ns" "ends \<noteq> []" "last ends \<noteq> slash"
  shows "fold (\<lambda>c relative. path_join relative c) ns ends = join_with [slash] (ends # ns)"
  using assms
proof (induction ns arbitrary: ends)
  case (Cons n ns)
  then have "path_join ends n = ends @ slash # n"
    by (cases n) (auto simp: path_join_def ends_slash)
  moreover have "last (ends @ slash # n) \<noteq> slash" using Cons.prems by (cases n rule: rev_cases) auto
  ultimately have "fold (\<lambda>c relative. path_join relative c) (n # ns) ends = join_with [slash] ((ends @ slash # n) # ns)"
    using Cons by simp
  then show ?case by (cases ns) simp_all
qed simp

lemma fold_join_names:
  assumes "list_all portable_component ns" "\<forall>n \<in> set ns. slash \<notin> set n"
  shows "fold (\<lambda>c relative. path_join relative c) ns [] = join_with [slash] ns"
proof (cases ns)
  case (Cons n ns')
  have n: "n \<noteq> []" "slash \<notin> set n" using assms Cons by (auto simp: portable_component_def)
  then have "path_join [] n = n" by (cases n) (auto simp: path_join_def)
  moreover have "last n \<noteq> slash" using n by (metis last_in_set)
  moreover have "list_all (\<lambda>n. n \<noteq> [] \<and> slash \<notin> set n) ns'"
    using assms Cons by (auto simp: list_all_iff portable_component_def)
  ultimately show ?thesis using Cons n fold_join [of ns' n] by simp
qed simp

lemma split_join: "ns \<noteq> [] \<Longrightarrow> \<forall>n \<in> set ns. d \<notin> set n \<Longrightarrow> split_char d (join_with [d] ns) = ns"
proof (induction ns)
  case (Cons n ns)
  then show ?case by (cases ns) (simp_all add: split_char_none split_char_append)
qed simp

definition portable_place :: "archive_policy \<Rightarrow> ustring list \<Rightarrow> bool" where
  "portable_place policy p \<longleftrightarrow> p \<noteq> [] \<and> length p < max_depth policy \<and> hd p \<in> set allowed_top_level \<and> list_all portable_component p"

lemma entry_path_accepted:
  assumes "validate_archive_entry_path path root_name policy sp = Inr (relative, root')"
  obtains t where "path = Some t" "relative = join_with [slash] (tl (names t))" "root' = Some (hd (names t))"
    "root_name = None \<or> root_name = root'" "names t \<noteq> []" "length (names t) \<le> max_depth policy"
    "list_all portable_component (names t)" "\<forall>n \<in> set (names t). slash \<notin> set n"
proof -
  obtain t where t: "path = Some t" using assms by (auto simp: validate_archive_entry_path_def split: option.splits)
  then obtain ns where ns: "archive_components (path_components t) sp = Inr ns"
    using assms by (auto simp: validate_archive_entry_path_def split: if_splits sum.splits)
  then have pc: "path_components t = map Normal ns" and portable: "list_all portable_component ns"
    using archive_components_names by blast+
  have names: "names t = ns" unfolding names_def pc by (induction ns) simp_all
  have no_slash: "\<forall>n \<in> set ns. slash \<notin> set n" using component_names [of _ t] by (simp add: pc)
  then have "fold (\<lambda>c relative. path_join relative c) (tl ns) [] = join_with [slash] (tl ns)"
    using portable by (intro fold_join_names) (cases ns; auto)+
  then show thesis
    using that [OF t] assms t ns portable no_slash
    by (auto simp: validate_archive_entry_path_def names Let_def split: if_splits)
qed

lemma entry_path_root: "validate_archive_entry_path path root_name policy sp \<noteq> Inr (relative, None)"
  using entry_path_accepted by blast

lemma top_level_accepted:
  assumes "validate_archive_top_level relative sp = Inr ()" "relative = join_with [slash] ns" "ns \<noteq> []"
    and "list_all portable_component ns" "\<forall>n \<in> set ns. slash \<notin> set n"
  shows "hd ns \<in> set allowed_top_level"
proof -
  have split: "split_char slash relative = ns" using assms split_join by simp
  then have "path_components relative = map Normal ns"
    using plain_components(1) [of relative] assms(4) portable_plain by (auto simp: list_all_iff)
  then show ?thesis using assms(1,3) by (cases ns) (auto simp: validate_archive_top_level_def split: if_splits)
qed

section \<open>The tree below the destination\<close>

text \<open>Outside the destination only missing directories above it are created.\<close>

definition confined :: "ustring list \<Rightarrow> file_system \<Rightarrow> file_system \<Rightarrow> bool" where
  "confined out fs fs' \<longleftrightarrow>
     (\<forall>p. fs' p = fs p \<or> prefix out p \<or> (prefix p out \<and> fs p = None \<and> fs' p = Some Dir))"

definition node_ok :: "archive_policy \<Rightarrow> ustring list \<Rightarrow> node option \<Rightarrow> bool" where
  "node_ok policy p n = (case n of
       None \<Rightarrow> True
     | Some Dir \<Rightarrow> p = [] \<or> portable_place policy p
     | Some (File c) \<Rightarrow> portable_place policy p \<and> min u64_MAX (length c) \<le> max_file_bytes policy)"

definition files_below :: "ustring list \<Rightarrow> file_system \<Rightarrow> ustring list set" where
  "files_below out fs = {p. is_file_node (fs (out @ p))}"

definition tree_ok :: "archive_policy \<Rightarrow> ustring list \<Rightarrow> nat \<Rightarrow> file_system \<Rightarrow> bool" where
  "tree_ok policy out k fs \<longleftrightarrow> fs out = Some Dir \<and> finite (files_below out fs) \<and> card (files_below out fs) \<le> k
     \<and> (\<forall>p. node_ok policy p (fs (out @ p)))"

lemma is_file_iff: "is_file_node n \<longleftrightarrow> (\<exists>c. n = Some (File c))"
  by (auto simp: is_file_node_def split: option.splits node.splits)

lemma tree_ok_mono: "tree_ok policy out k fs \<Longrightarrow> k \<le> k' \<Longrightarrow> tree_ok policy out k' fs"
  by (auto simp: tree_ok_def)

lemma place_prefix: "portable_place policy p \<Longrightarrow> prefix q p \<Longrightarrow> q \<noteq> [] \<Longrightarrow> portable_place policy q"
  by (auto simp: portable_place_def prefix_def hd_append list_all_iff split: if_splits)

lemma place_butlast: "portable_place policy p \<Longrightarrow> butlast p = [] \<or> portable_place policy (butlast p)"
  using place_prefix prefixeq_butlast by blast

lemma create_dir_all_files:
  assumes "create_dir_all p fs = Some fs'"
  shows "fs' q = Some (File c) \<longleftrightarrow> fs q = Some (File c)"
proof -
  have "\<not> is_file_node (fs q)" if "prefix q p"
    using that assms by (auto simp: create_dir_all_def list_ex_iff in_set_prefixes split: if_splits)
  then show ?thesis using assms by (auto simp: create_dir_all_def is_file_node_def split: if_splits)
qed

lemma files_below_dirs: "create_dir_all p fs = Some fs' \<Longrightarrow> files_below out fs' = files_below out fs"
  by (simp add: files_below_def is_file_iff create_dir_all_files)

lemma create_dir_all_confined:
  assumes "create_dir_all (out @ p) fs = Some fs'" "confined out fs0 fs"
  shows "confined out fs0 fs'"
proof -
  have "fs' q = fs0 q \<or> prefix out q \<or> (prefix q out \<and> fs0 q = None \<and> fs' q = Some Dir)" for q
  proof (cases "prefix q (out @ p)")
    case True
    then have dir: "fs' q = Some Dir" "\<not> is_file_node (fs q)"
      using assms(1) by (auto simp: create_dir_all_def list_ex_iff in_set_prefixes split: if_splits)
    have "prefix q out \<or> prefix out q" using True by (meson prefixI prefix_same_cases)
    then show ?thesis
      using dir assms(2) by (cases "fs q") (auto simp: confined_def is_file_node_def split: node.splits, metis+)
  next
    case False
    then have "fs' q = fs q" using assms(1) by (auto simp: create_dir_all_def split: if_splits)
    then show ?thesis using assms(2) by (auto simp: confined_def)
  qed
  then show ?thesis by (simp add: confined_def)
qed

lemma create_dir_all_tree:
  assumes "create_dir_all (out @ p) fs = Some fs'" "tree_ok policy out k fs" "p = [] \<or> portable_place policy p"
  shows "tree_ok policy out k fs'"
proof -
  have "node_ok policy q (fs' (out @ q))" for q
    using assms place_prefix [of policy p q]
    by (cases "q = []") (auto simp: create_dir_all_def tree_ok_def node_ok_def split: if_splits)
  moreover have "fs' out = Some Dir" using assms by (auto simp: create_dir_all_def split: if_splits)
  ultimately show ?thesis using assms(2) files_below_dirs [OF assms(1)] by (simp add: tree_ok_def)
qed

lemma file_create_tree:
  assumes "file_create (out @ p) fs = Some fs'" "tree_ok policy out k fs" "portable_place policy p"
  shows "tree_ok policy out (Suc k) fs'"
proof -
  have fs': "fs' = fs(out @ p \<mapsto> File [])" using assms by (auto simp: file_create_def split: if_splits)
  then have "files_below out fs' = insert p (files_below out fs)" by (auto simp: files_below_def is_file_node_def)
  moreover have "p \<noteq> []" using assms by (simp add: portable_place_def)
  ultimately show ?thesis
    using assms(2,3) fs' card_insert_le_m1 [of "Suc k" "files_below out fs" p]
    by (auto simp: tree_ok_def node_ok_def)
qed

lemma file_append_tree:
  assumes "file_append (out @ p) bs fs = Some fs'" "tree_ok policy out k fs"
    and "\<And>c. fs (out @ p) = Some (File c) \<Longrightarrow> min u64_MAX (length (c @ bs)) \<le> max_file_bytes policy"
  shows "tree_ok policy out k fs'"
proof -
  obtain c where c: "fs (out @ p) = Some (File c)" "fs' = fs(out @ p \<mapsto> File (c @ bs))"
    using assms(1) by (auto simp: file_append_def split: option.splits node.splits)
  then have "files_below out fs' = files_below out fs" by (auto simp: files_below_def is_file_node_def)
  moreover have "node_ok policy q (fs' (out @ q))" for q
  proof -
    have "node_ok policy q (fs (out @ q))" using assms(2) by (simp add: tree_ok_def)
    then show ?thesis using c assms(3) [OF c(1)] by (auto simp: node_ok_def)
  qed
  ultimately show ?thesis using assms(2) c by (auto simp: tree_ok_def)
qed

lemma confined_update: "confined out fs0 fs \<Longrightarrow> confined out fs0 (fs(out @ p \<mapsto> n))"
  unfolding confined_def by (metis fun_upd_other prefixI)

lemma file_create_confined: "file_create (out @ p) fs = Some fs' \<Longrightarrow> confined out fs0 fs \<Longrightarrow> confined out fs0 fs'"
  by (auto simp: file_create_def confined_update split: if_splits)

lemma file_append_confined: "file_append (out @ p) bs fs = Some fs' \<Longrightarrow> confined out fs0 fs \<Longrightarrow> confined out fs0 fs'"
  by (auto simp: file_append_def confined_update split: option.splits node.splits)

definition well_formed_fs :: "file_system \<Rightarrow> bool" where
  "well_formed_fs fs \<longleftrightarrow> (\<forall>p q. fs p \<noteq> Some Dir \<and> q \<noteq> [] \<longrightarrow> fs (p @ q) = None)"

lemma destination_created:
  assumes "well_formed_fs fs" "fs out = None" "create_dir_all out fs = Some fs'"
  shows "tree_ok policy out 0 fs'" "confined out fs fs'"
proof -
  have below: "fs (out @ p) = None" for p using assms(1,2) by (cases "p = []") (auto simp: well_formed_fs_def)
  then have "fs' (out @ p) = (if p = [] then Some Dir else None)" for p
    using assms(3) by (auto simp: create_dir_all_def split: if_splits)
  then show "tree_ok policy out 0 fs'"
    by (simp add: tree_ok_def files_below_def is_file_node_def node_ok_def) (metis append_Nil2)
  show "confined out fs fs'"
    using create_dir_all_confined [of out "[]" fs fs' fs] assms(3) by (simp add: confined_def)
qed

section \<open>One entry\<close>

lemma awp_deadline [awp_simps]:
  "awp (ensure_package_archive_deadline env sp) Q s =
     (let s' = s\<lparr>un_checks := un_checks s + 1\<rparr> in
      if ae_expired env (un_checks s)
      then Q (Inl (Raise (package_error (lit ''package_archive_timeout'')
             (lit ''package archive validation exceeded its request deadline'') sp))) s'
      else Q (Inr ()) s')"
  by (simp add: ensure_package_archive_deadline_def awp_simps)

lemma awp_fs_op [awp_simps]:
  "awp (fs_op env f err) Q s =
     (let s' = s\<lparr>un_ops := un_ops s + 1\<rparr>; failed = Q (Inl (Raise (err (ae_io_text env (un_ops s))))) s' in
      if ae_fault env (un_ops s) then failed
      else case f (un_fs s) of None \<Rightarrow> failed | Some fs' \<Rightarrow> Q (Inr ()) (s'\<lparr>un_fs := fs'\<rparr>))"
  by (simp add: fs_op_def awp_simps split: option.splits)

definition raised :: "ku_error fault + 'a \<Rightarrow> bool" where
  "raised r = (case r of Inl (Raise _) \<Rightarrow> True | _ \<Rightarrow> False)"

definition sound :: "archive_policy \<Rightarrow> ustring list \<Rightarrow> file_system \<Rightarrow> nat \<Rightarrow> unpacking \<Rightarrow> bool" where
  "sound policy out fs0 k s \<longleftrightarrow> confined out fs0 (un_fs s) \<and> tree_ok policy out k (un_fs s)"

definition frame :: "unpacking \<Rightarrow> unpacking \<Rightarrow> bool" where
  "frame s s' \<longleftrightarrow> un_root s' = un_root s \<and> un_paths s' = un_paths s \<and> un_total s' = un_total s
     \<and> un_seen s' = un_seen s \<and> un_manifest s' = un_manifest s"

lemma raised_simps [simp]: "raised (Inl (Raise e))" "\<not> raised (Inr x)" "\<not> raised (Inl RustPanic)" "\<not> raised (Inl OutOfFuel)"
  by (simp_all add: raised_def)

lemma raised_Inl: "raised (Inl f) \<longleftrightarrow> (\<exists>e. f = Raise e)"
  by (cases f) simp_all

lemma sound_simps [simp]:
  "sound policy out fs0 k (s\<lparr>un_checks := n\<rparr>) = sound policy out fs0 k s"
  "sound policy out fs0 k (s\<lparr>un_ops := n\<rparr>) = sound policy out fs0 k s"
  "sound policy out fs0 k (s\<lparr>un_seen := n\<rparr>) = sound policy out fs0 k s"
  "sound policy out fs0 k (s\<lparr>un_total := n\<rparr>) = sound policy out fs0 k s"
  "sound policy out fs0 k (s\<lparr>un_root := r\<rparr>) = sound policy out fs0 k s"
  "sound policy out fs0 k (s\<lparr>un_paths := ps\<rparr>) = sound policy out fs0 k s"
  "sound policy out fs0 k (s\<lparr>un_manifest := b\<rparr>) = sound policy out fs0 k s"
  by (simp_all add: sound_def)

lemma frame_simps [simp]:
  "frame s s"
  "frame s (s'\<lparr>un_checks := n\<rparr>) = frame s s'" "frame s (s'\<lparr>un_ops := n\<rparr>) = frame s s'" "frame s (s'\<lparr>un_fs := fs\<rparr>) = frame s s'"
  "frame (s\<lparr>un_checks := n\<rparr>) s' = frame s s'" "frame (s\<lparr>un_ops := n\<rparr>) s' = frame s s'" "frame (s\<lparr>un_fs := fs\<rparr>) s' = frame s s'"
  by (simp_all add: frame_def)

lemma frame_trans: "frame s s' \<Longrightarrow> frame s' s'' \<Longrightarrow> frame s s''"
  by (simp add: frame_def)

text \<open>The contents of an entry: the chunks before the first empty one.\<close>

fun contents :: "(ustring + bytes) list \<Rightarrow> bytes" where
  "contents (Inr bs # chunks) = (if bs = [] then [] else bs @ contents chunks)"
| "contents _ = []"

text \<open>What a step leaves behind: a sound tree in any case, and on success the expected file system.\<close>

definition leaves ::
    "archive_policy \<Rightarrow> ustring list \<Rightarrow> file_system \<Rightarrow> nat \<Rightarrow> (unpacking \<Rightarrow> bool) \<Rightarrow> ku_error fault + 'a \<Rightarrow> unpacking \<Rightarrow> bool" where
  "leaves policy out fs0 k P r s \<longleftrightarrow> sound policy out fs0 k s \<and> (raised r \<or> \<not> isl r \<and> P s)"

lemma leaves_raise [simp]: "leaves policy out fs0 k P (Inl (Raise e)) s = sound policy out fs0 k s"
  and leaves_return [simp]: "leaves policy out fs0 k P (Inr x) s = (sound policy out fs0 k s \<and> P s)"
  by (simp_all add: leaves_def)

lemma leaves_mono: "leaves policy out fs0 k P r s \<Longrightarrow> (P s \<Longrightarrow> P' s) \<Longrightarrow> leaves policy out fs0 k P' r s"
  by (auto simp: leaves_def)

lemma copy_archive_file_effect:
  assumes "sound policy out fs0 k s" "un_fs s (out @ p) = Some (File c)" "n = min u64_MAX (length c)"
  shows "awp (copy_archive_file env (out @ p) (max_file_bytes policy) sp n chunks)
     (leaves policy out fs0 k (\<lambda>s'. frame s s' \<and> un_fs s' = (un_fs s)(out @ p \<mapsto> File (c @ contents chunks)))) s"
  using assms
proof (induction chunks arbitrary: s c n)
  case Nil
  then show ?case by (simp add: awp_simps Let_def fun_upd_idem)
next
  case (Cons chunk chunks)
  show ?case
  proof (cases chunk)
    case (Inl e)
    then show ?thesis using Cons.prems by (simp add: awp_simps Let_def)
  next
    case (Inr bs)
    show ?thesis
    proof (cases "bs = []")
      case True
      then show ?thesis using Inr Cons.prems by (simp add: awp_simps Let_def fun_upd_idem)
    next
      case False
      let ?n = "saturating_add n (length bs)"
      have n: "?n = min u64_MAX (length (c @ bs))" using Cons.prems by (auto simp: saturating_add_def)
      let ?s = "\<lambda>fs'. s\<lparr>un_checks := Suc (un_checks s), un_ops := Suc (un_ops s), un_fs := fs'\<rparr>"
      have step: "awp (copy_archive_file env (out @ p) (max_file_bytes policy) sp ?n chunks)
          (leaves policy out fs0 k (\<lambda>s'. frame s s' \<and> un_fs s' = (un_fs s)(out @ p \<mapsto> File (c @ contents (chunk # chunks))))) (?s fs')"
        if le: "?n \<le> max_file_bytes policy" and fs': "file_append (out @ p) bs (un_fs s) = Some fs'" for fs'
      proof -
        have upd: "fs' = (un_fs s)(out @ p \<mapsto> File (c @ bs))" using fs' Cons.prems by (simp add: file_append_def)
        have "tree_ok policy out k fs'" "confined out fs0 fs'"
          using Cons.prems fs' le n by (auto simp: sound_def intro: file_append_tree file_append_confined)
        then have "sound policy out fs0 k (?s fs')" by (simp add: sound_def)
        with upd show ?thesis
          using Cons.IH [of "?s fs'" "c @ bs" ?n] n False Inr by (auto elim!: awp_mono leaves_mono)
      qed
      then show ?thesis using Inr False Cons.prems
        by (auto simp: awp_simps Let_def not_less simp del: fun_upd_apply split: option.splits)
    qed
  qed
qed

lemma sound_mono: "sound policy out fs0 k s \<Longrightarrow> k \<le> k' \<Longrightarrow> sound policy out fs0 k' s"
  by (auto simp: sound_def intro: tree_ok_mono)

lemma manifest_components: "path_components MANIFEST_FILE = [Normal MANIFEST_FILE]"
  by code_simp

text \<open>A place below the destination as an entry names it.\<close>

definition entry_place :: "archive_policy \<Rightarrow> ustring \<Rightarrow> ustring list \<Rightarrow> bool" where
  "entry_place policy relative ns \<longleftrightarrow> portable_place policy ns \<and> split_char slash relative = ns"

lemma entry_place_plain: "entry_place policy relative ns \<Longrightarrow> list_all plain_piece (split_char slash relative)"
  using portable_plain by (auto simp: entry_place_def portable_place_def list_all_iff)

lemma entry_place_target:
  assumes "entry_place policy relative ns"
  shows "resolve cwd (path_join output_dir relative) = resolve cwd output_dir @ ns"
    and "\<exists>parent. path_parent (path_join output_dir relative) = Some parent
           \<and> resolve cwd parent = resolve cwd output_dir @ butlast ns"
    and "path_components relative = map Normal ns"
  using assms resolve_join_plain [OF entry_place_plain [OF assms], of cwd output_dir]
    plain_components(1) [OF entry_place_plain [OF assms]]
    parent_of_target [OF entry_place_plain [OF assms], of output_dir cwd]
  by (auto simp: entry_place_def)

definition file_added :: "file_system \<Rightarrow> ustring list \<Rightarrow> bytes \<Rightarrow> file_system \<Rightarrow> bool" where
  "file_added fs p c fs' \<longleftrightarrow>
     (\<forall>q c'. fs' q = Some (File c') \<longleftrightarrow> (if q = p then c' = c else fs q = Some (File c')))"

lemma create_and_copy:
  assumes "sound policy out fs0 k s" "portable_place policy ns"
  shows "awp (abind (fs_op env (create_dir_all (out @ butlast ns)) err1) (\<lambda>_.
      abind (fs_op env (file_create (out @ ns)) err2) (\<lambda>_.
      abind (copy_archive_file env (out @ ns) (max_file_bytes policy) sp 0 chunks) (\<lambda>_. areturn ()))))
    (leaves policy out fs0 (Suc k) (\<lambda>s'. frame s s' \<and> file_added (un_fs s) (out @ ns) (contents chunks) (un_fs s'))) s"
proof -
  let ?Q = "leaves policy out fs0 (Suc k) (\<lambda>s'. frame s s' \<and> file_added (un_fs s) (out @ ns) (contents chunks) (un_fs s'))"
  have ok: "sound policy out fs0 (Suc k) s" using assms(1) by (rule sound_mono) simp
  have run: "awp (copy_archive_file env (out @ ns) (max_file_bytes policy) sp 0 chunks)
      (\<lambda>r s'. case r of Inl e \<Rightarrow> ?Q (Inl e) s' | Inr x \<Rightarrow> awp (areturn ()) ?Q s') s2"
    if "create_dir_all (out @ butlast ns) (un_fs s) = Some fs1" "file_create (out @ ns) fs1 = Some fs2"
      "un_fs s2 = fs2" "frame s s2" for fs1 fs2 s2
  proof -
    have tree: "tree_ok policy out (Suc k) fs2" "confined out fs0 fs2"
      using that assms place_butlast create_dir_all_tree create_dir_all_confined file_create_tree file_create_confined
      by (metis sound_def)+
    have fs2: "fs2 = fs1(out @ ns \<mapsto> File [])" using that by (auto simp: file_create_def split: if_splits)
    have added: "file_added (un_fs s) (out @ ns) c (fs2(out @ ns \<mapsto> File c))" for c
      using create_dir_all_files [OF that(1)] fs2 by (auto simp: file_added_def)
    have copy: "awp (copy_archive_file env (out @ ns) (max_file_bytes policy) sp 0 chunks)
        (leaves policy out fs0 (Suc k) (\<lambda>s'. frame s2 s' \<and> un_fs s' = fs2(out @ ns \<mapsto> File (contents chunks)))) s2"
      using copy_archive_file_effect [of policy out fs0 "Suc k" s2 ns "[]" 0 env sp chunks] tree that(3) fs2
      by (simp add: sound_def del: fun_upd_apply) (simp add: fun_upd_apply)
    show ?thesis
    proof (rule awp_mono [OF copy])
      fix r s' assume "leaves policy out fs0 (Suc k) (\<lambda>s'. frame s2 s' \<and> un_fs s' = fs2(out @ ns \<mapsto> File (contents chunks))) r s'"
      then show "case r of Inl e \<Rightarrow> ?Q (Inl e) s' | Inr x \<Rightarrow> awp (areturn ()) ?Q s'"
        using added frame_trans [OF that(4)] by (cases r) (auto simp: leaves_def raised_Inl awp_return)
    qed
  qed
  have dirs: "sound policy out fs0 (Suc k) s1" if "create_dir_all (out @ butlast ns) (un_fs s) = Some (un_fs s1)" for s1
    using that assms place_butlast create_dir_all_tree create_dir_all_confined tree_ok_mono [of policy out k "un_fs s1" "Suc k"]
    by (metis le_SucI order_refl sound_def)
  show ?thesis using ok
    by (auto simp: awp_simps Let_def intro!: run intro: dirs split: option.splits)
qed

definition file_unpacked ::
    "archive_policy \<Rightarrow> ustring list \<Rightarrow> ustring list \<Rightarrow> tar_entry \<Rightarrow> unpacking \<Rightarrow> unpacking \<Rightarrow> bool" where
  "file_unpacked policy out ns entry s s' \<longleftrightarrow>
     un_root s' = un_root s \<and> un_paths s' = un_paths s \<and> un_seen s' = un_seen s
     \<and> un_manifest s' = (un_manifest s \<or> ns = [MANIFEST_FILE])
     \<and> (\<exists>n. te_size entry = Inr n \<and> un_total s' = saturating_add (un_total s) n)
     \<and> un_total s' \<le> max_unpacked_bytes policy
     \<and> file_added (un_fs s) (out @ ns) (contents (te_chunks entry)) (un_fs s')"

lemma manifest_kept: "s\<lparr>un_total := n, un_manifest := un_manifest s\<rparr> = s\<lparr>un_total := n\<rparr>"
  by (cases s) simp

lemma unpack_file_effect:
  assumes sound: "sound policy (resolve (ae_cwd env) output_dir) fs0 k s" and place: "entry_place policy relative ns"
  shows "awp (unpack_file env policy output_dir relative entry sp)
    (leaves policy (resolve (ae_cwd env) output_dir) fs0 (Suc k)
      (file_unpacked policy (resolve (ae_cwd env) output_dir) ns entry s)) s"
proof (cases "te_size entry")
  case (Inl e)
  then show ?thesis using sound_mono [OF sound] by (simp add: unpack_file_def awp_simps Let_def)
next
  case (Inr file_size)
  let ?out = "resolve (ae_cwd env) output_dir"
  obtain parent where parent: "path_parent (path_join output_dir relative) = Some parent"
      "resolve (ae_cwd env) parent = ?out @ butlast ns"
    using entry_place_target(2) [OF place] by blast
  have target: "resolve (ae_cwd env) (path_join output_dir relative) = ?out @ ns"
    using entry_place_target(1) [OF place] by blast
  have manifest: "path_components relative = path_components MANIFEST_FILE \<longleftrightarrow> ns = [MANIFEST_FILE]"
    using entry_place_target(3) [OF place] by (auto simp: manifest_components)
  define s1 where "s1 = s\<lparr>un_total := saturating_add (un_total s) file_size,
    un_manifest := un_manifest s \<or> ns = [MANIFEST_FILE]\<rparr>"
  have "sound policy ?out fs0 k s1" "portable_place policy ns" using sound place by (simp_all add: s1_def entry_place_def)
  note run = create_and_copy [OF this]
  have post: "leaves policy ?out fs0 (Suc k) (file_unpacked policy ?out ns entry s) r s'"
    if "leaves policy ?out fs0 (Suc k) (\<lambda>s'. frame s1 s' \<and> file_added (un_fs s1) (?out @ ns) (contents (te_chunks entry)) (un_fs s')) r s'"
      "saturating_add (un_total s) file_size \<le> max_unpacked_bytes policy" for r :: "ku_error fault + unit" and s'
    using that Inr by (auto simp: leaves_def file_unpacked_def frame_def s1_def)
  have ok: "sound policy ?out fs0 (Suc k) s" using sound_mono [OF sound] by simp
  have unfold: "awp (unpack_file env policy output_dir relative entry sp) Q s \<longleftrightarrow>
    (if \<not> file_size \<le> max_file_bytes policy then Q (Inl (Raise (archive_limit_error (lit ''package archive file '' @ quoted relative
          @ lit '' exceeds '' @ nat_to_string (max_file_bytes policy) @ lit '' bytes'') sp))) s
     else if \<not> saturating_add (un_total s) file_size \<le> max_unpacked_bytes policy
     then Q (Inl (Raise (archive_limit_error (lit ''package archive exceeds unpacked limit of ''
          @ nat_to_string (max_unpacked_bytes policy) @ lit '' bytes'') sp))) (s\<lparr>un_total := saturating_add (un_total s) file_size\<rparr>)
     else awp (abind (fs_op env (create_dir_all (?out @ butlast ns)) (create_directory_error parent)) (\<lambda>_.
      abind (fs_op env (file_create (?out @ ns)) (\<lambda>e. message_error (lit ''failed to create package archive file ''
          @ quoted (path_join output_dir relative) @ lit '': '' @ e))) (\<lambda>_.
      abind (copy_archive_file env (?out @ ns) (max_file_bytes policy) sp 0 (te_chunks entry)) (\<lambda>_. areturn ())))) Q s1)" for Q
    by (cases "ns = [MANIFEST_FILE]")
      (simp_all add: unpack_file_def Inr Let_def parent target manifest awp_bind awp_guard awp_modify awp_get awp_return
        s1_def manifest_kept)
  show ?thesis unfolding unfold
    using ok by (auto intro: awp_mono [OF run] post)
qed

text \<open>The key under which the code remembers a path, to find duplicates that differ in case only.\<close>

definition path_key :: "archive_env \<Rightarrow> ustring list \<Rightarrow> ustring" where
  "path_key env ns = ae_lower env (portable_path (join_with [slash] ns))"

definition same_files :: "file_system \<Rightarrow> file_system \<Rightarrow> bool" where
  "same_files fs fs' \<longleftrightarrow> (\<forall>q c. fs' q = Some (File c) \<longleftrightarrow> fs q = Some (File c))"

text \<open>What a successful step did, by the kind of the entry.\<close>

definition entry_effect ::
    "archive_env \<Rightarrow> archive_policy \<Rightarrow> ustring list \<Rightarrow> ustring list \<Rightarrow> tar_entry \<Rightarrow> unpacking \<Rightarrow> unpacking \<Rightarrow> bool" where
  "entry_effect env policy out ns entry s s' \<longleftrightarrow>
     (if te_type entry = ET_Dir
      then same_files (un_fs s) (un_fs s') \<and> un_manifest s' = un_manifest s \<and> un_paths s \<subseteq> un_paths s' \<and> un_total s' = un_total s
      else te_type entry = ET_File \<and> ns \<noteq> [] \<and> path_key env ns \<notin> un_paths s
        \<and> un_paths s' = insert (path_key env ns) (un_paths s)
        \<and> un_manifest s' = (un_manifest s \<or> ns = [MANIFEST_FILE])
        \<and> (\<exists>n. te_size entry = Inr n \<and> un_total s' = saturating_add (un_total s) n)
        \<and> un_total s' \<le> max_unpacked_bytes policy
        \<and> file_added (un_fs s) (out @ ns) (contents (te_chunks entry)) (un_fs s'))"

definition entry_done ::
    "archive_env \<Rightarrow> archive_policy \<Rightarrow> ustring list \<Rightarrow> ustring option \<Rightarrow> ustring + tar_entry \<Rightarrow> unpacking \<Rightarrow> unpacking \<Rightarrow> bool" where
  "entry_done env policy out expected item s s' \<longleftrightarrow>
     (\<exists>entry t. item = Inr entry \<and> te_path entry = Inr (Some t)
        \<and> un_root s' = Some (hd (names t)) \<and> (un_root s = None \<or> un_root s = un_root s')
        \<and> (expected = None \<or> expected = un_root s') \<and> un_seen s' = Suc (un_seen s)
        \<and> entry_effect env policy out (tl (names t)) entry s s')"

lemma unpack_placed_effect:
  assumes sound: "sound policy (resolve (ae_cwd env) output_dir) fs0 k s" and place: "entry_place policy relative ns"
    and relative: "relative = join_with [slash] ns" and kind: "te_type entry \<noteq> ET_Other"
  shows "awp (unpack_placed env policy output_dir sp relative entry)
    (leaves policy (resolve (ae_cwd env) output_dir) fs0 (Suc k)
      (\<lambda>s'. un_root s' = un_root s \<and> un_seen s' = un_seen s
         \<and> entry_effect env policy (resolve (ae_cwd env) output_dir) ns entry s s')) s"
proof -
  let ?out = "resolve (ae_cwd env) output_dir"
  let ?Q = "leaves policy ?out fs0 (Suc k) (\<lambda>s'. un_root s' = un_root s \<and> un_seen s' = un_seen s
         \<and> entry_effect env policy ?out ns entry s s')"
  let ?s = "s\<lparr>un_paths := insert (path_key env ns) (un_paths s)\<rparr>"
  have ok: "sound policy ?out fs0 (Suc k) s" using sound_mono [OF sound] by simp
  have ns: "portable_place policy ns" using place by (simp add: entry_place_def)
  have dir_case: "?Q (Inr ()) (?s\<lparr>un_ops := n, un_fs := fs'\<rparr>)"
    if "te_type entry = ET_Dir" "create_dir_all (?out @ ns) (un_fs s) = Some fs'" for n fs'
  proof -
    have "tree_ok policy ?out k fs'" "confined ?out fs0 fs'"
      using sound ns that(2) by (auto simp: sound_def intro: create_dir_all_tree create_dir_all_confined)
    moreover have "tree_ok policy ?out (Suc k) fs'" using calculation(1) by (rule tree_ok_mono) simp
    ultimately show ?thesis
      using create_dir_all_files [OF that(2)] that(1) by (auto simp: sound_def entry_effect_def same_files_def)
  qed
  have file_case: "awp (unpack_file env policy output_dir relative entry sp) ?Q ?s"
    if "te_type entry = ET_File" "path_key env ns \<notin> un_paths s"
  proof (rule awp_mono [OF unpack_file_effect [OF _ place]])
    show "sound policy ?out fs0 k ?s" using sound by simp
    fix r :: "ku_error fault + unit" and s'
    assume "leaves policy ?out fs0 (Suc k) (file_unpacked policy ?out ns entry ?s) r s'"
    then show "?Q r s'"
      by (rule leaves_mono) (use that ns in \<open>auto simp: file_unpacked_def entry_effect_def portable_place_def\<close>)
  qed
  have "te_type entry \<noteq> ET_Dir \<Longrightarrow> te_type entry = ET_File" using kind by (cases "te_type entry") auto
  then show ?thesis
    using ok file_case dir_case entry_place_target(1) [OF place, of "ae_cwd env" output_dir]
    by (auto simp: unpack_placed_def Let_def awp_simps path_key_def relative [symmetric] split: option.splits)
qed

lemma unpack_entry_effect:
  assumes sound: "sound policy (resolve (ae_cwd env) output_dir) fs0 (min (max_files policy) (un_seen s)) s"
  shows "awp (unpack_entry env policy output_dir expected sp item)
    (leaves policy (resolve (ae_cwd env) output_dir) fs0 (min (max_files policy) (Suc (un_seen s)))
      (entry_done env policy (resolve (ae_cwd env) output_dir) expected item s)) s"
proof -
  let ?out = "resolve (ae_cwd env) output_dir"
  let ?k = "min (max_files policy) (Suc (un_seen s))"
  let ?Q = "leaves policy ?out fs0 ?k (entry_done env policy ?out expected item s)"
  have ok: "sound policy ?out fs0 ?k s" using sound by (rule sound_mono) simp
  have root: "?Q (Inr ()) (s\<lparr>un_checks := n, un_seen := Suc (un_seen s), un_root := root'\<rparr>)"
    if "item = Inr entry" "te_path entry = Inr path" "te_type entry = ET_Dir"
      and path: "validate_archive_entry_path path (un_root s) policy sp = Inr ([], root')" and "expected = None \<or> expected = root'" for entry path n root'
  proof -
    obtain t where t: "path = Some t" "root' = Some (hd (names t))" "un_root s = None \<or> un_root s = root'"
      using path by (rule entry_path_accepted) blast
    then show ?thesis using ok that by (auto simp: entry_done_def entry_effect_def same_files_def)
  qed
  have placed: "awp (unpack_placed env policy output_dir sp relative entry) ?Q
      (s\<lparr>un_checks := n, un_seen := Suc (un_seen s), un_root := root'\<rparr>)"
    if entry: "item = Inr entry" "te_path entry = Inr path" "te_type entry \<noteq> ET_Other" "Suc (un_seen s) \<le> max_files policy"
      and path: "validate_archive_entry_path path (un_root s) policy sp = Inr (relative, root')" "relative \<noteq> []"
        "validate_archive_top_level relative sp = Inr ()"
      and expected: "expected = None \<or> expected = root'" for entry path n root' relative
  proof -
    let ?s = "s\<lparr>un_checks := n, un_seen := Suc (un_seen s), un_root := root'\<rparr>"
    obtain t where t: "path = Some t" "relative = join_with [slash] (tl (names t))" "root' = Some (hd (names t))"
        "un_root s = None \<or> un_root s = root'" "names t \<noteq> []" "length (names t) \<le> max_depth policy"
        "list_all portable_component (names t)" "\<forall>n \<in> set (names t). slash \<notin> set n"
      using path(1) by (rule entry_path_accepted)
    let ?ns = "tl (names t)"
    have ns: "?ns \<noteq> []" "list_all portable_component ?ns" "\<forall>n \<in> set ?ns. slash \<notin> set n"
      using t path(2) by (auto simp: list_all_iff dest: list.set_sel(2)) 
    then have "entry_place policy relative ?ns"
      using t top_level_accepted [OF path(3) t(2) ns] split_join [OF ns(1,3)]
      by (cases "names t") (auto simp: entry_place_def portable_place_def)
    moreover have "sound policy ?out fs0 (un_seen s) ?s" using sound entry(4) by (simp add: min_def)
    moreover have "Suc (un_seen s) = ?k" using entry(4) by simp
    ultimately have run: "awp (unpack_placed env policy output_dir sp relative entry)
      (leaves policy ?out fs0 ?k (\<lambda>s'. un_root s' = un_root ?s \<and> un_seen s' = un_seen ?s
         \<and> entry_effect env policy ?out ?ns entry ?s s')) ?s"
      using unpack_placed_effect [of policy env output_dir fs0 "un_seen s" ?s relative ?ns entry sp] t(2) entry(3) by simp
    show ?thesis
      by (rule awp_mono [OF run], erule leaves_mono)
        (use entry(1,2) t expected in \<open>auto simp: entry_done_def entry_effect_def\<close>)
  qed
  show ?thesis
    using ok root placed
    by (auto simp: unpack_entry_def awp_simps Let_def entry_path_root split: sum.splits option.splits)
qed

section \<open>All entries\<close>

text \<open>The files of an archive, with the place below the destination and the contents.\<close>

definition entry_files :: "ustring + tar_entry \<Rightarrow> (ustring list \<times> bytes) list" where
  "entry_files item = (case item of
       Inr entry \<Rightarrow> (case te_path entry of
           Inr (Some t) \<Rightarrow> if te_type entry = ET_File then [(tl (names t), contents (te_chunks entry))] else []
         | _ \<Rightarrow> [])
     | _ \<Rightarrow> [])"

definition archive_files :: "(ustring + tar_entry) list \<Rightarrow> (ustring list \<times> bytes) list" where
  "archive_files items = concat (map entry_files items)"

lemma archive_files_simps [simp]:
  "archive_files [] = []" "archive_files (item # items) = entry_files item @ archive_files items"
  by (simp_all add: archive_files_def)

definition files_keys :: "archive_env \<Rightarrow> (ustring list \<times> bytes) list \<Rightarrow> ustring list" where
  "files_keys env fs = map (\<lambda>(p, c). path_key env p) fs"

lemma files_keys_append [simp]: "files_keys env (fs @ gs) = files_keys env fs @ files_keys env gs"
  by (simp add: files_keys_def)

definition tracked :: "archive_env \<Rightarrow> ustring list \<Rightarrow> unpacking \<Rightarrow> bool" where
  "tracked env out s \<longleftrightarrow> (\<forall>p c. un_fs s (out @ p) = Some (File c) \<longrightarrow> path_key env p \<in> un_paths s)
     \<and> (un_manifest s \<longrightarrow> is_file_node (un_fs s (out @ [MANIFEST_FILE])))"

definition adds_files :: "ustring list \<Rightarrow> (ustring list \<times> bytes) list \<Rightarrow> file_system \<Rightarrow> file_system \<Rightarrow> bool" where
  "adds_files out files fs fs' \<longleftrightarrow>
     (\<forall>p c. fs' (out @ p) = Some (File c) \<longleftrightarrow> fs (out @ p) = Some (File c) \<or> (p, c) \<in> set files)"

lemma entry_done_tracked:
  assumes entry: "entry_done env policy out expected item s s'" and tracked: "tracked env out s"
  shows "tracked env out s'" and "adds_files out (entry_files item) (un_fs s) (un_fs s')"
    and "un_paths s \<union> set (files_keys env (entry_files item)) \<subseteq> un_paths s'"
    and "un_paths s \<inter> set (files_keys env (entry_files item)) = {}"
    and "distinct (files_keys env (entry_files item))"
proof -
  obtain e t where e: "item = Inr e" "te_path e = Inr (Some t)" "entry_effect env policy out (tl (names t)) e s s'"
    using entry by (auto simp: entry_done_def)
  have all: "tracked env out s' \<and> adds_files out (entry_files item) (un_fs s) (un_fs s')
     \<and> un_paths s \<union> set (files_keys env (entry_files item)) \<subseteq> un_paths s'
     \<and> un_paths s \<inter> set (files_keys env (entry_files item)) = {} \<and> distinct (files_keys env (entry_files item))"
  proof (cases "te_type e = ET_Dir")
    case True
    then have files: "same_files (un_fs s) (un_fs s')" "un_paths s \<subseteq> un_paths s'" "un_manifest s' = un_manifest s"
      using e(3) by (auto simp: entry_effect_def)
    moreover have "entry_files item = []" using e True by (simp add: entry_files_def)
    ultimately show ?thesis
      using tracked by (auto simp: tracked_def adds_files_def files_keys_def same_files_def is_file_iff)
  next
    case False
    let ?ns = "tl (names t)"
    have file_case: "entry_files item = [(?ns, contents (te_chunks e))]" "path_key env ?ns \<notin> un_paths s"
        "un_paths s' = insert (path_key env ?ns) (un_paths s)" "un_manifest s' = (un_manifest s \<or> ?ns = [MANIFEST_FILE])"
        "file_added (un_fs s) (out @ ?ns) (contents (te_chunks e)) (un_fs s')"
      using e False by (auto simp: entry_effect_def entry_files_def)
    have "\<not> is_file_node (un_fs s (out @ ?ns))" using tracked file_case(2) by (auto simp: tracked_def is_file_iff)
    then show ?thesis
      using tracked file_case by (auto simp: tracked_def adds_files_def files_keys_def file_added_def is_file_iff)
  qed
  then show "tracked env out s'" "adds_files out (entry_files item) (un_fs s) (un_fs s')"
    "un_paths s \<union> set (files_keys env (entry_files item)) \<subseteq> un_paths s'"
    "un_paths s \<inter> set (files_keys env (entry_files item)) = {}" "distinct (files_keys env (entry_files item))"
    by blast+
qed

text \<open>The loop, from a state in which everything unpacked so far is remembered.\<close>

definition loop_done ::
    "archive_env \<Rightarrow> archive_policy \<Rightarrow> ustring list \<Rightarrow> ustring option \<Rightarrow> (ustring + tar_entry) list \<Rightarrow> unpacking \<Rightarrow> unpacking \<Rightarrow> bool" where
  "loop_done env policy out expected items s s' \<longleftrightarrow>
     tracked env out s' \<and> adds_files out (archive_files items) (un_fs s) (un_fs s')
     \<and> un_paths s \<inter> set (files_keys env (archive_files items)) = {}
     \<and> distinct (files_keys env (archive_files items))
     \<and> (un_root s = None \<or> un_root s' = un_root s)
     \<and> (items = [] \<and> un_root s' = un_root s \<or> un_root s' \<noteq> None \<and> (expected = None \<or> expected = un_root s'))"

lemma loop_done_step:
  assumes entry: "entry_done env policy out expected item s s1" and tracked: "tracked env out s"
    and rest: "loop_done env policy out expected items s1 s'"
  shows "loop_done env policy out expected (item # items) s s'"
proof -
  note step = entry_done_tracked [OF entry tracked]
  have "adds_files out (archive_files (item # items)) (un_fs s) (un_fs s')"
    using step(2) rest by (auto simp: loop_done_def adds_files_def)
  moreover have keys: "un_paths s1 \<inter> set (files_keys env (archive_files items)) = {}" "distinct (files_keys env (archive_files items))"
    using rest by (simp_all add: loop_done_def)
  have "un_paths s \<inter> set (files_keys env (archive_files (item # items))) = {}"
    using step(3,4) keys(1) unfolding archive_files_simps files_keys_append set_append by blast
  moreover have "distinct (files_keys env (archive_files (item # items)))"
    using step(3,5) keys unfolding archive_files_simps files_keys_append distinct_append by blast
  moreover have "un_root s = None \<or> un_root s' = un_root s" "un_root s' \<noteq> None \<and> (expected = None \<or> expected = un_root s')"
    using entry rest unfolding loop_done_def entry_done_def by (metis option.distinct(1))+
  ultimately show ?thesis
    using rest by (simp add: loop_done_def)
qed

lemma unpack_entries_effect:
  assumes "sound policy (resolve (ae_cwd env) output_dir) fs0 (min (max_files policy) (un_seen s)) s"
    and "tracked env (resolve (ae_cwd env) output_dir) s"
  shows "awp (unpack_entries env policy output_dir expected sp items)
    (leaves policy (resolve (ae_cwd env) output_dir) fs0 (max_files policy)
      (loop_done env policy (resolve (ae_cwd env) output_dir) expected items s)) s"
  using assms
proof (induction items arbitrary: s)
  case Nil
  have "sound policy (resolve (ae_cwd env) output_dir) fs0 (max_files policy) s"
    by (rule sound_mono [OF Nil(1)]) simp
  with Nil show ?case by (simp add: awp_simps loop_done_def adds_files_def files_keys_def)
next
  case (Cons item items)
  let ?out = "resolve (ae_cwd env) output_dir"
  let ?Q = "leaves policy ?out fs0 (max_files policy) (loop_done env policy ?out expected (item # items) s)"
  have rest: "awp (unpack_entries env policy output_dir expected sp items) ?Q s1"
    if ok: "sound policy ?out fs0 (min (max_files policy) (Suc (un_seen s))) s1"
      and entry: "entry_done env policy ?out expected item s s1" for s1
  proof -
    have "un_seen s1 = Suc (un_seen s)" using entry by (auto simp: entry_done_def)
    then have "awp (unpack_entries env policy output_dir expected sp items)
        (leaves policy ?out fs0 (max_files policy) (loop_done env policy ?out expected items s1)) s1"
      using Cons.IH [of s1] ok entry_done_tracked(1) [OF entry Cons.prems(2)] by simp
    then show ?thesis
      by (rule awp_mono, elim leaves_mono) (rule loop_done_step [OF entry Cons.prems(2)])
  qed
  have "awp (unpack_entry env policy output_dir expected sp item)
      (\<lambda>r s1. case r of Inl e \<Rightarrow> ?Q (Inl e) s1 | Inr _ \<Rightarrow> awp (unpack_entries env policy output_dir expected sp items) ?Q s1) s"
  proof (rule awp_mono [OF unpack_entry_effect [OF Cons.prems(1)]])
    fix r :: "ku_error fault + unit" and s1
    assume post: "leaves policy ?out fs0 (min (max_files policy) (Suc (un_seen s))) (entry_done env policy ?out expected item s) r s1"
    then have "sound policy ?out fs0 (max_files policy) s1"
      unfolding leaves_def by (blast intro: sound_mono min.cobounded1)
    then show "case r of Inl e \<Rightarrow> ?Q (Inl e) s1 | Inr _ \<Rightarrow> awp (unpack_entries env policy output_dir expected sp items) ?Q s1"
      using post rest [of s1] by (cases r) (auto simp: leaves_def raised_Inl)
  qed
  then show ?case by (simp add: awp_bind)
qed

section \<open>The whole archive\<close>

definition unpacked ::
    "archive_env \<Rightarrow> ustring list \<Rightarrow> ustring option \<Rightarrow> unpacking \<Rightarrow> bool" where
  "unpacked env out expected s \<longleftrightarrow>
     (\<exists>items. ae_entries env = Inr items \<and> distinct (files_keys env (archive_files items))
        \<and> (\<forall>p c. un_fs s (out @ p) = Some (File c) \<longleftrightarrow> (p, c) \<in> set (archive_files items)))
     \<and> (expected = None \<or> un_root s = expected)
     \<and> is_file_node (un_fs s (out @ [MANIFEST_FILE]))"

definition unpack_post ::
    "archive_env \<Rightarrow> archive_policy \<Rightarrow> ustring \<Rightarrow> ustring option \<Rightarrow> file_system \<Rightarrow> ku_error fault + ustring \<Rightarrow> unpacking \<Rightarrow> bool" where
  "unpack_post env policy output_dir expected fs r s \<longleftrightarrow>
     (let out = resolve (ae_cwd env) output_dir in
      confined out fs (un_fs s)
      \<and> (un_fs s = fs \<or> fs out = None \<and> tree_ok policy out (max_files policy) (un_fs s))
      \<and> (raised r \<or> r = Inr output_dir \<and> fs out = None \<and> unpacked env out expected s))"

lemma unpack_post_untouched: "unpack_post env policy output_dir expected fs (Inl (Raise e)) s" if "un_fs s = fs"
  using that by (simp add: unpack_post_def confined_def)

text \<open>What happens once the destination exists.\<close>

definition unpack_into ::
    "archive_env \<Rightarrow> ustring \<Rightarrow> archive_policy \<Rightarrow> ustring option \<Rightarrow> span \<Rightarrow> (ustring + tar_entry) list \<Rightarrow> (unpacking, ustring) am" where
  "unpack_into env output_dir policy expected_root sp items =
     abind (unpack_entries env policy output_dir expected_root sp items) (\<lambda>_.
     abind (aget un_root) (\<lambda>root_name.
     abind (aguard (root_name \<noteq> None) (invalid_archive_error (lit ''package archive is empty'') sp)) (\<lambda>_.
     abind (aget un_manifest) (\<lambda>saw_manifest.
     abind (aguard saw_manifest (package_error (lit ''missing_package_manifest'')
       (lit ''package archive root must contain ku.mod'') sp)) (\<lambda>_.
     areturn output_dir)))))"

lemma unpack_into_effect:
  assumes fs: "well_formed_fs fs" "fs (resolve (ae_cwd env) output_dir) = None"
    and created: "create_dir_all (resolve (ae_cwd env) output_dir) fs = Some (un_fs s)"
    and start: "un_root s = None" "un_seen s = 0" "\<not> un_manifest s"
    and items: "ae_entries env = Inr items"
  shows "awp (unpack_into env output_dir policy expected sp items) (unpack_post env policy output_dir expected fs) s"
proof -
  let ?out = "resolve (ae_cwd env) output_dir"
  have tree: "tree_ok policy ?out 0 (un_fs s)" "confined ?out fs (un_fs s)"
    using destination_created [OF fs created] by blast+
  then have none: "un_fs s (?out @ p) \<noteq> Some (File c)" for p c
    by (auto simp: tree_ok_def files_below_def is_file_iff)
  then have "sound policy ?out fs (min (max_files policy) (un_seen s)) s" "tracked env ?out s"
    using tree start by (auto simp: sound_def tracked_def)
  note loop = unpack_entries_effect [OF this, of expected sp items]
  have finished: "un_root s' \<noteq> None \<Longrightarrow> un_manifest s' \<Longrightarrow> unpacked env ?out expected s'"
    if "loop_done env policy ?out expected items s s'" for s'
    using that none items start(1) by (auto simp: loop_done_def unpacked_def adds_files_def tracked_def)
  have "awp (unpack_entries env policy output_dir expected sp items) (\<lambda>r s'. case r of
      Inl e \<Rightarrow> unpack_post env policy output_dir expected fs (Inl e) s'
    | Inr x \<Rightarrow> if un_root s' = None \<or> \<not> un_manifest s' then \<forall>e. unpack_post env policy output_dir expected fs (Inl (Raise e)) s'
        else unpack_post env policy output_dir expected fs (Inr output_dir) s') s"
  proof (rule awp_mono [OF loop])
    fix r :: "ku_error fault + unit" and s'
    assume "leaves policy ?out fs (max_files policy) (loop_done env policy ?out expected items s) r s'"
    then show "case r of Inl e \<Rightarrow> unpack_post env policy output_dir expected fs (Inl e) s'
      | Inr x \<Rightarrow> if un_root s' = None \<or> \<not> un_manifest s' then \<forall>e. unpack_post env policy output_dir expected fs (Inl (Raise e)) s'
        else unpack_post env policy output_dir expected fs (Inr output_dir) s'"
      using fs(2) finished by (cases r) (auto simp: leaves_def raised_Inl unpack_post_def sound_def)
  qed
  then show ?thesis
    unfolding unpack_into_def by (simp add: awp_simps) (erule awp_mono, auto simp: awp_simps split: sum.splits if_splits)
qed

lemma unpack_effect:
  assumes "well_formed_fs fs"
  shows "awp (unpack_package_archive_with_expected_root env output_dir policy expected sp)
    (unpack_post env policy output_dir expected fs) (unpacking_start fs)"
proof -
  let ?out = "resolve (ae_cwd env) output_dir"
  have created: "unpack_post env policy output_dir expected fs (Inl (Raise e)) s"
    if "fs ?out = None" "create_dir_all ?out fs = Some (un_fs s)" for e s
    using destination_created [OF assms that] tree_ok_mono [of policy ?out 0 "un_fs s" "max_files policy"] that(1)
    by (simp add: unpack_post_def)
  show ?thesis
    unfolding unpack_package_archive_with_expected_root_def unpack_into_def [symmetric]
    by (auto simp: awp_simps Let_def unpacking_start_def unpack_post_untouched split: sum.splits option.splits
        intro!: unpack_into_effect [OF assms] created)
qed

section \<open>Properties\<close>

text \<open>C6: Unpacking an archive from the network never reaches outside its destination, however it ends. Outside the
  destination nothing changes except that missing directories above it are created; nothing at all changes when
  the destination exists already. Below it every file and directory has a portable path of bounded depth under
  one of the allowed names, there are at most as many files as the policy allows and none is larger than it
  allows. A run that succeeds has unpacked exactly the files of the archive, no two of them with the same path up
  to case, under the expected root, and the manifest is among them; every other run ends in an error, never in a
  panic.\<close>

theorem archive_unpack_confined:
  assumes "well_formed_fs fs"
  shows "case unpack_package_archive_with_expected_root env output_dir policy expected sp (unpacking_start fs) of (r, s) \<Rightarrow>
     (let out = resolve (ae_cwd env) output_dir in
      confined out fs (un_fs s)
      \<and> (un_fs s = fs \<or> fs out = None \<and> tree_ok policy out (max_files policy) (un_fs s))
      \<and> (case r of
           Inl (Raise e) \<Rightarrow> True
         | Inl _ \<Rightarrow> False
         | Inr d \<Rightarrow> d = output_dir \<and> fs out = None \<and> unpacked env out expected s))"
  using unpack_effect [OF assms, of env output_dir policy expected sp]
  by (auto simp: awp_def unpack_post_def Let_def raised_Inl split: prod.splits sum.splits fault.splits)

text \<open>An archive with a manifest and one source file, unpacked below \<open>/cache\<close>.\<close>

definition demo_entry :: "entry_type \<Rightarrow> string \<Rightarrow> bytes \<Rightarrow> ustring + tar_entry" where
  "demo_entry kind path c = Inr \<lparr>te_type = kind, te_path = Inr (Some (lit path)), te_size = Inr (length c), te_chunks = [Inr c]\<rparr>"

definition demo_archive :: archive_env where
  "demo_archive = \<lparr>ae_cwd = [], ae_archive = lit ''p.tar.zst'', ae_len = Inr 100, ae_open = None, ae_decoder = None, ae_window = None,
     ae_entries = Inr [demo_entry ET_Dir ''p-1.0.0/'' [], demo_entry ET_File ''p-1.0.0/ku.mod'' [1, 2, 3],
       demo_entry ET_File ''p-1.0.0/src/./main.ku'' [4, 5]],
     ae_expired = (\<lambda>_. False), ae_fault = (\<lambda>_. False), ae_io_text = (\<lambda>_. []), ae_lower = id, ae_sha256 = id\<rparr>"

definition empty_fs :: file_system where
  "empty_fs p = (if p = [] then Some Dir else None)"

lemma empty_fs_well_formed: "well_formed_fs empty_fs"
  by (simp add: well_formed_fs_def empty_fs_def)

theorem archive_unpack_confined_witness:
  "well_formed_fs empty_fs
   \<and> (case unpack_package_archive_with_expected_root demo_archive (lit ''/cache'') archive_policy_default (Some (lit ''p-1.0.0''))
        Span_default (unpacking_start empty_fs) of (r, s) \<Rightarrow>
      r = Inr (lit ''/cache'') \<and> confined [lit ''cache''] empty_fs (un_fs s)
      \<and> un_fs s [lit ''cache'', lit ''src'', lit ''main.ku''] = Some (File [4, 5]))"
proof -
  have run: "fst (unpack_package_archive_with_expected_root demo_archive (lit ''/cache'') archive_policy_default (Some (lit ''p-1.0.0''))
        Span_default (unpacking_start empty_fs)) = Inr (lit ''/cache'')"
    by code_simp
  have main: "un_fs (snd (unpack_package_archive_with_expected_root demo_archive (lit ''/cache'') archive_policy_default (Some (lit ''p-1.0.0''))
        Span_default (unpacking_start empty_fs))) [lit ''cache'', lit ''src'', lit ''main.ku''] = Some (File [4, 5])"
    by code_simp
  have out: "resolve (ae_cwd demo_archive) (lit ''/cache'') = [lit ''cache'']" by code_simp
  show ?thesis
    using archive_unpack_confined [OF empty_fs_well_formed, of demo_archive "lit ''/cache''" archive_policy_default
        "Some (lit ''p-1.0.0'')" Span_default] run main empty_fs_well_formed
    by (simp add: split_beta Let_def out)
qed

end
