(* ===== verification/Package_Summary.thy ===== *)
theory Package_Summary
  imports Package_Unpack
begin

text \<open>
  The summary of an archive agrees with what unpacking it writes: both walk the same entries with the same
  checks, so the checksum of the summary is the hash of the files that are found below the destination.
\<close>

section \<open>One entry\<close>

definition tree_record_of :: "archive_env \<Rightarrow> ustring list \<times> bytes \<Rightarrow> tree_record" where
  "tree_record_of env f = \<lparr>tr_path = join_with [slash] (fst f), tr_size = min u64_MAX (length (snd f)),
     tr_digest = ae_sha256 env (snd f)\<rparr>"

definition files_size :: "(ustring list \<times> bytes) list \<Rightarrow> nat" where
  "files_size fs = sum_list (map (\<lambda>(p, c). length c) fs)"

lemma portable_path_join:
  assumes "list_all portable_component ns" "\<forall>n \<in> set ns. slash \<notin> set n"
  shows "portable_path (join_with [slash] ns) = join_with [slash] ns"
proof (cases "ns = []")
  case False
  have "92 \<noteq> slash" by (simp add: slash_def ch_def)
  then have "92 \<notin> set (join_with [slash] ns)"
    using pieces_char [of 92 slash "join_with [slash] ns"] split_join [OF False assms(2)] assms(1) portable_no_backslash
    by (auto simp: list_all_iff)
  then show ?thesis by (auto simp: portable_path_def intro!: map_idI)
qed (simp add: portable_path_def)

lemma awp_check_deadline [awp_simps]:
  "awp (check_deadline env) Q s =
     (let s' = s\<lparr>sc_checks := sc_checks s + 1\<rparr> in
      if ae_expired env (sc_checks s) then Q (Inl (Raise cache_gc_budget_exhausted_error)) s' else Q (Inr ()) s')"
  by (simp add: check_deadline_def awp_simps)

text \<open>What the scan keeps from one step to the next, apart from its budget and clock.\<close>

definition scan_frame :: "tree_scan \<Rightarrow> tree_scan \<Rightarrow> bool" where
  "scan_frame s s' \<longleftrightarrow> sc_root s' = sc_root s \<and> sc_records s' = sc_records s \<and> sc_bytes s' = sc_bytes s"

definition on_success :: "('s \<Rightarrow> 'a \<Rightarrow> bool) \<Rightarrow> ku_error fault + 'a \<Rightarrow> 's \<Rightarrow> bool" where
  "on_success P r s = (case r of Inl _ \<Rightarrow> True | Inr x \<Rightarrow> P s x)"

lemma on_success_simps [simp]: "on_success P (Inl f) s" "on_success P (Inr x) s = P s x"
  by (simp_all add: on_success_def)

lemma hash_archive_file_effect:
  assumes "n = min u64_MAX (length hashed)" "scan_frame s0 s"
  shows "awp (hash_archive_file env policy file_size sp n hashed chunks)
    (on_success (\<lambda>s' (m, c). scan_frame s0 s' \<and> c = hashed @ contents chunks \<and> m = min u64_MAX (length c))) s"
  using assms
proof (induction chunks arbitrary: n hashed s)
  case Nil
  then show ?case by (auto simp: awp_simps Let_def check_scan_deadline_def scan_frame_def)
next
  case (Cons chunk chunks)
  have n: "saturating_add n (length bs) = min u64_MAX (length (hashed @ bs))" for bs :: bytes
    using Cons.prems(1) by (auto simp: saturating_add_def)
  have step: "awp (hash_archive_file env policy file_size sp (saturating_add n (length bs)) (hashed @ bs) chunks)
      (on_success (\<lambda>s' (m, c). scan_frame s0 s' \<and> c = hashed @ bs @ contents chunks \<and> m = min u64_MAX (length c))) s'"
    if "scan_frame s0 s'" for bs s'
    using Cons.IH [OF n that] by simp
  then show ?case using Cons.prems
    by (auto simp: awp_simps Let_def check_scan_deadline_def scan_frame_def split: sum.splits)
qed

lemma summarize_file_effect:
  "awp (summarize_file env policy relative entry sp)
    (on_success (\<lambda>s' _. sc_root s' = sc_root s \<and> sc_bytes s' = saturating_add (sc_bytes s) (length (contents (te_chunks entry)))
       \<and> sc_records s' = sc_records s @ [\<lparr>tr_path = relative, tr_size = min u64_MAX (length (contents (te_chunks entry))),
           tr_digest = ae_sha256 env (contents (te_chunks entry))\<rparr>])) s"
proof (cases "te_size entry")
  case (Inr file_size)
  let ?s = "s\<lparr>sc_bytes := saturating_add (sc_bytes s) file_size\<rparr>"
  have "awp (hash_archive_file env policy file_size sp 0 [] (te_chunks entry))
    (on_success (\<lambda>s' (m, c). scan_frame ?s s' \<and> c = contents (te_chunks entry) \<and> m = min u64_MAX (length c))) ?s"
    using hash_archive_file_effect [of 0 "[]" ?s ?s env policy file_size sp "te_chunks entry"] by (simp add: scan_frame_def)
  then show ?thesis
    by (auto simp: summarize_file_def Inr awp_simps scan_frame_def saturating_add_def elim!: awp_mono split: sum.splits)
qed (simp add: summarize_file_def awp_simps)

definition scan_step :: "archive_env \<Rightarrow> (ustring list \<times> bytes) list \<Rightarrow> tree_scan \<Rightarrow> tree_scan \<Rightarrow> bool" where
  "scan_step env files s s' \<longleftrightarrow> sc_records s' = sc_records s @ map (tree_record_of env) files
     \<and> sc_bytes s' = saturating_add (sc_bytes s) (files_size files)"

lemma scan_step_nothing: "sc_bytes s \<le> u64_MAX \<Longrightarrow> sc_records s' = sc_records s \<Longrightarrow> sc_bytes s' = sc_bytes s \<Longrightarrow> scan_step env [] s s'"
  by (simp add: scan_step_def files_size_def saturating_add_def)

lemma scan_step_append: "scan_step env fs s s1 \<Longrightarrow> scan_step env gs s1 s2 \<Longrightarrow> scan_step env (fs @ gs) s s2"
  by (auto simp: scan_step_def files_size_def saturating_add_def)

lemma summarize_entry_effect:
  assumes "sc_bytes s \<le> u64_MAX"
  shows "awp (summarize_entry env policy sp item) (on_success (\<lambda>s' _. scan_step env (entry_files item) s s')) s"
proof -
  have root: "scan_step env (entry_files item) s s'"
    if "item = Inr entry" "te_type entry = ET_Dir" "sc_records s' = sc_records s" "sc_bytes s' = sc_bytes s" for entry s'
    using that assms scan_step_nothing [of s s'] by (auto simp: entry_files_def split: sum.splits option.splits)
  have placed: "awp (summarize_file env policy (portable_path relative) entry sp) (on_success (\<lambda>s' _. scan_step env (entry_files item) s s')) s1"
    if entry: "item = Inr entry" "te_path entry = Inr path" "te_type entry \<noteq> ET_Other" "te_type entry \<noteq> ET_Dir"
      and path: "validate_archive_entry_path path root_name policy sp = Inr (relative, root')"
      and same: "sc_records s1 = sc_records s" "sc_bytes s1 = sc_bytes s" for entry path root_name relative root' s1
  proof -
    obtain t where t: "path = Some t" "relative = join_with [slash] (tl (names t))" "names t \<noteq> []"
        "list_all portable_component (names t)" "\<forall>n \<in> set (names t). slash \<notin> set n"
      using path by (rule entry_path_accepted)
    then have "list_all portable_component (tl (names t))" "\<forall>n \<in> set (tl (names t)). slash \<notin> set n"
      by (auto simp: list_all_iff dest: list.set_sel(2))
    then have "portable_path relative = join_with [slash] (tl (names t))" using t(2) portable_path_join by simp
    moreover have "te_type entry = ET_File" using entry(3,4) by (cases "te_type entry") auto
    ultimately show ?thesis
      by (intro awp_mono [OF summarize_file_effect [of _ _ _ _ _ s1]])
        (use entry t(1) same in \<open>auto simp: on_success_def scan_step_def entry_files_def tree_record_of_def files_size_def split: sum.splits\<close>)
  qed
  show ?thesis
    using root placed
    by (auto simp: summarize_entry_def consume_or_error_def awp_simps Let_def split: sum.splits option.splits)
qed

lemma summarize_entries_effect:
  "sc_bytes s \<le> u64_MAX \<Longrightarrow>
   awp (summarize_entries env policy sp items) (on_success (\<lambda>s' _. scan_step env (archive_files items) s s')) s"
proof (induction items arbitrary: s)
  case Nil
  then show ?case by (simp add: awp_simps scan_step_nothing)
next
  case (Cons item items)
  have rest: "awp (summarize_entries env policy sp items) (on_success (\<lambda>s' _. scan_step env (entry_files item @ archive_files items) s s')) s1"
    if "scan_step env (entry_files item) s s1" for s1
    by (rule awp_mono [OF Cons.IH])
      (use that in \<open>auto simp: on_success_def scan_step_def saturating_add_def files_size_def split: sum.splits\<close>)
  show ?case
    unfolding summarize_entries.simps awp_bind
    by (rule awp_mono [OF summarize_entry_effect [OF Cons.prems]]) (auto dest: rest split: sum.splits)
qed

lemma summary_effect:
  "awp (package_archive_tree_summary_with_budget env policy sp)
    (on_success (\<lambda>s' m. \<exists>items. ae_entries env = Inr items
       \<and> m = \<lparr>tm_checksum = finish_package_tree_hash env (map (tree_record_of env) (archive_files items)),
              tm_bytes = min u64_MAX (files_size (archive_files items))\<rparr>)) (scan_start budget)"
proof -
  have run: "awp (summarize_entries env policy sp items)
      (on_success (\<lambda>s' _. scan_step env (archive_files items) (scan_start budget) s')) (scan_start budget)" for items
    by (rule summarize_entries_effect) (simp add: scan_start_def)
  show ?thesis
    unfolding package_archive_tree_summary_with_budget_def
    by (auto simp: awp_simps split: sum.splits option.splits intro!: awp_mono [OF run])
      (auto simp: on_success_def scan_step_def scan_start_def saturating_add_def awp_simps split: sum.splits)
qed

section \<open>Properties\<close>

text \<open>C10: The summary of an archive describes what unpacking it leaves on disk. When both accept an archive, under
  any clocks and budgets, the files below the destination are exactly the files the summary has hashed: the
  checksum is the hash over these files in the order of their paths, with the path, size and digest of each, and
  the byte count is the sum of their sizes. So comparing it with the hash of the unpacked tree detects any
  difference the hash function can tell.\<close>

theorem archive_summary_agrees:
  assumes "well_formed_fs fs"
  shows "case (unpack_package_archive_with_expected_root env output_dir policy expected sp (unpacking_start fs),
       package_archive_tree_summary_with_budget (env\<lparr>ae_expired := clock\<rparr>) policy' sp' (scan_start budget)) of
     ((Inr d, s), (Inr m, s')) \<Rightarrow>
       (\<exists>files. distinct (map fst files)
          \<and> (\<forall>p c. un_fs s (resolve (ae_cwd env) output_dir @ p) = Some (File c) \<longleftrightarrow> (p, c) \<in> set files)
          \<and> tm_checksum m = finish_package_tree_hash env (map (tree_record_of env) files)
          \<and> tm_bytes m = min u64_MAX (files_size files))
   | _ \<Rightarrow> True"
proof -
  let ?env = "env\<lparr>ae_expired := clock\<rparr>"
  have same: "tree_record_of ?env = tree_record_of env" "finish_package_tree_hash ?env = finish_package_tree_hash env"
    by (auto simp: tree_record_of_def finish_package_tree_hash_def)
  have keys: "distinct (map fst files)" if "distinct (files_keys env files)" for files
  proof -
    have "files_keys env files = map (path_key env) (map fst files)" by (simp add: files_keys_def split_beta)
    then show ?thesis using that distinct_map by metis
  qed
  obtain r s where unpack: "unpack_package_archive_with_expected_root env output_dir policy expected sp (unpacking_start fs) = (r, s)"
    by fastforce
  obtain q s' where summary: "package_archive_tree_summary_with_budget ?env policy' sp' (scan_start budget) = (q, s')"
    by fastforce
  show ?thesis
  proof (cases "isl r \<or> isl q")
    case True
    then show ?thesis by (auto simp: unpack summary split: sum.splits)
  next
    case False
    then obtain d m where results: "r = Inr d" "q = Inr m" by (cases r; cases q) auto
    have "unpacked env (resolve (ae_cwd env) output_dir) expected s"
      using unpack_effect [OF assms, of env output_dir policy expected sp]
      by (simp add: awp_def unpack unpack_post_def Let_def results)
    then obtain items where items: "ae_entries env = Inr items" "distinct (files_keys env (archive_files items))"
        "\<forall>p c. un_fs s (resolve (ae_cwd env) output_dir @ p) = Some (File c) \<longleftrightarrow> (p, c) \<in> set (archive_files items)"
      by (auto simp: unpacked_def)
    have "m = \<lparr>tm_checksum = finish_package_tree_hash env (map (tree_record_of env) (archive_files items)),
              tm_bytes = min u64_MAX (files_size (archive_files items))\<rparr>"
      using summary_effect [of ?env policy' sp' budget] items(1) by (simp add: awp_def summary results same)
    then show ?thesis
      unfolding unpack summary results using items keys [OF items(2)]
      by (simp add: exI [of _ "archive_files items"])
  qed
qed

theorem archive_summary_agrees_witness:
  "well_formed_fs empty_fs
   \<and> (case (unpack_package_archive_with_expected_root demo_archive (lit ''/cache'') archive_policy_default (Some (lit ''p-1.0.0''))
            Span_default (unpacking_start empty_fs),
          package_archive_tree_summary_with_budget (demo_archive\<lparr>ae_expired := (\<lambda>_. False)\<rparr>) archive_policy_default Span_default
            (scan_start (Some 9))) of
        ((Inr d, s), (Inr m, s')) \<Rightarrow> tm_bytes m = 5
          \<and> (\<exists>files. (\<forall>p c. un_fs s ([lit ''cache''] @ p) = Some (File c) \<longleftrightarrow> (p, c) \<in> set files) \<and> files_size files = 5)
      | _ \<Rightarrow> False)"
proof -
  let ?u = "unpack_package_archive_with_expected_root demo_archive (lit ''/cache'') archive_policy_default (Some (lit ''p-1.0.0''))
            Span_default (unpacking_start empty_fs)"
  let ?m = "package_archive_tree_summary_with_budget (demo_archive\<lparr>ae_expired := (\<lambda>_. False)\<rparr>) archive_policy_default Span_default
            (scan_start (Some 9))"
  have "\<not> isl (fst ?u)" "(case fst ?m of Inr m \<Rightarrow> tm_bytes m = 5 | _ \<Rightarrow> False)" by code_simp+
  moreover have "resolve (ae_cwd demo_archive) (lit ''/cache'') = [lit ''cache'']" by code_simp
  moreover have "min u64_MAX n = 5 \<longleftrightarrow> n = 5" for n by (auto simp: u64_MAX_def min_def)
  ultimately show ?thesis
    using archive_summary_agrees [OF empty_fs_well_formed, of demo_archive "lit ''/cache''" archive_policy_default
        "Some (lit ''p-1.0.0'')" Span_default "\<lambda>_. False" archive_policy_default Span_default "Some 9"] empty_fs_well_formed
    by (auto split: prod.splits sum.splits)
qed

end
