(* ===== verification/Package_Text.thy ===== *)
theory Package_Text
  imports Package_Paths Package_Archive Package_Solver Diagnostics
begin

text \<open>
  The text formats of the package manager (\<open>src/src/package.rs\<close>): lines of \<open>key = "value"\<close> with comments, the
  checks on checksums and sources, and the drafts in which the fields of a dependency are collected. URLs, keys
  and the order in which a hash map is walked come from libraries and are parameters.
\<close>

section \<open>Lines and values\<close>

lemma lit_eq_Nil [simp]: "lit s = [] \<longleftrightarrow> s = []"
  by (simp add: lit_def)

text \<open>\<open>raw_line.split('#').next().unwrap_or("").trim()\<close>\<close>

definition meaningful :: "ustring \<Rightarrow> ustring" where
  "meaningful raw = trim_text (hd (split_char (ch CHR ''#'') raw))"

definition split_once :: "uchar \<Rightarrow> ustring \<Rightarrow> (ustring \<times> ustring) option" where
  "split_once d s = (if d \<in> set s then Some (takeWhile (\<lambda>c. c \<noteq> d) s, tl (dropWhile (\<lambda>c. c \<noteq> d) s)) else None)"

definition strip_prefix :: "ustring \<Rightarrow> ustring \<Rightarrow> ustring option" where
  "strip_prefix p s = (if str_starts_with s p then Some (drop (length p) s) else None)"

definition quote :: uchar where "quote = ch CHR 0x22"

definition parse_string_value :: "ustring \<Rightarrow> nat \<Rightarrow> span \<Rightarrow> ku_error + ustring" where
  "parse_string_value v line_no sp =
     (if 2 \<le> str_len v \<and> hd v = quote \<and> last v = quote then Inr (butlast (tl v))
      else Inl (package_error (lit ''invalid_manifest_value'')
        (lit ''invalid ku.mod value on line '' @ nat_to_string line_no @ lit '': expected quoted string'') sp))"

section \<open>Bytes\<close>

definition hex_value :: "8 word \<Rightarrow> 8 word option" where
  "hex_value v =
     (if 48 \<le> v \<and> v \<le> 57 then Some (v - 48)
      else if 97 \<le> v \<and> v \<le> 102 then Some (v - 97 + 10)
      else if 65 \<le> v \<and> v \<le> 70 then Some (v - 65 + 10)
      else None)"

definition is_ascii_hexdigit :: "uchar \<Rightarrow> bool" where
  "is_ascii_hexdigit c \<longleftrightarrow> is_ascii_digit c \<or> 97 \<le> c \<and> c \<le> 102 \<or> 65 \<le> c \<and> c \<le> 70"

definition byte_of_hex :: "8 word \<Rightarrow> 8 word \<Rightarrow> 8 word option" where
  "byte_of_hex h l = (case (hex_value h, hex_value l) of
       (Some hi, Some lo) \<Rightarrow> Some (or (push_bit 4 hi) lo)
     | _ \<Rightarrow> None)"

fun percent_bytes :: "bytes \<Rightarrow> bytes option" where
  "percent_bytes [] = Some []"
| "percent_bytes (b # bs) =
     (if b = 37 then (case bs of
          h # l # rest \<Rightarrow> (case byte_of_hex h l of None \<Rightarrow> None | Some x \<Rightarrow> map_option ((#) x) (percent_bytes rest))
        | _ \<Rightarrow> None)
      else map_option ((#) b) (percent_bytes bs))"

text \<open>\<open>String::from_utf8\<close>: continuation bytes have the form \<open>10xxxxxx\<close>, and a scalar value has one encoding.\<close>

definition continuation :: "8 word \<Rightarrow> nat option" where
  "continuation b = (if 0x80 \<le> b \<and> b < 0xC0 then Some (unat b - 0x80) else None)"

definition scalar_value :: "nat \<Rightarrow> bool" where
  "scalar_value c \<longleftrightarrow> c < 0xD800 \<or> 0xE000 \<le> c \<and> c < 0x110000"

definition utf8_lead :: "8 word \<Rightarrow> (nat \<times> nat) option" where
  "utf8_lead b =
     (if b < 0x80 then Some (0, unat b)
      else if 0xC0 \<le> b \<and> b < 0xE0 then Some (1, unat b - 0xC0)
      else if 0xE0 \<le> b \<and> b < 0xF0 then Some (2, unat b - 0xE0)
      else if 0xF0 \<le> b \<and> b < 0xF8 then Some (3, unat b - 0xF0)
      else None)"

fun utf8_tail :: "nat \<Rightarrow> nat \<Rightarrow> bytes \<Rightarrow> (nat \<times> bytes) option" where
  "utf8_tail 0 acc bs = Some (acc, bs)"
| "utf8_tail (Suc n) acc (b # bs) = (case continuation b of None \<Rightarrow> None | Some v \<Rightarrow> utf8_tail n (acc * 64 + v) bs)"
| "utf8_tail (Suc n) acc [] = None"

lemma utf8_tail_code [code]:
  "utf8_tail n acc bs = (if n = 0 then Some (acc, bs) else case bs of
     [] \<Rightarrow> None
   | b # bs' \<Rightarrow> (case continuation b of None \<Rightarrow> None | Some v \<Rightarrow> utf8_tail (n - 1) (acc * 64 + v) bs'))"
  by (cases n; cases bs) (auto split: option.splits)

lemma utf8_tail_length: "utf8_tail n acc bs = Some (c, rest) \<Longrightarrow> length rest \<le> length bs"
  by (induction n acc bs rule: utf8_tail.induct) (auto split: option.splits)

function from_utf8 :: "bytes \<Rightarrow> ustring option" where
  "from_utf8 [] = Some []"
| "from_utf8 (b # bs) = (case utf8_lead b of
       None \<Rightarrow> None
     | Some (n, acc) \<Rightarrow> (case utf8_tail n acc bs of
         None \<Rightarrow> None
       | Some (c, rest) \<Rightarrow>
           if len_utf8 c = n + 1 \<and> scalar_value c then map_option ((#) c) (from_utf8 rest) else None))"
  by pat_completeness auto
termination
  by (relation "measure length") (auto dest: utf8_tail_length)

definition percent_decode :: "ustring \<Rightarrow> ustring option" where
  "percent_decode v = (case percent_bytes (utf8_encode v) of None \<Rightarrow> None | Some bs \<Rightarrow> from_utf8 bs)"

text \<open>The path of a \<open>file://\<close> source, absolute on Unix.\<close>

definition file_url_path :: "ustring \<Rightarrow> ustring option" where
  "file_url_path source = (case strip_prefix (lit ''file://'') source of
       None \<Rightarrow> None
     | Some raw \<Rightarrow>
         if raw = [] \<or> str_starts_with raw [slash, slash] \<or> 92 \<in> set raw then None
         else let bytes = utf8_encode raw;
                  p = (if str_starts_with raw [slash] \<and> 2 < length bytes \<and> bytes ! 2 = 58 then tl raw else raw) in
           case percent_decode p of
             None \<Rightarrow> None
           | Some decoded \<Rightarrow>
               if 92 \<in> set decoded \<or> list_ex is_control decoded then None
               else if str_starts_with decoded [slash] then Some decoded
               else None)"

section \<open>Checksums and keys\<close>

definition prefixed_hex :: "string \<Rightarrow> nat \<Rightarrow> ustring \<Rightarrow> bool" where
  "prefixed_hex p n v = (case strip_prefix (lit p) v of
       None \<Rightarrow> False
     | Some hex \<Rightarrow> str_len hex = n \<and> list_all is_ascii_hexdigit hex)"

definition validate_checksum :: "ustring \<Rightarrow> span \<Rightarrow> ku_error + unit" where
  "validate_checksum v sp =
     (if prefixed_hex ''ku-fnv64-'' 16 v then Inr ()
      else Inl (package_error (lit ''invalid_checksum'')
        (lit ''dependency checksum must use ku-fnv64- followed by 16 hex digits'') sp))"

definition validate_sha256_checksum :: "ustring \<Rightarrow> span \<Rightarrow> ku_error + unit" where
  "validate_sha256_checksum v sp =
     (if prefixed_hex ''sha256-'' 64 v then Inr ()
      else Inl (package_error (lit ''invalid_registry_checksum'')
        (lit ''registry checksum must use sha256- followed by 64 hex digits'') sp))"

definition checksum_digest :: "string \<Rightarrow> ustring \<Rightarrow> ustring" where
  "checksum_digest p v = (case strip_prefix (lit p) v of None \<Rightarrow> v | Some d \<Rightarrow> d)"

definition file_cache_key :: "ustring \<Rightarrow> ustring \<Rightarrow> ustring \<Rightarrow> ustring" where
  "file_cache_key name version checksum =
     name @ lit ''-'' @ version @ lit ''-fnv64-'' @ checksum_digest ''ku-fnv64-'' checksum"

definition registry_cache_key_for_identity :: "ustring \<Rightarrow> ustring \<Rightarrow> ustring \<Rightarrow> ustring" where
  "registry_cache_key_for_identity name version checksum =
     name @ lit ''-'' @ version @ lit ''-sha256-'' @ checksum_digest ''sha256-'' checksum"

definition registry_cache_key :: "registry_manifest \<Rightarrow> ustring" where
  "registry_cache_key m = registry_cache_key_for_identity (rm_name m) (rm_version m) (rm_checksum m)"

fun hex_pairs :: "bytes \<Rightarrow> bytes option" where
  "hex_pairs [] = Some []"
| "hex_pairs [h] = None"
| "hex_pairs (h # l # rest) = (case byte_of_hex h l of None \<Rightarrow> None | Some x \<Rightarrow> map_option ((#) x) (hex_pairs rest))"

definition parse_prefixed_hex :: "nat \<Rightarrow> ustring \<Rightarrow> string \<Rightarrow> string \<Rightarrow> string \<Rightarrow> span \<Rightarrow> ku_error + bytes" where
  "parse_prefixed_hex n v p code message sp =
     (let err = package_error (lit code) (lit message) sp in
      case strip_prefix (lit p) v of
        None \<Rightarrow> Inl err
      | Some hex \<Rightarrow>
          if str_len hex \<noteq> n * 2 \<or> \<not> list_all is_ascii_hexdigit hex then Inl err
          else (case hex_pairs (utf8_encode hex) of None \<Rightarrow> Inl err | Some bs \<Rightarrow> Inr bs))"

section \<open>URLs\<close>

record url =
  ul_scheme :: ustring
  ul_host :: "ustring option"
  ul_username :: ustring
  ul_password :: "ustring option"
  ul_fragment :: "ustring option"
  ul_query :: "ustring option"
  ul_path :: ustring
  ul_text :: ustring

text \<open>\<open>Url::parse\<close>, \<open>Url::join\<close>, \<open>VerifyingKey::from_bytes\<close> and the order in which the keys of a hash map are
  visited.\<close>

record registry_env =
  re_parse :: "ustring \<Rightarrow> url option"
  re_join :: "url \<Rightarrow> ustring \<Rightarrow> url option"
  re_key_ok :: "bytes \<Rightarrow> bool"
  re_iter :: "ustring list \<Rightarrow> ustring list"

text \<open>What the standard library says of the order: every key is visited once.\<close>

definition visits_keys :: "registry_env \<Rightarrow> bool" where
  "visits_keys env \<longleftrightarrow> (\<forall>ks. mset (re_iter env ks) = mset ks)"

definition MAX_REGISTRY_URL_BYTES :: nat where "MAX_REGISTRY_URL_BYTES = 2048"
definition MAX_REGISTRY_LINE_BYTES :: nat where "MAX_REGISTRY_LINE_BYTES = 8192"

definition invalid_registry_url_error :: "span \<Rightarrow> ku_error" where
  "invalid_registry_url_error sp = package_error (lit ''invalid_registry_url'')
     (lit ''registry URL must use HTTPS, include a host, and omit credentials, fragments, and whitespace'') sp"

definition validate_parsed_registry_url :: "url \<Rightarrow> span \<Rightarrow> ku_error + unit" where
  "validate_parsed_registry_url u sp =
     (if ul_scheme u \<noteq> lit ''https'' \<or> ul_host u = None \<or> ul_username u \<noteq> [] \<or> ul_password u \<noteq> None
         \<or> ul_fragment u \<noteq> None \<or> list_ex is_whitespace (ul_text u)
      then Inl (invalid_registry_url_error sp) else Inr ())"

definition validate_registry_url :: "registry_env \<Rightarrow> ustring \<Rightarrow> span \<Rightarrow> ku_error + unit" where
  "validate_registry_url env v sp =
     (if MAX_REGISTRY_URL_BYTES < str_len v \<or> list_ex is_whitespace v then Inl (invalid_registry_url_error sp)
      else case re_parse env v of None \<Rightarrow> Inl (invalid_registry_url_error sp) | Some u \<Rightarrow> validate_parsed_registry_url u sp)"

definition validate_registry_base_url :: "registry_env \<Rightarrow> ustring \<Rightarrow> span \<Rightarrow> ku_error + unit" where
  "validate_registry_base_url env v sp = (case validate_registry_url env v sp of
       Inl e \<Rightarrow> Inl e
     | Inr _ \<Rightarrow> (case re_parse env v of
         None \<Rightarrow> Inl (invalid_registry_url_error sp)
       | Some u \<Rightarrow>
           if ul_query u \<noteq> None \<or> \<not> ends_with (ul_path u) [slash] then Inl (package_error (lit ''invalid_registry_url'')
             (lit ''registry.url must omit query parameters and end with '' @ quoted [slash]) sp)
           else Inr ()))"

definition validate_registry_archive_url :: "registry_env \<Rightarrow> ustring \<Rightarrow> span \<Rightarrow> ku_error + unit" where
  "validate_registry_archive_url env v sp = (case re_parse env v of
       None \<Rightarrow> Inl (invalid_registry_url_error sp)
     | Some u \<Rightarrow>
         if ul_query u \<noteq> None \<or> \<not> ends_with (ul_path u) (lit ''.tar.zst'') then Inl (package_error (lit ''invalid_registry_archive'')
           (lit ''registry package archive must use a stable .tar.zst URL without query parameters'') sp)
         else Inr ())"

definition resolve_registry_url :: "registry_env \<Rightarrow> ustring \<Rightarrow> ustring \<Rightarrow> span \<Rightarrow> ku_error + ustring" where
  "resolve_registry_url env base_url v sp = (case validate_registry_url env base_url sp of
       Inl e \<Rightarrow> Inl e
     | Inr _ \<Rightarrow>
         if list_ex is_whitespace v then Inl (invalid_registry_url_error sp)
         else case re_parse env base_url of
           None \<Rightarrow> Inl (invalid_registry_url_error sp)
         | Some base \<Rightarrow> (case re_join env base v of
             None \<Rightarrow> Inl (invalid_registry_url_error sp)
           | Some resolved \<Rightarrow> (case validate_parsed_registry_url resolved sp of
               Inl e \<Rightarrow> Inl e
             | Inr _ \<Rightarrow> Inr (ul_text resolved))))"

definition parse_ed25519_public_key :: "registry_env \<Rightarrow> ustring \<Rightarrow> span \<Rightarrow> ku_error + bytes" where
  "parse_ed25519_public_key env v sp =
     (case parse_prefixed_hex 32 v ''ed25519-'' ''invalid_registry_public_key''
         ''registry.public_key must use ed25519- followed by 64 hex digits'' sp of
       Inl e \<Rightarrow> Inl e
     | Inr bs \<Rightarrow>
         if re_key_ok env bs then Inr bs
         else Inl (package_error (lit ''invalid_registry_public_key'')
           (lit ''registry.public_key is not a valid Ed25519 public key'') sp))"

definition parse_ed25519_signature :: "ustring \<Rightarrow> span \<Rightarrow> ku_error + bytes" where
  "parse_ed25519_signature v sp = parse_prefixed_hex 64 v ''ed25519-'' ''invalid_registry_signature''
     ''registry signature must use ed25519- followed by 128 hex digits'' sp"

section \<open>Fields\<close>

text \<open>The operator \<open>?\<close>.\<close>

definition ebind :: "'e + 'a \<Rightarrow> ('a \<Rightarrow> 'e + 'b) \<Rightarrow> 'e + 'b" where
  "ebind m f = (case m of Inl e \<Rightarrow> Inl e | Inr x \<Rightarrow> f x)"

type_synonym field_map = "(ustring \<times> ustring) list"

definition required_field :: "field_map \<Rightarrow> string \<Rightarrow> string \<Rightarrow> span \<Rightarrow> ku_error + ustring" where
  "required_field fs name kind sp = (case map_of fs (lit name) of
       Some v \<Rightarrow> Inr v
     | None \<Rightarrow> Inl (package_error (lit ''missing_registry_field'')
         (lit kind @ lit '' missing required field '' @ quoted (lit name)) sp))"

definition reject_unknown_fields :: "registry_env \<Rightarrow> field_map \<Rightarrow> string list \<Rightarrow> string \<Rightarrow> span \<Rightarrow> ku_error + unit" where
  "reject_unknown_fields env fs allowed kind sp = (case find (\<lambda>k. k \<notin> set (map lit allowed)) (re_iter env (map fst fs)) of
       Some name \<Rightarrow> Inl (package_error (lit ''invalid_registry_field'')
         (lit kind @ lit '' has unsupported field '' @ quoted name) sp)
     | None \<Rightarrow> Inr ())"

definition set_manifest_once :: "ustring option \<Rightarrow> ustring \<Rightarrow> ustring \<Rightarrow> nat \<Rightarrow> span \<Rightarrow> ku_error + ustring option" where
  "set_manifest_once target v key line_no sp =
     (if target = None then Inr (Some v)
      else Inl (package_error (lit ''duplicate_manifest_key'')
        (lit ''duplicate ku.mod key '' @ quoted key @ lit '' on line '' @ nat_to_string line_no) sp))"

section \<open>Drafts of dependencies\<close>

record dependency_draft =
  dr_name :: ustring
  dr_version :: "ustring option"
  dr_source :: "ustring option"
  dr_checksum :: "ustring option"

definition invalid_dependency_key_error :: "nat \<Rightarrow> span \<Rightarrow> ku_error" where
  "invalid_dependency_key_error line_no sp = package_error (lit ''invalid_dependency_key'')
     (lit ''invalid dependency key on line '' @ nat_to_string line_no) sp"

definition set_draft_field ::
    "ustring option \<Rightarrow> dependency_draft \<Rightarrow> ustring \<Rightarrow> nat \<Rightarrow> span \<Rightarrow> ku_error + dependency_draft" where
  "set_draft_field field d v line_no sp =
     (let key = lit ''dep.'' @ dr_name d in
      case field of
        None \<Rightarrow> map_sum id (\<lambda>x. d\<lparr>dr_version := x\<rparr>) (set_manifest_once (dr_version d) v key line_no sp)
      | Some f \<Rightarrow>
          if f = lit ''source'' then
            map_sum id (\<lambda>x. d\<lparr>dr_source := x\<rparr>) (set_manifest_once (dr_source d) v (key @ lit ''.source'') line_no sp)
          else if f = lit ''checksum'' then
            map_sum id (\<lambda>x. d\<lparr>dr_checksum := x\<rparr>) (set_manifest_once (dr_checksum d) v (key @ lit ''.checksum'') line_no sp)
          else Inl (package_error (lit ''invalid_dependency_field'')
            (lit ''invalid dependency field '' @ quoted f @ lit '' on line '' @ nat_to_string line_no) sp))"

definition parse_dependency_key ::
    "ustring \<Rightarrow> ustring \<Rightarrow> (ustring \<times> dependency_draft) list \<Rightarrow> nat \<Rightarrow> span \<Rightarrow> ku_error + (ustring \<times> dependency_draft) list" where
  "parse_dependency_key key v drafts line_no sp = (case strip_prefix (lit ''dep.'') key of
       None \<Rightarrow> Inl (invalid_dependency_key_error line_no sp)
     | Some rest \<Rightarrow>
         let (name, field) = (case split_once (ch CHR ''.'') rest of Some (n, f) \<Rightarrow> (n, Some f) | None \<Rightarrow> (rest, None)) in
         if name = [] then Inl (invalid_dependency_key_error line_no sp)
         else let d = (case map_of drafts name of
                  Some d \<Rightarrow> d
                | None \<Rightarrow> \<lparr>dr_name = name, dr_version = None, dr_source = None, dr_checksum = None\<rparr>) in
           map_sum id (\<lambda>d'. hm_insert name d' drafts) (set_draft_field field d v line_no sp))"

definition draft_finish :: "dependency_draft \<Rightarrow> span \<Rightarrow> ku_error + package_dependency" where
  "draft_finish d sp = (case validate_package_name (dr_name d) sp of
       Inl e \<Rightarrow> Inl e
     | Inr _ \<Rightarrow> (case dr_version d of
         None \<Rightarrow> Inl (package_error (lit ''missing_dependency_version'')
           (lit ''dependency '' @ quoted (dr_name d) @ lit '' missing version'') sp)
       | Some version \<Rightarrow> (case validate_version_requirement version sp of
           Inl e \<Rightarrow> Inl e
         | Inr _ \<Rightarrow>
             if (case dr_source d of None \<Rightarrow> False
                 | Some source \<Rightarrow> MAX_REGISTRY_URL_BYTES < str_len source \<or> file_url_path source = None)
             then Inl (package_error (lit ''invalid_dependency_source'')
               (lit ''dependency '' @ quoted (dr_name d) @ lit '' local source must use an absolute canonical file:// path with forward slashes and at most ''
                 @ nat_to_string MAX_REGISTRY_URL_BYTES @ lit '' bytes'') sp)
             else case (case dr_checksum d of None \<Rightarrow> Inr () | Some checksum \<Rightarrow>
                 (case validate_checksum checksum sp of
                    Inl e \<Rightarrow> Inl e
                  | Inr _ \<Rightarrow>
                      if dr_source d = None then Inl (package_error (lit ''invalid_dependency_checksum_source'')
                        (lit ''registry dependency '' @ quoted (dr_name d) @ lit '' gets its SHA-256 checksum from the signed index; dep.''
                          @ dr_name d @ lit ''.checksum is only valid with file://'') sp)
                      else Inr ())) of
               Inl e \<Rightarrow> Inl e
             | Inr _ \<Rightarrow> Inr \<lparr>pd_name = dr_name d, pd_version = version, pd_source = dr_source d, pd_checksum = dr_checksum d\<rparr>)))"

text \<open>\<open>into_values().map(finish).collect()\<close>, then sorted by name.\<close>

fun finish_all :: "dependency_draft list \<Rightarrow> span \<Rightarrow> ku_error + package_dependency list" where
  "finish_all [] sp = Inr []"
| "finish_all (d # ds) sp = (case draft_finish d sp of
       Inl e \<Rightarrow> Inl e
     | Inr x \<Rightarrow> map_sum id ((#) x) (finish_all ds sp))"

definition finish_drafts ::
    "registry_env \<Rightarrow> (ustring \<times> dependency_draft) list \<Rightarrow> span \<Rightarrow> ku_error + package_dependency list" where
  "finish_drafts env drafts sp =
     map_sum id (sort_key pd_name) (finish_all (List.map_filter (map_of drafts) (re_iter env (map fst drafts))) sp)"

section \<open>Manifests and contexts\<close>

record package_registry =
  pr_url :: ustring
  pr_public_key :: ustring

record ku_mod =
  km_name :: ustring
  km_version :: "ustring option"
  km_root :: "ustring option"
  km_main :: "ustring option"
  km_out :: "ustring option"
  km_cache :: "ustring option"
  km_template :: "ustring option"
  km_package_type :: "ustring option"
  km_registry :: "package_registry option"
  km_dependencies :: "package_dependency list"

definition DEFAULT_IMPORT_ROOT :: ustring where "DEFAULT_IMPORT_ROOT = lit ''src''"
definition DEFAULT_MAIN_FILE :: ustring where "DEFAULT_MAIN_FILE = lit ''main.ku''"
definition DEFAULT_BUILD_DIR :: ustring where "DEFAULT_BUILD_DIR = lit ''.ku/build''"
definition DEFAULT_CACHE_DIR :: ustring where "DEFAULT_CACHE_DIR = lit ''.ku/cache''"

end
