(* ===== verification/Package_Manifest.thy ===== *)
theory Package_Manifest
  imports Package_Text
begin

text \<open>
  Manifests and registry indexes (\<open>src/src/package.rs\<close>, \<open>parse_manifest\<close>, \<open>parse_registry_index\<close>): both are read
  line by line into drafts, which are then checked and completed.
\<close>

section \<open>Manifests\<close>

record manifest_draft =
  md_name :: "ustring option"
  md_version :: "ustring option"
  md_root :: "ustring option"
  md_main :: "ustring option"
  md_out :: "ustring option"
  md_cache :: "ustring option"
  md_template :: "ustring option"
  md_package_type :: "ustring option"
  md_registry_url :: "ustring option"
  md_registry_public_key :: "ustring option"
  md_dependencies :: "(ustring \<times> dependency_draft) list"

definition manifest_draft_new :: manifest_draft where
  "manifest_draft_new = \<lparr>md_name = None, md_version = None, md_root = None, md_main = None, md_out = None, md_cache = None,
     md_template = None, md_package_type = None, md_registry_url = None, md_registry_public_key = None, md_dependencies = []\<rparr>"

definition manifest_dependency_limit_error :: "span \<Rightarrow> ku_error" where
  "manifest_dependency_limit_error sp = package_error (lit ''dependency_limit'')
     (lit ''package declares more than '' @ nat_to_string MAX_REGISTRY_DEPENDENCIES @ lit '' dependencies'') sp"

text \<open>The \<open>match\<close> on the key of a line.\<close>

definition set_manifest_key ::
    "ustring \<Rightarrow> ustring \<Rightarrow> nat \<Rightarrow> span \<Rightarrow> manifest_draft \<Rightarrow> ku_error + manifest_draft" where
  "set_manifest_key key v line_no sp m =
     (let once = (\<lambda>target upd. map_sum id upd (set_manifest_once target v key line_no sp)) in
      if key = lit ''name'' then once (md_name m) (\<lambda>x. m\<lparr>md_name := x\<rparr>)
      else if key = lit ''version'' then once (md_version m) (\<lambda>x. m\<lparr>md_version := x\<rparr>)
      else if key = lit ''root'' then once (md_root m) (\<lambda>x. m\<lparr>md_root := x\<rparr>)
      else if key = lit ''main'' then once (md_main m) (\<lambda>x. m\<lparr>md_main := x\<rparr>)
      else if key = lit ''out'' then once (md_out m) (\<lambda>x. m\<lparr>md_out := x\<rparr>)
      else if key = lit ''cache'' then once (md_cache m) (\<lambda>x. m\<lparr>md_cache := x\<rparr>)
      else if key = lit ''template'' then once (md_template m) (\<lambda>x. m\<lparr>md_template := x\<rparr>)
      else if key = lit ''type'' then once (md_package_type m) (\<lambda>x. m\<lparr>md_package_type := x\<rparr>)
      else if key = lit ''registry.url'' then once (md_registry_url m) (\<lambda>x. m\<lparr>md_registry_url := x\<rparr>)
      else if key = lit ''registry.public_key'' then once (md_registry_public_key m) (\<lambda>x. m\<lparr>md_registry_public_key := x\<rparr>)
      else case strip_prefix (lit ''dep.'') key of
        Some rest \<Rightarrow>
          (let dependency_name = hd (split_char (ch CHR ''.'') rest) in
           if map_of (md_dependencies m) dependency_name = None \<and> MAX_REGISTRY_DEPENDENCIES \<le> length (md_dependencies m)
           then Inl (manifest_dependency_limit_error sp)
           else map_sum id (\<lambda>ds. m\<lparr>md_dependencies := ds\<rparr>) (parse_dependency_key key v (md_dependencies m) line_no sp))
      | None \<Rightarrow> Inl (package_error (lit ''invalid_manifest_key'')
          (lit ''invalid ku.mod key '' @ quoted key @ lit '' on line '' @ nat_to_string line_no) sp))"

fun parse_manifest_lines :: "nat \<Rightarrow> span \<Rightarrow> manifest_draft \<Rightarrow> ustring list \<Rightarrow> ku_error + manifest_draft" where
  "parse_manifest_lines i sp m [] = Inr m"
| "parse_manifest_lines i sp m (raw # ls) =
     (let l = meaningful raw in
      if l = [] then parse_manifest_lines (i + 1) sp m ls
      else case split_once (ch CHR ''='') l of
        None \<Rightarrow> Inl (package_error (lit ''invalid_manifest_line'')
          (lit ''invalid ku.mod line '' @ nat_to_string (i + 1) @ lit '': expected key = value'') sp)
      | Some (key, v) \<Rightarrow> (case parse_string_value (trim_text v) (i + 1) sp of
          Inl e \<Rightarrow> Inl e
        | Inr v \<Rightarrow> (case set_manifest_key (trim_text key) v (i + 1) sp m of
            Inl e \<Rightarrow> Inl e
          | Inr m' \<Rightarrow> parse_manifest_lines (i + 1) sp m' ls)))"

definition check_optional :: "ustring option \<Rightarrow> (ustring \<Rightarrow> ku_error + unit) \<Rightarrow> ku_error + unit" where
  "check_optional o' f = (case o' of None \<Rightarrow> Inr () | Some v \<Rightarrow> f v)"

definition manifest_registry ::
    "registry_env \<Rightarrow> ustring option \<Rightarrow> ustring option \<Rightarrow> span \<Rightarrow> ku_error + package_registry option" where
  "manifest_registry env url_text public_key sp = (case (url_text, public_key) of
       (Some u, Some k) \<Rightarrow> (case validate_registry_base_url env u sp of
           Inl e \<Rightarrow> Inl e
         | Inr _ \<Rightarrow> (case parse_ed25519_public_key env k sp of
             Inl e \<Rightarrow> Inl e
           | Inr _ \<Rightarrow> Inr (Some \<lparr>pr_url = u, pr_public_key = k\<rparr>)))
     | (None, None) \<Rightarrow> Inr None
     | _ \<Rightarrow> Inl (package_error (lit ''incomplete_registry_config'')
         (lit ''ku.mod registry requires both registry.url and registry.public_key'') sp))"

definition finish_manifest :: "registry_env \<Rightarrow> manifest_draft \<Rightarrow> span \<Rightarrow> ku_error + ku_mod" where
  "finish_manifest env m sp = (case md_name m of
       None \<Rightarrow> Inl (package_error (lit ''missing_name'') (lit ''ku.mod missing package name'') sp)
     | Some name \<Rightarrow>
         ebind (validate_package_name name sp) (\<lambda>_.
         ebind (check_optional (md_version m) (\<lambda>v. validate_version v sp)) (\<lambda>_.
         ebind (check_optional (md_root m) (\<lambda>v. reject_unsafe_relative_path (lit ''root'') v sp)) (\<lambda>_.
         ebind (check_optional (md_main m) (\<lambda>v. reject_unsafe_relative_path (lit ''main'') v sp)) (\<lambda>_.
         ebind (check_optional (md_out m) (\<lambda>v. reject_unsafe_relative_path (lit ''out'') v sp)) (\<lambda>_.
         ebind (check_optional (md_cache m) (\<lambda>v. reject_unsafe_relative_path (lit ''cache'') v sp)) (\<lambda>_.
         ebind (check_optional (md_template m) (\<lambda>v. validate_manifest_label (lit ''template'') v sp)) (\<lambda>_.
         ebind (check_optional (md_package_type m) (\<lambda>v. validate_manifest_label (lit ''type'') v sp)) (\<lambda>_.
         ebind (manifest_registry env (md_registry_url m) (md_registry_public_key m) sp) (\<lambda>registry.
         ebind (finish_drafts env (md_dependencies m) sp) (\<lambda>dependencies.
         Inr \<lparr>km_name = name, km_version = md_version m, km_root = md_root m, km_main = md_main m, km_out = md_out m,
           km_cache = md_cache m, km_template = md_template m, km_package_type = md_package_type m, km_registry = registry,
           km_dependencies = dependencies\<rparr>)))))))))))"

definition parse_manifest :: "registry_env \<Rightarrow> ustring \<Rightarrow> span \<Rightarrow> ku_error + ku_mod" where
  "parse_manifest env source sp =
     ebind (parse_manifest_lines 0 sp manifest_draft_new (str_lines source)) (\<lambda>m. finish_manifest env m sp)"

section \<open>Registry indexes\<close>

definition MAX_REGISTRY_INDEX_VERSIONS :: nat where "MAX_REGISTRY_INDEX_VERSIONS = 4096"

definition validate_registry_package_dependencies :: "package_dependency list \<Rightarrow> ku_error + unit" where
  "validate_registry_package_dependencies ds =
     (if MAX_REGISTRY_DEPENDENCIES < length ds then Inl (package_error (lit ''dependency_limit'')
        (lit ''published package declares more than '' @ nat_to_string MAX_REGISTRY_DEPENDENCIES @ lit '' dependencies'') Span_default)
      else case find (\<lambda>d. pd_source d \<noteq> None \<or> pd_checksum d \<noteq> None) ds of
        Some d \<Rightarrow> Inl (package_error (lit ''invalid_registry_dependency'')
          (lit ''published package dependency '' @ quoted (pd_name d) @ lit '' cannot use a local source or checksum'') Span_default)
      | None \<Rightarrow> Inr ())"

fun index_dependencies ::
    "field_map \<Rightarrow> (ustring \<times> dependency_draft) list \<Rightarrow> span \<Rightarrow> ku_error + (ustring \<times> dependency_draft) list" where
  "index_dependencies [] drafts sp = Inr drafts"
| "index_dependencies ((key, v) # fs) drafts sp =
     (let name = drop (length (lit ''dep.'')) key in
      if ch CHR ''.'' \<in> set name then Inl (package_error (lit ''invalid_registry_dependency'')
        (lit ''signed registry index dependencies only support dep.name = '' @ [quote] @ lit ''version'' @ [quote]) sp)
      else if map_of drafts name = None \<and> MAX_REGISTRY_DEPENDENCIES \<le> length drafts then Inl (package_error (lit ''dependency_limit'')
        (lit ''registry package version declares more than '' @ nat_to_string MAX_REGISTRY_DEPENDENCIES @ lit '' dependencies'') sp)
      else case parse_dependency_key key v drafts 0 sp of
        Inl e \<Rightarrow> Inl e
      | Inr drafts' \<Rightarrow> index_dependencies fs drafts' sp)"

definition is_dependency_key :: "ustring \<Rightarrow> bool" where
  "is_dependency_key k = str_starts_with k (lit ''dep.'')"

definition finish_registry_index_version ::
    "registry_env \<Rightarrow> ustring option \<Rightarrow> field_map \<Rightarrow> ustring \<Rightarrow> span \<Rightarrow> ku_error + registry_manifest" where
  "finish_registry_index_version env name fs index_url sp =
     (let dependency_fields = sort_key fst (filter (\<lambda>(k, _). is_dependency_key k) fs);
          rest = filter (\<lambda>(k, _). \<not> is_dependency_key k) fs; kind = ''registry index version'' in
      ebind (index_dependencies dependency_fields [] sp) (\<lambda>drafts.
      ebind (finish_drafts env drafts sp) (\<lambda>dependencies.
      ebind (validate_registry_package_dependencies dependencies) (\<lambda>_.
      ebind (reject_unknown_fields env rest [''version'', ''url'', ''checksum''] kind sp) (\<lambda>_.
      case name of
        None \<Rightarrow> Inl (package_error (lit ''missing_registry_field'') (lit ''registry index version appears before package name'') sp)
      | Some name \<Rightarrow>
          ebind (required_field rest ''version'' kind sp) (\<lambda>version.
          ebind (required_field rest ''url'' kind sp) (\<lambda>url_text.
          ebind (required_field rest ''checksum'' kind sp) (\<lambda>checksum.
          ebind (validate_package_name name sp) (\<lambda>_.
          ebind (validate_version version sp) (\<lambda>_.
          ebind (validate_sha256_checksum checksum sp) (\<lambda>_.
          ebind (resolve_registry_url env index_url url_text sp) (\<lambda>source.
          ebind (validate_registry_archive_url env source sp) (\<lambda>_.
          Inr \<lparr>rm_name = name, rm_version = version, rm_source = source, rm_checksum = checksum,
            rm_dependencies = dependencies\<rparr>)))))))))))))"

record index_state =
  ix_name :: "ustring option"
  ix_versions :: "registry_manifest list"
  ix_current :: "field_map option"

definition index_limit_error :: "ustring \<Rightarrow> span \<Rightarrow> ku_error" where
  "index_limit_error m sp = package_error (lit ''registry_index_limit'') m sp"

text \<open>The fields collected since the last \<open>[[version]]\<close> become a version.\<close>

definition close_version :: "registry_env \<Rightarrow> ustring \<Rightarrow> span \<Rightarrow> index_state \<Rightarrow> ku_error + index_state" where
  "close_version env index_url sp s = (case ix_current s of
       None \<Rightarrow> Inr s
     | Some fs \<Rightarrow>
         if MAX_REGISTRY_INDEX_VERSIONS \<le> length (ix_versions s) then Inl (index_limit_error
           (lit ''registry index exceeds '' @ nat_to_string MAX_REGISTRY_INDEX_VERSIONS @ lit '' versions'') sp)
         else map_sum id (\<lambda>v. s\<lparr>ix_versions := ix_versions s @ [v], ix_current := None\<rparr>)
           (finish_registry_index_version env (ix_name s) fs index_url sp))"

fun parse_index_lines ::
    "registry_env \<Rightarrow> ustring \<Rightarrow> span \<Rightarrow> nat \<Rightarrow> index_state \<Rightarrow> ustring list \<Rightarrow> ku_error + index_state" where
  "parse_index_lines env index_url sp i s [] = close_version env index_url sp s"
| "parse_index_lines env index_url sp i s (raw # ls) =
     (if MAX_REGISTRY_LINE_BYTES < str_len raw then Inl (index_limit_error (lit ''registry index line '' @ nat_to_string (i + 1)
        @ lit '' exceeds '' @ nat_to_string MAX_REGISTRY_LINE_BYTES @ lit '' bytes'') sp)
      else let l = meaningful raw in
      if l = [] then parse_index_lines env index_url sp (i + 1) s ls
      else if l = lit ''[[version]]'' then (case close_version env index_url sp s of
          Inl e \<Rightarrow> Inl e
        | Inr s' \<Rightarrow> parse_index_lines env index_url sp (i + 1) (s'\<lparr>ix_current := Some []\<rparr>) ls)
      else case split_once (ch CHR ''='') l of
        None \<Rightarrow> Inl (package_error (lit ''invalid_registry_index'')
          (lit ''invalid registry index line '' @ nat_to_string (i + 1) @ lit '': expected key = value'') sp)
      | Some (key, raw_value) \<Rightarrow> (case parse_string_value (trim_text raw_value) (i + 1) sp of
          Inl e \<Rightarrow> Inl e
        | Inr v \<Rightarrow> (case ix_current s of
            Some fs \<Rightarrow>
              if map_of fs (trim_text key) \<noteq> None then Inl (package_error (lit ''duplicate_registry_index_field'')
                (lit ''duplicate registry index version field '' @ quoted (trim_text key)) sp)
              else parse_index_lines env index_url sp (i + 1) (s\<lparr>ix_current := Some (hm_insert (trim_text key) v fs)\<rparr>) ls
          | None \<Rightarrow>
              if trim_text key = lit ''name'' \<and> ix_name s = None
              then parse_index_lines env index_url sp (i + 1) (s\<lparr>ix_name := Some v\<rparr>) ls
              else Inl (package_error (lit ''invalid_registry_index'')
                (lit ''registry index must contain one name before [[version]] entries'') sp))))"

text \<open>\<open>sort_by_key(Reverse(version))\<close> is stable: versions in descending order. Its \<open>expect\<close> is a panic.\<close>

fun version_keys :: "registry_manifest list \<Rightarrow> span \<Rightarrow> (package_version \<times> registry_manifest) list option" where
  "version_keys [] sp = Some []"
| "version_keys (m # ms) sp = (case parse_package_version (rm_version m) sp of
       Inl _ \<Rightarrow> None
     | Inr v \<Rightarrow> map_option ((#) (v, m)) (version_keys ms sp))"

fun insert_desc :: "package_version \<times> 'a \<Rightarrow> (package_version \<times> 'a) list \<Rightarrow> (package_version \<times> 'a) list" where
  "insert_desc x [] = [x]"
| "insert_desc x (y # ys) = (if fst y < fst x then x # y # ys else y # insert_desc x ys)"

definition sort_desc :: "(package_version \<times> 'a) list \<Rightarrow> (package_version \<times> 'a) list" where
  "sort_desc xs = foldl (\<lambda>ys x. insert_desc x ys) [] xs"

fun adjacent_duplicate :: "registry_manifest list \<Rightarrow> ustring option" where
  "adjacent_duplicate (a # b # ms) = (if rm_version a = rm_version b then Some (rm_version a) else adjacent_duplicate (b # ms))"
| "adjacent_duplicate _ = None"

definition parse_registry_index :: "registry_env \<Rightarrow> ustring \<Rightarrow> ustring \<Rightarrow> span \<Rightarrow> (ku_error, registry_index) result" where
  "parse_registry_index env source index_url sp = (case validate_registry_url env index_url sp of
       Inl e \<Rightarrow> Inl (Raise e)
     | Inr _ \<Rightarrow> (case parse_index_lines env index_url sp 0 \<lparr>ix_name = None, ix_versions = [], ix_current = None\<rparr> (str_lines source) of
         Inl e \<Rightarrow> Inl (Raise e)
       | Inr s \<Rightarrow> (case ix_name s of
           None \<Rightarrow> Inl (Raise (package_error (lit ''missing_registry_field'')
             (lit ''registry index missing required field '' @ quoted (lit ''name'')) sp))
         | Some name \<Rightarrow> (case validate_package_name name sp of
             Inl e \<Rightarrow> Inl (Raise e)
           | Inr _ \<Rightarrow> (case version_keys (ix_versions s) sp of
               None \<Rightarrow> Inl RustPanic
             | Some keyed \<Rightarrow>
                 let versions = map snd (sort_desc keyed) in
                 case adjacent_duplicate versions of
                   Some v \<Rightarrow> Inl (Raise (package_error (lit ''duplicate_registry_version'')
                     (lit ''registry index contains duplicate version '' @ quoted v) sp))
                 | None \<Rightarrow> Inr \<lparr>ri_name = name, ri_versions = versions\<rparr>)))))"

end
