(* ===== verification/Package_Lock.thy ===== *)
theory Package_Lock
  imports Package_Text
begin

text \<open>
  The lock file (\<open>src/src/package.rs\<close>): \<open>ku.lock\<close> records the resolved dependencies as sections of
  \<open>key = "value"\<close> lines. Values are written with Rust's \<open>Debug\<close> format and read back as the text between the
  quotes. Locking, staging and renaming the file are left to the operating system; the text that is written and
  what is read from it are modelled. Paths are taken to be UTF-8.
\<close>

section \<open>Debug strings\<close>

fun nat_to_hex :: "nat \<Rightarrow> ustring" where
  "nat_to_hex n = (if n < 16 then [hex_digit n] else nat_to_hex (n div 16) @ [hex_digit (n mod 16)])"

declare nat_to_hex.simps [simp del]

text \<open>\<open>{:?}\<close> of a string; which characters beyond ASCII are escaped is given by the Unicode tables.\<close>

definition debug_char :: "(uchar \<Rightarrow> bool) \<Rightarrow> uchar \<Rightarrow> ustring" where
  "debug_char esc c =
     (if c = 0 then 92 # lit ''0'' else if c = 9 then 92 # lit ''t'' else if c = 13 then 92 # lit ''r''
      else if c = 10 then 92 # lit ''n'' else if c = quote then [92, quote] else if c = 92 then [92, 92]
      else if c < 0x20 \<or> c = 0x7F \<or> 0x80 \<le> c \<and> esc c then [92] @ lit ''u{'' @ nat_to_hex c @ lit ''}''
      else [c])"

definition debug_str :: "(uchar \<Rightarrow> bool) \<Rightarrow> ustring \<Rightarrow> ustring" where
  "debug_str esc s = [quote] @ concat (map (debug_char esc) s) @ [quote]"

section \<open>Writing\<close>

record resolved_file =
  rf_name :: ustring
  rf_requirement :: ustring
  rf_version :: ustring
  rf_source :: ustring
  rf_checksum :: ustring
  rf_cache_key :: ustring
  rf_package_root :: ustring
  rf_dependencies :: "package_dependency list"
  rf_snapshot_bytes :: nat

record resolved_registry =
  rr_name :: ustring
  rr_requirement :: ustring
  rr_version :: ustring
  rr_registry :: ustring
  rr_url :: ustring
  rr_checksum :: ustring
  rr_cache_key :: ustring
  rr_package_root :: ustring

record package_context =
  pc_manifest_path :: ustring
  pc_package_dir :: ustring
  pc_import_root :: ustring
  pc_cache_dir :: ustring
  pc_lock_path :: ustring
  pc_manifest :: ku_mod
  pc_file_dependencies :: "resolved_file list"
  pc_registry_dependencies :: "resolved_registry list"

record lock_dependency =
  ld_path :: ustring
  ld_cache_key :: ustring

definition MAX_PACKAGE_LOCK_BYTES :: nat where "MAX_PACKAGE_LOCK_BYTES = 20000000"
definition MAX_LOCK_DEPENDENCIES :: nat where "MAX_LOCK_DEPENDENCIES = 4096"
definition MAX_LOCK_DEPENDENCY_PATH_BYTES :: nat where "MAX_LOCK_DEPENDENCY_PATH_BYTES = 4096"

definition non_portable_lock_error :: "ustring \<Rightarrow> span \<Rightarrow> ku_error" where
  "non_portable_lock_error m sp = package_error (lit ''non_portable_lock_path'') m sp"

fun lock_components :: "component list \<Rightarrow> span \<Rightarrow> ku_error + ustring list" where
  "lock_components [] sp = Inr []"
| "lock_components (Normal v # cs) sp = (case validate_portable_package_component v sp of
       Inl _ \<Rightarrow> Inl (non_portable_lock_error (lit ''package lock dependency path component '' @ quoted v @ lit '' is not portable'') sp)
     | Inr _ \<Rightarrow> map_sum id ((#) v) (lock_components cs sp))"
| "lock_components (_ # cs) sp =
     Inl (non_portable_lock_error (lit ''package lock dependency path contains an unsafe component'') sp)"

text \<open>A path below a root is what is left of its components.\<close>

definition portable_lock_path :: "component list \<Rightarrow> span \<Rightarrow> ku_error + ustring" where
  "portable_lock_path cs sp =
     (if cs = [] \<or> hd cs = RootDir then
        Inl (non_portable_lock_error (lit ''package lock dependency path must be a non-empty relative path'') sp)
      else case lock_components cs sp of
        Inl e \<Rightarrow> Inl e
      | Inr components \<Rightarrow>
          if components = [] then Inl (non_portable_lock_error (lit ''package lock dependency path must not be empty'') sp)
          else let portable = join_with [slash] components in
            if MAX_LOCK_DEPENDENCY_PATH_BYTES < str_len portable then Inl (package_error (lit ''lock_dependency_limit'')
              (lit ''package lock dependency path exceeds '' @ nat_to_string MAX_LOCK_DEPENDENCY_PATH_BYTES @ lit '' bytes'') sp)
            else Inr portable)"

definition strip_existing_path_prefix :: "ustring \<Rightarrow> ustring \<Rightarrow> component list option" where
  "strip_existing_path_prefix path root =
     (let cs = path_components path; rs = path_components root in
      if take (length rs) cs = rs then Some (drop (length rs) cs) else None)"

fun dependency_lock_path :: "(ustring \<times> ustring) list \<Rightarrow> ustring \<Rightarrow> (ku_error + ustring) option" where
  "dependency_lock_path [] path = None"
| "dependency_lock_path ((name, root) # ds) path =
     (case strip_existing_path_prefix path (path_join root DEFAULT_IMPORT_ROOT) of
        Some cs \<Rightarrow> Some (map_sum id (\<lambda>p. lit ''@'' @ name @ [slash] @ p) (portable_lock_path cs Span_default))
      | None \<Rightarrow> dependency_lock_path ds path)"

definition display_dependency_path :: "package_context \<Rightarrow> ustring \<Rightarrow> ku_error + ustring" where
  "display_dependency_path ctx path =
     (case dependency_lock_path (map (\<lambda>d. (rf_name d, rf_package_root d)) (pc_file_dependencies ctx) @
         map (\<lambda>d. (rr_name d, rr_package_root d)) (pc_registry_dependencies ctx)) path of
        Some r \<Rightarrow> r
      | None \<Rightarrow> (case strip_existing_path_prefix path (pc_package_dir ctx) of
          Some cs \<Rightarrow> portable_lock_path cs Span_default
        | None \<Rightarrow> Inl (non_portable_lock_error (lit ''imported module '' @ quoted path
            @ lit '' is outside the project and all resolved package roots'') Span_default)))"

fun display_all :: "package_context \<Rightarrow> lock_dependency list \<Rightarrow> ku_error + (ustring \<times> lock_dependency) list" where
  "display_all ctx [] = Inr []"
| "display_all ctx (d # ds) = (case display_dependency_path ctx (ld_path d) of
       Inl e \<Rightarrow> Inl e
     | Inr p \<Rightarrow> map_sum id ((#) (p, d)) (display_all ctx ds))"

text \<open>\<open>dedup_by\<close> keeps the first of neighbours with the same path.\<close>

fun dedup_paths :: "(ustring \<times> 'a) list \<Rightarrow> (ustring \<times> 'a) list" where
  "dedup_paths (x # y # zs) = (if fst x = fst y then dedup_paths (x # zs) else x # dedup_paths (y # zs))"
| "dedup_paths xs = xs"

definition normalized_lock_dependency_records ::
    "package_context \<Rightarrow> lock_dependency list \<Rightarrow> ku_error + (ustring \<times> lock_dependency) list" where
  "normalized_lock_dependency_records ctx ds =
     (if MAX_LOCK_DEPENDENCIES < length ds then Inl (package_error (lit ''lock_dependency_limit'')
        (lit ''ku.lock cannot record more than '' @ nat_to_string MAX_LOCK_DEPENDENCIES @ lit '' imported modules'') Span_default)
      else map_sum id (\<lambda>out. dedup_paths (sort_key fst out)) (display_all ctx ds))"

definition append_package_lock_section :: "ustring \<Rightarrow> ustring \<Rightarrow> ku_error + ustring" where
  "append_package_lock_section source section_text =
     (if MAX_PACKAGE_LOCK_BYTES < str_len source + str_len section_text then Inl (package_error (lit ''package_lock_limit'')
        (lit ''generated ku.lock exceeds '' @ nat_to_string MAX_PACKAGE_LOCK_BYTES @ lit '' bytes'') Span_default)
      else Inr (source @ section_text))"

fun append_sections :: "ustring \<Rightarrow> ustring list \<Rightarrow> ku_error + ustring" where
  "append_sections source [] = Inr source"
| "append_sections source (t # ts) = (case append_package_lock_section source t of
       Inl e \<Rightarrow> Inl e
     | Inr source' \<Rightarrow> append_sections source' ts)"

definition lock_line :: "string \<Rightarrow> ustring \<Rightarrow> ustring" where
  "lock_line key v = lit key @ lit '' = '' @ v @ [10]"

definition lock_header :: "(uchar \<Rightarrow> bool) \<Rightarrow> ku_mod \<Rightarrow> ustring" where
  "lock_header esc m = (let field = (\<lambda>key o' dflt. lock_line key (debug_str esc (case o' of None \<Rightarrow> dflt | Some v \<Rightarrow> v))) in
     lit ''# generated by ku'' @ [10] @ lock_line ''package'' (debug_str esc (km_name m))
     @ field ''version'' (km_version m) (lit ''0.0.0'') @ field ''root'' (km_root m) DEFAULT_IMPORT_ROOT
     @ field ''main'' (km_main m) DEFAULT_MAIN_FILE @ field ''out'' (km_out m) DEFAULT_BUILD_DIR
     @ field ''cache'' (km_cache m) DEFAULT_CACHE_DIR)"

definition module_section :: "(uchar \<Rightarrow> bool) \<Rightarrow> ustring \<Rightarrow> lock_dependency \<Rightarrow> ustring" where
  "module_section esc path d = [10] @ lit ''[[dependency]]'' @ [10] @ lock_line ''path'' (debug_str esc path)
     @ lock_line ''cache_key'' (debug_str esc (ld_cache_key d))"

definition file_section :: "(uchar \<Rightarrow> bool) \<Rightarrow> resolved_file \<Rightarrow> ustring" where
  "file_section esc d = [10] @ lit ''[[package_dependency]]'' @ [10] @ lock_line ''name'' (debug_str esc (rf_name d))
     @ lock_line ''requirement'' (debug_str esc (rf_requirement d)) @ lock_line ''version'' (debug_str esc (rf_version d))
     @ lock_line ''source'' (debug_str esc (rf_source d)) @ lock_line ''checksum'' (debug_str esc (rf_checksum d))
     @ lock_line ''cache_key'' (debug_str esc (rf_cache_key d))"

definition registry_section :: "(uchar \<Rightarrow> bool) \<Rightarrow> resolved_registry \<Rightarrow> ustring" where
  "registry_section esc d = [10] @ lit ''[[package_dependency]]'' @ [10] @ lock_line ''name'' (debug_str esc (rr_name d))
     @ lock_line ''requirement'' (debug_str esc (rr_requirement d)) @ lock_line ''version'' (debug_str esc (rr_version d))
     @ lock_line ''source'' ([quote] @ lit ''registry'' @ [quote]) @ lock_line ''registry'' (debug_str esc (rr_registry d))
     @ lock_line ''url'' (debug_str esc (rr_url d)) @ lock_line ''checksum'' (debug_str esc (rr_checksum d))
     @ lock_line ''cache_key'' (debug_str esc (rr_cache_key d))"

text \<open>The checks of \<open>write_package_lock_atomically\<close>.\<close>

definition check_lock_source :: "ustring \<Rightarrow> ku_error + ustring" where
  "check_lock_source source =
     (if MAX_PACKAGE_LOCK_BYTES < str_len source then Inl (package_error (lit ''package_lock_limit'')
        (lit ''generated ku.lock exceeds '' @ nat_to_string MAX_PACKAGE_LOCK_BYTES @ lit '' bytes'') Span_default)
      else if list_ex (\<lambda>l. MAX_REGISTRY_LINE_BYTES < str_len l) (split_char 10 source) then Inl (package_error (lit ''package_lock_limit'')
        (lit ''generated ku.lock contains a line longer than '' @ nat_to_string MAX_REGISTRY_LINE_BYTES @ lit '' bytes'') Span_default)
      else Inr source)"

definition write_lock_with_dependency_records ::
    "(uchar \<Rightarrow> bool) \<Rightarrow> package_context \<Rightarrow> lock_dependency list \<Rightarrow> ku_error + ustring" where
  "write_lock_with_dependency_records esc ctx ds = (case normalized_lock_dependency_records ctx ds of
       Inl e \<Rightarrow> Inl e
     | Inr records \<Rightarrow>
         (case append_sections (lock_header esc (pc_manifest ctx))
             (map (\<lambda>(path, d). module_section esc path d) records @ map (file_section esc) (pc_file_dependencies ctx)
              @ map (registry_section esc) (pc_registry_dependencies ctx)) of
            Inl e \<Rightarrow> Inl e
          | Inr source \<Rightarrow> check_lock_source source))"

section \<open>Reading\<close>

fun read_lock_lines ::
    "nat \<Rightarrow> field_map list \<times> field_map option \<Rightarrow> ustring list \<Rightarrow> ku_error + field_map list" where
  "read_lock_lines i (out, cur) [] = Inr (case cur of None \<Rightarrow> out | Some fs \<Rightarrow> out @ [fs])"
| "read_lock_lines i (out, cur) (raw # ls) =
     (if MAX_REGISTRY_LINE_BYTES < str_len raw then Inl (package_error (lit ''package_lock_limit'')
        (lit ''ku.lock line '' @ nat_to_string (i + 1) @ lit '' exceeds '' @ nat_to_string MAX_REGISTRY_LINE_BYTES @ lit '' bytes'') Span_default)
      else let l = meaningful raw in
      if l = [] then read_lock_lines (i + 1) (out, cur) ls
      else if str_starts_with l (lit ''[['') \<and> ends_with l (lit '']]'') then
        (let out' = (case cur of None \<Rightarrow> out | Some fs \<Rightarrow> out @ [fs]) in
         if l = lit ''[[package_dependency]]'' then
           (if MAX_REGISTRY_DEPENDENCIES \<le> length out' then Inl (package_error (lit ''dependency_limit'')
              (lit ''ku.lock contains more than '' @ nat_to_string MAX_REGISTRY_DEPENDENCIES @ lit '' package dependencies'') Span_default)
            else read_lock_lines (i + 1) (out', Some []) ls)
         else read_lock_lines (i + 1) (out', None) ls)
      else case cur of
        None \<Rightarrow> read_lock_lines (i + 1) (out, cur) ls
      | Some fs \<Rightarrow> (case split_once (ch CHR ''='') l of
          None \<Rightarrow> Inl (package_error (lit ''invalid_package_lock'')
            (lit ''invalid ku.lock line '' @ nat_to_string (i + 1) @ lit '': expected key = value'') Span_default)
        | Some (key, raw_value) \<Rightarrow> (case parse_string_value (trim_text raw_value) (i + 1) Span_default of
            Inl e \<Rightarrow> Inl e
          | Inr v \<Rightarrow>
              if map_of fs (trim_text key) \<noteq> None then Inl (package_error (lit ''duplicate_package_lock_field'')
                (lit ''duplicate ku.lock package dependency field '' @ quoted (trim_text key)) Span_default)
              else read_lock_lines (i + 1) (out, Some (hm_insert (trim_text key) v fs)) ls)))"

text \<open>The file, if there is one.\<close>

definition read_locked_package_dependency_fields :: "ustring option \<Rightarrow> ku_error + field_map list" where
  "read_locked_package_dependency_fields file = (case file of
       None \<Rightarrow> Inr []
     | Some source \<Rightarrow>
         if MAX_PACKAGE_LOCK_BYTES < str_len source then Inl (package_error (lit ''package_lock_limit'')
           (lit ''ku.lock must be a regular file no larger than '' @ nat_to_string MAX_PACKAGE_LOCK_BYTES @ lit '' bytes'') Span_default)
         else read_lock_lines 0 ([], None) (str_lines source))"

record locked_registry =
  lr_name :: ustring
  lr_version :: ustring
  lr_registry :: ustring
  lr_url :: ustring
  lr_checksum :: ustring
  lr_cache_key :: ustring

record locked_file =
  lf_name :: ustring
  lf_requirement :: ustring
  lf_version :: ustring
  lf_source :: ustring
  lf_checksum :: ustring
  lf_cache_key :: ustring

type_synonym 'v name_map = "(ustring \<times> 'v) list"

definition insert_locked :: "string \<Rightarrow> ustring \<Rightarrow> 'v \<Rightarrow> 'v name_map \<Rightarrow> span \<Rightarrow> ku_error + 'v name_map" where
  "insert_locked kind name v out sp =
     (if map_of out name = None then Inr (hm_insert name v out)
      else Inl (package_error (lit ''duplicate_package_lock_dependency'')
        (lit ''ku.lock contains duplicate '' @ lit kind @ lit '' dependency '' @ quoted name) sp))"

definition invalid_cache_key_error :: "string \<Rightarrow> ustring \<Rightarrow> span \<Rightarrow> ku_error" where
  "invalid_cache_key_error kind name sp = package_error (lit ''invalid_cache_key'')
     (lit ''ku.lock '' @ lit kind @ lit '' dependency has invalid cache_key for '' @ quoted name) sp"

definition finish_locked_registry_dependency ::
    "registry_env \<Rightarrow> field_map \<Rightarrow> locked_registry name_map \<Rightarrow> span \<Rightarrow> ku_error + locked_registry name_map" where
  "finish_locked_registry_dependency env fs out sp =
     (if map_of fs (lit ''source'') \<noteq> Some (lit ''registry'') then Inr out
      else let kind = ''ku.lock registry dependency'' in
        ebind (reject_unknown_fields env fs [''name'', ''requirement'', ''version'', ''cache'', ''source'', ''registry'', ''url'', ''checksum'', ''cache_key''] kind sp) (\<lambda>_.
        ebind (required_field fs ''name'' kind sp) (\<lambda>name.
        ebind (required_field fs ''version'' kind sp) (\<lambda>version.
        ebind (required_field fs ''registry'' kind sp) (\<lambda>registry.
        ebind (required_field fs ''url'' kind sp) (\<lambda>url_text.
        ebind (required_field fs ''checksum'' kind sp) (\<lambda>checksum.
        ebind (required_field fs ''cache_key'' kind sp) (\<lambda>cache_key.
        ebind (validate_package_name name sp) (\<lambda>_.
        ebind (validate_version version sp) (\<lambda>_.
        ebind (validate_registry_base_url env registry sp) (\<lambda>_.
        ebind (validate_registry_url env url_text sp) (\<lambda>_.
        ebind (validate_registry_archive_url env url_text sp) (\<lambda>_.
        ebind (validate_sha256_checksum checksum sp) (\<lambda>_.
        if cache_key \<noteq> registry_cache_key_for_identity name version checksum then Inl (invalid_cache_key_error ''registry'' name sp)
        else insert_locked ''registry'' name \<lparr>lr_name = name, lr_version = version, lr_registry = registry, lr_url = url_text,
               lr_checksum = checksum, lr_cache_key = cache_key\<rparr> out sp))))))))))))))"

definition finish_locked_file_dependency ::
    "registry_env \<Rightarrow> field_map \<Rightarrow> locked_file name_map \<Rightarrow> ku_error + locked_file name_map" where
  "finish_locked_file_dependency env fs out =
     (if map_of fs (lit ''source'') = Some (lit ''registry'') then Inr out
      else let kind = ''ku.lock file dependency''; sp = Span_default in
        ebind (reject_unknown_fields env fs [''name'', ''requirement'', ''version'', ''cache'', ''source'', ''checksum'', ''cache_key''] kind sp) (\<lambda>_.
        ebind (required_field fs ''name'' kind sp) (\<lambda>name.
        ebind (required_field fs ''version'' kind sp) (\<lambda>version.
        let requirement = (case map_of fs (lit ''requirement'') of Some r \<Rightarrow> r | None \<Rightarrow> version) in
        ebind (required_field fs ''source'' kind sp) (\<lambda>source.
        ebind (required_field fs ''checksum'' kind sp) (\<lambda>checksum.
        ebind (validate_package_name name sp) (\<lambda>_.
        ebind (validate_version_requirement requirement sp) (\<lambda>_.
        ebind (validate_version version sp) (\<lambda>_.
        if file_url_path source = None then Inl (package_error (lit ''invalid_package_lock'')
          (lit ''ku.lock file dependency '' @ quoted name @ lit '' has an invalid source'') sp)
        else ebind (validate_checksum checksum sp) (\<lambda>_.
        let expected = file_cache_key name version checksum;
            cache_key = (case map_of fs (lit ''cache_key'') of Some k \<Rightarrow> k | None \<Rightarrow> expected) in
        if cache_key \<noteq> expected then Inl (invalid_cache_key_error ''file'' name sp)
        else insert_locked ''file'' name \<lparr>lf_name = name, lf_requirement = requirement, lf_version = version, lf_source = source,
               lf_checksum = checksum, lf_cache_key = cache_key\<rparr> out sp))))))))))"

fun fold_fields :: "(field_map \<Rightarrow> 'v name_map \<Rightarrow> ku_error + 'v name_map) \<Rightarrow> field_map list \<Rightarrow> 'v name_map \<Rightarrow> ku_error + 'v name_map" where
  "fold_fields f [] out = Inr out"
| "fold_fields f (fs # rest) out = ebind (f fs out) (fold_fields f rest)"

definition read_locked_registry_dependencies :: "registry_env \<Rightarrow> ustring option \<Rightarrow> ku_error + locked_registry name_map" where
  "read_locked_registry_dependencies env file =
     ebind (read_locked_package_dependency_fields file) (\<lambda>fields.
     fold_fields (\<lambda>fs out. finish_locked_registry_dependency env fs out Span_default) fields [])"

definition read_locked_file_dependencies :: "registry_env \<Rightarrow> ustring option \<Rightarrow> ku_error + locked_file name_map" where
  "read_locked_file_dependencies env file =
     ebind (read_locked_package_dependency_fields file) (\<lambda>fields.
     fold_fields (finish_locked_file_dependency env) fields [])"

end
