(* ===== verification/Package_Lock_Roundtrip.thy ===== *)
theory Package_Lock_Roundtrip
  imports Package_Lock
begin

text \<open>
  Reading a written lock file gives the dependencies back, when no value needs an escape: values are written
  with escapes but read without undoing them. Names, versions, checksums and cache keys never need one.
\<close>

section \<open>Lines\<close>

lemma str_lines_Nil [simp]: "str_lines [] = []"
  by (simp add: str_lines_def)

lemma split_lines_line: "10 \<notin> set l \<Longrightarrow> split_lines acc (l @ 10 # rest) = strip_cr (acc @ l) # split_lines [] rest"
  by (induction l arbitrary: acc) auto

lemma str_lines_line: "10 \<notin> set l \<Longrightarrow> str_lines (l @ 10 # rest) = strip_cr l # str_lines rest"
  by (simp add: str_lines_def split_lines_line)

definition lines_text :: "ustring list \<Rightarrow> ustring" where
  "lines_text ls = concat (map (\<lambda>l. l @ [10]) ls)"

lemma lines_text_simps [simp]: "lines_text [] = []" "lines_text (l # ls) = l @ 10 # lines_text ls"
  "lines_text (ls @ ls') = lines_text ls @ lines_text ls'"
  by (simp_all add: lines_text_def)

definition clean_line :: "ustring \<Rightarrow> bool" where
  "clean_line l \<longleftrightarrow> 10 \<notin> set l \<and> (l = [] \<or> last l \<noteq> 13)"

lemma str_lines_text: "list_all clean_line ls \<Longrightarrow> str_lines (lines_text ls) = ls"
  by (induction ls) (auto simp: str_lines_line clean_line_def strip_cr_def)

lemma split_lines_text: "list_all clean_line ls \<Longrightarrow> split_char 10 (lines_text ls) = ls @ [[]]"
  by (induction ls) (auto simp: split_char_append clean_line_def)

section \<open>Trimming\<close>

lemma trim_text_hd:
  assumes "\<not> is_whitespace c"
  obtains r' where "trim_text (c # r) = c # r'"
proof -
  have "trim_text (c # r) = c # rev (dropWhile is_whitespace (rev r))"
    using assms by (auto simp: trim_text_def dropWhile_append)
  then show thesis using that by blast
qed

lemma trim_text_id:
  assumes "s \<noteq> []" "\<not> is_whitespace (hd s)" "\<not> is_whitespace (last s)"
  shows "trim_text s = s"
proof -
  have "dropWhile is_whitespace s = s" using assms by (cases s) auto
  moreover have "dropWhile is_whitespace (rev s) = rev s" using assms by (cases s rule: rev_cases) auto
  ultimately show ?thesis by (simp add: trim_text_def)
qed

lemma space_whitespace [simp]: "is_whitespace 32"
  by (simp add: is_whitespace_def)

lemma trim_text_space [simp]: "trim_text (32 # s) = trim_text s"
  by (simp add: trim_text_def)

lemma trim_text_snoc_space: "s \<noteq> [] \<Longrightarrow> \<not> is_whitespace (hd s) \<Longrightarrow> \<not> is_whitespace (last s) \<Longrightarrow> trim_text (s @ [32]) = s"
  using trim_text_id [of s] by (cases s) (auto simp: trim_text_def)

lemma meaningful_hd:
  assumes "\<not> is_whitespace c" "c \<noteq> ch CHR ''#''"
  obtains r' where "meaningful (c # r) = c # r'"
proof -
  have "hd (split_char (ch CHR ''#'') (c # r)) = c # takeWhile (\<lambda>x. x \<noteq> ch CHR ''#'') r"
    using assms(2) by (simp add: hd_split_char del: split_char.simps)
  then show thesis
    using that trim_text_hd [OF assms(1), of "takeWhile (\<lambda>x. x \<noteq> ch CHR ''#'') r"] by (metis meaningful_def)
qed

lemma meaningful_id:
  assumes "s \<noteq> []" "\<not> is_whitespace (hd s)" "\<not> is_whitespace (last s)" "ch CHR ''#'' \<notin> set s"
  shows "meaningful s = s"
  using assms trim_text_id by (simp add: meaningful_def split_char_none)

section \<open>Values\<close>

lemma hex_digit_range: "d < 16 \<Longrightarrow> 48 \<le> hex_digit d \<and> hex_digit d \<le> 57 \<or> 97 \<le> hex_digit d \<and> hex_digit d \<le> 102"
  by (auto simp: hex_digit_def ch_def)

lemma nat_to_hex_chars: "c \<in> set (nat_to_hex n) \<Longrightarrow> 48 \<le> c"
proof (induction n rule: nat_to_hex.induct)
  case (1 n)
  then show ?case using hex_digit_range [of n] hex_digit_range [of "n mod 16"]
    by (subst (asm) nat_to_hex.simps) (auto split: if_splits)
qed

lemma char_values: "quote = 34" "ch CHR ''#'' = 35" "ch CHR ''='' = 61" "ch CHR ''['' = 91"
  by (simp_all add: quote_def ch_def)

lemma debug_char_no_newline: "10 \<notin> set (debug_char esc c)"
proof -
  have "10 \<notin> set (nat_to_hex n)" for n using nat_to_hex_chars [of 10 n] by auto
  then show ?thesis by (simp add: debug_char_def char_values lit_def ch_def)
qed

lemma debug_str_no_newline: "10 \<notin> set (debug_str esc s)"
  using debug_char_no_newline by (auto simp: debug_str_def char_values)

lemma debug_str_last: "last (debug_str esc s) = quote" "debug_str esc s \<noteq> []"
  by (simp_all add: debug_str_def)

definition plain_value :: "(uchar \<Rightarrow> bool) \<Rightarrow> ustring \<Rightarrow> bool" where
  "plain_value esc v \<longleftrightarrow> list_all (\<lambda>c. c \<noteq> ch CHR ''#'' \<and> debug_char esc c = [c]) v"

lemma plain_debug: "plain_value esc v \<Longrightarrow> debug_str esc v = [quote] @ v @ [quote]"
  by (induction v) (auto simp: plain_value_def debug_str_def)

lemma plain_append [simp]: "plain_value esc (v @ w) \<longleftrightarrow> plain_value esc v \<and> plain_value esc w"
  by (simp add: plain_value_def)

definition plain_ascii :: "uchar \<Rightarrow> bool" where
  "plain_ascii c \<longleftrightarrow> 0x20 \<le> c \<and> c < 0x7F \<and> c \<noteq> 0x22 \<and> c \<noteq> 0x23 \<and> c \<noteq> 92"

lemma plain_ascii_char: "plain_ascii c \<Longrightarrow> c \<noteq> ch CHR ''#'' \<and> debug_char esc c = [c]"
  by (simp add: plain_ascii_def debug_char_def char_values)

lemma plain_ascii_value: "list_all plain_ascii v \<Longrightarrow> plain_value esc v"
  using plain_ascii_char by (auto simp: list_all_iff plain_value_def)

section \<open>Validated values are plain\<close>

lemma plain_digits: "list_all is_ascii_digit s \<Longrightarrow> list_all plain_ascii s"
  by (auto simp: list_all_iff is_ascii_digit_iff plain_ascii_def)

lemma plain_version_text: "list_all plain_ascii (version_text v)"
  using plain_digits [OF nat_to_string_digits] by (simp add: version_text_def plain_ascii_def ch_def)

lemma plain_version: "validate_version v sp = Inr () \<Longrightarrow> list_all plain_ascii v"
  using parse_version_result [of sp v] plain_version_text
  by (auto simp: validate_version_def map_sum_def split: sum.splits)

lemma plain_requirement:
  assumes "validate_version_requirement v sp = Inr ()"
  shows "list_all plain_ascii v"
proof -
  have parsed: "list_all plain_ascii w" if "parse_package_version w sp = Inr x" for w x
    using parse_version_result [of sp w] plain_version_text that by simp
  show ?thesis
  proof (cases v)
    case (Cons c w)
    then show ?thesis
      using assms parsed [of w] parsed [of v]
      by (cases "parse_package_version w sp"; cases "parse_package_version v sp")
        (auto simp: validate_version_requirement_def parse_version_requirement_def plain_ascii_def ch_def split: if_splits)
  qed simp
qed

lemma plain_label: "label_char c \<Longrightarrow> plain_ascii c"
  by (auto simp: label_char_def is_ascii_lowercase_def is_ascii_digit_def plain_ascii_def ch_def)

lemma plain_name: "validate_package_name v sp = Inr () \<Longrightarrow> list_all plain_ascii v"
  using plain_label by (auto simp: validate_package_name_def list_all_iff label_char_def split: if_splits list.splits)

lemma strip_prefix_append: "strip_prefix p s = Some d \<Longrightarrow> s = p @ d"
  by (auto simp: strip_prefix_def str_starts_with_iff split: if_splits) (metis append_take_drop_id)

lemma plain_hex: "is_ascii_hexdigit c \<Longrightarrow> plain_ascii c"
  by (auto simp: is_ascii_hexdigit_def is_ascii_digit_iff plain_ascii_def)

lemma plain_prefixed_hex:
  assumes "prefixed_hex p n v" "list_all plain_ascii (lit p)"
  shows "list_all plain_ascii v" and "list_all plain_ascii (checksum_digest p v)"
proof -
  obtain hex where hex: "strip_prefix (lit p) v = Some hex" "list_all is_ascii_hexdigit hex"
    using assms(1) by (auto simp: prefixed_hex_def split: option.splits)
  then have "list_all plain_ascii hex" using plain_hex by (auto simp: list_all_iff)
  then show "list_all plain_ascii v" "list_all plain_ascii (checksum_digest p v)"
    using hex assms(2) strip_prefix_append [OF hex(1)] by (auto simp: checksum_digest_def)
qed

lemma plain_literals:
  "list_all plain_ascii (lit ''ku-fnv64-'')" "list_all plain_ascii (lit ''sha256-'')" "list_all plain_ascii (lit ''-'')"
  "list_all plain_ascii (lit ''-fnv64-'')" "list_all plain_ascii (lit ''-sha256-'')" "list_all plain_ascii (lit ''registry'')"
  by code_simp+

lemma plain_checksums:
  "validate_checksum v sp = Inr () \<Longrightarrow> list_all plain_ascii v \<and> list_all plain_ascii (checksum_digest ''ku-fnv64-'' v)"
  "validate_sha256_checksum v sp = Inr () \<Longrightarrow> list_all plain_ascii v \<and> list_all plain_ascii (checksum_digest ''sha256-'' v)"
  using plain_prefixed_hex plain_literals by (auto simp: validate_checksum_def validate_sha256_checksum_def split: if_splits)

section \<open>Reading one line\<close>

definition simple_key :: "string \<Rightarrow> bool" where
  "simple_key k \<longleftrightarrow> k \<noteq> [] \<and> list_all (\<lambda>c. \<not> is_whitespace c \<and> c \<noteq> ch CHR ''#'' \<and> c \<noteq> ch CHR ''='' \<and> c \<noteq> ch CHR ''['') (lit k)"

definition field_line :: "string \<times> ustring \<Rightarrow> ustring" where
  "field_line f = lit (fst f) @ lit '' = '' @ snd f"

lemma lock_line_field: "lock_line k v = field_line (k, v) @ [10]"
  by (simp add: lock_line_def field_line_def)

lemma simple_key_hd:
  assumes "simple_key k"
  obtains c r where "lit k = c # r" "\<not> is_whitespace c" "c \<noteq> ch CHR ''#''" "c \<noteq> ch CHR ''[''"
  using assms by (cases k) (auto simp: simple_key_def lit_Cons)

lemma field_line_skipped:
  assumes "simple_key k" "str_len (field_line (k, v)) \<le> MAX_REGISTRY_LINE_BYTES"
  shows "read_lock_lines i (out, None) (field_line (k, v) # ls) = read_lock_lines (i + 1) (out, None) ls"
proof -
  obtain c r where c: "lit k = c # r" "\<not> is_whitespace c" "c \<noteq> ch CHR ''#''" "c \<noteq> ch CHR ''[''"
    using assms(1) by (rule simple_key_hd)
  obtain r' where "meaningful (field_line (k, v)) = c # r'"
    using meaningful_hd [OF c(2,3)] c(1) by (auto simp: field_line_def)
  then show ?thesis using assms(2) c(4) by (simp add: lit_Cons)
qed

definition quoted_value :: "ustring \<Rightarrow> ustring" where
  "quoted_value v = [quote] @ v @ [quote]"

lemma parse_quoted: "parse_string_value (trim_text (32 # quoted_value v)) n sp = Inr v"
proof -
  have "\<not> is_whitespace quote" by (simp add: char_values is_whitespace_def)
  then have "trim_text (32 # quoted_value v) = quoted_value v"
    using trim_text_id [of "quoted_value v"] by (simp add: quoted_value_def)
  moreover have "2 \<le> str_len (quoted_value v)" by (simp add: quoted_value_def str_len_def char_values len_utf8_def)
  ultimately show ?thesis by (simp add: parse_string_value_def quoted_value_def)
qed

lemma hm_insert_new: "map_of fs k = None \<Longrightarrow> hm_insert k v fs = fs @ [(k, v)]"
  by (induction fs) (auto split: if_splits)

lemma field_line_read:
  assumes key: "simple_key k" and len: "str_len (field_line (k, quoted_value v)) \<le> MAX_REGISTRY_LINE_BYTES"
    and plain: "plain_value esc v" and new: "map_of fs (lit k) = None"
  shows "read_lock_lines i (out, Some fs) (field_line (k, quoted_value v) # ls)
    = read_lock_lines (i + 1) (out, Some (fs @ [(lit k, v)])) ls"
proof -
  let ?l = "field_line (k, quoted_value v)"
  obtain c r where c: "lit k = c # r" "\<not> is_whitespace c" "c \<noteq> ch CHR ''#''" "c \<noteq> ch CHR ''[''"
    using key by (rule simple_key_hd)
  have chars: "\<not> is_whitespace quote" "ch CHR '' '' = 32" "is_whitespace 32" by (simp_all add: char_values is_whitespace_def ch_def)
  have k: "ch CHR ''='' \<notin> set (lit k)" "ch CHR ''#'' \<notin> set (lit k)" "\<not> is_whitespace (last (lit k))" "lit k \<noteq> []"
    using key c(1) by (auto simp: simple_key_def list_all_iff)
  have "ch CHR ''#'' \<notin> set v" using plain by (auto simp: plain_value_def list_all_iff)
  then have "ch CHR ''#'' \<notin> set ?l" using k(2) by (simp add: field_line_def quoted_value_def lit_Cons char_values ch_def)
  moreover have "hd ?l = c" "last ?l = quote" "?l \<noteq> []" using c(1) by (simp_all add: field_line_def quoted_value_def)
  ultimately have m: "meaningful ?l = ?l" using meaningful_id [of ?l] c(2) chars by simp
  have "split_once (ch CHR ''='') ?l = Some (lit k @ [32], 32 # quoted_value v)"
    using k(1) by (auto simp: split_once_def field_line_def lit_Cons takeWhile_append dropWhile_append char_values chars(2))
  moreover have "trim_text (lit k @ [32]) = lit k" using trim_text_snoc_space [of "lit k"] k(3,4) c(1,2) by simp
  moreover have "\<not> str_starts_with ?l (lit ''[['')" using c by (simp add: field_line_def lit_Cons)
  ultimately show ?thesis
    using len m new parse_quoted [of v] by (simp add: hm_insert_new c(1) field_line_def)
qed

section \<open>Reading sections\<close>

definition section_fields :: "(string \<times> ustring) list \<Rightarrow> field_map" where
  "section_fields kvs = map (\<lambda>(k, v). (lit k, v)) kvs"

definition section_lines :: "(string \<times> ustring) list \<Rightarrow> ustring list" where
  "section_lines kvs = [] # lit ''[[package_dependency]]'' # map (\<lambda>(k, v). field_line (k, quoted_value v)) kvs"

definition section_ok :: "(uchar \<Rightarrow> bool) \<Rightarrow> (string \<times> ustring) list \<Rightarrow> bool" where
  "section_ok esc kvs \<longleftrightarrow> list_all (\<lambda>(k, v). simple_key k \<and> plain_value esc v) kvs \<and> distinct (map fst kvs)"

definition short_lines :: "ustring list \<Rightarrow> bool" where
  "short_lines ls \<longleftrightarrow> list_all (\<lambda>l. str_len l \<le> MAX_REGISTRY_LINE_BYTES) ls"

lemma short_lines_simps [simp]:
  "short_lines []" "short_lines (l # ls) \<longleftrightarrow> str_len l \<le> MAX_REGISTRY_LINE_BYTES \<and> short_lines ls"
  "short_lines (ls @ ls') \<longleftrightarrow> short_lines ls \<and> short_lines ls'"
  by (simp_all add: short_lines_def)

lemma fields_of_new: "map_of (section_fields kvs) (lit k) = None \<longleftrightarrow> k \<notin> set (map fst kvs)"
  by (induction kvs) (auto simp: section_fields_def)

lemma read_fields:
  assumes "section_ok esc (done_kvs @ kvs)" "short_lines (map (\<lambda>(k, v). field_line (k, quoted_value v)) kvs)"
  shows "read_lock_lines i (out, Some (section_fields done_kvs)) (map (\<lambda>(k, v). field_line (k, quoted_value v)) kvs @ ls)
    = read_lock_lines (i + length kvs) (out, Some (section_fields (done_kvs @ kvs))) ls"
  using assms
proof (induction kvs arbitrary: i done_kvs)
  case (Cons kv kvs)
  obtain k v where kv: "kv = (k, v)" by force
  have "simple_key k" "plain_value esc v" "k \<notin> set (map fst done_kvs)"
    using Cons.prems(1) kv by (auto simp: section_ok_def)
  then have "read_lock_lines i (out, Some (section_fields done_kvs)) (field_line (k, quoted_value v) # map (\<lambda>(k, v). field_line (k, quoted_value v)) kvs @ ls)
    = read_lock_lines (i + 1) (out, Some (section_fields (done_kvs @ [kv]))) (map (\<lambda>(k, v). field_line (k, quoted_value v)) kvs @ ls)"
    using Cons.prems(2) kv field_line_read [of k v esc "section_fields done_kvs"] fields_of_new [of done_kvs k]
    by (simp add: section_fields_def)
  then show ?case using Cons.IH [of "done_kvs @ [kv]" "i + 1"] Cons.prems kv by simp
qed simp

definition with_section :: "field_map list \<Rightarrow> field_map option \<Rightarrow> field_map list" where
  "with_section out cur = (case cur of None \<Rightarrow> out | Some fs \<Rightarrow> out @ [fs])"

lemma pushed_Some [simp]: "with_section out (Some fs) = out @ [fs]"
  by (simp add: with_section_def)

lemma special_lines:
  "meaningful [] = []" "meaningful (lit ''# generated by ku'') = []"
  "meaningful (lit ''[[dependency]]'') = lit ''[[dependency]]''"
  "meaningful (lit ''[[package_dependency]]'') = lit ''[[package_dependency]]''"
  by code_simp+

lemma brackets:
  "str_starts_with (lit ''[[dependency]]'') (lit ''[['')" "ends_with (lit ''[[dependency]]'') (lit '']]'')"
  "str_starts_with (lit ''[[package_dependency]]'') (lit ''[['')" "ends_with (lit ''[[package_dependency]]'') (lit '']]'')"
  by code_simp+

lemma read_section:
  assumes "section_ok esc kvs" "short_lines (section_lines kvs)" "length (with_section out cur) < MAX_REGISTRY_DEPENDENCIES"
  shows "read_lock_lines i (out, cur) (section_lines kvs @ ls)
    = read_lock_lines (i + 2 + length kvs) (with_section out cur, Some (section_fields kvs)) ls"
  using assms read_fields [of esc "[]" kvs "i + 2" "with_section out cur" ls]
  by (simp add: section_lines_def special_lines brackets Let_def with_section_def [symmetric] section_fields_def)

lemma read_sections:
  assumes "list_all (section_ok esc) kvss" "short_lines (concat (map section_lines kvss))"
    and "length (with_section out cur) + length kvss \<le> MAX_REGISTRY_DEPENDENCIES"
  shows "read_lock_lines i (out, cur) (concat (map section_lines kvss)) = Inr (with_section out cur @ map section_fields kvss)"
  using assms
proof (induction kvss arbitrary: i out cur)
  case Nil
  then show ?case by (simp add: with_section_def)
next
  case (Cons kvs kvss)
  then show ?case
    using read_section [of esc kvs out cur i "concat (map section_lines kvss)"]
      Cons.IH [of "with_section out cur" "Some (section_fields kvs)" "i + 2 + length kvs"] by simp
qed

text \<open>The lines before the first package dependency are skipped.\<close>

definition skipped_line :: "ustring \<Rightarrow> bool" where
  "skipped_line l \<longleftrightarrow> l \<in> {[], lit ''# generated by ku'', lit ''[[dependency]]''} \<or> (\<exists>k v. simple_key k \<and> l = field_line (k, v))"

lemma read_skipped:
  assumes "list_all skipped_line ls" "short_lines ls"
  shows "read_lock_lines i (out, None) (ls @ ls') = read_lock_lines (i + length ls) (out, None) ls'"
  using assms
proof (induction ls arbitrary: i)
  case (Cons l ls)
  have "read_lock_lines i (out, None) (l # ls @ ls') = read_lock_lines (i + 1) (out, None) (ls @ ls')"
  proof (cases "l \<in> {[], lit ''# generated by ku'', lit ''[[dependency]]''}")
    case True
    then show ?thesis using Cons.prems by (auto simp: special_lines brackets)
  next
    case False
    then show ?thesis using Cons.prems field_line_skipped by (auto simp: skipped_line_def)
  qed
  then show ?case using Cons by simp
qed simp

section \<open>The written lines\<close>

definition file_kvs :: "resolved_file \<Rightarrow> (string \<times> ustring) list" where
  "file_kvs d = [(''name'', rf_name d), (''requirement'', rf_requirement d), (''version'', rf_version d),
     (''source'', rf_source d), (''checksum'', rf_checksum d), (''cache_key'', rf_cache_key d)]"

definition registry_kvs :: "resolved_registry \<Rightarrow> (string \<times> ustring) list" where
  "registry_kvs d = [(''name'', rr_name d), (''requirement'', rr_requirement d), (''version'', rr_version d),
     (''source'', lit ''registry''), (''registry'', rr_registry d), (''url'', rr_url d), (''checksum'', rr_checksum d),
     (''cache_key'', rr_cache_key d)]"

lemma section_texts:
  "list_all (\<lambda>(k, v). plain_value esc v) (file_kvs d) \<Longrightarrow> file_section esc d = lines_text (section_lines (file_kvs d))"
  "list_all (\<lambda>(k, v). plain_value esc v) (registry_kvs r) \<Longrightarrow> registry_section esc r = lines_text (section_lines (registry_kvs r))"
  by (simp_all add: file_section_def file_kvs_def registry_section_def registry_kvs_def section_lines_def lock_line_field
      plain_debug quoted_value_def)

definition header_lines :: "(uchar \<Rightarrow> bool) \<Rightarrow> ku_mod \<Rightarrow> ustring list" where
  "header_lines esc m = (let field = (\<lambda>key o' dflt. field_line (key, debug_str esc (case o' of None \<Rightarrow> dflt | Some v \<Rightarrow> v))) in
     [lit ''# generated by ku'', field_line (''package'', debug_str esc (km_name m)),
      field ''version'' (km_version m) (lit ''0.0.0''), field ''root'' (km_root m) DEFAULT_IMPORT_ROOT,
      field ''main'' (km_main m) DEFAULT_MAIN_FILE, field ''out'' (km_out m) DEFAULT_BUILD_DIR,
      field ''cache'' (km_cache m) DEFAULT_CACHE_DIR])"

definition module_lines :: "(uchar \<Rightarrow> bool) \<Rightarrow> ustring \<times> lock_dependency \<Rightarrow> ustring list" where
  "module_lines esc = (\<lambda>(path, d). [[], lit ''[[dependency]]'', field_line (''path'', debug_str esc path),
     field_line (''cache_key'', debug_str esc (ld_cache_key d))])"

lemma prefix_texts:
  "lock_header esc m = lines_text (header_lines esc m)"
  "(case x of (path, d) \<Rightarrow> module_section esc path d) = lines_text (module_lines esc x)"
  by (simp_all add: lock_header_def header_lines_def Let_def lock_line_field module_section_def module_lines_def split_beta)

lemma simple_keys:
  "simple_key ''package''" "simple_key ''version''" "simple_key ''root''" "simple_key ''main''" "simple_key ''out''" "simple_key ''cache''"
  "simple_key ''path''" "simple_key ''cache_key''" "simple_key ''name''" "simple_key ''requirement''" "simple_key ''source''"
  "simple_key ''checksum''" "simple_key ''registry''" "simple_key ''url''"
  by code_simp+

lemma clean_field:
  assumes "simple_key k"
  shows "clean_line (field_line (k, debug_str esc v))"
proof -
  have "is_whitespace 10" by (simp add: is_whitespace_def)
  then have "10 \<notin> set (lit k)" using assms by (auto simp: simple_key_def list_all_iff)
  moreover have "10 \<notin> set (lit '' = '')" by (simp add: lit_def ch_def)
  ultimately show ?thesis
    using debug_str_no_newline [of esc v] debug_str_last [of esc v] by (simp add: clean_line_def field_line_def char_values)
qed

lemma clean_literals: "clean_line []" "clean_line (lit ''# generated by ku'')" "clean_line (lit ''[[dependency]]'')"
  "clean_line (lit ''[[package_dependency]]'')"
  by code_simp+

lemma prefix_lines:
  "list_all skipped_line (header_lines esc m)" "list_all clean_line (header_lines esc m)"
  "list_all skipped_line (module_lines esc x)" "list_all clean_line (module_lines esc x)"
  using simple_keys by (auto simp: header_lines_def module_lines_def Let_def skipped_line_def clean_field clean_literals split_beta)

lemma clean_section: "section_ok esc kvs \<Longrightarrow> list_all clean_line (section_lines kvs)"
  using clean_field [of _ esc] by (auto simp: section_lines_def section_ok_def list_all_iff clean_literals plain_debug quoted_value_def) (metis (no_types, lifting) append_Cons append_Nil case_prodD plain_debug)

lemma clean_sections: "list_all (section_ok esc) kvss \<Longrightarrow> list_all clean_line (concat (map section_lines kvss))"
  by (induction kvss) (auto dest: clean_section)

lemma module_lines_all: "list_all clean_line (concat (map (module_lines esc) records))"
  "list_all skipped_line (concat (map (module_lines esc) records))"
  by (induction records) (simp_all add: prefix_lines)

lemma append_sections_text: "append_sections source ts = Inr out \<Longrightarrow> out = source @ concat ts"
  by (induction source ts rule: append_sections.induct)
    (auto simp: append_package_lock_section_def split: if_splits)

lemma lines_text_concat: "concat (map (\<lambda>x. lines_text (f x)) xs) = lines_text (concat (map f xs))"
  by (induction xs) simp_all

section \<open>Reading back\<close>

definition lock_file_ok :: "(uchar \<Rightarrow> bool) \<Rightarrow> resolved_file \<Rightarrow> bool" where
  "lock_file_ok esc d \<longleftrightarrow> validate_package_name (rf_name d) Span_default = Inr ()
     \<and> validate_version_requirement (rf_requirement d) Span_default = Inr ()
     \<and> validate_version (rf_version d) Span_default = Inr () \<and> validate_checksum (rf_checksum d) Span_default = Inr ()
     \<and> file_url_path (rf_source d) \<noteq> None \<and> plain_value esc (rf_source d)
     \<and> rf_cache_key d = file_cache_key (rf_name d) (rf_version d) (rf_checksum d)"

definition lock_registry_ok :: "registry_env \<Rightarrow> (uchar \<Rightarrow> bool) \<Rightarrow> resolved_registry \<Rightarrow> bool" where
  "lock_registry_ok env esc d \<longleftrightarrow> validate_package_name (rr_name d) Span_default = Inr ()
     \<and> validate_version_requirement (rr_requirement d) Span_default = Inr ()
     \<and> validate_version (rr_version d) Span_default = Inr () \<and> validate_sha256_checksum (rr_checksum d) Span_default = Inr ()
     \<and> validate_registry_base_url env (rr_registry d) Span_default = Inr ()
     \<and> validate_registry_url env (rr_url d) Span_default = Inr ()
     \<and> validate_registry_archive_url env (rr_url d) Span_default = Inr ()
     \<and> plain_value esc (rr_registry d) \<and> plain_value esc (rr_url d)
     \<and> rr_cache_key d = registry_cache_key_for_identity (rr_name d) (rr_version d) (rr_checksum d)"

lemma file_section_ok:
  assumes "lock_file_ok esc d"
  shows "section_ok esc (file_kvs d)"
proof -
  have "list_all plain_ascii (rf_name d)" "list_all plain_ascii (rf_requirement d)" "list_all plain_ascii (rf_version d)"
    "list_all plain_ascii (rf_checksum d)" "list_all plain_ascii (checksum_digest ''ku-fnv64-'' (rf_checksum d))"
    using assms plain_name plain_requirement plain_version plain_checksums by (auto simp: lock_file_ok_def)
  moreover from this have "list_all plain_ascii (rf_cache_key d)"
    using assms plain_literals by (simp add: lock_file_ok_def file_cache_key_def)
  ultimately show ?thesis
    using assms simple_keys plain_ascii_value by (simp add: section_ok_def file_kvs_def lock_file_ok_def)
qed

lemma registry_section_ok:
  assumes "lock_registry_ok env esc d"
  shows "section_ok esc (registry_kvs d)"
proof -
  have "list_all plain_ascii (rr_name d)" "list_all plain_ascii (rr_requirement d)" "list_all plain_ascii (rr_version d)"
    "list_all plain_ascii (rr_checksum d)" "list_all plain_ascii (checksum_digest ''sha256-'' (rr_checksum d))"
    using assms plain_name plain_requirement plain_version plain_checksums by (auto simp: lock_registry_ok_def)
  moreover from this have "list_all plain_ascii (rr_cache_key d)"
    using assms plain_literals by (simp add: lock_registry_ok_def registry_cache_key_for_identity_def)
  ultimately show ?thesis
    using assms simple_keys plain_ascii_value [of _ esc] plain_literals(6)
    by (simp add: section_ok_def registry_kvs_def lock_registry_ok_def)
qed

lemma written_text:
  assumes "write_lock_with_dependency_records esc ctx ds = Inr source"
  shows "\<exists>records. check_lock_source source = Inr source \<and> source = lock_header esc (pc_manifest ctx)
    @ concat (map (\<lambda>(path, d). module_section esc path d) records @ map (file_section esc) (pc_file_dependencies ctx)
        @ map (registry_section esc) (pc_registry_dependencies ctx))"
proof -
  obtain records where records: "normalized_lock_dependency_records ctx ds = Inr records"
    using assms by (auto simp: write_lock_with_dependency_records_def split: sum.splits)
  let ?ts = "map (\<lambda>(path, d). module_section esc path d) records @ map (file_section esc) (pc_file_dependencies ctx)
        @ map (registry_section esc) (pc_registry_dependencies ctx)"
  obtain out where out: "append_sections (lock_header esc (pc_manifest ctx)) ?ts = Inr out" "check_lock_source out = Inr source"
    using assms records by (simp add: write_lock_with_dependency_records_def split: sum.splits)
  then have "out = source" by (simp add: check_lock_source_def split: if_splits)
  then show ?thesis using out append_sections_text [OF out(1)] by blast
qed

lemma written_sections:
  assumes files: "list_all (lock_file_ok esc) (pc_file_dependencies ctx)"
    and registry: "list_all (lock_registry_ok env esc) (pc_registry_dependencies ctx)"
    and count: "length (pc_file_dependencies ctx) + length (pc_registry_dependencies ctx) \<le> MAX_REGISTRY_DEPENDENCIES"
    and written: "write_lock_with_dependency_records esc ctx ds = Inr source"
  shows "read_locked_package_dependency_fields (Some source) =
    Inr (map (\<lambda>d. section_fields (file_kvs d)) (pc_file_dependencies ctx) @ map (\<lambda>d. section_fields (registry_kvs d)) (pc_registry_dependencies ctx))"
proof -
  let ?kvss = "map file_kvs (pc_file_dependencies ctx) @ map registry_kvs (pc_registry_dependencies ctx)"
  have ok: "list_all (section_ok esc) ?kvss"
    using files registry file_section_ok registry_section_ok by (auto simp: list_all_iff)
  then have plain: "\<forall>kvs \<in> set ?kvss. list_all (\<lambda>(k, v). plain_value esc v) kvs"
    by (fastforce simp: section_ok_def list_all_iff)
  obtain records where records: "check_lock_source source = Inr source"
      "source = lock_header esc (pc_manifest ctx) @ concat (map (\<lambda>(path, d). module_section esc path d) records
        @ map (file_section esc) (pc_file_dependencies ctx) @ map (registry_section esc) (pc_registry_dependencies ctx))"
    using written_text [OF written] by blast
  let ?pre = "header_lines esc (pc_manifest ctx) @ concat (map (module_lines esc) records)"
  let ?lines = "?pre @ concat (map section_lines ?kvss)"
  have file_texts: "map (file_section esc) (pc_file_dependencies ctx) = map (\<lambda>d. lines_text (section_lines (file_kvs d))) (pc_file_dependencies ctx)"
    and registry_texts: "map (registry_section esc) (pc_registry_dependencies ctx) = map (\<lambda>d. lines_text (section_lines (registry_kvs d))) (pc_registry_dependencies ctx)"
    using plain by (auto intro!: section_texts)
  have module_texts: "map (\<lambda>(path, d). module_section esc path d) records = map (\<lambda>x. lines_text (module_lines esc x)) records"
    using prefix_texts(2) by auto
  have source: "source = lines_text ?lines"
    unfolding records(2) file_texts registry_texts module_texts concat_append lines_text_concat
    by (simp add: prefix_texts(1) comp_def)
  have clean: "list_all clean_line ?lines"
    using prefix_lines(2) module_lines_all(1) clean_sections [OF ok] by simp
  then have short: "short_lines ?lines"
    using records(1) split_lines_text [OF clean]
    by (auto simp: check_lock_source_def source short_lines_def list_ex_iff list_all_iff not_less split: if_splits)
  have size: "str_len source \<le> MAX_PACKAGE_LOCK_BYTES"
    using records(1) by (auto simp: check_lock_source_def split: if_splits)
  have "read_lock_lines 0 ([], None) ?lines = read_lock_lines (length ?pre) ([], None) (concat (map section_lines ?kvss))"
    using read_skipped [of ?pre 0 "[]" "concat (map section_lines ?kvss)"] prefix_lines(1) module_lines_all(2) short by simp
  also have "\<dots> = Inr (map section_fields ?kvss)"
    using read_sections [of esc ?kvss "[]" None] ok short count by (simp add: with_section_def)
  finally show ?thesis
    using size source str_lines_text [OF clean] by (simp add: read_locked_package_dependency_fields_def comp_def)
qed

definition locked_file_of :: "resolved_file \<Rightarrow> locked_file" where
  "locked_file_of d = \<lparr>lf_name = rf_name d, lf_requirement = rf_requirement d, lf_version = rf_version d, lf_source = rf_source d,
     lf_checksum = rf_checksum d, lf_cache_key = rf_cache_key d\<rparr>"

definition locked_registry_of :: "resolved_registry \<Rightarrow> locked_registry" where
  "locked_registry_of d = \<lparr>lr_name = rr_name d, lr_version = rr_version d, lr_registry = rr_registry d, lr_url = rr_url d,
     lr_checksum = rr_checksum d, lr_cache_key = rr_cache_key d\<rparr>"

lemma known_fields:
  assumes "visits_keys env" "set (map fst fs) \<subseteq> set (map lit allowed)"
  shows "reject_unknown_fields env fs allowed kind sp = Inr ()"
proof -
  have "find (\<lambda>k. k \<notin> set (map lit allowed)) (re_iter env (map fst fs)) = None"
    using assms mset_eq_setD [of "re_iter env (map fst fs)" "map fst fs"] by (auto simp: find_None_iff visits_keys_def)
  then show ?thesis by (simp add: reject_unknown_fields_def)
qed

lemma fields_lookup: "map_of (section_fields kvs) (lit k) = map_of kvs k"
  by (induction kvs) (auto simp: section_fields_def)

lemma registry_source_only: "file_url_path (lit ''registry'') = None"
  by code_simp

lemma file_read_back:
  assumes "lock_file_ok esc d" "visits_keys env" "map_of out (rf_name d) = None"
  shows "finish_locked_file_dependency env (section_fields (file_kvs d)) out = Inr (out @ [(rf_name d, locked_file_of d)])"
proof -
  have "rf_source d \<noteq> lit ''registry''" using assms(1) registry_source_only by (auto simp: lock_file_ok_def)
  moreover have "set (map fst (section_fields (file_kvs d)))
      \<subseteq> set (map lit [''name'', ''requirement'', ''version'', ''cache'', ''source'', ''checksum'', ''cache_key''])"
    by (simp add: section_fields_def file_kvs_def)
  ultimately show ?thesis
    using assms known_fields [OF assms(2)]
    by (simp add: finish_locked_file_dependency_def Let_def ebind_def required_field_def fields_lookup file_kvs_def
        lock_file_ok_def insert_locked_def hm_insert_new locked_file_of_def)
qed

lemma registry_read_back:
  assumes "lock_registry_ok env esc d" "visits_keys env" "map_of out (rr_name d) = None"
  shows "finish_locked_registry_dependency env (section_fields (registry_kvs d)) out Span_default = Inr (out @ [(rr_name d, locked_registry_of d)])"
proof -
  have "set (map fst (section_fields (registry_kvs d))) \<subseteq> set (map lit [''name'', ''requirement'', ''version'', ''cache'', ''source'',
      ''registry'', ''url'', ''checksum'', ''cache_key''])"
    by (simp add: section_fields_def registry_kvs_def)
  then show ?thesis
    using assms known_fields [OF assms(2)]
    by (simp add: finish_locked_registry_dependency_def Let_def ebind_def required_field_def fields_lookup registry_kvs_def
        lock_registry_ok_def insert_locked_def hm_insert_new locked_registry_of_def)
qed

lemma other_kind_skipped:
  "lock_file_ok esc f \<Longrightarrow> finish_locked_registry_dependency env (section_fields (file_kvs f)) out sp = Inr out"
  "finish_locked_file_dependency env (section_fields (registry_kvs r)) out' = Inr out'"
  using registry_source_only
  by (auto simp: finish_locked_registry_dependency_def finish_locked_file_dependency_def fields_lookup file_kvs_def registry_kvs_def
      lock_file_ok_def)

lemma fold_file_fields:
  assumes "list_all (lock_file_ok esc) files" "visits_keys env" "distinct (map fst out @ map rf_name files)"
  shows "fold_fields (finish_locked_file_dependency env)
      (map (\<lambda>d. section_fields (file_kvs d)) files @ map (\<lambda>d. section_fields (registry_kvs d)) regs) out
    = Inr (out @ map (\<lambda>d. (rf_name d, locked_file_of d)) files)"
  using assms
proof (induction files arbitrary: out)
  case Nil
  show ?case by (induction regs) (simp_all add: other_kind_skipped(2) ebind_def)
next
  case (Cons d files)
  have "map_of out (rf_name d) = None" using Cons.prems(3) by (auto simp: map_of_eq_None_iff)
  then show ?case
    using Cons file_read_back [of esc d env out] by (simp add: ebind_def)
qed

lemma fold_registry_fields:
  assumes "list_all (lock_file_ok esc) files" "list_all (lock_registry_ok env esc) regs" "visits_keys env"
    and "distinct (map fst out @ map rr_name regs)"
  shows "fold_fields (\<lambda>fs out. finish_locked_registry_dependency env fs out Span_default)
      (map (\<lambda>d. section_fields (file_kvs d)) files @ map (\<lambda>d. section_fields (registry_kvs d)) regs) out
    = Inr (out @ map (\<lambda>d. (rr_name d, locked_registry_of d)) regs)"
  using assms(1)
proof (induction files)
  case Nil
  show ?case using assms(2,4)
  proof (induction regs arbitrary: out)
    case (Cons d regs)
    have "map_of out (rr_name d) = None" using Cons.prems(2) by (auto simp: map_of_eq_None_iff)
    then show ?case
      using Cons registry_read_back [of env esc d out] assms(3) by (simp add: ebind_def)
  qed simp
next
  case (Cons d files)
  then show ?case using other_kind_skipped(1) [of esc d env out Span_default] by (simp add: ebind_def)
qed

section \<open>Properties\<close>

definition lockable :: "registry_env \<Rightarrow> (uchar \<Rightarrow> bool) \<Rightarrow> package_context \<Rightarrow> bool" where
  "lockable env esc ctx \<longleftrightarrow>
     list_all (lock_file_ok esc) (pc_file_dependencies ctx) \<and> distinct (map rf_name (pc_file_dependencies ctx))
     \<and> list_all (lock_registry_ok env esc) (pc_registry_dependencies ctx) \<and> distinct (map rr_name (pc_registry_dependencies ctx))
     \<and> length (pc_file_dependencies ctx) + length (pc_registry_dependencies ctx) \<le> MAX_REGISTRY_DEPENDENCIES"


definition demo_env :: registry_env where
  "demo_env = \<lparr>re_parse = (\<lambda>t. Some \<lparr>ul_scheme = lit ''https'', ul_host = Some (lit ''r''), ul_username = [], ul_password = None,
       ul_fragment = None, ul_query = None, ul_path = t, ul_text = t\<rparr>),
     re_join = (\<lambda>u t. Some (u\<lparr>ul_path := t, ul_text := t\<rparr>)), re_key_ok = (\<lambda>_. True), re_iter = rev\<rparr>"

definition demo_manifest :: ku_mod where
  "demo_manifest = \<lparr>km_name = lit ''app'', km_version = None, km_root = None, km_main = None, km_out = None, km_cache = None,
     km_template = None, km_package_type = None, km_registry = None, km_dependencies = []\<rparr>"

definition demo_file :: "string \<Rightarrow> resolved_file" where
  "demo_file source = \<lparr>rf_name = lit ''a'', rf_requirement = lit ''^1.0.0'', rf_version = lit ''1.2.0'', rf_source = lit source,
     rf_checksum = lit ''ku-fnv64-0123456789abcdef'', rf_cache_key = lit ''a-1.2.0-fnv64-0123456789abcdef'', rf_package_root = lit ''/c/a'',
     rf_dependencies = [], rf_snapshot_bytes = 10\<rparr>"

definition demo_context :: "string \<Rightarrow> package_context" where
  "demo_context source = \<lparr>pc_manifest_path = lit ''/p/ku.mod'', pc_package_dir = lit ''/p'', pc_import_root = lit ''/p/src'',
     pc_cache_dir = lit ''/p/.ku/cache'', pc_lock_path = lit ''/p/ku.lock'', pc_manifest = demo_manifest, pc_file_dependencies = [demo_file source],
     pc_registry_dependencies = [\<lparr>rr_name = lit ''b'', rr_requirement = lit ''^0.1.0'', rr_version = lit ''0.1.3'',
       rr_registry = lit ''https://r/'', rr_url = lit ''https://r/b.tar.zst'', rr_checksum = lit ''sha256-'' @ replicate 64 48,
       rr_cache_key = lit ''b-0.1.3-sha256-'' @ replicate 64 48, rr_package_root = lit ''/c/b''\<rparr>]\<rparr>"


text \<open>A source that needs an escape is accepted in a manifest and written, but the written file is rejected: the
  reader finds a backslash in the path.\<close>

lemma lock_escape_not_undone:
  "\<not> isl (draft_finish \<lparr>dr_name = lit ''a'', dr_version = Some (lit ''^1.0.0''), dr_source = Some (lit ''file:///d\"e''), dr_checksum = None\<rparr> Span_default)
   \<and> (case write_lock_with_dependency_records (\<lambda>_. False) (demo_context ''file:///d\"e'') [] of
        Inl e \<Rightarrow> False
      | Inr source \<Rightarrow> read_locked_file_dependencies demo_env (Some source) = Inl (package_error (lit ''invalid_package_lock'')
          (lit ''ku.lock file dependency '' @ quoted (lit ''a'') @ lit '' has an invalid source'') Span_default))"
  by code_simp

end
