(* ===== verification/Package_Manifest_Spec.thy ===== *)
theory Package_Manifest_Spec
  imports Package_Manifest Package_Lock_Roundtrip
begin

text \<open>
  What an accepted manifest is (\<open>parse_manifest\<close> in \<open>src/src/package.rs\<close>). The loop over the lines fills a draft field
  by field; the specification looks fields up by key in the list of all \<open>key = "value"\<close> lines.
\<close>

section \<open>Keys of dependencies\<close>

lemma strip_prefix_self [simp]: "strip_prefix p (p @ s) = Some s"
proof -
  have "str_starts_with (p @ s) p" by (simp add: str_starts_with_iff)
  then show ?thesis by (simp add: strip_prefix_def)
qed

lemma strip_prefix_Some: "strip_prefix p s = Some d \<Longrightarrow> s = p @ d"
  by (auto simp: strip_prefix_def str_starts_with_iff split: if_splits) (metis append_take_drop_id)

definition dep_key :: "ustring \<Rightarrow> string \<Rightarrow> ustring" where
  "dep_key n field = lit ''dep.'' @ n @ lit field"

definition dep_name :: "ustring \<Rightarrow> ustring option" where
  "dep_name k = map_option (\<lambda>rest. takeWhile (\<lambda>c. c \<noteq> ch CHR ''.'') rest) (strip_prefix (lit ''dep.'') k)"

text \<open>The keys a manifest may use.\<close>

definition field_keys :: "string list" where
  "field_keys = [''name'', ''version'', ''root'', ''main'', ''out'', ''cache'', ''template'', ''type'', ''registry.url'', ''registry.public_key'']"

definition known_key :: "ustring \<Rightarrow> bool" where
  "known_key k \<longleftrightarrow> k \<in> set (map lit field_keys) \<or>
     (\<exists>n. n \<noteq> [] \<and> ch CHR ''.'' \<notin> set n \<and> k \<in> {dep_key n '''', dep_key n ''.source'', dep_key n ''.checksum''})"

lemma dep_name_dep_key:
  assumes "ch CHR ''.'' \<notin> set n"
  shows "dep_name (dep_key n '''') = Some n" "dep_name (dep_key n ''.source'') = Some n" "dep_name (dep_key n ''.checksum'') = Some n"
proof -
  have "takeWhile (\<lambda>c. c \<noteq> ch CHR ''.'') (n @ s) = n @ takeWhile (\<lambda>c. c \<noteq> ch CHR ''.'') s" for s
    using assms by (auto simp: takeWhile_append)
  moreover have "dep_name (dep_key n s) = Some (takeWhile (\<lambda>c. c \<noteq> ch CHR ''.'') (n @ lit s))" for s
    by (simp add: dep_name_def dep_key_def)
  ultimately show "dep_name (dep_key n '''') = Some n" "dep_name (dep_key n ''.source'') = Some n" "dep_name (dep_key n ''.checksum'') = Some n"
    by (simp_all add: lit_Cons)
qed

lemma dep_name_field: "k \<in> set field_keys \<Longrightarrow> dep_name (lit k) = None"
proof -
  have "list_all (\<lambda>k. dep_name (lit k) = None) field_keys" by code_simp
  then show "k \<in> set field_keys \<Longrightarrow> dep_name (lit k) = None" by (auto simp: list_all_iff)
qed

definition draft_of :: "(ustring \<times> ustring) list \<Rightarrow> ustring \<Rightarrow> dependency_draft" where
  "draft_of es n = \<lparr>dr_name = n, dr_version = map_of es (dep_key n ''''), dr_source = map_of es (dep_key n ''.source''),
     dr_checksum = map_of es (dep_key n ''.checksum'')\<rparr>"

definition declared_names :: "(ustring \<times> ustring) list \<Rightarrow> ustring list" where
  "declared_names es = remdups (List.map_filter (\<lambda>(k, v). dep_name k) es)"

definition declared :: "(ustring \<times> ustring) list \<Rightarrow> ustring \<Rightarrow> bool" where
  "declared es n \<longleftrightarrow> list_ex (\<lambda>(k, v). dep_name k = Some n) es"

lemma set_declared_names: "set (declared_names es) = {n. declared es n}"
  by (force simp: declared_names_def declared_def list_ex_iff List.map_filter_def)

definition drafts_rep :: "(ustring \<times> ustring) list \<Rightarrow> (ustring \<times> dependency_draft) list \<Rightarrow> bool" where
  "drafts_rep es ds \<longleftrightarrow> distinct (map fst ds) \<and> (\<forall>n. map_of ds n = (if declared es n then Some (draft_of es n) else None))"

lemma map_of_snoc: "map_of es k = None \<Longrightarrow> map_of (es @ [(k, v)]) = (map_of es)(k \<mapsto> v)"
  by (auto simp: map_add_def fun_eq_iff split: option.splits)

declare map_of_append [simp del]

lemma declared_snoc: "declared (es @ [(k, v)]) n \<longleftrightarrow> declared es n \<or> dep_name k = Some n"
  by (auto simp: declared_def)

lemma dep_name_no_dot: "dep_name k = Some n \<Longrightarrow> ch CHR ''.'' \<notin> set n"
  by (auto simp: dep_name_def dest: set_takeWhileD)

lemma declared_no_dot: "declared es n \<Longrightarrow> ch CHR ''.'' \<notin> set n"
  using dep_name_no_dot by (auto simp: declared_def list_ex_iff)

lemma undeclared_fields:
  assumes "\<not> declared es n" "ch CHR ''.'' \<notin> set n"
  shows "map_of es (dep_key n '''') = None" "map_of es (dep_key n ''.source'') = None" "map_of es (dep_key n ''.checksum'') = None"
proof -
  have "map_of es k = None" if "dep_name k = Some n" for k
    using assms(1) that by (auto simp: declared_def list_ex_iff map_of_eq_None_iff)
  then show "map_of es (dep_key n '''') = None" "map_of es (dep_key n ''.source'') = None" "map_of es (dep_key n ''.checksum'') = None"
    using dep_name_dep_key [OF assms(2)] by blast+
qed

lemma drafts_rep_lookup:
  assumes "drafts_rep es ds" "ch CHR ''.'' \<notin> set n"
  shows "(case map_of ds n of Some d \<Rightarrow> d
      | None \<Rightarrow> \<lparr>dr_name = n, dr_version = None, dr_source = None, dr_checksum = None\<rparr>) = draft_of es n"
  using assms undeclared_fields [of es n] by (cases "declared es n") (auto simp: drafts_rep_def draft_of_def)

lemma lookup_hm_insert: "map_of (hm_insert k v fs) = (map_of fs)(k \<mapsto> v)"
  by (induction fs) auto

lemma keys_hm_insert: "set (map fst (hm_insert k v fs)) = insert k (set (map fst fs))"
  by (induction k v fs rule: hm_insert.induct) auto

lemma distinct_hm_insert: "distinct (map fst fs) \<Longrightarrow> distinct (map fst (hm_insert k v fs))"
proof (induction fs)
  case (Cons f fs)
  then show ?case using keys_hm_insert [of k v fs] by (cases f) auto
qed simp

lemma draft_field_step:
  assumes rep: "drafts_rep es ds" and key: "dep_name key = Some n" "map_of es key = None"
    and d': "d' = draft_of (es @ [(key, v)]) n"
  shows "drafts_rep (es @ [(key, v)]) (hm_insert n d' ds)"
proof -
  have other: "draft_of (es @ [(key, v)]) m = draft_of es m" if "m \<noteq> n" "declared es m" for m
  proof -
    have "dep_key m '''' \<noteq> key" "dep_key m ''.source'' \<noteq> key" "dep_key m ''.checksum'' \<noteq> key"
      using dep_name_dep_key [OF declared_no_dot [OF that(2)]] key(1) that(1) by auto
    then show ?thesis by (simp add: draft_of_def map_of_snoc [OF key(2)])
  qed
  then show ?thesis
    using rep key(1) d' distinct_hm_insert by (auto simp: drafts_rep_def lookup_hm_insert declared_snoc)
qed

lemma parse_dependency_key_step:
  assumes rep: "drafts_rep es ds" and parsed: "parse_dependency_key key v ds line_no sp = Inr ds'"
  shows "known_key key \<and> map_of es key = None \<and> drafts_rep (es @ [(key, v)]) ds'"
proof -
  obtain rest where rest: "strip_prefix (lit ''dep.'') key = Some rest"
    using parsed by (auto simp: parse_dependency_key_def split: option.splits)
  then have key: "key = lit ''dep.'' @ rest" by (rule strip_prefix_Some)
  define n where "n = takeWhile (\<lambda>c. c \<noteq> ch CHR ''.'') rest"
  have n: "ch CHR ''.'' \<notin> set n" by (auto simp: n_def dest: set_takeWhileD)
  have name: "dep_name key = Some n" by (simp add: dep_name_def rest n_def)
  obtain field where field: "(case split_once (ch CHR ''.'') rest of Some (n, f) \<Rightarrow> (n, Some f) | None \<Rightarrow> (rest, None)) = (n, field)"
      "rest = (case field of None \<Rightarrow> n | Some f \<Rightarrow> n @ ch CHR ''.'' # f)"
  proof (cases "ch CHR ''.'' \<in> set rest")
    case True
    then obtain m f where f: "rest = m @ ch CHR ''.'' # f" "ch CHR ''.'' \<notin> set m" by (metis split_list_first)
    then have "\<And>x. x \<in> set m \<Longrightarrow> x \<noteq> ch CHR ''.''" by auto
    then have "n = m" "dropWhile (\<lambda>c. c \<noteq> ch CHR ''.'') rest = ch CHR ''.'' # f"
      using f(1) by (simp_all add: n_def takeWhile_append2 dropWhile_append2)
    then show thesis using that [of "Some f"] True f by (simp add: split_once_def n_def)
  next
    case False
    then have all: "n = rest" unfolding n_def takeWhile_eq_all_conv by auto
    show thesis by (rule that [of None]) (simp_all add: split_once_def False all)
  qed
  have ne: "n \<noteq> []" using parsed rest field(1) by (auto simp: parse_dependency_key_def)
  have set_field: "map_sum id (\<lambda>d'. hm_insert n d' ds) (set_draft_field field (draft_of es n) v line_no sp) = Inr ds'"
    using parsed rest field(1) drafts_rep_lookup [OF rep n]
    by (simp add: parse_dependency_key_def Let_def split: if_splits)
  then obtain d' where d': "set_draft_field field (draft_of es n) v line_no sp = Inr d'" "ds' = hm_insert n d' ds"
    by (cases "set_draft_field field (draft_of es n) v line_no sp") auto
  have cases: "key \<in> {dep_key n '''', dep_key n ''.source'', dep_key n ''.checksum''} \<and> map_of es key = None
      \<and> d' = draft_of (es @ [(key, v)]) n"
  proof (cases field)
    case None
    then have "key = dep_key n ''''" using key field(2) by (simp add: dep_key_def)
    then show ?thesis
      using d' None by (auto simp: set_draft_field_def set_manifest_once_def draft_of_def map_of_snoc dep_key_def split: if_splits)
  next
    case (Some f)
    then have "f = lit ''source'' \<or> f = lit ''checksum''"
      using d'(1) by (auto simp: set_draft_field_def Let_def split: if_splits)
    then consider "f = lit ''source''" "key = dep_key n ''.source''" | "f = lit ''checksum''" "key = dep_key n ''.checksum''"
      using key field(2) Some by (auto simp: dep_key_def lit_Cons)
    then show ?thesis
      by cases (use d' Some in \<open>auto simp: set_draft_field_def set_manifest_once_def draft_of_def map_of_snoc dep_key_def split: if_splits\<close>)
  qed
  then have "known_key key" using n ne by (auto simp: known_key_def)
  with cases show ?thesis using draft_field_step [OF rep name] d'(2) by auto
qed

section \<open>The lines of a manifest\<close>

definition line_entry :: "ustring \<Rightarrow> (ustring \<times> ustring) option" where
  "line_entry raw = (case split_once (ch CHR ''='') (meaningful raw) of
       None \<Rightarrow> None
     | Some (key, v) \<Rightarrow> (case parse_string_value (trim_text v) 0 Span_default of
         Inl _ \<Rightarrow> None
       | Inr x \<Rightarrow> Some (trim_text key, x)))"

definition nonblank :: "ustring list \<Rightarrow> ustring list" where
  "nonblank ls = filter (\<lambda>l. meaningful l \<noteq> []) ls"

lemma parse_string_value_line: "parse_string_value v i sp = Inr x \<Longrightarrow> parse_string_value v j sp' = Inr x"
  by (simp add: parse_string_value_def split: if_splits)

definition md_fields :: "(string \<times> (manifest_draft \<Rightarrow> ustring option)) list" where
  "md_fields = [(''name'', md_name), (''version'', md_version), (''root'', md_root), (''main'', md_main), (''out'', md_out),
     (''cache'', md_cache), (''template'', md_template), (''type'', md_package_type), (''registry.url'', md_registry_url),
     (''registry.public_key'', md_registry_public_key)]"

definition md_rep :: "(ustring \<times> ustring) list \<Rightarrow> manifest_draft \<Rightarrow> bool" where
  "md_rep es m \<longleftrightarrow> distinct (map fst es) \<and> list_all known_key (map fst es)
     \<and> list_all (\<lambda>(k, f). f m = map_of es (lit k)) md_fields \<and> drafts_rep es (md_dependencies m)"

lemma field_keys_fields: "field_keys = map fst md_fields"
  by (simp add: field_keys_def md_fields_def)

lemma md_fields_dependencies: "list_all (\<lambda>(k, f). f (m\<lparr>md_dependencies := ds\<rparr>) = f m) md_fields"
  by (simp add: md_fields_def)

lemma md_fields_cases:
  assumes "(k, f) \<in> set md_fields"
  shows "(k, f) = (''name'', md_name) \<or> (k, f) = (''version'', md_version) \<or> (k, f) = (''root'', md_root) \<or> (k, f) = (''main'', md_main)
      \<or> (k, f) = (''out'', md_out) \<or> (k, f) = (''cache'', md_cache) \<or> (k, f) = (''template'', md_template)
      \<or> (k, f) = (''type'', md_package_type) \<or> (k, f) = (''registry.url'', md_registry_url)
      \<or> (k, f) = (''registry.public_key'', md_registry_public_key)"
  using assms by (simp add: md_fields_def)

lemma set_manifest_field:
  assumes "(k, f) \<in> set md_fields" "set_manifest_key (lit k) v line_no sp m = Inr m'"
  shows "f m = None \<and> md_dependencies m' = md_dependencies m
    \<and> list_all (\<lambda>(k', g). g m' = (if k' = k then Some v else g m)) md_fields"
  using md_fields_cases [OF assms(1)]
  by (elim disjE) (use assms(2) in \<open>force simp: md_fields_def set_manifest_key_def set_manifest_once_def split: if_splits\<close>)+

lemma set_manifest_field_ok:
  assumes "(k, f) \<in> set md_fields" "f m = None"
  shows "\<exists>m'. set_manifest_key (lit k) v line_no sp m = Inr m'"
  using md_fields_cases [OF assms(1)]
  by (elim disjE) (use assms(2) in \<open>simp add: set_manifest_key_def set_manifest_once_def\<close>)+

lemma drafts_rep_field:
  assumes "drafts_rep es ds" "dep_name key = None" "map_of es key = None"
  shows "drafts_rep (es @ [(key, v)]) ds"
proof -
  have "draft_of (es @ [(key, v)]) n = draft_of es n" if "ch CHR ''.'' \<notin> set n" for n
  proof -
    have "dep_key n '''' \<noteq> key" "dep_key n ''.source'' \<noteq> key" "dep_key n ''.checksum'' \<noteq> key"
      using dep_name_dep_key [OF that] assms(2) by auto
    then show ?thesis by (simp add: draft_of_def map_of_snoc [OF assms(3)])
  qed
  then show ?thesis
    using assms(1,2) declared_no_dot by (auto simp: drafts_rep_def declared_snoc)
qed

lemma dep_key_not_field: "dep_name key = Some n \<Longrightarrow> k \<in> set field_keys \<Longrightarrow> lit k \<noteq> key"
  using dep_name_field by auto

lemma set_manifest_key_step:
  assumes rep: "md_rep es m" and set: "set_manifest_key key v line_no sp m = Inr m'"
  shows "md_rep (es @ [(key, v)]) m'"
proof (cases "key \<in> set (map lit field_keys)")
  case True
  then obtain k f where k: "key = lit k" "(k, f) \<in> set md_fields" by (auto simp: field_keys_fields)
  have none: "dep_name key = None" using True dep_name_field by auto
  note field = set_manifest_field [OF k(2), of v line_no sp m m']
  have new: "map_of es key = None"
    using k field set rep by (auto simp: md_rep_def list_all_iff)
  have "known_key key" using True by (simp add: known_key_def)
  moreover have "drafts_rep (es @ [(key, v)]) (md_dependencies m')"
    using drafts_rep_field [OF _ none new] rep field set k(1) by (simp add: md_rep_def)
  moreover have "distinct (map fst (es @ [(key, v)]))"
    using rep new by (auto simp: md_rep_def map_of_eq_None_iff)
  moreover have "list_all (\<lambda>(k', g). g m' = map_of (es @ [(key, v)]) (lit k')) md_fields"
    using field set rep k(1) map_of_snoc [OF new, of v] by (auto simp: md_rep_def list_all_iff split_beta)
  ultimately show ?thesis using rep by (simp add: md_rep_def)
next
  case False
  then obtain rest where rest: "strip_prefix (lit ''dep.'') key = Some rest"
    using set by (auto simp: set_manifest_key_def field_keys_def Let_def split: option.splits)
  then obtain ds' where ds': "parse_dependency_key key v (md_dependencies m) line_no sp = Inr ds'" "m' = m\<lparr>md_dependencies := ds'\<rparr>"
    using set False by (cases "parse_dependency_key key v (md_dependencies m) line_no sp")
      (auto simp: set_manifest_key_def field_keys_def Let_def split: if_splits)
  have step: "known_key key" "map_of es key = None" "drafts_rep (es @ [(key, v)]) ds'"
    using parse_dependency_key_step [OF _ ds'(1)] rep by (auto simp: md_rep_def)
  have "map_of (es @ [(key, v)]) (lit k) = map_of es (lit k)" if "k \<in> set field_keys" for k
    using False that by (auto simp: map_of_snoc [OF step(2)])
  moreover have "distinct (map fst (es @ [(key, v)]))"
    using rep step(2) by (auto simp: md_rep_def map_of_eq_None_iff)
  ultimately have "list_all (\<lambda>(k, f). f m' = map_of (es @ [(key, v)]) (lit k)) md_fields \<and> distinct (map fst (es @ [(key, v)]))"
    using rep md_fields_dependencies [of ds' m] unfolding md_rep_def list_all_iff field_keys_fields ds'(2) by (auto simp: split_beta)
  then show ?thesis
    using rep step ds'(2) by (simp add: md_rep_def)
qed

lemma parse_manifest_lines_rep:
  assumes "parse_manifest_lines i sp m ls = Inr m'" "md_rep es m"
  shows "\<exists>es'. map line_entry (nonblank ls) = map Some es' \<and> md_rep (es @ es') m'"
  using assms
proof (induction i sp m ls arbitrary: es rule: parse_manifest_lines.induct)
  case (1 i sp m)
  then show ?case by (auto simp: nonblank_def)
next
  case (2 i sp m raw ls)
  show ?case
  proof (cases "meaningful raw = []")
    case True
    then show ?thesis using 2 by (simp add: nonblank_def)
  next
    case False
    obtain key v x m1 where parts: "split_once (ch CHR ''='') (meaningful raw) = Some (key, v)"
        "parse_string_value (trim_text v) (i + 1) sp = Inr x" "set_manifest_key (trim_text key) x (i + 1) sp m = Inr m1"
        "parse_manifest_lines (i + 1) sp m1 ls = Inr m'"
      using 2 False by (auto simp: Let_def split: option.splits sum.splits)
    have entry: "line_entry raw = Some (trim_text key, x)"
      using parts parse_string_value_line [OF parts(2), of 0 Span_default] by (simp add: line_entry_def)
    have "md_rep (es @ [(trim_text key, x)]) m1" using set_manifest_key_step [OF 2(4) parts(3)] .
    then obtain es' where "map line_entry (nonblank ls) = map Some es'" "md_rep ((es @ [(trim_text key, x)]) @ es') m'"
      using 2(2) [OF refl False parts(1) refl parts(2,3,4)] by blast
    then show ?thesis using entry False by (intro exI [of _ "(trim_text key, x) # es'"]) (simp add: nonblank_def)
  qed
qed

section \<open>Finishing a manifest\<close>

lemma ebind_Inr: "ebind m f = Inr y \<longleftrightarrow> (\<exists>x. m = Inr x \<and> f x = Inr y)"
  by (cases m) (auto simp: ebind_def)

lemma check_optional_Inr: "check_optional o' f = Inr x \<longleftrightarrow> pred_option (\<lambda>v. f v = Inr ()) o'"
  by (cases o') (auto simp: check_optional_def)

text \<open>A dependency is what the lines say of its name.\<close>

definition local_source_ok :: "ustring option \<Rightarrow> ustring option \<Rightarrow> span \<Rightarrow> bool" where
  "local_source_ok source checksum sp = (case source of
       None \<Rightarrow> checksum = None
     | Some u \<Rightarrow> str_len u \<le> MAX_REGISTRY_URL_BYTES \<and> file_url_path u \<noteq> None
         \<and> pred_option (\<lambda>c. validate_checksum c sp = Inr ()) checksum)"

definition dependency_read :: "(ustring \<times> ustring) list \<Rightarrow> span \<Rightarrow> package_dependency \<Rightarrow> bool" where
  "dependency_read es sp d \<longleftrightarrow> map_of es (dep_key (pd_name d) '''') = Some (pd_version d)
     \<and> map_of es (dep_key (pd_name d) ''.source'') = pd_source d \<and> map_of es (dep_key (pd_name d) ''.checksum'') = pd_checksum d
     \<and> validate_package_name (pd_name d) sp = Inr () \<and> validate_version_requirement (pd_version d) sp = Inr ()
     \<and> local_source_ok (pd_source d) (pd_checksum d) sp"

lemma draft_finish_read: "draft_finish (draft_of es n) sp = Inr d \<longleftrightarrow> pd_name d = n \<and> dependency_read es sp d"
proof (cases "map_of es (dep_key n '''')")
  case None
  then show ?thesis by (auto simp: draft_finish_def draft_of_def dependency_read_def split: sum.splits)
next
  case (Some v)
  show ?thesis
    by (cases d; cases "map_of es (dep_key n ''.source'')"; cases "map_of es (dep_key n ''.checksum'')")
      (auto simp: draft_finish_def draft_of_def dependency_read_def local_source_ok_def Some split: sum.splits)
qed

lemma finish_all_Inr: "finish_all ds sp = Inr xs \<longleftrightarrow> list_all2 (\<lambda>d x. draft_finish d sp = Inr x) ds xs"
proof (induction ds arbitrary: xs)
  case (Cons d ds)
  show ?case
  proof (cases "draft_finish d sp")
    case (Inr x)
    show ?thesis
      using Inr Cons [of "tl xs"] by (cases "finish_all ds sp"; cases xs) auto
  qed (auto simp: list_all2_Cons1)
qed auto

definition dependencies_read :: "(ustring \<times> ustring) list \<Rightarrow> span \<Rightarrow> package_dependency list \<Rightarrow> bool" where
  "dependencies_read es sp deps \<longleftrightarrow> sorted_wrt (<) (map pd_name deps) \<and> set (map pd_name deps) = set (declared_names es)
     \<and> list_all (dependency_read es sp) deps"

lemma dependency_read_unique:
  "dependency_read es sp d \<Longrightarrow> dependency_read es sp d' \<Longrightarrow> pd_name d = pd_name d' \<Longrightarrow> d = d'"
  by (cases d; cases d') (auto simp: dependency_read_def)

lemma dependencies_read_unique:
  assumes "dependencies_read es sp xs" "dependencies_read es sp ys"
  shows "xs = ys"
proof -
  have "map pd_name xs = map pd_name ys"
    using assms by (intro sorted_distinct_set_unique) (auto simp: dependencies_read_def strict_sorted_iff)
  moreover have "inj_on pd_name (set xs \<union> set ys)"
    using assms by (auto simp: dependencies_read_def list_all_iff inj_on_def intro: dependency_read_unique)
  ultimately show ?thesis by (rule map_inj_on)
qed

lemma finish_drafts_read:
  assumes env: "visits_keys env" and rep: "drafts_rep es ds"
  shows "finish_drafts env ds sp = Inr deps \<longleftrightarrow> dependencies_read es sp deps"
proof -
  define ns where "ns = re_iter env (map fst ds)"
  have perm: "mset ns = mset (map fst ds)" using env by (simp add: ns_def visits_keys_def)
  then have dist: "distinct ns" using rep mset_eq_imp_distinct_iff [OF perm] by (simp add: drafts_rep_def)
  have "set (map fst ds) = dom (map_of ds)" by (simp add: dom_map_of_conv_image_fst)
  also have "\<dots> = {n. declared es n}" using rep by (auto simp: drafts_rep_def dom_def)
  finally have ns: "set ns = {n. declared es n}" using mset_eq_setD [OF perm] by simp
  have "List.map_filter (map_of ds) ns = map (draft_of es) ns"
    using rep ns by (auto simp: List.map_filter_def drafts_rep_def intro!: map_cong filter_True)
  then have all: "finish_all (List.map_filter (map_of ds) ns) sp = Inr xs \<longleftrightarrow>
      map pd_name xs = ns \<and> list_all (dependency_read es sp) xs" for xs
    by (auto simp: finish_all_Inr list_all2_map1 draft_finish_read list_all2_conv_all_nth list_all_length intro!: nth_equalityI)
  have sorted: "dependencies_read es sp (sort_key pd_name xs)"
    if "map pd_name xs = ns" "list_all (dependency_read es sp) xs" for xs
  proof -
    have "distinct (map pd_name (sort_key pd_name xs))" using that(1) dist by (auto simp: distinct_map)
    then show ?thesis using that ns by (auto simp: dependencies_read_def strict_sorted_iff list_all_iff set_declared_names)
  qed
  show ?thesis
  proof
    assume "finish_drafts env ds sp = Inr deps"
    then obtain xs where "finish_all (List.map_filter (map_of ds) ns) sp = Inr xs" "deps = sort_key pd_name xs"
      by (cases "finish_all (List.map_filter (map_of ds) ns) sp") (auto simp: finish_drafts_def ns_def)
    then show "dependencies_read es sp deps" using sorted all by simp
  next
    assume read: "dependencies_read es sp deps"
    have "set ns = pd_name ` set deps" using read ns by (simp add: dependencies_read_def set_declared_names)
    then have "\<forall>n\<in>set ns. \<exists>d. d \<in> set deps \<and> pd_name d = n" by auto
    then obtain dep where dep: "\<And>n. n \<in> set ns \<Longrightarrow> dep n \<in> set deps \<and> pd_name (dep n) = n" by metis
    have "map pd_name (map dep ns) = ns" "list_all (dependency_read es sp) (map dep ns)"
      using dep read by (auto simp: map_idI dependencies_read_def list_all_iff)
    then have "finish_all (List.map_filter (map_of ds) ns) sp = Inr (map dep ns)" "dependencies_read es sp (sort_key pd_name (map dep ns))"
      using all sorted by blast+
    then have "finish_drafts env ds sp = Inr (sort_key pd_name (map dep ns))" "dependencies_read es sp (sort_key pd_name (map dep ns))"
      by (simp_all add: finish_drafts_def flip: ns_def)
    then show "finish_drafts env ds sp = Inr deps" using dependencies_read_unique [OF read] by simp
  qed
qed

text \<open>The manifest that a list of entries describes.\<close>

definition registry_read :: "registry_env \<Rightarrow> (ustring \<times> ustring) list \<Rightarrow> span \<Rightarrow> package_registry option \<Rightarrow> bool" where
  "registry_read env es sp reg = (case reg of
       None \<Rightarrow> map_of es (lit ''registry.url'') = None \<and> map_of es (lit ''registry.public_key'') = None
     | Some r \<Rightarrow> map_of es (lit ''registry.url'') = Some (pr_url r) \<and> map_of es (lit ''registry.public_key'') = Some (pr_public_key r)
         \<and> validate_registry_base_url env (pr_url r) sp = Inr () \<and> \<not> isl (parse_ed25519_public_key env (pr_public_key r) sp))"

definition path_field :: "(ustring \<times> ustring) list \<Rightarrow> string \<Rightarrow> ustring option \<Rightarrow> span \<Rightarrow> bool" where
  "path_field es key v sp \<longleftrightarrow> map_of es (lit key) = v \<and> pred_option (\<lambda>p. reject_unsafe_relative_path (lit key) p sp = Inr ()) v"

definition label_field :: "(ustring \<times> ustring) list \<Rightarrow> string \<Rightarrow> ustring option \<Rightarrow> span \<Rightarrow> bool" where
  "label_field es key v sp \<longleftrightarrow> map_of es (lit key) = v \<and> pred_option (\<lambda>p. validate_manifest_label (lit key) p sp = Inr ()) v"

definition manifest_read :: "registry_env \<Rightarrow> (ustring \<times> ustring) list \<Rightarrow> span \<Rightarrow> ku_mod \<Rightarrow> bool" where
  "manifest_read env es sp m \<longleftrightarrow>
     map_of es (lit ''name'') = Some (km_name m) \<and> validate_package_name (km_name m) sp = Inr ()
     \<and> map_of es (lit ''version'') = km_version m \<and> pred_option (\<lambda>v. validate_version v sp = Inr ()) (km_version m)
     \<and> path_field es ''root'' (km_root m) sp \<and> path_field es ''main'' (km_main m) sp
     \<and> path_field es ''out'' (km_out m) sp \<and> path_field es ''cache'' (km_cache m) sp
     \<and> label_field es ''template'' (km_template m) sp \<and> label_field es ''type'' (km_package_type m) sp
     \<and> registry_read env es sp (km_registry m) \<and> dependencies_read es sp (km_dependencies m)"

lemma manifest_registry_read:
  "manifest_registry env (map_of es (lit ''registry.url'')) (map_of es (lit ''registry.public_key'')) sp = Inr reg
     \<longleftrightarrow> registry_read env es sp reg"
  by (cases reg) (auto simp: manifest_registry_def registry_read_def isl_def split: option.splits sum.splits)

lemma finish_manifest_read:
  assumes "visits_keys env" "md_rep es md"
  shows "finish_manifest env md sp = Inr m \<longleftrightarrow> manifest_read env es sp m"
proof -
  have fields: "md_name md = map_of es (lit ''name'')" "md_version md = map_of es (lit ''version'')"
      "md_root md = map_of es (lit ''root'')" "md_main md = map_of es (lit ''main'')" "md_out md = map_of es (lit ''out'')"
      "md_cache md = map_of es (lit ''cache'')" "md_template md = map_of es (lit ''template'')"
      "md_package_type md = map_of es (lit ''type'')" "md_registry_url md = map_of es (lit ''registry.url'')"
      "md_registry_public_key md = map_of es (lit ''registry.public_key'')"
    using assms(2) by (simp_all add: md_rep_def md_fields_def)
  have deps: "finish_drafts env (md_dependencies md) sp = Inr ds \<longleftrightarrow> dependencies_read es sp ds" for ds
    using finish_drafts_read [OF assms(1)] assms(2) by (simp add: md_rep_def)
  show ?thesis
    by (cases m) (auto simp: finish_manifest_def fields ebind_Inr check_optional_Inr manifest_registry_read deps manifest_read_def
        path_field_def label_field_def split: option.splits)
qed

section \<open>Every line that can be read is read\<close>

lemma length_hm_insert: "length (hm_insert k v fs) = (if map_of fs k = None then Suc (length fs) else length fs)"
  by (induction fs) auto

lemma drafts_rep_length: "drafts_rep es ds \<Longrightarrow> length ds = length (declared_names es)"
proof -
  assume rep: "drafts_rep es ds"
  have "set (map fst ds) = dom (map_of ds)" by (simp add: dom_map_of_conv_image_fst)
  also have "\<dots> = set (declared_names es)" using rep by (auto simp: drafts_rep_def set_declared_names dom_def)
  finally have "card (set (map fst ds)) = card (set (declared_names es))" by simp
  then show ?thesis using rep distinct_card [of "map fst ds"]
    by (simp add: drafts_rep_def declared_names_def length_remdups_card_conv del: set_map)
qed

lemma dependency_key_cases:
  assumes "known_key key" "key \<notin> set (map lit field_keys)"
  obtains n field where "dep_name key = Some n" "strip_prefix (lit ''dep.'') key = Some (n @ field)" "n \<noteq> []" "ch CHR ''.'' \<notin> set n"
    "field = [] \<and> key = dep_key n '''' \<or> field = lit ''.source'' \<and> key = dep_key n ''.source''
      \<or> field = lit ''.checksum'' \<and> key = dep_key n ''.checksum''"
proof -
  obtain n where n: "n \<noteq> []" "ch CHR ''.'' \<notin> set n" "key \<in> {dep_key n '''', dep_key n ''.source'', dep_key n ''.checksum''}"
    using assms by (auto simp: known_key_def)
  then obtain field where "key = dep_key n field" "field = '''' \<or> field = ''.source'' \<or> field = ''.checksum''" by blast
  then show thesis using n dep_name_dep_key [OF n(2)] by (intro that [of n "lit field"]) (auto simp: dep_key_def)
qed

lemma split_once_first: "d \<notin> set a \<Longrightarrow> split_once d (a @ d # b) = Some (a, b)"
proof -
  assume "d \<notin> set a"
  then have "\<And>x. x \<in> set a \<Longrightarrow> x \<noteq> d" by auto
  then show ?thesis by (simp add: split_once_def takeWhile_append2 dropWhile_append2)
qed

lemma split_once_none: "d \<notin> set s \<Longrightarrow> split_once d s = None"
  by (simp add: split_once_def)

lemma drafts_room:
  assumes "drafts_rep es ds" "dep_name key = Some n" "map_of ds n = None"
    and "length (declared_names (es @ [(key, v)])) \<le> MAX_REGISTRY_DEPENDENCIES"
  shows "length ds < MAX_REGISTRY_DEPENDENCIES"
proof -
  have "n \<notin> set (declared_names es)" using assms(1,3) by (auto simp: drafts_rep_def set_declared_names split: if_splits)
  then have "length (declared_names (es @ [(key, v)])) = Suc (length (declared_names es))"
    using assms(2) by (simp add: declared_names_def length_remdups_card_conv List.map_filter_def)
  then show ?thesis using assms(4) drafts_rep_length [OF assms(1)] by simp
qed

lemma parse_dependency_key_ok:
  assumes rep: "drafts_rep es ds" and "strip_prefix (lit ''dep.'') key = Some (n @ field)" "n \<noteq> []" "ch CHR ''.'' \<notin> set n"
    and field: "field = [] \<and> key = dep_key n '''' \<or> field = lit ''.source'' \<and> key = dep_key n ''.source''
      \<or> field = lit ''.checksum'' \<and> key = dep_key n ''.checksum''"
    and new: "map_of es key = None"
  shows "\<exists>ds'. parse_dependency_key key v ds line_no sp = Inr ds'"
proof -
  let ?fields = "{(None, []), (Some (lit ''source''), lit ''.source''), (Some (lit ''checksum''), lit ''.checksum'')}"
  have once: "\<exists>x. set_draft_field f (draft_of es n) v line_no sp = Inr x" if "(f, field) \<in> ?fields" for f
    using that field new by (auto simp: set_draft_field_def set_manifest_once_def draft_of_def lit_def Let_def)
  obtain f where f: "(case split_once (ch CHR ''.'') (n @ field) of Some (n, f) \<Rightarrow> (n, Some f) | None \<Rightarrow> (n @ field, None)) = (n, f)"
      "(f, field) \<in> ?fields"
    using field assms(4) split_once_none [OF assms(4)] by (auto simp: lit_Cons split_once_first)
  then show ?thesis
    using once [OF f(2)] drafts_rep_lookup [OF rep assms(4)] assms(2,3) by (auto simp: parse_dependency_key_def)
qed

lemma set_manifest_key_ok:
  assumes rep: "md_rep es m" and key: "known_key key" "map_of es key = None"
    and room: "length (declared_names (es @ [(key, v)])) \<le> MAX_REGISTRY_DEPENDENCIES"
  shows "\<exists>m'. set_manifest_key key v line_no sp m = Inr m'"
proof (cases "key \<in> set (map lit field_keys)")
  case True
  then obtain k f where k: "key = lit k" "(k, f) \<in> set md_fields" by (auto simp: field_keys_fields)
  then have "f m = None" using rep key(2) by (auto simp: md_rep_def list_all_iff)
  then show ?thesis using set_manifest_field_ok [OF k(2)] k(1) by simp
next
  case False
  then obtain n field where n: "dep_name key = Some n" "strip_prefix (lit ''dep.'') key = Some (n @ field)" "n \<noteq> []" "ch CHR ''.'' \<notin> set n"
    and field: "field = [] \<and> key = dep_key n '''' \<or> field = lit ''.source'' \<and> key = dep_key n ''.source''
      \<or> field = lit ''.checksum'' \<and> key = dep_key n ''.checksum''"
    using dependency_key_cases key(1) by metis
  have drafts: "drafts_rep es (md_dependencies m)" using rep by (simp add: md_rep_def)
  have name: "takeWhile (\<lambda>c. c \<noteq> ch CHR ''.'') (n @ field) = n"
    using n(1,2) by (simp add: dep_name_def)
  show ?thesis
    using parse_dependency_key_ok [OF drafts n(2-4) field key(2), of v line_no sp] drafts_room [OF drafts n(1) _ room] False n(2) name
    by (auto simp: set_manifest_key_def field_keys_def hd_split_char Let_def)
qed

text \<open>The lines of a manifest, read one by one.\<close>

definition manifest_entries :: "ustring \<Rightarrow> (ustring \<times> ustring) list option" where
  "manifest_entries source = those (map line_entry (nonblank (str_lines source)))"

definition entries_ok :: "(ustring \<times> ustring) list \<Rightarrow> bool" where
  "entries_ok es \<longleftrightarrow> distinct (map fst es) \<and> list_all known_key (map fst es)
     \<and> length (declared_names es) \<le> MAX_REGISTRY_DEPENDENCIES"

lemma those_Some: "those xs = Some ys \<longleftrightarrow> xs = map Some ys"
proof (induction xs arbitrary: ys)
  case (Cons x xs)
  then show ?case by (cases x; cases ys) auto
qed auto

lemma declared_names_prefix: "length (declared_names es) \<le> length (declared_names (es @ es'))"
  by (simp add: declared_names_def length_remdups_card_conv List.map_filter_def) (rule card_mono; auto)

lemma parse_manifest_lines_ok:
  assumes "map line_entry (nonblank ls) = map Some es'" "md_rep es m" "entries_ok (es @ es')"
  shows "\<exists>m'. parse_manifest_lines i sp m ls = Inr m'"
  using assms
proof (induction ls arbitrary: i m es es')
  case (Cons raw ls)
  show ?case
  proof (cases "meaningful raw = []")
    case True
    then show ?thesis using Cons.IH [OF _ Cons.prems(2,3)] Cons.prems(1) by (simp add: nonblank_def)
  next
    case False
    then obtain e es1 where e: "es' = e # es1" "line_entry raw = Some e" "map line_entry (nonblank ls) = map Some es1"
      using Cons.prems(1) by (cases es') (auto simp: nonblank_def)
    then obtain key0 v0 x where parts: "split_once (ch CHR ''='') (meaningful raw) = Some (key0, v0)" "e = (trim_text key0, x)"
        "parse_string_value (trim_text v0) 0 Span_default = Inr x"
      by (auto simp: line_entry_def split: option.splits sum.splits)
    have ok: "known_key (trim_text key0)" "map_of es (trim_text key0) = None" "entries_ok ((es @ [e]) @ es1)"
      using Cons.prems(3) e(1) parts(2) by (auto simp: entries_ok_def map_of_eq_None_iff)
    moreover have "length (declared_names (es @ [e])) \<le> MAX_REGISTRY_DEPENDENCIES"
      using ok(3) declared_names_prefix [of "es @ [e]" es1] by (simp add: entries_ok_def)
    ultimately obtain m1 where m1: "set_manifest_key (trim_text key0) x (i + 1) sp m = Inr m1"
      using set_manifest_key_ok [OF Cons.prems(2)] parts(2) by blast
    have "md_rep (es @ [e]) m1" using set_manifest_key_step [OF Cons.prems(2) m1] parts(2) by simp
    then obtain m' where "parse_manifest_lines (i + 1) sp m1 ls = Inr m'"
      using Cons.IH [OF e(3) _ ok(3)] by blast
    then show ?thesis
      using False parts(1) m1 parse_string_value_line [OF parts(3), of "i + 1" sp] by simp
  qed
qed simp

lemma md_rep_new: "md_rep [] manifest_draft_new"
  by (simp add: md_rep_def manifest_draft_new_def md_fields_def drafts_rep_def declared_def)

lemma parse_dependency_key_length:
  assumes "parse_dependency_key key v ds line_no sp = Inr ds'" "strip_prefix (lit ''dep.'') key = Some rest"
  shows "length ds' = (if map_of ds (hd (split_char (ch CHR ''.'') rest)) = None then Suc (length ds) else length ds)"
proof -
  have "fst (case split_once (ch CHR ''.'') rest of Some (n, f) \<Rightarrow> (n, Some f) | None \<Rightarrow> (rest, None)) = hd (split_char (ch CHR ''.'') rest)"
    by (cases "ch CHR ''.'' \<in> set rest") (simp_all add: split_once_def hd_split_char split_char_none)
  then show ?thesis
    using assms by (auto simp: parse_dependency_key_def length_hm_insert Let_def map_sum_def split: prod.splits if_splits sum.splits)
qed

lemma set_manifest_key_limit:
  assumes "set_manifest_key key v line_no sp m = Inr m'" "length (md_dependencies m) \<le> MAX_REGISTRY_DEPENDENCIES"
  shows "length (md_dependencies m') \<le> MAX_REGISTRY_DEPENDENCIES"
proof (cases "key \<in> set (map lit field_keys)")
  case True
  then obtain k f where "key = lit k" "(k, f) \<in> set md_fields" by (auto simp: field_keys_fields)
  then show ?thesis using set_manifest_field assms by fastforce
next
  case False
  then obtain rest where rest: "strip_prefix (lit ''dep.'') key = Some rest"
    using assms(1) by (auto simp: set_manifest_key_def field_keys_def Let_def split: option.splits)
  then show ?thesis
    using assms False parse_dependency_key_length [of key v "md_dependencies m" line_no sp _ rest]
    by (cases "parse_dependency_key key v (md_dependencies m) line_no sp")
      (auto simp: set_manifest_key_def field_keys_def Let_def split: if_splits)
qed

lemma parse_manifest_lines_limit:
  "parse_manifest_lines i sp m ls = Inr m' \<Longrightarrow> length (md_dependencies m) \<le> MAX_REGISTRY_DEPENDENCIES
    \<Longrightarrow> length (md_dependencies m') \<le> MAX_REGISTRY_DEPENDENCIES"
proof (induction i sp m ls rule: parse_manifest_lines.induct)
  case (2 i sp m raw ls)
  then show ?case
    using set_manifest_key_limit by (auto simp: Let_def split: if_splits option.splits sum.splits)
qed simp

section \<open>Manifests are read faithfully\<close>

text \<open>C7: A manifest is accepted if and only if it is good, and then it says what its lines say: every line that is not
  blank or a comment has the form \<open>key = "value"\<close>, no key occurs twice, every key is known, at most 256 dependencies
  are declared, and the values pass the checks of their fields. The result holds exactly these values, wherever
  in the file they stand and in whatever order the hash map of dependencies is walked: each field is the value of
  its key, the registry is there with both its keys or not at all, and the dependencies are the declared ones,
  each once, in the order of their names, with the version, source and checksum of their own lines.\<close>

theorem manifest_accepted_iff:
  assumes "visits_keys env"
  shows "parse_manifest env source sp = Inr m \<longleftrightarrow>
    (case manifest_entries source of None \<Rightarrow> False | Some es \<Rightarrow> entries_ok es \<and> manifest_read env es sp m)"
proof
  assume "parse_manifest env source sp = Inr m"
  then obtain md where md: "parse_manifest_lines 0 sp manifest_draft_new (str_lines source) = Inr md" "finish_manifest env md sp = Inr m"
    by (auto simp: parse_manifest_def ebind_Inr)
  obtain es where es: "map line_entry (nonblank (str_lines source)) = map Some es" "md_rep es md"
      "length (md_dependencies md) \<le> MAX_REGISTRY_DEPENDENCIES"
    using parse_manifest_lines_rep [OF md(1) md_rep_new] parse_manifest_lines_limit [OF md(1)] by (auto simp: manifest_draft_new_def)
  then have "entries_ok es" using drafts_rep_length by (auto simp: entries_ok_def md_rep_def)
  then show "case manifest_entries source of None \<Rightarrow> False | Some es \<Rightarrow> entries_ok es \<and> manifest_read env es sp m"
    using es md(2) finish_manifest_read [OF assms es(2)] by (simp add: manifest_entries_def those_Some [THEN iffD2])
next
  assume "case manifest_entries source of None \<Rightarrow> False | Some es \<Rightarrow> entries_ok es \<and> manifest_read env es sp m"
  then obtain es where es: "map line_entry (nonblank (str_lines source)) = map Some es" "entries_ok es" "manifest_read env es sp m"
    by (auto simp: manifest_entries_def those_Some split: option.splits)
  then obtain md where md: "parse_manifest_lines 0 sp manifest_draft_new (str_lines source) = Inr md"
    using parse_manifest_lines_ok [OF es(1) md_rep_new] by auto
  then have "md_rep es md"
    using parse_manifest_lines_rep [OF md md_rep_new] es(1) by (auto dest: map_injective)
  then show "parse_manifest env source sp = Inr m"
    using md es(3) finish_manifest_read [OF assms] by (simp add: parse_manifest_def ebind_def)
qed

definition demo_manifest_text :: ustring where
  "demo_manifest_text = lit ''name = '' @ [quote] @ lit ''app'' @ [quote, 10] @ lit ''# tools'' @ [10]
     @ lit ''dep.zlib = '' @ [quote] @ lit ''^1.2.0'' @ [quote, 10]
     @ lit ''dep.core.source = '' @ [quote] @ lit ''file:///core'' @ [quote, 13, 10]
     @ lit ''main = '' @ [quote] @ lit ''app/main.ku'' @ [quote, 10] @ lit ''dep.core='' @ [quote] @ lit ''2.0.0'' @ [quote]"

definition demo_manifest_read :: ku_mod where
  "demo_manifest_read = \<lparr>km_name = lit ''app'', km_version = None, km_root = None, km_main = Some (lit ''app/main.ku''), km_out = None,
     km_cache = None, km_template = None, km_package_type = None, km_registry = None,
     km_dependencies = [\<lparr>pd_name = lit ''core'', pd_version = lit ''2.0.0'', pd_source = Some (lit ''file:///core''), pd_checksum = None\<rparr>,
       \<lparr>pd_name = lit ''zlib'', pd_version = lit ''^1.2.0'', pd_source = None, pd_checksum = None\<rparr>]\<rparr>"

theorem manifest_accepted_iff_witness:
  "visits_keys demo_env \<and> parse_manifest demo_env demo_manifest_text Span_default = Inr demo_manifest_read
   \<and> (case manifest_entries demo_manifest_text of None \<Rightarrow> False
      | Some es \<Rightarrow> length es = 5 \<and> entries_ok es \<and> manifest_read demo_env es Span_default demo_manifest_read)"
proof -
  have env: "visits_keys demo_env" by (simp add: visits_keys_def demo_env_def)
  have parsed: "parse_manifest demo_env demo_manifest_text Span_default = Inr demo_manifest_read" by code_simp
  have "map_option length (manifest_entries demo_manifest_text) = Some 5" by code_simp
  then show ?thesis
    using env parsed manifest_accepted_iff [OF env, of demo_manifest_text Span_default demo_manifest_read]
    by (cases "manifest_entries demo_manifest_text") simp_all
qed

end
