(* ===== verification/Package_Index_Spec.thy ===== *)
theory Package_Index_Spec
  imports Package_Manifest_Spec
begin

text \<open>
  What an accepted registry index is (\<open>parse_registry_index\<close> in \<open>src/src/package.rs\<close>): a name, then sections that
  each describe one version. A section is specified like a manifest, by looking its keys up; the index holds the
  versions of all sections, newest first.
\<close>

section \<open>The fields of a version\<close>

definition index_key :: "ustring \<Rightarrow> bool" where
  "index_key k \<longleftrightarrow> k \<in> set (map lit [''version'', ''url'', ''checksum'']) \<or> (\<exists>n. n \<noteq> [] \<and> ch CHR ''.'' \<notin> set n \<and> k = dep_key n '''')"

definition version_read ::
    "registry_env \<Rightarrow> ustring \<Rightarrow> span \<Rightarrow> ustring \<Rightarrow> (ustring \<times> ustring) list \<Rightarrow> registry_manifest \<Rightarrow> bool" where
  "version_read env index_url sp name es m \<longleftrightarrow> list_all index_key (map fst es)
     \<and> length (declared_names es) \<le> MAX_REGISTRY_DEPENDENCIES
     \<and> rm_name m = name \<and> validate_package_name name sp = Inr ()
     \<and> map_of es (lit ''version'') = Some (rm_version m) \<and> validate_version (rm_version m) sp = Inr ()
     \<and> map_of es (lit ''checksum'') = Some (rm_checksum m) \<and> validate_sha256_checksum (rm_checksum m) sp = Inr ()
     \<and> (case map_of es (lit ''url'') of None \<Rightarrow> False | Some u \<Rightarrow> resolve_registry_url env index_url u sp = Inr (rm_source m))
     \<and> validate_registry_archive_url env (rm_source m) sp = Inr ()
     \<and> dependencies_read es sp (rm_dependencies m)"

lemma is_dependency_key_name: "is_dependency_key k \<longleftrightarrow> dep_name k \<noteq> None"
  by (simp add: is_dependency_key_def dep_name_def strip_prefix_def)

lemma map_of_filter_keys: "map_of (filter (\<lambda>(k, _). P k) es) k = (if P k then map_of es k else None)"
  by (induction es) auto

lemma drafts_rep_cong:
  assumes "\<And>n. declared es n \<longleftrightarrow> declared es' n" "\<And>k. dep_name k \<noteq> None \<Longrightarrow> map_of es k = map_of es' k"
  shows "drafts_rep es ds \<longleftrightarrow> drafts_rep es' ds"
proof -
  have "draft_of es n = draft_of es' n" if "declared es' n" for n
    using dep_name_dep_key [OF declared_no_dot [OF that]] assms(2) by (simp add: draft_of_def)
  then show ?thesis using assms(1) by (auto simp: drafts_rep_def)
qed

lemma drafts_rep_dependency_fields:
  assumes "distinct (map fst fs)"
  shows "drafts_rep (sort_key fst (filter (\<lambda>(k, _). is_dependency_key k) fs)) ds \<longleftrightarrow> drafts_rep fs ds"
proof (rule drafts_rep_cong)
  let ?gs = "filter (\<lambda>(k, _). is_dependency_key k) fs"
  have dist: "distinct (map fst ?gs)" using assms by (simp add: distinct_map_filter)
  then have "distinct (map fst (sort_key fst ?gs))" by (metis distinct_map distinct_sort mset_sort set_mset_mset)
  then have "map_of (sort_key fst ?gs) = map_of ?gs" using dist by (simp add: map_of_inject_set)
  then show "map_of (sort_key fst ?gs) k = map_of fs k" if "dep_name k \<noteq> None" for k
    using that by (simp add: map_of_filter_keys is_dependency_key_name)
  show "declared (sort_key fst ?gs) n \<longleftrightarrow> declared fs n" for n
    by (auto simp: declared_def list_ex_iff is_dependency_key_name)
qed

lemma index_dependencies_rep:
  assumes "index_dependencies fs drafts sp = Inr drafts'" "drafts_rep es drafts" "list_all (\<lambda>(k, _). is_dependency_key k) fs"
    "length drafts \<le> MAX_REGISTRY_DEPENDENCIES"
  shows "drafts_rep (es @ fs) drafts' \<and> list_all index_key (map fst fs) \<and> length drafts' \<le> MAX_REGISTRY_DEPENDENCIES"
  using assms
proof (induction fs drafts sp arbitrary: es rule: index_dependencies.induct)
  case (2 key v fs drafts sp)
  let ?name = "drop (length (lit ''dep.'')) key"
  have key: "strip_prefix (lit ''dep.'') key = Some ?name" "key = lit ''dep.'' @ ?name"
    using 2(4) strip_prefix_Some by (auto simp: is_dependency_key_def strip_prefix_def)
  have dotless: "ch CHR ''.'' \<notin> set ?name" using 2(2) by (auto simp: Let_def split: if_splits)
  obtain drafts1 where drafts1: "parse_dependency_key key v drafts 0 sp = Inr drafts1" "index_dependencies fs drafts1 sp = Inr drafts'"
    "map_of drafts ?name = None \<Longrightarrow> length drafts < MAX_REGISTRY_DEPENDENCIES"
    using 2(2) by (auto simp: Let_def split: if_splits sum.splits)
  have room: "length drafts1 \<le> MAX_REGISTRY_DEPENDENCIES"
    using parse_dependency_key_length [OF drafts1(1) key(1)] drafts1(3) 2(5) dotless by (auto simp: split_char_none split: if_splits)
  have "?name \<noteq> []" using drafts1(1) key(1) dotless by (auto simp: parse_dependency_key_def split_once_none)
  moreover have "key = dep_key ?name ''''" using key(2) by (simp add: dep_key_def)
  ultimately have index: "index_key key" using dotless unfolding index_key_def by blast
  have "drafts_rep (es @ [(key, v)]) drafts1" using parse_dependency_key_step [OF 2(3) drafts1(1)] by simp
  moreover have "\<not> (map_of drafts ?name = None \<and> MAX_REGISTRY_DEPENDENCIES \<le> length drafts)" using drafts1(3) by fastforce
  ultimately have "drafts_rep ((es @ [(key, v)]) @ fs) drafts' \<and> list_all index_key (map fst fs) \<and> length drafts' \<le> MAX_REGISTRY_DEPENDENCIES"
    using 2(1) [OF refl dotless _ drafts1(1) drafts1(2) _ _ room, of "es @ [(key, v)]"] 2(4) by simp
  then show ?case using index by simp
qed simp

definition dependency_index_key :: "ustring \<Rightarrow> bool" where
  "dependency_index_key k \<longleftrightarrow> index_key k \<and> is_dependency_key k"

lemma dependency_index_keyE:
  assumes "dependency_index_key k"
  obtains n where "n \<noteq> []" "ch CHR ''.'' \<notin> set n" "k = dep_key n ''''" "dep_name k = Some n" "strip_prefix (lit ''dep.'') k = Some (n @ [])"
proof -
  have "list_all (\<lambda>k. \<not> is_dependency_key (lit k)) [''version'', ''url'', ''checksum'']" by code_simp
  then obtain n where "n \<noteq> []" "ch CHR ''.'' \<notin> set n" "k = dep_key n ''''"
    using assms by (auto simp: dependency_index_key_def index_key_def)
  then show thesis using that dep_name_dep_key(1) by (simp add: dep_key_def)
qed

lemma index_dependencies_ok:
  assumes "list_all (\<lambda>(k, _). dependency_index_key k) fs" "distinct (map fst (es @ fs))" "drafts_rep es drafts"
    "length (declared_names (es @ fs)) \<le> MAX_REGISTRY_DEPENDENCIES"
  shows "\<exists>drafts'. index_dependencies fs drafts sp = Inr drafts'"
  using assms
proof (induction fs arbitrary: es drafts)
  case (Cons f fs)
  obtain key v where f: "f = (key, v)" by (cases f)
  then obtain n where n: "n \<noteq> []" "ch CHR ''.'' \<notin> set n" "key = dep_key n ''''" "dep_name key = Some n"
      "strip_prefix (lit ''dep.'') key = Some (n @ [])"
    using Cons.prems(1) by (auto elim: dependency_index_keyE)
  have new: "map_of es key = None" using Cons.prems(2) f by (auto simp: map_of_eq_None_iff)
  obtain drafts1 where drafts1: "parse_dependency_key key v drafts 0 sp = Inr drafts1"
    using parse_dependency_key_ok [OF Cons.prems(3) n(5,1,2) _ new, of v 0 sp] n(3) by auto
  have "drafts_rep (es @ [f]) drafts1" using parse_dependency_key_step [OF Cons.prems(3) drafts1] f by simp
  then obtain drafts' where rest: "index_dependencies fs drafts1 sp = Inr drafts'"
    using Cons.IH [of "es @ [f]" drafts1] Cons.prems by auto
  have "length (declared_names (es @ [(key, v)])) \<le> MAX_REGISTRY_DEPENDENCIES"
    using Cons.prems(4) declared_names_prefix [of "es @ [f]" fs] f by simp
  then have "map_of drafts n = None \<Longrightarrow> length drafts < MAX_REGISTRY_DEPENDENCIES"
    using drafts_room [OF Cons.prems(3) n(4)] by blast
  moreover have "drop (length (lit ''dep.'')) key = n" using n(3) by (simp add: dep_key_def)
  ultimately show ?case using rest drafts1 n(2) f by (auto simp: Let_def)
qed simp

abbreviation dependency_fields :: "field_map \<Rightarrow> field_map" where
  "dependency_fields fs \<equiv> sort_key fst (filter (\<lambda>(k, _). is_dependency_key k) fs)"

lemma index_dependencies_drafts:
  assumes "distinct (map fst fs)" "index_dependencies (dependency_fields fs) [] sp = Inr ds"
  shows "drafts_rep fs ds \<and> length (declared_names fs) \<le> MAX_REGISTRY_DEPENDENCIES \<and>
    list_all (\<lambda>(k, _). is_dependency_key k \<longrightarrow> index_key k) fs"
proof -
  have empty: "drafts_rep [] []" by (simp add: drafts_rep_def declared_def)
  have rep: "drafts_rep fs ds" "list_all index_key (map fst (dependency_fields fs))" "length ds \<le> MAX_REGISTRY_DEPENDENCIES"
    using index_dependencies_rep [OF assms(2) empty] drafts_rep_dependency_fields [OF assms(1), of ds] by (auto simp: list_all_iff)
  then show ?thesis using drafts_rep_length [OF rep(1)] by (auto simp: list_all_iff)
qed

lemma index_dependencies_accepted:
  assumes "distinct (map fst fs)" "list_all index_key (map fst fs)" "length (declared_names fs) \<le> MAX_REGISTRY_DEPENDENCIES"
  shows "\<exists>ds. index_dependencies (dependency_fields fs) [] sp = Inr ds"
proof (rule index_dependencies_ok [where es = "[]"])
  let ?gs = "filter (\<lambda>(k, _). is_dependency_key k) fs"
  show "list_all (\<lambda>(k, _). dependency_index_key k) (dependency_fields fs)"
    using assms(2) by (auto simp: list_all_iff dependency_index_key_def)
  have "distinct (map fst ?gs)" using assms(1) by (simp add: distinct_map_filter)
  then show "distinct (map fst ([] @ dependency_fields fs))" by (simp add: distinct_map)
  show "drafts_rep [] []" by (simp add: drafts_rep_def declared_def)
  have "set (declared_names (dependency_fields fs)) = set (declared_names fs)"
    by (auto simp: set_declared_names declared_def list_ex_iff is_dependency_key_name)
  then have "length (declared_names (dependency_fields fs)) = length (declared_names fs)"
    by (metis declared_names_def distinct_card distinct_remdups)
  then show "length (declared_names ([] @ dependency_fields fs)) \<le> MAX_REGISTRY_DEPENDENCIES" using assms(3) by simp
qed

lemma reject_unknown_fields_Inr:
  assumes "visits_keys env"
  shows "reject_unknown_fields env fs allowed kind sp = Inr u \<longleftrightarrow> list_all (\<lambda>(k, _). k \<in> set (map lit allowed)) fs"
proof -
  have "set (re_iter env (map fst fs)) = set (map fst fs)"
    using assms by (metis visits_keys_def mset_eq_setD)
  then have "find (\<lambda>k. k \<notin> set (map lit allowed)) (re_iter env (map fst fs)) = None
      \<longleftrightarrow> list_all (\<lambda>(k, _). k \<in> set (map lit allowed)) fs"
    by (auto simp: find_None_iff list_all_iff)
  then show ?thesis
    by (cases "find (\<lambda>k. k \<notin> set (map lit allowed)) (re_iter env (map fst fs))") (auto simp: reject_unknown_fields_def)
qed

lemma required_field_Inr: "required_field fs k kind sp = Inr v \<longleftrightarrow> map_of fs (lit k) = Some v"
  by (auto simp: required_field_def split: option.splits)

lemma index_keys_no_source:
  assumes "list_all index_key (map fst es)" "field \<in> {''.source'', ''.checksum''}"
  shows "map_of es (dep_key n field) = None"
proof -
  have "\<not> index_key (dep_key n field)"
  proof
    assume index: "index_key (dep_key n field)"
    have "is_dependency_key (dep_key n field)" by (simp add: is_dependency_key_def dep_key_def str_starts_with_iff)
    then have "dependency_index_key (dep_key n field)" using index by (simp add: dependency_index_key_def)
    then obtain n' where "ch CHR ''.'' \<notin> set n'" "dep_key n field = dep_key n' ''''" by (rule dependency_index_keyE) blast
    then show False using assms(2) by (auto simp: dep_key_def lit_Cons)
  qed
  then show ?thesis using assms(1) by (auto simp: list_all_iff map_of_eq_None_iff)
qed

lemma index_dependencies_valid:
  assumes "list_all index_key (map fst es)" "length (declared_names es) \<le> MAX_REGISTRY_DEPENDENCIES" "dependencies_read es sp deps"
  shows "validate_registry_package_dependencies deps = Inr ()"
proof -
  have "length deps = card (set (map pd_name deps))"
    using assms(3) distinct_card [of "map pd_name deps"] by (simp add: dependencies_read_def strict_sorted_iff del: set_map)
  also have "\<dots> = length (declared_names es)"
    using assms(3) distinct_card [of "declared_names es"] by (simp add: dependencies_read_def declared_names_def)
  finally have "length deps \<le> MAX_REGISTRY_DEPENDENCIES" using assms(2) by simp
  moreover have "pd_source d = None \<and> pd_checksum d = None" if "d \<in> set deps" for d
    using that assms(3) index_keys_no_source [OF assms(1)] by (auto simp: dependencies_read_def dependency_read_def list_all_iff)
  then have "find (\<lambda>d. pd_source d \<noteq> None \<or> pd_checksum d \<noteq> None) deps = None" by (simp add: find_None_iff)
  ultimately show ?thesis by (simp add: validate_registry_package_dependencies_def)
qed

lemma finish_version_read:
  assumes env: "visits_keys env" and dist: "distinct (map fst fs)"
  shows "finish_registry_index_version env name fs index_url sp = Inr m
    \<longleftrightarrow> name = Some (rm_name m) \<and> version_read env index_url sp (rm_name m) fs m"
proof (cases "index_dependencies (dependency_fields fs) [] sp")
  case (Inl e)
  then have "\<not> (list_all index_key (map fst fs) \<and> length (declared_names fs) \<le> MAX_REGISTRY_DEPENDENCIES)"
    using index_dependencies_accepted [OF dist, of sp] by auto
  then show ?thesis by (auto simp: finish_registry_index_version_def version_read_def Inl ebind_def)
next
  case (Inr ds)
  note drafts = index_dependencies_drafts [OF dist Inr]
  let ?rest = "filter (\<lambda>(k, _). \<not> is_dependency_key k) fs"
  have deps: "finish_drafts env ds sp = Inr deps \<longleftrightarrow> dependencies_read fs sp deps" for deps
    using finish_drafts_read [OF env] drafts by blast
  have fields: "\<not> is_dependency_key (lit ''version'')" "\<not> is_dependency_key (lit ''url'')" "\<not> is_dependency_key (lit ''checksum'')"
    by code_simp+
  have rest: "reject_unknown_fields env ?rest [''version'', ''url'', ''checksum''] kind sp = Inr u \<longleftrightarrow> list_all index_key (map fst fs)" for kind u
  proof -
    define A where "A = set (map lit [''version'', ''url'', ''checksum''])"
    have "index_key k \<longleftrightarrow> k \<in> A" if "\<not> is_dependency_key k" for k
      using that by (auto simp: A_def index_key_def is_dependency_key_name dep_name_dep_key)
    then have "list_all (\<lambda>(k, _). k \<in> A) ?rest \<longleftrightarrow> list_all index_key (map fst fs)"
      using drafts by (fastforce simp: list_all_iff)
    then show ?thesis by (simp only: A_def reject_unknown_fields_Inr [OF env])
  qed
  have valid: "list_all index_key (map fst fs) \<Longrightarrow> dependencies_read fs sp deps \<Longrightarrow> validate_registry_package_dependencies deps = Inr ()" for deps
    using index_dependencies_valid drafts by blast
  show ?thesis
    by (cases m; cases name) (use drafts in \<open>auto simp: finish_registry_index_version_def Inr ebind_Inr Let_def deps
        rest required_field_Inr map_of_filter_keys fields version_read_def valid split: option.splits\<close>)
qed

section \<open>Sections\<close>

text \<open>The lines before the first \<open>[[version]]\<close> and the lines behind each of them.\<close>

fun split_sections :: "ustring list \<Rightarrow> ustring list \<times> ustring list list" where
  "split_sections [] = ([], [])"
| "split_sections (l # ls) = (let (h, ss) = split_sections ls in
     if meaningful l = lit ''[[version]]'' then ([], h # ss) else (l # h, ss))"

definition entries_read :: "registry_env \<Rightarrow> ustring option \<Rightarrow> ustring \<Rightarrow> span \<Rightarrow> field_map \<Rightarrow> registry_manifest \<Rightarrow> bool" where
  "entries_read env name index_url sp es m \<longleftrightarrow> distinct (map fst es) \<and> finish_registry_index_version env name es index_url sp = Inr m"

definition sections_read ::
    "registry_env \<Rightarrow> ustring option \<Rightarrow> ustring \<Rightarrow> span \<Rightarrow> field_map \<Rightarrow> ustring list \<Rightarrow> registry_manifest list \<Rightarrow> bool" where
  "sections_read env name index_url sp fs ls ms = (case split_sections (nonblank ls) of (h, ss) \<Rightarrow>
     \<exists>es ess. map line_entry h = map Some es \<and> map (map line_entry) ss = map (map Some) ess
       \<and> list_all2 (entries_read env name index_url sp) ((fs @ es) # ess) ms)"

lemma nonblank_simps [simp]:
  "nonblank [] = []" "meaningful l = [] \<Longrightarrow> nonblank (l # ls) = nonblank ls" "meaningful l \<noteq> [] \<Longrightarrow> nonblank (l # ls) = l # nonblank ls"
  by (simp_all add: nonblank_def)

lemma sections_read_Nil: "sections_read env name index_url sp fs [] ms \<longleftrightarrow> (\<exists>m. ms = [m] \<and> entries_read env name index_url sp fs m)"
  by (auto simp: sections_read_def list_all2_Cons1)

lemma sections_read_blank: "meaningful l = [] \<Longrightarrow> sections_read env name index_url sp fs (l # ls) = sections_read env name index_url sp fs ls"
  by (simp add: sections_read_def fun_eq_iff)

lemma sections_read_version:
  assumes "meaningful l = lit ''[[version]]''"
  shows "sections_read env name index_url sp fs (l # ls) ms
    \<longleftrightarrow> (\<exists>m ms'. ms = m # ms' \<and> entries_read env name index_url sp fs m \<and> sections_read env name index_url sp [] ls ms')"
proof -
  have "meaningful l \<noteq> []" using assms by simp
  then show ?thesis
    using assms by (cases "split_sections (nonblank ls)") (auto simp: sections_read_def list_all2_Cons1 Cons_eq_map_conv map_eq_Cons_conv)
qed

lemma sections_read_entry:
  assumes "meaningful l \<noteq> []" "meaningful l \<noteq> lit ''[[version]]''"
  shows "sections_read env name index_url sp fs (l # ls) ms \<longleftrightarrow>
    (case line_entry l of None \<Rightarrow> False | Some e \<Rightarrow> sections_read env name index_url sp (fs @ [e]) ls ms)"
  using assms by (cases "split_sections (nonblank ls)")
    (auto simp: sections_read_def Cons_eq_map_conv map_eq_Cons_conv split: option.splits)

lemma sections_read_distinct: "sections_read env name index_url sp fs ls ms \<Longrightarrow> distinct (map fst fs)"
  by (auto simp: sections_read_def entries_read_def list_all2_Cons1)

lemma line_entry_value:
  assumes "split_once (ch CHR ''='') (meaningful l) = Some (key, v)"
  shows "line_entry l = (case parse_string_value (trim_text v) i sp of Inl _ \<Rightarrow> None | Inr x \<Rightarrow> Some (trim_text key, x))"
  using assms by (simp add: line_entry_def parse_string_value_def)

lemma line_entry_no_value: "split_once (ch CHR ''='') (meaningful l) = None \<Longrightarrow> line_entry l = None"
  by (simp add: line_entry_def)

abbreviation short_line :: "ustring \<Rightarrow> bool" where
  "short_line l \<equiv> str_len l \<le> MAX_REGISTRY_LINE_BYTES"

lemma close_version_read:
  assumes "ix_current s = Some fs" "distinct (map fst fs)"
  shows "close_version env index_url sp s = Inr s' \<longleftrightarrow> (\<exists>m. entries_read env (ix_name s) index_url sp fs m
    \<and> length (ix_versions s) < MAX_REGISTRY_INDEX_VERSIONS \<and> s' = s\<lparr>ix_versions := ix_versions s @ [m], ix_current := None\<rparr>)"
  using assms by (cases "finish_registry_index_version env (ix_name s) fs index_url sp") (auto simp: close_version_def entries_read_def)

lemma parse_index_sections:
  assumes "ix_current s = Some fs" "distinct (map fst fs)"
  shows "parse_index_lines env index_url sp i s ls = Inr s' \<longleftrightarrow> list_all short_line ls \<and>
    (\<exists>ms. sections_read env (ix_name s) index_url sp fs ls ms \<and> length (ix_versions s) + length ms \<le> MAX_REGISTRY_INDEX_VERSIONS
      \<and> s' = s\<lparr>ix_versions := ix_versions s @ ms, ix_current := None\<rparr>)"
  using assms
proof (induction ls arbitrary: i s fs)
  case Nil
  then show ?case by (auto simp: close_version_read sections_read_Nil)
next
  case (Cons raw ls)
  consider "\<not> short_line raw" | "short_line raw" "meaningful raw = []" | "short_line raw" "meaningful raw = lit ''[[version]]''"
    | "short_line raw" "meaningful raw \<noteq> []" "meaningful raw \<noteq> lit ''[[version]]''" by blast
  then show ?case
  proof cases
    case 2
    then show ?thesis using Cons.IH [OF Cons.prems] by (simp add: sections_read_blank)
  next
    case 3
    have step: "parse_index_lines env index_url sp i s (raw # ls) = Inr s' \<longleftrightarrow>
        (\<exists>m. entries_read env (ix_name s) index_url sp fs m \<and> length (ix_versions s) < MAX_REGISTRY_INDEX_VERSIONS \<and>
          parse_index_lines env index_url sp (i + 1) (s\<lparr>ix_versions := ix_versions s @ [m], ix_current := Some []\<rparr>) ls = Inr s')"
      using 3 Cons.prems by (cases "finish_registry_index_version env (ix_name s) fs index_url sp")
        (auto simp: close_version_def entries_read_def)
    have IH: "parse_index_lines env index_url sp (i + 1) (s\<lparr>ix_versions := ix_versions s @ [m], ix_current := Some []\<rparr>) ls = Inr s'
        \<longleftrightarrow> list_all short_line ls \<and> (\<exists>ms. sections_read env (ix_name s) index_url sp [] ls ms
          \<and> length (ix_versions s) + length (m # ms) \<le> MAX_REGISTRY_INDEX_VERSIONS
          \<and> s' = s\<lparr>ix_versions := ix_versions s @ m # ms, ix_current := None\<rparr>)" for m
      using Cons.IH [of "s\<lparr>ix_versions := ix_versions s @ [m], ix_current := Some []\<rparr>" "[]" "i + 1"] by simp
    show ?thesis
      unfolding step IH sections_read_version [OF 3(2)] using 3(1) by fastforce
  next
    case 4
    show ?thesis
    proof (cases "line_entry raw")
      case None
      then show ?thesis
        using 4 Cons.prems line_entry_value [of raw _ _ "i + 1" sp]
        by (auto simp: sections_read_entry split: option.splits sum.splits)
    next
      case (Some e)
      then obtain key v where parts: "split_once (ch CHR ''='') (meaningful raw) = Some (key, v)"
          "parse_string_value (trim_text v) (i + 1) sp = Inr (snd e)" "fst e = trim_text key"
        using line_entry_value [of raw _ _ "i + 1" sp] line_entry_no_value [of raw]
        by (cases "split_once (ch CHR ''='') (meaningful raw)") (auto split: sum.splits)
      show ?thesis
      proof (cases "map_of fs (fst e)")
        case None
        then have "distinct (map fst (fs @ [e]))" using Cons.prems(2) by (auto simp: map_of_eq_None_iff)
        then show ?thesis
          using 4 parts Some None Cons.prems Cons.IH [of "s\<lparr>ix_current := Some (fs @ [e])\<rparr>" "fs @ [e]" "i + 1"]
          by (cases e) (simp add: sections_read_entry hm_insert_new)
      next
        case (Some y)
        then have "\<not> distinct (map fst (fs @ [e]))" by (auto dest!: map_of_SomeD intro: rev_image_eqI)
        then have "\<not> sections_read env (ix_name s) index_url sp (fs @ [e]) ls ms" for ms
          using sections_read_distinct by blast
        then show ?thesis
          using 4 parts Some \<open>line_entry raw = Some e\<close> Cons.prems by (simp add: sections_read_entry)
      qed
    qed
  qed simp
qed

text \<open>The header: at most one line, the name.\<close>

definition header_read :: "ustring option \<Rightarrow> ustring list \<Rightarrow> ustring option \<Rightarrow> bool" where
  "header_read name h name' = (case h of
       [] \<Rightarrow> name' = name
     | [l] \<Rightarrow> name = None \<and> (\<exists>v. line_entry l = Some (lit ''name'', v) \<and> name' = Some v)
     | _ \<Rightarrow> False)"

definition index_sections_read ::
    "registry_env \<Rightarrow> ustring option \<Rightarrow> ustring \<Rightarrow> span \<Rightarrow> ustring list \<Rightarrow> ustring option \<Rightarrow> registry_manifest list \<Rightarrow> bool" where
  "index_sections_read env name index_url sp ls name' ms = (case split_sections (nonblank ls) of (h, ss) \<Rightarrow>
     header_read name h name' \<and> (\<exists>ess. map (map line_entry) ss = map (map Some) ess \<and> list_all2 (entries_read env name' index_url sp) ess ms))"

lemma index_sections_Nil: "index_sections_read env name index_url sp [] name' ms \<longleftrightarrow> name' = name \<and> ms = []"
  by (auto simp: index_sections_read_def header_read_def)

lemma index_sections_blank:
  "meaningful l = [] \<Longrightarrow> index_sections_read env name index_url sp (l # ls) = index_sections_read env name index_url sp ls"
  by (simp add: index_sections_read_def fun_eq_iff)

lemma index_sections_version:
  assumes "meaningful l = lit ''[[version]]''"
  shows "index_sections_read env name index_url sp (l # ls) name' ms \<longleftrightarrow> name' = name \<and> sections_read env name index_url sp [] ls ms"
proof -
  have "meaningful l \<noteq> []" using assms by simp
  then show ?thesis
    using assms by (cases "split_sections (nonblank ls)")
      (auto simp: index_sections_read_def header_read_def sections_read_def list_all2_Cons1 Cons_eq_map_conv map_eq_Cons_conv)
qed

lemma index_sections_entry:
  assumes "meaningful l \<noteq> []" "meaningful l \<noteq> lit ''[[version]]''"
  shows "index_sections_read env name index_url sp (l # ls) name' ms \<longleftrightarrow>
    name = None \<and> (\<exists>v. line_entry l = Some (lit ''name'', v) \<and> index_sections_read env (Some v) index_url sp ls name' ms)"
  using assms by (cases "split_sections (nonblank ls)") (auto simp: index_sections_read_def header_read_def split: list.splits)

lemma parse_index_header:
  assumes "ix_current s = None" "ix_versions s = []"
  shows "parse_index_lines env index_url sp i s ls = Inr s' \<longleftrightarrow> list_all short_line ls \<and>
    (\<exists>name' ms. index_sections_read env (ix_name s) index_url sp ls name' ms \<and> length ms \<le> MAX_REGISTRY_INDEX_VERSIONS
      \<and> s' = \<lparr>ix_name = name', ix_versions = ms, ix_current = None\<rparr>)"
  using assms
proof (induction ls arbitrary: i s)
  case Nil
  then show ?case by (cases s) (auto simp: close_version_def index_sections_Nil)
next
  case (Cons raw ls)
  consider "\<not> short_line raw" | "short_line raw" "meaningful raw = []" | "short_line raw" "meaningful raw = lit ''[[version]]''"
    | "short_line raw" "meaningful raw \<noteq> []" "meaningful raw \<noteq> lit ''[[version]]''" by blast
  then show ?case
  proof cases
    case 2
    then show ?thesis using Cons.IH [OF Cons.prems] by (simp add: index_sections_blank)
  next
    case 3
    then show ?thesis
      using Cons.prems parse_index_sections [of "s\<lparr>ix_current := Some []\<rparr>" "[]" env index_url sp "i + 1" ls s']
      by (cases s) (simp add: close_version_def index_sections_version)
  next
    case 4
    show ?thesis
    proof (cases "\<exists>v. ix_name s = None \<and> line_entry raw = Some (lit ''name'', v)")
      case True
      then obtain v where v: "ix_name s = None" "line_entry raw = Some (lit ''name'', v)" by blast
      then obtain key u where "split_once (ch CHR ''='') (meaningful raw) = Some (key, u)"
          "parse_string_value (trim_text u) (i + 1) sp = Inr v" "trim_text key = lit ''name''"
        using line_entry_value [of raw _ _ "i + 1" sp] line_entry_no_value [of raw]
        by (cases "split_once (ch CHR ''='') (meaningful raw)") (auto split: sum.splits)
      then show ?thesis
        using 4 v Cons.prems Cons.IH [of "s\<lparr>ix_name := Some v\<rparr>" "i + 1"] by (simp add: index_sections_entry)
    next
      case False
      then have "parse_index_lines env index_url sp i s (raw # ls) \<noteq> Inr s'"
        using 4 Cons.prems line_entry_value [of raw _ _ "i + 1" sp] by (auto split: option.splits sum.splits)
      then show ?thesis using False 4 by (auto simp: index_sections_entry)
    qed
  qed simp
qed

section \<open>The order of the versions\<close>

lemma mset_insert_desc: "mset (insert_desc x ys) = add_mset x (mset ys)"
  by (induction ys) auto

lemma sorted_insert_desc:
  "sorted_wrt (\<lambda>a b. fst b \<le> fst a) ys \<Longrightarrow> sorted_wrt (\<lambda>a b. fst b \<le> fst a) (insert_desc x ys)"
proof (induction ys)
  case (Cons y ys)
  have "set (insert_desc x ys) = insert x (set ys)"
    using arg_cong [OF mset_insert_desc [of x ys], of set_mset] by simp
  then show ?case using Cons by (auto dest: less_imp_le order_trans)
qed simp

lemma sort_desc_sorted: "mset (sort_desc xs) = mset xs \<and> sorted_wrt (\<lambda>a b. fst b \<le> fst a) (sort_desc xs)"
proof -
  have "sorted_wrt (\<lambda>a b. fst b \<le> fst a) ys \<Longrightarrow> mset (foldl (\<lambda>ys x. insert_desc x ys) ys xs) = mset ys + mset xs
      \<and> sorted_wrt (\<lambda>a b. fst b \<le> fst a) (foldl (\<lambda>ys x. insert_desc x ys) ys xs)" for ys
    by (induction xs arbitrary: ys) (auto simp: mset_insert_desc sorted_insert_desc)
  from this [of "[]"] show ?thesis by (simp add: sort_desc_def)
qed

text \<open>The version of a published package, for a version text that was checked.\<close>

definition version_of :: "span \<Rightarrow> registry_manifest \<Rightarrow> package_version" where
  "version_of sp m = projr (parse_package_version (rm_version m) sp)"

definition valid_version :: "span \<Rightarrow> registry_manifest \<Rightarrow> bool" where
  "valid_version sp m \<longleftrightarrow> validate_version (rm_version m) sp = Inr ()"

lemma valid_version_parse: "valid_version sp m \<Longrightarrow> parse_package_version (rm_version m) sp = Inr (version_of sp m)"
  by (cases "parse_package_version (rm_version m) sp") (auto simp: valid_version_def validate_version_def version_of_def)

lemma valid_version_eq:
  assumes "valid_version sp a" "valid_version sp b"
  shows "rm_version a = rm_version b \<longleftrightarrow> version_of sp a = version_of sp b"
proof -
  have "rm_version m = version_text (version_of sp m)" if "valid_version sp m" for m
    using parse_version_result [of sp "rm_version m"] valid_version_parse [OF that] by simp
  then show ?thesis using assms by (metis version_of_def)
qed

lemma version_keys_valid:
  "list_all (valid_version sp) ms \<Longrightarrow> version_keys ms sp = Some (map (\<lambda>m. (version_of sp m, m)) ms)"
  by (induction ms) (auto simp: valid_version_parse)

definition newest_first :: "span \<Rightarrow> registry_manifest list \<Rightarrow> registry_manifest list" where
  "newest_first sp ms = map snd (sort_desc (map (\<lambda>m. (version_of sp m, m)) ms))"

lemma newest_first_sorted:
  "mset (newest_first sp ms) = mset ms" "sorted_wrt (\<lambda>a b. version_of sp b \<le> version_of sp a) (newest_first sp ms)"
proof -
  let ?ks = "sort_desc (map (\<lambda>m. (version_of sp m, m)) ms)"
  note sorted = sort_desc_sorted [of "map (\<lambda>m. (version_of sp m, m)) ms"]
  show "mset (newest_first sp ms) = mset ms"
    by (simp add: newest_first_def conjunct1 [OF sort_desc_sorted] multiset.map_comp comp_def)
  have "set ?ks = (\<lambda>m. (version_of sp m, m)) ` set ms"
    using mset_eq_setD [of ?ks "map (\<lambda>m. (version_of sp m, m)) ms"] sorted by simp
  then have keys: "\<And>k. k \<in> set ?ks \<Longrightarrow> fst k = version_of sp (snd k)" by auto
  have "sorted_wrt (\<lambda>a b. version_of sp (snd b) \<le> version_of sp (snd a)) ?ks"
    by (rule sorted_wrt_mono_rel [OF _ conjunct2 [OF sorted]]) (simp add: keys)
  then show "sorted_wrt (\<lambda>a b. version_of sp b \<le> version_of sp a) (newest_first sp ms)"
    by (simp add: newest_first_def sorted_wrt_map)
qed

lemma adjacent_duplicate_iff:
  assumes "list_all (valid_version sp) ms" "sorted_wrt (\<lambda>a b. version_of sp b \<le> version_of sp a) ms"
  shows "adjacent_duplicate ms = None \<longleftrightarrow> sorted_wrt (\<lambda>a b. version_of sp b < version_of sp a) ms"
  using assms
proof (induction ms rule: adjacent_duplicate.induct)
  case (1 a b ms)
  have eq: "rm_version a = rm_version b \<longleftrightarrow> version_of sp a = version_of sp b" using 1(2) valid_version_eq by simp
  show ?case
  proof (cases "rm_version a = rm_version b")
    case True
    then show ?thesis using eq by simp
  next
    case False
    then have less: "version_of sp b < version_of sp a" using eq 1(3) by auto
    then show ?thesis using 1 False by (auto dest: less_trans)
  qed
qed auto

lemma newest_first_unique:
  assumes "sorted_wrt (\<lambda>a b. version_of sp b < version_of sp a) vs" "mset vs = mset ms"
  shows "newest_first sp ms = vs"
proof -
  have strict: "sorted_wrt (<) (map (version_of sp) (rev vs))" using assms(1) by (simp add: sorted_wrt_map sorted_wrt_rev)
  have same: "mset (rev (newest_first sp ms)) = mset (rev vs)" using assms(2) newest_first_sorted(1) by simp
  then have "mset (map (version_of sp) (rev (newest_first sp ms))) = mset (map (version_of sp) (rev vs))" by simp
  moreover have "sorted (map (version_of sp) (rev (newest_first sp ms)))"
    using newest_first_sorted(2) [of sp ms] by (simp add: sorted_wrt_map sorted_wrt_rev)
  moreover have "sorted (map (version_of sp) (rev vs))" using strict strict_sorted_iff by blast
  ultimately have "map (version_of sp) (rev (newest_first sp ms)) = map (version_of sp) (rev vs)"
    by (metis properties_for_sort sorted_sort_id)
  moreover have "inj_on (version_of sp) (set (rev (newest_first sp ms)) \<union> set (rev vs))"
    using strict mset_eq_setD [OF same] by (auto simp: strict_sorted_iff distinct_map)
  ultimately show ?thesis using map_inj_on [of "version_of sp" "rev (newest_first sp ms)" "rev vs"] by simp
qed

section \<open>Registry indexes are read faithfully\<close>

definition section_read :: "registry_env \<Rightarrow> ustring \<Rightarrow> span \<Rightarrow> ustring \<Rightarrow> ustring list \<Rightarrow> registry_manifest \<Rightarrow> bool" where
  "section_read env index_url sp name ls m = (case those (map line_entry ls) of
       None \<Rightarrow> False
     | Some es \<Rightarrow> distinct (map fst es) \<and> version_read env index_url sp name es m)"

definition index_read :: "registry_env \<Rightarrow> ustring \<Rightarrow> span \<Rightarrow> ustring \<Rightarrow> registry_index \<Rightarrow> bool" where
  "index_read env index_url sp source idx \<longleftrightarrow> validate_registry_url env index_url sp = Inr ()
     \<and> list_all (\<lambda>l. str_len l \<le> MAX_REGISTRY_LINE_BYTES) (str_lines source)
     \<and> validate_package_name (ri_name idx) sp = Inr ()
     \<and> (case split_sections (nonblank (str_lines source)) of (h, ss) \<Rightarrow>
          map line_entry h = [Some (lit ''name'', ri_name idx)] \<and> length ss \<le> MAX_REGISTRY_INDEX_VERSIONS
          \<and> (\<exists>ms. list_all2 (section_read env index_url sp (ri_name idx)) ss ms \<and> mset ms = mset (ri_versions idx)))
     \<and> sorted_wrt (\<lambda>a b. version_of sp b < version_of sp a) (ri_versions idx)"

lemma entries_read_sections:
  assumes "visits_keys env"
  shows "(\<exists>ess. map (map line_entry) ss = map (map Some) ess \<and> list_all2 (entries_read env (Some name) index_url sp) ess ms)
    \<longleftrightarrow> list_all2 (section_read env index_url sp name) ss ms"
proof -
  let ?parsed = "\<lambda>ls es. map line_entry ls = map Some es"
  have "entries_read env (Some name) index_url sp es m \<longleftrightarrow> distinct (map fst es) \<and> version_read env index_url sp name es m" for es m
    using finish_version_read [OF assms, of es "Some name" index_url sp m] by (auto simp: entries_read_def version_read_def)
  then have "section_read env index_url sp name = ?parsed OO entries_read env (Some name) index_url sp"
    by (auto simp: fun_eq_iff OO_def section_read_def split: option.splits simp flip: those_Some)
  moreover have "map (map line_entry) ss = map (map Some) ess \<longleftrightarrow> list_all2 ?parsed ss ess" for ess
    by (subst list_all2_eq) (simp add: list_all2_map1 list_all2_map2)
  ultimately show ?thesis
    using fun_cong [OF fun_cong [OF list.rel_compp [of ?parsed "entries_read env (Some name) index_url sp"], of ss], of ms]
    by (simp add: relcompp_apply)
qed

lemma index_sections_name:
  assumes "visits_keys env"
  shows "index_sections_read env None index_url sp ls (Some name) ms \<longleftrightarrow> (case split_sections (nonblank ls) of (h, ss) \<Rightarrow>
    map line_entry h = [Some (lit ''name'', name)] \<and> list_all2 (section_read env index_url sp name) ss ms)"
  by (auto simp: index_sections_read_def header_read_def entries_read_sections [OF assms] map_eq_Cons_conv split: prod.splits list.splits)

lemma index_sections_valid:
  assumes "visits_keys env" "index_sections_read env name index_url sp ls name' ms"
  shows "list_all (valid_version sp) ms"
proof -
  have "valid_version sp m" if "entries_read env name' index_url sp es m" for es m
    using that finish_version_read [OF assms(1)] by (auto simp: entries_read_def version_read_def valid_version_def)
  moreover obtain ess where "list_all2 (entries_read env name' index_url sp) ess ms"
    using assms(2) by (auto simp: index_sections_read_def split: prod.splits)
  ultimately show ?thesis by (auto simp: list_all_length list_all2_conv_all_nth)
qed

abbreviation index_start :: index_state where
  "index_start \<equiv> \<lparr>ix_name = None, ix_versions = [], ix_current = None\<rparr>"

lemma parse_index_start:
  "parse_index_lines env index_url sp 0 index_start ls = Inr s \<longleftrightarrow> list_all short_line ls \<and>
    (\<exists>name ms. index_sections_read env None index_url sp ls name ms \<and> length ms \<le> MAX_REGISTRY_INDEX_VERSIONS
      \<and> s = \<lparr>ix_name = name, ix_versions = ms, ix_current = None\<rparr>)"
  using parse_index_header [of index_start env index_url sp 0 ls s] by simp

lemma parse_index_keys:
  assumes "visits_keys env" "parse_index_lines env index_url sp 0 index_start ls = Inr s"
  shows "version_keys (ix_versions s) sp = Some (map (\<lambda>m. (version_of sp m, m)) (ix_versions s))"
  using assms(2) index_sections_valid [OF assms(1)] version_keys_valid unfolding parse_index_start by auto

lemma parse_registry_index_run:
  assumes "visits_keys env"
  shows "(parse_registry_index env source index_url sp = Inr idx \<longleftrightarrow> validate_registry_url env index_url sp = Inr () \<and>
      (\<exists>s name. parse_index_lines env index_url sp 0 index_start (str_lines source) = Inr s \<and> ix_name s = Some name
        \<and> validate_package_name name sp = Inr () \<and> adjacent_duplicate (newest_first sp (ix_versions s)) = None
        \<and> idx = \<lparr>ri_name = name, ri_versions = newest_first sp (ix_versions s)\<rparr>))
    \<and> parse_registry_index env source index_url sp \<noteq> Inl RustPanic"
  using parse_index_keys [OF assms, of index_url sp "str_lines source"]
  by (auto simp: parse_registry_index_def newest_first_def Let_def split: sum.splits option.splits)

lemma newest_first_unique_versions:
  assumes "visits_keys env" "index_sections_read env None index_url sp ls name ms"
  shows "adjacent_duplicate (newest_first sp ms) = None \<longleftrightarrow>
    sorted_wrt (\<lambda>a b. version_of sp b < version_of sp a) (newest_first sp ms)"
proof (rule adjacent_duplicate_iff [OF _ newest_first_sorted(2)])
  show "list_all (valid_version sp) (newest_first sp ms)"
    using index_sections_valid [OF assms] mset_eq_setD [OF newest_first_sorted(1) [of sp ms]] by (simp add: list_all_iff)
qed

text \<open>C8: A registry index is accepted if and only if it is good, and then it says what its lines say; reading it never
  panics, although the versions are parsed a second time while they are sorted. The address is a valid one, no line
  is longer than 8192 bytes, before the first \<open>[[version]]\<close> there is the name and nothing else, there are at most
  4096 versions, and each of their sections has distinct keys, all known and no local sources, and values that pass
  the checks of their fields. The versions of the result are exactly those of the sections, under the name of the
  index, with their archive resolved against the address of the index, in strictly descending order.\<close>

theorem registry_index_accepted_iff:
  assumes env: "visits_keys env"
  shows "(parse_registry_index env source index_url sp = Inr idx \<longleftrightarrow> index_read env index_url sp source idx)
    \<and> parse_registry_index env source index_url sp \<noteq> Inl RustPanic"
proof (intro conjI iffI)
  assume "parse_registry_index env source index_url sp = Inr idx"
  then obtain name ms where run: "validate_registry_url env index_url sp = Inr ()" "list_all short_line (str_lines source)"
      "index_sections_read env None index_url sp (str_lines source) (Some name) ms" "length ms \<le> MAX_REGISTRY_INDEX_VERSIONS"
      "validate_package_name name sp = Inr ()" "adjacent_duplicate (newest_first sp ms) = None"
      "idx = \<lparr>ri_name = name, ri_versions = newest_first sp ms\<rparr>"
    using parse_registry_index_run [OF env] unfolding parse_index_start by auto
  then show "index_read env index_url sp source idx"
    using newest_first_unique_versions [OF env run(3)] newest_first_sorted(1) [of sp ms]
    by (auto simp: index_read_def index_sections_name [OF env] dest: list_all2_lengthD intro!: exI [of _ ms] split: prod.splits)
next
  assume read: "index_read env index_url sp source idx"
  then obtain ms where ms: "index_sections_read env None index_url sp (str_lines source) (Some (ri_name idx)) ms"
      "length ms \<le> MAX_REGISTRY_INDEX_VERSIONS" "mset ms = mset (ri_versions idx)"
    by (auto simp: index_read_def index_sections_name [OF env] split: prod.splits) (metis list_all2_lengthD)
  let ?s = "\<lparr>ix_name = Some (ri_name idx), ix_versions = ms, ix_current = None\<rparr>"
  have "newest_first sp ms = ri_versions idx"
    using newest_first_unique [of sp "ri_versions idx" ms] read ms(3) by (simp add: index_read_def)
  moreover have "parse_index_lines env index_url sp 0 index_start (str_lines source) = Inr ?s"
    unfolding parse_index_start using read ms by (auto simp: index_read_def)
  ultimately show "parse_registry_index env source index_url sp = Inr idx"
    unfolding conjunct1 [OF parse_registry_index_run [OF env]] using read newest_first_unique_versions [OF env ms(1)]
    by (intro conjI exI [of _ ?s] exI [of _ "ri_name idx"]) (simp_all add: index_read_def)
qed (use parse_registry_index_run [OF env] in blast)

definition demo_index_text :: ustring where
  "demo_index_text = lit ''name = '' @ [quote] @ lit ''core'' @ [quote, 10]
     @ lit ''[[version]]'' @ [10] @ lit ''version = '' @ [quote] @ lit ''1.9.0'' @ [quote, 10] @ lit ''url = '' @ [quote] @ lit ''core-1.9.0.tar.zst'' @ [quote, 10]
     @ lit ''checksum = '' @ [quote] @ lit ''sha256-'' @ replicate 64 (ch CHR ''a'') @ [quote, 10]
     @ lit ''[[version]] # newer'' @ [10] @ lit ''checksum = '' @ [quote] @ lit ''sha256-'' @ replicate 64 (ch CHR ''b'') @ [quote, 10]
     @ lit ''dep.zlib = '' @ [quote] @ lit ''^1.2.0'' @ [quote, 10] @ lit ''version = '' @ [quote] @ lit ''1.10.0'' @ [quote, 10]
     @ lit ''url = '' @ [quote] @ lit ''core-1.10.0.tar.zst'' @ [quote, 10]"

definition demo_index_read :: registry_index where
  "demo_index_read = \<lparr>ri_name = lit ''core'', ri_versions =
     [\<lparr>rm_name = lit ''core'', rm_version = lit ''1.10.0'', rm_source = lit ''core-1.10.0.tar.zst'',
        rm_checksum = lit ''sha256-'' @ replicate 64 (ch CHR ''b''),
        rm_dependencies = [\<lparr>pd_name = lit ''zlib'', pd_version = lit ''^1.2.0'', pd_source = None, pd_checksum = None\<rparr>]\<rparr>,
      \<lparr>rm_name = lit ''core'', rm_version = lit ''1.9.0'', rm_source = lit ''core-1.9.0.tar.zst'',
        rm_checksum = lit ''sha256-'' @ replicate 64 (ch CHR ''a''), rm_dependencies = []\<rparr>]\<rparr>"

theorem registry_index_accepted_iff_witness:
  "visits_keys demo_env \<and> parse_registry_index demo_env demo_index_text (lit ''https://r/core'') Span_default = Inr demo_index_read
   \<and> index_read demo_env (lit ''https://r/core'') Span_default demo_index_text demo_index_read"
proof -
  have env: "visits_keys demo_env" by (simp add: visits_keys_def demo_env_def)
  have "parse_registry_index demo_env demo_index_text (lit ''https://r/core'') Span_default = Inr demo_index_read" by code_simp
  then show ?thesis
    using env registry_index_accepted_iff [OF env, of demo_index_text "lit ''https://r/core''" Span_default demo_index_read] by blast
qed

end
