(* ===== verification/Spec2Isabelle.thy ===== *)
theory Spec2Isabelle
  imports Front_End Pattern_Debug Pattern_Roundtrip Json_Roundtrip Diagnostics Checked_Int Budgets Capture_Free Match_Exact Wait_Graph Task_Ledger Task_Batches Package_Resolve Package_Summary Package_Index_Spec
begin

text \<open>The Ku language implementation (\<^verbatim>\<open>src/src\<close>, written in Rust): its front end, its pure standard
  library, the operators of its interpreter, the integer helpers of its C backend, the protocol of
  its task runtime and the core of its package manager.

  \<^bold>\<open>The program.\<close> A Ku source text goes through the lexer (\<^verbatim>\<open>lexer/mod.rs\<close>), which yields tokens
  with exact source positions, and through a recursive-descent parser (\<^verbatim>\<open>parser/mod.rs\<close> with
  \<^verbatim>\<open>parser/match_pattern.rs\<close> and \<^verbatim>\<open>parser/expression_tree.rs\<close>), which yields the tree of \<^verbatim>\<open>ast.rs\<close>.
  Every later stage walks that tree, so the front end has to bound its depth: the parser carries
  depth counters, the checker (\<^verbatim>\<open>checker/statement_depth.rs\<close>) re-checks the depth with an explicit
  worklist, and the traits of match patterns (\<^verbatim>\<open>ast/match_pattern.rs\<close>) are iterative. A checked
  program is either interpreted on the values of \<^verbatim>\<open>runtime/value.rs\<close> (\<^verbatim>\<open>runtime/interpreter.rs\<close>, with the
  builtins of \<^verbatim>\<open>stdlib\<close> and the tasks of \<^verbatim>\<open>runtime/task.rs\<close>) or lowered and printed as C (\<^verbatim>\<open>ir\<close>,
  \<^verbatim>\<open>backend\<close>). Errors of all stages are the values of \<^verbatim>\<open>error.rs\<close>.

  \<^bold>\<open>Shared theories.\<close>
  \<^item> \<^verbatim>\<open>Prelude\<close>: Rust's characters (code points), checked arithmetic, results as a sum type with an
    explicit panic value, and a state monad over such results.
  \<^item> \<^verbatim>\<open>Span_Error\<close>: \<^verbatim>\<open>span.rs\<close>, \<^verbatim>\<open>token.rs\<close> and the values of \<^verbatim>\<open>error.rs\<close>. \<^verbatim>\<open>Diagnostics\<close>: the registry of
    diagnostics, the classification of messages and the rendering; a rendered diagnostic carries no
    control or bidirectional character of the program.
  \<^item> \<^verbatim>\<open>Rust_Num\<close>, \<^verbatim>\<open>Rust_Format\<close>, \<^verbatim>\<open>Rust_Float\<close>: what the code uses of Rust's number parsing, its
    formatting traits and IEEE doubles (bit patterns with exact rational semantics).
  \<^item> \<^verbatim>\<open>Worklist\<close>: the loop \<^verbatim>\<open>while let Some(item) = stack.pop()\<close> with its termination measure and its
    agreement with a recursive traversal, as locales.

  \<^bold>\<open>Front end.\<close>
  \<^item> \<^verbatim>\<open>Lexer\<close>: the whole lexer; it returns on every text and its token ranges are exact.
  \<^item> \<^verbatim>\<open>Ast\<close>, \<^verbatim>\<open>Expression_Tree\<close>: the syntax tree and the structural bound on expressions.
  \<^item> \<^verbatim>\<open>Parser_Core\<close>, \<^verbatim>\<open>Parser_Types\<close>, \<^verbatim>\<open>Parser_Pattern\<close>, \<^verbatim>\<open>Parser_Expr\<close>, \<^verbatim>\<open>Parser_Stmt\<close>, \<^verbatim>\<open>Parser_Program\<close>:
    the parser, one theory per layer. The mutual recursion between statements and expressions is
    open: a layer takes the parsers of the other layers as arguments, and \<^verbatim>\<open>Parser_Program\<close> ties the
    knot with fuel. The parser returns on every token sequence and keeps its depth bounds.
  \<^item> \<^verbatim>\<open>Checker_Depth\<close>, \<^verbatim>\<open>Ast_Match_Pattern\<close>, \<^verbatim>\<open>Pattern_Debug\<close>: the iterative algorithms, each proved equal
    to the recursive definition it replaces.
  \<^item> \<^verbatim>\<open>Parser_Run\<close>, \<^verbatim>\<open>Pattern_Roundtrip\<close>: runs of the parser on given tokens and the round trip of
    match patterns. \<^verbatim>\<open>Front_End\<close>: the builtins of \<^verbatim>\<open>stdlib/compiler.rs\<close>.

  \<^bold>\<open>Values, library and operators.\<close>
  \<^item> \<^verbatim>\<open>Values\<close>, \<^verbatim>\<open>Value_Walk\<close>: runtime values, the iterative walk over owned values with its scratch budget,
    and the projections that move a task out of a container.
  \<^item> \<^verbatim>\<open>Stdlib\<close>: string, array, object, core and error builtins with their argument checks.
    \<^verbatim>\<open>Json\<close>, \<^verbatim>\<open>Json_Total\<close>, \<^verbatim>\<open>Json_Roundtrip\<close>: the JSON parser and writer, their totality and round trip.
  \<^item> \<^verbatim>\<open>Operators\<close>: unary and binary operators on owned and borrowed values; \<^verbatim>\<open>Checked_Int\<close>: the C
    helpers of \<^verbatim>\<open>backend/c_int.rs\<close>, which agree with the operators of the interpreter.
  \<^item> \<^verbatim>\<open>Budgets\<close>: the budgets of lowering, capture analysis and C output, as instances of one locale of
    meters with a sticky failure.
  \<^item> \<^verbatim>\<open>Match_Scratch\<close>, \<^verbatim>\<open>Capture\<close>, \<^verbatim>\<open>Capture_Free\<close>: the capture analysis of closures, with its reparsing of
    template interpolations and its budgets; it computes exactly the free names of an inductive definition.
  \<^item> \<^verbatim>\<open>Match_Bindings\<close>, \<^verbatim>\<open>Match_Exact\<close>: the match loop on owned values and views; it agrees with the
    recursion over the pattern and binds exactly the parts of the value the names stand for.

  \<^bold>\<open>Package manager.\<close> (\<^verbatim>\<open>package.rs\<close>)
  \<^item> \<^verbatim>\<open>Package_Version\<close>: versions and their order, requirements, package names; a requirement accepts
    exactly the versions of the interval it denotes, and printed versions parse back.
  \<^item> \<^verbatim>\<open>Package_Solver\<close>, \<^verbatim>\<open>Package_Resolve\<close>: the backtracking resolver over a registry index, with the
    download of an index and the clock as parameters. A resolution satisfies every requirement it
    reaches, a conflict is reported only when no resolution exists, and the search always returns:
    \<^verbatim>\<open>SOLVER_FUEL\<close> is one more than the step limit of the code.
  \<^item> \<^verbatim>\<open>Package_Paths\<close>: the paths of manifests, imports and archives on the model of \<^verbatim>\<open>std::path\<close>; an accepted
    path stays below the directory it is joined to.
  \<^item> \<^verbatim>\<open>Package_Archive\<close>, \<^verbatim>\<open>Package_Unpack\<close>, \<^verbatim>\<open>Package_Summary\<close>: unpacking a downloaded archive on a model of the
    file system, with the decoder, the clock and external failures as parameters, and the summary of its
    tree. Whatever the archive holds, nothing outside the destination changes, a success has unpacked
    exactly its files, and the summary hashes exactly these.
  \<^item> \<^verbatim>\<open>Package_Text\<close>: the lines, values, checksums, URLs and dependency drafts of the text formats.
    \<^verbatim>\<open>Package_Lock\<close>, \<^verbatim>\<open>Package_Lock_Roundtrip\<close>: \<^verbatim>\<open>ku.lock\<close>; what the writer writes the readers read back, for
    values that need no escape (an escaped value is not read back).
  \<^item> \<^verbatim>\<open>Package_Manifest\<close>, \<^verbatim>\<open>Package_Manifest_Spec\<close>, \<^verbatim>\<open>Package_Index_Spec\<close>: the parsers of \<^verbatim>\<open>ku.mod\<close> and of a
    registry index. They accept exactly the texts that a specification by lookup in the list of all
    entries describes, with the result it describes, in whatever order a hash map is walked.

  \<^bold>\<open>Task runtime.\<close>
  \<^item> \<^verbatim>\<open>Termination_Context\<close>: the thread-local cleanup and execution contexts of \<^verbatim>\<open>task/cancellation.rs\<close>.
  \<^item> \<^verbatim>\<open>Wait_Graph\<close>: wait edges and producer gate; registered waits never form a cycle.
  \<^item> \<^verbatim>\<open>Task_State\<close>, \<^verbatim>\<open>Task_Invariants\<close>, \<^verbatim>\<open>Task_Ledger\<close>: the life of a task. Every method of \<^verbatim>\<open>TaskState\<close> is a
    list of stages, one per critical section or atomic access, and a run is any interleaving of stages
    of any number of threads. Invariants are proved once per stage through a locale: outcomes are
    final, each retirement is accounted for once, and payloads are neither lost nor duplicated.
  \<^item> \<^verbatim>\<open>Task_Batches\<close>: the waits of a scope exit (\<^verbatim>\<open>task/cancel_batch.rs\<close>, \<^verbatim>\<open>task/retirement.rs\<close>), with the
    clock and the flags set by other threads as inputs.

  \<^bold>\<open>Fuel.\<close> A type is parsed below \<^verbatim>\<open>MAX_TYPE_DEPTH\<close> = 32, so \<^verbatim>\<open>TYPE_FUEL\<close> = 33 suffices. A statement or
  an expression consumes one of its two depth counters, so \<^verbatim>\<open>PARSE_FUEL\<close> = 195 suffices. Both are
  proved to be enough: running out of fuel is a panic value of the model, and the totality theorems
  exclude panics. Loops of the parser carry the number of remaining tokens, and every round is
  proved to consume one. The collectors of the capture analysis carry 129 minus the depth, and satisfy
  the recursion equations of the source at every depth. Worklists carry a bound on the total size of the pending work.

  \<^bold>\<open>Not modelled.\<close> The type and ownership checker, the lowering to the intermediate representation and
  the C backend cover the whole language in about forty thousand lines; of them only the depth check,
  the construction budget, the output buffer and the integer helpers are modelled. The evaluation of
  statements and calls needs closures, threads and host handles. Of the package manager the
  network, the cache, the signatures and publishing are not modelled; the command line, the
  registry server and the network builtins are file, process and network I/O. Allocation
  failure, the clock and hash iteration order are parameters where the code depends on them.\<close>

section \<open>Lexer and parser\<close>

lemma lex_stream_ok:
  assumes "lex src = Inr toks"
  shows "stream_ok toks"
  using lex_loop_stream [OF assms [unfolded lex_def] lx_ok_new]
  by (auto simp: stream_ok_def butlast_append Token_new_def)

text \<open>The lexer and the parser agree on what a token stream is: on the lexer's output the
  parser's stream check can only complain about too many tokens.\<close>

lemma lexer_output_accepted:
  assumes "lex src = Inr toks"
  shows "check_token_stream (Parser_new toks) =
    (if MAX_TOKENS < length toks
     then Inl (Raise (parse_error (lit ''too many tokens; input is too large for Ku'') (tk_span (hd toks))))
     else Inr ((), Parser_new toks))"
proof -
  have "stream_ok toks" using assms by (rule lex_stream_ok)
  moreover have "find (\<lambda>t. tk_kind t = TK_Eof) (butlast toks) = None"
    using \<open>stream_ok toks\<close> by (auto simp: stream_ok_def find_None_iff)
  ultimately show ?thesis
    by (cases toks) (auto simp: check_token_stream_def sbind_def sget_def sraise_def sreturn_def
        stream_ok_def Parser_new_def)
qed

lemma lexer_output_accepted_example:
  "\<exists>toks. lex (lit ''module m'') = Inr toks \<and> length toks = 3
     \<and> check_token_stream (Parser_new toks) = Inr ((), Parser_new toks)"
proof -
  have l: "lex (lit ''module m'') = Inr
      [Token_new TK_Module (Span_new (Position_new 1 1 0) (Position_new 1 7 6)),
       Token_new (TK_Ident (lit ''m'')) (Span_new (Position_new 1 8 7) (Position_new 1 9 8)),
       Token_new TK_Eof (Span_point (Position_new 1 9 8))]"
    by code_simp
  show ?thesis using lexer_output_accepted [OF l] l by (auto simp: MAX_TOKENS_def)
qed

section \<open>Parser and checker\<close>

text \<open>C2: Every program the parser accepts passes the checker's bound on nested statement bodies:
  the two limits, enforced by different code, agree.\<close>

theorem parsed_programs_pass_depth_check:
  assumes "parse_program toks = Inr p"
  shows "statement_depth_check p = Some (Inr [])"
proof -
  have "program_ok p" using parse_program_result [of toks] assms by auto
  then have "item_depth_ok i" if "i \<in> set (pr_items p)" for i
    using that ok_mono(3) [of type_ok "\<lambda>_. True" 0]
    by (cases i) (auto simp: program_ok_def fn_ok_def dest!: bspec)
  then show ?thesis using statement_depth_check_verdict by (auto simp: program_depth_ok_def)
qed

theorem parsed_programs_pass_depth_check_witness:
  "\<exists>toks p. lex (lit ''fn f() { while (x) { x = 1 } }'') = Inr toks \<and> parse_program toks = Inr p
     \<and> statement_depth_check p = Some (Inr [])"
proof -
  let ?r = "case lex (lit ''fn f() { while (x) { x = 1 } }'') of Inl e \<Rightarrow> Inl e | Inr ts \<Rightarrow> parse_program ts"
  have "case ?r of Inl _ \<Rightarrow> False | Inr _ \<Rightarrow> True" by code_simp
  then obtain toks p where "lex (lit ''fn f() { while (x) { x = 1 } }'') = Inr toks" "parse_program toks = Inr p"
    by (auto split: sum.splits)
  then show ?thesis using parsed_programs_pass_depth_check by blast
qed

end
